(* ===== verification/Prelude.thy ===== *)
theory Prelude
  imports Main "HOL-Library.Word" "HOL-Library.AList" "HOL-Library.Sublist"
begin

unbundle bit_operations_syntax

text \<open>
  Shared vocabulary of the development: Python values and exceptions, byte strings and
  integers decoded from them, insertion-ordered dictionaries, and the bounded histories
  that several components of macdbg keep (oldest entries are evicted first).
\<close>

named_theorems res_simps \<open>unfolding of the exception monad\<close>
named_theorems dict_simps \<open>insertion-ordered dictionaries\<close>

section \<open>Exceptions as values\<close>

text \<open>
  The exception classes the modelled code raises; the message is kept. \<open>PyError\<close> is any
  other class, by name.
\<close>

datatype exn = ValueError string | RuntimeError string | KeyError string | PyError string string

type_synonym 'a res = "exn + 'a"

definition bindR :: "'a res \<Rightarrow> ('a \<Rightarrow> 'b res) \<Rightarrow> 'b res" where
  "bindR m f = (case m of Inl e \<Rightarrow> Inl e | Inr x \<Rightarrow> f x)"

definition guardR :: "bool \<Rightarrow> exn \<Rightarrow> unit res" where
  "guardR b e = (if b then Inr () else Inl e)"

fun mapR :: "('a \<Rightarrow> 'b res) \<Rightarrow> 'a list \<Rightarrow> 'b list res" where
  "mapR f [] = Inr []"
| "mapR f (x # xs) = bindR (f x) (\<lambda>y. bindR (mapR f xs) (\<lambda>ys. Inr (y # ys)))"

fun foldR :: "('a \<Rightarrow> 's \<Rightarrow> 's res) \<Rightarrow> 'a list \<Rightarrow> 's \<Rightarrow> 's res" where
  "foldR f [] s = Inr s"
| "foldR f (x # xs) s = bindR (f x s) (foldR f xs)"

lemma bindR_simps [simp, res_simps]:
  "bindR (Inl e) f = Inl e" "bindR (Inr x) f = f x"
  by (simp_all add: bindR_def)

lemma bindR_Inr [res_simps]: "bindR m f = Inr y \<longleftrightarrow> (\<exists>x. m = Inr x \<and> f x = Inr y)"
  by (auto simp: bindR_def split: sum.splits)

lemma guardR_Inr [simp, res_simps]: "guardR b e = Inr u \<longleftrightarrow> b"
  by (simp add: guardR_def)

lemma guardR_simps [simp, res_simps]: "guardR True e = Inr ()" "guardR False e = Inl e"
  by (simp_all add: guardR_def)

lemma foldR_append: "foldR f (xs @ ys) s = bindR (foldR f xs s) (foldR f ys)"
  by (induction xs arbitrary: s) (auto simp: bindR_def split: sum.splits)

lemma foldR_invariant:
  assumes "foldR f xs s = Inr t" and "P s"
    and step: "\<And>x s t. x \<in> set xs \<Longrightarrow> P s \<Longrightarrow> f x s = Inr t \<Longrightarrow> P t"
  shows "P t"
  using assms
proof (induction xs arbitrary: s)
  case Nil
  then show ?case by simp
next
  case (Cons x xs)
  from Cons.prems(1) obtain s1 where "f x s = Inr s1" "foldR f xs s1 = Inr t"
    by (auto simp: bindR_Inr)
  with Cons show ?case by (metis list.set_intros(1) list.set_intros(2))
qed

text \<open>A result meets one condition on its value or another on its exception.\<close>

definition okR :: "('a \<Rightarrow> bool) \<Rightarrow> (exn \<Rightarrow> bool) \<Rightarrow> 'a res \<Rightarrow> bool" where
  "okR Q E m = (case m of Inl e \<Rightarrow> E e | Inr x \<Rightarrow> Q x)"

named_theorems ok_rules \<open>rules for \<open>okR\<close>\<close>

lemma okR_Inl [simp]: "okR Q E (Inl e) = E e" and okR_Inr [simp]: "okR Q E (Inr x) = Q x"
  by (simp_all add: okR_def)

lemma okR_bind [ok_rules]: "okR P E m \<Longrightarrow> (\<And>x. P x \<Longrightarrow> okR Q E (f x)) \<Longrightarrow> okR Q E (bindR m f)"
  by (cases m) auto

lemma okR_guard [ok_rules]: "E e \<Longrightarrow> okR (\<lambda>_. b) E (guardR b e)"
  by (simp add: guardR_def)

lemma okR_foldR:
  assumes "P s" and "\<And>x s. x \<in> set xs \<Longrightarrow> P s \<Longrightarrow> okR P E (f x s)"
  shows "okR P E (foldR f xs s)"
  using assms
proof (induction xs arbitrary: s)
  case (Cons x xs)
  then have "okR P E (f x s)" by simp
  then show ?case
  proof (cases "f x s")
    case (Inr t)
    with Cons \<open>okR P E (f x s)\<close> show ?thesis by simp
  qed simp
qed simp

lemma okR_I: "(\<And>e. m = Inl e \<Longrightarrow> E e) \<Longrightarrow> (\<And>x. m = Inr x \<Longrightarrow> Q x) \<Longrightarrow> okR Q E m"
  by (cases m) auto

lemma okR_D: "okR Q E m \<Longrightarrow> m = Inr x \<Longrightarrow> Q x" and okR_E: "okR Q E m \<Longrightarrow> m = Inl e \<Longrightarrow> E e"
  by auto

section \<open>Bytes and integers\<close>

text \<open>
  A Python \<open>bytes\<close> value is a list of \<open>char\<close>: HOL's \<open>char\<close> is exactly one byte.
  Python integers are unbounded, so addresses and register values are \<open>int\<close>.
\<close>

type_synonym bytes = "char list"
type_synonym addr = int

definition byte_val :: "char \<Rightarrow> int" where
  "byte_val c = of_char c"

definition val_byte :: "int \<Rightarrow> char" where
  "val_byte v = char_of v"

fun le_int :: "bytes \<Rightarrow> int" where
  "le_int [] = 0"
| "le_int (b # bs) = byte_val b + 256 * le_int bs"

definition be_int :: "bytes \<Rightarrow> int" where
  "be_int bs = le_int (rev bs)"

fun int_le :: "nat \<Rightarrow> int \<Rightarrow> bytes" where
  "int_le 0 v = []"
| "int_le (Suc n) v = val_byte (v mod 256) # int_le n (v div 256)"

definition slice :: "nat \<Rightarrow> nat \<Rightarrow> 'a list \<Rightarrow> 'a list" where
  "slice i j xs = take (j - i) (drop i xs)"

lemma byte_val_range [simp]: "0 \<le> byte_val c" "byte_val c < 256"
  by (cases c, simp add: byte_val_def of_char_def)+

lemma byte_val_val_byte [simp]: "0 \<le> v \<Longrightarrow> v < 256 \<Longrightarrow> byte_val (val_byte v) = v"
  by (simp add: byte_val_def val_byte_def)

lemma val_byte_byte_val [simp]: "val_byte (byte_val c) = c"
  by (simp add: byte_val_def val_byte_def)

lemma le_int_nonneg [simp]: "0 \<le> le_int bs"
  by (induction bs) auto

lemma le_int_bound: "le_int bs < 256 ^ length bs"
proof (induction bs)
  case (Cons b bs)
  then have "le_int bs + 1 \<le> 256 ^ length bs" by simp
  then have "256 * le_int bs + 256 \<le> 256 ^ length (b # bs)" by simp
  moreover have "byte_val b < 256" by simp
  ultimately show ?case unfolding le_int.simps by linarith
qed simp

lemma length_int_le [simp]: "length (int_le n v) = n"
  by (induction n v rule: int_le.induct) auto

lemma le_int_int_le: "0 \<le> v \<Longrightarrow> v < 256 ^ n \<Longrightarrow> le_int (int_le n v) = v"
proof (induction n v rule: int_le.induct)
  case (2 n v)
  have "v div 256 < 256 ^ n" using "2.prems" by (simp add: div_less_iff_less_mult algebra_simps)
  with 2 show ?case by simp
qed simp

lemma int_le_le_int: "int_le (length bs) (le_int bs) = bs"
proof (induction bs)
  case (Cons b bs)
  have "(byte_val b + 256 * le_int bs) mod 256 = byte_val b"
    "(byte_val b + 256 * le_int bs) div 256 = le_int bs" by auto
  with Cons show ?case by simp
qed simp

lemma length_slice [simp]: "length (slice i j xs) = min (j - i) (length xs - i)"
  by (simp add: slice_def)

section \<open>Insertion-ordered dictionaries\<close>

text \<open>
  Python's \<open>dict\<close> and \<open>OrderedDict\<close>: an association list in insertion order with distinct
  keys. Assigning an existing key keeps its position.
\<close>

type_synonym ('k, 'v) odict = "('k \<times> 'v) list"

definition od_ok :: "('k, 'v) odict \<Rightarrow> bool" where
  "od_ok d = distinct (map fst d)"

definition od_set :: "'k \<Rightarrow> 'v \<Rightarrow> ('k, 'v) odict \<Rightarrow> ('k, 'v) odict" where
  "od_set k v d = AList.update k v d"

definition od_pop :: "'k \<Rightarrow> ('k, 'v) odict \<Rightarrow> ('k, 'v) odict" where
  "od_pop k d = filter (\<lambda>(k', v). k' \<noteq> k) d"

definition od_to_end :: "'k \<Rightarrow> ('k, 'v) odict \<Rightarrow> ('k, 'v) odict" where
  "od_to_end k d = (case map_of d k of None \<Rightarrow> d | Some v \<Rightarrow> od_pop k d @ [(k, v)])"

lemma od_get_set [dict_simps]: "map_of (od_set k v d) = (map_of d)(k \<mapsto> v)"
  by (simp add: od_set_def update_conv')

lemma od_get_pop [dict_simps]: "map_of (od_pop k d) = (map_of d)(k := None)"
  by (induction d) (auto simp: od_pop_def fun_eq_iff)

lemma od_keys_pop [dict_simps]: "fst ` set (od_pop k d) = fst ` set d - {k}"
  by (auto simp: od_pop_def)

lemma od_ok_set [dict_simps, intro]: "od_ok d \<Longrightarrow> od_ok (od_set k v d)"
  by (simp add: od_ok_def od_set_def distinct_update)

lemma od_ok_pop [dict_simps, intro]: "od_ok d \<Longrightarrow> od_ok (od_pop k d)"
  by (induction d) (auto simp: od_ok_def od_pop_def)

lemma od_ok_to_end [dict_simps, intro]: "od_ok d \<Longrightarrow> od_ok (od_to_end k d)"
  by (auto simp: od_to_end_def od_ok_def od_pop_def distinct_map_filter image_iff
      split: option.splits)

lemma od_get_to_end [dict_simps]: "od_ok d \<Longrightarrow> map_of (od_to_end k d) = map_of d"
proof (cases "map_of d k")
  case (Some v)
  have "map_of (od_pop k d @ [(k, v)]) = map_of d"
  proof
    fix k' show "map_of (od_pop k d @ [(k, v)]) k' = map_of d k'"
      using Some by (auto simp: map_add_def od_get_pop split: option.splits)
  qed
  with Some show ?thesis by (simp add: od_to_end_def)
qed (simp add: od_to_end_def)

lemma od_ok_tl [dict_simps, intro]: "od_ok d \<Longrightarrow> od_ok (tl d)"
  by (cases d) (auto simp: od_ok_def)

lemma od_set_fresh [dict_simps]: "map_of d k = None \<Longrightarrow> od_set k v d = d @ [(k, v)]"
  by (induction d) (auto simp: od_set_def split: if_splits)

section \<open>Bounded histories\<close>

text \<open>
  The loop \<open>while over(xs): xs.popleft()\<close>. Several components bound what they keep this
  way; they differ in what counts as over the limit.
\<close>

fun evict :: "('e list \<Rightarrow> bool) \<Rightarrow> 'e list \<Rightarrow> 'e list" where
  "evict over [] = []"
| "evict over (x # xs) = (if over (x # xs) then evict over xs else x # xs)"

text \<open>The contract of a limit: nothing kept is within it.\<close>

locale bounded_history =
  fixes over :: "'e list \<Rightarrow> bool"
  assumes over_Nil: "\<not> over []"
begin

lemma within: "\<not> over (evict over xs)"
  by (induction xs) (auto simp: over_Nil)

lemma keeps_newest: "suffix (evict over xs) xs"
  by (induction xs) (auto simp: suffix_ConsI)

lemma idle: "\<not> over xs \<Longrightarrow> evict over xs = xs"
  by (cases xs) auto

lemma minimal: "suffix ys xs \<Longrightarrow> length (evict over xs) < length ys \<Longrightarrow> over ys"
proof (induction xs)
  case (Cons x xs)
  show ?case
  proof (cases "over (x # xs)")
    case True
    with Cons show ?thesis by (auto simp: suffix_Cons)
  next
    case False
    with Cons.prems show ?thesis by (auto dest!: suffix_length_le)
  qed
qed simp

end

end
