(* ===== verification/PyText.thy ===== *)
theory PyText
  imports Prelude
begin

text \<open>
  The operations of Python's \<open>str\<close> and \<open>bytes\<close> that the modelled code calls, on character
  lists. Text is modelled on the code points up to 255, where a character is a \<open>char\<close>;
  character classes are those of Python on that range. \<open>int(text, base)\<close> and \<open>hex\<close> follow
  the language reference, digit separators included.
\<close>

section \<open>Character classes\<close>

definition is_space :: "char \<Rightarrow> bool" where
  "is_space c = (let v = byte_val c in
     (9 \<le> v \<and> v \<le> 13) \<or> (28 \<le> v \<and> v \<le> 32) \<or> v = 133 \<or> v = 160)"

definition is_digit :: "char \<Rightarrow> bool" where
  "is_digit c = (let v = byte_val c in 48 \<le> v \<and> v \<le> 57)"

definition is_lower :: "char \<Rightarrow> bool" where
  "is_lower c = (let v = byte_val c in 97 \<le> v \<and> v \<le> 122)"

definition is_upper :: "char \<Rightarrow> bool" where
  "is_upper c = (let v = byte_val c in 65 \<le> v \<and> v \<le> 90)"

definition is_xdigit :: "char \<Rightarrow> bool" where
  "is_xdigit c = (let v = byte_val c in
     (48 \<le> v \<and> v \<le> 57) \<or> (97 \<le> v \<and> v \<le> 102) \<or> (65 \<le> v \<and> v \<le> 70))"

text \<open>The class \<open>\w\<close> of \<open>re\<close>: alphanumerics (also those of the Latin-1 range) and underscore.\<close>

definition is_word :: "char \<Rightarrow> bool" where
  "is_word c = (let v = byte_val c in is_digit c \<or> is_lower c \<or> is_upper c \<or> v = 95 \<or>
     v \<in> {170, 178, 179, 181, 185, 186, 188, 189, 190} \<or>
     (192 \<le> v \<and> v \<le> 255 \<and> v \<noteq> 215 \<and> v \<noteq> 247))"

definition lower_char :: "char \<Rightarrow> char" where
  "lower_char c = (let v = byte_val c in
     if is_upper c \<or> (192 \<le> v \<and> v \<le> 222 \<and> v \<noteq> 215) then val_byte (v + 32) else c)"

definition py_lower :: "string \<Rightarrow> string" where
  "py_lower s = map lower_char s"

section \<open>Stripping, splitting, searching\<close>

definition lstrip_by :: "(char \<Rightarrow> bool) \<Rightarrow> string \<Rightarrow> string" where
  "lstrip_by p s = dropWhile p s"

definition rstrip_by :: "(char \<Rightarrow> bool) \<Rightarrow> string \<Rightarrow> string" where
  "rstrip_by p s = rev (dropWhile p (rev s))"

definition strip_by :: "(char \<Rightarrow> bool) \<Rightarrow> string \<Rightarrow> string" where
  "strip_by p s = rstrip_by p (lstrip_by p s)"

definition py_strip :: "string \<Rightarrow> string" where
  "py_strip s = strip_by is_space s"

definition starts_with :: "string \<Rightarrow> string \<Rightarrow> bool" where
  "starts_with s p = (take (length p) s = p)"

definition ends_with :: "string \<Rightarrow> string \<Rightarrow> bool" where
  "ends_with s p = starts_with (rev s) (rev p)"

text \<open>\<open>s.find(needle)\<close>: the first position, None for -1.\<close>

fun py_find :: "string \<Rightarrow> string \<Rightarrow> nat option" where
  "py_find n [] = (if n = [] then Some 0 else None)"
| "py_find n (c # s) = (if starts_with (c # s) n then Some 0 else map_option Suc (py_find n s))"

text \<open>\<open>s.split(sep)\<close> for a one-character separator: never empty.\<close>

fun split_on :: "char \<Rightarrow> string \<Rightarrow> string list" where
  "split_on x [] = [[]]"
| "split_on x (c # s) = (if c = x then [] # split_on x s
     else (case split_on x s of p # ps \<Rightarrow> (c # p) # ps | [] \<Rightarrow> [[c]]))"

text \<open>The operand fields \<open>[f.strip() for f in ops.split(',')]\<close>.\<close>

definition op_fields :: "string \<Rightarrow> string list" where
  "op_fields ops = map py_strip (split_on CHR '','' ops)"

text \<open>\<open>s.split(sep, 1)[0]\<close> and what follows the separator, if it occurs.\<close>

definition cut_at :: "string \<Rightarrow> string \<Rightarrow> string \<times> string option" where
  "cut_at n s = (case py_find n s of None \<Rightarrow> (s, None)
     | Some i \<Rightarrow> (take i s, Some (drop (i + length n) s)))"

text \<open>\<open>s.splitlines()\<close>: the line boundaries of Latin-1 text; a carriage return and a line feed are one.\<close>

definition line_end :: "char \<Rightarrow> bool" where
  "line_end c = (byte_val c \<in> {10, 11, 12, 13, 28, 29, 30, 133})"

fun splitlines_from :: "string \<Rightarrow> string \<Rightarrow> string list" where
  "splitlines_from acc [] = (if acc = [] then [] else [rev acc])"
| "splitlines_from acc [c] = (if line_end c then [rev acc] else [rev (c # acc)])"
| "splitlines_from acc (c # d # s) =
     (if byte_val c = 13 \<and> byte_val d = 10 then rev acc # splitlines_from [] s
      else if line_end c then rev acc # splitlines_from [] (d # s)
      else splitlines_from (c # acc) (d # s))"

definition py_splitlines :: "string \<Rightarrow> string list" where
  "py_splitlines s = splitlines_from [] s"

text \<open>\<open>s.split(sep)\<close> for a longer separator.\<close>

function split_str :: "string \<Rightarrow> string \<Rightarrow> string list" where
  "split_str n s = (case py_find n s of None \<Rightarrow> [s]
     | Some i \<Rightarrow> if n = [] then [s]
         else take i s # split_str n (drop (i + length n) s))"
  by pat_completeness auto

lemma py_find_bound: "py_find n s = Some i \<Longrightarrow> i + length n \<le> length s"
proof (induction s arbitrary: i)
  case (Cons c s)
  show ?case
  proof (cases "starts_with (c # s) n")
    case True
    then have "length n = length (take (length n) (c # s))" by (simp add: starts_with_def)
    then have "length n \<le> length (c # s)" by (metis length_take min.cobounded1)
    with True Cons.prems show ?thesis by simp
  next
    case False
    with Cons.prems obtain j where "py_find n s = Some j" "i = Suc j" by auto
    with Cons.IH show ?thesis by simp
  qed
qed (simp split: if_splits)

termination split_str
proof (relation "measure (\<lambda>(n, s). length s)")
  fix n s i assume "py_find n s = Some i" "n \<noteq> []"
  moreover from this have "i + length n \<le> length s" by (rule_tac py_find_bound)
  ultimately show "((n, drop (i + length n) s), (n, s)) \<in> measure (\<lambda>(n, s). length s)"
    by (cases n) auto
qed simp

declare split_str.simps [simp del]

lemma py_find_hit: "py_find n s = Some i \<Longrightarrow> take (length n) (drop i s) = n"
proof (induction s arbitrary: i)
  case (Cons c s)
  then show ?case by (cases "starts_with (c # s) n") (auto simp: starts_with_def)
qed (simp split: if_splits)

lemma py_find_append_hit:
  "py_find n (pre @ n @ rest) \<noteq> None"
proof (induction pre)
  case Nil
  have "starts_with (n @ rest) n" by (simp add: starts_with_def)
  then show ?case by (cases "n @ rest") auto
next
  case (Cons c pre)
  then show ?case by auto
qed

lemma py_find_mono:
  assumes "py_find n s = Some i" shows "py_find n (s @ t) = Some i"
  using assms
proof (induction s arbitrary: i)
  case Nil
  then show ?case by (cases t) (auto simp: starts_with_def split: if_splits)
next
  case (Cons c s)
  show ?case
  proof (cases "starts_with (c # s) n")
    case True
    have "length n \<le> length (c # s)"
      using True by (metis starts_with_def length_take min.cobounded1)
    with True have "starts_with (c # s @ t) n"
      by (metis append_Cons starts_with_def take_append append_Nil2 diff_is_0_eq take0)
    with True Cons.prems show ?thesis by simp
  next
    case False
    with Cons.prems obtain j where j: "py_find n s = Some j" "i = Suc j" by auto
    then have st: "py_find n (s @ t) = Some j" using Cons.IH by simp
    have "length n \<le> length s" using py_find_bound [OF j(1)] by simp
    then have "take (length n) (c # s @ t) = take (length n) (c # s)"
      by (cases n) auto
    with False have "\<not> starts_with (c # s @ t) n" by (simp add: starts_with_def)
    with st j show ?thesis by simp
  qed
qed

section \<open>Integers in text\<close>

definition digit_val :: "char \<Rightarrow> int option" where
  "digit_val c = (let v = byte_val c in
     if 48 \<le> v \<and> v \<le> 57 then Some (v - 48)
     else if 97 \<le> v \<and> v \<le> 122 then Some (v - 87)
     else if 65 \<le> v \<and> v \<le> 90 then Some (v - 55) else None)"

text \<open>
  Digits in a base, with single underscores between digits; the flag says that the last
  character was a digit (or the base prefix).
\<close>

fun digits_int :: "int \<Rightarrow> bool \<Rightarrow> int \<Rightarrow> string \<Rightarrow> int option" where
  "digits_int b ok acc [] = (if ok then Some acc else None)"
| "digits_int b ok acc (c # s) =
     (if c = CHR ''_'' then (if ok then digits_int b False acc s else None)
      else (case digit_val c of
              Some d \<Rightarrow> if d < b then digits_int b True (acc * b + d) s else None
            | None \<Rightarrow> None))"

text \<open>\<open>0x\<close>, \<open>0o\<close>, \<open>0b\<close> prefixes, in either case.\<close>

definition base_prefix :: "string \<Rightarrow> int option" where
  "base_prefix s =
     (if take 1 s = ''0'' \<and> length s > 1 then
        (if s ! 1 \<in> set ''xX'' then Some 16 else if s ! 1 \<in> set ''oO'' then Some 8
         else if s ! 1 \<in> set ''bB'' then Some 2 else None)
      else None)"

definition unsigned_int :: "int \<Rightarrow> string \<Rightarrow> int option" where
  "unsigned_int base s =
     (case base_prefix s of
        Some b \<Rightarrow> if base = 0 \<or> base = b
            then (if drop 2 s = [] then None else digits_int b True 0 (drop 2 s))
            else digits_int base False 0 s
      | None \<Rightarrow>
          if base = 0 then (case digits_int 10 False 0 s of
               None \<Rightarrow> None
             | Some v \<Rightarrow> if take 1 s = ''0'' \<and> v \<noteq> 0 then None else Some v)
          else digits_int base False 0 s)"

text \<open>\<open>int(text, base)\<close>; None is the \<open>ValueError\<close>.\<close>

definition py_int :: "int \<Rightarrow> string \<Rightarrow> int option" where
  "py_int base text = (let s = py_strip text in
     if take 1 s = ''-'' then map_option uminus (unsigned_int base (drop 1 s))
     else if take 1 s = ''+'' then unsigned_int base (drop 1 s)
     else unsigned_int base s)"

text \<open>Digits are read as a natural number.\<close>

lemma digit_val_nonneg: "digit_val c = Some d \<Longrightarrow> 0 \<le> d"
  by (auto simp: digit_val_def Let_def split: if_splits)

lemma digits_int_nonneg: "digits_int b ok acc s = Some v \<Longrightarrow> 0 \<le> acc \<Longrightarrow> 0 \<le> b \<Longrightarrow> 0 \<le> v"
  using digit_val_nonneg
  by (induction b ok acc s rule: digits_int.induct) (auto split: if_splits option.splits)

lemma unsigned_int_nonneg: "unsigned_int b s = Some v \<Longrightarrow> 0 \<le> b \<Longrightarrow> 0 \<le> v"
proof -
  have "base_prefix s = Some p \<Longrightarrow> 0 \<le> p" for p
    by (auto simp: base_prefix_def split: if_splits)
  then show "unsigned_int b s = Some v \<Longrightarrow> 0 \<le> b \<Longrightarrow> 0 \<le> v"
    using digits_int_nonneg by (auto simp: unsigned_int_def split: if_splits option.splits)
qed

definition hex_digit :: "nat \<Rightarrow> char" where
  "hex_digit d = ''0123456789abcdef'' ! d"

fun nat_hex :: "nat \<Rightarrow> string" where
  "nat_hex n = (if n < 16 then [hex_digit n] else nat_hex (n div 16) @ [hex_digit (n mod 16)])"

declare nat_hex.simps [simp del]

text \<open>\<open>hex(v)\<close>, which is also \<open>'{:#x}'.format(v)\<close>.\<close>

definition py_hex :: "int \<Rightarrow> string" where
  "py_hex v = (if v < 0 then ''-0x'' @ nat_hex (nat (- v)) else ''0x'' @ nat_hex (nat v))"

fun nat_dec :: "nat \<Rightarrow> string" where
  "nat_dec n = (if n < 10 then [hex_digit n] else nat_dec (n div 10) @ [hex_digit (n mod 10)])"

declare nat_dec.simps [simp del]

definition py_str :: "int \<Rightarrow> string" where
  "py_str v = (if v < 0 then CHR ''-'' # nat_dec (nat (- v)) else nat_dec (nat v))"

text \<open>Printing in hexadecimal and reading back are inverse, whatever the sign.\<close>

lemma digit_val_hex_digit: "d < 16 \<Longrightarrow> digit_val (hex_digit d) = Some (int d)"
proof -
  assume "d < 16"
  moreover have "\<forall>d \<in> set [0..<16]. digit_val (hex_digit d) = Some (int d)" by code_simp
  ultimately show ?thesis by simp
qed

lemma hex_digit_plain: "d < 16 \<Longrightarrow> hex_digit d \<noteq> CHR ''_'' \<and> \<not> is_space (hex_digit d)"
proof -
  assume "d < 16"
  moreover have "\<forall>d \<in> set [0..<16]. hex_digit d \<noteq> CHR ''_'' \<and> \<not> is_space (hex_digit d)"
    by code_simp
  ultimately show ?thesis by simp
qed

lemma digits_int_nat_hex:
  "digits_int 16 ok acc (nat_hex n @ s)
    = digits_int 16 True (acc * 16 ^ length (nat_hex n) + int n) s"
proof (induction n arbitrary: ok acc s rule: nat_hex.induct)
  case (1 n)
  show ?case
  proof (cases "n < 16")
    case True
    then show ?thesis
      by (simp add: nat_hex.simps [of n] digit_val_hex_digit hex_digit_plain)
  next
    case False
    have d: "n mod 16 < 16" by simp
    have split: "int n = int (n div 16) * 16 + int (n mod 16)"
      by presburger
    have "digits_int 16 ok acc (nat_hex n @ s)
        = digits_int 16 True (acc * 16 ^ length (nat_hex (n div 16)) + int (n div 16))
            (hex_digit (n mod 16) # s)"
      using False "1.IH" by (simp add: nat_hex.simps [of n])
    also have "\<dots> = digits_int 16 True
        ((acc * 16 ^ length (nat_hex (n div 16)) + int (n div 16)) * 16 + int (n mod 16)) s"
      using digit_val_hex_digit [OF d] hex_digit_plain [OF d] by simp
    also have "\<dots> = digits_int 16 True (acc * 16 ^ length (nat_hex n) + int n) s"
      using False split by (simp add: nat_hex.simps [of n] algebra_simps)
    finally show ?thesis .
  qed
qed

lemma nat_hex_last: "\<exists>p d. nat_hex n = p @ [hex_digit d] \<and> d < 16"
  by (cases "n < 16") (auto simp: nat_hex.simps [of n] intro: exI [of _ "n mod 16"])

lemma py_strip_solid:
  assumes "\<not> is_space x" and "\<not> is_space y"
  shows "py_strip (x # s @ [y]) = x # s @ [y]"
  using assms by (simp add: py_strip_def strip_by_def lstrip_by_def rstrip_by_def)

lemma unsigned_int_hex: "base \<in> {0, 16} \<Longrightarrow> unsigned_int base (''0x'' @ nat_hex n) = Some (int n)"
proof -
  assume b: "base \<in> {0, 16}"
  have "nat_hex n \<noteq> []" using nat_hex_last [of n] by auto
  with b digits_int_nat_hex [of True 0 n "[]"] show ?thesis
    by (auto simp: unsigned_int_def base_prefix_def)
qed

lemma py_strip_py_hex: "py_strip (py_hex v) = py_hex v"
proof -
  obtain p d where e: "nat_hex (nat (if v < 0 then - v else v)) = p @ [hex_digit d]" "d < 16"
    using nat_hex_last by blast
  have "\<not> is_space (CHR ''-'')" "\<not> is_space (CHR ''0'')" by code_simp+
  with e show ?thesis
    using hex_digit_plain [OF e(2)] py_strip_solid [of "CHR ''-''" "hex_digit d" "''0x'' @ p"]
      py_strip_solid [of "CHR ''0''" "hex_digit d" "''x'' @ p"]
    by (auto simp: py_hex_def split: if_splits)
qed

lemma py_int_py_hex: "base \<in> {0, 16} \<Longrightarrow> py_int base (py_hex v) = Some v"
  using py_strip_py_hex [of v] unsigned_int_hex [of base "nat v"] unsigned_int_hex [of base "nat (- v)"]
  by (cases "v < 0") (auto simp: py_int_def py_hex_def)

text \<open>The contract of a textual encoding: what is printed is read back.\<close>

locale text_codec =
  fixes print :: "'a \<Rightarrow> string" and parse :: "string \<Rightarrow> 'a option"
  assumes parse_print: "parse (print x) = Some x"
begin

lemma print_inj: "print x = print y \<longleftrightarrow> x = y"
  by (metis parse_print option.inject)

lemma map_of_print_keys:
  "map_of (map (\<lambda>(k, v). (print k, v)) d) (print k) = map_of d k"
  by (induction d) (auto simp: print_inj)

lemma parse_all: "map (\<lambda>(k, v). (parse k, v)) (map (\<lambda>(k, v). (print k, v)) d)
    = map (\<lambda>(k, v). (Some k, v)) d"
  by (induction d) (auto simp: parse_print)

end

interpretation hex16: text_codec py_hex "py_int 16"
  by unfold_locales (simp add: py_int_py_hex)

interpretation hex0: text_codec py_hex "py_int 0"
  by unfold_locales (simp add: py_int_py_hex)

end
