(* ===== verification/Regex.thy ===== *)
theory Regex
  imports PyText
begin

text \<open>
  The part of Python's \<open>re\<close> the modelled code uses: a backtracking matcher with groups.
  \<open>rx_run r s g\<close> lists, in the order backtracking tries them, what remains of \<open>s\<close> after a
  match of \<open>r\<close> and the groups captured so far; alternatives are tried left to right and
  repetition is greedy, so the head of the list is Python's match.
\<close>

datatype rx =
    Eps
  | Cls "char \<Rightarrow> bool"
  | Seq rx rx
  | Alt rx rx
  | Star rx
  | Grp nat rx

type_synonym groups = "(nat \<times> string) list"

function rx_run :: "rx \<Rightarrow> string \<Rightarrow> groups \<Rightarrow> (string \<times> groups) list" where
  "rx_run Eps s g = [(s, g)]"
| "rx_run (Cls p) s g = (case s of [] \<Rightarrow> [] | c # t \<Rightarrow> if p c then [(t, g)] else [])"
| "rx_run (Seq a b) s g = concat (map (\<lambda>(t, h). rx_run b t h) (rx_run a s g))"
| "rx_run (Alt a b) s g = rx_run a s g @ rx_run b s g"
| "rx_run (Star a) s g =
     concat (map (\<lambda>(t, h). if length t < length s then rx_run (Star a) t h else [])
       (rx_run a s g)) @ [(s, g)]"
| "rx_run (Grp n a) s g =
     map (\<lambda>(t, h). (t, (n, take (length s - length t) s) # h)) (rx_run a s g)"
  by pat_completeness auto
termination
  by (relation "measures [\<lambda>(r, s, g). size r, \<lambda>(r, s, g). length s]") auto

declare rx_run.simps(5) [simp del]

section \<open>Patterns\<close>

definition Chr :: "char \<Rightarrow> rx" where "Chr c = Cls (\<lambda>x. x = c)"
definition Opt :: "rx \<Rightarrow> rx" where "Opt r = Alt r Eps"
definition Plus :: "rx \<Rightarrow> rx" where "Plus r = Seq r (Star r)"

fun Str :: "string \<Rightarrow> rx" where
  "Str [] = Eps"
| "Str [c] = Chr c"
| "Str (c # s) = Seq (Chr c) (Str s)"

fun Seqs :: "rx list \<Rightarrow> rx" where
  "Seqs [] = Eps"
| "Seqs [r] = r"
| "Seqs (r # rs) = Seq r (Seqs rs)"

fun Alts :: "rx list \<Rightarrow> rx" where
  "Alts [] = Cls (\<lambda>_. False)"
| "Alts [r] = r"
| "Alts (r # rs) = Alt r (Alts rs)"

text \<open>\<open>r{0,n}\<close>, greedy.\<close>

fun Upto :: "nat \<Rightarrow> rx \<Rightarrow> rx" where
  "Upto 0 r = Eps"
| "Upto (Suc n) r = Opt (Seq r (Upto n r))"

definition one_of :: "string \<Rightarrow> rx" where "one_of cs = Cls (\<lambda>x. x \<in> set cs)"

abbreviation "rDigit \<equiv> Cls is_digit"
abbreviation "rHex \<equiv> Cls is_xdigit"
abbreviation "rSpaces \<equiv> Star (Cls is_space)"
abbreviation "rDigits \<equiv> Plus rDigit"
abbreviation "rHexNum \<equiv> Seq (Str ''0x'') (Plus rHex)"

text \<open>\<open>-?(?:0x[0-9a-fA-F]+|\d+)\<close>, the immediates of disassembled operands.\<close>

definition rImm :: rx where
  "rImm = Seq (Opt (Chr CHR ''-'')) (Alt rHexNum rDigits)"

section \<open>Matching\<close>

definition rx_match :: "rx \<Rightarrow> string \<Rightarrow> (string \<times> groups) option" where
  "rx_match r s = (case rx_run r s [] of [] \<Rightarrow> None | m # _ \<Rightarrow> Some m)"

text \<open>\<open>re.fullmatch\<close>: the first match that consumes everything; its groups.\<close>

definition rx_full :: "rx \<Rightarrow> string \<Rightarrow> groups option" where
  "rx_full r s = (case filter (\<lambda>(t, g). t = []) (rx_run r s []) of
     [] \<Rightarrow> None | (_, g) # _ \<Rightarrow> Some g)"

text \<open>\<open>re.search\<close>: the leftmost match, its text, what follows it, its groups.\<close>

fun rx_search :: "rx \<Rightarrow> string \<Rightarrow> (string \<times> string \<times> groups) option" where
  "rx_search r [] = (case rx_match r [] of Some (t, g) \<Rightarrow> Some ([], t, g) | None \<Rightarrow> None)"
| "rx_search r (c # s) = (case rx_match r (c # s) of
     Some (t, g) \<Rightarrow> Some (take (Suc (length s) - length t) (c # s), t, g)
   | None \<Rightarrow> rx_search r s)"

text \<open>
  \<open>re.findall\<close> of a pattern that never matches the empty text: the matches from left to
  right, without overlaps.
\<close>

lemma rx_search_shorter:
  "rx_search r s = Some (m, t, g) \<Longrightarrow> m \<noteq> [] \<Longrightarrow> length t < length s"
proof (induction s)
  case (Cons c s)
  show ?case
  proof (cases "rx_match r (c # s)")
    case None
    with Cons show ?thesis by fastforce
  next
    case (Some p)
    with Cons.prems have "m = take (Suc (length s) - length t) (c # s)" by (cases p) auto
    with Cons.prems(2) show ?thesis by (cases "Suc (length s) - length t") auto
  qed
qed (auto split: option.splits)

function rx_findall :: "rx \<Rightarrow> string \<Rightarrow> (string \<times> groups) list" where
  "rx_findall r s = (case rx_search r s of None \<Rightarrow> []
     | Some (m, t, g) \<Rightarrow> if m = [] then [] else (m, g) # rx_findall r t)"
  by pat_completeness auto
termination
  by (relation "measure (\<lambda>(r, s). length s)") (auto dest: rx_search_shorter)

declare rx_findall.simps [simp del]

definition grp :: "nat \<Rightarrow> groups \<Rightarrow> string option" where
  "grp n g = map_of g n"

section \<open>The language of a pattern\<close>

inductive rx_lang :: "rx \<Rightarrow> string \<Rightarrow> bool" where
  Eps: "rx_lang Eps []"
| Cls: "p c \<Longrightarrow> rx_lang (Cls p) [c]"
| Seq: "rx_lang a s \<Longrightarrow> rx_lang b t \<Longrightarrow> rx_lang (Seq a b) (s @ t)"
| AltL: "rx_lang a s \<Longrightarrow> rx_lang (Alt a b) s"
| AltR: "rx_lang b s \<Longrightarrow> rx_lang (Alt a b) s"
| Star0: "rx_lang (Star a) []"
| StarS: "rx_lang a s \<Longrightarrow> s \<noteq> [] \<Longrightarrow> rx_lang (Star a) t \<Longrightarrow> rx_lang (Star a) (s @ t)"
| Grp: "rx_lang a s \<Longrightarrow> rx_lang (Grp n a) s"

inductive_simps rx_lang_Eps [simp]: "rx_lang Eps s"
inductive_simps rx_lang_Cls: "rx_lang (Cls p) s"
inductive_simps rx_lang_Seq: "rx_lang (Seq a b) s"
inductive_simps rx_lang_Alt [simp]: "rx_lang (Alt a b) s"
inductive_simps rx_lang_Grp [simp]: "rx_lang (Grp n a) s"

text \<open>Every run consumes a word of the language.\<close>

lemma rx_run_sound:
  "(t, h) \<in> set (rx_run r s g) \<Longrightarrow> \<exists>w. s = w @ t \<and> rx_lang r w"
proof (induction r s g arbitrary: t h rule: rx_run.induct)
  case (2 p s g)
  then show ?case by (auto split: list.splits if_splits intro: rx_lang.Cls)
next
  case (3 a b s g)
  then obtain t1 h1 where 1: "(t1, h1) \<in> set (rx_run a s g)" and 2: "(t, h) \<in> set (rx_run b t1 h1)"
    by auto
  from "3.IH"(1) [OF 1] obtain w1 where "s = w1 @ t1" "rx_lang a w1" by blast
  moreover from "3.IH"(2) [OF 1 refl 2] obtain w2 where "t1 = w2 @ t" "rx_lang b w2" by blast
  ultimately show ?case by (auto intro: rx_lang.Seq)
next
  case (5 a s g)
  from "5.prems" consider "t = s" | t1 h1 where "(t1, h1) \<in> set (rx_run a s g)"
      "length t1 < length s" "(t, h) \<in> set (rx_run (Star a) t1 h1)"
    by (subst (asm) rx_run.simps(5)) (auto split: if_splits)
  then show ?case
  proof cases
    case 1
    then show ?thesis by (auto intro: rx_lang.Star0)
  next
    case 2
    from "5.IH"(1) [OF 2(1)] obtain w1 where w1: "s = w1 @ t1" "rx_lang a w1" by blast
    from "5.IH"(2) [OF 2(1) refl 2(2,3)] obtain w2 where "t1 = w2 @ t" "rx_lang (Star a) w2" by blast
    with w1 2(2) show ?thesis by (auto intro: rx_lang.StarS)
  qed
next
  case (4 a b s g)
  then show ?case by (auto; blast)
qed (auto split: if_splits)

text \<open>Every word of the language is found, whatever follows it.\<close>

lemma rx_run_complete:
  "rx_lang r w \<Longrightarrow> \<exists>h. (t, h) \<in> set (rx_run r (w @ t) g)"
proof (induction r w arbitrary: t g rule: rx_lang.induct)
  case (Seq a s b u)
  from Seq.IH(1) obtain h1 where 1: "(u @ t, h1) \<in> set (rx_run a (s @ u @ t) g)" by blast
  from Seq.IH(2) obtain h2 where 2: "(t, h2) \<in> set (rx_run b (u @ t) h1)" by blast
  from 1 2 show ?case by (intro exI [of _ h2]) (auto intro!: bexI [of _ "(u @ t, h1)"])
next
  case (StarS a s u)
  from StarS.IH(1) obtain h1 where 1: "(u @ t, h1) \<in> set (rx_run a (s @ u @ t) g)" by blast
  from StarS.IH(2) obtain h2 where 2: "(t, h2) \<in> set (rx_run (Star a) (u @ t) h1)" by blast
  have len: "length (u @ t) < length (s @ u @ t)" using StarS.hyps(2) by simp
  from 1 2 len show ?case
    by (intro exI [of _ h2]) (subst rx_run.simps(5), auto intro!: bexI [of _ "(u @ t, h1)"])
next
  case (Grp a s n)
  from Grp.IH obtain h where "(t, h) \<in> set (rx_run a (s @ t) g)" by blast
  then show ?case by (force simp: image_iff)
next
  case (AltL a s b)
  then show ?case by (fastforce simp del: ex_simps)
next
  case (AltR b s a)
  then show ?case by (fastforce simp del: ex_simps)
next
  case (Star0 a)
  show ?case by (subst rx_run.simps(5)) auto
qed auto

lemma rx_full_iff_lang: "rx_full r s \<noteq> None \<longleftrightarrow> rx_lang r s"
proof
  assume "rx_full r s \<noteq> None"
  then obtain g where "([], g) \<in> set (rx_run r s [])"
    by (auto simp: rx_full_def filter_empty_conv split: list.splits dest: filter_eq_ConsD)
      (metis (mono_tags, lifting) case_prodE list.set_intros(1) mem_Collect_eq set_filter)
  from rx_run_sound [OF this] show "rx_lang r s" by auto
next
  assume "rx_lang r s"
  from rx_run_complete [OF this, of "[]" "[]"] obtain h where "([], h) \<in> set (rx_run r s [])" by auto
  then have "filter (\<lambda>(t, g). t = []) (rx_run r s []) \<noteq> []"
    by (auto simp: filter_empty_conv)
  then show "rx_full r s \<noteq> None"
    by (auto simp: rx_full_def split: list.splits)
qed

text \<open>What a group captures is matched by the group's pattern.\<close>

fun captures :: "(nat \<Rightarrow> string \<Rightarrow> bool) \<Rightarrow> rx \<Rightarrow> bool" where
  "captures P (Grp n a) = (captures P a \<and> (\<forall>x. rx_lang a x \<longrightarrow> P n x))"
| "captures P (Seq a b) = (captures P a \<and> captures P b)"
| "captures P (Alt a b) = (captures P a \<and> captures P b)"
| "captures P (Star a) = captures P a"
| "captures P _ = True"

lemma rx_run_captures:
  "captures P r \<Longrightarrow> (t, h) \<in> set (rx_run r s g) \<Longrightarrow> \<forall>(n, x) \<in> set g. P n x \<Longrightarrow> \<forall>(n, x) \<in> set h. P n x"
proof (induction r s g arbitrary: t h rule: rx_run.induct)
  case (3 a b s g)
  then obtain t1 h1 where 1: "(t1, h1) \<in> set (rx_run a s g)" and 2: "(t, h) \<in> set (rx_run b t1 h1)"
    by auto
  show ?case using "3.IH"(2) [OF 1 refl _ 2] "3.IH"(1) [OF _ 1] "3.prems" by simp
next
  case (5 a s g)
  from "5.prems"(2) consider "h = g" | t1 h1 where "(t1, h1) \<in> set (rx_run a s g)"
      "length t1 < length s" "(t, h) \<in> set (rx_run (Star a) t1 h1)"
    by (subst (asm) rx_run.simps(5)) (auto split: if_splits)
  then show ?case
  proof cases
    case 1
    with "5.prems" show ?thesis by simp
  next
    case 2
    from "5.IH"(2) [OF 2(1) refl 2(2) _ 2(3)] "5.IH"(1) [OF _ 2(1)] "5.prems" show ?thesis by simp
  qed
next
  case (6 n a s g)
  then obtain h1 where h: "(t, h1) \<in> set (rx_run a s g)" "h = (n, take (length s - length t) s) # h1" by auto
  from rx_run_sound [OF h(1)] obtain w where "s = w @ t" "rx_lang a w" by blast
  with "6.IH" [OF _ h(1)] "6.prems" h(2) show ?case by simp
next
  case (4 a b s g)
  then consider "(t, h) \<in> set (rx_run a s g)" | "(t, h) \<in> set (rx_run b s g)" by auto
  then show ?case using "4.IH" "4.prems" by cases simp_all
qed (auto split: list.splits if_splits)

lemma rx_full_captures:
  assumes "captures P r" and "rx_full r s = Some g" and "grp n g = Some x"
  shows "P n x"
proof -
  have "([], g) \<in> set (rx_run r s [])"
    using assms(2) by (auto simp: rx_full_def split: list.splits dest: filter_eq_ConsD)
  from rx_run_captures [OF assms(1) this] assms(3) show ?thesis
    by (auto simp: grp_def dest: map_of_SomeD)
qed

lemma rx_lang_Plus_Cls: "rx_lang (Plus (Cls p)) s \<Longrightarrow> s \<noteq> [] \<and> list_all p s"
proof -
  have star: "rx_lang r s \<Longrightarrow> r = Star (Cls p) \<Longrightarrow> list_all p s" for r s
    by (induction rule: rx_lang.induct) (auto simp: rx_lang_Cls)
  show "rx_lang (Plus (Cls p)) s \<Longrightarrow> s \<noteq> [] \<and> list_all p s"
    by (auto simp: Plus_def rx_lang_Seq rx_lang_Cls dest: star [OF _ refl])
qed

section \<open>The first match\<close>

text \<open>The match backtracking finds first, and rules that compute it for symbolic texts.\<close>

definition rx_hd :: "rx \<Rightarrow> string \<Rightarrow> groups \<Rightarrow> (string \<times> groups) option" where
  "rx_hd r s g = (case rx_run r s g of [] \<Rightarrow> None | m # _ \<Rightarrow> Some m)"

lemma rx_match_hd: "rx_match r s = rx_hd r s []"
  by (simp add: rx_match_def rx_hd_def)

lemma rx_hd_Eps [simp]: "rx_hd Eps s g = Some (s, g)"
  by (simp add: rx_hd_def)

lemma rx_hd_Cls [simp]:
  "rx_hd (Cls p) [] g = None"
  "rx_hd (Cls p) (c # s) g = (if p c then Some (s, g) else None)"
  by (simp_all add: rx_hd_def)

lemma rx_hd_Seq:
  assumes "rx_hd a s g = Some (t, h)" and "rx_hd b t h = Some m"
  shows "rx_hd (Seq a b) s g = Some m"
  using assms by (auto simp: rx_hd_def split: list.splits)

lemma rx_hd_Seq_Cls [simp]:
  "rx_hd (Seq (Cls p) b) [] g = None"
  "rx_hd (Seq (Cls p) b) (c # s) g = (if p c then rx_hd b s g else None)"
  by (simp_all add: rx_hd_def)

lemma rx_hd_Alt: "rx_hd (Alt a b) s g = (case rx_hd a s g of None \<Rightarrow> rx_hd b s g | m \<Rightarrow> m)"
  by (auto simp: rx_hd_def split: list.splits)

lemma rx_hd_Grp: "rx_hd a s g = Some (t, h) \<Longrightarrow>
    rx_hd (Grp n a) s g = Some (t, (n, take (length s - length t) s) # h)"
  by (auto simp: rx_hd_def split: list.splits)

lemma rx_run_Star_Cls:
  "rx_run (Star (Cls p)) [] g = [([], g)]"
  "rx_run (Star (Cls p)) (c # s) g =
     (if p c then rx_run (Star (Cls p)) s g @ [(c # s, g)] else [(c # s, g)])"
  by (subst rx_run.simps(5), simp)+

lemma rx_hd_Star_Cls: "rx_hd (Star (Cls p)) s g = Some (dropWhile p s, g)"
proof (induction s)
  case (Cons c s)
  then show ?case
    by (cases "p c") (simp_all add: rx_hd_def rx_run_Star_Cls split: list.splits)
qed (simp add: rx_hd_def rx_run_Star_Cls)

lemma rx_hd_Plus_Cls: "rx_hd (Plus (Cls p)) (c # s) g = (if p c then Some (dropWhile p s, g) else None)"
  by (simp add: Plus_def rx_hd_Star_Cls)

lemma rx_full_hd: "rx_hd r s [] = Some ([], g) \<Longrightarrow> rx_full r s = Some g"
  by (auto simp: rx_hd_def rx_full_def split: list.splits)

lemma rx_full_None: "rx_run r s [] = [] \<Longrightarrow> rx_full r s = None"
  by (simp add: rx_full_def)

lemma rx_search_Cons_miss: "rx_hd r (c # s) [] = None \<Longrightarrow> rx_search r (c # s) = rx_search r s"
  by (simp add: rx_match_hd)

lemma rx_search_hit:
  "rx_hd r (c # s) [] = Some (t, g) \<Longrightarrow>
     rx_search r (c # s) = Some (take (Suc (length s) - length t) (c # s), t, g)"
  by (simp add: rx_match_hd)

text \<open>A search skips a prefix where no match can start.\<close>

lemma rx_search_skip:
  assumes "\<And>c u. c \<in> set pre \<Longrightarrow> rx_hd r (c # u) [] = None"
  shows "rx_search r (pre @ s) = rx_search r s"
  using assms
proof (induction pre)
  case (Cons c pre)
  then have "rx_hd r (c # pre @ s) [] = None" by simp
  with Cons show ?case by (simp add: rx_search_Cons_miss del: rx_search.simps)
qed simp

end
