(* ===== verification/Arm64Operands.thy ===== *)
theory Arm64Operands
  imports Regex
begin

text \<open>
  \<open>macdbg/core/arm64_operands.py\<close>: decoding the memory operand of a load or store from its
  disassembled text. Register contents come as Python integers (constant propagation) or as
  hexadecimal text (recorded register files); a malformed number is the \<open>ValueError\<close> of
  \<open>int\<close>.
\<close>

definition MASK64 :: int where "MASK64 = 2 ^ 64 - 1"

definition num_error :: exn where "num_error = ValueError ''invalid literal for int()''"

definition int_or_error :: "int \<Rightarrow> string \<Rightarrow> int res" where
  "int_or_error base s = (case py_int base s of None \<Rightarrow> Inl num_error | Some v \<Rightarrow> Inr v)"

text \<open>\<open>integer(text)\<close>\<close>

definition op_integer :: "string \<Rightarrow> int res" where
  "op_integer text = int_or_error 0 (lstrip_by (\<lambda>c. c = CHR ''#'') (py_strip text))"

datatype regval = RInt int | RText string

type_synonym regfile = "string \<Rightarrow> regval option"

definition reg_alias :: "string \<Rightarrow> string" where
  "reg_alias n = (if n = ''fp'' then ''x29'' else if n = ''lr'' then ''x30''
     else if n = ''wsp'' then ''sp'' else n)"

definition rx_wreg :: rx where "rx_wreg = Seq (Chr CHR ''w'') rDigits"

text \<open>\<open>register_value(registers, name)\<close>\<close>

definition register_value :: "regfile \<Rightarrow> string \<Rightarrow> int option res" where
  "register_value registers name0 =
     (let name = reg_alias name0 in
      if name = ''xzr'' \<or> name = ''wzr'' then Inr (Some 0)
      else let key = (if rx_full rx_wreg name \<noteq> None then CHR ''x'' # drop 1 name else name) in
        (case registers key of
           None \<Rightarrow> Inr None
         | Some raw \<Rightarrow>
             bindR (case raw of RInt v \<Rightarrow> Inr v | RText s \<Rightarrow> int_or_error 16 s) (\<lambda>v.
             Inr (Some (v AND (if starts_with name ''w'' then 2 ^ 32 - 1 else MASK64))))))"

definition memory_names :: "string list" where
  "memory_names = [''ldr'', ''ldrb'', ''ldrh'', ''ldrsb'', ''ldrsh'', ''ldrsw'',
     ''ldur'', ''ldurb'', ''ldurh'', ''ldursb'', ''ldursh'', ''ldursw'',
     ''str'', ''strb'', ''strh'', ''stur'', ''sturb'', ''sturh'',
     ''ldp'', ''ldpsw'', ''ldnp'', ''stp'', ''stnp'']"

definition pair_names :: "string list" where
  "pair_names = [''ldp'', ''ldpsw'', ''ldnp'', ''stp'', ''stnp'']"

text \<open>The pattern of the transferred register.\<close>

definition rx_first :: rx where
  "rx_first = Alt (Seq (one_of ''xwqdsbh'') rDigits) (Seq (one_of ''xw'') (Str ''zr''))"

definition first_width :: "char \<Rightarrow> int" where
  "first_width c = (if c = CHR ''x'' \<or> c = CHR ''d'' then 8 else if c = CHR ''w'' \<or> c = CHR ''s'' then 4
     else if c = CHR ''q'' then 16 else if c = CHR ''b'' then 1 else 2)"

definition access_width :: "string \<Rightarrow> char \<Rightarrow> int" where
  "access_width mn c =
     (let w = (if ends_with mn ''b'' then 1 else if ends_with mn ''h'' then 2
               else if ends_with mn ''sw'' then 4 else first_width c)
      in if mn \<in> set pair_names then w * 2 else w)"

definition rx_base :: rx where
  "rx_base = Seqs [Chr CHR ''['',
     Grp 1 (Alts [Seq (Chr CHR ''x'') rDigits, Str ''sp'', Str ''fp'', Str ''lr'']),
     Grp 2 (Star (Cls (\<lambda>c. c \<noteq> CHR '']''))), Chr CHR '']'']"

definition rx_literal :: rx where
  "rx_literal = Seqs [Plus (Cls is_word), Chr CHR '','', rSpaces, Grp 1 rHexNum]"

definition rx_immediate :: rx where
  "rx_immediate = Seq (Opt (Chr CHR ''#'')) (Grp 1 rImm)"

definition rx_index :: rx where
  "rx_index = Seqs [Grp 1 (Seq (one_of ''wx'') rDigits),
     Opt (Seqs [Chr CHR '','', rSpaces,
       Grp 2 (Alts [Str ''lsl'', Str ''uxtw'', Str ''sxtw'', Str ''sxtx'']),
       Opt (Seqs [rSpaces, Opt (Chr CHR ''#''), Grp 3 rDigits])])]"

text \<open>The sign extension of an index register, as the code computes it.\<close>

definition extend_index :: "string option \<Rightarrow> int \<Rightarrow> int" where
  "extend_index kind v =
     (if kind = Some ''sxtw'' \<or> kind = Some ''sxtx'' then
        let bits = (if kind = Some ''sxtw'' then 32 else 64 :: nat);
            o1 = v AND (push_bit bits 1 - 1)
        in if o1 AND push_bit (bits - 1) 1 \<noteq> 0 then o1 - push_bit bits 1 else o1
      else v)"

text \<open>What follows the base register: no offset, an immediate, or an index register.\<close>

definition operand_offset :: "regfile \<Rightarrow> string \<Rightarrow> int option res" where
  "operand_offset registers rest =
     (if rest = [] then Inr (Some 0)
      else case rx_full rx_immediate rest of
        Some g \<Rightarrow> bindR (op_integer (the (grp 1 g))) (\<lambda>v. Inr (Some v))
      | None \<Rightarrow>
          (case rx_full rx_index rest of
             None \<Rightarrow> Inr None
           | Some g \<Rightarrow> bindR (register_value registers (the (grp 1 g))) (\<lambda>ov.
               case ov of None \<Rightarrow> Inr None
               | Some v \<Rightarrow>
                   bindR (case grp 3 g of None \<Rightarrow> Inr 0 | Some t \<Rightarrow> int_or_error 10 t) (\<lambda>shift.
                   if shift > 4 then Inr None
                   else Inr (Some (push_bit (nat shift) (extend_index (grp 2 g) v)))))))"

text \<open>\<open>access\<close> is \<open>read\<close> or \<open>write\<close>; the address is the text \<open>hex(address)\<close>.\<close>

record memory_op =
  ma_address :: string
  ma_size :: int
  ma_access :: string

definition trim_rest :: "string \<Rightarrow> string" where
  "trim_rest t = py_strip (lstrip_by (\<lambda>c. c = CHR '','') (py_strip t))"

definition mk_access :: "string \<Rightarrow> int \<Rightarrow> int \<Rightarrow> memory_op" where
  "mk_access mn width address = \<lparr>ma_address = py_hex address, ma_size = width,
     ma_access = (if starts_with mn ''ld'' then ''read'' else ''write'')\<rparr>"

text \<open>\<open>memory_access(mnemonic, operands, registers)\<close>\<close>

definition memory_access :: "string \<Rightarrow> string \<Rightarrow> regfile \<Rightarrow> memory_op option res" where
  "memory_access mn operands registers =
     (if mn \<notin> set memory_names then Inr None
      else let first = py_strip (hd (split_on CHR '','' operands)) in
        if rx_full rx_first first = None then Inr None
        else let width = access_width mn (hd first) in
          (case rx_search rx_base operands of
             None \<Rightarrow>
               (case rx_full rx_literal operands of
                  None \<Rightarrow> Inr None
                | Some g \<Rightarrow>
                    if \<not> starts_with mn ''ld'' then Inr None
                    else bindR (int_or_error 16 (the (grp 1 g))) (\<lambda>address.
                      Inr (Some (mk_access mn width address))))
           | Some (_, _, g) \<Rightarrow>
               bindR (register_value registers (the (grp 1 g))) (\<lambda>obase.
               case obase of None \<Rightarrow> Inr None
               | Some base \<Rightarrow>
                   bindR (operand_offset registers (trim_rest (the (grp 2 g)))) (\<lambda>ooff.
                   case ooff of None \<Rightarrow> Inr None
                   | Some off \<Rightarrow> Inr (Some (mk_access mn width ((base + off) AND MASK64)))))))"


section \<open>Correctness of the decoder\<close>

lemma mask64_take: "v AND MASK64 = take_bit 64 v"
  by (simp add: take_bit_eq_mask mask_eq_exp_minus_1 MASK64_def)

lemma mask32_take: "v AND (2 ^ 32 - 1) = take_bit 32 (v::int)"
  by (simp add: take_bit_eq_mask mask_eq_exp_minus_1)

lemma register_value_range:
  assumes "register_value R n = Inr (Some v)"
  shows "0 \<le> v \<and> v < 2 ^ 64 \<and> (starts_with (reg_alias n) ''w'' \<longrightarrow> v < 2 ^ 32)"
proof -
  have "take_bit 32 x < 2 ^ 64" for x :: int
    using take_bit_int_less_exp [of 32 x] by (rule order_less_trans) simp
  moreover have "take_bit 64 x < 2 ^ 64" "take_bit 32 x < 2 ^ 32" for x :: int
    by (rule take_bit_int_less_exp)+
  ultimately show ?thesis using assms
    by (auto simp: register_value_def Let_def mask64_take mask32_take bindR_Inr take_bit_nonnegative
        split: if_splits option.splits simp del: numeral_power_less_of_int_cancel_iff)
qed

lemma signed_wrap:
  fixes v :: int
  assumes "0 < n"
  shows "(let o1 = v AND (push_bit n 1 - 1) in
      if o1 AND push_bit (n - 1) 1 \<noteq> 0 then o1 - push_bit n 1 else o1) = signed_take_bit (n - 1) v"
proof -
  have m: "v AND (push_bit n 1 - 1) = take_bit n v"
    by (simp add: take_bit_eq_mask mask_eq_exp_minus_1 push_bit_of_1)
  have b: "take_bit n v AND push_bit (n - 1) 1 \<noteq> 0 \<longleftrightarrow> bit v (n - 1)"
    using assms by (simp add: push_bit_of_1 and_exp_eq_0_iff_not_bit bit_take_bit_iff)
  have "signed_take_bit (n - 1) v = take_bit n v - 2 ^ n * of_bool (bit v (n - 1))"
    using assms signed_take_bit_eq_take_bit_minus [of "n - 1" v] by simp
  then show ?thesis
    unfolding Let_def m b by (simp add: push_bit_of_1)
qed

lemma extend_index_signed:
  "extend_index (Some ''sxtw'') v = sint (word_of_int v :: 32 word)"
  "extend_index (Some ''sxtx'') v = sint (word_of_int v :: 64 word)"
  using signed_wrap [of 32 v] signed_wrap [of 64 v]
  by (simp_all add: extend_index_def sint_sbintrunc')

lemma extend_index_plain: "k \<noteq> Some ''sxtw'' \<Longrightarrow> k \<noteq> Some ''sxtx'' \<Longrightarrow> extend_index k v = v"
  by (simp add: extend_index_def)

text \<open>Addresses are computed modulo 2^64, as the machine does.\<close>

lemma effective_word: "(a + b) AND MASK64 = uint (word_of_int a + word_of_int b :: 64 word)"
  by (simp only: mask64_take wi_hom_add unsigned_of_int) simp

lemma memory_access_cases:
  assumes "memory_access mn operands R = Inr (Some m)"
  obtains a where "mn \<in> set memory_names" and "rx_full rx_first (py_strip (hd (split_on CHR '','' operands))) \<noteq> None"
    and "m = mk_access mn (access_width mn (hd (py_strip (hd (split_on CHR '','' operands))))) a"
    and "(\<exists>x. a = x AND MASK64) \<or>
      (rx_search rx_base operands = None \<and> starts_with mn ''ld'' \<and>
       (\<exists>g. rx_full rx_literal operands = Some g \<and> int_or_error 16 (the (grp 1 g)) = Inr a))"
  using assms
  by (auto simp: memory_access_def Let_def bindR_Inr split: if_splits option.splits) blast+

text \<open>What a register-relative operand denotes: the 64-bit sum of base and offset.\<close>

lemma memory_access_base:
  assumes "mn \<in> set memory_names"
    and "rx_full rx_first (py_strip (hd (split_on CHR '','' operands))) \<noteq> None"
    and "rx_search rx_base operands = Some (m, t, g)"
    and "register_value R (the (grp 1 g)) = Inr (Some b)"
    and "operand_offset R (trim_rest (the (grp 2 g))) = Inr (Some d)"
  shows "memory_access mn operands R =
    Inr (Some (mk_access mn (access_width mn (hd (py_strip (hd (split_on CHR '','' operands)))))
      (uint (word_of_int b + word_of_int d :: 64 word))))"
  using assms by (simp add: memory_access_def Let_def flip: effective_word)

lemma digits_dropWhile: "list_all is_digit ds \<Longrightarrow> \<not> is_digit c \<Longrightarrow> dropWhile is_digit (ds @ c # s) = c # s"
  by (induction ds) auto

lemma digits_dropWhile_end: "list_all is_digit ds \<Longrightarrow> dropWhile is_digit ds = []"
  by (induction ds) auto

lemma bracket_dropWhile:
  "CHR '']'' \<notin> set r \<Longrightarrow> dropWhile (\<lambda>c. c \<noteq> CHR '']'') (r @ CHR '']'' # s) = CHR '']'' # s"
  by (induction r) auto

text \<open>The bracketed operand of the text is the one the pattern finds.\<close>

lemma rx_base_finds:
  assumes "CHR ''['' \<notin> set pre" and "ds \<noteq> []" "list_all is_digit ds"
    and "CHR '']'' \<notin> set r" and "r = [] \<or> \<not> is_digit (hd r)"
  shows "\<exists>m t. rx_search rx_base (pre @ CHR ''['' # CHR ''x'' # ds @ r @ CHR '']'' # post)
     = Some (m, t, [(2, r), (1, CHR ''x'' # ds)])"
proof -
  let ?s = "CHR ''x'' # ds @ r @ CHR '']'' # post"
  let ?u = "r @ CHR '']'' # post"
  let ?n = "Seqs [Grp 2 (Star (Cls (\<lambda>c. c \<noteq> CHR '']''))), Chr CHR '']'']"
  obtain c u where cu: "?u = c # u" "\<not> is_digit c"
    using assms(5) by (cases r) (auto simp: is_digit_def byte_val_def)
  have "rx_hd (Plus rDigit) (ds @ ?u) [] = Some (?u, [])"
    using assms(2,3) cu by (cases ds) (auto simp: rx_hd_Plus_Cls digits_dropWhile)
  then have "rx_hd (Seq (Chr CHR ''x'') rDigits) ?s [] = Some (?u, [])"
    by (simp add: Chr_def)
  then have "rx_hd (Grp 1 (Alts [Seq (Chr CHR ''x'') rDigits, Str ''sp'', Str ''fp'', Str ''lr''])) ?s []
      = Some (?u, [(1, CHR ''x'' # ds)])"
    by (subst rx_hd_Grp) (auto simp: rx_hd_Alt)
  moreover have "rx_hd ?n ?u [(1, CHR ''x'' # ds)] = Some (post, [(2, r), (1, CHR ''x'' # ds)])"
  proof -
    have "rx_hd (Grp 2 (Star (Cls (\<lambda>c. c \<noteq> CHR '']'')))) ?u [(1, CHR ''x'' # ds)]
        = Some (CHR '']'' # post, [(2, r), (1, CHR ''x'' # ds)])"
      by (subst rx_hd_Grp) (auto simp: rx_hd_Star_Cls bracket_dropWhile assms(4))
    then show ?thesis by (simp add: rx_hd_Seq Chr_def)
  qed
  ultimately have "rx_hd rx_base (CHR ''['' # ?s) [] = Some (post, [(2, r), (1, CHR ''x'' # ds)])"
    by (simp add: rx_base_def Chr_def rx_hd_Seq)
  moreover have "rx_hd rx_base (c # u) [] = None" if "c \<in> set pre" for c u
    using that assms(1) by (auto simp: rx_base_def Chr_def)
  ultimately show ?thesis
    by (simp add: rx_search_skip rx_search_hit del: rx_search.simps)
qed

lemma is_digit_range: "is_digit c \<Longrightarrow> 48 \<le> byte_val c \<and> byte_val c \<le> 57"
  by (simp add: is_digit_def Let_def)

lemma is_digit_not_space: "is_digit c \<Longrightarrow> \<not> is_space c"
  by (auto simp: is_digit_def is_space_def Let_def)

lemma strip_comma_space: "trim_rest (CHR '','' # CHR '' '' # c # s @ [d]) = c # s @ [d]"
  if "\<not> is_space c" "\<not> is_space d" "c \<noteq> CHR '',''" for c d
proof -
  have sp: "is_space (CHR '' '')" "\<not> is_space (CHR '','')" by code_simp+
  have "py_strip (CHR '','' # CHR '' '' # c # s @ [d]) = CHR '','' # CHR '' '' # c # s @ [d]"
    using py_strip_solid [of "CHR '',''" d "CHR '' '' # c # s"] that sp by simp
  moreover have "py_strip (CHR '' '' # c # s @ [d]) = c # s @ [d]"
    using py_strip_solid [of c d s] that sp by (simp add: py_strip_def strip_by_def lstrip_by_def)
  ultimately show ?thesis by (simp add: trim_rest_def lstrip_by_def)
qed

text \<open>The decoded offset of \<open>, (w|x)N, ext #s\<close>.\<close>

definition ext_names :: "string list" where
  "ext_names = [''lsl'', ''uxtw'', ''sxtw'', ''sxtx'']"

lemma rx_index_finds:
  assumes "k = CHR ''w'' \<or> k = CHR ''x''" and "ds \<noteq> []" "list_all is_digit ds"
    and "e \<in> set ext_names" and "is_digit d"
  shows "rx_full rx_index (k # ds @ '', '' @ e @ '' #'' @ [d])
     = Some [(3, [d]), (2, e), (1, k # ds)]"
proof (rule rx_full_hd)
  let ?u = "'', '' @ e @ '' #'' @ [d]"
  have c: "\<not> is_digit CHR '',''" "is_space CHR '' ''" "\<not> is_digit CHR '' ''" "\<not> is_space CHR ''#''"
    by code_simp+
  have ds: "rx_hd rDigits (ds @ ?u) [] = Some (?u, [])"
    using assms(2,3) c(1) by (cases ds) (auto simp: rx_hd_Plus_Cls digits_dropWhile)
  then have "rx_hd (Seq (one_of ''wx'') rDigits) (k # ds @ ?u) [] = Some (?u, [])"
    using assms(1) by (auto simp: one_of_def)
  then have 1: "rx_hd (Grp 1 (Seq (one_of ''wx'') rDigits)) (k # ds @ ?u) [] = Some (?u, [(1, k # ds)])"
    by (subst rx_hd_Grp) auto
  let ?shift = "Opt (Seqs [rSpaces, Opt (Chr CHR ''#''), Grp 3 rDigits])"
  let ?exts = "Grp 2 (Alts [Str ''lsl'', Str ''uxtw'', Str ''sxtw'', Str ''sxtx''])"
  have dd: "rx_hd (Grp 3 rDigits) [d] g = Some ([], (3, [d]) # g)" for g
    using assms(5) by (subst rx_hd_Grp) (auto simp: rx_hd_Plus_Cls)
  have 3: "rx_hd ?shift ('' #'' @ [d]) g = Some ([], (3, [d]) # g)" for g
  proof -
    have "rx_hd (Opt (Chr CHR ''#'')) (''#'' @ [d]) g = Some ([d], g)"
      by (simp add: Opt_def Chr_def rx_hd_Alt)
    then have "rx_hd (Seq (Opt (Chr CHR ''#'')) (Grp 3 rDigits)) (''#'' @ [d]) g = Some ([], (3, [d]) # g)"
      using dd by (rule rx_hd_Seq)
    moreover have "rx_hd rSpaces ('' #'' @ [d]) g = Some (''#'' @ [d], g)"
      using c by (simp add: rx_hd_Star_Cls)
    ultimately show ?thesis
      by (simp add: Opt_def rx_hd_Alt rx_hd_Seq)
  qed
  have 2: "rx_hd ?exts (e @ '' #'' @ [d]) g = Some ('' #'' @ [d], (2, e) # g)" for g
    using assms(4) by (subst rx_hd_Grp) (auto simp: ext_names_def rx_hd_Alt Chr_def)
  have "rx_hd (Seq ?exts ?shift) (e @ '' #'' @ [d]) g = Some ([], (3, [d]) # (2, e) # g)" for g
    using 2 3 by (rule rx_hd_Seq)
  moreover have "rx_hd rSpaces ('' '' @ e @ '' #'' @ [d]) g = Some (e @ '' #'' @ [d], g)" for g
    using assms(4) c by (auto simp: ext_names_def rx_hd_Star_Cls is_space_def byte_val_def)
  ultimately have "rx_hd (Opt (Seqs [Chr CHR '','', rSpaces, ?exts, ?shift])) ?u g
      = Some ([], (3, [d]) # (2, e) # g)" for g
    by (simp add: Opt_def rx_hd_Alt Chr_def rx_hd_Seq)
  with 1 show "rx_hd rx_index (k # ds @ ?u) [] = Some ([], [(3, [d]), (2, e), (1, k # ds)])"
    by (simp add: rx_index_def rx_hd_Seq)
qed

lemma split_on_nonempty [simp]: "split_on x s \<noteq> []"
  by (induction s) (auto split: list.splits)

lemma split_on_head: "x \<notin> set p \<Longrightarrow> hd (split_on x (p @ x # s)) = p"
proof (induction p)
  case (Cons c p)
  then show ?case by (cases "split_on x (p @ x # s)") auto
qed simp

lemma py_strip_plain:
  assumes "\<not> is_space c" "list_all (\<lambda>x. \<not> is_space x) s"
  shows "py_strip (c # s) = c # s"
proof (cases s rule: rev_cases)
  case Nil
  with assms show ?thesis by (simp add: py_strip_def strip_by_def lstrip_by_def rstrip_by_def)
next
  case (snoc t d)
  with assms show ?thesis using py_strip_solid [of c d t] by simp
qed

lemma rx_immediate_not_register: "k \<in> set ''wx'' \<Longrightarrow> rx_full rx_immediate (k # s) = None"
  by (rule rx_full_None)
    (auto simp: rx_immediate_def rImm_def Opt_def Plus_def Chr_def is_digit_def byte_val_def)

lemma shift_digit: "d \<in> set ''01234'' \<Longrightarrow>
    int_or_error 10 [d] = Inr (byte_val d - 48) \<and> 0 \<le> byte_val d - 48 \<and> byte_val d - 48 \<le> 4 \<and> is_digit d"
  by (auto simp: int_or_error_def py_int_def py_strip_def strip_by_def lstrip_by_def rstrip_by_def
      is_space_def unsigned_int_def base_prefix_def digit_val_def byte_val_def is_digit_def)

text \<open>The reference: the architecture's extended-register offset, on machine words.\<close>

definition arm_offset :: "string \<Rightarrow> int \<Rightarrow> nat \<Rightarrow> 64 word" where
  "arm_offset e i s = push_bit s (if e = ''sxtw'' then scast (word_of_int i :: 32 word) else word_of_int i)"

lemma arm_offset_extend:
  assumes "e \<in> set ext_names"
  shows "word_of_int (push_bit s (extend_index (Some e) i)) = arm_offset e i s"
proof -
  have push: "(word_of_int (push_bit s x) :: 64 word) = push_bit s (word_of_int x)" for x :: int
    by (simp add: push_bit_eq_mult)
  have 2: "(word_of_int (sint w) :: 64 word) = scast w" for w :: "32 word"
    by simp
  have 3: "(word_of_int (sint (word_of_int i :: 64 word)) :: 64 word) = word_of_int i"
    by simp
  consider "e = ''sxtw''" | "e = ''sxtx''" | "e = ''lsl''" | "e = ''uxtw''"
    using assms by (auto simp: ext_names_def)
  then show ?thesis
  proof cases
    case 1
    then show ?thesis by (simp only: push extend_index_signed 2 arm_offset_def if_True simp_thms)
  next
    case 2
    then show ?thesis by (simp only: push extend_index_signed 3 arm_offset_def) simp
  qed (simp_all add: push arm_offset_def extend_index_plain)
qed

lemma operand_offset_index:
  assumes "k \<in> set ''wx''" and "ds \<noteq> []" "list_all is_digit ds" and "e \<in> set ext_names"
    and "d \<in> set ''01234''" and "register_value R (k # ds) = Inr (Some i)"
  shows "operand_offset R (k # ds @ '', '' @ e @ '' #'' @ [d])
    = Inr (Some (push_bit (nat (byte_val d - 48)) (extend_index (Some e) i)))"
proof -
  have "rx_full rx_index (k # ds @ '', '' @ e @ '' #'' @ [d]) = Some [(3, [d]), (2, e), (1, k # ds)]"
    using rx_index_finds [of k ds e d] assms shift_digit [of d] by auto
  moreover have "rx_full rx_immediate (k # ds @ '', '' @ e @ '' #'' @ [d]) = None"
    using rx_immediate_not_register assms(1) by blast
  ultimately show ?thesis
    using assms(6) shift_digit [OF assms(5)] by (simp add: operand_offset_def grp_def)
qed

text \<open>
  C1. A load or store with an extended register index: the decoder reports the effective
  address the architecture computes (64-bit wrap-around, sign extension of a w index), the
  width the mnemonic transfers, and the direction.
\<close>

theorem memory_access_indexed:
  assumes "mn \<in> set memory_names" and "c \<in> set ''xwqdsbh''"
    and "fs \<noteq> []" "list_all is_digit fs" and "bs \<noteq> []" "list_all is_digit bs"
    and "k \<in> set ''wx''" and "ds \<noteq> []" "list_all is_digit ds"
    and "e \<in> set ext_names" and "d \<in> set ''01234''"
    and "register_value R (CHR ''x'' # bs) = Inr (Some b)" and "register_value R (k # ds) = Inr (Some i)"
  shows "memory_access mn (c # fs @ '', [x'' @ bs @ '', '' @ k # ds @ '', '' @ e @ '' #'' @ d # '']'') R
    = Inr (Some (mk_access mn (access_width mn c)
        (uint (word_of_int b + arm_offset e i (nat (byte_val d - 48))))))"
proof -
  let ?r = "'', '' @ k # ds @ '', '' @ e @ '' #'' @ [d]"
  let ?ops = "(c # fs @ '', '') @ CHR ''['' # CHR ''x'' # bs @ ?r @ CHR '']'' # []"
  have dg: "x \<noteq> CHR ''['' \<and> x \<noteq> CHR '']'' \<and> x \<noteq> CHR '',''" if "is_digit x" for x
    using that by (auto simp: is_digit_def byte_val_def)
  have nin: "CHR ''['' \<notin> set xs \<and> CHR '']'' \<notin> set xs \<and> CHR '','' \<notin> set xs" if "list_all is_digit xs" for xs
    using that dg by (auto simp: list_all_iff)
  have cs: "c \<noteq> CHR ''['' \<and> c \<noteq> CHR '','' \<and> \<not> is_space c" and ks: "\<not> is_space k \<and> k \<noteq> CHR '','' \<and> k \<noteq> CHR '']''"
    using assms(2,7) by (auto simp: is_space_def byte_val_def)
  have a1: "CHR ''['' \<notin> set (c # fs @ '', '')" using cs nin [OF assms(4)] by auto
  have a2: "?r = [] \<or> \<not> is_digit (hd ?r)" by (simp add: is_digit_def byte_val_def)
  have a3: "CHR '']'' \<notin> set ?r"
    using assms(10) nin [OF assms(9)] ks dg shift_digit [OF assms(11)] by (auto simp: ext_names_def)
  obtain m t where hit: "rx_search rx_base ?ops = Some (m, t, [(2, ?r), (1, CHR ''x'' # bs)])"
    using rx_base_finds [OF a1 assms(5,6) a3 a2] by blast
  have "hd (split_on CHR '','' ?ops) = c # fs"
  proof -
    have "CHR '','' \<notin> set (c # fs)" using cs nin [OF assms(4)] by auto
    from split_on_head [OF this] show ?thesis by (simp del: split_on.simps)
  qed
  moreover have "py_strip (c # fs) = c # fs"
    using cs assms(4) is_digit_not_space by (intro py_strip_plain) (auto simp: list_all_iff)
  ultimately have first: "py_strip (hd (split_on CHR '','' ?ops)) = c # fs" by simp
  have "rx_hd rx_first (c # fs) [] = Some ([], [])"
    using assms(2-4) by (cases fs)
      (auto simp: rx_first_def one_of_def rx_hd_Alt rx_hd_Plus_Cls digits_dropWhile_end)
  then have full: "rx_full rx_first (c # fs) \<noteq> None" by (simp add: rx_full_hd)
  have "trim_rest ?r = k # ds @ '', '' @ e @ '' #'' @ [d]"
    using strip_comma_space [of k d "ds @ '', '' @ e @ '' #''"] ks is_digit_not_space
      shift_digit [OF assms(11)] by simp
  then have off: "operand_offset R (trim_rest ?r)
      = Inr (Some (push_bit (nat (byte_val d - 48)) (extend_index (Some e) i)))"
    using operand_offset_index assms by simp
  have "memory_access mn ?ops R = Inr (Some (mk_access mn (access_width mn c)
      (uint (word_of_int b + arm_offset e i (nat (byte_val d - 48))))))"
    using memory_access_base [of mn ?ops m t _ R b, OF assms(1) _ hit] first full off assms(10,12)
    by (simp add: grp_def arm_offset_extend)
  then show ?thesis by simp
qed

lemma memory_access_indexed_witness:
  "memory_access ''ldr'' ''x0, [x1, w2, sxtw #3]'' (map_of [(''x1'', RInt 4096), (''x2'', RText ''0xfffffff8'')])
   = Inr (Some (mk_access ''ldr'' 8 4032))"
proof -
  let ?R = "map_of [(''x1'', RInt 4096), (''x2'', RText ''0xfffffff8'')]"
  have "register_value ?R ''x1'' = Inr (Some 4096)" "register_value ?R ''w2'' = Inr (Some 4294967288)"
    by code_simp+
  then have "memory_access ''ldr'' (CHR ''x'' # ''0'' @ '', [x'' @ ''1'' @ '', '' @ CHR ''w'' # ''2'' @ '', ''
        @ ''sxtw'' @ '' #'' @ CHR ''3'' # '']'') ?R
    = Inr (Some (mk_access ''ldr'' (access_width ''ldr'' CHR ''x'')
        (uint (word_of_int 4096 + arm_offset ''sxtw'' 4294967288 (nat (byte_val CHR ''3'' - 48))))))"
    by (intro memory_access_indexed) (auto simp: memory_names_def ext_names_def is_digit_def byte_val_def)
  moreover have "access_width ''ldr'' CHR ''x'' = 8" by code_simp
  moreover have "uint (word_of_int 4096 + arm_offset ''sxtw'' 4294967288 (nat (byte_val CHR ''3'' - 48))) = 4032"
    by (simp add: arm_offset_def byte_val_def)
  ultimately show ?thesis by simp
qed

definition transfer_widths :: "int list" where "transfer_widths = [1, 2, 4, 8, 16, 32]"

lemma access_width_values: "access_width mn c \<in> set transfer_widths"
  by (auto simp: transfer_widths_def access_width_def first_width_def Let_def)

lemma bounded_mask: "0 \<le> x AND MASK64 \<and> x AND MASK64 < 2 ^ 64"
  using take_bit_int_less_exp [of 64 x] by (simp only: mask64_take take_bit_nonnegative)

text \<open>
  What the decoder may report: only ordinary loads and stores are decoded (never an
  exclusive, atomic or SVE mnemonic), with one of the architecture's widths and the right
  direction; the address of a register operand is a 64-bit address, and without a bracketed
  operand only a load from a literal address is reported.
\<close>

theorem memory_access_conservative:
  assumes "memory_access mn operands R = Inr (Some m)"
  shows "mn \<in> set memory_names \<and> ma_size m \<in> set transfer_widths \<and>
    ma_access m = (if starts_with mn ''ld'' then ''read'' else ''write'') \<and>
    (\<exists>a. ma_address m = py_hex a \<and>
       (if rx_search rx_base operands = None then starts_with mn ''ld'' \<and>
            (\<exists>g. rx_full rx_literal operands = Some g \<and> py_int 16 (the (grp 1 g)) = Some a)
        else 0 \<le> a \<and> a < 2 ^ 64))"
  using assms bounded_mask
  by (auto simp: memory_access_def Let_def bindR_Inr mk_access_def int_or_error_def access_width_values
      simp del: and_nonnegative_int_iff split: if_splits option.splits) (blast intro: bounded_mask)+

lemma memory_access_conservative_witness:
  "\<exists>m. memory_access ''str'' ''w3, [x1]'' (map_of [(''x1'', RInt 4096)]) = Inr (Some m) \<and> ma_size m = 4
     \<and> ma_access m = ''write''"
proof -
  have h: "memory_access ''str'' ''w3, [x1]'' (map_of [(''x1'', RInt 4096)])
      = Inr (Some (mk_access ''str'' 4 4096))" by code_simp
  have "ma_access (mk_access ''str'' 4 4096) = ''write''"
    using memory_access_conservative [OF h] by (simp add: starts_with_def)
  with h show ?thesis by (simp add: mk_access_def)
qed

end
