(* ===== verification/Disasm.thy ===== *)
theory Disasm
  imports Arm64Operands
begin

text \<open>
  \<open>macdbg/core/disasm.py\<close>: reading immediates, registers and branch targets out of operand
  text, predicting a conditional branch from the live registers, and the branch-arrow gutter
  beside the listing. LLDB's frame is a function from register names to values (None: no such
  register).
\<close>

section \<open>Reading operand text\<close>

definition rx_int :: rx where "rx_int = Seq (Chr CHR ''#'') rImm"
definition rx_hex_addr :: rx where "rx_hex_addr = rHexNum"

text \<open>The maximal runs of word characters of a text: where a pattern between \<open>\b\<close> can match.\<close>

function words :: "string \<Rightarrow> string list" where
  "words [] = []"
| "words (c # s) = (if is_word c then takeWhile is_word (c # s) # words (dropWhile is_word (c # s))
     else words s)"
  by pat_completeness auto
termination
  by (relation "measure length") (auto simp: less_Suc_eq_le length_dropWhile_le)

definition rx_reg_name :: rx where
  "rx_reg_name = Alts [Seq (one_of ''xwXW'') (Alt (Seq (Opt (one_of ''12'')) rDigit)
       (Seq (Chr CHR ''3'') (one_of ''01''))),
     Seq (one_of ''sS'') (one_of ''pP''),
     Seqs [one_of ''xX'', one_of ''zZ'', one_of ''rR''],
     Seqs [one_of ''wW'', one_of ''zZ'', one_of ''rR''],
     Seq (one_of ''lL'') (one_of ''rR''), Seq (one_of ''fF'') (one_of ''pP'')]"

definition reg_names_in :: "string \<Rightarrow> string list" where
  "reg_names_in s = filter (\<lambda>w. rx_full rx_reg_name w \<noteq> None) (words s)"

text \<open>\<open>int(tok, 16) if tok starts with 0x or -0x else int(tok)\<close>\<close>

definition tok_int :: "string \<Rightarrow> int option" where
  "tok_int tok = (if starts_with (py_lower tok) ''0x'' \<or> starts_with tok ''-0x''
     then py_int 16 tok else py_int 10 tok)"

definition parse_imm :: "string \<Rightarrow> int option" where
  "parse_imm s = (case rx_search rx_int s of None \<Rightarrow> None | Some (m, _, _) \<Rightarrow> tok_int (drop 1 m))"

definition first_reg :: "string \<Rightarrow> string option" where
  "first_reg operands = (case reg_names_in operands of [] \<Rightarrow> None | r # _ \<Rightarrow> Some (py_lower r))"

definition addr_base_reg :: "string \<Rightarrow> string option" where
  "addr_base_reg operands = (case reg_names_in operands of _ # r # _ \<Rightarrow> Some (py_lower r) | _ \<Rightarrow> None)"

definition first_hex_addr :: "string \<Rightarrow> int option" where
  "first_hex_addr operands = (case rx_search rx_hex_addr operands of None \<Rightarrow> None
     | Some (m, _, _) \<Rightarrow> (case py_int 16 m of None \<Rightarrow> None
         | Some v \<Rightarrow> if v < 65536 then None else Some v))"

definition rx_adrp_imm :: rx where
  "rx_adrp_imm = Seqs [rSpaces, one_of ''xwXW'', rDigits, rSpaces, Chr CHR '','', rSpaces,
     Opt (Chr CHR ''#''), Grp 1 (Seq (Opt (Chr CHR ''-''))
       (Alt (Seqs [Chr CHR ''0'', one_of ''xX'', Plus rHex]) rDigits)), rSpaces]"

text \<open>The pattern ends in \<open>$\<close>, which also matches before a final newline.\<close>

definition parse_adrp_imm :: "string \<Rightarrow> int option" where
  "parse_adrp_imm operands =
     (case rx_full (Seq rx_adrp_imm (Opt (Cls (\<lambda>c. byte_val c = 10)))) operands of None \<Rightarrow> None
      | Some g \<Rightarrow> tok_int (the (grp 1 g)))"

definition branch_target :: "string \<Rightarrow> int option" where
  "branch_target operands = (case rev (rx_findall rx_hex_addr operands) of [] \<Rightarrow> None
     | (m, _) # _ \<Rightarrow> py_int 16 m)"

definition extract_addr :: "string \<Rightarrow> int option" where
  "extract_addr operands =
     foldl (\<lambda>best (m, _). case py_int 16 m of None \<Rightarrow> best
        | Some v \<Rightarrow> if v < 65536 then best
            else (case best of None \<Rightarrow> Some v | Some b \<Rightarrow> if v > b then Some v else best))
       None (rx_findall rx_hex_addr operands)"

section \<open>Predicting a conditional branch\<close>

definition flag_bit :: "int \<Rightarrow> nat \<Rightarrow> int" where
  "flag_bit v n = (drop_bit n v) AND 1"

text \<open>The table from condition suffix to outcome, over the N, Z, C, V bits of \<open>cpsr\<close>.\<close>

definition cond_table :: "int \<Rightarrow> string \<Rightarrow> bool option" where
  "cond_table cpsr cond =
     (let n = flag_bit cpsr 31; z = flag_bit cpsr 30; c = flag_bit cpsr 29; ov = flag_bit cpsr 28 in
      map_of [(''eq'', z = 1), (''ne'', z = 0), (''cs'', c = 1), (''hs'', c = 1),
        (''cc'', c = 0), (''lo'', c = 0), (''mi'', n = 1), (''pl'', n = 0),
        (''vs'', ov = 1), (''vc'', ov = 0), (''hi'', c = 1 \<and> z = 0), (''ls'', c = 0 \<or> z = 1),
        (''ge'', n = ov), (''lt'', n \<noteq> ov), (''gt'', z = 0 \<and> n = ov), (''le'', z = 1 \<or> n \<noteq> ov),
        (''al'', True), (''nv'', False)] cond)"

text \<open>
  \<open>_evaluate_condition(row, frame)\<close>. The bit operand of \<open>tbz\<close> is the first immediate; a
  negative one makes Python's shift raise \<open>ValueError\<close>.
\<close>

definition evaluate_condition :: "string \<Rightarrow> string \<Rightarrow> (string \<Rightarrow> int option) \<Rightarrow> bool option res" where
  "evaluate_condition mnemonic ops frame =
     (let mn = py_lower mnemonic in
      if mn = ''cbz'' \<or> mn = ''cbnz'' then
        (case first_reg ops of None \<Rightarrow> Inr None
         | Some rn \<Rightarrow> (case frame rn of None \<Rightarrow> Inr None
             | Some val \<Rightarrow> Inr (Some (if mn = ''cbz'' then val = 0 else val \<noteq> 0))))
      else if mn = ''tbz'' \<or> mn = ''tbnz'' then
        (case first_reg ops of None \<Rightarrow> Inr None
         | Some rn \<Rightarrow> (case frame rn of None \<Rightarrow> Inr None
             | Some val \<Rightarrow>
                 (case rx_findall rx_int ops of [] \<Rightarrow> Inr None
                  | (m, _) # _ \<Rightarrow>
                      (let tok = drop 1 m in
                       case (if starts_with (py_lower tok) ''0x'' then py_int 16 tok else py_int 10 tok) of
                         None \<Rightarrow> Inr None
                       | Some bitno \<Rightarrow>
                           if bitno < 0 then Inl (ValueError ''negative shift count'')
                           else let bit_set = (flag_bit val (nat bitno) = 1)
                             in Inr (Some (if mn = ''tbz'' then \<not> bit_set else bit_set))))))
      else if \<not> starts_with mn ''b.'' then Inr None
      else (case frame ''cpsr'' of None \<Rightarrow> Inr None
            | Some v \<Rightarrow> Inr (cond_table v (drop 2 mn))))"

section \<open>The branch gutter\<close>

text \<open>One character cell: blank, the corners, the vertical and horizontal strokes, the head.\<close>

datatype glyph = Blank | DownSrc | UpSrc | DownDst | UpDst | Vert | Horiz | Head

record disasm_row =
  dr_addr :: int
  dr_mn :: string
  dr_ops :: string
  dr_is_pc :: bool

record branch =
  br_src :: nat
  br_dst :: nat
  br_cond :: bool

definition br_top :: "branch \<Rightarrow> nat" where "br_top b = min (br_src b) (br_dst b)"
definition br_bot :: "branch \<Rightarrow> nat" where "br_bot b = max (br_src b) (br_dst b)"

definition branch_mnemonics :: "string list" where
  "branch_mnemonics = [''b'', ''bl'', ''b.eq'', ''b.ne'', ''b.cs'', ''b.hs'', ''b.cc'', ''b.lo'',
     ''b.mi'', ''b.pl'', ''b.vs'', ''b.vc'', ''b.hi'', ''b.ls'', ''b.ge'', ''b.lt'', ''b.gt'',
     ''b.le'', ''b.al'', ''b.nv'', ''cbz'', ''cbnz'', ''tbz'', ''tbnz'']"

text \<open>The last row at an address, as the dictionary built from the rows has it.\<close>

definition row_at :: "disasm_row list \<Rightarrow> int \<Rightarrow> nat option" where
  "row_at rows a = map_of (rev (zip (map dr_addr rows) [0..<length rows])) a"

definition row_branch :: "disasm_row list \<Rightarrow> nat \<times> disasm_row \<Rightarrow> branch option" where
  "row_branch rows = (\<lambda>(i, r).
     let mn = py_lower (dr_mn r); base = hd (split_on CHR ''.'' mn) in
     if (mn \<notin> set branch_mnemonics \<and> base \<noteq> ''b'' \<and> mn \<notin> {''cbz'', ''cbnz'', ''tbz'', ''tbnz''})
        \<or> mn = ''bl'' then None
     else (case branch_target (dr_ops r) of None \<Rightarrow> None
       | Some target \<Rightarrow> (case row_at rows target of None \<Rightarrow> None
           | Some j \<Rightarrow> if j = i then None
               else Some \<lparr>br_src = i, br_dst = j, br_cond = (mn \<noteq> ''b'')\<rparr>)))"

definition gutter_branches :: "disasm_row list \<Rightarrow> branch list" where
  "gutter_branches rows = List.map_filter (row_branch rows) (enumerate 0 rows)"

definition clear_of :: "branch \<Rightarrow> branch list \<Rightarrow> bool" where
  "clear_of br lane = list_all (\<lambda>b. br_bot b < br_top br \<or> br_top b > br_bot br) lane"

text \<open>Put a branch in the first lane where it meets nothing, or in a new one.\<close>

fun place :: "branch \<Rightarrow> branch list list \<Rightarrow> branch list list" where
  "place br [] = [[br]]"
| "place br (lane # lanes) =
     (if clear_of br lane then (lane @ [br]) # lanes else lane # place br lanes)"

definition lane_order :: "branch list \<Rightarrow> branch list" where
  "lane_order brs = sort_key br_top brs"

text \<open>Python's stable sort by (length, top): by top first, then stably by length.\<close>

definition by_span :: "branch list \<Rightarrow> branch list" where
  "by_span brs = sort_key (\<lambda>b. br_bot b - br_top b) (lane_order brs)"

definition gutter_lanes :: "branch list \<Rightarrow> branch list list" where
  "gutter_lanes brs = fold place (by_span brs) []"

fun lane_of :: "branch \<Rightarrow> branch list list \<Rightarrow> nat" where
  "lane_of br [] = 0"
| "lane_of br (lane # lanes) = (if br \<in> set lane then 0 else Suc (lane_of br lanes))"

type_synonym cell = "glyph \<times> bool option"

text \<open>A cell holds a glyph and the highlight of a predicted branch (None: the default style).\<close>

definition draw_cell :: "nat \<Rightarrow> branch \<Rightarrow> nat \<Rightarrow> bool option \<Rightarrow> nat \<Rightarrow> nat \<Rightarrow> cell \<Rightarrow> cell" where
  "draw_cell width br col style k c old =
     (let down = br_src br < br_dst br;
          here = (if c = col then
              (if k = br_src br then (if down then DownSrc else UpSrc)
               else if k = br_dst br then (if down then DownDst else UpDst)
               else if fst old = Blank then Vert else fst old)
            else fst old);
          st = (if c = col \<and> style \<noteq> None then style else snd old)
      in if k = br_dst br then
           (let g1 = (if col < c \<and> c < width \<and> here = Blank then Horiz else here);
                s1 = (if col < c \<and> c < width \<and> here = Blank \<and> style \<noteq> None then style else st)
            in if c = width - 1 then (Head, if style \<noteq> None then style else s1) else (g1, s1))
         else (here, st))"

definition draw_branch :: "nat \<Rightarrow> nat \<Rightarrow> branch \<times> nat \<times> bool option \<Rightarrow> cell list list \<Rightarrow> cell list list" where
  "draw_branch width n_lanes = (\<lambda>(br, lane, style) grid.
     if lane \<ge> n_lanes then grid
     else let col = width - 2 - lane in
       map (\<lambda>(k, row). if br_top br \<le> k \<and> k \<le> br_bot br
           then map (\<lambda>(c, cell). draw_cell width br col style k c cell) (enumerate 0 row) else row)
         (enumerate 0 grid))"

text \<open>The highlight of a branch: only the conditional branch at the program counter.\<close>

definition branch_style :: "disasm_row list \<Rightarrow> (string \<Rightarrow> int option) option \<Rightarrow> branch \<Rightarrow> bool option res" where
  "branch_style rows frame br =
     (let r = rows ! br_src br in
      case frame of
        Some f \<Rightarrow> if dr_is_pc r \<and> br_cond br then evaluate_condition (dr_mn r) (dr_ops r) f else Inr None
      | None \<Rightarrow> Inr None)"

definition draw_gutter :: "disasm_row list \<Rightarrow> nat \<Rightarrow> (string \<Rightarrow> int option) option \<Rightarrow> cell list list option res" where
  "draw_gutter rows width frame =
     (let branches = gutter_branches rows; lanes = gutter_lanes branches;
          n_lanes = min (length lanes) (width - 1) in
      if branches = [] then Inr None
      else bindR (mapR (\<lambda>br. bindR (if lane_of br lanes \<ge> n_lanes then Inr None else branch_style rows frame br)
             (\<lambda>st. Inr (br, lane_of br lanes, st))) branches)
        (\<lambda>drawn. Inr (Some (fold (draw_branch width n_lanes) drawn
           (replicate (length rows) (replicate width (Blank, None)))))))"


section \<open>Predicted branches\<close>

text \<open>
  The reference: the flags \<open>cmp a, b\<close> leaves in \<open>cpsr\<close>, on 64-bit words; the other bits of
  the register are arbitrary.
\<close>

definition pack_nzcv :: "bool \<Rightarrow> bool \<Rightarrow> bool \<Rightarrow> bool \<Rightarrow> int \<Rightarrow> int" where
  "pack_nzcv n z c v low =
     of_bool n * 2147483648 + of_bool z * 1073741824 + of_bool c * 536870912 + of_bool v * 268435456 + low"

definition cmp_flags :: "64 word \<Rightarrow> 64 word \<Rightarrow> int \<Rightarrow> int" where
  "cmp_flags a b low = pack_nzcv (sint (a - b) < 0) (a = b) (b \<le> a) (sint (a - b) \<noteq> sint a - sint b) low"

lemma flag_bit_28: "flag_bit v (28 + k) = (v div 268435456) div 2 ^ k mod 2"
proof -
  have "drop_bit (28 + k) v = drop_bit k (drop_bit 28 v)" by (simp add: drop_bit_drop_bit add.commute)
  then show ?thesis by (simp add: flag_bit_def and_one_eq drop_bit_eq_div)
qed

lemma flag_bit_pack:
  assumes "0 \<le> low" "low < 268435456"
  shows "flag_bit (pack_nzcv n z c v low) 31 = of_bool n" "flag_bit (pack_nzcv n z c v low) 30 = of_bool z"
    "flag_bit (pack_nzcv n z c v low) 29 = of_bool c" "flag_bit (pack_nzcv n z c v low) 28 = of_bool v"
proof -
  have "pack_nzcv n z c v low =
      low + (8 * of_bool n + 4 * of_bool z + 2 * of_bool c + of_bool v) * 268435456"
    by (simp add: pack_nzcv_def)
  then have d: "pack_nzcv n z c v low div 268435456 =
      8 * of_bool n + 4 * of_bool z + 2 * of_bool c + of_bool v"
    using assms by simp
  obtain q where q: "q = 8 * of_bool n + 4 * of_bool z + 2 * of_bool c + (of_bool v :: int)" by blast
  have k: "flag_bit (pack_nzcv n z c v low) (28 + k) = q div 2 ^ k mod 2" for k
    by (simp only: flag_bit_28 d q)
  have "q div 8 mod 2 = of_bool n" "q div 4 mod 2 = of_bool z" "q div 2 mod 2 = of_bool c" "q mod 2 = of_bool v"
    unfolding q by (cases n; cases z; cases c; cases v; simp)+
  moreover have "flag_bit (pack_nzcv n z c v low) 31 = q div 8 mod 2" using k [of 3] by (simp del: One_nat_def)
  moreover have "flag_bit (pack_nzcv n z c v low) 30 = q div 4 mod 2" using k [of 2] by (simp del: One_nat_def)
  moreover have "flag_bit (pack_nzcv n z c v low) 29 = q div 2 mod 2" using k [of 1] by (simp del: One_nat_def)
  moreover have "flag_bit (pack_nzcv n z c v low) 28 = q mod 2" using k [of 0] by (simp del: One_nat_def)
  ultimately show "flag_bit (pack_nzcv n z c v low) 31 = of_bool n" "flag_bit (pack_nzcv n z c v low) 30 = of_bool z"
    "flag_bit (pack_nzcv n z c v low) 29 = of_bool c" "flag_bit (pack_nzcv n z c v low) 28 = of_bool v"
    by (simp_all only:)
qed

lemma wrap_signed:
  fixes d :: int
  assumes "- M \<le> d" "d < M" "M = 2 * H" "0 < H"
  shows "(d + H) mod M = (if d < - H then d + H + M else if d < H then d + H else d + H - M)"
proof -
  consider "d < - H" | "- H \<le> d" "d < H" | "H \<le> d" by linarith
  then show ?thesis
  proof cases
    case 1
    have "(d + H) mod M = (d + H + M) mod M" by simp
    also have "\<dots> = d + H + M" using 1 assms by (intro mod_pos_pos_trivial) auto
    finally show ?thesis using 1 by simp
  next
    case 2
    then show ?thesis using assms by (simp add: mod_pos_pos_trivial)
  next
    case 3
    have "(d + H) mod M = (d + H - M) mod M" by (metis diff_add_cancel mod_add_self2)
    also have "\<dots> = d + H - M" using 3 assms by (intro mod_pos_pos_trivial) auto
    finally show ?thesis using 3 assms by simp
  qed
qed

lemma signed_less_flags: "(sint (a - b) < 0) \<noteq> (sint (a - b) \<noteq> sint a - sint b) \<longleftrightarrow> sint a < sint (b :: 64 word)"
proof -
  have r: "- 9223372036854775808 \<le> sint w \<and> sint w < 9223372036854775808" for w :: "64 word"
    using sint_ge [of w] sint_lt [of w] by simp
  have "sint (a - b) = signed_take_bit 63 (sint a - sint b)"
    using sint_word_ariths(2) [of a b] by simp
  then have "sint (a - b) = (sint a - sint b + 9223372036854775808) mod 18446744073709551616 - 9223372036854775808"
    by (simp add: signed_take_bit_eq_take_bit_shift take_bit_eq_mod)
  moreover have "- 18446744073709551616 \<le> sint a - sint b" "sint a - sint b < 18446744073709551616"
    using r [of a] r [of b] by linarith+
  moreover from this have "(sint a - sint b + 9223372036854775808) mod 18446744073709551616
      = (if sint a - sint b < - 9223372036854775808 then sint a - sint b + 9223372036854775808 + 18446744073709551616
         else if sint a - sint b < 9223372036854775808 then sint a - sint b + 9223372036854775808
         else sint a - sint b + 9223372036854775808 - 18446744073709551616)"
    by (intro wrap_signed) simp_all
  ultimately show ?thesis by (cases "sint a < sint b") (simp_all split: if_splits)
qed

definition cond_relation :: "string \<Rightarrow> (64 word \<Rightarrow> 64 word \<Rightarrow> bool) option" where
  "cond_relation c = map_of
     [(''eq'', (=)), (''ne'', (\<lambda>a b. a \<noteq> b)), (''hs'', (\<lambda>a b. b \<le> a)), (''cs'', (\<lambda>a b. b \<le> a)),
      (''lo'', (<)), (''cc'', (<)), (''hi'', (\<lambda>a b. b < a)), (''ls'', (\<le>)),
      (''ge'', (\<lambda>a b. sint b \<le> sint a)), (''lt'', (\<lambda>a b. sint a < sint b)),
      (''gt'', (\<lambda>a b. sint b < sint a)), (''le'', (\<lambda>a b. sint a \<le> sint b))] c"

text \<open>
  After a comparison the branch prediction is the comparison itself: for every condition
  suffix the predicted outcome of \<open>b.cond\<close> is the signed or unsigned relation between the
  compared values.
\<close>

theorem evaluate_condition_compares:
  assumes "cond_relation c = Some rel" and "0 \<le> low" "low < 268435456"
    and "frame ''cpsr'' = Some (cmp_flags a b low)"
  shows "evaluate_condition (''b.'' @ c) ops frame = Inr (Some (rel a b))"
proof -
  have lower: "py_lower (''b.'' @ c) = ''b.'' @ c"
    using assms(1) by (auto simp: cond_relation_def py_lower_def lower_char_def is_upper_def byte_val_def
        split: if_splits)
  have "evaluate_condition (''b.'' @ c) ops frame = Inr (cond_table (cmp_flags a b low) c)"
    unfolding evaluate_condition_def Let_def lower using assms(4) by (simp add: starts_with_def)
  moreover have "cond_table (cmp_flags a b low) c = Some (rel a b)"
    using assms(1) signed_less_flags [of a b] word_eq_iff_signed [of a b] flag_bit_pack [OF assms(2,3)]
    by (auto simp: cond_table_def cond_relation_def cmp_flags_def Let_def split: if_splits)
  ultimately show ?thesis by simp
qed

lemma evaluate_condition_compares_witness:
  "evaluate_condition ''b.lt'' ''0x1000'' (\<lambda>_. Some (cmp_flags (-1) 1 0)) = Inr (Some True)"
proof -
  have "evaluate_condition (''b.'' @ ''lt'') ''0x1000'' (\<lambda>_. Some (cmp_flags (-1) 1 0))
    = Inr (Some (sint (-1 :: 64 word) < sint (1 :: 64 word)))"
    by (rule evaluate_condition_compares) (auto simp: cond_relation_def)
  then show ?thesis by simp
qed

section \<open>Lanes of the gutter\<close>

definition lane_ok :: "branch list \<Rightarrow> bool" where
  "lane_ok lane = (\<forall>i < length lane. \<forall>j < i. br_bot (lane ! j) < br_top (lane ! i) \<or> br_top (lane ! j) > br_bot (lane ! i))"

lemma lane_ok_snoc: "lane_ok lane \<Longrightarrow> clear_of br lane \<Longrightarrow> lane_ok (lane @ [br])"
  by (auto simp: lane_ok_def clear_of_def nth_append list_all_length less_Suc_eq)

lemma place_ok: "\<forall>l \<in> set lanes. lane_ok l \<Longrightarrow> \<forall>l \<in> set (place br lanes). lane_ok l"
  by (induction lanes) (auto simp: lane_ok_snoc, simp add: lane_ok_def)

lemma place_set: "(\<Union>l \<in> set (place br lanes). set l) = insert br (\<Union>l \<in> set lanes. set l)"
  by (induction lanes) auto

lemma fold_place: "(\<forall>l \<in> set lanes. lane_ok l) \<Longrightarrow>
   (\<forall>l \<in> set (fold place brs lanes). lane_ok l) \<and>
   set (concat (fold place brs lanes)) = set brs \<union> set (concat lanes)"
proof (induction brs arbitrary: lanes)
  case (Cons br brs)
  from Cons.IH [of "place br lanes"] place_ok [OF Cons.prems] show ?case
    by (simp add: place_set)
qed simp

text \<open>
  The gutter never draws two branches over each other: every branch of the listing has a
  lane, and two different arrows of one lane occupy disjoint ranges of rows.
\<close>

theorem gutter_lanes_disjoint:
  "set (concat (gutter_lanes brs)) = set brs \<and>
   (\<forall>lane \<in> set (gutter_lanes brs). \<forall>i < length lane. \<forall>j < i.
      br_bot (lane ! j) < br_top (lane ! i) \<or> br_top (lane ! j) > br_bot (lane ! i))"
  using fold_place [of "[]" "by_span brs"]
  by (auto simp: gutter_lanes_def by_span_def lane_order_def lane_ok_def)

lemma gutter_lanes_disjoint_witness:
  "br_bot \<lparr>br_src = 1, br_dst = 2, br_cond = True\<rparr> < br_top \<lparr>br_src = 5, br_dst = 3, br_cond = True\<rparr>"
proof -
  let ?a = "\<lparr>br_src = 1, br_dst = 2, br_cond = True\<rparr>" and ?b = "\<lparr>br_src = 5, br_dst = 3, br_cond = True\<rparr>"
  have "gutter_lanes [?a, ?b] = [[?a, ?b]]" by code_simp
  with gutter_lanes_disjoint [of "[?a, ?b]"] have
    "\<forall>i < Suc (Suc 0). \<forall>j < i. br_bot ([?a, ?b] ! j) < br_top ([?a, ?b] ! i) \<or> br_top ([?a, ?b] ! j) > br_bot ([?a, ?b] ! i)"
    by simp
  from this [rule_format, of 1 0] show ?thesis by (simp add: br_top_def br_bot_def)
qed

end
