(* ===== verification/CodeFlow.thy ===== *)
theory CodeFlow
  imports Disasm
begin

text \<open>
  \<open>macdbg/core/code_flow.py\<close>: constant propagation inside basic blocks, which finds the
  addresses a listing refers to. \<open>read_memory\<close> of the debugger is a parameter (None: not
  given). Known register values are a dictionary from register name to a value of the
  register's width.
\<close>

record flow_row =
  fr_addr :: int
  fr_mn :: string
  fr_ops :: string

record reference =
  rf_row :: flow_row
  rf_target :: int
  rf_kind :: string

type_synonym reader = "(int \<Rightarrow> int \<Rightarrow> bytes) option"
type_synonym known = "string \<Rightarrow> int option"

definition regs_of :: "known \<Rightarrow> regfile" where
  "regs_of vs = (\<lambda>k. map_option RInt (vs k))"

definition compare_branches :: "string list" where
  "compare_branches = [''cbz'', ''cbnz'', ''tbz'', ''tbnz'']"

definition is_direct :: "string \<Rightarrow> bool" where
  "is_direct mn = (mn \<in> set ([''b'', ''bl''] @ compare_branches) \<or> starts_with mn ''b.'')"

definition leaders :: "flow_row list \<Rightarrow> int set" where
  "leaders rows = set (List.map_filter (\<lambda>r. if is_direct (fr_mn r) then branch_target (fr_ops r) else None) rows)"

definition rx_gpr :: rx where "rx_gpr = Seq (one_of ''wx'') rDigits"
definition rx_abs :: rx where
  "rx_abs = Seqs [Plus (Cls is_word), Chr CHR '','', rSpaces, Grp 1 rHexNum]"
definition rx_mov_imm :: rx where
  "rx_mov_imm = Seq (Opt (Chr CHR ''#''))
     (Grp 1 (Alts [rHexNum, rDigits, Seq (Chr CHR ''-'') rDigits]))"
definition rx_mov_shift :: rx where
  "rx_mov_shift = Seqs [Str ''lsl'', rSpaces, Opt (Chr CHR ''#''),
     Grp 1 (Alts [Str ''0'', Str ''16'', Str ''32'', Str ''48''])]"
definition rx_lsl :: rx where
  "rx_lsl = Seqs [Str ''lsl'', rSpaces, Opt (Chr CHR ''#''), Grp 1 rDigits]"
definition rx_writeback :: rx where
  "rx_writeback = Seqs [Chr CHR ''['', Grp 1 (Plus (Cls is_word)), Star (Cls (\<lambda>c. c \<noteq> CHR '']'')),
     Chr CHR '']'', one_of ''!,'']"

definition is_gpr :: "string \<Rightarrow> bool" where "is_gpr s = (rx_full rx_gpr s \<noteq> None)"

text \<open>The effect of one row: a new value of its destination, a referenced address, its kind.\<close>

type_synonym effect = "int option \<times> int option \<times> string"

definition kind_calc :: string where "kind_calc = ''basic-block address calculation''"

definition effect_adrp :: "flow_row \<Rightarrow> effect res" where
  "effect_adrp r = bindR (case rx_full rx_abs (fr_ops r) of None \<Rightarrow> Inr None
       | Some g \<Rightarrow> bindR (int_or_error 16 (the (grp 1 g))) (\<lambda>v. Inr (Some v))) (\<lambda>new.
     Inr (case new of Some v \<Rightarrow> Some v
       | None \<Rightarrow> map_option (\<lambda>rel. (fr_addr r AND NOT 4095) + push_bit 12 rel) (parse_adrp_imm (fr_ops r)),
       None, kind_calc))"

definition effect_mov :: "known \<Rightarrow> string \<Rightarrow> string list \<Rightarrow> effect res" where
  "effect_mov old mn flds =
     (let destination = hd flds; n = length flds;
          shift = (if n = 3 then rx_full rx_mov_shift (flds ! 2) else None) in
      if n = 2 \<or> shift \<noteq> None then
        (case rx_full rx_mov_imm (flds ! 1) of
           Some g \<Rightarrow>
             bindR (int_or_error 0 (the (grp 1 g))) (\<lambda>number.
             let amount = (case shift of None \<Rightarrow> 0
                   | Some h \<Rightarrow> nat (the (py_int 10 (the (grp 1 h))))) in
             if mn = ''movk'' then
               bindR (register_value (regs_of old) destination) (\<lambda>cur.
               Inr (map_option (\<lambda>c. (c AND NOT (push_bit amount 65535)) OR push_bit amount (number AND 65535)) cur,
                    None, kind_calc))
             else (let v = push_bit amount number in
               Inr (Some (if mn = ''movn'' then NOT v else v), None, kind_calc)))
         | None \<Rightarrow>
             if mn = ''mov'' then bindR (register_value (regs_of old) (flds ! 1)) (\<lambda>v. Inr (v, None, kind_calc))
             else Inr (None, None, kind_calc))
      else Inr (None, None, kind_calc))"

definition effect_add :: "known \<Rightarrow> string \<Rightarrow> string list \<Rightarrow> effect res" where
  "effect_add old mn flds =
     bindR (register_value (regs_of old) (flds ! 1)) (\<lambda>left.
     bindR (case rx_full rx_immediate (flds ! 2) of
          Some g \<Rightarrow> bindR (int_or_error 0 (the (grp 1 g))) (\<lambda>v. Inr (Some v))
        | None \<Rightarrow> register_value (regs_of old) (flds ! 2)) (\<lambda>right.
     let shift = (if length flds = 4 then rx_full rx_lsl (flds ! 3) else None);
         amount = (case shift of None \<Rightarrow> 0 | Some h \<Rightarrow> the (py_int 10 (the (grp 1 h)))) in
     case (left, right) of
       (Some l, Some r) \<Rightarrow>
         if length flds = 3 \<or> (shift \<noteq> None \<and> amount \<le> 63) then
           (let r' = (case shift of None \<Rightarrow> r | Some _ \<Rightarrow> push_bit (nat amount) r);
                v = (if mn = ''add'' then l + r' else l - r')
            in Inr (Some v, Some v, kind_calc))
         else Inr (None, None, kind_calc)
     | _ \<Rightarrow> Inr (None, None, kind_calc)))"

text \<open>\<open>int.from_bytes(data, 'little', signed=...)\<close>\<close>

definition from_bytes :: "bool \<Rightarrow> bytes \<Rightarrow> int" where
  "from_bytes sgnd d = (let v = le_int d; m = 256 ^ length d in
     if sgnd \<and> 2 * v \<ge> m then v - m else v)"

definition effect_load :: "reader \<Rightarrow> known \<Rightarrow> string \<Rightarrow> string \<Rightarrow> effect res" where
  "effect_load rd old mn ops =
     bindR (memory_access mn ops (regs_of old)) (\<lambda>access.
     case access of None \<Rightarrow> Inr (None, None, kind_calc)
     | Some m \<Rightarrow>
         bindR (int_or_error 16 (ma_address m)) (\<lambda>target.
         let destination = hd (op_fields ops);
             new = (case rd of None \<Rightarrow> None
               | Some read_memory \<Rightarrow>
                   if ma_size m \<in> {4, 8} \<and> (starts_with destination ''x'' \<or> starts_with destination ''w'') then
                     (let d = read_memory target (ma_size m) in
                      if int (length d) = ma_size m then Some (from_bytes (mn = ''ldrsw'') d) else None)
                   else None)
         in Inr (new, Some target, ''inferred memory reference'')))"

definition row_effect :: "reader \<Rightarrow> known \<Rightarrow> flow_row \<Rightarrow> effect res" where
  "row_effect rd old r =
     (let mn = fr_mn r; ops = fr_ops r; flds = op_fields ops in
      if is_direct mn then Inr (None, branch_target ops, ''decoded direct'')
      else if mn = ''adr'' then (let t = branch_target ops in Inr (t, t, kind_calc))
      else if mn = ''adrp'' then effect_adrp r
      else if mn \<in> {''mov'', ''movz'', ''movn'', ''movk''} \<and> length flds \<ge> 2 then effect_mov old mn flds
      else if mn \<in> {''add'', ''sub''} \<and> length flds \<ge> 3 then effect_add old mn flds
      else if mn \<in> {''ldr'', ''ldrsw''} then effect_load rd old mn ops
      else if mn \<in> {''br'', ''blr''} then
        bindR (register_value (regs_of old) (hd flds)) (\<lambda>t.
        Inr (None, t, ''inferred indirect target from current bytes''))
      else Inr (None, None, kind_calc))"

definition no_write :: "string \<Rightarrow> bool" where
  "no_write mn = (list_ex (starts_with mn) [''st'', ''b'', ''ret'', ''cmp'', ''cmn'', ''tst'']
     \<or> mn \<in> {''nop'', ''prfm'', ''dmb'', ''dsb'', ''isb''})"

definition flow_supported :: "string list" where
  "flow_supported = [''adr'', ''adrp'', ''mov'', ''movz'', ''movk'', ''movn'', ''add'', ''sub'', ''ldr'', ''ldrsw'',
     ''str'', ''strb'', ''strh'', ''stur'', ''sturb'', ''sturh'', ''stp'', ''stnp'',
     ''nop'', ''cmp'', ''cmn'', ''tst'', ''prfm'', ''dmb'', ''dsb'', ''isb'']"

text \<open>Does a row end the block (or do something the propagation does not know)?\<close>

definition ends_block :: "string \<Rightarrow> bool" where
  "ends_block mn = (list_ex (starts_with mn) [''b'', ''ret'', ''svc'', ''hvc'', ''smc'', ''brk'']
     \<or> mn \<in> set compare_branches \<or> mn \<notin> set flow_supported)"

definition width_mask :: "string \<Rightarrow> int" where
  "width_mask destination = push_bit (if take 1 destination = ''w'' then 32 else 64) 1 - 1"

text \<open>The dictionary after a row, given the row's new value.\<close>

definition update_known :: "string \<Rightarrow> string \<Rightarrow> int option \<Rightarrow> known \<Rightarrow> known" where
  "update_known mn ops new vs0 =
     (let flds = op_fields ops; destination = hd flds;
          key = (if is_gpr destination then CHR ''x'' # drop 1 destination else destination);
          vs1 = (if no_write mn then vs0 else vs0(key := None));
          vs2 = (case new of Some v \<Rightarrow> if is_gpr destination then vs1(key \<mapsto> v AND width_mask destination) else vs1
                 | None \<Rightarrow> vs1);
          vs3 = (if starts_with mn ''ldp'' \<and> length flds > 1 then
                   vs2((if starts_with (flds ! 1) ''w'' then CHR ''x'' # drop 1 (flds ! 1) else flds ! 1) := None)
                 else vs2);
          vs4 = (case rx_search rx_writeback ops of None \<Rightarrow> vs3 | Some (_, _, g) \<Rightarrow> vs3(the (grp 1 g) := None))
      in if ends_block mn then Map.empty else vs4)"

definition flow_step :: "reader \<Rightarrow> int set \<Rightarrow> flow_row \<Rightarrow> known \<times> reference list \<Rightarrow> (known \<times> reference list) res" where
  "flow_step rd ls r = (\<lambda>(vs, out).
     let old = (if fr_addr r \<in> ls then Map.empty else vs) in
     bindR (row_effect rd old r) (\<lambda>(new, target, kind).
     Inr (update_known (fr_mn r) (fr_ops r) new old,
          case target of None \<Rightarrow> out
          | Some t \<Rightarrow> out @ [\<lparr>rf_row = r, rf_target = t AND MASK64, rf_kind = kind\<rparr>])))"

text \<open>\<open>reference_candidates(rows, read_memory)\<close>\<close>

definition reference_candidates :: "flow_row list \<Rightarrow> reader \<Rightarrow> reference list res" where
  "reference_candidates rows rd =
     bindR (foldR (flow_step rd (leaders rows)) rows (Map.empty, [])) (\<lambda>(vs, out). Inr out)"


section \<open>Values never cross a block boundary\<close>

definition flow_run :: "reader \<Rightarrow> int set \<Rightarrow> flow_row list \<Rightarrow> reference list res" where
  "flow_run rd ls rows = bindR (foldR (flow_step rd ls) rows (Map.empty, [])) (\<lambda>(vs, out). Inr out)"

lemma reference_candidates_run: "reference_candidates rows rd = flow_run rd (leaders rows) rows"
  by (simp add: reference_candidates_def flow_run_def)

lemma flow_step_out:
  "flow_step rd ls r (vs, out) = bindR (flow_step rd ls r (vs, [])) (\<lambda>(vs', out'). Inr (vs', out @ out'))"
  by (auto simp: flow_step_def Let_def bindR_def split: sum.splits option.splits prod.splits)

lemma flow_fold_out:
  "foldR (flow_step rd ls) rows (vs, out)
     = bindR (foldR (flow_step rd ls) rows (vs, [])) (\<lambda>(vs', out'). Inr (vs', out @ out'))"
proof (induction rows arbitrary: vs out)
  case (Cons r rows)
  show ?case
  proof (cases "flow_step rd ls r (vs, [])")
    case (Inl e)
    then show ?thesis by (simp add: flow_step_out [of rd ls r vs out])
  next
    case (Inr p)
    obtain vs1 o1 where p: "p = (vs1, o1)" by (cases p)
    have "foldR (flow_step rd ls) (r # rows) (vs, out) = foldR (flow_step rd ls) rows (vs1, out @ o1)"
      using Inr p by (simp add: flow_step_out [of rd ls r vs out])
    also have "\<dots> = bindR (foldR (flow_step rd ls) rows (vs1, [])) (\<lambda>(v, x). Inr (v, out @ o1 @ x))"
      by (subst Cons.IH) simp
    also have "\<dots> = bindR (foldR (flow_step rd ls) rows (vs1, o1)) (\<lambda>(v, x). Inr (v, out @ x))"
      by (subst (2) Cons.IH) (auto simp: bindR_def split: sum.splits)
    finally show ?thesis using Inr p by simp
  qed
qed simp

lemma flow_step_leader: "fr_addr r \<in> ls \<Longrightarrow> flow_step rd ls r (vs, out) = flow_step rd ls r (Map.empty, out)"
  by (simp add: flow_step_def)

lemma flow_step_end: "ends_block (fr_mn r) \<Longrightarrow> flow_step rd ls r (vs, out) = Inr (vs', out') \<Longrightarrow> vs' = Map.empty"
  by (auto simp: flow_step_def Let_def bindR_Inr update_known_def)

text \<open>
  No guessed value crosses a control boundary: where one part of a listing ends in a
  control transfer (or an instruction the propagation does not know), or the next part
  starts at a branch target, the references found are those of the two parts by themselves.
\<close>

theorem reference_candidates_blocks:
  assumes "xs \<noteq> []" and "ends_block (fr_mn (last xs)) \<or> (ys \<noteq> [] \<and> fr_addr (hd ys) \<in> leaders (xs @ ys))"
  shows "reference_candidates (xs @ ys) rd =
    bindR (flow_run rd (leaders (xs @ ys)) xs) (\<lambda>a. bindR (flow_run rd (leaders (xs @ ys)) ys) (\<lambda>b. Inr (a @ b)))"
proof -
  let ?f = "flow_step rd (leaders (xs @ ys))"
  have restart: "foldR ?f ys (vs, out) = foldR ?f ys (Map.empty, out)"
    if "foldR ?f xs (Map.empty, []) = Inr (vs, out)" for vs out
  proof (cases "ends_block (fr_mn (last xs))")
    case True
    have "xs = butlast xs @ [last xs]" using assms(1) by simp
    then have "foldR ?f (butlast xs @ [last xs]) (Map.empty, []) = Inr (vs, out)" using that by simp
    then obtain p where "?f (last xs) p = Inr (vs, out)" by (auto simp: foldR_append bindR_Inr)
    then have "vs = Map.empty" using flow_step_end [OF True] by (cases p) blast
    then show ?thesis by simp
  next
    case False
    with assms(2) show ?thesis by (cases ys) (auto simp: flow_step_leader [of _ _ _ vs])
  qed
  show ?thesis
  proof (cases "foldR ?f xs (Map.empty, [])")
    case (Inl e)
    then show ?thesis by (simp add: reference_candidates_def flow_run_def foldR_append)
  next
    case (Inr p)
    obtain vs out where p: "p = (vs, out)" by (cases p)
    have "foldR ?f ys p = bindR (foldR ?f ys (Map.empty, [])) (\<lambda>(v, x). Inr (v, out @ x))"
      using restart Inr p flow_fold_out by metis
    with Inr p show ?thesis
      by (auto simp: reference_candidates_def flow_run_def foldR_append bindR_def split: sum.splits)
  qed
qed

lemma reference_candidates_blocks_witness:
  "reference_candidates ([\<lparr>fr_addr = 65536, fr_mn = ''adr'', fr_ops = ''x0, 0x20000''\<rparr>,
       \<lparr>fr_addr = 65540, fr_mn = ''ret'', fr_ops = ''''\<rparr>]
     @ [\<lparr>fr_addr = 65544, fr_mn = ''br'', fr_ops = ''x0''\<rparr>]) None
   = Inr [\<lparr>rf_row = \<lparr>fr_addr = 65536, fr_mn = ''adr'', fr_ops = ''x0, 0x20000''\<rparr>,
       rf_target = 131072, rf_kind = kind_calc\<rparr>]"
proof -
  let ?xs = "[\<lparr>fr_addr = 65536, fr_mn = ''adr'', fr_ops = ''x0, 0x20000''\<rparr>, \<lparr>fr_addr = 65540, fr_mn = ''ret'', fr_ops = ''''\<rparr>]"
  let ?ys = "[\<lparr>fr_addr = 65544, fr_mn = ''br'', fr_ops = ''x0''\<rparr>]"
  have "ends_block (fr_mn (last ?xs))" by code_simp
  from reference_candidates_blocks [OF _ disjI1 [OF this], where ys = ?ys and rd = None]
  have e: "reference_candidates (?xs @ ?ys) None =
    bindR (flow_run None (leaders (?xs @ ?ys)) ?xs) (\<lambda>a. bindR (flow_run None (leaders (?xs @ ?ys)) ?ys) (\<lambda>b. Inr (a @ b)))"
    by simp
  have "flow_run None (leaders (?xs @ ?ys)) ?xs = Inr [\<lparr>rf_row = hd ?xs, rf_target = 131072, rf_kind = kind_calc\<rparr>]"
    by code_simp
  moreover have "flow_run None (leaders (?xs @ ?ys)) ?ys = Inr []" by code_simp
  ultimately show ?thesis using e by simp
qed

section \<open>Ranges\<close>

definition known_ok :: "known \<Rightarrow> bool" where
  "known_ok vs = (\<forall>k v. vs k = Some v \<longrightarrow> 0 \<le> v \<and> v < 2 ^ 64)"

lemma width_mask_range: "0 \<le> v AND width_mask d \<and> v AND width_mask d < 2 ^ 64"
proof -
  have "take_bit 32 v < 2 ^ 64" using take_bit_int_less_exp [of 32 v] by (rule order_less_trans) simp
  moreover have "take_bit 64 v < 2 ^ 64" by (rule take_bit_int_less_exp)
  moreover have "v AND width_mask d = take_bit (if take 1 d = ''w'' then 32 else 64) v"
    by (simp add: width_mask_def push_bit_of_1 take_bit_eq_mask mask_eq_exp_minus_1)
  ultimately show ?thesis by (simp add: take_bit_nonnegative)
qed

lemma update_known_ok: "known_ok vs \<Longrightarrow> known_ok (update_known mn ops new vs)"
  using width_mask_range
  by (auto simp: known_ok_def update_known_def Let_def simp del: and_nonnegative_int_iff
      split: if_splits option.splits)

lemma flow_step_ok:
  assumes "flow_step rd ls r (vs, out) = Inr (vs', out')" and "known_ok vs"
    and "\<forall>c \<in> set out. 0 \<le> rf_target c \<and> rf_target c < 2 ^ 64 \<and> rf_row c \<in> R" and "r \<in> R"
  shows "known_ok vs' \<and> (\<forall>c \<in> set out'. 0 \<le> rf_target c \<and> rf_target c < 2 ^ 64 \<and> rf_row c \<in> R)"
proof -
  have "known_ok Map.empty" by (simp add: known_ok_def)
  with assms show ?thesis using bounded_mask
    by (auto simp: flow_step_def Let_def bindR_Inr update_known_ok simp del: and_nonnegative_int_iff
        split: option.splits if_splits)
qed

text \<open>
  Every reference found is one of a listed row and its target is a 64-bit address.
\<close>

theorem reference_candidates_targets:
  assumes "reference_candidates rows rd = Inr refs" and "c \<in> set refs"
  shows "rf_row c \<in> set rows \<and> 0 \<le> rf_target c \<and> rf_target c < 2 ^ 64"
proof -
  let ?P = "\<lambda>(vs, out). known_ok vs \<and> (\<forall>c \<in> set out. 0 \<le> rf_target c \<and> rf_target c < 2 ^ 64 \<and> rf_row c \<in> set rows)"
  from assms(1) obtain vs where "foldR (flow_step rd (leaders rows)) rows (Map.empty, []) = Inr (vs, refs)"
    by (auto simp: reference_candidates_def bindR_Inr)
  then have "?P (vs, refs)"
    by (rule foldR_invariant) (auto simp: known_ok_def dest!: flow_step_ok [where R = "set rows"])
  with assms(2) show ?thesis by auto
qed

lemma reference_candidates_targets_witness:
  "reference_candidates [\<lparr>fr_addr = 65536, fr_mn = ''adr'', fr_ops = ''x0, 0x20000''\<rparr>] None
     = Inr [\<lparr>rf_row = \<lparr>fr_addr = 65536, fr_mn = ''adr'', fr_ops = ''x0, 0x20000''\<rparr>,
         rf_target = 131072, rf_kind = kind_calc\<rparr>] \<and> (131072 :: int) < 2 ^ 64"
proof -
  let ?r = "\<lparr>fr_addr = 65536, fr_mn = ''adr'', fr_ops = ''x0, 0x20000''\<rparr>"
  let ?c = "\<lparr>rf_row = ?r, rf_target = 131072, rf_kind = kind_calc\<rparr>"
  have h: "reference_candidates [?r] None = Inr [?c]" by code_simp
  from reference_candidates_targets [OF h, of ?c] show ?thesis using h by simp
qed

text \<open>
  The target reported for a 32-bit addition is not wrapped to the register's width, although
  the value kept for the register is.
\<close>

lemma add_w_target_not_wrapped:
  "effect_add (\<lambda>k. if k = ''x8'' then Some 4294967295 else None) ''add'' [''w8'', ''w8'', ''#0x1'']
     = Inr (Some 4294967296, Some 4294967296, kind_calc)
   \<and> update_known ''add'' ''w8, w8, #0x1'' (Some 4294967296) Map.empty ''x8'' = Some 0"
  by code_simp

text \<open>
  Write-back through the name \<open>fp\<close> does not forget the value kept under \<open>x29\<close>, though
  reading \<open>fp\<close> uses it.
\<close>

lemma fp_writeback_kept:
  "update_known ''ldr'' ''x0, [fp], #8'' None [''x29'' \<mapsto> 4096] ''x29'' = Some 4096
   \<and> register_value (regs_of [''x29'' \<mapsto> 4096]) ''fp'' = Inr (Some 4096)"
  by code_simp

end
