(* ===== verification/MachO.thy ===== *)
theory MachO
  imports Prelude
begin

text \<open>
  \<open>macdbg/core/macho.py\<close>: the reader of ARM64 Mach-O file ranges. \<open>struct.unpack_from\<close> is
  modelled with its own exception, so that a missing check shows as \<open>struct.error\<close>.
\<close>

section \<open>Reading integers\<close>

definition len_i :: "'a list \<Rightarrow> int" where "len_i xs = int (length xs)"

text \<open>The bytes a format needs at an offset; otherwise \<open>unpack_from\<close> raises.\<close>

definition need :: "bytes \<Rightarrow> int \<Rightarrow> int \<Rightarrow> unit res" where
  "need data off n = guardR (0 \<le> off \<and> off + n \<le> len_i data) (PyError ''struct.error'' ''unpack_from'')"

definition bytes_at :: "bytes \<Rightarrow> int \<Rightarrow> int \<Rightarrow> bytes" where
  "bytes_at data off n = take (nat n) (drop (nat off) data)"

definition le_at :: "bytes \<Rightarrow> int \<Rightarrow> int \<Rightarrow> int" where "le_at data off n = le_int (bytes_at data off n)"
definition be_at :: "bytes \<Rightarrow> int \<Rightarrow> int \<Rightarrow> int" where "be_at data off n = be_int (bytes_at data off n)"

lemma le_at_nonneg [simp]: "0 \<le> le_at data off n" by (simp add: le_at_def)
lemma be_at_nonneg [simp]: "0 \<le> be_at data off n" by (simp add: be_at_def be_int_def)

text \<open>\<open>rstrip(b'\\0').decode('ascii', 'replace')\<close>, as code points.\<close>

definition ascii_name :: "bytes \<Rightarrow> int list" where
  "ascii_name b = map (\<lambda>c. if byte_val c < 128 then byte_val c else 65533)
     (rev (dropWhile (\<lambda>c. byte_val c = 0) (rev b)))"

section \<open>The image\<close>

record macho_segment =
  mg_name :: "int list"
  mg_address :: int
  mg_size :: int
  mg_offset :: int
  mg_file_size :: int

record macho_section =
  ms_name :: "int list"
  ms_segment :: "int list"
  ms_address :: int
  ms_size :: int
  ms_offset :: int
  ms_zero :: bool
  ms_relocations :: int

record macho =
  mo_data :: bytes
  mo_base :: int
  mo_length :: int
  mo_subtype :: int
  mo_sections :: "macho_section list"
  mo_segments :: "macho_segment list"
  mo_signed :: bool
  mo_encrypted :: bool

definition ARM64 :: int where "ARM64 = 0x100000c"

definition bad :: "string \<Rightarrow> exn" where "bad m = ValueError m"

text \<open>The slice of a fat file: the only ARM64 architecture with the wanted subtype.\<close>

definition fat_candidate :: "bytes \<Rightarrow> int option \<Rightarrow> int \<Rightarrow> int \<Rightarrow> int \<Rightarrow> (int \<times> int) list \<Rightarrow> (int \<times> int) list res" where
  "fat_candidate data subtype count width index cands =
     (let at = 8 + index * width; q = (if width = 20 then 4 else 8) in
      bindR (need data at 8) (\<lambda>_.
      let cpu = be_at data at 4; sub = be_at data (at + 4) 4 in
      bindR (need data (at + 8) (2 * q)) (\<lambda>_.
      let offset = be_at data (at + 8) q; len = be_at data (at + 8 + q) q in
      if offset < 8 + width * count \<or> len < 32 \<or> offset + len > len_i data
      then Inl (bad ''Invalid architecture slice'')
      else if cpu = ARM64 \<and> (case subtype of None \<Rightarrow> True | Some st \<Rightarrow> sub AND 0xffffff = st)
      then Inr (cands @ [(offset, len)]) else Inr cands)))"

definition select_slice :: "bytes \<Rightarrow> int option \<Rightarrow> (int \<times> int) res" where
  "select_slice data subtype =
     bindR (need data 0 4) (\<lambda>_.
     let magic = be_at data 0 4 in
     if magic \<in> {0xcafebabe, 0xcafebabf} then
       bindR (need data 4 4) (\<lambda>_.
       let count = be_at data 4 4; width = (if magic = 0xcafebabe then 20 else 32) in
       if \<not> (1 \<le> count \<and> count \<le> 64) \<or> 8 + width * count > len_i data then Inl (bad ''Invalid fat header'')
       else bindR (foldR (fat_candidate data subtype count width) [0..count - 1] []) (\<lambda>cands.
         case cands of [c] \<Rightarrow> Inr c | _ \<Rightarrow> Inl (bad ''Select an unambiguous ARM64 slice'')))
     else Inr (0, len_i data))"

text \<open>One section header of a segment command.\<close>

definition read_section :: "int \<Rightarrow> int \<Rightarrow> macho \<Rightarrow> macho res" where
  "read_section offset index m =
     (let data = mo_data m; at = offset + 72 + index * 80 in
      bindR (need data at 68) (\<lambda>_.
      let address = le_at data (at + 32) 8; len = le_at data (at + 40) 8; fileoff = le_at data (at + 48) 4;
          reloff = le_at data (at + 56) 4; nreloc = le_at data (at + 60) 4; flags = le_at data (at + 64) 4;
          zero = (flags AND 0xff \<in> {1, 0xc, 0x12}) in
      if \<not> zero \<and> fileoff + len > mo_length m then Inl (bad ''Section exceeds file'')
      else if nreloc \<noteq> 0 \<and> reloff + nreloc * 8 > mo_length m then Inl (bad ''Invalid relocations'')
      else Inr (m\<lparr>mo_sections := mo_sections m @ [\<lparr>ms_name = ascii_name (bytes_at data at 16),
          ms_segment = ascii_name (bytes_at data (at + 16) 16), ms_address = address, ms_size = len,
          ms_offset = mo_base m + fileoff, ms_zero = zero, ms_relocations = nreloc\<rparr>]\<rparr>)))"

definition read_segment :: "int \<Rightarrow> int \<Rightarrow> macho \<Rightarrow> macho res" where
  "read_segment offset sz m =
     (let data = mo_data m in
      if sz < 72 then Inl (bad ''Truncated segment'')
      else bindR (need data (offset + 8) 48) (\<lambda>_.
        let vmaddr = le_at data (offset + 24) 8; vmsize = le_at data (offset + 32) 8;
            fileoff = le_at data (offset + 40) 8; filesize = le_at data (offset + 48) 8 in
        bindR (need data (offset + 64) 4) (\<lambda>_.
        let nsects = le_at data (offset + 64) 4 in
        if 72 + nsects * 80 > sz \<or> fileoff + filesize > mo_length m then Inl (bad ''Invalid segment range'')
        else foldR (read_section offset) [0..nsects - 1]
          (m\<lparr>mo_segments := mo_segments m @ [\<lparr>mg_name = ascii_name (bytes_at data (offset + 8) 16),
             mg_address = vmaddr, mg_size = vmsize, mg_offset = mo_base m + fileoff, mg_file_size = filesize\<rparr>]\<rparr>))))"

text \<open>One load command: the state is the offset of the command and the image so far.\<close>

definition read_command :: "int \<Rightarrow> int \<times> macho \<Rightarrow> (int \<times> macho) res" where
  "read_command stop = (\<lambda>(offset, m).
     let data = mo_data m in
     if offset + 8 > stop then Inl (bad ''Truncated load command'')
     else bindR (need data offset 8) (\<lambda>_.
       let command = le_at data offset 4; sz = le_at data (offset + 4) 4 in
       if sz < 8 \<or> offset + sz > stop then Inl (bad ''Invalid load command size'')
       else bindR
         (if command = 0x19 then read_segment offset sz m
          else if command = 0x1d then Inr (m\<lparr>mo_signed := True\<rparr>)
          else if command \<in> {0x21, 0x2c} then
            (if sz < 20 then Inl (bad ''Truncated encryption command'')
             else bindR (need data (offset + 16) 4) (\<lambda>_.
               Inr (m\<lparr>mo_encrypted := mo_encrypted m \<or> le_at data (offset + 16) 4 \<noteq> 0\<rparr>)))
          else Inr m)
         (\<lambda>m'. Inr (offset + sz, m'))))"

text \<open>\<open>MachO(data, subtype)\<close>\<close>

definition macho_read :: "bytes \<Rightarrow> int option \<Rightarrow> macho res" where
  "macho_read data subtype =
     (if len_i data < 32 then Inl (bad ''Truncated Mach-O'')
      else bindR (select_slice data subtype) (\<lambda>(base, len).
        bindR (need data base 24) (\<lambda>_.
        let magic = le_at data base 4; cpu = le_at data (base + 4) 4; sub = le_at data (base + 8) 4;
            count = le_at data (base + 16) 4; commands_size = le_at data (base + 20) 4 in
        if magic \<noteq> 0xfeedfacf \<or> cpu \<noteq> ARM64 then Inl (bad ''Expected a little-endian ARM64 Mach-O'')
        else if count > 65536 \<or> commands_size > len - 32 then Inl (bad ''Invalid load commands'')
        else bindR (foldR (\<lambda>_. read_command (base + 32 + commands_size)) [0..count - 1]
            (base + 32, \<lparr>mo_data = data, mo_base = base, mo_length = len, mo_subtype = sub, mo_sections = [],
               mo_segments = [], mo_signed = False, mo_encrypted = False\<rparr>))
          (\<lambda>(offset, m). if offset \<noteq> base + 32 + commands_size then Inl (bad ''Load-command size mismatch'')
             else Inr m))))"

text \<open>\<open>file_offset\<close> and \<open>file_address\<close>: a range inside exactly one file-backed section.\<close>

definition in_memory :: "int \<Rightarrow> int \<Rightarrow> macho_section \<Rightarrow> bool" where
  "in_memory address n s = (\<not> ms_zero s \<and> ms_address s \<le> address \<and> address + n \<le> ms_address s + ms_size s)"

definition in_file :: "int \<Rightarrow> int \<Rightarrow> macho_section \<Rightarrow> bool" where
  "in_file offset n s = (\<not> ms_zero s \<and> ms_offset s \<le> offset \<and> offset + n \<le> ms_offset s + ms_size s)"

definition file_offset :: "macho \<Rightarrow> int \<Rightarrow> int \<Rightarrow> int res" where
  "file_offset m address n =
     (if mo_encrypted m then Inl (bad ''Encrypted images cannot be exported as ordinary patches'')
      else case filter (in_memory address n) (mo_sections m) of
        [s] \<Rightarrow> Inr (ms_offset s + address - ms_address s)
      | _ \<Rightarrow> Inl (bad ''Patch is not entirely in one file-backed section''))"

definition file_address :: "macho \<Rightarrow> int \<Rightarrow> int \<Rightarrow> int res" where
  "file_address m offset n =
     (case filter (in_file offset n) (mo_sections m) of
        [s] \<Rightarrow> Inr (ms_address s + offset - ms_offset s)
      | _ \<Rightarrow> Inl (bad ''Patch offset is outside file-backed sections''))"

section \<open>Every read is checked\<close>

definition is_value_error :: "exn \<Rightarrow> bool" where "is_value_error e = (\<exists>m. e = ValueError m)"

lemma bad_value_error [simp]: "is_value_error (bad m)"
  by (simp add: bad_def is_value_error_def)

lemma need_ok: "0 \<le> off \<Longrightarrow> off + n \<le> len_i data \<Longrightarrow> need data off n = Inr ()"
  by (simp add: need_def)

text \<open>What holds of the image while it is read: its slice lies in the file, and so does every
  file-backed section.\<close>

definition image_ok :: "bytes \<Rightarrow> macho \<Rightarrow> bool" where
  "image_ok data m = (mo_data m = data \<and> 0 \<le> mo_base m \<and> 32 \<le> mo_length m \<and> mo_base m + mo_length m \<le> len_i data
     \<and> (\<forall>s \<in> set (mo_sections m). 0 \<le> ms_size s \<and> 0 \<le> ms_address s \<and> (\<not> ms_zero s \<longrightarrow> mo_base m \<le> ms_offset s
          \<and> ms_offset s + ms_size s \<le> mo_base m + mo_length m))
     \<and> (\<forall>g \<in> set (mo_segments m). mo_base m \<le> mg_offset g \<and> mg_offset g + mg_file_size g \<le> mo_base m + mo_length m))"

lemma read_section_ok:
  assumes "image_ok data m" and "0 \<le> offset" and "0 \<le> index" and "offset + 72 + index * 80 + 80 \<le> len_i data"
  shows "okR (\<lambda>m'. image_ok data m' \<and> mo_base m' = mo_base m \<and> mo_length m' = mo_length m) is_value_error (read_section offset index m)"
proof -
  have "need (mo_data m) (offset + 72 + index * 80) 68 = Inr ()"
    using assms by (intro need_ok) (auto simp: image_ok_def)
  with assms(1) show ?thesis by (auto simp: read_section_def Let_def image_ok_def)
qed

lemma read_segment_ok:
  assumes "image_ok data m" and "0 \<le> offset" and "offset + sz \<le> len_i data"
  shows "okR (\<lambda>m'. image_ok data m' \<and> mo_base m' = mo_base m \<and> mo_length m' = mo_length m) is_value_error (read_segment offset sz m)"
proof (cases "sz < 72")
  case False
  have d: "mo_data m = data" using assms(1) by (simp add: image_ok_def)
  define n where "n = le_at data (offset + 64) 4"
  define m1 where "m1 = m\<lparr>mo_segments := mo_segments m @ [\<lparr>mg_name = ascii_name (bytes_at data (offset + 8) 16),
     mg_address = le_at data (offset + 24) 8, mg_size = le_at data (offset + 32) 8,
     mg_offset = mo_base m + le_at data (offset + 40) 8, mg_file_size = le_at data (offset + 48) 8\<rparr>]\<rparr>"
  have nd: "need data (offset + 8) 48 = Inr ()" "need data (offset + 64) 4 = Inr ()"
    using False assms by (auto intro!: need_ok)
  have "okR (\<lambda>m'. image_ok data m' \<and> mo_base m' = mo_base m \<and> mo_length m' = mo_length m) is_value_error
      (foldR (read_section offset) [0..n - 1] m1)"
    if n: "\<not> 72 + n * 80 > sz" and f: "\<not> le_at data (offset + 40) 8 + le_at data (offset + 48) 8 > mo_length m"
  proof (rule okR_foldR)
    show "image_ok data m1 \<and> mo_base m1 = mo_base m \<and> mo_length m1 = mo_length m"
      using assms(1) f by (auto simp: image_ok_def m1_def)
    fix i m'
    assume i: "i \<in> set [0..n - 1]" and m': "image_ok data m' \<and> mo_base m' = mo_base m \<and> mo_length m' = mo_length m"
    have "(i + 1) * 80 \<le> n * 80" using i by simp
    then have "offset + 72 + i * 80 + 80 \<le> len_i data" using n assms(3) by (simp add: algebra_simps)
    with read_section_ok [of data m' offset i] i m' assms(2)
    show "okR (\<lambda>m'. image_ok data m' \<and> mo_base m' = mo_base m \<and> mo_length m' = mo_length m) is_value_error (read_section offset i m')"
      by simp
  qed
  then show ?thesis
    using False nd by (auto simp: read_segment_def Let_def d n_def m1_def)
qed (simp add: read_segment_def)

lemma read_command_ok:
  assumes "image_ok data m" and "0 \<le> offset" and "stop \<le> len_i data"
  shows "okR (\<lambda>(o', m'). 0 \<le> o' \<and> image_ok data m' \<and> mo_base m' = mo_base m \<and> mo_length m' = mo_length m) is_value_error
     (read_command stop (offset, m))"
proof -
  have d: "mo_data m = data" using assms(1) by (simp add: image_ok_def)
  define sz where "sz = le_at data (offset + 4) 4"
  have nd: "need data offset 8 = Inr ()" if "offset + 8 \<le> stop" using that assms by (intro need_ok) auto
  have nd2: "need data (offset + 16) 4 = Inr ()" if "\<not> sz < 20" "offset + sz \<le> stop" using that assms by (intro need_ok) auto
  have sg: "okR (\<lambda>m'. image_ok data m' \<and> mo_base m' = mo_base m \<and> mo_length m' = mo_length m) is_value_error (read_segment offset sz m)"
    if "offset + sz \<le> stop" using read_segment_ok [OF assms(1,2)] that assms(3) by auto
  have upd: "image_ok data (m\<lparr>mo_signed := b\<rparr>) \<and> image_ok data (m\<lparr>mo_encrypted := b\<rparr>)" for b
    using assms(1) by (simp add: image_ok_def)
  show ?thesis
    unfolding read_command_def prod.case d Let_def sz_def [symmetric]
    using nd nd2 upd assms(1,2)
    by (auto simp: sz_def [symmetric] intro!: okR_bind [OF sg])
qed


lemma fat_candidate_ok:
  assumes "8 + width * count \<le> len_i data" and "width = 20 \<or> width = 32" and "0 \<le> index" "index < count"
    and "\<forall>(o1, l1) \<in> set cands. 0 \<le> o1 \<and> 32 \<le> l1 \<and> o1 + l1 \<le> len_i data"
  shows "okR (\<lambda>cs. \<forall>(o1, l1) \<in> set cs. 0 \<le> o1 \<and> 32 \<le> l1 \<and> o1 + l1 \<le> len_i data) is_value_error
     (fat_candidate data subtype count width index cands)"
proof -
  define q :: int where "q = (if width = 20 then 4 else 8)"
  have "(index + 1) * width \<le> count * width" using assms(2,4) by (intro mult_right_mono) auto
  then have at: "8 + index * width + width \<le> len_i data" using assms(1) by (simp add: algebra_simps)
  have q: "8 + 2 * q \<le> width" "0 \<le> index * width" using assms(2,3) by (auto simp: q_def)
  have c: "0 \<le> width * count" using assms by auto
  have nd: "need data (8 + index * width) 8 = Inr ()" "need data (8 + index * width + 8) (2 * q) = Inr ()"
    using at q assms(2) by (auto intro!: need_ok)
  show ?thesis
    unfolding fat_candidate_def Let_def q_def [symmetric] using nd assms(5) c by auto
qed

lemma select_slice_ok:
  assumes "32 \<le> len_i data"
  shows "okR (\<lambda>(b, l). 0 \<le> b \<and> 32 \<le> l \<and> b + l \<le> len_i data) is_value_error (select_slice data subtype)"
proof -
  have nd: "need data 0 4 = Inr ()" "need data 4 4 = Inr ()" using assms by (auto intro!: need_ok)
  define n where "n = be_at data 4 4"
  define w :: int where "w = (if be_at data 0 4 = 0xcafebabe then 20 else 32)"
  have "okR (\<lambda>cs. \<forall>(o1, l1) \<in> set cs. 0 \<le> o1 \<and> 32 \<le> l1 \<and> o1 + l1 \<le> len_i data) is_value_error
      (foldR (fat_candidate data subtype n w) [0..n - 1] [])" if "8 + w * n \<le> len_i data"
    by (rule okR_foldR) (use that in \<open>auto intro!: fat_candidate_ok simp: w_def\<close>)
  then show ?thesis
    unfolding select_slice_def nd Let_def bindR_simps n_def [symmetric] w_def [symmetric]
    using assms by (auto intro!: okR_bind split: list.splits)
qed

lemma read_commands_ok:
  assumes "image_ok data m" and "0 \<le> offset" and "stop \<le> len_i data"
  shows "okR (\<lambda>(o', m'). image_ok data m') is_value_error (foldR (\<lambda>_. read_command stop) xs (offset, m))"
proof -
  have "okR (\<lambda>(o', m'). 0 \<le> o' \<and> image_ok data m') is_value_error (foldR (\<lambda>_. read_command stop) xs (offset, m))"
  proof (rule okR_foldR)
    fix x :: 'a and p :: "int \<times> macho"
    assume p: "case p of (o', m') \<Rightarrow> 0 \<le> o' \<and> image_ok data m'"
    obtain o1 m1 where "p = (o1, m1)" by (cases p)
    with p read_command_ok [of data m1 o1 stop] assms(3)
    show "okR (\<lambda>(o', m'). 0 \<le> o' \<and> image_ok data m') is_value_error (read_command stop p)"
      by (auto simp: okR_def split: sum.splits)
  qed (use assms in simp)
  then show ?thesis by (auto simp: okR_def split: sum.splits)
qed

lemma macho_read_ok: "okR (image_ok data) is_value_error (macho_read data subtype)"
proof (cases "len_i data < 32")
  case False
  then have big: "32 \<le> len_i data" by simp
  have body: "okR (image_ok data) is_value_error
     (bindR (foldR (\<lambda>_. read_command (b + 32 + cs)) xs
        (b + 32, \<lparr>mo_data = data, mo_base = b, mo_length = l, mo_subtype = sub, mo_sections = [],
           mo_segments = [], mo_signed = False, mo_encrypted = False\<rparr>))
       (\<lambda>(offset, m). if offset \<noteq> b + 32 + cs then Inl (bad ''Load-command size mismatch'') else Inr m))"
    if "0 \<le> b" "32 \<le> l" "b + l \<le> len_i data" "\<not> cs > l - 32" for b l cs sub and xs :: "int list"
  proof (rule okR_bind)
    show "okR (\<lambda>(o', m'). image_ok data m') is_value_error (foldR (\<lambda>_. read_command (b + 32 + cs)) xs
        (b + 32, \<lparr>mo_data = data, mo_base = b, mo_length = l, mo_subtype = sub, mo_sections = [],
           mo_segments = [], mo_signed = False, mo_encrypted = False\<rparr>))"
      by (rule read_commands_ok) (use that in \<open>auto simp: image_ok_def\<close>)
  qed auto
  show ?thesis
    unfolding macho_read_def using False
  proof (simp only: if_False, intro okR_bind [OF select_slice_ok [OF big]])
    fix p :: "int \<times> int"
    assume p: "case p of (b, l) \<Rightarrow> 0 \<le> b \<and> 32 \<le> l \<and> b + l \<le> len_i data"
    obtain b l where bl: "p = (b, l)" by (cases p)
    with p have "need data b 24 = Inr ()" by (intro need_ok) auto
    with p bl body show "okR (image_ok data) is_value_error (case p of (base, len) \<Rightarrow>
        bindR (need data base 24) (\<lambda>_.
        let magic = le_at data base 4; cpu = le_at data (base + 4) 4; sub = le_at data (base + 8) 4;
            count = le_at data (base + 16) 4; commands_size = le_at data (base + 20) 4 in
        if magic \<noteq> 0xfeedfacf \<or> cpu \<noteq> ARM64 then Inl (bad ''Expected a little-endian ARM64 Mach-O'')
        else if count > 65536 \<or> commands_size > len - 32 then Inl (bad ''Invalid load commands'')
        else bindR (foldR (\<lambda>_. read_command (base + 32 + commands_size)) [0..count - 1]
            (base + 32, \<lparr>mo_data = data, mo_base = base, mo_length = len, mo_subtype = sub, mo_sections = [],
               mo_segments = [], mo_signed = False, mo_encrypted = False\<rparr>))
          (\<lambda>(offset, m). if offset \<noteq> base + 32 + commands_size then Inl (bad ''Load-command size mismatch'')
             else Inr m)))"
      by (simp add: Let_def)
  qed
qed (simp add: macho_read_def)

text \<open>
  C4. Reading any byte string either succeeds or raises \<open>ValueError\<close>, never
  \<open>struct.error\<close>: every offset is checked before it is used. On success the slice lies
  inside the file and every file-backed section and every segment lies inside the slice.
\<close>

theorem macho_read_checked:
  "case macho_read data subtype of
     Inl e \<Rightarrow> is_value_error e
   | Inr m \<Rightarrow> mo_data m = data \<and> 0 \<le> mo_base m \<and> mo_base m + mo_length m \<le> len_i data
       \<and> list_all (\<lambda>s. ms_zero s \<or> (mo_base m \<le> ms_offset s \<and> ms_offset s + ms_size s \<le> mo_base m + mo_length m))
           (mo_sections m)
       \<and> list_all (\<lambda>g. mo_base m \<le> mg_offset g \<and> mg_offset g + mg_file_size g \<le> mo_base m + mo_length m)
           (mo_segments m)"
  using macho_read_ok [of data subtype] by (auto simp: okR_def image_ok_def list_all_iff split: sum.splits)

text \<open>A one-section image: a header, a segment command with its section.\<close>

definition pad16 :: "string \<Rightarrow> bytes" where "pad16 s = s @ replicate (16 - length s) (val_byte 0)"

definition tiny_image :: bytes where
  "tiny_image = concat (map (int_le 4) [0xfeedfacf, ARM64, 0, 1, 1, 152, 0, 0])
     @ concat (map (int_le 4) [0x19, 152]) @ pad16 ''__TEXT'' @ concat (map (int_le 8) [4096, 8, 184, 8])
     @ concat (map (int_le 4) [7, 5, 1, 0])
     @ pad16 ''__text'' @ pad16 ''__TEXT'' @ concat (map (int_le 8) [4096, 8])
     @ concat (map (int_le 4) [184, 2, 0, 0, 0, 0, 0, 0]) @ int_le 8 0x0102030405060708"

definition tiny_macho :: macho where
  "tiny_macho = \<lparr>mo_data = tiny_image, mo_base = 0, mo_length = 192, mo_subtype = 0,
     mo_sections = [\<lparr>ms_name = map byte_val ''__text'', ms_segment = map byte_val ''__TEXT'', ms_address = 4096,
        ms_size = 8, ms_offset = 184, ms_zero = False, ms_relocations = 0\<rparr>],
     mo_segments = [\<lparr>mg_name = map byte_val ''__TEXT'', mg_address = 4096, mg_size = 8, mg_offset = 184, mg_file_size = 8\<rparr>],
     mo_signed = False, mo_encrypted = False\<rparr>"

lemma tiny_image_read: "macho_read tiny_image None = Inr tiny_macho"
  by code_simp

lemma macho_read_checked_witness:
  "ms_offset (hd (mo_sections tiny_macho)) + ms_size (hd (mo_sections tiny_macho)) \<le> len_i tiny_image"
  using macho_read_checked [of tiny_image None] tiny_image_read by (simp add: tiny_macho_def)

lemma only_match: "filter P xs = [x] \<Longrightarrow> y \<in> set xs \<Longrightarrow> P y \<Longrightarrow> y = x"
proof -
  assume a: "filter P xs = [x]" "y \<in> set xs" "P y"
  have "y \<in> set (filter P xs)" using a(2,3) unfolding set_filter by blast
  then show "y = x" unfolding a(1) by simp
qed

lemma match_in: "filter P xs = [x] \<Longrightarrow> x \<in> set xs \<and> P x"
proof -
  assume a: "filter P xs = [x]"
  have "x \<in> set (filter P xs)" unfolding a by simp
  then show ?thesis by simp
qed

lemma file_offset_section:
  assumes "file_offset m address n = Inr off"
  obtains s where "s \<in> set (mo_sections m)" "in_memory address n s" "off = ms_offset s + address - ms_address s"
    "\<not> mo_encrypted m"
proof -
  obtain s where f: "filter (in_memory address n) (mo_sections m) = [s]" "off = ms_offset s + address - ms_address s"
    and e: "\<not> mo_encrypted m"
    using assms by (auto simp: file_offset_def split: if_splits list.splits)
  show ?thesis by (rule that [OF conjunct1 conjunct2 f(2) e]) (use match_in [OF f(1)] in blast)+
qed

text \<open>
  C5. A patch range that \<open>file_offset\<close> accepts lies inside one file-backed section of an
  unencrypted image, and its file range lies inside the slice at the same distance from the
  section's start; \<open>file_address\<close> of that offset gives the address back whenever it answers.
\<close>

theorem file_offset_roundtrip:
  assumes "macho_read data subtype = Inr m" and "file_offset m address n = Inr off" and "0 \<le> n"
  shows "mo_base m \<le> off \<and> off + n \<le> mo_base m + mo_length m \<and> mo_base m + mo_length m \<le> len_i data
    \<and> \<not> mo_encrypted m
    \<and> (\<exists>s \<in> set (mo_sections m). in_memory address n s \<and> in_file off n s \<and> off - ms_offset s = address - ms_address s)
    \<and> (\<forall>a. file_address m off n = Inr a \<longrightarrow> a = address)"
proof -
  obtain s where s: "s \<in> set (mo_sections m)" "in_memory address n s" "off = ms_offset s + address - ms_address s"
    and e: "\<not> mo_encrypted m"
    using assms(2) by (rule file_offset_section)
  have ok: "image_ok data m" using macho_read_ok [of data subtype] assms(1) by simp
  then have r: "mo_base m \<le> ms_offset s" "ms_offset s + ms_size s \<le> mo_base m + mo_length m"
    "mo_base m + mo_length m \<le> len_i data"
    using s(1,2) by (auto simp: image_ok_def in_memory_def)
  have f: "in_file off n s" using s(2,3) by (auto simp: in_memory_def in_file_def)
  have "a = address" if fa: "file_address m off n = Inr a" for a
  proof -
    obtain s' where s': "filter (in_file off n) (mo_sections m) = [s']" "a = ms_address s' + off - ms_offset s'"
      using fa by (auto simp: file_address_def split: list.splits)
    with only_match [OF s'(1) s(1) f] s(3) show ?thesis by simp
  qed
  with s e r f show ?thesis by (auto simp: in_memory_def in_file_def intro!: bexI [of _ s])
qed

lemma file_offset_roundtrip_witness:
  "file_offset tiny_macho 4100 4 = Inr 188 \<and> file_address tiny_macho 188 4 = Inr 4100"
proof -
  have h: "file_offset tiny_macho 4100 4 = Inr 188" by code_simp
  have g: "case file_address tiny_macho 188 4 of Inr a \<Rightarrow> True | Inl e \<Rightarrow> False" by code_simp
  from file_offset_roundtrip [OF tiny_image_read h] g h show ?thesis by (auto split: sum.splits)
qed

end
