(* ===== verification/Assembly.thy ===== *)
theory Assembly
  imports MachO CodeFlow
begin

text \<open>
  \<open>macdbg/core/assembly.py\<close>: encoding the PC-relative instructions and splicing them into the
  code the toolchain emits. The toolchain (\<open>xcrun clang\<close>) and the symbol resolver are
  parameters. An independent decoder of the A64 encodings states what the encoder must produce.
\<close>

section \<open>The encoder\<close>

definition rx_xreg :: rx where "rx_xreg = Seq (Chr CHR ''x'') (Grp 1 rDigits)"
definition rx_litreg :: rx where "rx_litreg = Seq (Grp 1 (one_of ''xwsdq'')) (Grp 2 rDigits)"
definition rx_brreg :: rx where "rx_brreg = Seq (Grp 1 (one_of ''wx'')) (Grp 2 (Alt rDigits (Str ''zr'')))"

definition dec_group :: "nat \<Rightarrow> groups \<Rightarrow> int" where
  "dec_group n g = (case grp n g of None \<Rightarrow> 0
     | Some t \<Rightarrow> (case py_int 10 t of Some v \<Rightarrow> v | None \<Rightarrow> 0))"

definition cond_codes :: "(string \<times> int) list" where
  "cond_codes = zip [''eq'', ''ne'', ''hs'', ''lo'', ''mi'', ''pl'', ''vs'', ''vc'', ''hi'', ''ls'', ''ge'', ''lt'', ''gt'', ''le'', ''al'', ''nv''] [0..15]
     @ [(''cs'', 2), (''cc'', 3)]"

definition literal_base :: "string \<Rightarrow> int" where
  "literal_base r = (if r = ''w'' then 0x18000000 else if r = ''x'' then 0x58000000
     else if r = ''s'' then 0x1c000000 else if r = ''d'' then 0x5c000000 else 0x9c000000)"

text \<open>\<open>-(1 << n) <= delta < 1 << n\<close>\<close>

definition in_range :: "nat \<Rightarrow> int \<Rightarrow> bool" where "in_range n d = (- push_bit n 1 \<le> d \<and> d < push_bit n 1)"

definition encode_adr :: "bool \<Rightarrow> string \<Rightarrow> int \<Rightarrow> int \<Rightarrow> int res" where
  "encode_adr page field0 pc destination =
     (case rx_full rx_xreg field0 of None \<Rightarrow> Inl (ValueError ''ADR destination must be x0-x30'')
      | Some g \<Rightarrow>
          if dec_group 1 g > 30 then Inl (ValueError ''ADR destination must be x0-x30'')
          else let delta = (if page then drop_bit 12 destination - drop_bit 12 pc else destination - pc) in
            if \<not> in_range 20 delta then Inl (ValueError ''ADR target is out of range'')
            else let encoded = delta AND 0x1fffff in
              Inr ((if page then 0x90000000 else 0x10000000) OR push_bit 29 (encoded AND 3)
                 OR push_bit 5 (drop_bit 2 encoded) OR dec_group 1 g))"

definition encode_literal :: "bool \<Rightarrow> string \<Rightarrow> int \<Rightarrow> int res" where
  "encode_literal sw field0 delta =
     (case rx_full rx_litreg field0 of None \<Rightarrow> Inl (ValueError ''Invalid literal load register'')
      | Some g \<Rightarrow>
          if dec_group 2 g > 31 then Inl (ValueError ''Invalid literal load register'')
          else if \<not> in_range 18 delta then Inl (ValueError ''Literal load target is out of range'')
          else if sw \<and> the (grp 1 g) \<noteq> ''x'' then Inl (ValueError ''LDRSW requires an x register'')
          else Inr ((if sw then 0x98000000 else literal_base (the (grp 1 g)))
             OR push_bit 5 (delta AND 0x7ffff) OR dec_group 2 g))"

definition encode_branch :: "bool \<Rightarrow> int \<Rightarrow> int res" where
  "encode_branch link delta =
     (if \<not> in_range 25 delta then Inl (ValueError ''Branch target is out of range'')
      else Inr ((if link then 0x94000000 else 0x14000000) OR (delta AND 0x3ffffff)))"

definition encode_cond :: "string \<Rightarrow> int \<Rightarrow> int res" where
  "encode_cond c delta =
     (case map_of cond_codes c of None \<Rightarrow> Inl (ValueError ''Unknown branch condition'')
      | Some code \<Rightarrow> if \<not> in_range 18 delta then Inl (ValueError ''Conditional branch target is out of range'')
          else Inr (0x54000000 OR push_bit 5 (delta AND 0x7ffff) OR code))"

definition encode_compare :: "bool \<Rightarrow> bool \<Rightarrow> int \<Rightarrow> int \<Rightarrow> int res" where
  "encode_compare sf nz reg delta =
     (if \<not> in_range 18 delta then Inl (ValueError ''Compare branch target is out of range'')
      else Inr (0x34000000 OR push_bit 31 (of_bool sf) OR push_bit 24 (of_bool nz)
         OR push_bit 5 (delta AND 0x7ffff) OR reg))"

definition encode_test :: "bool \<Rightarrow> bool \<Rightarrow> string list \<Rightarrow> int \<Rightarrow> int \<Rightarrow> int res" where
  "encode_test sf nz flds reg delta =
     (if length flds < 2 then Inl (PyError ''IndexError'' ''list index out of range'')
      else bindR (int_or_error 0 (lstrip_by (\<lambda>c. c = CHR ''#'') (flds ! 1))) (\<lambda>b.
        if \<not> (0 \<le> b \<and> b < (if sf then 64 else 32)) then Inl (ValueError ''Invalid bit index'')
        else if \<not> in_range 13 delta then Inl (ValueError ''Test branch target is out of range'')
        else Inr (0x36000000 OR push_bit 31 (drop_bit 5 b) OR push_bit 19 (b AND 31) OR push_bit 24 (of_bool nz)
           OR push_bit 5 (delta AND 0x3fff) OR reg)))"

text \<open>The instructions that count in words from the instruction: literal loads and branches.\<close>

definition encode_words :: "string \<Rightarrow> string list \<Rightarrow> int \<Rightarrow> int res" where
  "encode_words mn flds delta =
     (if mn = ''ldr'' \<or> mn = ''ldrsw'' then encode_literal (mn = ''ldrsw'') (hd flds) delta
      else if mn = ''b'' \<or> mn = ''bl'' then encode_branch (mn = ''bl'') delta
      else if starts_with mn ''b.'' then encode_cond (drop 2 mn) delta
      else case rx_full rx_brreg (hd flds) of None \<Rightarrow> Inl (ValueError ''Invalid branch register'')
        | Some g \<Rightarrow>
            let reg = (if the (grp 2 g) = ''zr'' then 31 else dec_group 2 g); sf = (the (grp 1 g) = ''x'') in
            if reg > 31 then Inl (ValueError ''Invalid register number'')
            else if mn = ''cbz'' \<or> mn = ''cbnz'' then encode_compare sf (mn = ''cbnz'') reg delta
            else if mn = ''tbz'' \<or> mn = ''tbnz'' then encode_test sf (mn = ''tbnz'') flds reg delta
            else Inl (ValueError ''Unsupported relative instruction''))"

text \<open>\<open>relative_instruction(mnemonic, operands, pc, destination)\<close>\<close>

definition relative_instruction :: "string \<Rightarrow> string \<Rightarrow> int \<Rightarrow> int \<Rightarrow> int res" where
  "relative_instruction mn operands pc destination =
     (let flds = op_fields operands in
      if mn = ''adr'' \<or> mn = ''adrp'' then encode_adr (mn = ''adrp'') (hd flds) pc destination
      else if (destination - pc) mod 4 \<noteq> 0 then Inl (ValueError ''Branch target must be aligned to four bytes'')
      else encode_words mn flds ((destination - pc) div 4))"

section \<open>What the processor reads\<close>

text \<open>
  The PC-relative classes of the A64 instruction set, by the fields of the encoding: the
  mnemonic (with the condition's first spelling) and the address the instruction refers to.
\<close>

definition field :: "nat \<Rightarrow> nat \<Rightarrow> int \<Rightarrow> int" where
  "field lo n w = w div 2 ^ lo mod 2 ^ n"

definition sfield :: "nat \<Rightarrow> nat \<Rightarrow> int \<Rightarrow> int" where
  "sfield lo n w = (let v = field lo n w in if 2 * v \<ge> 2 ^ n then v - 2 ^ n else v)"

definition a64_target :: "int \<Rightarrow> int \<Rightarrow> (string \<times> int) option" where
  "a64_target pc w =
     (if field 24 5 w = 0b10000 then
        (let imm = 4 * sfield 5 19 w + field 29 2 w in
         if field 31 1 w = 0 then Some (''adr'', pc + imm) else Some (''adrp'', 4096 * (pc div 4096 + imm)))
      else if field 26 5 w = 0b00101 then
        Some (if field 31 1 w = 1 then ''bl'' else ''b'', pc + 4 * sfield 0 26 w)
      else if field 24 8 w = 0b01010100 \<and> field 4 1 w = 0 then
        Some (''b.'' @ fst (cond_codes ! nat (field 0 4 w)), pc + 4 * sfield 5 19 w)
      else if field 25 6 w = 0b011010 then
        Some (if field 24 1 w = 1 then ''cbnz'' else ''cbz'', pc + 4 * sfield 5 19 w)
      else if field 25 6 w = 0b011011 then
        Some (if field 24 1 w = 1 then ''tbnz'' else ''tbz'', pc + 4 * sfield 5 14 w)
      else if field 27 3 w = 0b011 \<and> field 24 2 w = 0 then
        Some (if field 30 2 w = 0b10 \<and> field 26 1 w = 0 then ''ldrsw'' else ''ldr'', pc + 4 * sfield 5 19 w)
      else None)"

text \<open>The spelling of a mnemonic that the decoder gives back.\<close>

definition a64_name :: "string \<Rightarrow> string" where
  "a64_name mn = (if mn = ''b.cs'' then ''b.hs'' else if mn = ''b.cc'' then ''b.lo'' else mn)"

lemma or_add_low: "0 \<le> a \<Longrightarrow> a < 2 ^ n \<Longrightarrow> push_bit n b OR a = 2 ^ n * b + (a :: int)"
proof -
  assume "0 \<le> a" "a < 2 ^ n"
  then have "take_bit n a = a" by (rule take_bit_int_eq_self)
  then show ?thesis using concat_bit_eq [of n a b]
    by (simp add: concat_bit_def or.commute push_bit_eq_mult mult.commute)
qed

lemma mask_low: "d AND (2 ^ n - 1) = d mod (2 ^ n :: int)"
  by (metis mask_eq_exp_minus_1 take_bit_eq_mask take_bit_eq_mod)

lemma layout3:
  assumes "0 \<le> c" "c < 32" "0 \<le> (b :: int)" "b < 2 ^ n"
  shows "push_bit (n + 5) a OR push_bit 5 b OR c = 32 * (2 ^ n * a + b) + c"
proof -
  have "push_bit (n + 5) a OR push_bit 5 b = push_bit 5 (push_bit n a OR b)"
    by (simp add: push_bit_push_bit add.commute)
  then show ?thesis using assms or_add_low [of c 5 "push_bit n a OR b"] or_add_low [of b n a] by (simp add: or.assoc [symmetric])
qed

lemma in_range_sfield: "in_range n d \<Longrightarrow> (let v = d mod 2 ^ Suc n in if 2 * v \<ge> 2 ^ Suc n then v - 2 ^ Suc n else v) = d"
proof -
  assume r: "in_range n d"
  then have b: "- (2 ^ n) \<le> d" "d < 2 ^ n" by (simp_all add: in_range_def push_bit_eq_mult)
  show ?thesis
  proof (cases "0 \<le> d")
    case True
    then have "d mod 2 ^ Suc n = d" using b by simp
    with b show ?thesis by (simp add: Let_def)
  next
    case False
    then have "(d + 2 ^ Suc n) mod 2 ^ Suc n = d + 2 ^ Suc n" using b by (intro mod_pos_pos_trivial) auto
    then have "d mod 2 ^ Suc n = d + 2 ^ Suc n" by (simp only: mod_add_self2)
    with b False show ?thesis by (simp add: Let_def)
  qed
qed


lemma dec_group_nonneg:
  assumes "rx_full r s = Some g" and "captures (\<lambda>k x. k = n \<longrightarrow> CHR ''-'' \<notin> set x) r"
  shows "0 \<le> dec_group n g"
proof (cases "grp n g")
  case (Some x)
  have "CHR ''-'' \<notin> set x" using rx_full_captures [OF assms(2,1) Some] by simp
  then have d: "CHR ''-'' \<notin> set (py_strip x)" unfolding py_strip_def strip_by_def rstrip_by_def lstrip_by_def
    by (auto dest!: set_dropWhileD)
  have "take 1 (py_strip x) \<noteq> ''-''"
  proof
    assume "take 1 (py_strip x) = ''-''"
    then have "CHR ''-'' \<in> set (py_strip x)" by (cases "py_strip x") auto
    with d show False by simp
  qed
  then show ?thesis using Some unsigned_int_nonneg [of 10]
    by (auto simp: dec_group_def py_int_def Let_def split: option.splits if_splits)
qed (simp add: dec_group_def)

lemma digits_no_minus: "rx_lang rDigits x \<Longrightarrow> CHR ''-'' \<notin> set x"
proof -
  assume a: "rx_lang rDigits x"
  have "\<forall>c \<in> set x. is_digit c" using rx_lang_Plus_Cls [OF a] by (simp add: list_all_iff)
  moreover have "\<not> is_digit CHR ''-''" by (simp add: is_digit_def byte_val_def)
  ultimately show ?thesis by blast
qed

lemma captures_regs:
  "captures (\<lambda>k x. k = 1 \<longrightarrow> CHR ''-'' \<notin> set x) rx_xreg"
  "captures (\<lambda>k x. k = 2 \<longrightarrow> CHR ''-'' \<notin> set x) rx_litreg"
  "captures (\<lambda>k x. k = 2 \<longrightarrow> CHR ''-'' \<notin> set x) rx_brreg"
  using digits_no_minus
  by (auto simp: rx_xreg_def rx_litreg_def rx_brreg_def Chr_def one_of_def Plus_def rx_lang_Seq rx_lang_Cls)

text \<open>Reading the fields of an encoding \<open>op : imm19 : 5 bits\<close>.\<close>

lemma layout_fields:
  assumes "w = 32 * (2 ^ 19 * a + b) + (c :: int)" and "0 \<le> c" "c < 32" and "0 \<le> b" "b < 2 ^ 19"
  shows "field 5 19 w = b" and "field 5 14 w = b mod 2 ^ 14" and "field 4 1 w = c div 16" and "field 0 4 w = c mod 16"
    and "field (24 + k) n w = a div 2 ^ k mod 2 ^ n"
proof -
  have q: "w div 32 = 2 ^ 19 * a + b" using assms by simp
  have h: "w div 2 ^ 24 = a"
  proof -
    have "w div 2 ^ 24 = w div 32 div 2 ^ 19" by (simp add: zdiv_zmult2_eq [symmetric])
    then show ?thesis using q assms by simp
  qed
  show "field 5 19 w = b" using q assms by (simp add: field_def)
  have "524288 * a + b = b + (32 * a) * 16384" by simp
  then have "(524288 * a + b) mod 16384 = b mod 16384" by (simp only: mod_mult_self1)
  then show "field 5 14 w = b mod 2 ^ 14" using q by (simp add: field_def)
  show "field 4 1 w = c div 16" "field 0 4 w = c mod 16"
  proof -
    obtain m where m: "w = 32 * m + c" using assms(1) by blast
    have e: "32 * m + c = c + (2 * m) * 16" by simp
    have "(32 * m + c) div 16 = 2 * m + c div 16" "(32 * m + c) mod 16 = c mod 16"
      unfolding e by (simp_all only: div_mult_self1 mod_mult_self1)
    moreover have "c div 16 mod 2 = c div 16" using assms(2,3) by (intro mod_pos_pos_trivial) (auto simp: pos_imp_zdiv_nonneg_iff)
    ultimately have "(32 * m + c) div 16 mod 2 = c div 16" "(32 * m + c) mod 16 = c mod 16" by simp_all
    then show "field 4 1 w = c div 16" "field 0 4 w = c mod 16" by (simp_all add: field_def m)
  qed
  have "w div 2 ^ (24 + k) = w div 2 ^ 24 div 2 ^ k" by (simp add: power_add zdiv_zmult2_eq)
  then show "field (24 + k) n w = a div 2 ^ k mod 2 ^ n" unfolding field_def h by simp
qed

lemma layout_bound:
  "0 \<le> c \<Longrightarrow> c < 32 \<Longrightarrow> 0 \<le> b \<Longrightarrow> b < 2 ^ 19 \<Longrightarrow> 0 \<le> a \<Longrightarrow> a < 256 \<Longrightarrow>
   0 \<le> 32 * (2 ^ 19 * a + b) + (c :: int) \<and> 32 * (2 ^ 19 * a + b) + c < 2 ^ 32"
  by simp


lemma layout_sfields:
  assumes "w = 32 * (2 ^ 19 * a + b) + (c :: int)" and "0 \<le> c" "c < 32" and "0 \<le> b" "b < 2 ^ 19"
  shows "b = d mod 2 ^ 19 \<Longrightarrow> in_range 18 d \<Longrightarrow> sfield 5 19 w = d"
    and "b mod 2 ^ 14 = d mod 2 ^ 14 \<Longrightarrow> in_range 13 d \<Longrightarrow> sfield 5 14 w = d"
proof -
  have p: "(2 :: int) ^ Suc 18 = 524288" "(2 :: int) ^ Suc 13 = 16384" by simp_all
  show "b = d mod 2 ^ 19 \<Longrightarrow> in_range 18 d \<Longrightarrow> sfield 5 19 w = d"
    using in_range_sfield [of 18 d] layout_fields(1) [OF assms] unfolding p by (auto simp: sfield_def Let_def split: if_splits)
  show "b mod 2 ^ 14 = d mod 2 ^ 14 \<Longrightarrow> in_range 13 d \<Longrightarrow> sfield 5 14 w = d"
    using in_range_sfield [of 13 d] layout_fields(2) [OF assms] unfolding p by (auto simp: sfield_def Let_def split: if_splits)
qed

lemma mod_field: "0 \<le> d mod (2 ^ n :: int) \<and> d mod 2 ^ n < 2 ^ n"
  by simp

definition decodes :: "int \<Rightarrow> int \<Rightarrow> string \<times> int \<Rightarrow> bool" where
  "decodes pc w t = (0 \<le> w \<and> w < 2 ^ 32 \<and> a64_target pc w = Some t)"

lemma cond_codes_table:
  "list_all (\<lambda>(c, k). 0 \<le> k \<and> k < 16 \<and> ''b.'' @ fst (cond_codes ! nat k) = a64_name (''b.'' @ c)) cond_codes"
  by code_simp

lemma encode_cond_decodes:
  assumes "encode_cond c d = Inr w"
  shows "decodes pc w (a64_name (''b.'' @ c), pc + 4 * d)"
proof -
  obtain code where m: "map_of cond_codes c = Some code" and r: "in_range 18 d"
    and w: "w = 0x54000000 OR push_bit 5 (d AND 0x7ffff) OR code"
    using assms by (auto simp: encode_cond_def split: option.splits if_splits)
  have k: "0 \<le> code" "code < 16" "''b.'' @ fst (cond_codes ! nat code) = a64_name (''b.'' @ c)"
    using cond_codes_table map_of_SomeD [OF m] by (auto simp: list_all_iff)
  have l: "w = 32 * (2 ^ 19 * 0x54 + d mod 2 ^ 19) + code"
    using layout3 [of code "d mod 2 ^ 19" 19 "0x54"] k mod_field [of d 19] mask_low [of d 19] unfolding w by simp
  note f = layout_fields [OF l] and s = layout_sfields [OF l]
  show ?thesis
    using k mod_field [of d 19] f(3,4) s(1) r layout_fields(5) [OF l, where k = 0] layout_fields(5) [OF l, where k = 2]
    unfolding decodes_def a64_target_def l [symmetric]
    by (simp add: l)
qed


text \<open>The opcode byte decides the class.\<close>

lemma opcode_fields:
  assumes "w = 32 * (2 ^ 19 * a + b) + (c :: int)" and "0 \<le> c" "c < 32" and "0 \<le> b" "b < 2 ^ 19"
  shows "field 24 n w = a mod 2 ^ n" "field 25 n w = a div 2 mod 2 ^ n" "field 26 n w = a div 4 mod 2 ^ n"
    "field 27 n w = a div 8 mod 2 ^ n" "field 29 n w = a div 32 mod 2 ^ n" "field 30 n w = a div 64 mod 2 ^ n"
    "field 31 n w = a div 128 mod 2 ^ n"
proof -
  note h = layout_fields(5) [OF assms]
  show "field 24 n w = a mod 2 ^ n" using h [of 0 n] by simp
  show "field 25 n w = a div 2 mod 2 ^ n" using h [of 1 n] by simp
  show "field 26 n w = a div 4 mod 2 ^ n" using h [of 2 n] by simp
  show "field 27 n w = a div 8 mod 2 ^ n" using h [of 3 n] by simp
  show "field 29 n w = a div 32 mod 2 ^ n" using h [of 5 n] by simp
  show "field 30 n w = a div 64 mod 2 ^ n" using h [of 6 n] by simp
  show "field 31 n w = a div 128 mod 2 ^ n" using h [of 7 n] by simp
qed

lemma encode_compare_decodes:
  assumes "encode_compare sf nz reg d = Inr w" and "0 \<le> reg" "reg < 32"
  shows "decodes pc w (if nz then ''cbnz'' else ''cbz'', pc + 4 * d)"
proof -
  define a :: int where "a = 0x34 + 128 * of_bool sf + of_bool nz"
  have r: "in_range 18 d"
    and w: "w = 0x34000000 OR push_bit 31 (of_bool sf) OR push_bit 24 (of_bool nz) OR push_bit 5 (d AND 0x7ffff) OR reg"
    using assms(1) by (auto simp: encode_compare_def split: if_splits)
  have p: "0x34000000 OR push_bit 31 (of_bool sf) OR push_bit 24 (of_bool nz) = push_bit 24 a"
    by (cases sf; cases nz) (simp_all add: a_def)
  have "w = (0x34000000 OR push_bit 31 (of_bool sf) OR push_bit 24 (of_bool nz)) OR push_bit 5 (d AND 0x7ffff) OR reg"
    unfolding w by (simp only: or.assoc)
  moreover have mk: "d AND 0x7ffff = d mod 2 ^ 19" using mask_low [of d 19] by simp
  ultimately have l: "w = 32 * (2 ^ 19 * a + d mod 2 ^ 19) + reg"
    using layout3 [of reg "d mod 2 ^ 19" 19 a] assms(2,3) mod_field [of d 19] unfolding p by simp
  note m = conjunct1 [OF mod_field [of d 19]] conjunct2 [OF mod_field [of d 19]]
  have s: "sfield 5 19 w = d" using layout_sfields(1) [OF l assms(2,3) m refl r] .
  have a: "0 \<le> a" "a < 256" "a div 4 mod 32 = 13" "a mod 32 \<noteq> 16" "a \<noteq> 84" "a div 2 mod 64 = 26" "a mod 2 = of_bool nz"
    by (cases sf; cases nz; simp add: a_def)+
  show ?thesis
    using a s layout_bound [OF assms(2,3) m a(1,2)]
    unfolding decodes_def a64_target_def opcode_fields [OF l assms(2,3) m] l [symmetric] by simp
qed

lemma encode_test_decodes:
  assumes "encode_test sf nz flds reg d = Inr w" and "0 \<le> reg" "reg < 32"
  shows "decodes pc w (if nz then ''tbnz'' else ''tbz'', pc + 4 * d)"
proof -
  obtain b where b: "0 \<le> b" "b < 64" and r: "in_range 13 d"
    and w: "w = 0x36000000 OR push_bit 31 (drop_bit 5 b) OR push_bit 19 (b AND 31) OR push_bit 24 (of_bool nz)
        OR push_bit 5 (d AND 0x3fff) OR reg"
    using assms(1) by (auto simp: encode_test_def bindR_Inr split: if_splits)
  define h :: bool where "h = (32 \<le> b)"
  have hb: "drop_bit 5 b = of_bool h" proof -
    have "b div 32 = of_bool (32 \<le> b)" using b by simp presburger
    then show ?thesis by (simp add: h_def drop_bit_eq_div)
  qed
  define a :: int where "a = 0x36 + 128 * of_bool h + of_bool nz"
  define i where "i = 2 ^ 14 * (b mod 32) + d mod 2 ^ 14"
  have i: "0 \<le> i" "i < 2 ^ 19" "i mod 2 ^ 14 = d mod 2 ^ 14"
    using mod_field [of d 14] pos_mod_bound [of 32 b] pos_mod_sign [of 32 b] unfolding i_def by simp_all
  have p: "0x36000000 OR push_bit 31 (of_bool h) OR push_bit 24 (of_bool nz) = push_bit 24 a"
    by (cases h; cases nz) (simp_all add: a_def)
  have q: "push_bit 19 (b AND 31) OR push_bit 5 (d AND 0x3fff) = push_bit 5 i"
  proof -
    have "push_bit 14 (b mod 32) OR d mod 2 ^ 14 = i"
      using or_add_low [of "d mod 2 ^ 14" 14 "b mod 32"] mod_field [of d 14] by (simp add: i_def)
    moreover have "push_bit 19 (b AND 31) OR push_bit 5 (d AND 0x3fff) = push_bit 5 (push_bit 14 (b mod 32) OR d mod 2 ^ 14)"
      using mask_low [of d 14] mask_low [of b 5] by (simp add: push_bit_push_bit)
    ultimately show ?thesis by simp
  qed
  have "w = (0x36000000 OR push_bit 31 (of_bool h) OR push_bit 24 (of_bool nz)) OR
      (push_bit 19 (b AND 31) OR push_bit 5 (d AND 0x3fff)) OR reg"
    unfolding w hb by (simp only: or.assoc or.commute or.left_commute)
  then have l: "w = 32 * (2 ^ 19 * a + i) + reg"
    using layout3 [of reg i 19 a] assms(2,3) i unfolding p q by simp
  have s: "sfield 5 14 w = d" using layout_sfields(2) [OF l assms(2,3) i(1,2) i(3) r] .
  have a: "0 \<le> a" "a < 256" "a div 4 mod 32 = 13" "a mod 32 \<noteq> 16" "a \<noteq> 84" "a div 2 mod 64 = 27" "a mod 2 = of_bool nz"
    by (cases h; cases nz; simp add: a_def)+
  show ?thesis
    using a s layout_bound [OF assms(2,3) i(1,2) a(1,2)]
    unfolding decodes_def a64_target_def opcode_fields [OF l assms(2,3) i(1,2)] l [symmetric] by simp
qed

lemma encode_literal_decodes:
  assumes "encode_literal sw f d = Inr w"
  shows "decodes pc w (if sw then ''ldrsw'' else ''ldr'', pc + 4 * d)"
proof -
  obtain g where g: "rx_full rx_litreg f = Some g" and reg: "dec_group 2 g < 32" and r: "in_range 18 d"
    and w: "w = (if sw then 0x98000000 else literal_base (the (grp 1 g))) OR push_bit 5 (d AND 0x7ffff) OR dec_group 2 g"
    using assms by (auto simp: encode_literal_def split: option.splits if_splits)
  have reg0: "0 \<le> dec_group 2 g" using dec_group_nonneg [OF g] captures_regs(2) by simp
  obtain a :: int where p: "(if sw then 0x98000000 else literal_base (the (grp 1 g))) = push_bit 24 a"
    and a: "(sw \<and> a = 0x98) \<or> (\<not> sw \<and> a \<in> {0x18, 0x58, 0x1c, 0x5c, 0x9c})"
  proof (cases sw)
    case True
    then show ?thesis by (intro that [of "0x98"]) simp_all
  next
    case False
    then show ?thesis
      by (intro that [of "literal_base (the (grp 1 g)) div 2 ^ 24"]) (simp_all add: literal_base_def)
  qed
  have mk: "d AND 0x7ffff = d mod 2 ^ 19" using mask_low [of d 19] by simp
  have l: "w = 32 * (2 ^ 19 * a + d mod 2 ^ 19) + dec_group 2 g"
    using layout3 [of "dec_group 2 g" "d mod 2 ^ 19" 19 a] reg reg0 mod_field [of d 19]
    unfolding w p mk by simp
  note m = conjunct1 [OF mod_field [of d 19]] conjunct2 [OF mod_field [of d 19]]
  have s: "sfield 5 19 w = d" using layout_sfields(1) [OF l reg0 reg m refl r] .
  have a1: "0 \<le> a" "a < 256" using a by auto
  have a2: "a mod 32 \<noteq> 16 \<and> a div 4 mod 32 \<noteq> 5 \<and> a mod 256 \<noteq> 84 \<and> a div 2 mod 64 \<noteq> 26 \<and> a div 2 mod 64 \<noteq> 27 \<and>
    a div 8 mod 8 = 3 \<and> a mod 4 = 0 \<and> (a div 64 mod 4 = 2 \<and> a div 4 mod 2 = 0) = sw"
  proof -
    from a consider "sw \<and> a = 0x98" | "\<not> sw \<and> a = 0x18" | "\<not> sw \<and> a = 0x58" | "\<not> sw \<and> a = 0x1c"
      | "\<not> sw \<and> a = 0x5c" | "\<not> sw \<and> a = 0x9c" by auto
    then show ?thesis by cases simp_all
  qed
  show ?thesis
    using a2 s layout_bound [OF reg0 reg m a1]
    unfolding decodes_def a64_target_def opcode_fields [OF l reg0 reg m] l [symmetric] by simp
qed


lemma encode_branch_decodes:
  assumes "encode_branch link d = Inr w"
  shows "decodes pc w (if link then ''bl'' else ''b'', pc + 4 * d)"
proof -
  define op :: int where "op = (if link then 37 else 5)"
  define m where "m = d mod 2 ^ 26"
  have r: "in_range 25 d" and w: "w = (if link then 0x94000000 else 0x14000000) OR (d AND 0x3ffffff)"
    using assms by (auto simp: encode_branch_def split: if_splits)
  have mk: "d AND 0x3ffffff = m" using mask_low [of d 26] by (simp add: m_def)
  have m: "0 \<le> m" "m < 2 ^ 26" using mod_field [of d 26] by (simp_all add: m_def)
  have p: "(if link then 0x94000000 else 0x14000000) = push_bit 26 op" by (simp add: op_def)
  have l: "w = 2 ^ 26 * op + m" unfolding w mk p by (rule or_add_low [OF m])
  have s: "sfield 0 26 w = d"
  proof -
    have "(2 :: int) ^ Suc 25 = 2 ^ 26" by simp
    moreover have "field 0 26 w = m" using m by (simp add: field_def l)
    ultimately show ?thesis using in_range_sfield [OF r] by (auto simp: sfield_def Let_def m_def split: if_splits)
  qed
  define x where "x = m div 2 ^ 24"
  have x: "0 \<le> x" "x < 4"
  proof -
    show "0 \<le> x" using m by (simp add: x_def pos_imp_zdiv_nonneg_iff)
    have "m < 4 * 2 ^ 24" using m by simp
    then show "x < 4" by (simp add: x_def div_less_iff_less_mult)
  qed
  have h: "w div 2 ^ 24 = 4 * op + x"
  proof -
    have "w = m + (4 * op) * 2 ^ 24" by (simp add: l)
    then show ?thesis by (simp only: div_mult_self1 x_def) simp
  qed
  have "w div 2 ^ 26 = op" "w div 2 ^ 31 = op div 32" using m
    by (simp_all add: l op_def)
  then have f: "field 26 5 w = 5" "field 31 1 w = of_bool link" by (simp_all add: field_def op_def)
  have "field 24 5 w = 20 + x"
  proof -
    have "x \<in> {0, 1, 2, 3}" using x by auto
    then show ?thesis unfolding field_def h by (auto simp: op_def)
  qed
  with f s l m x show ?thesis by (auto simp: decodes_def a64_target_def op_def)
qed

lemma encode_adr_decodes:
  assumes "encode_adr page f pc dest = Inr w"
  shows "decodes pc w (if page then ''adrp'' else ''adr'', if page then dest - dest mod 4096 else dest)"
proof -
  define d where "d = (if page then drop_bit 12 dest - drop_bit 12 pc else dest - pc)"
  obtain g where g: "rx_full rx_xreg f = Some g" and reg: "dec_group 1 g \<le> 30" and r: "in_range 20 d"
    and w: "w = (if page then 0x90000000 else 0x10000000) OR push_bit 29 ((d AND 0x1fffff) AND 3)
       OR push_bit 5 (drop_bit 2 (d AND 0x1fffff)) OR dec_group 1 g"
    using assms by (auto simp: encode_adr_def d_def [symmetric] Let_def split: option.splits if_splits)
  have reg0: "0 \<le> dec_group 1 g" using dec_group_nonneg [OF g] captures_regs(1) by simp
  have reg1: "dec_group 1 g < 32" using reg by simp
  define lo where "lo = d mod 4"
  define q where "q = d div 4"
  have lo: "0 \<le> lo" "lo < 4" by (simp_all add: lo_def)
  have d4: "d = 4 * q + lo" by (simp add: lo_def q_def)
  have e: "d AND 0x1fffff = d mod 2 ^ 21" using mask_low [of d 21] by simp
  have e3: "(d AND 0x1fffff) AND 3 = lo"
    using mask_low [of "d mod 2 ^ 21" 2] by (simp add: e lo_def mod_mod_cancel)
  have e2: "drop_bit 2 (d AND 0x1fffff) = q mod 2 ^ 19"
  proof -
    have "drop_bit 2 (take_bit 21 d) = take_bit 19 (drop_bit 2 d)" by (simp add: drop_bit_take_bit)
    then show ?thesis unfolding e q_def by (simp add: take_bit_eq_mod drop_bit_eq_div)
  qed
  define a :: int where "a = 16 + 32 * lo + 128 * of_bool page"
  have p: "(if page then 0x90000000 else 0x10000000) OR push_bit 29 lo = push_bit 24 a"
  proof -
    have "lo \<in> {0, 1, 2, 3}" using lo by auto
    then show ?thesis by (cases page) (auto simp: a_def)
  qed
  have rq: "in_range 18 q" using r d4 lo by (simp add: in_range_def)
  note m = conjunct1 [OF mod_field [of q 19]] conjunct2 [OF mod_field [of q 19]]
  have "w = ((if page then 0x90000000 else 0x10000000) OR push_bit 29 lo) OR push_bit 5 (q mod 2 ^ 19) OR dec_group 1 g"
    unfolding w e3 e2 by (simp only: or.assoc)
  then have l: "w = 32 * (2 ^ 19 * a + q mod 2 ^ 19) + dec_group 1 g"
    using layout3 [of "dec_group 1 g" "q mod 2 ^ 19" 19 a] reg0 reg1 m unfolding p by simp
  have s: "sfield 5 19 w = q" using layout_sfields(1) [OF l reg0 reg1 m refl rq] .
  have a: "0 \<le> a" "a < 256" "a mod 32 = 16" "a div 32 mod 4 = lo" "a div 128 mod 2 = of_bool page"
  proof -
    have "lo \<in> {0, 1, 2, 3}" using lo by auto
    then show "0 \<le> a" "a < 256" "a mod 32 = 16" "a div 32 mod 4 = lo" "a div 128 mod 2 = of_bool page"
      by (cases page; auto simp: a_def)+
  qed
  have t: "pc + d = dest" if "\<not> page" using that by (simp add: d_def)
  have t2: "4096 * (pc div 4096 + d) = dest - dest mod 4096" if page
    using that by (simp add: d_def drop_bit_eq_div minus_mod_eq_mult_div)
  show ?thesis
    using a s layout_bound [OF reg0 reg1 m a(1,2)] t t2 d4
    unfolding decodes_def a64_target_def opcode_fields [OF l reg0 reg1 m] l [symmetric]
    by (cases page) (simp_all add: Let_def)
qed


lemma a64_name_same: "hd m \<noteq> CHR ''b'' \<or> m \<in> {''b'', ''bl''} \<Longrightarrow> a64_name m = m"
  by (auto simp: a64_name_def)

lemma encode_words_decodes:
  assumes e: "encode_words mn flds d = Inr w"
  shows "decodes pc w (a64_name mn, pc + 4 * d)"
proof -
  consider (lit) "mn = ''ldr'' \<or> mn = ''ldrsw''" | (br) "mn = ''b'' \<or> mn = ''bl''"
    | (cond) "starts_with mn ''b.''" "mn \<notin> {''ldr'', ''ldrsw'', ''b'', ''bl''}"
    | (reg) "\<not> starts_with mn ''b.''" "mn \<notin> {''ldr'', ''ldrsw'', ''b'', ''bl''}" by blast
  then show ?thesis
  proof cases
    case lit
    then have "encode_literal (mn = ''ldrsw'') (hd flds) d = Inr w" using e unfolding encode_words_def by metis
    from encode_literal_decodes [OF this, of pc] lit show ?thesis by (auto simp: a64_name_same)
  next
    case br
    then have "encode_branch (mn = ''bl'') d = Inr w" using e unfolding encode_words_def by auto
    from encode_branch_decodes [OF this, of pc] br show ?thesis by (auto simp: a64_name_same)
  next
    case cond
    then have "encode_cond (drop 2 mn) d = Inr w" using e unfolding encode_words_def by simp
    moreover have "''b.'' @ drop 2 mn = mn" using cond(1) unfolding starts_with_def
      by (metis append_take_drop_id length_Cons list.size(3) numeral_2_eq_2)
    ultimately show ?thesis using encode_cond_decodes [of "drop 2 mn" d w pc] by simp
  next
    case reg
    then obtain g where g: "rx_full rx_brreg (hd flds) = Some g"
      using e unfolding encode_words_def by (cases "rx_full rx_brreg (hd flds)") simp_all
    define r where "r = (if the (grp 2 g) = ''zr'' then 31 else dec_group 2 g)"
    have r0: "0 \<le> r" using dec_group_nonneg [OF g] captures_regs(3) by (simp add: r_def)
    have b2: "(if r > 31 then Inl (ValueError ''Invalid register number'')
        else if mn = ''cbz'' \<or> mn = ''cbnz'' then encode_compare (the (grp 1 g) = ''x'') (mn = ''cbnz'') r d
        else if mn = ''tbz'' \<or> mn = ''tbnz'' then encode_test (the (grp 1 g) = ''x'') (mn = ''tbnz'') flds r d
        else Inl (ValueError ''Unsupported relative instruction'')) = Inr w"
      using e reg unfolding encode_words_def Let_def g r_def by simp
    then have r1: "r < 32" by (cases "r > 31") simp_all
    show ?thesis
    proof (cases "mn = ''cbz'' \<or> mn = ''cbnz''")
      case True
      then have "encode_compare (the (grp 1 g) = ''x'') (mn = ''cbnz'') r d = Inr w" using b2 r1 by simp
      from encode_compare_decodes [OF this r0 r1, of pc] True show ?thesis by (auto simp: a64_name_same)
    next
      case False
      then have t: "mn = ''tbz'' \<or> mn = ''tbnz''" using b2 r1 by (cases "mn = ''tbz'' \<or> mn = ''tbnz''") simp_all
      then have "encode_test (the (grp 1 g) = ''x'') (mn = ''tbnz'') flds r d = Inr w" using b2 r1 False by simp
      from encode_test_decodes [OF this r0 r1, of pc] t show ?thesis by (auto simp: a64_name_same)
    qed
  qed
qed

lemma relative_decodes:
  assumes "relative_instruction mn operands pc dest = Inr w"
  shows "0 \<le> w \<and> w < 2 ^ 32 \<and>
    a64_target pc w = Some (a64_name mn, if mn = ''adrp'' then dest - dest mod 4096 else dest)"
proof (cases "mn = ''adr'' \<or> mn = ''adrp''")
  case True
  then have "encode_adr (mn = ''adrp'') (hd (op_fields operands)) pc dest = Inr w"
    using assms by (simp add: relative_instruction_def Let_def)
  from encode_adr_decodes [OF this] True show ?thesis by (auto simp: decodes_def a64_name_same)
next
  case False
  then have al: "(dest - pc) mod 4 = 0" and e: "encode_words mn (op_fields operands) ((dest - pc) div 4) = Inr w"
    using assms by (simp_all add: relative_instruction_def Let_def split: if_splits)
  have "pc + 4 * ((dest - pc) div 4) = dest" using al mult_div_mod_eq [of 4 "dest - pc"] by linarith
  with encode_words_decodes [OF e, of pc] False show ?thesis by (simp add: decodes_def)
qed



end
