(* ===== verification/Json.thy ===== *)
theory Json
  imports PyText
begin

text \<open>
  The JSON values that macdbg writes and \<open>json.dumps\<close> with its default separators and
  \<open>ensure_ascii\<close>: what the trace log, the patch manifests and the saved state put on disk.
  A float is given by its printed form.
\<close>

datatype json = JNull | JBool bool | JInt int | JFloat string | JStr string
  | JList "json list" | JObj "(string \<times> json) list"

definition hex2 :: "int \<Rightarrow> string" where
  "hex2 v = [hex_digit (nat (v div 16 mod 16)), hex_digit (nat (v mod 16))]"

text \<open>The escapes of \<open>ESCAPE_ASCII\<close>: quote, backslash and everything outside space to tilde.\<close>

definition esc_char :: "char \<Rightarrow> string" where
  "esc_char c = (let b = byte_val c in
     if b = 34 then [val_byte 92, val_byte 34] else if b = 92 then [val_byte 92, val_byte 92]
     else if b = 10 then [val_byte 92, CHR ''n''] else if b = 13 then [val_byte 92, CHR ''r'']
     else if b = 9 then [val_byte 92, CHR ''t''] else if b = 12 then [val_byte 92, CHR ''f'']
     else if b = 8 then [val_byte 92, CHR ''b'']
     else if 32 \<le> b \<and> b \<le> 126 then [c] else val_byte 92 # ''u00'' @ hex2 b)"

definition quote :: "string \<Rightarrow> string" where
  "quote s = val_byte 34 # concat (map esc_char s) @ [val_byte 34]"

fun join :: "string \<Rightarrow> string list \<Rightarrow> string" where
  "join sep [] = []"
| "join sep [x] = x"
| "join sep (x # y # ys) = x @ sep @ join sep (y # ys)"

fun dumps :: "json \<Rightarrow> string" where
  "dumps JNull = ''null''"
| "dumps (JBool b) = (if b then ''true'' else ''false'')"
| "dumps (JInt v) = py_str v"
| "dumps (JFloat t) = t"
| "dumps (JStr s) = quote s"
| "dumps (JList xs) = ''['' @ join '', '' (map dumps xs) @ '']''"
| "dumps (JObj kvs) = ''{'' @ join '', '' (map (\<lambda>kv. quote (fst kv) @ '': '' @ dumps (snd kv)) kvs) @ ''}''"

text \<open>Printed floats stay printable ASCII.\<close>

definition plain :: "char \<Rightarrow> bool" where "plain c = (32 \<le> byte_val c \<and> byte_val c \<le> 126)"

fun json_ok :: "json \<Rightarrow> bool" where
  "json_ok (JFloat t) = list_all plain t"
| "json_ok (JList xs) = list_all json_ok xs"
| "json_ok (JObj kvs) = list_all (\<lambda>kv. json_ok (snd kv)) kvs"
| "json_ok _ = True"

lemma plain_hex_digit: "n < 16 \<Longrightarrow> plain (hex_digit n)"
proof -
  assume "n < 16"
  moreover have "list_all plain ''0123456789abcdef''" by (simp add: plain_def byte_val_def)
  ultimately show ?thesis unfolding hex_digit_def by (simp only: list_all_length) simp
qed

lemma plain_esc_char: "list_all plain (esc_char c)"
proof -
  have "plain (hex_digit (nat (v mod 16)))" for v :: int by (rule plain_hex_digit) (simp add: nat_less_iff)
  moreover have "plain (val_byte 92)" "plain (val_byte 34)" by (simp_all add: plain_def)
  ultimately show ?thesis
    by (simp add: esc_char_def Let_def hex2_def plain_def byte_val_def)
qed

lemma plain_quote: "list_all plain (quote s)"
proof -
  have "list_all plain (concat (map esc_char s))"
    using plain_esc_char by (auto simp: list_all_iff)
  then show ?thesis by (simp add: quote_def plain_def)
qed

lemma list_all_join: "list_all P sep \<Longrightarrow> list_all (list_all P) xs \<Longrightarrow> list_all P (join sep xs)"
  by (induction sep xs rule: join.induct) auto

lemma plain_nat_dec: "list_all plain (nat_dec n)"
proof (induction n rule: nat_dec.induct)
  case (1 n)
  have p: "plain (hex_digit (n mod 10))" by (rule plain_hex_digit) simp
  have "list_all plain (nat_dec n)" if "n < 10" using that p by (subst nat_dec.simps) simp
  moreover have "list_all plain (nat_dec n)" if "\<not> n < 10"
    using that p 1 by (subst nat_dec.simps) simp
  ultimately show ?case by blast
qed

text \<open>A dumped value is printable ASCII; in particular it holds no line break.\<close>

lemma plain_dumps: "json_ok j \<Longrightarrow> list_all plain (dumps j)"
proof (induction j rule: dumps.induct)
  case (6 xs)
  then have "list_all (list_all plain) (map dumps xs)" by (simp add: list_all_iff)
  from list_all_join [OF _ this, of "'', ''"] have "list_all plain (join '', '' (map dumps xs))"
    by (simp add: plain_def byte_val_def)
  moreover have "plain CHR ''[''" "plain CHR '']''" by (simp_all add: plain_def byte_val_def)
  ultimately show ?case by simp
next
  case (7 kvs)
  have c: "plain CHR '':''" "plain CHR '' ''" by (simp_all add: plain_def byte_val_def)
  have "list_all plain (dumps (snd kv))" if "kv \<in> set kvs" for kv
    using that 7 by (auto simp: list_all_iff [of _ kvs])
  then have "list_all (list_all plain) (map (\<lambda>kv. quote (fst kv) @ '': '' @ dumps (snd kv)) kvs)"
    using plain_quote c by (simp add: list_all_iff [of _ kvs] list.pred_map)
  from list_all_join [OF _ this, of "'', ''"]
  have "list_all plain (join '', '' (map (\<lambda>kv. quote (fst kv) @ '': '' @ dumps (snd kv)) kvs))"
    by (simp add: plain_def byte_val_def)
  moreover have "plain CHR ''{''" "plain CHR ''}''" by (simp_all add: plain_def byte_val_def)
  ultimately show ?case by simp
qed (auto simp: plain_def byte_val_def plain_quote py_str_def intro: plain_nat_dec)

declare dumps.simps [simp del]

definition newline :: char where "newline = val_byte 10"

lemma newline_not_plain: "\<not> plain newline"
  by (simp add: plain_def newline_def)

lemma split_on_append: "c \<notin> set xs \<Longrightarrow> split_on c (xs @ c # ys) = xs # split_on c ys"
  by (induction xs) auto

lemma split_lines: "\<forall>l \<in> set ls. newline \<notin> set l \<Longrightarrow> split_on newline (concat (map (\<lambda>l. l @ [newline]) ls)) = ls @ [[]]"
  by (induction ls) (auto simp: split_on_append)

end
