(* ===== verification/Assembler.thy ===== *)
theory Assembler
  imports Assembly Json
begin

text \<open>
  \<open>assemble\<close> of \<open>macdbg/core/assembly.py\<close>: reading the source lines, encoding the
  address-dependent instructions here, and splicing them into the code of the toolchain. The
  toolchain takes the source text and gives an error text or the bytes of an object file; the
  symbol resolver is optional.
\<close>

type_synonym toolchain = "string \<Rightarrow> string + bytes"
type_synonym resolver = "(string \<Rightarrow> int res) option"

definition is_alpha :: "char \<Rightarrow> bool" where "is_alpha c = (is_lower c \<or> is_upper c)"

definition rx_label :: rx where
  "rx_label = Seqs [Cls (\<lambda>c. is_alpha c \<or> c = CHR ''_''), Star (Cls is_word), Chr CHR '':'']"

definition rx_mnemonic :: rx where
  "rx_mnemonic = Seq (Cls is_lower) (Star (Cls (\<lambda>c. is_lower c \<or> is_digit c \<or> c = CHR ''.'')))"

text \<open>A label, or an instruction: \<open>^[a-zA-Z]...\<close> without \<open>;\<close>, backslash or quote.\<close>

definition is_label :: "string \<Rightarrow> bool" where
  "is_label line = (rx_full rx_label line \<noteq> None)"

definition is_instruction :: "string \<Rightarrow> bool" where
  "is_instruction line = (line \<noteq> [] \<and> is_alpha (hd line)
     \<and> \<not> list_ex (\<lambda>c. byte_val c \<in> {59, 92, 34}) line)"

record asm_scan =
  as_lines :: "(int \<times> string) list"
  as_labels :: "(string, int) odict"
  as_offset :: int

definition scan_line :: "int \<Rightarrow> string \<Rightarrow> asm_scan \<Rightarrow> asm_scan res" where
  "scan_line address raw st =
     (let line = py_strip (fst (cut_at ''//'' raw)) in
      if line = [] then Inr st
      else if is_label line then
        (let name = butlast line in
         if map_of (as_labels st) name \<noteq> None then Inl (ValueError (''Duplicate label: '' @ name))
         else Inr (st\<lparr>as_labels := od_set name (address + as_offset st) (as_labels st)\<rparr>))
      else if \<not> is_instruction line
        then Inl (ValueError ''Enter instructions and local labels only; assembler directives are not accepted'')
      else Inr (st\<lparr>as_lines := as_lines st @ [(address + as_offset st, line)], as_offset := as_offset st + 4\<rparr>))"

definition scan_source :: "string \<Rightarrow> int \<Rightarrow> asm_scan res" where
  "scan_source source address =
     (if length source > 16384 \<or> address < 0 \<or> address mod 4 \<noteq> 0
      then Inl (ValueError ''Use an aligned address and at most 16 KiB of assembly'')
      else bindR (foldR (scan_line address) (py_splitlines source) \<lparr>as_lines = [], as_labels = [], as_offset = 0\<rparr>)
        (\<lambda>st. if \<not> (1 \<le> length (as_lines st) \<and> length (as_lines st) \<le> 256)
              then Inl (ValueError ''Assemble 1-256 ARM64 instructions'') else Inr st))"

text \<open>\<open>line.split(None, 1)\<close> of a stripped line.\<close>

definition line_parts :: "string \<Rightarrow> string \<times> string" where
  "line_parts line = (py_lower (takeWhile (\<lambda>c. \<not> is_space c) line),
     dropWhile is_space (dropWhile (\<lambda>c. \<not> is_space c) line))"

definition is_relative :: "string \<Rightarrow> string \<Rightarrow> bool" where
  "is_relative mn operands =
     (mn \<in> {''b'', ''bl'', ''cbz'', ''cbnz'', ''tbz'', ''tbnz'', ''adr'', ''adrp''} \<or> starts_with mn ''b.''
      \<or> mn \<in> {''ldr'', ''ldrsw''} \<and> CHR ''['' \<notin> set operands)"

definition destination_of :: "(string, int) odict \<Rightarrow> resolver \<Rightarrow> string \<Rightarrow> int res" where
  "destination_of labels resolve operands =
     (let expression = lstrip_by (\<lambda>c. c = CHR ''#'') (py_strip (last (split_on CHR '','' operands))) in
      case map_of labels expression of Some v \<Rightarrow> Inr v
      | None \<Rightarrow> (case py_int 0 expression of Some v \<Rightarrow> Inr v
          | None \<Rightarrow> (case resolve of None \<Rightarrow> Inl (ValueError (''Unknown symbol: '' @ expression))
              | Some f \<Rightarrow> f expression)))"

text \<open>One line: what the toolchain is given, and the word encoded here, if any.\<close>

definition prepare_line :: "(string, int) odict \<Rightarrow> resolver \<Rightarrow> int \<times> string \<Rightarrow> (string \<times> int option) res" where
  "prepare_line labels resolve = (\<lambda>(pc, line).
     let (mn, operands) = line_parts line in
     if rx_full rx_mnemonic mn = None
     then Inl (ValueError ''Place local labels on their own line; directives are not accepted'')
     else if is_relative mn operands then
       bindR (destination_of labels resolve operands) (\<lambda>destination.
       bindR (relative_instruction mn operands pc destination) (\<lambda>w. Inr (''nop'', Some w)))
     else Inr (line, None))"

definition compiler_input :: "string list \<Rightarrow> string" where
  "compiler_input ls = ''.text'' @ [val_byte 10] @ join [val_byte 10] ls @ [val_byte 10]"

text \<open>The section the toolchain emitted.\<close>

definition text_section :: "macho \<Rightarrow> bytes res" where
  "text_section img =
     (case filter (\<lambda>s. ms_name s = map byte_val ''__text'' \<and> ms_segment s = map byte_val ''__TEXT'') (mo_sections img) of
        [s] \<Rightarrow> if ms_relocations s \<noteq> 0
          then Inl (ValueError ''Unresolved relocation; use a numeric address or a supported address-aware instruction'')
          else Inr (slice (nat (ms_offset s)) (nat (ms_offset s + ms_size s)) (mo_data img))
      | _ \<Rightarrow> Inl (ValueError ''Assembler did not emit one text section''))"

definition put_word :: "nat \<times> (string \<times> int option) \<Rightarrow> bytes \<Rightarrow> bytes res" where
  "put_word = (\<lambda>(i, (_, w)) data. case w of None \<Rightarrow> Inr data
     | Some v \<Rightarrow> if 0 \<le> v \<and> v < 2 ^ 32 then Inr (take (i * 4) data @ int_le 4 v @ drop (i * 4 + 4) data)
         else Inl (PyError ''OverflowError'' ''int too big to convert''))"

text \<open>\<open>assemble(source, address, resolve)\<close>\<close>

definition assemble :: "toolchain \<Rightarrow> resolver \<Rightarrow> string \<Rightarrow> int \<Rightarrow> bytes res" where
  "assemble clang resolve source address =
     bindR (scan_source source address) (\<lambda>st.
     bindR (mapR (prepare_line (as_labels st) resolve) (as_lines st)) (\<lambda>prep.
     case clang (compiler_input (map fst prep)) of
       Inl err \<Rightarrow> Inl (ValueError (take 4000 (py_strip err)))
     | Inr obj \<Rightarrow>
         bindR (macho_read obj None) (\<lambda>img.
         bindR (text_section img) (\<lambda>data.
         if length data \<noteq> length (as_lines st) * 4
         then Inl (ValueError ''Each input line must emit exactly one ARM64 instruction'')
         else foldR put_word (enumerate 0 prep) data))))"


section \<open>The layout of the code\<close>

definition scan_ok :: "int \<Rightarrow> asm_scan \<Rightarrow> bool" where
  "scan_ok address st = (as_offset st = 4 * len_i (as_lines st)
     \<and> (\<forall>i < length (as_lines st). fst (as_lines st ! i) = address + 4 * int i)
     \<and> (\<forall>name a. map_of (as_labels st) name = Some a \<longrightarrow> (\<exists>k \<le> length (as_lines st). a = address + 4 * int k)))"

lemma scan_line_ok: "scan_line address raw st = Inr st' \<Longrightarrow> scan_ok address st \<Longrightarrow> scan_ok address st'"
  by (auto simp: scan_line_def scan_ok_def Let_def len_i_def nth_append dict_simps split: if_splits)
    (metis le_Suc_eq less_Suc_eq)+

lemma scan_source_ok:
  assumes "scan_source source address = Inr st"
  shows "scan_ok address st" and "1 \<le> length (as_lines st)" and "length (as_lines st) \<le> 256" and "0 \<le> address"
proof -
  have f: "foldR (scan_line address) (py_splitlines source) \<lparr>as_lines = [], as_labels = [], as_offset = 0\<rparr> = Inr st"
    and l: "1 \<le> length (as_lines st)" "length (as_lines st) \<le> 256" "0 \<le> address"
    using assms by (auto simp: scan_source_def bindR_Inr split: if_splits)
  show "scan_ok address st"
  proof (rule foldR_invariant [OF f])
    show "scan_ok address \<lparr>as_lines = [], as_labels = [], as_offset = 0\<rparr>" by (simp add: scan_ok_def len_i_def)
  qed (rule scan_line_ok)
  show "1 \<le> length (as_lines st)" "length (as_lines st) \<le> 256" "0 \<le> address" by (rule l)+
qed

lemma mapR_Inr: "mapR f xs = Inr ys \<longleftrightarrow> length ys = length xs \<and> (\<forall>i < length xs. f (xs ! i) = Inr (ys ! i))"
proof (induction xs arbitrary: ys)
  case (Cons x xs)
  show ?case by (cases ys) (auto simp: bindR_Inr Cons less_Suc_eq_0_disj)
qed auto

definition word_at :: "nat \<Rightarrow> bytes \<Rightarrow> bytes" where "word_at i data = slice (4 * i) (4 * i + 4) data"

lemma put_word_ok:
  assumes "put_word (i, p) data = Inr data'" and "4 * i + 4 \<le> length data"
  shows "length data' = length data \<and>
    word_at j data' = (if j = i then (case snd p of Some w \<Rightarrow> int_le 4 w | None \<Rightarrow> word_at i data) else word_at j data)"
proof (cases "snd p")
  case None
  with assms show ?thesis by (auto simp: put_word_def split: prod.splits)
next
  case (Some w)
  then have d: "data' = take (4 * i) data @ int_le 4 w @ drop (4 * i + 4) data"
    using assms(1) by (auto simp: put_word_def mult.commute split: prod.splits if_splits)
  have len: "length data' = length data" using assms(2) by (simp add: d)
  consider "j = i" | "j < i" | "i < j" by linarith
  then show ?thesis
  proof cases
    case 1
    then show ?thesis using assms(2) Some len by (simp add: word_at_def slice_def d)
  next
    case 2
    then have j: "4 * j + 4 \<le> 4 * i" by simp
    then have "4 \<le> 4 * i - 4 * j" by arith
    have "take (4 * i) data' = take (4 * i) data" using assms(2) by (simp add: d)
    then have "take 4 (drop (4 * j) (take (4 * i) data')) = take 4 (drop (4 * j) (take (4 * i) data))" by simp
    then have "take 4 (drop (4 * j) data') = take 4 (drop (4 * j) data)"
      using \<open>4 \<le> 4 * i - 4 * j\<close> by (simp add: drop_take min_def)
    then show ?thesis using 2 len by (simp add: word_at_def slice_def)
  next
    case 3
    then obtain k where k: "4 * j = 4 * i + 4 + k" 
      by (intro that [of "4 * j - (4 * i + 4)"]) (use 3 in simp)
    have "drop (4 * i + 4) data' = drop (4 * i + 4) data" using assms(2) by (simp add: d)
    then have "drop k (drop (4 * i + 4) data') = drop k (drop (4 * i + 4) data)" by simp
    then have "drop (4 * j) data' = drop (4 * j) data" unfolding k by (simp add: add.commute)
    with 3 len show ?thesis by (simp add: word_at_def slice_def)
  qed
qed

lemma put_words_ok:
  assumes "foldR put_word (enumerate n ps) data = Inr data'" and "4 * (n + length ps) \<le> length data"
  shows "length data' = length data \<and> (\<forall>j < n. word_at j data' = word_at j data) \<and>
    (\<forall>j < length ps. word_at (n + j) data' =
       (case snd (ps ! j) of Some w \<Rightarrow> int_le 4 w | None \<Rightarrow> word_at (n + j) data))"
  using assms
proof (induction ps arbitrary: n data)
  case (Cons p ps)
  from Cons.prems(1) obtain d1 where d1: "put_word (n, p) data = Inr d1" and r: "foldR put_word (enumerate (Suc n) ps) d1 = Inr data'"
    by (auto simp: bindR_Inr)
  have one: "length d1 = length data \<and>
    word_at j d1 = (if j = n then (case snd p of Some w \<Rightarrow> int_le 4 w | None \<Rightarrow> word_at n data) else word_at j data)" for j
    using put_word_ok [OF d1] Cons.prems(2) by simp
  have ih: "length data' = length d1 \<and> (\<forall>j < Suc n. word_at j data' = word_at j d1) \<and>
    (\<forall>j < length ps. word_at (Suc n + j) data' =
       (case snd (ps ! j) of Some w \<Rightarrow> int_le 4 w | None \<Rightarrow> word_at (Suc n + j) d1))"
    by (rule Cons.IH [OF r]) (use one Cons.prems(2) in simp)
  have low: "word_at j data' = word_at j data" if "j < n" for j
  proof -
    have "word_at j data' = word_at j d1" using ih that by simp
    then show ?thesis using one [of j] that by simp
  qed
  have high: "word_at (n + j) data' = (case snd ((p # ps) ! j) of Some w \<Rightarrow> int_le 4 w | None \<Rightarrow> word_at (n + j) data)"
    if "j < length (p # ps)" for j
  proof (cases j)
    case 0
    have "word_at n data' = word_at n d1" using ih by simp
    then show ?thesis using one [of n] 0 by (simp split: option.splits)
  next
    case (Suc k)
    then have "word_at (Suc n + k) data' = (case snd (ps ! k) of Some w \<Rightarrow> int_le 4 w | None \<Rightarrow> word_at (Suc n + k) d1)"
      using ih that by simp
    then show ?thesis using one [of "Suc n + k"] Suc by (simp split: option.splits)
  qed
  show ?case using ih one low high by simp
qed simp

text \<open>
  C3. What \<open>assemble\<close> returns is four bytes per instruction line, between 1 and 256 of them,
  and every address-dependent line, placed at its own program counter, decodes as that
  instruction referring to the label, number or symbol it names, whatever the toolchain emitted
  for the other lines.
\<close>

theorem assemble_layout:
  assumes "assemble clang resolve source address = Inr code"
  shows "\<exists>st. scan_source source address = Inr st \<and> length code = 4 * length (as_lines st)
    \<and> length (as_lines st) \<in> {1..256}
    \<and> (\<forall>i < length (as_lines st). \<forall>mn operands. line_parts (snd (as_lines st ! i)) = (mn, operands) \<longrightarrow> is_relative mn operands \<longrightarrow>
        (\<exists>dest. destination_of (as_labels st) resolve operands = Inr dest \<and>
           a64_target (address + 4 * int i) (le_int (word_at i code))
             = Some (a64_name mn, if mn = ''adrp'' then dest - dest mod 4096 else dest)))"
proof -
  obtain st prep where st: "scan_source source address = Inr st"
    and prep: "mapR (prepare_line (as_labels st) resolve) (as_lines st) = Inr prep"
    and rest: "(case clang (compiler_input (map fst prep)) of
       Inl err \<Rightarrow> Inl (ValueError (take 4000 (py_strip err)))
     | Inr obj \<Rightarrow>
         bindR (macho_read obj None) (\<lambda>img.
         bindR (text_section img) (\<lambda>data.
         if length data \<noteq> length (as_lines st) * 4
         then Inl (ValueError ''Each input line must emit exactly one ARM64 instruction'')
         else foldR put_word (enumerate 0 prep) data))) = Inr code"
    using assms by (auto simp: assemble_def bindR_Inr)
  obtain data where len: "length data = length (as_lines st) * 4" and put: "foldR put_word (enumerate 0 prep) data = Inr code"
    using rest by (cases "clang (compiler_input (map fst prep))") (auto simp: bindR_Inr split: if_splits)
  have lp: "length prep = length (as_lines st)" using prep by (simp add: mapR_Inr)
  have ok: "length code = length data"
    "\<And>j. j < length prep \<Longrightarrow> word_at j code = (case snd (prep ! j) of Some w \<Rightarrow> int_le 4 w | None \<Rightarrow> word_at j data)"
    using put_words_ok [OF put] len lp by (simp_all cong: option.case_cong)
  have rel: "\<exists>dest. destination_of (as_labels st) resolve operands = Inr dest \<and>
           a64_target (address + 4 * int i) (le_int (word_at i code))
             = Some (a64_name mn, if mn = ''adrp'' then dest - dest mod 4096 else dest)"
    if i: "i < length (as_lines st)" and parts: "line_parts (snd (as_lines st ! i)) = (mn, operands)"
      and r: "is_relative mn operands" for i mn operands
  proof -
    have pc: "fst (as_lines st ! i) = address + 4 * int i"
      using scan_source_ok(1) [OF st] i by (simp add: scan_ok_def)
    have "prepare_line (as_labels st) resolve (as_lines st ! i) = Inr (prep ! i)"
      using prep i by (simp add: mapR_Inr)
    then obtain dest w where d: "destination_of (as_labels st) resolve operands = Inr dest"
      and w: "relative_instruction mn operands (address + 4 * int i) dest = Inr w" "snd (prep ! i) = Some w"
      using parts r pc by (auto simp: prepare_line_def bindR_Inr split: prod.splits if_splits) (metis snd_conv)
    from relative_decodes [OF w(1)] have "0 \<le> w" "w < 256 ^ 4" by auto
    then have "le_int (word_at i code) = w" using ok(2) [of i] i lp w(2) le_int_int_le by simp
    with d relative_decodes [OF w(1)] show ?thesis by auto
  qed
  with st ok(1) len scan_source_ok [OF st] show ?thesis by (intro exI [of _ st]) auto
qed

text \<open>A toolchain that answers every program with the same one-section object.\<close>

lemma assemble_layout_witness:
  "a64_target 4100 (le_int (word_at 1 (slice 184 188 tiny_image @ int_le 4 0x17ffffff))) = Some (''b'', 4096)"
proof -
  define src where "src = ''again:'' @ [val_byte 10] @ ''nop'' @ [val_byte 10] @ ''b again''"
  define code where "code = slice 184 188 tiny_image @ int_le 4 0x17ffffff"
  have a: "assemble (\<lambda>_. Inr tiny_image) None src 4096 = Inr code" unfolding src_def code_def by code_simp
  define st where "st = \<lparr>as_lines = [(4096, ''nop''), (4100, ''b again'')], as_labels = [(''again'', 4096)], as_offset = 8\<rparr>"
  have s: "scan_source src 4096 = Inr st" unfolding src_def st_def by code_simp
  have p: "line_parts ''b again'' = (''b'', ''again'')" "is_relative ''b'' ''again''" by code_simp+
  have d: "destination_of [(''again'', 4096)] None ''again'' = Inr 4096" by code_simp
  from assemble_layout [OF a] s have "\<forall>i < length (as_lines st). \<forall>mn operands. line_parts (snd (as_lines st ! i)) = (mn, operands)
      \<longrightarrow> is_relative mn operands \<longrightarrow> (\<exists>dest. destination_of (as_labels st) None operands = Inr dest \<and>
           a64_target (4096 + 4 * int i) (le_int (word_at i code))
             = Some (a64_name mn, if mn = ''adrp'' then dest - dest mod 4096 else dest))" by simp
  from this [rule_format, of 1 "''b''" "''again''"] p obtain dest where
    "destination_of (as_labels st) None ''again'' = Inr dest"
    "a64_target 4100 (le_int (word_at 1 code)) = Some (a64_name ''b'', dest)"
    by (auto simp: st_def)
  with d show ?thesis by (simp add: st_def a64_name_def code_def)
qed

end
