(* ===== verification/TraceLog.thy ===== *)
theory TraceLog
  imports Prelude Json
begin

text \<open>
  \<open>macdbg/core/trace_log.py\<close>: the bounded live history of trace rows and the JSONL file
  behind it. The directory, the two timestamps and the random epoch come from outside and are
  arguments; the file system is a map from paths to contents.
\<close>

type_synonym trace_row = "(string, json) odict"

definition row_n :: "trace_row \<Rightarrow> int" where
  "row_n r = (case map_of r ''n'' of Some (JInt n) \<Rightarrow> n | _ \<Rightarrow> 0)"

record trace_log =
  tl_capacity :: nat
  tl_capacity_bytes :: int
  tl_rows :: "trace_row list"
  tl_sizes :: "int list"
  tl_live :: int
  tl_count :: int
  tl_epoch :: string
  tl_path :: "string option"
  tl_files :: "string \<Rightarrow> string option"

text \<open>\<open>TraceLog.reset\<close> with the new epoch.\<close>

definition trace_reset :: "string \<Rightarrow> trace_log \<Rightarrow> trace_log" where
  "trace_reset epoch t = t\<lparr>tl_rows := [], tl_sizes := [], tl_live := 0, tl_count := 0,
     tl_epoch := epoch, tl_path := None\<rparr>"

definition trace_new :: "nat \<Rightarrow> int \<Rightarrow> (string \<Rightarrow> string option) \<Rightarrow> string \<Rightarrow> trace_log" where
  "trace_new cap capb fs epoch = trace_reset epoch \<lparr>tl_capacity = cap, tl_capacity_bytes = capb,
     tl_rows = [], tl_sizes = [], tl_live = 0, tl_count = 0, tl_epoch = [], tl_path = None, tl_files = fs\<rparr>"

text \<open>\<open>deque(maxlen=cap).append\<close> and \<open>os.path.join\<close> with a relative second part.\<close>

definition deque_push :: "nat \<Rightarrow> 'a list \<Rightarrow> 'a \<Rightarrow> 'a list" where
  "deque_push cap xs x = drop (Suc (length xs) - cap) (xs @ [x])"

definition path_join :: "string \<Rightarrow> string \<Rightarrow> string" where
  "path_join d n = (if d = [] \<or> last d = CHR ''/'' then d @ n else d @ ''/'' @ n)"

definition trace_path :: "string \<Rightarrow> string \<Rightarrow> string \<Rightarrow> string" where
  "trace_path dir stamp epoch = path_join dir (''trace-'' @ stamp @ ''-'' @ take 12 epoch @ ''.jsonl'')"

text \<open>The loop that drops the oldest rows until the new one fits.\<close>

fun shed :: "nat \<Rightarrow> int \<Rightarrow> int \<Rightarrow> 'r list \<Rightarrow> int list \<Rightarrow> int \<Rightarrow> 'r list \<times> int list \<times> int" where
  "shed cap capb need (r # rows) (z # sizes) live =
     (if cap \<le> length (r # rows) \<or> capb < live + need then shed cap capb need rows sizes (live - z)
      else (r # rows, z # sizes, live))"
| "shed cap capb need rows sizes live = (rows, sizes, live)"

definition make_row :: "trace_log \<Rightarrow> string \<Rightarrow> json \<Rightarrow> json \<Rightarrow> trace_row \<Rightarrow> trace_row" where
  "make_row t now category call details =
     od_set ''call'' call (od_set ''category'' category (od_set ''timestamp'' (JStr now)
       (od_set ''epoch'' (JStr (tl_epoch t)) (od_set ''n'' (JInt (tl_count t + 1)) details))))"

definition append_file :: "string \<Rightarrow> string \<Rightarrow> (string \<Rightarrow> string option) \<Rightarrow> string \<Rightarrow> string option" where
  "append_file p s fs = fs(p \<mapsto> (case fs p of None \<Rightarrow> [] | Some old \<Rightarrow> old) @ s)"

record trace_call =
  tc_dir :: string
  tc_stamp :: string
  tc_now :: string
  tc_category :: json
  tc_call :: json
  tc_details :: trace_row

definition trace_append :: "trace_call \<Rightarrow> trace_log \<Rightarrow> trace_row \<times> trace_log" where
  "trace_append c t =
     (let path = (case tl_path t of None \<Rightarrow> trace_path (tc_dir c) (tc_stamp c) (tl_epoch t) | Some p \<Rightarrow> p);
          row = make_row t (tc_now c) (tc_category c) (tc_call c) (tc_details c);
          serialized = dumps (JObj row);
          need = int (length serialized);
          (rows, sizes, live) = shed (tl_capacity t) (tl_capacity_bytes t) need (tl_rows t) (tl_sizes t) (tl_live t)
      in (row, t\<lparr>tl_path := Some path,
             tl_files := append_file path (serialized @ [newline]) (tl_files t),
             tl_count := tl_count t + 1,
             tl_rows := deque_push (tl_capacity t) rows row,
             tl_sizes := deque_push (tl_capacity t) sizes need,
             tl_live := live + need\<rparr>))"

record trace_view =
  tv_hits :: "trace_row list"
  tv_total :: int
  tv_epoch :: string
  tv_path :: "string option"
  tv_first :: int

definition trace_snapshot :: "int \<Rightarrow> trace_log \<Rightarrow> trace_view" where
  "trace_snapshot since t = \<lparr>tv_hits = filter (\<lambda>r. row_n r > since) (tl_rows t), tv_total = tl_count t,
     tv_epoch = tl_epoch t, tv_path = tl_path t,
     tv_first = (case tl_rows t of [] \<Rightarrow> tl_count t + 1 | r # _ \<Rightarrow> row_n r)\<rparr>"

text \<open>The states a log created with a capacity goes through.\<close>

inductive trace_reachable :: "nat \<Rightarrow> int \<Rightarrow> trace_log \<Rightarrow> bool" for cap capb where
  new: "trace_reachable cap capb (trace_new cap capb fs epoch)"
| append: "trace_reachable cap capb t \<Longrightarrow> trace_reachable cap capb (snd (trace_append c t))"
| reset: "trace_reachable cap capb t \<Longrightarrow> trace_reachable cap capb (trace_reset epoch t)"

section \<open>The limit on what is kept\<close>

definition trace_over :: "nat \<Rightarrow> int \<Rightarrow> int \<Rightarrow> ('r \<times> int) list \<Rightarrow> bool" where
  "trace_over cap capb need xs = (xs \<noteq> [] \<and> (cap \<le> length xs \<or> capb < sum_list (map snd xs) + need))"

interpretation trace_limit: bounded_history "trace_over cap capb need" for cap capb need
  by unfold_locales (simp add: trace_over_def)

lemma shed_evict:
  "length rows = length sizes \<Longrightarrow> shed cap capb need rows sizes (sum_list sizes) =
     (let kept = evict (trace_over cap capb need) (zip rows sizes)
      in (map fst kept, map snd kept, sum_list (map snd kept)))"
proof (induction rows arbitrary: sizes)
  case (Cons r rows)
  then obtain z zs where s: "sizes = z # zs" "length rows = length zs" by (cases sizes) auto
  from Cons.IH [OF s(2)] s show ?case by (simp add: trace_over_def Let_def)
qed (simp add: Let_def)

lemma map_row_n_make_row [simp]: "row_n (make_row t now category call details) = tl_count t + 1"
  by (simp add: row_n_def make_row_def dict_simps)

definition trace_inv :: "trace_log \<Rightarrow> bool" where
  "trace_inv t = (tl_live t = sum_list (tl_sizes t)
     \<and> tl_sizes t = map (\<lambda>r. int (length (dumps (JObj r)))) (tl_rows t)
     \<and> length (tl_rows t) \<le> tl_capacity t
     \<and> (tl_live t \<le> tl_capacity_bytes t \<or> length (tl_rows t) \<le> 1)
     \<and> (0 < tl_count t \<longrightarrow> tl_rows t \<noteq> []) \<and> 0 \<le> tl_count t
     \<and> map row_n (tl_rows t) = [tl_count t - int (length (tl_rows t)) + 1 .. tl_count t])"

lemma suffix_upto: "suffix xs [i..j] \<Longrightarrow> xs = [j - int (length xs) + 1..j]"
proof (induction "nat (j - i + 1)" arbitrary: i)
  case (Suc n)
  have ij: "[i..j] = i # [i+1..j]" using Suc.hyps(2) by (simp add: upto.simps)
  from Suc.prems consider "xs = [i..j]" | "suffix xs [i+1..j]" unfolding ij suffix_Cons by blast
  then show ?case
  proof cases
    case 1
    have "int (length [i..j]) = j - i + 1" using Suc.hyps(2) by simp
    with 1 show ?thesis by simp
  next
    case 2
    with Suc.hyps(1) [of "i+1"] Suc.hyps(2) show ?thesis by simp
  qed
qed simp

lemma trace_inv_append:
  assumes "trace_inv t" and "0 < tl_capacity t"
  shows "trace_inv (snd (trace_append c t))"
proof -
  define row where "row = make_row t (tc_now c) (tc_category c) (tc_call c) (tc_details c)"
  define need where "need = int (length (dumps (JObj row)))"
  define over :: "(trace_row \<times> int) list \<Rightarrow> bool" where "over = trace_over (tl_capacity t) (tl_capacity_bytes t) need"
  define kept where "kept = evict over (zip (tl_rows t) (tl_sizes t))"
  have live: "tl_live t = sum_list (tl_sizes t)"
    and sz: "tl_sizes t = map (\<lambda>r. int (length (dumps (JObj r)))) (tl_rows t)"
    and ns: "map row_n (tl_rows t) = [tl_count t - int (length (tl_rows t)) + 1 .. tl_count t]"
    and cnt: "0 \<le> tl_count t"
    using assms(1) unfolding trace_inv_def by blast+
  have len: "length (tl_rows t) = length (tl_sizes t)" by (simp add: sz)
  have sh: "shed (tl_capacity t) (tl_capacity_bytes t) need (tl_rows t) (tl_sizes t) (tl_live t)
      = (map fst kept, map snd kept, sum_list (map snd kept))"
    using shed_evict [OF len] by (simp add: live kept_def over_def Let_def)
  have within: "\<not> over kept" unfolding kept_def over_def by (rule trace_limit.within)
  have sfx: "suffix kept (zip (tl_rows t) (tl_sizes t))"
    unfolding kept_def over_def by (rule trace_limit.keeps_newest)
  have sfx1: "suffix (map fst kept) (tl_rows t)" using map_mono_suffix [OF sfx, of fst] len by simp
  have sz1: "map snd kept = map (\<lambda>r. int (length (dumps (JObj r)))) (map fst kept)"
  proof -
    have "\<forall>p \<in> set (zip (tl_rows t) (tl_sizes t)). snd p = int (length (dumps (JObj (fst p))))"
      unfolding sz by (auto simp: set_zip)
    then show ?thesis using set_mono_suffix [OF sfx] by auto
  qed
  have lt: "length kept < tl_capacity t" using within assms(2) by (cases kept) (auto simp: over_def trace_over_def)
  have fit: "kept = [] \<or> sum_list (map snd kept) + need \<le> tl_capacity_bytes t"
    using within by (auto simp: over_def trace_over_def)
  have ns1: "map row_n (map fst kept) = [tl_count t - int (length kept) + 1 .. tl_count t]"
    using suffix_upto [of "map row_n (map fst kept)"] map_mono_suffix [OF sfx1, of row_n] ns by simp
  obtain p fs where out: "snd (trace_append c t) = t\<lparr>tl_path := p, tl_files := fs, tl_count := tl_count t + 1,
       tl_rows := map fst kept @ [row], tl_sizes := map snd kept @ [need],
       tl_live := sum_list (map snd kept) + need\<rparr>"
    using sh lt by (simp add: trace_append_def Let_def row_def [symmetric] need_def [symmetric] deque_push_def)
  have ext: "[tl_count t - int (length kept) + 1 .. tl_count t + 1] = [tl_count t - int (length kept) + 1 .. tl_count t] @ [tl_count t + 1]"
    using upto_rec2 [of "tl_count t - int (length kept) + 1" "tl_count t + 1"] by simp
  have "row_n row = tl_count t + 1" by (simp add: row_def)
  then have ns2: "map row_n (map fst kept @ [row]) = [tl_count t - int (length kept) + 1 .. tl_count t + 1]"
    using ns1 ext by simp
  have sizes: "map snd kept @ [need] = map (\<lambda>r. int (length (dumps (JObj r)))) (map fst kept @ [row])"
    using sz1 by (simp add: need_def)
  have fits: "sum_list (map snd kept) + need \<le> tl_capacity_bytes t \<or> length (map fst kept @ [row]) \<le> 1"
    using fit by auto
  show ?thesis
    unfolding out trace_inv_def using ns2 sizes lt fits cnt by simp
qed

lemma trace_reachable_inv:
  assumes "trace_reachable cap capb t" and "0 < cap"
  shows "trace_inv t \<and> tl_capacity t = cap \<and> tl_capacity_bytes t = capb"
  using assms
proof (induction rule: trace_reachable.induct)
  case (append t c)
  have "tl_capacity (snd (trace_append c t)) = tl_capacity t"
    "tl_capacity_bytes (snd (trace_append c t)) = tl_capacity_bytes t"
    by (simp_all add: trace_append_def Let_def split: prod.splits)
  with append trace_inv_append show ?case by simp
qed (auto simp: trace_new_def trace_reset_def trace_inv_def)

section \<open>What a client sees\<close>

text \<open>
  Whatever was appended and whenever the log was reset, the live history holds at most the
  configured number of rows, its byte counter is the exact size of the kept rows, and that
  size stays within the byte limit unless a single row alone exceeds it.
\<close>

theorem trace_log_bounded:
  assumes "trace_reachable cap capb t" and "0 < cap"
  shows "length (tl_rows t) \<le> cap
    \<and> tl_live t = sum_list (map (\<lambda>r. int (length (dumps (JObj r)))) (tl_rows t))
    \<and> (tl_live t \<le> capb \<or> length (tl_rows t) \<le> 1)"
  using trace_reachable_inv [OF assms] by (auto simp: trace_inv_def)

definition demo_call :: trace_call where
  "demo_call = \<lparr>tc_dir = ''/tmp'', tc_stamp = ''1'', tc_now = ''t'', tc_category = JStr ''FILE'',
     tc_call = JStr ''open'', tc_details = [(''pid'', JInt 7)]\<rparr>"

lemma trace_log_bounded_witness:
  "length (tl_rows (snd (trace_append demo_call (trace_new 1 90 (\<lambda>_. None) ''e'')))) \<le> 1"
proof -
  have "trace_reachable 1 90 (snd (trace_append demo_call (trace_new 1 90 (\<lambda>_. None) ''e'')))"
    by (intro trace_reachable.intros)
  from trace_log_bounded [OF this] show ?thesis by simp
qed

text \<open>
  Polling loses nothing that is still kept: a snapshot since row \<open>k\<close> returns, without
  gaps, exactly the rows numbered from \<open>k + 1\<close> (or from \<open>first_available\<close> where older rows
  were evicted) to the total count.
\<close>

theorem trace_snapshot_complete:
  assumes "trace_reachable cap capb t" and "0 < cap"
  shows "map row_n (tv_hits (trace_snapshot since t))
      = [max (since + 1) (tv_first (trace_snapshot since t)) .. tv_total (trace_snapshot since t)]"
proof -
  have upto: "filter (\<lambda>n. n > since) [i..j] = [max (since + 1) i..j]" for i j :: int
  proof (induction i j rule: upto.induct)
    case (1 i j)
    show ?case
    proof (cases "i \<le> j")
      case True
      then have e: "[i..j] = i # [i+1..j]" by (simp add: upto.simps)
      from True 1 show ?thesis
        by (cases "i > since") (auto simp: e max_def upto.simps [of i j])
    qed simp
  qed
  have inv: "map row_n (tl_rows t) = [tl_count t - int (length (tl_rows t)) + 1 .. tl_count t]"
    using trace_reachable_inv [OF assms] by (simp add: trace_inv_def)
  have first: "tv_first (trace_snapshot since t) = tl_count t - int (length (tl_rows t)) + 1"
  proof (cases "tl_rows t")
    case (Cons r rs)
    then have "hd (map row_n (tl_rows t)) = row_n r" by simp
    with inv Cons show ?thesis by (simp add: trace_snapshot_def upto.simps)
  qed (simp add: trace_snapshot_def)
  have "map row_n (tv_hits (trace_snapshot since t)) = filter (\<lambda>n. n > since) (map row_n (tl_rows t))"
    by (simp add: trace_snapshot_def filter_map o_def)
  with upto inv first show ?thesis by (simp add: trace_snapshot_def)
qed

lemma trace_snapshot_complete_witness:
  "map row_n (tv_hits (trace_snapshot 0 (snd (trace_append demo_call (trace_new 5 900 (\<lambda>_. None) ''e''))))) = [1]"
proof -
  have "trace_reachable 5 900 (snd (trace_append demo_call (trace_new 5 900 (\<lambda>_. None) ''e'')))"
    by (intro trace_reachable.intros)
  moreover have "tv_first (trace_snapshot 0 (snd (trace_append demo_call (trace_new 5 900 (\<lambda>_. None) ''e'')))) = 1
      \<and> tv_total (trace_snapshot 0 (snd (trace_append demo_call (trace_new 5 900 (\<lambda>_. None) ''e'')))) = 1"
    by code_simp
  ultimately show ?thesis using trace_snapshot_complete [of 5 900 _ 0] by simp
qed

section \<open>The file behind the history\<close>

fun trace_run :: "trace_call list \<Rightarrow> trace_log \<Rightarrow> trace_row list \<times> trace_log" where
  "trace_run [] t = ([], t)"
| "trace_run (c # cs) t = (let (r, t1) = trace_append c t; (rs, t2) = trace_run cs t1 in (r # rs, t2))"

lemma trace_append_file:
  assumes "trace_append c t = (r, t')"
  shows "tl_path t' = Some (case tl_path t of None \<Rightarrow> trace_path (tc_dir c) (tc_stamp c) (tl_epoch t) | Some p \<Rightarrow> p)"
    and "tl_files t' = append_file (the (tl_path t')) (dumps (JObj r) @ [newline]) (tl_files t)"
    and "r = make_row t (tc_now c) (tc_category c) (tc_call c) (tc_details c)"
  using assms by (auto simp: trace_append_def Let_def split: prod.splits)

lemma trace_run_file:
  assumes "tl_path t = Some p" and "tl_files t p = Some f" and "trace_run cs t = (rs, t')"
  shows "tl_path t' = Some p \<and> tl_files t' p = Some (f @ concat (map (\<lambda>r. dumps (JObj r) @ [newline]) rs))"
  using assms
proof (induction cs arbitrary: t f rs)
  case (Cons c cs)
  obtain r t1 where a: "trace_append c t = (r, t1)" by (cases "trace_append c t")
  obtain rs2 where b: "trace_run cs t1 = (rs2, t')" "rs = r # rs2"
    using Cons.prems(3) a by (auto simp: Let_def split: prod.splits)
  have "tl_path t1 = Some p" "tl_files t1 p = Some (f @ dumps (JObj r) @ [newline])"
    using trace_append_file [OF a] Cons.prems by (simp_all add: append_file_def)
  from Cons.IH [OF this b(1)] b(2) show ?case by simp
qed simp

definition call_ok :: "trace_call \<Rightarrow> bool" where
  "call_ok c = (json_ok (tc_category c) \<and> json_ok (tc_call c) \<and> list_all (\<lambda>kv. json_ok (snd kv)) (tc_details c))"

lemma json_ok_set: "json_ok v \<Longrightarrow> list_all (\<lambda>kv. json_ok (snd kv)) d \<Longrightarrow> list_all (\<lambda>kv. json_ok (snd kv)) (od_set k v d)"
  by (induction d) (auto simp: od_set_def)

lemma make_row_ok: "call_ok c \<Longrightarrow> json_ok (JObj (make_row t (tc_now c) (tc_category c) (tc_call c) (tc_details c)))"
  by (simp add: call_ok_def make_row_def json_ok_set)

lemma trace_run_rows: "trace_run cs t = (rs, t') \<Longrightarrow> list_all call_ok cs \<Longrightarrow> \<forall>r \<in> set rs. json_ok (JObj r)"
proof (induction cs arbitrary: t rs)
  case (Cons c cs)
  obtain r t1 where a: "trace_append c t = (r, t1)" by (cases "trace_append c t")
  then obtain rs2 where b: "trace_run cs t1 = (rs2, t')" "rs = r # rs2"
    using Cons.prems(1) by (auto simp: Let_def split: prod.splits)
  have "json_ok (JObj r)" using trace_append_file(3) [OF a] make_row_ok Cons.prems(2) by simp
  with Cons.IH [OF b(1)] Cons.prems(2) b(2) show ?case by simp
qed simp

text \<open>
  The file is complete whatever the live history evicted: when the first append of an
  epoch creates it, after any sequence of appends its lines are the JSON texts of all rows of
  the epoch, one row per line, in order, with nothing after the last line break.
\<close>

theorem trace_file_complete:
  assumes "tl_path t = None" and "trace_run (c # cs) t = (rs, t')" and "list_all call_ok (c # cs)"
    and "tl_files t (trace_path (tc_dir c) (tc_stamp c) (tl_epoch t)) = None"
  shows "\<exists>p f. tl_path t' = Some p \<and> tl_files t' p = Some f \<and> length rs = Suc (length cs)
     \<and> split_on newline f = map (\<lambda>r. dumps (JObj r)) rs @ [[]]"
proof -
  obtain r t1 where a: "trace_append c t = (r, t1)" by (cases "trace_append c t")
  then obtain rs2 where b: "trace_run cs t1 = (rs2, t')" "rs = r # rs2"
    using assms(2) by (auto simp: Let_def split: prod.splits)
  let ?p = "trace_path (tc_dir c) (tc_stamp c) (tl_epoch t)"
  have f: "tl_path t1 = Some ?p" "tl_files t1 ?p = Some (dumps (JObj r) @ [newline])"
    using trace_append_file [OF a] assms(1,4) by (simp_all add: append_file_def)
  from trace_run_file [OF f b(1)] have g: "tl_path t' = Some ?p"
    "tl_files t' ?p = Some (concat (map (\<lambda>l. l @ [newline]) (map (\<lambda>r. dumps (JObj r)) rs)))"
    using b(2) by (simp_all add: o_def)
  have "length rs2 = length cs" using b(1) by (induction cs arbitrary: t1 rs2) (auto simp: Let_def split: prod.splits)
  have "\<forall>r \<in> set rs. list_all plain (dumps (JObj r))"
    using trace_run_rows [OF assms(2,3)] plain_dumps by blast
  then have "\<forall>l \<in> set (map (\<lambda>r. dumps (JObj r)) rs). newline \<notin> set l"
    using newline_not_plain by (auto simp: list_all_iff)
  from split_lines [OF this] have "split_on newline (concat (map (\<lambda>l. l @ [newline]) (map (\<lambda>r. dumps (JObj r)) rs)))
      = map (\<lambda>r. dumps (JObj r)) rs @ [[]]" .
  then show ?thesis using g b(2) \<open>length rs2 = length cs\<close> by (intro exI conjI) simp_all
qed

lemma trace_file_complete_witness:
  "\<exists>f. tl_files (snd (trace_run [demo_call, demo_call] (trace_new 1 90 (\<lambda>_. None) ''e''))) ''/tmp/trace-1-e.jsonl'' = Some f
     \<and> length (split_on newline f) = 3"
proof -
  let ?t = "trace_new 1 90 (\<lambda>_. None) ''e''"
  obtain rs t' where r: "trace_run (demo_call # [demo_call]) ?t = (rs, t')" by (cases "trace_run (demo_call # [demo_call]) ?t")
  have "list_all call_ok (demo_call # [demo_call])" by code_simp
  from trace_file_complete [OF _ r this] obtain p f where
    "tl_path t' = Some p" "tl_files t' p = Some f" "length rs = 2" "split_on newline f = map (\<lambda>r. dumps (JObj r)) rs @ [[]]"
    by (auto simp: trace_new_def trace_reset_def)
  moreover have "tl_path (snd (trace_run [demo_call, demo_call] ?t)) = Some ''/tmp/trace-1-e.jsonl''" by code_simp
  ultimately show ?thesis using r by auto
qed

end
