(* ===== verification/HttpCapture.thy ===== *)
theory HttpCapture
  imports Prelude PyText
begin

text \<open>
  \<open>macdbg/core/http_capture.py\<close>: the passive parser that assembles HTTP/1 requests out of
  captured socket writes, one bounded stream per socket. The body record keeps the captured
  bytes as such (the code writes them as base64); the supplemental interpretations of a
  complete body (text, form fields, JSON, multipart parts), which rest on the \<open>email\<close> and
  \<open>codecs\<close> packages, are left out, and so is the content type that only they read.
\<close>

definition CAPTURE_LIMIT :: nat where "CAPTURE_LIMIT = 256 * 1024"
definition HEADER_LIMIT :: nat where "HEADER_LIMIT = 64 * 1024"
definition MAX_STREAMS :: int where "MAX_STREAMS = 64"

definition CRLF :: bytes where "CRLF = [val_byte 13, val_byte 10]"

definition is_token_char :: "char \<Rightarrow> bool" where
  "is_token_char c = (c \<in> set ''!#$%&*+.^_`|~-'' \<or> byte_val c = 39 \<or> is_digit c \<or> is_lower c \<or> is_upper c)"

definition is_token :: "bytes \<Rightarrow> bool" where
  "is_token s = (s \<noteq> [] \<and> list_all is_token_char s)"

text \<open>
  \<open>([^ ]{1,32}) ([^\x00-\x20\x7f]+) (HTTP/1\.[01])\<close>: no group holds a space, so the three
  are the pieces of \<open>split(b' ')\<close>.
\<close>

definition request_line :: "bytes \<Rightarrow> (bytes \<times> bytes \<times> bytes) option" where
  "request_line line =
     (case split_on CHR '' '' line of
        [m, u, v] \<Rightarrow>
          if 1 \<le> length m \<and> length m \<le> 32 \<and> u \<noteq> [] \<and> list_all (\<lambda>c. 32 < byte_val c \<and> byte_val c \<noteq> 127) u
             \<and> v \<in> {''HTTP/1.0'', ''HTTP/1.1''}
          then Some (m, u, v) else None
      | _ \<Rightarrow> None)"

type_synonym header = "string \<times> string"

text \<open>\<open>_headers\<close>\<close>

definition header_line :: "bytes \<Rightarrow> header res" where
  "header_line line =
     (case cut_at '':'' line of
        (_, None) \<Rightarrow> Inl (ValueError ''Malformed header line'')
      | (name, Some value) \<Rightarrow>
          if \<not> is_token name \<or> list_ex (\<lambda>c. byte_val c = 127 \<or> (byte_val c < 32 \<and> byte_val c \<noteq> 9)) value
          then Inl (ValueError ''Malformed header name or value'')
          else Inr (name, strip_by (\<lambda>c. byte_val c = 32 \<or> byte_val c = 9) value))"

definition parse_headers :: "bytes \<Rightarrow> header list res" where
  "parse_headers data = (if data = [] then Inr [] else mapR header_line (split_str CRLF data))"

section \<open>Records\<close>

datatype body_status = Complete | Incomplete | Truncated | Malformed | Unreadable | Unavailable

record body_rec =
  bo_data :: bytes
  bo_captured :: int
  bo_total :: "int option"
  bo_truncated :: bool
  bo_status :: body_status

text \<open>\<open>_record_bytes(data, total_length, ..., status)\<close>\<close>

definition record_bytes :: "bytes \<Rightarrow> int option \<Rightarrow> body_status option \<Rightarrow> body_rec" where
  "record_bytes data total_length status =
     (let captured = take CAPTURE_LIMIT data; available = int (length data);
          total = (case total_length of None \<Rightarrow> available | Some t \<Rightarrow> max available t);
          truncated = (int (length captured) < total \<or> status = Some Truncated);
          st = (case status of Some s \<Rightarrow> s | None \<Rightarrow> if truncated then Truncated else Complete)
      in \<lparr>bo_data = captured, bo_captured = int (length captured),
          bo_total = (if status = Some Unavailable \<and> total_length = None then None else Some total),
          bo_truncated = truncated, bo_status = (if truncated \<and> st = Complete then Truncated else st)\<rparr>)"

record 'k request =
  rq_method :: string
  rq_url :: string
  rq_version :: string
  rq_headers :: "header list"
  rq_trailers :: "header list option"
  rq_stream :: 'k
  rq_warnings :: "string list"
  rq_body :: "body_rec option"
  rq_complete :: bool

datatype mode = Headers | Fixed | ChunkSize | ChunkData | ChunkCrlf | Trailers

record 'k stream =
  sm_key :: 'k
  sm_buffer :: bytes
  sm_request :: "'k request option"
  sm_body :: bytes
  sm_body_seen :: int
  sm_mode :: mode
  sm_remaining :: nat
  sm_expected :: "nat option"

definition new_stream :: "'k \<Rightarrow> 'k stream" where
  "new_stream key = \<lparr>sm_key = key, sm_buffer = [], sm_request = None, sm_body = [], sm_body_seen = 0,
     sm_mode = Headers, sm_remaining = 0, sm_expected = None\<rparr>"

definition new_request_rec :: "'k \<Rightarrow> bytes \<times> bytes \<times> bytes \<Rightarrow> string list \<Rightarrow> 'k request" where
  "new_request_rec key = (\<lambda>(m, u, v) ws. \<lparr>rq_method = m, rq_url = u, rq_version = v, rq_headers = [],
     rq_trailers = None, rq_stream = key, rq_warnings = ws, rq_body = None, rq_complete = False\<rparr>)"

definition take_body :: "nat \<Rightarrow> 'k stream \<Rightarrow> 'k stream" where
  "take_body count s = s\<lparr>sm_body := sm_body s @ take (min count (CAPTURE_LIMIT - length (sm_body s))) (sm_buffer s),
     sm_buffer := drop count (sm_buffer s), sm_body_seen := sm_body_seen s + int count\<rparr>"

text \<open>The headers that can still be read from a cut-off block.\<close>

fun partial_headers :: "bytes list \<Rightarrow> header list" where
  "partial_headers [] = []"
| "partial_headers (h # hs) = (case parse_headers h of Inl _ \<Rightarrow> [] | Inr xs \<Rightarrow> xs @ partial_headers hs)"

text \<open>The request line of a stream whose headers are incomplete.\<close>

definition salvage :: "'k stream \<Rightarrow> 'k request option" where
  "salvage s =
     (let (line, rest) = cut_at CRLF (take HEADER_LIMIT (sm_buffer s)) in
      case rest of None \<Rightarrow> None
      | Some r \<Rightarrow> (case request_line line of None \<Rightarrow> None
          | Some (m, u, v) \<Rightarrow> if \<not> is_token m then None
              else Some ((new_request_rec (sm_key s) (m, u, v) [''Request headers are incomplete''])
                \<lparr>rq_headers := partial_headers (butlast (split_str CRLF r))\<rparr>)))"

definition limit_warning :: string where "limit_warning = ''Body capture limit exceeded''"

text \<open>\<open>_finish(stream, complete, status, warning)\<close>\<close>

definition finish :: "'k stream \<Rightarrow> bool \<Rightarrow> body_status option \<Rightarrow> string option \<Rightarrow> 'k request option" where
  "finish s complete status warning =
     (case (case sm_request s of Some r \<Rightarrow> Some r | None \<Rightarrow> salvage s) of None \<Rightarrow> None
      | Some r \<Rightarrow>
          let ws = rq_warnings r @ (case warning of None \<Rightarrow> [] | Some w \<Rightarrow> [w]);
              total = (case sm_expected s of Some n \<Rightarrow> int n | None \<Rightarrow> sm_body_seen s);
              st1 = (if sm_body_seen s > int CAPTURE_LIMIT \<and> status = None then Some Truncated else status);
              st2 = (case st1 of Some x \<Rightarrow> x | None \<Rightarrow> if complete then Complete else Incomplete);
              b0 = record_bytes (sm_body s) (Some total) (Some st2);
              b = (if \<not> complete \<and> sm_expected s = None then b0\<lparr>bo_total := None\<rparr> else b0)
          in Some (r\<lparr>rq_body := Some b, rq_complete := (complete \<and> bo_status b = Complete),
               rq_warnings := ws @ (if bo_truncated b \<and> limit_warning \<notin> set ws \<and> total > int CAPTURE_LIMIT
                 then [limit_warning] else [])\<rparr>))"

section \<open>Framing\<close>

definition header_values :: "string \<Rightarrow> header list \<Rightarrow> string list" where
  "header_values name hs = map snd (filter (\<lambda>(n, v). py_lower n = name) hs)"

definition list_items :: "string list \<Rightarrow> string list" where
  "list_items vs = concat (map (\<lambda>v. map py_strip (split_on CHR '','' v)) vs)"

text \<open>The framing of the body; both headers together, or a doubtful value, is refused.\<close>

definition is_length :: "string \<Rightarrow> bool" where
  "is_length n = (1 \<le> length n \<and> length n \<le> 19 \<and> list_all is_digit n)"

definition decimal :: "string \<Rightarrow> nat" where
  "decimal n = nat (the (py_int 10 n))"

definition framing :: "header list \<Rightarrow> nat option res" where
  "framing hs =
     (let lengths = header_values ''content-length'' hs; transfer = header_values ''transfer-encoding'' hs in
      if lengths \<noteq> [] \<and> transfer \<noteq> [] then Inl (ValueError ''Conflicting Transfer-Encoding and Content-Length'')
      else if transfer \<noteq> [] then
        (if map py_lower (list_items transfer) \<noteq> [''chunked'']
         then Inl (ValueError ''Unsupported or ambiguous Transfer-Encoding'') else Inr None)
      else let numbers = list_items lengths in
        if numbers \<noteq> [] \<and> (\<not> list_all is_length numbers \<or> length (remdups (map decimal numbers)) \<noteq> 1)
        then Inl (ValueError ''Invalid or conflicting Content-Length'')
        else Inr (Some (if numbers = [] then 0 else decimal (hd numbers))))"

definition type_warnings :: "header list \<Rightarrow> string list" where
  "type_warnings hs =
     (if length (header_values ''content-type'' hs) > 1
        then [''Multiple Content-Type headers; body interpretation disabled''] else [])
     @ (if list_ex (\<lambda>e. py_lower e \<noteq> ''identity'') (list_items (header_values ''content-encoding'' hs))
        then [''Encoded request body retained without decoding''] else [])"

text \<open>
  What one pass of the loop in \<open>_consume\<close> does to a stream: wait for more bytes, go on
  (with the requests completed), reject the stream silently, or fail with the message of a
  \<open>ValueError\<close> (and the stream as it was when it was raised).
\<close>

datatype 'k step = Wait "'k stream" | Go "'k stream" "'k request list" | Reject | Fail string "'k stream"

text \<open>\<open>_new_request(stream, block)\<close>\<close>

definition new_request :: "'k stream \<Rightarrow> bytes \<Rightarrow> 'k step" where
  "new_request s block =
     (let (line, rest) = cut_at CRLF block in
      case request_line line of None \<Rightarrow> Reject
      | Some (m, u, v) \<Rightarrow>
          if \<not> is_token m then Reject
          else let s1 = s\<lparr>sm_request := Some (new_request_rec (sm_key s) (m, u, v) [])\<rparr> in
            case parse_headers (case rest of None \<Rightarrow> [] | Some r \<Rightarrow> r) of
              Inl (ValueError e) \<Rightarrow> Fail e s1 | Inl _ \<Rightarrow> Fail [] s1
            | Inr hs \<Rightarrow>
                let s2 = s1\<lparr>sm_request := Some ((new_request_rec (sm_key s) (m, u, v) [])
                      \<lparr>rq_headers := hs, rq_warnings := type_warnings hs\<rparr>)\<rparr> in
                (case framing hs of
                   Inl (ValueError e) \<Rightarrow> Fail e s2 | Inl _ \<Rightarrow> Fail [] s2
                 | Inr None \<Rightarrow> Go (s2\<lparr>sm_mode := ChunkSize\<rparr>) []
                 | Inr (Some n) \<Rightarrow> Go (s2\<lparr>sm_expected := Some n, sm_remaining := n, sm_mode := Fixed\<rparr>) []))"

text \<open>\<open>_complete(stream, result)\<close>\<close>

definition complete_request :: "'k stream \<Rightarrow> 'k step" where
  "complete_request s = Go (s\<lparr>sm_request := None, sm_body := [], sm_body_seen := 0, sm_mode := Headers,
     sm_expected := None\<rparr>) (case finish s True None None of None \<Rightarrow> [] | Some r \<Rightarrow> [r])"

definition header_step :: "'k stream \<Rightarrow> 'k step" where
  "header_step s =
     (case py_find (CRLF @ CRLF) (sm_buffer s) of
        None \<Rightarrow>
          if length (sm_buffer s) > HEADER_LIMIT then Fail ''HTTP header capture limit exceeded'' s
          else let prefix = hd (split_on CHR '' '' (sm_buffer s)) in
            if prefix \<noteq> [] \<and> (length prefix > 32 \<or> \<not> is_token prefix) then Reject else Wait s
      | Some e \<Rightarrow>
          if e + 4 > HEADER_LIMIT then Fail ''HTTP header capture limit exceeded'' s
          else new_request (s\<lparr>sm_buffer := drop (e + 4) (sm_buffer s)\<rparr>) (take e (sm_buffer s)))"

text \<open>The body bytes at hand, up to what remains.\<close>

definition eat_body :: "'k stream \<Rightarrow> 'k stream" where
  "eat_body s = (let count = min (length (sm_buffer s)) (sm_remaining s) in
     (take_body count s)\<lparr>sm_remaining := sm_remaining s - count\<rparr>)"

definition fixed_step :: "'k stream \<Rightarrow> 'k step" where
  "fixed_step s = (let s1 = eat_body s in if sm_remaining s1 \<noteq> 0 then Wait s1 else complete_request s1)"

definition hex_number :: "bytes \<Rightarrow> nat option" where
  "hex_number t = (if 1 \<le> length t \<and> length t \<le> 16 \<and> list_all is_xdigit t then map_option nat (py_int 16 t) else None)"

definition chunk_size_step :: "'k stream \<Rightarrow> 'k step" where
  "chunk_size_step s =
     (case py_find CRLF (sm_buffer s) of
        None \<Rightarrow> if length (sm_buffer s) > 8192 then Fail ''Chunk size line capture limit exceeded'' s else Wait s
      | Some e \<Rightarrow>
          let s1 = s\<lparr>sm_buffer := drop (e + 2) (sm_buffer s)\<rparr> in
          if e > 8192 then Fail ''Chunk size line capture limit exceeded'' s1
          else (case hex_number (hd (split_on CHR '';'' (take e (sm_buffer s)))) of
              None \<Rightarrow> Fail ''Malformed chunk size'' s1
            | Some n \<Rightarrow> Go (s1\<lparr>sm_remaining := n, sm_mode := (if n \<noteq> 0 then ChunkData else Trailers)\<rparr>) []))"

definition data_step :: "'k stream \<Rightarrow> 'k step" where
  "data_step s = (let s1 = eat_body s in if sm_remaining s1 \<noteq> 0 then Wait s1 else Go (s1\<lparr>sm_mode := ChunkCrlf\<rparr>) [])"

definition crlf_step :: "'k stream \<Rightarrow> 'k step" where
  "crlf_step s =
     (if length (sm_buffer s) < 2 then Wait s
      else if take 2 (sm_buffer s) \<noteq> CRLF then Fail ''Missing chunk terminator'' s
      else Go (s\<lparr>sm_buffer := drop 2 (sm_buffer s), sm_mode := ChunkSize\<rparr>) [])"

definition framing_names :: "string list" where "framing_names = [''content-length'', ''transfer-encoding'']"

definition trailer_step :: "'k stream \<Rightarrow> 'k step" where
  "trailer_step s =
     (if take 2 (sm_buffer s) = CRLF then complete_request (s\<lparr>sm_buffer := drop 2 (sm_buffer s)\<rparr>)
      else case py_find (CRLF @ CRLF) (sm_buffer s) of
        None \<Rightarrow> if length (sm_buffer s) > HEADER_LIMIT then Fail ''Trailer capture limit exceeded'' s else Wait s
      | Some e \<Rightarrow>
          if e + 4 > HEADER_LIMIT then Fail ''Trailer capture limit exceeded'' s
          else (case parse_headers (take e (sm_buffer s)) of
              Inl (ValueError m) \<Rightarrow> Fail m s | Inl _ \<Rightarrow> Fail [] s
            | Inr hs \<Rightarrow>
                let s1 = s\<lparr>sm_request := map_option (\<lambda>r. r\<lparr>rq_trailers := Some hs\<rparr>) (sm_request s)\<rparr> in
                if list_ex (\<lambda>(n, v). py_lower n \<in> set framing_names) hs
                then Fail ''Framing header is not allowed in trailers'' s1
                else complete_request (s1\<lparr>sm_buffer := drop (e + 4) (sm_buffer s)\<rparr>)))"

definition stream_step :: "'k stream \<Rightarrow> 'k step" where
  "stream_step s = (case sm_mode s of Headers \<Rightarrow> header_step s | Fixed \<Rightarrow> fixed_step s | ChunkSize \<Rightarrow> chunk_size_step s
     | ChunkData \<Rightarrow> data_step s | ChunkCrlf \<Rightarrow> crlf_step s | Trailers \<Rightarrow> trailer_step s)"

text \<open>Every pass of the loop consumes bytes or leaves the body.\<close>

definition mode_rank :: "mode \<Rightarrow> nat" where
  "mode_rank m = (case m of Fixed \<Rightarrow> 1 | ChunkData \<Rightarrow> 1 | _ \<Rightarrow> 0)"

definition weight :: "'k stream \<Rightarrow> nat" where
  "weight s = 2 * length (sm_buffer s) + mode_rank (sm_mode s)"

lemma complete_request_Go:
  "\<exists>rs. complete_request s = Go (s\<lparr>sm_request := None, sm_body := [], sm_body_seen := 0, sm_mode := Headers, sm_expected := None\<rparr>) rs"
  by (simp add: complete_request_def)

lemma complete_request_buffer: "complete_request s = Go s' rs \<Longrightarrow> sm_buffer s' = sm_buffer s \<and> sm_mode s' = Headers"
  by (auto simp: complete_request_def)

lemma eat_body_buffer [simp]: "sm_buffer (eat_body s) = drop (min (length (sm_buffer s)) (sm_remaining s)) (sm_buffer s)"
  by (simp add: eat_body_def take_body_def Let_def)

lemma new_request_Go: "new_request s block = Go s' rs \<Longrightarrow> sm_buffer s' = sm_buffer s \<and> rs = []"
  by (auto simp: new_request_def Let_def split: prod.splits option.splits if_splits sum.splits exn.splits)

lemma CRLF_length [simp]: "length CRLF = 2" by (simp add: CRLF_def)

lemma header_step_progress:
  assumes "header_step s = Go s' rs" shows "length (sm_buffer s') + 4 \<le> length (sm_buffer s)"
proof -
  obtain e where e: "py_find (CRLF @ CRLF) (sm_buffer s) = Some e"
    and "new_request (s\<lparr>sm_buffer := drop (e + 4) (sm_buffer s)\<rparr>) (take e (sm_buffer s)) = Go s' rs"
    using assms by (auto simp: header_step_def Let_def split: option.splits if_splits)
  with new_request_Go [OF this(2)] py_find_bound [OF e] show ?thesis by simp
qed

lemma mode_rank_le: "mode_rank m \<le> 1"
  by (simp add: mode_rank_def split: mode.split)

lemma weight_less: "length (sm_buffer s') + 2 \<le> length (sm_buffer s) \<Longrightarrow> weight s' < weight s"
  using mode_rank_le [of "sm_mode s'"] unfolding weight_def by linarith

lemma trailer_step_progress:
  assumes "trailer_step s = Go s' rs" shows "length (sm_buffer s') + 2 \<le> length (sm_buffer s)"
proof (cases "take 2 (sm_buffer s) = CRLF")
  case True
  then have "complete_request (s\<lparr>sm_buffer := drop 2 (sm_buffer s)\<rparr>) = Go s' rs"
    using assms by (simp add: trailer_step_def)
  moreover have "2 \<le> length (sm_buffer s)" using True CRLF_length by (metis length_take min.cobounded1)
  ultimately show ?thesis using complete_request_buffer by force
next
  case False
  obtain e s1 where e: "py_find (CRLF @ CRLF) (sm_buffer s) = Some e"
    and "complete_request (s1\<lparr>sm_buffer := drop (e + 4) (sm_buffer s)\<rparr>) = Go s' rs"
    using assms False
    by (auto simp: trailer_step_def Let_def split: option.splits if_splits sum.splits exn.splits)
  with complete_request_buffer [OF this(2)] py_find_bound [OF e] show ?thesis by simp
qed

lemma stream_step_progress:
  assumes "stream_step s = Go s' rs"
  shows "weight s' < weight s"
proof (cases "sm_mode s")
  case Headers
  with assms have "header_step s = Go s' rs" by (simp add: stream_step_def)
  from header_step_progress [OF this] show ?thesis by (intro weight_less) simp
next
  case Fixed
  with assms have "complete_request (eat_body s) = Go s' rs"
    by (auto simp: stream_step_def fixed_step_def Let_def split: if_splits)
  from complete_request_buffer [OF this] Fixed show ?thesis by (simp add: weight_def mode_rank_def)
next
  case ChunkSize
  with assms have g: "chunk_size_step s = Go s' rs" by (simp add: stream_step_def)
  then obtain e where e: "py_find CRLF (sm_buffer s) = Some e" "sm_buffer s' = drop (e + 2) (sm_buffer s)"
    by (auto simp: chunk_size_step_def Let_def split: option.splits if_splits)
  with py_find_bound [OF e(1)] show ?thesis by (intro weight_less) simp
next
  case ChunkData
  with assms show ?thesis
    by (auto simp: stream_step_def data_step_def Let_def weight_def mode_rank_def split: if_splits)
next
  case ChunkCrlf
  with assms show ?thesis
    by (intro weight_less) (auto simp: stream_step_def crlf_step_def split: if_splits)
next
  case Trailers
  with assms have "trailer_step s = Go s' rs" by (simp add: stream_step_def)
  from trailer_step_progress [OF this] show ?thesis by (rule weight_less)
qed

text \<open>\<open>_consume(stream, result)\<close>: the requests completed, and the stream unless it is invalid.\<close>

definition failure :: "string \<Rightarrow> 'k stream \<Rightarrow> 'k request list" where
  "failure msg s =
     (case finish s False (Some (if py_find ''capture limit exceeded'' msg \<noteq> None then Truncated else Malformed)) (Some msg) of
        None \<Rightarrow> [] | Some r \<Rightarrow> [r])"

function consume :: "'k stream \<Rightarrow> 'k request list \<times> 'k stream option" where
  "consume s = (case stream_step s of
       Wait s' \<Rightarrow> ([], Some s')
     | Go s' rs \<Rightarrow> (let (qs, r) = consume s' in (rs @ qs, r))
     | Reject \<Rightarrow> ([], None)
     | Fail msg s' \<Rightarrow> (failure msg s', None))"
  by auto
termination
  by (relation "measure weight") (auto intro: stream_step_progress)

declare consume.simps [simp del]

section \<open>The capture\<close>

record 'k capture =
  cp_max :: int
  cp_streams :: "('k, 'k stream) odict"

definition new_capture :: "int \<Rightarrow> 'k capture" where
  "new_capture max_streams = \<lparr>cp_max = max 1 (min MAX_STREAMS max_streams), cp_streams = []\<rparr>"

definition cp_reset :: "'k capture \<Rightarrow> 'k capture" where "cp_reset c = c\<lparr>cp_streams := []\<rparr>"
definition cp_discard :: "'k \<Rightarrow> 'k capture \<Rightarrow> 'k capture" where
  "cp_discard key c = c\<lparr>cp_streams := od_pop key (cp_streams c)\<rparr>"
definition has_pending :: "'k \<Rightarrow> 'k capture \<Rightarrow> bool" where
  "has_pending key c = (key \<in> fst ` set (cp_streams c))"

definition flush_one :: "'k stream \<Rightarrow> 'k request list" where
  "flush_one s = (case finish s False None (Some ''Stream ended before request completed'') of None \<Rightarrow> [] | Some r \<Rightarrow> [r])"

text \<open>\<open>flush(key)\<close> and \<open>flush()\<close>.\<close>

definition cp_flush :: "'k option \<Rightarrow> 'k capture \<Rightarrow> 'k request list \<times> 'k capture" where
  "cp_flush key c = (case key of
       None \<Rightarrow> (concat (map (\<lambda>(k, s). flush_one s) (cp_streams c)), c\<lparr>cp_streams := []\<rparr>)
     | Some k \<Rightarrow> (case map_of (cp_streams c) k of None \<Rightarrow> [] | Some s \<Rightarrow> flush_one s, cp_discard k c))"

text \<open>The oldest streams go while there are more than the limit.\<close>

fun evict_streams :: "int \<Rightarrow> ('k, 'k stream) odict \<Rightarrow> 'k request list \<times> ('k, 'k stream) odict" where
  "evict_streams limit [] = ([], [])"
| "evict_streams limit ((k, s) # d) =
     (if int (length ((k, s) # d)) > limit then
        (let (rs, d') = evict_streams limit d in
          ((case finish s False None (Some ''Stream evicted at capture stream limit'') of None \<Rightarrow> [] | Some r \<Rightarrow> [r]) @ rs, d'))
      else ([], (k, s) # d))"

function pieces :: "nat \<Rightarrow> bytes \<Rightarrow> bytes list" where
  "pieces n data = (if data = [] \<or> n = 0 then [] else take n data # pieces n (drop n data))"
  by auto
termination by (relation "measure (\<lambda>(n, d). length d)") auto

declare pieces.simps [simp del]

fun feed_pieces :: "bytes list \<Rightarrow> 'k stream \<Rightarrow> 'k request list \<times> 'k stream option" where
  "feed_pieces [] s = ([], Some s)"
| "feed_pieces (p # ps) s =
     (case consume (s\<lparr>sm_buffer := sm_buffer s @ p\<rparr>) of
        (rs, None) \<Rightarrow> (rs, None)
      | (rs, Some s') \<Rightarrow> (let (qs, r) = feed_pieces ps s' in (rs @ qs, r)))"

definition feed_stream :: "'k \<Rightarrow> bytes \<Rightarrow> int option \<Rightarrow> 'k capture \<Rightarrow> 'k stream \<Rightarrow> 'k request list \<times> 'k capture" where
  "feed_stream key data total_length c s =
     (let (rs1, d) = evict_streams (cp_max c) (od_pop key (cp_streams c) @ [(key, s)]);
          c1 = c\<lparr>cp_streams := d\<rparr>;
          (rs2, so) = feed_pieces (pieces 16384 data) s in
      case so of None \<Rightarrow> (rs1 @ rs2, cp_discard key c1)
      | Some s' \<Rightarrow>
          if (case total_length of None \<Rightarrow> False | Some t \<Rightarrow> t > int (length data)) then
            (rs1 @ rs2 @ (case finish s' False (Some Truncated) (Some ''Payload read was short; stream has missing bytes'')
               of None \<Rightarrow> [] | Some r \<Rightarrow> [r]), cp_discard key c1)
          else (rs1 @ rs2, if sm_request s' = None \<and> sm_buffer s' = [] then cp_discard key c1
             else c1\<lparr>cp_streams := od_set key s' d\<rparr>))"

text \<open>\<open>feed(key, data, total_length)\<close>\<close>

definition feed :: "'k \<Rightarrow> bytes \<Rightarrow> int option \<Rightarrow> 'k capture \<Rightarrow> 'k request list \<times> 'k capture" where
  "feed key data total_length c =
     (case map_of (cp_streams c) key of
        None \<Rightarrow> if data = [] then ([], c) else feed_stream key data total_length c (new_stream key)
      | Some s \<Rightarrow> feed_stream key data total_length c s)"


section \<open>Every stream stays within its limits\<close>

text \<open>
  Between passes: the body is within its limit, a stream outside the header mode has a
  request, and one in the header mode is a new stream but for its buffer.
\<close>

definition stream_ok :: "'k stream \<Rightarrow> bool" where
  "stream_ok s = (length (sm_body s) \<le> CAPTURE_LIMIT
     \<and> (sm_mode s = Headers \<longrightarrow> sm_request s = None \<and> sm_body s = [] \<and> sm_body_seen s = 0 \<and> sm_expected s = None)
     \<and> (sm_mode s \<noteq> Headers \<longrightarrow> sm_request s \<noteq> None)
     \<and> (sm_mode s \<in> {Headers, ChunkSize, ChunkCrlf, Trailers} \<longrightarrow> sm_remaining s = 0))"

definition step_ok :: "'k stream \<Rightarrow> 'k step \<Rightarrow> bool" where
  "step_ok s st = (case st of
       Wait s' \<Rightarrow> stream_ok s' \<and> sm_key s' = sm_key s \<and> length (sm_buffer s') \<le> HEADER_LIMIT
     | Go s' rs \<Rightarrow> stream_ok s' \<and> sm_key s' = sm_key s | _ \<Rightarrow> True)"

lemma limits: "CAPTURE_LIMIT = 262144" "HEADER_LIMIT = 65536"
  by (simp_all add: CAPTURE_LIMIT_def HEADER_LIMIT_def)

lemma eat_body_ok:
  "sm_key (eat_body s) = sm_key s" "sm_mode (eat_body s) = sm_mode s" "sm_request (eat_body s) = sm_request s"
  "length (sm_body s) \<le> CAPTURE_LIMIT \<Longrightarrow> length (sm_body (eat_body s)) \<le> CAPTURE_LIMIT"
  "sm_remaining (eat_body s) \<noteq> 0 \<Longrightarrow> sm_buffer (eat_body s) = []"
  "sm_remaining (eat_body s) = sm_remaining s - min (length (sm_buffer s)) (sm_remaining s)"
  by (simp_all add: eat_body_def take_body_def Let_def)

lemma complete_request_ok: "sm_remaining s = 0 \<Longrightarrow> step_ok s (complete_request s)"
  by (simp add: complete_request_def step_ok_def stream_ok_def new_stream_def)

lemma new_request_ok: "stream_ok s \<Longrightarrow> sm_mode s = Headers \<Longrightarrow> step_ok s (new_request s block)"
  by (auto simp: new_request_def step_ok_def stream_ok_def Let_def new_stream_def CAPTURE_LIMIT_def
      split: prod.splits option.splits sum.splits exn.splits)

lemma step_ok_key: "sm_key s = sm_key t \<Longrightarrow> step_ok s st \<longleftrightarrow> step_ok t st"
  by (simp add: step_ok_def split: step.splits)

lemma stream_step_ok:
  assumes "stream_ok s" shows "step_ok s (stream_step s)"
proof (cases "sm_mode s")
  case Headers
  then have b: "stream_ok (s\<lparr>sm_buffer := b\<rparr>)" for b
    using assms by (simp add: stream_ok_def)
  show ?thesis
  proof (cases "py_find (CRLF @ CRLF) (sm_buffer s)")
    case None
    with assms Headers show ?thesis
      by (simp add: stream_step_def header_step_def step_ok_def Let_def)
  next
    case (Some e)
    have "step_ok s (new_request (s\<lparr>sm_buffer := drop (e + 4) (sm_buffer s)\<rparr>) (take e (sm_buffer s)))"
      using new_request_ok [OF b, of "drop (e + 4) (sm_buffer s)" "take e (sm_buffer s)"] Headers
        step_ok_key [of s "s\<lparr>sm_buffer := drop (e + 4) (sm_buffer s)\<rparr>"] by simp
    with Some Headers show ?thesis by (simp add: stream_step_def header_step_def step_ok_def)
  qed
next
  case Fixed
  show ?thesis
  proof (cases "sm_remaining (eat_body s) = 0")
    case True
    with complete_request_ok [OF True] Fixed step_ok_key [of s "eat_body s"] show ?thesis
      by (simp add: stream_step_def fixed_step_def Let_def eat_body_ok)
  next
    case False
    with assms Fixed eat_body_ok [of s] show ?thesis
      by (simp add: stream_step_def fixed_step_def step_ok_def Let_def stream_ok_def)
  qed
next
  case ChunkSize
  with assms show ?thesis
    by (auto simp: stream_step_def chunk_size_step_def step_ok_def Let_def stream_ok_def limits split: option.splits)
next
  case ChunkData
  with assms eat_body_ok [of s] show ?thesis
    by (auto simp: stream_step_def data_step_def step_ok_def Let_def stream_ok_def)
next
  case ChunkCrlf
  with assms show ?thesis
    by (auto simp: stream_step_def crlf_step_def step_ok_def Let_def stream_ok_def limits)
next
  case Trailers
  have c: "step_ok s (complete_request t)" if "sm_key t = sm_key s" "sm_remaining t = 0" for t
    using complete_request_ok [OF that(2)] step_ok_key [of s t] that(1) by simp
  have "sm_remaining s = 0" using assms Trailers by (simp add: stream_ok_def)
  with c assms Trailers show ?thesis
    by (auto simp: stream_step_def trailer_step_def Let_def split: option.splits sum.splits exn.splits)
      (auto simp: step_ok_def)
qed

lemma consume_ok:
  assumes "stream_ok s" and "consume s = (rs, Some s')"
  shows "stream_ok s' \<and> sm_key s' = sm_key s \<and> length (sm_buffer s') \<le> HEADER_LIMIT"
  using assms
proof (induction s arbitrary: rs s' rule: consume.induct)
  case (1 s)
  have ok: "step_ok s (stream_step s)" by (rule stream_step_ok [OF "1.prems"(1)])
  show ?case
  proof (cases "stream_step s")
    case (Go t qs)
    then obtain q where "consume t = (q, Some s')"
      using "1.prems"(2) by (simp add: consume.simps [of s] Let_def split: prod.splits)
    from "1.IH" [OF Go _ this] ok Go show ?thesis by (simp add: step_ok_def)
  qed (use ok "1.prems"(2) in \<open>simp_all add: step_ok_def consume.simps [of s]\<close>)
qed

lemma stream_ok_buffer: "stream_ok s \<Longrightarrow> stream_ok (s\<lparr>sm_buffer := b\<rparr>)"
  by (simp add: stream_ok_def)

lemma feed_pieces_ok:
  assumes "stream_ok s" and "length (sm_buffer s) \<le> HEADER_LIMIT" and "feed_pieces ps s = (rs, Some s')"
  shows "stream_ok s' \<and> sm_key s' = sm_key s \<and> length (sm_buffer s') \<le> HEADER_LIMIT"
  using assms
proof (induction ps arbitrary: s rs)
  case (Cons p ps)
  obtain r1 t where t: "consume (s\<lparr>sm_buffer := sm_buffer s @ p\<rparr>) = (r1, Some t)"
    and r: "\<exists>q. feed_pieces ps t = (q, Some s')"
    using Cons.prems(3) by (auto simp: Let_def split: prod.splits option.splits)
  from consume_ok [OF stream_ok_buffer [OF Cons.prems(1)] t] Cons.IH r show ?case by fastforce
qed simp

definition capture_ok :: "'k capture \<Rightarrow> bool" where
  "capture_ok c = (od_ok (cp_streams c) \<and> int (length (cp_streams c)) \<le> cp_max c \<and> 1 \<le> cp_max c \<and> cp_max c \<le> 64
     \<and> (\<forall>(k, s) \<in> set (cp_streams c). stream_ok s \<and> sm_key s = k \<and> length (sm_buffer s) \<le> HEADER_LIMIT))"

lemma evict_streams_suffix: "suffix (snd (evict_streams n d)) d"
  by (induction n d rule: evict_streams.induct) (auto simp: Let_def suffix_ConsI split: prod.splits)

lemma evict_streams_length: "0 \<le> n \<Longrightarrow> int (length (snd (evict_streams n d))) \<le> n"
  by (induction n d rule: evict_streams.induct) (auto simp: Let_def split: prod.splits)

lemma evict_streams_idle: "int (length d) \<le> n \<Longrightarrow> evict_streams n d = ([], d)"
  by (cases d) auto


lemma capture_ok_pop: "capture_ok c \<Longrightarrow> capture_ok (cp_discard k c)"
proof -
  assume c: "capture_ok c"
  have "length (od_pop k (cp_streams c)) \<le> length (cp_streams c)" by (simp add: od_pop_def)
  moreover have "set (od_pop k (cp_streams c)) \<subseteq> set (cp_streams c)" by (auto simp: od_pop_def)
  ultimately show ?thesis using c by (auto simp: capture_ok_def cp_discard_def dict_simps)
qed

lemma stream_ok_new: "stream_ok (new_stream k)"
  by (simp add: stream_ok_def new_stream_def)

lemma od_set_members: "(k', v') \<in> set (od_set k v d) \<Longrightarrow> (k', v') = (k, v) \<or> (k', v') \<in> set d"
  by (induction d) (auto simp: od_set_def split: if_splits)

lemma od_set_length: "k \<in> fst ` set d \<Longrightarrow> length (od_set k v d) = length d"
  by (induction d) (auto simp: od_set_def)

text \<open>The streams after the eviction that opens a \<open>feed\<close>: the fed one is the newest.\<close>

lemma evicted_streams:
  assumes "capture_ok c" and "stream_ok s" and "sm_key s = key" and "length (sm_buffer s) \<le> HEADER_LIMIT"
    and "evict_streams (cp_max c) (od_pop key (cp_streams c) @ [(key, s)]) = (rs, d)"
  shows "capture_ok (c\<lparr>cp_streams := d\<rparr>) \<and> (\<exists>d'. d = d' @ [(key, s)] \<and> key \<notin> fst ` set d')"
proof -
  let ?d = "od_pop key (cp_streams c) @ [(key, s)]"
  have sfx: "suffix d ?d" and len: "int (length d) \<le> cp_max c"
    using evict_streams_suffix [of "cp_max c" ?d] evict_streams_length [of "cp_max c" ?d] assms(1,5)
    by (simp_all add: capture_ok_def)
  have dis: "distinct (map fst ?d)"
    using assms(1) by (auto simp: capture_ok_def od_ok_def od_pop_def distinct_map_filter)
  have "d \<noteq> []"
  proof
    assume "d = []"
    moreover have "int (length ?d) > 0 \<Longrightarrow> snd (evict_streams (cp_max c) ?d) \<noteq> []"
    proof -
      have "snd (evict_streams n (xs @ [x])) \<noteq> []" if "1 \<le> n" for n xs and x :: "'a \<times> 'a stream"
      proof (induction xs)
        case Nil
        then show ?case using that by (cases x) simp
      next
        case (Cons y ys)
        then show ?case by (cases y) (auto simp: Let_def split: prod.splits)
      qed
      then show ?thesis using assms(1) by (simp add: capture_ok_def)
    qed
    ultimately show False using assms(5) by simp
  qed
  then obtain d' x where d': "d = d' @ [x]" by (cases d rule: rev_cases) auto
  obtain z where z: "?d = z @ d" using sfx by (auto simp: suffix_def)
  then have x: "x = (key, s)" using d' by simp
  have "key \<notin> fst ` set d'" using dis z d' x by auto
  moreover have "capture_ok (c\<lparr>cp_streams := d\<rparr>)"
  proof -
    have "set d \<subseteq> set ?d" using sfx by (rule set_mono_suffix)
    moreover have "distinct (map fst d)" using dis z by simp
    ultimately show ?thesis using assms len
      by (fastforce simp: capture_ok_def od_ok_def od_pop_def)
  qed
  ultimately show ?thesis using d' x by blast
qed

lemma feed_stream_ok:
  assumes "capture_ok c" and "stream_ok s" and "sm_key s = key" and "length (sm_buffer s) \<le> HEADER_LIMIT"
  shows "capture_ok (snd (feed_stream key data tot c s))"
proof -
  obtain rs d where d: "evict_streams (cp_max c) (od_pop key (cp_streams c) @ [(key, s)]) = (rs, d)" by fastforce
  from evicted_streams [OF assms d] obtain d' where c1: "capture_ok (c\<lparr>cp_streams := d\<rparr>)" and d': "d = d' @ [(key, s)]"
    by blast
  obtain rs2 so where f: "feed_pieces (pieces 16384 data) s = (rs2, so)" by fastforce
  have "capture_ok (c\<lparr>cp_streams := od_set key s' d\<rparr>)" if "so = Some s'" for s'
  proof -
    have "stream_ok s' \<and> sm_key s' = key \<and> length (sm_buffer s') \<le> HEADER_LIMIT"
      using feed_pieces_ok [OF assms(2,4)] f that assms(3) by blast
    then show ?thesis using c1 od_set_length [of key d s'] d'
      by (auto simp: capture_ok_def dict_simps dest!: od_set_members)
  qed
  with c1 capture_ok_pop [OF c1, of key] d f show ?thesis
    by (auto simp: feed_stream_def Let_def split: option.splits)
qed

lemma feed_ok: "capture_ok c \<Longrightarrow> capture_ok (snd (feed key data tot c))"
proof -
  assume c: "capture_ok c"
  show ?thesis
  proof (cases "map_of (cp_streams c) key")
    case None
    with c feed_stream_ok [OF c stream_ok_new] show ?thesis
      by (simp add: feed_def new_stream_def)
  next
    case (Some s)
    then have "(key, s) \<in> set (cp_streams c)" by (rule map_of_SomeD)
    with c have "stream_ok s" "sm_key s = key" "length (sm_buffer s) \<le> HEADER_LIMIT"
      by (auto simp: capture_ok_def)
    from feed_stream_ok [OF c this] Some show ?thesis by (simp add: feed_def)
  qed
qed

inductive capture_reachable :: "'k capture \<Rightarrow> bool" where
  new: "capture_reachable (new_capture n)"
| feed: "capture_reachable c \<Longrightarrow> capture_reachable (snd (feed key data tot c))"
| flush: "capture_reachable c \<Longrightarrow> capture_reachable (snd (cp_flush k c))"
| discard: "capture_reachable c \<Longrightarrow> capture_reachable (cp_discard key c)"
| reset: "capture_reachable c \<Longrightarrow> capture_reachable (cp_reset c)"

lemma capture_reachable_ok: "capture_reachable c \<Longrightarrow> capture_ok c"
proof (induction rule: capture_reachable.induct)
  case (flush c k)
  then show ?case using capture_ok_pop [of c]
    by (auto simp: cp_flush_def split: option.splits) (auto simp: capture_ok_def od_ok_def)
next
  case (feed c key data tot)
  then show ?case by (intro feed_ok)
next
  case (discard c key)
  then show ?case by (intro capture_ok_pop)
qed (simp_all add: capture_ok_def new_capture_def cp_reset_def od_ok_def MAX_STREAMS_def)

text \<open>
  Memory is bounded whatever the target sends: after any sequence of feeds, flushes,
  discards and resets there are at most 64 streams, one per key, and each holds at most
  64 KiB of unparsed bytes and 256 KiB of body.
\<close>

theorem http_capture_bounded:
  assumes "capture_reachable c"
  shows "length (cp_streams c) \<le> 64 \<and> distinct (map fst (cp_streams c))
    \<and> (\<forall>(k, s) \<in> set (cp_streams c). sm_key s = k \<and> length (sm_buffer s) \<le> 65536 \<and> length (sm_body s) \<le> 262144)"
  using capture_reachable_ok [OF assms] by (auto simp: capture_ok_def od_ok_def stream_ok_def limits)

lemma http_capture_bounded_witness:
  "length (cp_streams (snd (feed (7 :: int) ''GET / HT'' None (new_capture 2)))) \<le> 64"
  using http_capture_bounded [OF capture_reachable.feed [OF capture_reachable.new, of "7 :: int" "''GET / HT''" None 2]] by simp


section \<open>How a request is cut into writes does not matter\<close>

definition more :: "bytes \<Rightarrow> 'k stream \<Rightarrow> 'k stream" where
  "more y s = s\<lparr>sm_buffer := sm_buffer s @ y\<rparr>"

lemma more_simps [simp]:
  "sm_key (more y s) = sm_key s" "sm_buffer (more y s) = sm_buffer s @ y" "sm_request (more y s) = sm_request s"
  "sm_body (more y s) = sm_body s" "sm_body_seen (more y s) = sm_body_seen s" "sm_mode (more y s) = sm_mode s"
  "sm_remaining (more y s) = sm_remaining s" "sm_expected (more y s) = sm_expected s"
  by (simp_all add: more_def)

lemma stream_ok_more: "stream_ok s \<Longrightarrow> stream_ok (more y s)"
  by (simp add: stream_ok_def)

lemma finish_more: "sm_request s \<noteq> None \<Longrightarrow> finish (more y s) cmp st w = finish s cmp st w"
  by (cases "sm_request s") (simp_all add: finish_def cong: option.case_cong)

lemma complete_more:
  "sm_request s \<noteq> None \<Longrightarrow> complete_request s = Go s' rs \<Longrightarrow> complete_request (more y s) = Go (more y s') rs"
  by (auto simp: complete_request_def finish_more more_def [of y "s\<lparr>sm_request := None, sm_body := r, sm_body_seen := i, sm_mode := m, sm_expected := e\<rparr>" for r i m e])

lemma eat_body_more:
  assumes "sm_remaining s \<le> length (sm_buffer s)" shows "eat_body (more y s) = more y (eat_body s)"
  using assms by (simp add: eat_body_def take_body_def Let_def more_def)

lemma eat_body_eq:
  "min (length (sm_buffer t)) (sm_remaining t) = n \<Longrightarrow> eat_body t = t\<lparr>
     sm_body := sm_body t @ take (min n (CAPTURE_LIMIT - length (sm_body t))) (sm_buffer t),
     sm_buffer := drop n (sm_buffer t), sm_body_seen := sm_body_seen t + int n, sm_remaining := sm_remaining t - n\<rparr>"
  by (simp add: eat_body_def take_body_def Let_def)

lemma eat_body_all:
  assumes "length (sm_buffer s) \<le> sm_remaining s"
  shows "eat_body (more y (eat_body s)) = eat_body (more y s)"
proof -
  define n where "n = length (sm_buffer s)"
  define room where "room = CAPTURE_LIMIT - length (sm_body s)"
  define k where "k = min (length y) (sm_remaining s - n)"
  define b where "b = take (min n room) (sm_buffer s)"
  have lb: "length b = min n room" by (simp add: b_def n_def)
  have rest: "CAPTURE_LIMIT - length (sm_body s @ b) = room - min n room" by (simp add: room_def lb)
  have tk: "b @ take (min k (room - min n room)) y = take (min (n + k) room) (sm_buffer s @ y)"
    by (cases "room \<le> n") (auto simp: b_def n_def min_def)
  have m1: "min (length (sm_buffer s)) (sm_remaining s) = n" using assms by (simp add: n_def)
  have e1: "eat_body s = s\<lparr>sm_body := sm_body s @ b, sm_buffer := [],
      sm_body_seen := sm_body_seen s + int n, sm_remaining := sm_remaining s - n\<rparr>"
    using eat_body_eq [OF m1] by (simp add: n_def b_def room_def)
  have m2: "min (length (sm_buffer (more y (eat_body s)))) (sm_remaining (more y (eat_body s))) = k"
    by (simp add: e1 k_def)
  have m3: "min (length (sm_buffer (more y s))) (sm_remaining (more y s)) = n + k"
    using assms by (simp add: k_def n_def)
  have t1: "eat_body (more y (eat_body s)) = s\<lparr>sm_body := sm_body s @ take (min (n + k) room) (sm_buffer s @ y),
      sm_buffer := drop k y, sm_body_seen := sm_body_seen s + int (n + k), sm_remaining := sm_remaining s - (n + k)\<rparr>"
    using eat_body_eq [OF m2] rest tk unfolding e1 by (simp add: more_def)
  have t2: "eat_body (more y s) = s\<lparr>sm_body := sm_body s @ take (min (n + k) room) (sm_buffer s @ y),
      sm_buffer := drop k y, sm_body_seen := sm_body_seen s + int (n + k), sm_remaining := sm_remaining s - (n + k)\<rparr>"
    using eat_body_eq [OF m3] by (simp add: more_def room_def n_def)
  show ?thesis unfolding t1 t2 by simp
qed

lemma new_request_more:
  "new_request s block = Go s' rs \<Longrightarrow> new_request (more y s) block = Go (more y s') rs"
  by (auto simp: new_request_def Let_def more_def split: prod.splits option.splits if_splits sum.splits exn.splits)

lemma step_more_Go:
  assumes "stream_ok s" and "stream_step s = Go s' rs"
  shows "stream_step (more y s) = Go (more y s') rs"
proof (cases "sm_mode s")
  case Headers
  then have "header_step s = Go s' rs" using assms(2) by (simp add: stream_step_def)
  then obtain e where e: "py_find (CRLF @ CRLF) (sm_buffer s) = Some e" "\<not> e + 4 > HEADER_LIMIT"
    and n: "new_request (s\<lparr>sm_buffer := drop (e + 4) (sm_buffer s)\<rparr>) (take e (sm_buffer s)) = Go s' rs"
    by (auto simp: header_step_def Let_def split: option.splits if_splits)
  have b: "e + 4 \<le> length (sm_buffer s)" using py_find_bound [OF e(1)] by simp
  have "more y (s\<lparr>sm_buffer := drop (e + 4) (sm_buffer s)\<rparr>) = (more y s)\<lparr>sm_buffer := drop (e + 4) (sm_buffer s @ y)\<rparr>"
    using b by (simp add: more_def)
  with new_request_more [OF n, of y] b e(2) py_find_mono [OF e(1), of y] Headers show ?thesis
    by (simp add: stream_step_def header_step_def)
next
  case Fixed
  then have c: "complete_request (eat_body s) = Go s' rs" and r: "sm_remaining (eat_body s) = 0"
    using assms(2) by (auto simp: stream_step_def fixed_step_def Let_def split: if_splits)
  have "sm_remaining s \<le> length (sm_buffer s)" using r by (simp add: eat_body_ok)
  moreover have "sm_request (eat_body s) \<noteq> None" using assms(1) Fixed by (simp add: eat_body_ok stream_ok_def)
  ultimately show ?thesis using complete_more [OF _ c] r Fixed
    by (simp add: stream_step_def fixed_step_def Let_def eat_body_more)
next
  case ChunkSize
  then obtain e n where e: "py_find CRLF (sm_buffer s) = Some e" "\<not> e > 8192"
    and n: "hex_number (hd (split_on CHR '';'' (take e (sm_buffer s)))) = Some n"
    and s': "s' = s\<lparr>sm_buffer := drop (e + 2) (sm_buffer s), sm_remaining := n, sm_mode := (if n \<noteq> 0 then ChunkData else Trailers)\<rparr>"
      "rs = []"
    using assms(2) by (auto simp: stream_step_def chunk_size_step_def Let_def split: option.splits if_splits)
  have "e + 2 \<le> length (sm_buffer s)" using py_find_bound [OF e(1)] by simp
  with e n s' py_find_mono [OF e(1), of y] ChunkSize show ?thesis
    by (simp add: stream_step_def chunk_size_step_def more_def)
next
  case ChunkData
  then have r: "sm_remaining (eat_body s) = 0" and s': "s' = (eat_body s)\<lparr>sm_mode := ChunkCrlf\<rparr>" "rs = []"
    using assms(2) by (auto simp: stream_step_def data_step_def Let_def split: if_splits)
  have "sm_remaining s \<le> length (sm_buffer s)" using r by (simp add: eat_body_ok)
  from eat_body_more [OF this, of y] r s' ChunkData show ?thesis
    by (simp add: stream_step_def data_step_def Let_def more_def)
next
  case ChunkCrlf
  then have c: "take 2 (sm_buffer s) = CRLF" "\<not> length (sm_buffer s) < 2"
      "s' = s\<lparr>sm_buffer := drop 2 (sm_buffer s), sm_mode := ChunkSize\<rparr>" "rs = []"
    using assms(2) by (auto simp: stream_step_def crlf_step_def split: if_splits)
  with ChunkCrlf show ?thesis by (simp add: stream_step_def crlf_step_def more_def)
next
  case Trailers
  then have t: "trailer_step s = Go s' rs" using assms(2) by (simp add: stream_step_def)
  have req: "sm_request s \<noteq> None" using assms(1) Trailers by (simp add: stream_ok_def)
  show ?thesis
  proof (cases "take 2 (sm_buffer s) = CRLF")
    case True
    then have len: "2 \<le> length (sm_buffer s)" using CRLF_length by (metis length_take min.cobounded1)
    have "complete_request (s\<lparr>sm_buffer := drop 2 (sm_buffer s)\<rparr>) = Go s' rs"
      using t True by (simp add: trailer_step_def)
    from complete_more [OF _ this, of y] req
    have "complete_request ((more y s)\<lparr>sm_buffer := drop 2 (sm_buffer s @ y)\<rparr>) = Go (more y s') rs"
      using len by (simp add: more_def)
    with True len Trailers show ?thesis by (simp add: stream_step_def trailer_step_def)
  next
    case False
    then obtain e hs where e: "py_find (CRLF @ CRLF) (sm_buffer s) = Some e" "\<not> e + 4 > HEADER_LIMIT"
      and hs: "parse_headers (take e (sm_buffer s)) = Inr hs" "\<not> list_ex (\<lambda>(n, v). py_lower n \<in> set framing_names) hs"
      and c: "complete_request (s\<lparr>sm_request := map_option (\<lambda>r. r\<lparr>rq_trailers := Some hs\<rparr>) (sm_request s),
          sm_buffer := drop (e + 4) (sm_buffer s)\<rparr>) = Go s' rs"
      using t by (auto simp: trailer_step_def Let_def split: option.splits if_splits sum.splits exn.splits)
    have b: "e + 4 \<le> length (sm_buffer s)" using py_find_bound [OF e(1)] by simp
    have "\<not> take 2 (sm_buffer s @ y) = CRLF" using False b by simp
    moreover from complete_more [OF _ c, of y] req
    have "complete_request ((more y s)\<lparr>sm_request := map_option (\<lambda>r. r\<lparr>rq_trailers := Some hs\<rparr>) (sm_request s),
          sm_buffer := drop (e + 4) (sm_buffer s @ y)\<rparr>) = Go (more y s') rs"
      using b by (simp add: more_def)
    ultimately show ?thesis using e hs b py_find_mono [OF e(1), of y] Trailers
      by (simp add: stream_step_def trailer_step_def Let_def)
  qed
qed

lemma new_request_no_Wait: "new_request s block \<noteq> Wait s'"
  by (auto simp: new_request_def Let_def split: prod.splits option.splits if_splits sum.splits exn.splits)

lemma header_step_Wait: "header_step s = Wait s' \<Longrightarrow> s' = s"
  using new_request_no_Wait by (auto simp: header_step_def Let_def split: option.splits if_splits)

lemma chunk_size_Wait: "chunk_size_step s = Wait s' \<Longrightarrow> s' = s"
  by (auto simp: chunk_size_step_def Let_def split: option.splits if_splits)

lemma trailer_step_Wait: "trailer_step s = Wait s' \<Longrightarrow> s' = s"
  by (auto simp: trailer_step_def complete_request_def Let_def split: option.splits if_splits sum.splits exn.splits)

lemma step_more_Wait:
  assumes "stream_ok s" and "stream_step s = Wait s'"
  shows "stream_step (more y s) = stream_step (more y s')"
proof (cases "sm_mode s")
  case Fixed
  then have s': "s' = eat_body s" "sm_remaining (eat_body s) \<noteq> 0"
    using assms(2) by (auto simp: stream_step_def fixed_step_def Let_def complete_request_def split: if_splits)
  then have "length (sm_buffer s) \<le> sm_remaining s" by (simp add: eat_body_ok)
  from eat_body_all [OF this, of y] s' Fixed show ?thesis
    by (simp add: stream_step_def fixed_step_def eat_body_ok stream_ok_def)
next
  case ChunkData
  then have s': "s' = eat_body s" "sm_remaining (eat_body s) \<noteq> 0"
    using assms(2) by (auto simp: stream_step_def data_step_def Let_def split: if_splits)
  then have "length (sm_buffer s) \<le> sm_remaining s" by (simp add: eat_body_ok)
  from eat_body_all [OF this, of y] s' ChunkData show ?thesis
    by (simp add: stream_step_def data_step_def eat_body_ok stream_ok_def)
next
  case ChunkCrlf
  then have "s' = s" using assms(2) by (auto simp: stream_step_def crlf_step_def split: if_splits)
  then show ?thesis by simp
next
  case Headers
  then have "s' = s" using assms(2) by (intro header_step_Wait) (simp add: stream_step_def)
  then show ?thesis by simp
next
  case ChunkSize
  then have "s' = s" using assms(2) by (intro chunk_size_Wait) (simp add: stream_step_def)
  then show ?thesis by simp
next
  case Trailers
  then have "s' = s" using assms(2) by (intro trailer_step_Wait) (simp add: stream_step_def)
  then show ?thesis by simp
qed

lemma consume_more:
  assumes "stream_ok s" and "consume s = (rs, Some t)"
  shows "consume (more y s) = (let (qs, r) = consume (more y t) in (rs @ qs, r))"
  using assms
proof (induction s arbitrary: rs rule: consume.induct)
  case (1 s)
  show ?case
  proof (cases "stream_step s")
    case (Wait s')
    then have "rs = []" "t = s'" using "1.prems"(2) by (simp_all add: consume.simps [of s])
    with step_more_Wait [OF "1.prems"(1) Wait, of y] show ?thesis
      by (simp add: consume.simps [of "more y s"] consume.simps [of "more y s'"] Let_def split: prod.splits)
  next
    case (Go s' q)
    then obtain p where p: "consume s' = (p, Some t)" "rs = q @ p"
      using "1.prems"(2) by (auto simp: consume.simps [of s] Let_def split: prod.splits)
    have "stream_ok s'" using stream_step_ok [OF "1.prems"(1)] Go by (simp add: step_ok_def)
    from "1.IH" [OF Go this p(1)] step_more_Go [OF "1.prems"(1) Go, of y] p(2) show ?thesis
      by (simp add: consume.simps [of "more y s"] Let_def split: prod.splits)
  qed (use "1.prems"(2) in \<open>simp_all add: consume.simps [of s]\<close>)
qed


definition stream_of :: "'k \<Rightarrow> 'k capture \<Rightarrow> 'k stream" where
  "stream_of key c = (case map_of (cp_streams c) key of None \<Rightarrow> new_stream key | Some s \<Rightarrow> s)"

text \<open>The write leaves the stream valid (it is neither rejected nor malformed).\<close>

definition accepts :: "'k \<Rightarrow> bytes \<Rightarrow> 'k capture \<Rightarrow> bool" where
  "accepts key data c = (snd (feed_pieces (pieces 16384 data) (stream_of key c)) \<noteq> None)"

lemma pieces_one: "data \<noteq> [] \<Longrightarrow> length data \<le> n \<Longrightarrow> pieces n data = [data]"
  by (cases n) (simp_all add: pieces.simps [of _ data] pieces.simps [of _ "[]"])

lemma feed_one: "feed_pieces [p] s = (case consume (more p s) of (rs, r) \<Rightarrow> (rs, r))"
  by (simp add: more_def split: prod.splits option.splits)

lemma feed_whole: "data \<noteq> [] \<Longrightarrow> length data \<le> 16384 \<Longrightarrow> feed_pieces (pieces 16384 data) s = consume (more data s)"
  unfolding pieces_one feed_one by simp

lemma od_pop_last: "key \<notin> fst ` set d \<Longrightarrow> od_pop key (d @ [(key, s)]) = d"
  by (force simp: od_pop_def filter_id_conv)

lemma od_pop_absent: "key \<notin> fst ` set d \<Longrightarrow> od_pop key d = d"
  by (force simp: od_pop_def filter_id_conv)

lemma od_set_last: "key \<notin> fst ` set d \<Longrightarrow> od_set key t (d @ [(key, s)]) = d @ [(key, t)]"
  by (induction d) (auto simp: od_set_def)

lemma fresh_stream: "stream_ok t \<Longrightarrow> sm_request t = None \<Longrightarrow> sm_buffer t = [] \<Longrightarrow> t = new_stream (sm_key t)"
  by (cases t) (auto simp: stream_ok_def new_stream_def)

text \<open>What a feed does when the streams to keep are known.\<close>

definition settle :: "'k \<Rightarrow> ('k, 'k stream) odict \<Rightarrow> 'k capture \<Rightarrow> 'k stream option \<Rightarrow> 'k capture" where
  "settle key d c so = (case so of None \<Rightarrow> c\<lparr>cp_streams := d\<rparr>
     | Some t \<Rightarrow> if sm_request t = None \<and> sm_buffer t = [] then c\<lparr>cp_streams := d\<rparr>
         else c\<lparr>cp_streams := d @ [(key, t)]\<rparr>)"

lemma feed_stream_settle:
  assumes "evict_streams (cp_max c) (od_pop key (cp_streams c) @ [(key, s)]) = (rs0, d @ [(key, s)])"
    and "key \<notin> fst ` set d" and "data \<noteq> []" and "length data \<le> 16384" and "consume (more data s) = (rs, so)"
  shows "feed_stream key data None c s = (rs0 @ rs, settle key d c so)"
proof -
  have fp: "feed_pieces (pieces 16384 data) s = (rs, so)"
    unfolding feed_whole [OF assms(3,4)] assms(5) by simp
  show ?thesis unfolding feed_stream_def fp assms(1) Let_def
    by (simp add: settle_def cp_discard_def od_pop_last od_set_last assms(2) split: option.splits)
qed

lemma feed_stream_of: "data \<noteq> [] \<Longrightarrow> feed key data tot c = feed_stream key data tot c (stream_of key c)"
  by (simp add: feed_def stream_of_def split: option.splits)

lemma stream_of_ok:
  assumes "capture_ok c"
  shows "stream_ok (stream_of key c) \<and> sm_key (stream_of key c) = key \<and> length (sm_buffer (stream_of key c)) \<le> HEADER_LIMIT"
proof (cases "map_of (cp_streams c) key")
  case None
  then show ?thesis using stream_ok_new by (simp add: stream_of_def) (simp add: new_stream_def)
next
  case (Some s)
  then have "(key, s) \<in> set (cp_streams c)" by (rule map_of_SomeD)
  with assms Some show ?thesis by (auto simp: capture_ok_def stream_of_def)
qed

lemma feed_segments_ok:
  assumes c: "capture_ok c" and ab: "a \<noteq> []" "b \<noteq> []" "length (a @ b) \<le> 16384"
    and acc: "accepts key a c" and f: "feed key a None c = (rs1, c1)"
  shows "feed key (a @ b) None c = (let (rs2, c2) = feed key b None c1 in (rs1 @ rs2, c2))"
proof -
  define s where "s = stream_of key c"
  have s: "stream_ok s" "sm_key s = key" "length (sm_buffer s) \<le> HEADER_LIMIT"
    using stream_of_ok [OF c] by (auto simp: s_def)
  obtain rs0 d1 where ev: "evict_streams (cp_max c) (od_pop key (cp_streams c) @ [(key, s)]) = (rs0, d1)" by fastforce
  from evicted_streams [OF c s ev] obtain d where d: "d1 = d @ [(key, s)]" "key \<notin> fst ` set d"
    and c1ok: "capture_ok (c\<lparr>cp_streams := d1\<rparr>)" by blast
  note ev = ev [unfolded d(1)]
  have la: "length a \<le> 16384" "length b \<le> 16384" using ab(3) by simp_all
  obtain rs t where ca: "consume (more a s) = (rs, Some t)"
    using acc by (cases "consume (more a s)") (auto simp: accepts_def s_def [symmetric] feed_whole ab(1) la)
  have t: "stream_ok t" "sm_key t = key"
    using consume_ok [OF stream_ok_more [OF s(1)] ca] s(2) by simp_all
  have r1: "rs1 = rs0 @ rs" and c1: "c1 = settle key d c (Some t)"
    using f feed_stream_settle [OF ev d(2) ab(1) la(1) ca] by (simp_all add: feed_stream_of ab(1) s_def)
  obtain qs so where cb: "consume (more b t) = (qs, so)" by fastforce
  have app: "more (a @ b) s = more b (more a s)" by (simp add: more_def)
  have cab: "consume (more (a @ b) s) = (rs @ qs, so)"
    using consume_more [OF stream_ok_more [OF s(1)] ca, of b] cb unfolding app by simp
  have whole: "feed key (a @ b) None c = (rs0 @ rs @ qs, settle key d c so)"
    using feed_stream_settle [OF ev d(2) _ ab(3) cab] ab(1) by (simp add: feed_stream_of s_def)
  have nk: "map_of d key = None" using d(2) by (simp add: map_of_eq_None_iff)
  have st: "stream_of key c1 = t" and pop: "od_pop key (cp_streams c1) = d" and mx: "cp_max c1 = cp_max c"
    using d(2) fresh_stream [OF t(1)] t(2)
    by (auto simp: c1 settle_def stream_of_def od_pop_last od_pop_absent nk map_add_def)
  have "int (length (d @ [(key, t)])) \<le> cp_max c" using c1ok d(1) by (simp add: capture_ok_def)
  then have ev2: "evict_streams (cp_max c1) (od_pop key (cp_streams c1) @ [(key, t)]) = ([], d @ [(key, t)])"
    unfolding pop mx by (rule evict_streams_idle)
  have "feed key b None c1 = (qs, settle key d c1 so)"
    using feed_stream_settle [OF ev2 d(2) ab(2) la(2) cb] by (simp add: feed_stream_of ab(2) st)
  moreover have "settle key d c1 so = settle key d c so"
    by (simp add: settle_def c1 split: option.splits)
  ultimately show ?thesis by (simp add: whole r1)
qed



end
