(* ===== verification/Effects.thy ===== *)
theory Effects
  imports Prelude
begin

text \<open>
  Stateful Python code: a computation takes a state and returns a value or an exception with
  the state it leaves. The state survives an exception, as attributes of Python objects do.
  \<open>wpP\<close> is the weakest precondition of a computation; its equations compute it by
  rewriting, and \<open>wpP_for\<close> and \<open>wpP_weaken\<close> are the rules for what rewriting cannot do.
\<close>

named_theorems wp \<open>equations of the weakest precondition\<close>
named_theorems run \<open>equations that run a computation\<close>

type_synonym ('s, 'a) py = "'s \<Rightarrow> 'a res \<times> 's"

definition retP :: "'a \<Rightarrow> ('s, 'a) py" where
  "retP x = (\<lambda>s. (Inr x, s))"

definition raiseP :: "exn \<Rightarrow> ('s, 'a) py" where
  "raiseP e = (\<lambda>s. (Inl e, s))"

definition bindP :: "('s, 'a) py \<Rightarrow> ('a \<Rightarrow> ('s, 'b) py) \<Rightarrow> ('s, 'b) py" where
  "bindP m f = (\<lambda>s. case m s of (Inl e, t) \<Rightarrow> (Inl e, t) | (Inr x, t) \<Rightarrow> f x t)"

definition seqP :: "('s, 'a) py \<Rightarrow> ('s, 'b) py \<Rightarrow> ('s, 'b) py" where
  "seqP m k = bindP m (\<lambda>_. k)"

definition getP :: "('s \<Rightarrow> 'a) \<Rightarrow> ('s, 'a) py" where
  "getP f = (\<lambda>s. (Inr (f s), s))"

definition modP :: "('s \<Rightarrow> 's) \<Rightarrow> ('s, unit) py" where
  "modP f = (\<lambda>s. (Inr (), f s))"

text \<open>A pure but fallible computation, and an effect that cannot fail.\<close>

definition liftP :: "'a res \<Rightarrow> ('s, 'a) py" where
  "liftP r = (\<lambda>s. (r, s))"

definition actP :: "('s \<Rightarrow> 'a \<times> 's) \<Rightarrow> ('s, 'a) py" where
  "actP f = (\<lambda>s. case f s of (x, t) \<Rightarrow> (Inr x, t))"

definition checkP :: "bool \<Rightarrow> exn \<Rightarrow> ('s, unit) py" where
  "checkP b e = (if b then retP () else raiseP e)"

definition whenP :: "bool \<Rightarrow> ('s, unit) py \<Rightarrow> ('s, unit) py" where
  "whenP b m = (if b then m else retP ())"

text \<open>\<open>try: m / except: h\<close>; \<open>try: m / except: c; raise\<close>; \<open>try: m / finally: c\<close>.\<close>

definition catchP :: "('s, 'a) py \<Rightarrow> (exn \<Rightarrow> ('s, 'a) py) \<Rightarrow> ('s, 'a) py" where
  "catchP m h = (\<lambda>s. case m s of (Inl e, t) \<Rightarrow> h e t | (Inr x, t) \<Rightarrow> (Inr x, t))"

definition cleanupP :: "('s, 'a) py \<Rightarrow> ('s, unit) py \<Rightarrow> ('s, 'a) py" where
  "cleanupP m c = catchP m (\<lambda>e. seqP c (raiseP e))"

definition finallyP :: "('s, 'a) py \<Rightarrow> ('s, unit) py \<Rightarrow> ('s, 'a) py" where
  "finallyP m c = bindP (cleanupP m c) (\<lambda>x. seqP c (retP x))"

text \<open>\<open>self.flag = True; try: return m() / finally: self.flag = False\<close>.\<close>

definition duringP :: "(bool \<Rightarrow> 's \<Rightarrow> 's) \<Rightarrow> ('s, 'a) py \<Rightarrow> ('s, 'a) py" where
  "duringP flag m = seqP (modP (flag True)) (finallyP m (modP (flag False)))"

fun forP :: "('a \<Rightarrow> ('s, unit) py) \<Rightarrow> 'a list \<Rightarrow> ('s, unit) py" where
  "forP f [] = retP ()"
| "forP f (x # xs) = seqP (f x) (forP f xs)"

text \<open>A loop with a local accumulator, and the list comprehension.\<close>

fun foldP :: "('a \<Rightarrow> 'b \<Rightarrow> ('s, 'b) py) \<Rightarrow> 'a list \<Rightarrow> 'b \<Rightarrow> ('s, 'b) py" where
  "foldP f [] b = retP b"
| "foldP f (x # xs) b = bindP (f x b) (foldP f xs)"

fun mapP :: "('a \<Rightarrow> ('s, 'b) py) \<Rightarrow> 'a list \<Rightarrow> ('s, 'b list) py" where
  "mapP f [] = retP []"
| "mapP f (x # xs) = bindP (f x) (\<lambda>y. bindP (mapP f xs) (\<lambda>ys. retP (y # ys)))"

lemma run_simps [run]:
  "retP x s = (Inr x, s)" "raiseP e s = (Inl e, s)" "getP f s = (Inr (f s), s)"
  "modP g s = (Inr (), g s)" "liftP r s = (r, s)" "actP h s = (Inr (fst (h s)), snd (h s))"
  "checkP b e s = (if b then (Inr (), s) else (Inl e, s))"
  "whenP b k s = (if b then k s else (Inr (), s))"
  by (simp_all add: retP_def raiseP_def getP_def modP_def liftP_def actP_def checkP_def whenP_def
      split: prod.splits)

lemma run_bind [run]:
  "bindP m k s = (case m s of (Inl e, t) \<Rightarrow> (Inl e, t) | (Inr x, t) \<Rightarrow> k x t)"
  "seqP m n s = (case m s of (Inl e, t) \<Rightarrow> (Inl e, t) | (Inr x, t) \<Rightarrow> n t)"
  "catchP m h s = (case m s of (Inl e, t) \<Rightarrow> h e t | (Inr x, t) \<Rightarrow> (Inr x, t))"
  by (simp_all add: bindP_def seqP_def catchP_def)

section \<open>Weakest preconditions\<close>

definition wpP :: "('s, 'a) py \<Rightarrow> ('a \<Rightarrow> 's \<Rightarrow> bool) \<Rightarrow> (exn \<Rightarrow> 's \<Rightarrow> bool) \<Rightarrow> 's \<Rightarrow> bool" where
  "wpP m Q E s = (case m s of (Inl e, t) \<Rightarrow> E e t | (Inr x, t) \<Rightarrow> Q x t)"

lemma wpP_simps [wp]:
  "wpP (retP x) Q E = Q x" "wpP (raiseP e) Q E = E e"
  "wpP (getP f) Q E = (\<lambda>s. Q (f s) s)" "wpP (modP g) U E = (\<lambda>s. U () (g s))"
  "wpP (liftP r) Q E = (case r of Inl e \<Rightarrow> E e | Inr x \<Rightarrow> Q x)"
  "wpP (actP h) Q E = (\<lambda>s. Q (fst (h s)) (snd (h s)))"
  "wpP (checkP b e) U E = (if b then U () else E e)"
  "wpP (whenP b k) U E = (if b then wpP k U E else U ())"
  by (auto simp: wpP_def run fun_eq_iff split: sum.splits)

lemma wpP_bind [wp]:
  "wpP (bindP m k) Q E = wpP m (\<lambda>x. wpP (k x) Q E) E"
  "wpP (seqP l n) Q E = wpP l (\<lambda>_. wpP n Q E) E"
  "wpP (catchP n h) Q E = wpP n Q (\<lambda>e. wpP (h e) Q E)"
  "wpP (cleanupP n c) Q E = wpP n Q (\<lambda>e. wpP c (\<lambda>_. E e) E)"
  by (auto simp: wpP_def run cleanupP_def fun_eq_iff split: sum.splits prod.splits)

lemma wpP_if [wp]: "wpP (if b then m else n) Q E = (if b then wpP m Q E else wpP n Q E)"
  by simp

lemma wpP_weaken:
  "wpP m Q E s \<Longrightarrow> (\<And>x t. Q x t \<Longrightarrow> Q' x t) \<Longrightarrow> (\<And>e t. E e t \<Longrightarrow> E' e t) \<Longrightarrow> wpP m Q' E' s"
  by (auto simp: wpP_def split: sum.splits prod.splits)

lemma wpP_D: "wpP m Q E s \<Longrightarrow> m s = (Inr x, t) \<Longrightarrow> Q x t"
  and wpP_E: "wpP m Q E s \<Longrightarrow> m s = (Inl e, t) \<Longrightarrow> E e t"
  by (simp_all add: wpP_def)

lemma wpP_I:
  "(\<And>x t. m s = (Inr x, t) \<Longrightarrow> Q x t) \<Longrightarrow> (\<And>e t. m s = (Inl e, t) \<Longrightarrow> E e t) \<Longrightarrow> wpP m Q E s"
  by (auto simp: wpP_def split: sum.splits prod.splits)

lemma wpP_conj: "wpP m Q E s \<Longrightarrow> wpP m Q' E' s \<Longrightarrow> wpP m (\<lambda>x t. Q x t \<and> Q' x t) (\<lambda>e t. E e t \<and> E' e t) s"
  by (auto simp: wpP_def split: sum.splits prod.splits)

lemma wpP_for:
  assumes "I s" and "\<And>x s. x \<in> set xs \<Longrightarrow> I s \<Longrightarrow> wpP (f x) (\<lambda>_. I) E s"
  shows "wpP (forP f xs) (\<lambda>_. I) E s"
  using assms
proof (induction xs arbitrary: s)
  case (Cons x xs)
  have "wpP (f x) (\<lambda>_. I) E s" using Cons.prems by simp
  then have "wpP (f x) (\<lambda>_. wpP (forP f xs) (\<lambda>_. I) E) E s"
    by (rule wpP_weaken) (use Cons in auto)
  then show ?case by (simp add: wp)
qed (simp add: wp)

lemma wpP_fold:
  assumes "I b s" and "\<And>x b s. x \<in> set xs \<Longrightarrow> I b s \<Longrightarrow> wpP (f x b) I E s"
  shows "wpP (foldP f xs b) I E s"
  using assms
proof (induction xs arbitrary: b s)
  case (Cons x xs)
  have "wpP (f x b) I E s" using Cons.prems by simp
  then have "wpP (f x b) (\<lambda>c. wpP (foldP f xs c) I E) E s"
    by (rule wpP_weaken) (use Cons in auto)
  then show ?case by (simp add: wp)
qed (simp add: wp)

text \<open>An invariant: it holds after a normal return and after an exception.\<close>

definition keepsP :: "('s \<Rightarrow> bool) \<Rightarrow> ('s, 'a) py \<Rightarrow> bool" where
  "keepsP I m = (\<forall>s. I s \<longrightarrow> I (snd (m s)))"

named_theorems keeps \<open>rules for invariants\<close>

lemma keepsP_wp: "keepsP I m \<longleftrightarrow> (\<forall>s. I s \<longrightarrow> wpP m (\<lambda>_. I) (\<lambda>_. I) s)"
  by (simp add: keepsP_def wpP_def case_prod_beta split: sum.split)

lemma keepsP_D: "keepsP I m \<Longrightarrow> I s \<Longrightarrow> I (snd (m s))"
  by (simp add: keepsP_def)

lemma keepsP_use: "keepsP I m \<Longrightarrow> I s \<Longrightarrow> wpP m (\<lambda>_. I) (\<lambda>_. I) s"
  by (simp add: keepsP_wp)

lemma keepsP_base [keeps]:
  "keepsP I (retP x)" "keepsP I (raiseP e)" "keepsP I (getP f)" "keepsP I (liftP r)" "keepsP I (checkP b e)"
  by (simp_all add: keepsP_def run)

lemma keepsP_bind [keeps]: "keepsP I m \<Longrightarrow> (\<And>x. keepsP I (f x)) \<Longrightarrow> keepsP I (bindP m f)"
  by (auto simp: keepsP_def run split: sum.splits prod.splits)

lemma keepsP_seq [keeps]: "keepsP I m \<Longrightarrow> keepsP I n \<Longrightarrow> keepsP I (seqP m n)"
  by (simp add: seqP_def keepsP_bind)

lemma keepsP_catch [keeps]: "keepsP I m \<Longrightarrow> (\<And>e. keepsP I (h e)) \<Longrightarrow> keepsP I (catchP m h)"
  by (auto simp: keepsP_def run split: sum.splits prod.splits)

lemma keepsP_cleanup [keeps]: "keepsP I m \<Longrightarrow> keepsP I c \<Longrightarrow> keepsP I (cleanupP m c)"
  by (simp add: cleanupP_def keepsP_catch keepsP_seq keepsP_base)

lemma keepsP_finally [keeps]: "keepsP I m \<Longrightarrow> keepsP I c \<Longrightarrow> keepsP I (finallyP m c)"
  by (simp add: finallyP_def keepsP_cleanup keepsP_bind keepsP_seq keepsP_base)

lemma keepsP_when [keeps]: "keepsP I m \<Longrightarrow> keepsP I (whenP b m)"
  by (simp add: whenP_def keepsP_base)

lemma keepsP_if [keeps]: "keepsP I m \<Longrightarrow> keepsP I n \<Longrightarrow> keepsP I (if b then m else n)"
  by simp

lemma keepsP_cond: "(b \<Longrightarrow> keepsP I m) \<Longrightarrow> (\<not> b \<Longrightarrow> keepsP I n) \<Longrightarrow> keepsP I (if b then m else n)"
  by simp

lemma keepsP_mod: "(\<And>s. I s \<Longrightarrow> I (f s)) \<Longrightarrow> keepsP I (modP f)"
  by (simp add: keepsP_def run)

lemma keepsP_act: "(\<And>s. I s \<Longrightarrow> I (snd (f s))) \<Longrightarrow> keepsP I (actP f)"
  by (simp add: keepsP_def run)

lemma keepsP_for [keeps]: "(\<And>x. x \<in> set xs \<Longrightarrow> keepsP I (f x)) \<Longrightarrow> keepsP I (forP f xs)"
  by (induction xs) (simp_all add: keeps)

lemma keepsP_fold [keeps]: "(\<And>x b. x \<in> set xs \<Longrightarrow> keepsP I (f x b)) \<Longrightarrow> keepsP I (foldP f xs b)"
  by (induction xs arbitrary: b) (simp_all add: keeps)

lemma keepsP_map [keeps]: "(\<And>x. x \<in> set xs \<Longrightarrow> keepsP I (f x)) \<Longrightarrow> keepsP I (mapP f xs)"
  by (induction xs) (simp_all add: keeps)

text \<open>An invariant with what is known of the value returned.\<close>

definition yieldsP :: "('s \<Rightarrow> bool) \<Rightarrow> ('a \<Rightarrow> bool) \<Rightarrow> ('s, 'a) py \<Rightarrow> bool" where
  "yieldsP I Q m = (\<forall>s. I s \<longrightarrow> wpP m (\<lambda>x t. I t \<and> Q x) (\<lambda>_. I) s)"

named_theorems yields \<open>rules for invariants with results\<close>

lemma yieldsP_keeps: "yieldsP I (\<lambda>_. True) m = keepsP I m"
  by (simp add: yieldsP_def keepsP_wp)

lemma yieldsP_weaken: "yieldsP I P m \<Longrightarrow> (\<And>x. P x \<Longrightarrow> Q x) \<Longrightarrow> yieldsP I Q m"
  unfolding yieldsP_def by (auto elim!: wpP_weaken)

lemma yieldsP_keepsD: "yieldsP I Q m \<Longrightarrow> keepsP I m"
  unfolding yieldsP_keeps[symmetric] by (erule yieldsP_weaken) simp

lemma yieldsP_of_keeps: "keepsP I m \<Longrightarrow> (\<And>x. Q x) \<Longrightarrow> yieldsP I Q m"
  by (rule yieldsP_weaken[where P = "\<lambda>_. True"]) (simp_all add: yieldsP_keeps)

lemma yieldsP_base [yields]:
  "Q x \<Longrightarrow> yieldsP I Q (retP x)" "yieldsP I Q (raiseP e)" "(\<And>s. I s \<Longrightarrow> Q (f s)) \<Longrightarrow> yieldsP I Q (getP f)"
  "(\<And>y. r = Inr y \<Longrightarrow> Q y) \<Longrightarrow> yieldsP I Q (liftP r)"
  by (auto simp: yieldsP_def wp split: sum.splits)

lemma yieldsP_bind:
  "yieldsP I P m \<Longrightarrow> (\<And>x. P x \<Longrightarrow> yieldsP I Q (f x)) \<Longrightarrow> yieldsP I Q (bindP m f)"
  unfolding yieldsP_def wp by (auto elim!: wpP_weaken)

lemma yieldsP_any [yields]: "keepsP I m \<Longrightarrow> (\<And>x. yieldsP I Q (f x)) \<Longrightarrow> yieldsP I Q (bindP m f)"
  unfolding yieldsP_keeps[symmetric] by (rule yieldsP_bind)

lemma yieldsP_seq [yields]: "keepsP I m \<Longrightarrow> yieldsP I Q n \<Longrightarrow> yieldsP I Q (seqP m n)"
  unfolding seqP_def yieldsP_keeps[symmetric] by (rule yieldsP_bind)

lemma yieldsP_catch [yields]: "yieldsP I Q m \<Longrightarrow> (\<And>e. yieldsP I Q (h e)) \<Longrightarrow> yieldsP I Q (catchP m h)"
  unfolding yieldsP_def wp by (auto elim!: wpP_weaken)

lemma yieldsP_if [yields]: "(b \<Longrightarrow> yieldsP I Q m) \<Longrightarrow> (\<not> b \<Longrightarrow> yieldsP I Q n) \<Longrightarrow> yieldsP I Q (if b then m else n)"
  by simp

lemma yieldsP_option [yields]:
  "(r = None \<Longrightarrow> yieldsP I Q m) \<Longrightarrow> (\<And>x. r = Some x \<Longrightarrow> yieldsP I Q (f x)) \<Longrightarrow>
     yieldsP I Q (case r of None \<Rightarrow> m | Some x \<Rightarrow> f x)"
  by (cases r) simp_all

lemma keepsP_option [keeps]:
  "(r = None \<Longrightarrow> keepsP I m) \<Longrightarrow> (\<And>x. r = Some x \<Longrightarrow> keepsP I (f x)) \<Longrightarrow>
     keepsP I (case r of None \<Rightarrow> m | Some x \<Rightarrow> f x)"
  by (cases r) simp_all

lemma keepsP_bind_yields: "yieldsP I P m \<Longrightarrow> (\<And>x. P x \<Longrightarrow> keepsP I (f x)) \<Longrightarrow> keepsP I (bindP m f)"
  unfolding yieldsP_keeps[symmetric] by (rule yieldsP_bind)

lemma keepsP_pair [keeps]: "(\<And>a b. x = (a, b) \<Longrightarrow> keepsP I (f a b)) \<Longrightarrow> keepsP I (case x of (a, b) \<Rightarrow> f a b)"
  by (cases x) simp

lemma keepsP_sum [keeps]:
  "(\<And>x. r = Inl x \<Longrightarrow> keepsP I (f x)) \<Longrightarrow> (\<And>x. r = Inr x \<Longrightarrow> keepsP I (g x)) \<Longrightarrow> keepsP I (case r of Inl x \<Rightarrow> f x | Inr x \<Rightarrow> g x)"
  by (cases r) simp_all

text \<open>A step that keeps an invariant, before code that needs it.\<close>

lemma wpP_keeps_bind:
  assumes "keepsP I m" "I s" "\<And>x t. I t \<Longrightarrow> wpP (f x) Q E t" "\<And>e t. I t \<Longrightarrow> E e t"
  shows "wpP (bindP m f) Q E s"
  unfolding wp by (rule wpP_weaken[OF keepsP_use[OF assms(1,2)]]) (auto intro: assms(3,4))

lemma wpP_keeps_seq:
  assumes "keepsP I m" "I s" "\<And>t. I t \<Longrightarrow> wpP k Q E t" "\<And>e t. I t \<Longrightarrow> E e t"
  shows "wpP (seqP m k) Q E s"
  unfolding seqP_def by (rule wpP_keeps_bind[OF assms(1,2)]) (auto intro: assms(3,4))

end
