(* ===== verification/Lldb.thy ===== *)
theory Lldb
  imports Effects PyText
begin

text \<open>
  What macdbg sees of LLDB and of the target process. The debugger library is not part of the
  repository: its state is an opaque world, and the record \<open>lldb\<close> holds the calls the modelled
  code makes, observations of the world and effects on it. The records below are the answers
  of those calls. \<open>dbg\<close> is the part of \<open>Debugger\<close>'s own attributes that the modelled
  components read and write, with \<open>read_memory\<close>, \<open>delete_breakpoint\<close> and \<open>record_event\<close>
  of \<open>macdbg/core/debugger.py\<close>.
\<close>

section \<open>Observations\<close>

datatype stop_reason = SrInvalid | SrNone | SrTrace | SrBreakpoint | SrWatchpoint | SrSignal
  | SrException | SrExec | SrPlanComplete | SrOther

text \<open>The filters of a breakpoint or a location; thread id 0 is \<open>LLDB_INVALID_THREAD_ID\<close>.\<close>

record filters =
  flt_condition :: string
  flt_ignore :: nat
  flt_auto :: bool
  flt_thread :: int
  flt_index :: nat
  flt_tname :: string
  flt_queue :: string
  flt_commands :: "string list"

record location =
  loc_enabled :: bool
  loc_resolved :: bool
  loc_addr :: addr
  loc_filters :: filters

record breakpoint =
  bp_id :: int
  bp_enabled :: bool
  bp_hardware :: bool
  bp_oneshot :: bool
  bp_filters :: filters
  bp_locs :: "location list"

text \<open>Register names and their unsigned values; None is an invalid frame or register.\<close>

record frame =
  fr_pc :: addr
  fr_regs :: "(string, int) odict"

record thread =
  th_id :: int
  th_reason :: stop_reason
  th_data :: "int list"
  th_description :: string
  th_frames :: "frame list"

record process =
  pr_pid :: int
  pr_uid :: int
  pr_stop :: int
  pr_stopped :: bool
  pr_threads :: "thread list"
  pr_selected :: int

definition th_frame :: "thread \<Rightarrow> frame option" where
  "th_frame t = (case th_frames t of [] \<Rightarrow> None | f # _ \<Rightarrow> Some f)"

definition th_pc :: "thread \<Rightarrow> addr option" where
  "th_pc t = map_option fr_pc (th_frame t)"

definition fr_reg :: "frame \<Rightarrow> string \<Rightarrow> int option" where
  "fr_reg f r = map_of (fr_regs f) r"

text \<open>\<open>GetValueAsUnsigned()\<close> of a register that may be unavailable is 0.\<close>

definition reg_unsigned :: "frame \<Rightarrow> string \<Rightarrow> int" where
  "reg_unsigned f r = (case fr_reg f r of None \<Rightarrow> 0 | Some v \<Rightarrow> v)"

definition idle_reason :: "stop_reason \<Rightarrow> bool" where
  "idle_reason r = (r = SrNone \<or> r = SrInvalid)"

definition selected_thread :: "process \<Rightarrow> thread option" where
  "selected_thread p = find (\<lambda>t. th_id t = pr_selected p) (pr_threads p)"

section \<open>The calls\<close>

record 'w lldb =
  obs_process :: "'w \<Rightarrow> process option"
  obs_target :: "'w \<Rightarrow> bool"
  obs_triple :: "'w \<Rightarrow> string"
  obs_breakpoints :: "'w \<Rightarrow> breakpoint list"
  obs_read :: "'w \<Rightarrow> addr \<Rightarrow> nat \<Rightarrow> bytes option"
  obs_slots :: "string option"
  do_command :: "string \<Rightarrow> 'w \<Rightarrow> (bool \<times> string) \<times> 'w"
  do_bp_delete :: "int \<Rightarrow> 'w \<Rightarrow> bool \<times> 'w"
  do_bp_thread :: "int \<Rightarrow> int \<Rightarrow> 'w \<Rightarrow> unit \<times> 'w"
  do_write :: "addr \<Rightarrow> bytes \<Rightarrow> 'w \<Rightarrow> int \<times> 'w"
  do_set_pc :: "int \<Rightarrow> addr \<Rightarrow> 'w \<Rightarrow> bool \<times> 'w"
  do_set_reg :: "int \<Rightarrow> string \<Rightarrow> string \<Rightarrow> 'w \<Rightarrow> string option \<times> 'w"

text \<open>\<open>target.FindBreakpointByID\<close>; an invalid breakpoint is None.\<close>

definition find_bp :: "'w lldb \<Rightarrow> 'w \<Rightarrow> int \<Rightarrow> breakpoint option" where
  "find_bp L w i = find (\<lambda>b. bp_id b = i) (obs_breakpoints L w)"

definition bp_ids :: "'w lldb \<Rightarrow> 'w \<Rightarrow> int list" where
  "bp_ids L w = map bp_id (obs_breakpoints L w)"

section \<open>The debugger's own state\<close>

record event =
  ev_category :: string
  ev_message :: string
  ev_details :: "(string, string) odict"

record 'w dbg =
  world :: 'w
  hardware_ids :: "int set"
  events :: "event list"
  step_active :: bool
  step_plan_active :: bool
  step_target_depth :: "int option"
  cloak_enabled :: bool
  suppress_retry :: bool
  retired_return :: "((int \<times> int) \<times> int \<times> addr \<times> bytes) option"
  hw_continue :: "((int \<times> int) \<times> (int, addr \<times> bytes) odict) option"
  retired_candidate :: "(int \<times> addr) option"
  recovery :: "(int \<times> int \<times> int \<times> addr) option"
  recovery_failed :: "(int \<times> int \<times> addr) option"
  traced_stop :: "(int \<times> int \<times> int \<times> addr \<times> bytes \<times> int) option"

text \<open>\<open>Debugger.read_memory\<close>: halve the request until a read succeeds.\<close>

function read_halving :: "(nat \<Rightarrow> bytes option) \<Rightarrow> nat \<Rightarrow> bytes" where
  "read_halving rd n = (if n < 1 then []
     else case rd n of Some data \<Rightarrow> data
     | None \<Rightarrow> if n = 1 then [] else read_halving rd (n div 2))"
  by pat_completeness auto
termination by (relation "measure snd") auto

declare read_halving.simps [simp del]

definition read_memory :: "'w lldb \<Rightarrow> 'w \<Rightarrow> addr \<Rightarrow> nat \<Rightarrow> bytes" where
  "read_memory L w a n = (if obs_process L w = None then [] else read_halving (obs_read L w a) n)"

definition onW :: "('w \<Rightarrow> 'a \<times> 'w) \<Rightarrow> (('w, 'z) dbg_scheme, 'a) py" where
  "onW f = actP (\<lambda>s. case f (world s) of (x, w) \<Rightarrow> (x, s\<lparr>world := w\<rparr>))"

definition delete_breakpoint :: "'w lldb \<Rightarrow> int \<Rightarrow> (('w, 'z) dbg_scheme, bool) py" where
  "delete_breakpoint L i =
     bindP (onW (do_bp_delete L i)) (\<lambda>deleted.
     seqP (modP (\<lambda>s. if deleted \<or> find_bp L (world s) i = None
       then s\<lparr>hardware_ids := hardware_ids s - {i}\<rparr> else s))
     (retP deleted))"

text \<open>\<open>record_event\<close>: the process, thread and pc are added unless the caller gave them.\<close>

definition od_default :: "'k \<Rightarrow> 'v \<Rightarrow> ('k, 'v) odict \<Rightarrow> ('k, 'v) odict" where
  "od_default k v d = (if map_of d k = None then od_set k v d else d)"

definition event_details :: "process option \<Rightarrow> (string, string) odict \<Rightarrow> (string, string) odict" where
  "event_details p d = (case p of None \<Rightarrow> d
     | Some p \<Rightarrow> (let d1 = od_default ''pid'' (py_str (pr_pid p)) d in
         if \<not> pr_stopped p then d1
         else (case selected_thread p of None \<Rightarrow> d1
         | Some t \<Rightarrow> od_default ''pc'' (case th_pc t of None \<Rightarrow> '''' | Some a \<Rightarrow> py_str a)
             (od_default ''tid'' (py_str (th_id t)) d1))))"

definition record_event ::
    "'w lldb \<Rightarrow> string \<Rightarrow> string \<Rightarrow> (string, string) odict \<Rightarrow> (('w, 'z) dbg_scheme, unit) py" where
  "record_event L category message details = modP (\<lambda>s. s\<lparr>events := events s @
     [\<lparr>ev_category = category, ev_message = message,
       ev_details = event_details (obs_process L (world s)) details\<rparr>]\<rparr>)"

lemma wpP_onW [wp]:
  "wpP (onW f) Q E = (\<lambda>s. Q (fst (f (world s))) (s\<lparr>world := snd (f (world s))\<rparr>))"
  by (simp add: onW_def wp fun_eq_iff split: prod.splits)

lemma wpP_delete [wp]:
  "wpP (delete_breakpoint L i) Q E = (\<lambda>s. let (d, w) = do_bp_delete L i (world s) in
     Q d (s\<lparr>world := w, hardware_ids := (if d \<or> find_bp L w i = None then hardware_ids s - {i}
        else hardware_ids s)\<rparr>))"
  by (simp add: delete_breakpoint_def wp fun_eq_iff Let_def split_beta)

lemma wpP_record [wp]:
  "wpP (record_event L c m d) Q E = (\<lambda>s. Q () (s\<lparr>events := events s @
     [\<lparr>ev_category = c, ev_message = m, ev_details = event_details (obs_process L (world s)) d\<rparr>]\<rparr>))"
  by (simp add: record_event_def wp)

section \<open>Invariants that do not look at the target\<close>

text \<open>An invariant of a component's own fields survives whatever the shared operations change.\<close>

definition dbg_frame :: "(('w, 'z) dbg_scheme \<Rightarrow> bool) \<Rightarrow> bool" where
  "dbg_frame I = (\<forall>s w h ev rr. I s \<longrightarrow> I (s\<lparr>world := w, hardware_ids := h, events := ev, retired_return := rr\<rparr>))"

lemma dbg_frame_all:
  "dbg_frame I \<Longrightarrow> I s \<Longrightarrow> I (s\<lparr>world := a, hardware_ids := b, events := c, retired_return := d\<rparr>)"
  unfolding dbg_frame_def by blast

lemma dbg_frameD:
  assumes "dbg_frame I" "I s"
  shows "I (s\<lparr>world := w\<rparr>)" "I (s\<lparr>hardware_ids := h\<rparr>)" "I (s\<lparr>events := ev\<rparr>)" "I (s\<lparr>retired_return := rr\<rparr>)"
  using dbg_frame_all[OF assms, where a = w and b = "hardware_ids s" and c = "events s" and d = "retired_return s"]
    dbg_frame_all[OF assms, where a = "world s" and b = h and c = "events s" and d = "retired_return s"]
    dbg_frame_all[OF assms, where a = "world s" and b = "hardware_ids s" and c = ev and d = "retired_return s"]
    dbg_frame_all[OF assms, where a = "world s" and b = "hardware_ids s" and c = "events s" and d = rr]
  by simp_all

lemma keepsP_onW [keeps]: "dbg_frame I \<Longrightarrow> keepsP I (onW f)"
  unfolding onW_def by (rule keepsP_act) (simp add: dbg_frameD split_beta)

lemma keepsP_delete [keeps]: "dbg_frame I \<Longrightarrow> keepsP I (delete_breakpoint L i)"
  unfolding delete_breakpoint_def by (intro keeps keepsP_mod) (simp_all add: dbg_frameD)

lemma keepsP_record [keeps]: "dbg_frame I \<Longrightarrow> keepsP I (record_event L c m d)"
  unfolding record_event_def by (intro keepsP_mod) (simp add: dbg_frameD)

section \<open>What the documentation of LLDB promises of breakpoints\<close>

text \<open>
  Identifiers are unique and positive; deleting removes the breakpoint of that identifier and
  nothing else; running a command may add breakpoints, under new identifiers, and leaves the others.
\<close>

fun set_thread :: "int \<Rightarrow> int \<Rightarrow> breakpoint \<Rightarrow> breakpoint" where
  "set_thread i t b = (if bp_id b = i then b\<lparr>bp_filters := (bp_filters b)\<lparr>flt_thread := t\<rparr>\<rparr> else b)"

definition bp_thread_law :: "'w lldb \<Rightarrow> bool" where
  "bp_thread_law L = (\<forall>i t w. obs_breakpoints L (snd (do_bp_thread L i t w)) = map (set_thread i t) (obs_breakpoints L w))"

definition bp_delete_law :: "'w lldb \<Rightarrow> bool" where
  "bp_delete_law L = (\<forall>i w. let (d, w') = do_bp_delete L i w in
     d = (i \<in> set (bp_ids L w)) \<and>
     obs_breakpoints L w' = filter (\<lambda>b. bp_id b \<noteq> i) (obs_breakpoints L w))"

definition bp_command_law :: "'w lldb \<Rightarrow> bool" where
  "bp_command_law L = (\<forall>c w. \<exists>new. obs_breakpoints L (snd (do_command L c w)) = obs_breakpoints L w @ new
     \<and> (\<forall>b \<in> set new. bp_id b \<notin> set (bp_ids L w)))"

lemma bp_delete_lawD:
  assumes "bp_delete_law L"
  shows "obs_breakpoints L (snd (do_bp_delete L i w)) = filter (\<lambda>b. bp_id b \<noteq> i) (obs_breakpoints L w)"
    "fst (do_bp_delete L i w) = (i \<in> set (bp_ids L w))"
  using assms unfolding bp_delete_law_def by (auto simp: Let_def split_beta)

lemma bp_delete_ids: "bp_delete_law L \<Longrightarrow> bp_ids L (snd (do_bp_delete L i w)) = filter (\<lambda>j. j \<noteq> i) (bp_ids L w)"
  by (simp add: bp_ids_def bp_delete_lawD filter_map comp_def)

lemma bp_thread_ids: "bp_thread_law L \<Longrightarrow> bp_ids L (snd (do_bp_thread L i t w)) = bp_ids L w"
  by (simp add: bp_ids_def bp_thread_law_def)

lemma bp_command_lawD:
  assumes "bp_command_law L"
  obtains new where "obs_breakpoints L (snd (do_command L c w)) = obs_breakpoints L w @ new"
    "\<forall>b \<in> set new. bp_id b \<notin> set (bp_ids L w)"
  using assms unfolding bp_command_law_def by blast

section \<open>What the documentation of LLDB promises of memory\<close>

definition read_law :: "'w lldb \<Rightarrow> bool" where
  "read_law L = (\<forall>w a n d. obs_read L w a n = Some d \<longrightarrow> length d \<le> n)"

lemma read_halving_length: "(\<And>n d. rd n = Some d \<Longrightarrow> length d \<le> n) \<Longrightarrow> length (read_halving rd n) \<le> n"
proof (induction rd n rule: read_halving.induct)
  case (1 rd n)
  show ?case
  proof (cases "n < 1 \<or> rd n \<noteq> None \<or> n = 1")
    case True
    then show ?thesis using "1.prems" by (subst read_halving.simps) (auto split: option.splits)
  next
    case False
    then have "length (read_halving rd (n div 2)) \<le> n div 2" using 1 by auto
    with False show ?thesis by (subst read_halving.simps) auto
  qed
qed

lemma read_memory_length: "read_law L \<Longrightarrow> length (read_memory L w a n) \<le> n"
  unfolding read_memory_def read_law_def by (auto intro!: read_halving_length)

text \<open>
  The bytes of the target: a successful read returns them, and a write, complete or not, changes
  none outside its range and leaves the process where it is.
\<close>

definition mem_law :: "'w lldb \<Rightarrow> ('w \<Rightarrow> addr \<Rightarrow> char) \<Rightarrow> bool" where
  "mem_law L mem =
     ((\<forall>w a n d. obs_read L w a n = Some d \<longrightarrow> length d = n \<and> (\<forall>i < n. d ! i = mem w (a + int i))) \<and>
      (\<forall>w a bs x. obs_process L (snd (do_write L a bs w)) = obs_process L w \<and>
         (\<not> (a \<le> x \<and> x < a + int (length bs)) \<longrightarrow> mem (snd (do_write L a bs w)) x = mem w x)))"

lemma mem_read_law: "mem_law L mem \<Longrightarrow> read_law L"
  by (auto simp: mem_law_def read_law_def)

lemma read_halving_full:
  "(\<And>k d. rd k = Some d \<Longrightarrow> length d = k) \<Longrightarrow> length (read_halving rd n) = n \<Longrightarrow> 0 < n \<Longrightarrow> rd n = Some (read_halving rd n)"
proof (cases "rd n")
  case None
  assume a: "\<And>k d. rd k = Some d \<Longrightarrow> length d = k" "length (read_halving rd n) = n" "0 < n"
  have "length (read_halving rd (n div 2)) \<le> n div 2" by (rule read_halving_length) (use a(1) in fastforce)
  with a None show ?thesis by (subst (asm) read_halving.simps) (auto split: if_splits)
next
  case (Some d)
  assume "0 < n"
  with Some show ?thesis by (simp add: read_halving.simps[of rd n])
qed

lemma read_memory_full:
  assumes "mem_law L mem" "read_memory L w a n = d" "length d = n" "i < n"
  shows "d ! i = mem w (a + int i)"
proof -
  have p: "obs_process L w \<noteq> None" using assms(2-4) by (auto simp: read_memory_def split: if_splits)
  have len: "\<And>k d. obs_read L w a k = Some d \<Longrightarrow> length d = k" using assms(1) by (simp add: mem_law_def)
  have d: "d = read_halving (obs_read L w a) n" using assms(2) p by (simp add: read_memory_def)
  have "obs_read L w a n = Some d"
    using read_halving_full[of "obs_read L w a" n, OF len] assms(3,4) by (simp add: d[symmetric])
  with assms(1,4) show ?thesis by (simp add: mem_law_def)
qed

section \<open>A debugger that keeps the laws\<close>

text \<open>
  A small debugger that keeps the laws: breakpoints are a list, memory is an association list.
\<close>

record demo_world =
  dw_bps :: "breakpoint list"
  dw_process :: "process option"
  dw_mem :: "(addr \<times> char) list"
  dw_map :: "(bool \<times> addr \<times> addr \<times> bool \<times> bool \<times> bool \<times> string) list"
  dw_log :: "string list"

definition no_filters :: filters where
  "no_filters = \<lparr>flt_condition = [], flt_ignore = 0, flt_auto = False, flt_thread = 0, flt_index = 0,
     flt_tname = [], flt_queue = [], flt_commands = []\<rparr>"

definition demo_bp :: "int \<Rightarrow> addr \<Rightarrow> breakpoint" where
  "demo_bp i a = \<lparr>bp_id = i, bp_enabled = True, bp_hardware = True, bp_oneshot = False, bp_filters = no_filters,
     bp_locs = [\<lparr>loc_enabled = True, loc_resolved = True, loc_addr = a, loc_filters = no_filters\<rparr>]\<rparr>"

definition fresh_id :: "breakpoint list \<Rightarrow> int" where
  "fresh_id bs = 1 + foldr max (map bp_id bs) 0"

definition demo_lldb :: "demo_world lldb" where
  "demo_lldb = \<lparr>obs_process = dw_process, obs_target = (\<lambda>_. True), obs_triple = (\<lambda>_. ''arm64-apple-macosx''),
     obs_breakpoints = dw_bps,
     obs_read = (\<lambda>w a n. those (map (\<lambda>i. map_of (dw_mem w) (a + int i)) [0..<n])),
     obs_slots = Some ''6'',
     do_command = (\<lambda>c w. case py_int 16 (drop (length ''breakpoint set -H -a '') c) of
        None \<Rightarrow> ((False, ''invalid address''), w)
      | Some a \<Rightarrow> ((True, []), w\<lparr>dw_bps := dw_bps w @ [demo_bp (fresh_id (dw_bps w)) a]\<rparr>)),
     do_bp_delete = (\<lambda>i w. (i \<in> set (map bp_id (dw_bps w)), w\<lparr>dw_bps := filter (\<lambda>b. bp_id b \<noteq> i) (dw_bps w)\<rparr>)),
     do_bp_thread = (\<lambda>i t w. ((), w\<lparr>dw_bps := map (set_thread i t) (dw_bps w)\<rparr>)),
     do_write = (\<lambda>a bs w. (int (length bs), w\<lparr>dw_mem := zip (map (\<lambda>i. a + int i) [0..<length bs]) bs @ dw_mem w\<rparr>)),
     do_set_pc = (\<lambda>t a w. (True, w\<lparr>dw_log := dw_log w @ [''pc'']\<rparr>)),
     do_set_reg = (\<lambda>t r v w. (None, w\<lparr>dw_log := dw_log w @ [r @ ''='' @ v]\<rparr>))\<rparr>"

definition demo_world :: demo_world where
  "demo_world = \<lparr>dw_bps = [], dw_process = None, dw_mem = [], dw_map = [], dw_log = []\<rparr>"

lemma fresh_id_fresh: "fresh_id bs \<notin> bp_id ` set bs"
proof -
  have "b \<in> set bs \<Longrightarrow> bp_id b \<le> foldr max (map bp_id bs) 0" for b by (induction bs) auto
  then show ?thesis unfolding fresh_id_def by force
qed

lemma demo_laws: "bp_delete_law demo_lldb" "bp_command_law demo_lldb" "bp_thread_law demo_lldb"
  unfolding bp_delete_law_def bp_command_law_def bp_thread_law_def
  by (auto simp: demo_lldb_def bp_ids_def Let_def demo_bp_def fresh_id_fresh split: option.splits)

text \<open>The bytes of its memory; unmapped ones read as 0 here.\<close>

definition demo_mem_at :: "demo_world \<Rightarrow> addr \<Rightarrow> char" where
  "demo_mem_at w a = (case map_of (dw_mem w) a of None \<Rightarrow> val_byte 0 | Some c \<Rightarrow> c)"

lemma those_map_nth:
  "those (map f xs) = Some d \<Longrightarrow> length d = length xs \<and> (\<forall>i < length xs. f (xs ! i) = Some (d ! i))"
proof (induction xs arbitrary: d)
  case (Cons x xs)
  then obtain c d' where "f x = Some c" "those (map f xs) = Some d'" "d = c # d'" by (auto split: option.splits)
  with Cons.IH[of d'] show ?case by (auto simp: nth_Cons split: nat.splits)
qed simp

lemma demo_mem_law: "mem_law demo_lldb demo_mem_at"
proof -
  have keys: "fst ` set (zip (map (\<lambda>i. a + int i) [0..<length bs]) bs) = (\<lambda>i. a + int i) ` {0..<length bs}" for a and bs :: bytes
  proof -
    have "map fst (zip (map (\<lambda>i. a + int i) [0..<length bs]) bs) = map (\<lambda>i. a + int i) [0..<length bs]" by simp
    from arg_cong[OF this, of set] show ?thesis by (simp only: set_map set_upt)
  qed
  have other: "map_of (zip (map (\<lambda>i. a + int i) [0..<length bs]) bs @ m) x = map_of m x"
    if "\<not> (a \<le> x \<and> x < a + int (length bs))" for a x and m :: "(addr \<times> char) list" and bs
  proof -
    have "x \<notin> fst ` set (zip (map (\<lambda>i. a + int i) [0..<length bs]) bs)" unfolding keys using that by auto
    then have "map_of (zip (map (\<lambda>i. a + int i) [0..<length bs]) bs) x = None" by (simp only: map_of_eq_None_iff not_False_eq_True)
    then show ?thesis by (simp only: map_of_append map_add_def option.case)
  qed
  have "length d = n \<and> (\<forall>i < n. d ! i = demo_mem_at w (a + int i))" if "obs_read demo_lldb w a n = Some d" for w a n d
    using those_map_nth[of "\<lambda>i. map_of (dw_mem w) (a + int i)" "[0..<n]" d] that
    by (simp add: demo_lldb_def demo_mem_at_def)
  moreover have "demo_mem_at (snd (do_write demo_lldb a bs w)) x = demo_mem_at w x"
    if "\<not> (a \<le> x \<and> x < a + int (length bs))" for a bs w x
    using other[OF that] by (simp add: demo_lldb_def demo_mem_at_def)
  moreover have "obs_process demo_lldb (snd (do_write demo_lldb a bs w)) = obs_process demo_lldb w" for a bs w
    by (simp add: demo_lldb_def)
  ultimately show ?thesis unfolding mem_law_def by blast
qed

lemma demo_write_at:
  "i < length bs \<Longrightarrow> demo_mem_at (snd (do_write demo_lldb a bs w)) (a + int i) = bs ! i"
proof -
  assume i: "i < length bs"
  let ?ks = "map (\<lambda>i. a + int i) [0..<length bs]"
  have "distinct ?ks" by (simp add: distinct_map inj_on_def)
  then have "map_of (zip ?ks bs) (?ks ! i) = Some (bs ! i)" using i by (intro map_of_zip_nth) simp_all
  moreover have "?ks ! i = a + int i" using i by simp
  ultimately have "map_of (zip ?ks bs) (a + int i) = Some (bs ! i)" by (simp only:)
  then show ?thesis by (simp add: demo_lldb_def demo_mem_at_def)
qed

definition demo_dbg :: "'w \<Rightarrow> 'w dbg" where
  "demo_dbg w = \<lparr>world = w, hardware_ids = {}, events = [], step_active = False, step_plan_active = False,
     step_target_depth = None, cloak_enabled = False, suppress_retry = False, retired_return = None,
     hw_continue = None, retired_candidate = None, recovery = None, recovery_failed = None, traced_stop = None\<rparr>"

end
