(* ===== verification/Breakpoints.thy ===== *)
theory Breakpoints
  imports Lldb
begin

text \<open>
  \<open>macdbg/core/breakpoints.py\<close>: hardware breakpoints are requested through the command
  interpreter, checked against what LLDB really installed and against the number of debug
  registers, and rolled back when the check fails; and the recovery of hardware stops whose
  breakpoint identifier LLDB lost, which retries a stop at most once.
\<close>

section \<open>Capacity\<close>

text \<open>\<open>hardware_breakpoint_capacity\<close>; the observation is the output of \<open>sysctl\<close>, None when it cannot run.\<close>

definition hardware_breakpoint_capacity :: "'w lldb \<Rightarrow> int res" where
  "hardware_breakpoint_capacity L = (case obs_slots L of
     Some out \<Rightarrow> (case py_int 10 (py_strip out) of
       Some n \<Rightarrow> if 0 < n then Inr n else Inl (RuntimeError ''cannot determine hardware breakpoint slots'')
     | None \<Rightarrow> Inl (RuntimeError ''cannot determine hardware breakpoint slots''))
   | None \<Rightarrow> Inl (RuntimeError ''cannot determine hardware breakpoint slots''))"

definition active_sites :: "breakpoint \<Rightarrow> addr list" where
  "active_sites b = (if bp_enabled b \<and> bp_hardware b
     then map loc_addr (filter (\<lambda>l. loc_enabled l \<and> loc_resolved l) (bp_locs b)) else [])"

definition hardware_sites :: "breakpoint list \<Rightarrow> addr list" where
  "hardware_sites bs = remdups (concat (map active_sites bs))"

definition hardware_usage :: "'w lldb \<Rightarrow> 'w \<Rightarrow> int" where
  "hardware_usage L w = (if obs_target L w then int (length (hardware_sites (obs_breakpoints L w))) else 0)"

definition validate_hardware_capacity :: "'w lldb \<Rightarrow> int \<Rightarrow> 'w \<Rightarrow> unit res" where
  "validate_hardware_capacity L reserve w =
     (let requested = hardware_usage L w + reserve in
      if requested = 0 then Inr ()
      else bindR (hardware_breakpoint_capacity L) (\<lambda>slots.
        guardR (requested \<le> slots) (RuntimeError
          (''hardware breakpoint allocation failed: '' @ py_str requested @ '' sites exceed '' @
           py_str slots @ '' slots''))))"

section \<open>Allocation\<close>

definition allocated_ok :: "bool \<Rightarrow> bool \<Rightarrow> breakpoint list \<Rightarrow> bool" where
  "allocated_ok succeeded require_location created = (case created of
     [b] \<Rightarrow> succeeded \<and> bp_hardware b \<and> (require_location \<longrightarrow> bp_locs b \<noteq> []) \<and>
       list_all loc_resolved (bp_locs b)
   | _ \<Rightarrow> False)"

definition shares_software :: "addr list \<Rightarrow> breakpoint \<Rightarrow> bool" where
  "shares_software sites b = (\<not> bp_hardware b \<and> bp_enabled b \<and>
     list_ex (\<lambda>l. loc_enabled l \<and> loc_addr l \<in> set sites) (bp_locs b))"

definition delete_created :: "'w lldb \<Rightarrow> breakpoint list \<Rightarrow> (('w, 'z) dbg_scheme, unit) py" where
  "delete_created L created = forP (\<lambda>b. seqP (onW (do_bp_delete L (bp_id b))) (retP ())) created"

definition checked_allocation :: "'w lldb \<Rightarrow> int \<Rightarrow> breakpoint \<Rightarrow> 'w \<Rightarrow> unit res" where
  "checked_allocation L reserve b w =
     bindR (guardR (\<not> list_ex (shares_software (map loc_addr (bp_locs b))) (obs_breakpoints L w))
       (RuntimeError ''hardware breakpoint shares a software breakpoint site; delete the software breakpoint first''))
     (\<lambda>_. validate_hardware_capacity L reserve w)"

definition create_hardware_breakpoint ::
    "'w lldb \<Rightarrow> string \<Rightarrow> bool \<Rightarrow> int \<Rightarrow> (('w, 'z) dbg_scheme, breakpoint) py" where
  "create_hardware_breakpoint L selector require_location reserve =
     bindP (getP (\<lambda>s. bp_ids L (world s))) (\<lambda>before.
     bindP (onW (do_command L (''breakpoint set -H '' @ selector))) (\<lambda>(succeeded, err).
     bindP (getP (\<lambda>s. filter (\<lambda>b. bp_id b \<notin> set before) (obs_breakpoints L (world s)))) (\<lambda>created.
     if \<not> allocated_ok succeeded require_location created
     then seqP (delete_created L created) (raiseP (RuntimeError
       (''hardware breakpoint allocation failed ('' @ selector @
        ''); free hardware breakpoint slots or reduce traced sites: '' @
        py_strip (if err = [] then ''no resolved hardware location'' else err))))
     else bindP (getP (\<lambda>s. checked_allocation L reserve (hd created) (world s))) (\<lambda>checked.
       case checked of
         Inl e \<Rightarrow> seqP (delete_created L created) (raiseP e)
       | Inr _ \<Rightarrow> retP (hd created)))))"

text \<open>\<open>Debugger.create_hardware_breakpoint_by_address\<close>: a slot is kept free for a cloaked step.\<close>

definition step_reserve :: "('w, 'z) dbg_scheme \<Rightarrow> int" where
  "step_reserve s = (if cloak_enabled s \<and> step_active s \<and> step_target_depth s \<noteq> None then 1 else 0)"

definition create_hardware_at :: "'w lldb \<Rightarrow> addr \<Rightarrow> (('w, 'z) dbg_scheme, breakpoint) py" where
  "create_hardware_at L a =
     bindP (getP step_reserve) (\<lambda>reserve.
     bindP (create_hardware_breakpoint L (''-a '' @ py_hex a) True reserve) (\<lambda>b.
     seqP (modP (\<lambda>s. s\<lparr>hardware_ids := insert (bp_id b) (hardware_ids s)\<rparr>))
     (retP b)))"

section \<open>Hardware stops without their identifier\<close>

text \<open>A \<open>BRK\<close> instruction is never retried.\<close>

definition brk_code :: "bytes \<Rightarrow> bool" where
  "brk_code code = (length code \<noteq> 4 \<or> le_int code AND 0xffe0001f = 0xd4200000)"

definition remember_hardware_return :: "'w lldb \<Rightarrow> int \<Rightarrow> ('w, 'z) dbg_scheme \<Rightarrow> ('w, 'z) dbg_scheme" where
  "remember_hardware_return L i s =
     (case obs_process L (world s) of None \<Rightarrow> s | Some p \<Rightarrow>
      case (selected_thread p, find_bp L (world s) i) of
        (Some t, Some b) \<Rightarrow>
          if \<not> bp_hardware b \<or> th_reason t \<noteq> SrBreakpoint \<or> length (th_data t) \<noteq> 2 \<or> th_data t ! 0 \<noteq> i
             \<or> flt_thread (bp_filters b) \<noteq> th_id t then s
          else (case th_pc t of None \<Rightarrow> s | Some pc \<Rightarrow>
            if \<not> list_ex (\<lambda>l. loc_resolved l \<and> loc_addr l = pc) (bp_locs b) then s
            else let code = read_memory L (world s) pc 4 in
              if brk_code code then s
              else s\<lparr>retired_return := Some ((pr_pid p, pr_stop p), th_id t, pc, code)\<rparr>)
      | _ \<Rightarrow> s)"

definition armed_site :: "breakpoint \<Rightarrow> bool" where
  "armed_site b = (bp_enabled b \<and> bp_hardware b \<and> list_ex loc_resolved (bp_locs b))"

definition continue_position :: "'w lldb \<Rightarrow> 'w \<Rightarrow> thread \<Rightarrow> (int, addr \<times> bytes) odict \<Rightarrow> (int, addr \<times> bytes) odict" where
  "continue_position L w t acc = (case th_pc t of None \<Rightarrow> acc | Some pc \<Rightarrow>
     let code = read_memory L w pc 4 in
     if brk_code code then acc else od_set (th_id t) (pc, code) acc)"

definition remember_continue_positions :: "'w lldb \<Rightarrow> ('w, 'z) dbg_scheme \<Rightarrow> ('w, 'z) dbg_scheme" where
  "remember_continue_positions L s0 =
     (let s = s0\<lparr>hw_continue := None\<rparr> in
      if suppress_retry s then s\<lparr>suppress_retry := False\<rparr>
      else if step_active s then s
      else case obs_process L (world s) of None \<Rightarrow> s | Some p \<Rightarrow>
        if \<not> starts_with (obs_triple L (world s)) ''arm64-'' \<or> \<not> pr_stopped p then s
        else if \<not> list_ex armed_site (obs_breakpoints L (world s)) then s
        else s\<lparr>hw_continue := Some ((pr_pid p, pr_stop p),
               fold (continue_position L (world s)) (pr_threads p) [])\<rparr>)"

text \<open>
  \<open>EXC_BREAKPOINT (code=1, subcode=0x...)\<close>: the match of the description, and its subcode.
\<close>

definition exc_subcode :: "string \<Rightarrow> int option" where
  "exc_subcode d = (let pre = ''EXC_BREAKPOINT (code=1, subcode=0x''; rest = drop (length pre) d in
     if starts_with d pre \<and> 2 \<le> length rest \<and> last rest = CHR '')'' \<and> list_all is_xdigit (butlast rest)
     then digits_int 16 False 0 (butlast rest) else None)"

text \<open>
  One thread of the loop of \<open>consume_hardware_debugger_duplicate\<close>; None is its
  \<open>return False\<close>. The accumulator is \<open>matched\<close> and \<open>retired_candidate\<close>.
\<close>

definition duplicate_code ::
    "((int \<times> int) \<times> int \<times> addr \<times> bytes) option \<Rightarrow> ((int \<times> int) \<times> (int, addr \<times> bytes) odict) option
     \<Rightarrow> int \<times> int \<Rightarrow> int \<Rightarrow> addr \<Rightarrow> int \<Rightarrow> bytes option \<times> bool" where
  "duplicate_code retired continued key owner pc subcode =
     (case retired of
        Some (k, o', a, code) \<Rightarrow>
          if k = key \<and> o' = owner \<and> a = pc \<and> subcode = pc then (Some code, True)
          else (case continued of Some (k2, ps) \<Rightarrow>
            if k2 = key \<and> subcode = 0 then
              (case map_of ps owner of Some (a2, c2) \<Rightarrow> if a2 = pc then Some c2 else None | None \<Rightarrow> None)
            else None | None \<Rightarrow> None, False)
      | None \<Rightarrow> (case continued of Some (k2, ps) \<Rightarrow>
            if k2 = key \<and> subcode = 0 then
              (case map_of ps owner of Some (a2, c2) \<Rightarrow> if a2 = pc then Some c2 else None | None \<Rightarrow> None)
            else None | None \<Rightarrow> None, False))"

fun duplicate_threads ::
    "'w lldb \<Rightarrow> 'w \<Rightarrow> ((int \<times> int) \<times> int \<times> addr \<times> bytes) option
     \<Rightarrow> ((int \<times> int) \<times> (int, addr \<times> bytes) odict) option \<Rightarrow> int \<times> int \<Rightarrow> thread list
     \<Rightarrow> addr list \<times> (int \<times> addr) option \<Rightarrow> (addr list \<times> (int \<times> addr) option) option" where
  "duplicate_threads L w retired continued key [] acc = Some acc"
| "duplicate_threads L w retired continued key (t # ts) (matched, cand) =
     (if idle_reason (th_reason t) then duplicate_threads L w retired continued key ts (matched, cand)
      else if th_reason t \<noteq> SrException then None
      else case (th_pc t, exc_subcode (th_description t)) of
        (Some pc, Some subcode) \<Rightarrow>
          (case duplicate_code retired continued key (th_id t) pc subcode of
             (None, _) \<Rightarrow> None
           | (Some code, own) \<Rightarrow>
               if read_memory L w pc 4 \<noteq> code then None
               else duplicate_threads L w retired continued key ts
                 (matched @ [pc], if own then Some (th_id t, pc) else cand))
      | _ \<Rightarrow> None)"

definition live_site :: "addr list \<Rightarrow> breakpoint \<Rightarrow> bool" where
  "live_site pcs b = (bp_enabled b \<and> list_ex (\<lambda>l. loc_enabled l \<and> loc_addr l \<in> set pcs) (bp_locs b))"

definition consume_hardware_duplicate :: "'w lldb \<Rightarrow> ('w, 'z) dbg_scheme \<Rightarrow> bool \<times> ('w, 'z) dbg_scheme" where
  "consume_hardware_duplicate L s0 =
     (let retired = retired_return s0; continued = hw_continue s0;
          s = s0\<lparr>retired_candidate := None, retired_return := None, hw_continue := None\<rparr> in
      if (retired = None \<and> continued = None) \<or> step_active s then (False, s)
      else case obs_process L (world s) of None \<Rightarrow> (False, s) | Some p \<Rightarrow>
        if \<not> pr_stopped p then (False, s)
        else case duplicate_threads L (world s) retired continued (pr_pid p, pr_stop p - 1) (pr_threads p) ([], None) of
          None \<Rightarrow> (False, s)
        | Some (matched, cand) \<Rightarrow>
            if matched = [] \<or> list_ex (live_site matched) (obs_breakpoints L (world s)) then (False, s)
            else (True, s\<lparr>suppress_retry := True,
                   retired_candidate := (if length matched = 1 then cand else None)\<rparr>))"

section \<open>Recovery by a single step\<close>

datatype verdict = Visible | Internal | Resumed | NotOurs

text \<open>The checks of the analysis cloak and the execution boundary of the debugger are passed in.\<close>

record 's hooks =
  hk_resume_ok :: "'s \<Rightarrow> bool"
  hk_integrity_ok :: "'s \<Rightarrow> bool"
  hk_step :: "int \<Rightarrow> ('s, unit) py"

definition start_hardware_recovery ::
    "'w lldb \<Rightarrow> ('w, 'z) dbg_scheme hooks \<Rightarrow> process \<Rightarrow> thread \<Rightarrow> int \<Rightarrow> addr \<Rightarrow> string
     \<Rightarrow> (('w, 'z) dbg_scheme, verdict) py" where
  "start_hardware_recovery L H p t owner pc src =
     (if th_id t \<noteq> owner then retP Visible
      else bindP (getP (\<lambda>s. hk_resume_ok H s \<and> hk_integrity_ok H s)) (\<lambda>safe.
        if \<not> safe then retP Visible
        else seqP (modP (\<lambda>s. s\<lparr>recovery := Some (pr_uid p, pr_stop p, owner, pc)\<rparr>))
          (seqP (record_event L ''DEBUGGER'' ''Recovered an unclassified hardware stop without skipping its instruction''
             [(''pc'', py_hex pc), (''thread'', py_str owner), (''source'', src)])
          (seqP (cleanupP (hk_step H (th_id t))
             (modP (\<lambda>s. s\<lparr>recovery := None, recovery_failed := Some (pr_uid p, owner, pc)\<rparr>)))
          (retP Resumed)))))"

definition finished_step :: "process \<Rightarrow> thread \<Rightarrow> int \<times> int \<times> int \<times> addr \<Rightarrow> bool" where
  "finished_step p t token = (case token of (identity, stop, owner, pc) \<Rightarrow>
     pr_uid p = identity \<and> pr_stop p = stop + 1 \<and> th_id t = owner \<and>
     (th_reason t = SrPlanComplete \<or> th_reason t = SrTrace) \<and>
     list_all (\<lambda>u. th_id u = owner \<or> idle_reason (th_reason u)) (pr_threads p))"

text \<open>\<open>description.lower() == 'exc_breakpoint (code=1, subcode={:#x})'\<close>.\<close>

definition own_exception :: "thread \<Rightarrow> addr \<Rightarrow> bool" where
  "own_exception t pc = (py_lower (th_description t) = ''exc_breakpoint (code=1, subcode='' @ py_hex pc @ '')'')"

definition recoverable_site :: "'w lldb \<Rightarrow> 'w \<Rightarrow> process \<Rightarrow> int \<Rightarrow> addr \<Rightarrow> int \<Rightarrow> bool" where
  "recoverable_site L w p owner pc i =
     (case find_bp L w i of None \<Rightarrow> False | Some b \<Rightarrow>
        bp_hardware b \<and> bp_enabled b \<and> flt_thread (bp_filters b) \<in> {owner, 0} \<and>
        \<not> brk_code (read_memory L w pc 4) \<and>
        \<not> list_ex (\<lambda>u. th_id u \<noteq> owner \<and> \<not> idle_reason (th_reason u)) (pr_threads p) \<and>
        \<not> list_ex (\<lambda>c. bp_id c \<noteq> i \<and> live_site [pc] c) (obs_breakpoints L w))"

definition recover_owned_hardware_stop ::
    "'w lldb \<Rightarrow> ('w, 'z) dbg_scheme hooks \<Rightarrow> process \<Rightarrow> thread \<Rightarrow> (('w, 'z) dbg_scheme, verdict) py" where
  "recover_owned_hardware_stop L H p t = (\<lambda>s0.
     let traced = traced_stop s0; token = recovery s0; s = s0\<lparr>traced_stop := None\<rparr> in
     case token of
       Some tok \<Rightarrow>
         (if finished_step p t tok
          then (Inr Internal, s\<lparr>recovery := None, recovery_failed := None, suppress_retry := False\<rparr>)
          else (Inr Visible, s\<lparr>recovery := None,
            recovery_failed := Some (case tok of (identity, _, owner, pc) \<Rightarrow> (identity, owner, pc))\<rparr>))
     | None \<Rightarrow>
       if step_active s \<or> \<not> pr_stopped p then (Inr NotOurs, s)
       else if th_reason t \<noteq> SrException then (Inr NotOurs, s\<lparr>recovery_failed := None\<rparr>)
       else case th_pc t of None \<Rightarrow> (Inr NotOurs, s) | Some pc \<Rightarrow>
         if \<not> own_exception t pc then (Inr NotOurs, s)
         else if recovery_failed s = Some (pr_uid p, th_id t, pc) then (Inr Visible, s)
         else case traced of None \<Rightarrow> (Inr NotOurs, s) | Some (uid, stop, owner, a, code, i) \<Rightarrow>
           if (uid, stop, owner, a) \<noteq> (pr_uid p, pr_stop p - 1, th_id t, pc)
              \<or> read_memory L (world s) pc 4 \<noteq> code then (Inr NotOurs, s)
           else if \<not> recoverable_site L (world s) p (th_id t) pc i then (Inr NotOurs, s)
           else start_hardware_recovery L H p t (th_id t) pc ''previously observed API trace stop'' s)"

section \<open>Allocation is transactional\<close>

lemma delete_created_run:
  assumes "bp_delete_law L"
  shows "\<exists>w. delete_created L cs s = (Inr (), s\<lparr>world := w\<rparr>) \<and>
    obs_breakpoints L w = filter (\<lambda>b. bp_id b \<notin> bp_id ` set cs) (obs_breakpoints L (world s))"
proof (induction cs arbitrary: s)
  case Nil
  have "s = s\<lparr>world := world s\<rparr>" by simp
  then show ?case unfolding delete_created_def by (intro exI[of _ "world s"]) (simp add: run)
next
  case (Cons c cs)
  obtain d w1 where w1: "do_bp_delete L (bp_id c) (world s) = (d, w1)" by force
  from bp_delete_lawD(1)[OF assms, of "bp_id c" "world s"] w1
  have obs: "obs_breakpoints L w1 = filter (\<lambda>b. bp_id b \<noteq> bp_id c) (obs_breakpoints L (world s))" by simp
  obtain w where "delete_created L cs (s\<lparr>world := w1\<rparr>) = (Inr (), s\<lparr>world := w1\<rparr>\<lparr>world := w\<rparr>)"
    "obs_breakpoints L w = filter (\<lambda>b. bp_id b \<notin> bp_id ` set cs) (obs_breakpoints L w1)"
    using Cons.IH[of "s\<lparr>world := w1\<rparr>"] by auto
  then show ?case using w1 obs
    by (intro exI[of _ w]) (auto simp: delete_created_def run onW_def intro: filter_cong)
qed

lemma wp_delete_created:
  assumes "bp_delete_law L"
    and "\<And>w. obs_breakpoints L w = filter (\<lambda>b. bp_id b \<notin> bp_id ` set cs) (obs_breakpoints L (world s))
       \<Longrightarrow> Q () (s\<lparr>world := w\<rparr>)"
  shows "wpP (delete_created L cs) Q E s"
  using delete_created_run[OF assms(1), of cs s] assms(2) by (auto simp: wpP_def)

text \<open>What a caller of the allocator can rely on.\<close>

definition allocated :: "'w lldb \<Rightarrow> int \<Rightarrow> 'w \<Rightarrow> breakpoint \<Rightarrow> 'w \<Rightarrow> bool" where
  "allocated L reserve w b w' =
     (obs_breakpoints L w' = obs_breakpoints L w @ [b] \<and> bp_id b \<notin> set (bp_ids L w) \<and>
      bp_hardware b \<and> list_all loc_resolved (bp_locs b) \<and>
      \<not> list_ex (shares_software (map loc_addr (bp_locs b))) (obs_breakpoints L w') \<and>
      validate_hardware_capacity L reserve w' = Inr ())"

lemma wp_create_hardware:
  assumes del: "bp_delete_law L" and cmd: "bp_command_law L"
    and Q: "\<And>b w. allocated L reserve (world s) b w \<Longrightarrow> (req \<longrightarrow> bp_locs b \<noteq> []) \<Longrightarrow> Q b (s\<lparr>world := w\<rparr>)"
    and E: "\<And>m w. obs_breakpoints L w = obs_breakpoints L (world s) \<Longrightarrow> E (RuntimeError m) (s\<lparr>world := w\<rparr>)"
  shows "wpP (create_hardware_breakpoint L sel req reserve) Q E s"
proof -
  let ?c = "''breakpoint set -H '' @ sel"
  obtain ok err w where w: "do_command L ?c (world s) = ((ok, err), w)" by (metis surj_pair)
  from bp_command_lawD[OF cmd, of ?c "world s"] w
  obtain new where new: "obs_breakpoints L w = obs_breakpoints L (world s) @ new"
    "\<forall>b \<in> set new. bp_id b \<notin> set (bp_ids L (world s))" by auto
  let ?created = "filter (\<lambda>b. bp_id b \<notin> set (bp_ids L (world s))) (obs_breakpoints L w)"
  have "filter (\<lambda>b. bp_id b \<notin> set (bp_ids L (world s))) (obs_breakpoints L (world s)) = []"
    by (auto simp: bp_ids_def filter_empty_conv)
  with new have created: "?created = new" by (simp add: filter_id_conv)
  have undo: "obs_breakpoints L v = obs_breakpoints L (world s)"
    if "obs_breakpoints L v = filter (\<lambda>b. bp_id b \<notin> bp_id ` set new) (obs_breakpoints L w)" for v
  proof -
    have "filter (\<lambda>b. bp_id b \<notin> bp_id ` set new) new = []" by (auto simp: filter_empty_conv)
    moreover have "filter (\<lambda>b. bp_id b \<notin> bp_id ` set new) (obs_breakpoints L (world s)) = obs_breakpoints L (world s)"
      by (rule filter_True) (use new(2) in \<open>auto simp: bp_ids_def, metis image_eqI\<close>)
    ultimately show ?thesis using that new(1) by simp
  qed
  have fail: "wpP (delete_created L new) (\<lambda>_. E (RuntimeError m)) E (s\<lparr>world := w\<rparr>)" for m
    by (rule wp_delete_created[OF del]) (use undo E in auto)
  show ?thesis
  proof (cases "allocated_ok ok req new")
    case False
    then show ?thesis using w created fail
      by (simp add: create_hardware_breakpoint_def wp split_beta)
  next
    case True
    then obtain b where b: "new = [b]" by (auto simp: allocated_ok_def split: list.splits)
    show ?thesis
    proof (cases "checked_allocation L reserve b w")
      case (Inl e)
      then obtain m where e: "e = RuntimeError m"
        by (auto simp: checked_allocation_def validate_hardware_capacity_def hardware_breakpoint_capacity_def
            guardR_def bindR_def Let_def split: if_splits option.splits)
      show ?thesis using w created fail True Inl b e
        by (simp add: create_hardware_breakpoint_def wp split_beta)
    next
      case (Inr u)
      have "allocated L reserve (world s) b w"
        using Inr b new True
        by (auto simp: allocated_def checked_allocation_def bindR_Inr allocated_ok_def)
      moreover have "req \<longrightarrow> bp_locs b \<noteq> []" using True b by (simp add: allocated_ok_def)
      ultimately show ?thesis using w created True Inr b Q
        by (simp add: create_hardware_breakpoint_def wp split_beta)
    qed
  qed
qed

lemma capacity_bound:
  assumes "validate_hardware_capacity L reserve w = Inr ()" "0 \<le> reserve"
  shows "hardware_usage L w + reserve = 0 \<or>
    (\<exists>slots. hardware_breakpoint_capacity L = Inr slots \<and> hardware_usage L w + reserve \<le> slots)"
  using assms by (auto simp: validate_hardware_capacity_def Let_def bindR_Inr split: if_splits)

text \<open>
  C8. Requesting a hardware breakpoint either raises and leaves LLDB's breakpoints and the debugger's
  record of hardware breakpoints as they were, or returns the one new breakpoint, which is hardware,
  resolved, shares no site with an enabled software breakpoint and fits the debug registers (with a
  register kept back for a cloaked step), and records it.
\<close>
theorem hardware_allocation_atomic:
  assumes "bp_delete_law L" "bp_command_law L" "create_hardware_at L a s = (r, t)"
  shows "(case r of
     Inl e \<Rightarrow> obs_breakpoints L (world t) = obs_breakpoints L (world s) \<and> hardware_ids t = hardware_ids s
   | Inr b \<Rightarrow> allocated L (step_reserve s) (world s) b (world t) \<and> bp_locs b \<noteq> [] \<and>
       hardware_ids t = insert (bp_id b) (hardware_ids s) \<and>
       (hardware_usage L (world t) + step_reserve s = 0 \<or>
        (\<exists>slots. hardware_breakpoint_capacity L = Inr slots \<and>
           hardware_usage L (world t) + step_reserve s \<le> slots)))"
proof -
  have "wpP (create_hardware_at L a)
     (\<lambda>b t. allocated L (step_reserve s) (world s) b (world t) \<and> bp_locs b \<noteq> [] \<and>
        hardware_ids t = insert (bp_id b) (hardware_ids s))
     (\<lambda>e t. obs_breakpoints L (world t) = obs_breakpoints L (world s) \<and> hardware_ids t = hardware_ids s) s"
    unfolding create_hardware_at_def wp
    by (rule wp_create_hardware[OF assms(1,2)]) auto
  moreover have "0 \<le> step_reserve s" by (simp add: step_reserve_def)
  ultimately show ?thesis using assms(3) capacity_bound[of L "step_reserve s" "world t"]
    by (cases r) (auto simp: wpP_def allocated_def)
qed

lemma demo_create:
  "create_hardware_at demo_lldb 0x1000 (demo_dbg demo_world) =
     (Inr (demo_bp 1 0x1000), (demo_dbg (demo_world\<lparr>dw_bps := [demo_bp 1 0x1000]\<rparr>))\<lparr>hardware_ids := {1}\<rparr>)"
  by code_simp

lemma hardware_allocation_atomic_witness:
  "hardware_usage demo_lldb (demo_world\<lparr>dw_bps := [demo_bp 1 0x1000]\<rparr>) + step_reserve (demo_dbg demo_world) \<le> 6"
proof -
  have "hardware_breakpoint_capacity demo_lldb = Inr 6" by code_simp
  then show ?thesis using hardware_allocation_atomic[OF demo_laws(1,2) demo_create]
    by (auto simp: demo_dbg_def)
qed


section \<open>A lost hardware stop is retried at most once\<close>

text \<open>
  The debugger's side of a session between two stops: what it remembers before a continue, and
  what it decides at the next stop. The target may do anything to the world in between.
\<close>

datatype 'w retry_op = RememberReturn int | RememberContinue | ConsumeDuplicate | TargetRuns 'w | StepMode bool

fun retry_step :: "'w lldb \<Rightarrow> 'w retry_op \<Rightarrow> ('w, 'z) dbg_scheme \<Rightarrow> ('w, 'z) dbg_scheme" where
  "retry_step L (RememberReturn i) s = remember_hardware_return L i s"
| "retry_step L RememberContinue s = remember_continue_positions L s"
| "retry_step L ConsumeDuplicate s = snd (consume_hardware_duplicate L s)"
| "retry_step L (TargetRuns w) s = s\<lparr>world := w\<rparr>"
| "retry_step L (StepMode b) s = s\<lparr>step_active := b\<rparr>"

definition retry_ok :: "('w, 'z) dbg_scheme \<Rightarrow> bool" where
  "retry_ok s =
     ((\<forall>k o' a code. retired_return s = Some (k, o', a, code) \<longrightarrow> \<not> brk_code code) \<and>
      (\<forall>k ps o' a code. hw_continue s = Some (k, ps) \<longrightarrow> map_of ps o' = Some (a, code) \<longrightarrow> \<not> brk_code code))"

lemma continue_position_ok:
  "\<forall>o' a code. map_of acc o' = Some (a, code) \<longrightarrow> \<not> brk_code code \<Longrightarrow>
   map_of (fold (continue_position L w) ts acc) o' = Some (a, code) \<Longrightarrow> \<not> brk_code code"
proof (induction ts arbitrary: acc)
  case (Cons t ts)
  have "\<forall>o' a code. map_of (continue_position L w t acc) o' = Some (a, code) \<longrightarrow> \<not> brk_code code"
    using Cons.prems(1)
    by (auto simp: continue_position_def Let_def od_get_set split: option.splits if_splits)
  with Cons show ?case by (metis fold_simps(2))
qed auto

lemma retry_step_ok: "retry_ok s \<Longrightarrow> retry_ok (retry_step L c s)"
proof (cases c)
  case (RememberReturn i)
  moreover assume "retry_ok s"
  ultimately show ?thesis
    by (auto simp: retry_ok_def remember_hardware_return_def Let_def split: option.splits)
next
  case RememberContinue
  moreover assume "retry_ok s"
  moreover have "map_of (fold (continue_position L w) ts []) o' = Some (a, code) \<Longrightarrow> \<not> brk_code code" for w ts o' a code
    by (rule continue_position_ok[of "[]"]) auto
  ultimately show ?thesis
    by (auto simp: retry_ok_def remember_continue_positions_def Let_def split: option.splits)
next
  case ConsumeDuplicate
  then show ?thesis
    by (auto simp: retry_ok_def consume_hardware_duplicate_def Let_def split: option.splits if_splits prod.splits)
qed (auto simp: retry_ok_def)

definition retry_reachable :: "'w lldb \<Rightarrow> ('w, 'z) dbg_scheme \<Rightarrow> ('w, 'z) dbg_scheme \<Rightarrow> bool" where
  "retry_reachable L s0 s = (\<exists>cs. retired_return s0 = None \<and> hw_continue s0 = None \<and> s = fold (retry_step L) cs s0)"

lemma retry_reachable_ok: "retry_reachable L s0 s \<Longrightarrow> retry_ok s"
proof -
  have "retry_ok s0 \<Longrightarrow> retry_ok (fold (retry_step L) cs s0)" for cs
    by (induction cs arbitrary: s0) (auto simp: retry_step_ok)
  moreover have "retired_return s0 = None \<Longrightarrow> hw_continue s0 = None \<Longrightarrow> retry_ok s0" by (simp add: retry_ok_def)
  ultimately show "retry_reachable L s0 s \<Longrightarrow> retry_ok s" by (auto simp: retry_reachable_def)
qed

text \<open>A stop that may be retried: a breakpoint exception at an unchanged instruction that is no trap.\<close>

definition retryable :: "'w lldb \<Rightarrow> 'w \<Rightarrow> thread \<Rightarrow> bool" where
  "retryable L w t = (idle_reason (th_reason t) \<or>
     (th_reason t = SrException \<and> exc_subcode (th_description t) \<noteq> None \<and>
      (\<exists>pc. th_pc t = Some pc \<and> \<not> brk_code (read_memory L w pc 4))))"

lemma duplicate_code_ok:
  assumes "duplicate_code retired continued key owner pc subcode = (Some code, own)"
    and "\<forall>k o' a code. retired = Some (k, o', a, code) \<longrightarrow> \<not> brk_code code"
    and "\<forall>k ps o' a code. continued = Some (k, ps) \<longrightarrow> map_of ps o' = Some (a, code) \<longrightarrow> \<not> brk_code code"
  shows "\<not> brk_code code"
  using assms unfolding duplicate_code_def by (auto split: option.splits prod.splits if_splits)

lemma duplicate_threads_ok:
  assumes "duplicate_threads L w retired continued key ts acc = Some (matched, cand)"
    and "\<forall>k o' a code. retired = Some (k, o', a, code) \<longrightarrow> \<not> brk_code code"
    and "\<forall>k ps o' a code. continued = Some (k, ps) \<longrightarrow> map_of ps o' = Some (a, code) \<longrightarrow> \<not> brk_code code"
  shows "set (fst acc) \<subseteq> set matched \<and> (\<forall>t \<in> set ts. retryable L w t \<and>
    (\<not> idle_reason (th_reason t) \<longrightarrow> (\<exists>pc \<in> set matched. th_pc t = Some pc)))"
  using assms
proof (induction L w retired continued key ts acc rule: duplicate_threads.induct)
  case (2 L w retired continued key t ts m c)
  show ?case
  proof (cases "idle_reason (th_reason t)")
    case True
    with 2 show ?thesis by (simp add: retryable_def)
  next
    case False
    with "2.prems"(1) obtain pc subcode code own where h: "th_reason t = SrException" "th_pc t = Some pc"
      "exc_subcode (th_description t) = Some subcode"
      "duplicate_code retired continued key (th_id t) pc subcode = (Some code, own)"
      "read_memory L w pc 4 = code"
      "duplicate_threads L w retired continued key ts (m @ [pc], if own then Some (th_id t, pc) else c) = Some (matched, cand)"
      by (auto split: if_splits option.splits prod.splits)
    have "\<not> brk_code code" by (rule duplicate_code_ok[OF h(4) "2.prems"(2,3)])
    moreover have "set (m @ [pc]) \<subseteq> set matched \<and> (\<forall>t \<in> set ts. retryable L w t \<and>
        (\<not> idle_reason (th_reason t) \<longrightarrow> (\<exists>pc \<in> set matched. th_pc t = Some pc)))"
      using "2.IH"(2)[OF False _ _ h(2) h(3) h(4)[symmetric]] h "2.prems" by simp
    ultimately show ?thesis using h by (simp add: retryable_def)
  qed
qed simp



definition demo_thread :: "int \<Rightarrow> stop_reason \<Rightarrow> int list \<Rightarrow> string \<Rightarrow> addr \<Rightarrow> thread" where
  "demo_thread i r data d pc = \<lparr>th_id = i, th_reason = r, th_data = data, th_description = d,
     th_frames = [\<lparr>fr_pc = pc, fr_regs = []\<rparr>]\<rparr>"

definition demo_process :: "int \<Rightarrow> thread list \<Rightarrow> process" where
  "demo_process stop ts = \<lparr>pr_pid = 7, pr_uid = 1, pr_stop = stop, pr_stopped = True, pr_threads = ts, pr_selected = 1\<rparr>"

definition demo_nop :: "addr \<Rightarrow> (addr \<times> char) list" where
  "demo_nop a = zip (map (\<lambda>i. a + int i) [0..<4]) (int_le 4 0xd503201f)"

definition demo_hit :: demo_world where
  "demo_hit = \<lparr>dw_bps = [set_thread 1 1 (demo_bp 1 0x1000)],
     dw_process = Some (demo_process 5 [demo_thread 1 SrBreakpoint [1, 1] [] 0x1000]),
     dw_mem = demo_nop 0x1000, dw_map = [], dw_log = []\<rparr>"

definition demo_lost :: demo_world where
  "demo_lost = \<lparr>dw_bps = [],
     dw_process = Some (demo_process 6 [demo_thread 1 SrException [] ''EXC_BREAKPOINT (code=1, subcode=0x1000)'' 0x1000]),
     dw_mem = demo_nop 0x1000, dw_map = [], dw_log = []\<rparr>"

lemma demo_remembered:
  "remember_hardware_return demo_lldb 1 (demo_dbg demo_hit) =
     (demo_dbg demo_hit)\<lparr>retired_return := Some ((7, 5), 1, 0x1000, int_le 4 0xd503201f)\<rparr>"
  by code_simp

lemma demo_consumed:
  "consume_hardware_duplicate demo_lldb
     ((demo_dbg demo_lost)\<lparr>retired_return := Some ((7, 5), 1, 0x1000, int_le 4 0xd503201f)\<rparr>) =
   (True, (demo_dbg demo_lost)\<lparr>suppress_retry := True, retired_candidate := Some (1, 0x1000)\<rparr>)"
  by code_simp


section \<open>A failed recovery is surfaced, never repeated\<close>

fun drive :: "'w lldb \<Rightarrow> ('w, 'z) dbg_scheme hooks \<Rightarrow> ('w \<times> process \<times> thread) list
    \<Rightarrow> ('w, 'z) dbg_scheme \<Rightarrow> verdict list \<times> ('w, 'z) dbg_scheme" where
  "drive L H [] s = ([], s)"
| "drive L H ((w, p, t) # stops) s = (case recover_owned_hardware_stop L H p t (s\<lparr>world := w\<rparr>) of
     (Inl e, s1) \<Rightarrow> ([], s1)
   | (Inr v, s1) \<Rightarrow> (let (vs, s2) = drive L H stops s1 in (v # vs, s2)))"

definition same_exception :: "int \<Rightarrow> int \<Rightarrow> addr \<Rightarrow> process \<Rightarrow> thread \<Rightarrow> bool" where
  "same_exception uid owner pc p t = (pr_uid p = uid \<and> pr_stopped p \<and> th_id t = owner \<and>
     th_pc t = Some pc \<and> th_reason t = SrException \<and> own_exception t pc)"

lemma drive_failed:
  assumes "recovery s = None" "recovery_failed s = Some (uid, owner, pc)" "\<not> step_active s"
    and "\<forall>(w, p, t) \<in> set stops. same_exception uid owner pc p t"
  shows "fst (drive L H stops s) = replicate (length stops) Visible"
  using assms
proof (induction stops arbitrary: s)
  case (Cons x stops)
  obtain w p t where x: "x = (w, p, t)" by (cases x) auto
  let ?s1 = "s\<lparr>world := w, traced_stop := None\<rparr>"
  have "recover_owned_hardware_stop L H p t (s\<lparr>world := w\<rparr>) = (Inr Visible, ?s1)"
    using Cons.prems x by (simp add: recover_owned_hardware_stop_def Let_def same_exception_def)
  moreover have "fst (drive L H stops ?s1) = replicate (length stops) Visible"
    using Cons.prems x by (intro Cons.IH) auto
  ultimately show ?case using x by (simp add: split_beta)
qed simp


definition demo_hooks :: "(demo_world, 'z) dbg_scheme hooks" where
  "demo_hooks = \<lparr>hk_resume_ok = (\<lambda>_. True), hk_integrity_ok = (\<lambda>_. True),
     hk_step = (\<lambda>t. modP (\<lambda>s. s\<lparr>world := (world s)\<lparr>dw_log := dw_log (world s) @ [''step'']\<rparr>\<rparr>))\<rparr>"


text \<open>
  A recovery steps only a thread stopped by a breakpoint exception at its own program counter, when
  the cloak's checks pass, no user step is active, the enabled hardware breakpoint observed there is
  still installed for that thread, its instruction is no trap and has not changed, no other breakpoint
  is live there and no other thread has stopped; the token it leaves names exactly that stop.
\<close>
theorem recovery_steps_own_site:
  assumes "recover_owned_hardware_stop L H p t s = (r, s')" "r = Inr Resumed"
    and "\<And>i tok. keepsP (\<lambda>u. recovery u = tok) (hk_step H i)"
  shows "\<exists>pc code i. th_pc t = Some pc \<and> th_reason t = SrException \<and> own_exception t pc \<and>
    \<not> step_active s \<and> recovery s = None \<and> recovery_failed s \<noteq> Some (pr_uid p, th_id t, pc) \<and>
    traced_stop s = Some (pr_uid p, pr_stop p - 1, th_id t, pc, code, i) \<and>
    read_memory L (world s) pc 4 = code \<and> recoverable_site L (world s) p (th_id t) pc i \<and>
    recovery s' = Some (pr_uid p, pr_stop p, th_id t, pc)"
proof -
  let ?s = "s\<lparr>traced_stop := None\<rparr>"
  from assms(1,2) obtain pc code i where h: "recovery s = None" "\<not> step_active s" "th_reason t = SrException"
    "th_pc t = Some pc" "own_exception t pc" "recovery_failed s \<noteq> Some (pr_uid p, th_id t, pc)"
    "traced_stop s = Some (pr_uid p, pr_stop p - 1, th_id t, pc, code, i)"
    "read_memory L (world s) pc 4 = code" "recoverable_site L (world s) p (th_id t) pc i"
    "start_hardware_recovery L H p t (th_id t) pc ''previously observed API trace stop'' ?s = (r, s')"
    unfolding recover_owned_hardware_stop_def Let_def
    by (auto split: option.splits if_splits prod.splits)
  have step: "recovery v = recovery u" if "hk_step H i u = (x, v)" for i u x v
    using keepsP_D[OF assms(3)[where i = i and tok = "recovery u"], of u] that by simp
  have "recovery s' = Some (pr_uid p, pr_stop p, th_id t, pc)"
    using h(10) assms(2) unfolding start_hardware_recovery_def
    by (auto simp: run record_event_def cleanupP_def split: if_splits sum.splits prod.splits dest!: step)
  with h show ?thesis by auto
qed

definition demo_recover :: "demo_world dbg" where
  "demo_recover = (demo_dbg (demo_lost\<lparr>dw_bps := [set_thread 1 1 (demo_bp 1 0x1000)]\<rparr>))
     \<lparr>traced_stop := Some (1, 5, 1, 0x1000, int_le 4 0xd503201f, 1)\<rparr>"

lemma start_resumes:
  assumes "hk_resume_ok H s" "hk_integrity_ok H s" "\<And>u. fst (hk_step H (th_id t) u) = Inr ()"
  shows "fst (start_hardware_recovery L H p t (th_id t) pc src s) = Inr Resumed"
  using assms
  by (simp add: start_hardware_recovery_def run cleanupP_def record_event_def split_beta)

lemma recover_starts:
  assumes "recovery s = None" "\<not> step_active s" "pr_stopped p" "th_reason t = SrException" "th_pc t = Some pc"
    "own_exception t pc" "recovery_failed s = None"
    "traced_stop s = Some (pr_uid p, pr_stop p - 1, th_id t, pc, read_memory L (world s) pc 4, i)"
    "recoverable_site L (world s) p (th_id t) pc i"
  shows "recover_owned_hardware_stop L H p t s =
    start_hardware_recovery L H p t (th_id t) pc ''previously observed API trace stop'' (s\<lparr>traced_stop := None\<rparr>)"
  using assms by (simp add: recover_owned_hardware_stop_def Let_def)

lemma recovery_steps_own_site_witness:
  "recovery (snd (recover_owned_hardware_stop demo_lldb demo_hooks (demo_process 6 [])
     (demo_thread 1 SrException [] ''EXC_BREAKPOINT (code=1, subcode=0x1000)'' 0x1000) demo_recover))
   = Some (1, 6, 1, 0x1000)"
proof -
  let ?t = "demo_thread 1 SrException [] ''EXC_BREAKPOINT (code=1, subcode=0x1000)'' 0x1000"
  obtain r s' where rr: "recover_owned_hardware_stop demo_lldb demo_hooks (demo_process 6 []) ?t demo_recover = (r, s')"
    by fastforce
  have own: "own_exception ?t 0x1000" by code_simp
  have mem: "read_memory demo_lldb (world demo_recover) 0x1000 4 = int_le 4 0xd503201f" by code_simp
  have site: "recoverable_site demo_lldb (world demo_recover) (demo_process 6 []) 1 0x1000 1" by code_simp
  have t: "th_pc ?t = Some 0x1000" "th_id ?t = 1" "th_reason ?t = SrException"
    by (simp_all add: demo_thread_def th_pc_def th_frame_def)
  have d: "recovery demo_recover = None" "\<not> step_active demo_recover" "recovery_failed demo_recover = None"
    "traced_stop demo_recover = Some (1, 5, 1, 0x1000, int_le 4 0xd503201f, 1)"
    by (simp_all add: demo_recover_def demo_dbg_def)
  have p: "pr_stopped (demo_process 6 [])" "pr_uid (demo_process 6 []) = 1" "pr_stop (demo_process 6 []) = 6"
    by (simp_all add: demo_process_def)
  have "fst (start_hardware_recovery demo_lldb demo_hooks (demo_process 6 []) ?t (th_id ?t) 0x1000
      ''previously observed API trace stop'' (demo_recover\<lparr>traced_stop := None\<rparr>)) = Inr Resumed"
    by (rule start_resumes) (simp_all add: demo_hooks_def run)
  then have r: "r = Inr Resumed"
    using rr recover_starts[of demo_recover "demo_process 6 []" ?t "0x1000" demo_lldb 1 demo_hooks] own mem site t d p
    by simp
  have "keepsP (\<lambda>u. recovery u = tok) (hk_step demo_hooks i)" for i and tok :: "(int \<times> int \<times> int \<times> addr) option"
    by (simp add: demo_hooks_def keepsP_mod)
  from recovery_steps_own_site[OF rr r this] rr t p show ?thesis by auto
qed


lemma wp_create_at:
  assumes laws: "bp_delete_law L" "bp_command_law L"
    and Q: "\<And>b w. bp_id b \<notin> set (bp_ids L (world s)) \<Longrightarrow> bp_ids L w = bp_ids L (world s) @ [bp_id b] \<Longrightarrow>
      Q b (s\<lparr>world := w, hardware_ids := insert (bp_id b) (hardware_ids s)\<rparr>)"
    and E: "\<And>m w. bp_ids L w = bp_ids L (world s) \<Longrightarrow> E (RuntimeError m) (s\<lparr>world := w\<rparr>)"
  shows "wpP (create_hardware_at L a) Q E s"
  unfolding create_hardware_at_def wp
  by (rule wp_create_hardware[OF laws]) (auto intro!: Q E simp: allocated_def bp_ids_def)

section \<open>What the operations leave alone\<close>

lemma keepsP_create [keeps]: "dbg_frame I \<Longrightarrow> keepsP I (create_hardware_at L a)"
  unfolding create_hardware_at_def create_hardware_breakpoint_def delete_created_def
  by (intro keeps keepsP_mod) (auto intro!: keeps simp: dbg_frameD split: prod.splits sum.splits)

lemma keepsP_remember [keeps]: "dbg_frame I \<Longrightarrow> keepsP I (modP (remember_hardware_return L i))"
  by (rule keepsP_mod) (auto simp: remember_hardware_return_def Let_def dbg_frameD split: option.splits)

end
