(* ===== verification/EntryPlan.thy ===== *)
theory EntryPlan
  imports Breakpoints
begin

text \<open>
  \<open>macdbg/core/entry_plan.py\<close>: defenses queued at the initial loader stop and enabled at the
  entry point. Where the process stands, and the \<open>enable_...\<close> methods of the debugger, come
  from its other components and are arguments.
\<close>

record 'w entry_dbg = "'w dbg" +
  ep_queued :: "string list"
  ep_bp :: "int option"
  ep_error :: "string option"

record 's entry_env =
  en_target :: "'s \<Rightarrow> bool"
  en_at_loader :: "'s \<Rightarrow> bool"
  en_at_entry :: "'s \<Rightarrow> bool"
  en_entry :: "'s \<Rightarrow> addr option"
  en_enable :: "string \<Rightarrow> ('s, bool \<times> string) py"

definition modes :: "string list" where
  "modes = [''analysis_cloak'', ''auto_clock'']"

definition ep_clear :: "'w lldb \<Rightarrow> ('w, 'z) entry_dbg_scheme entry_env \<Rightarrow> bool \<Rightarrow> (('w, 'z) entry_dbg_scheme, unit) py" where
  "ep_clear L env keep_queue =
     bindP (getP (\<lambda>s. (ep_bp s, en_target env s))) (\<lambda>(bp, target).
     seqP (case bp of Some i \<Rightarrow> whenP (target \<and> i \<noteq> 0) (seqP (delete_breakpoint L i) (retP ())) | None \<Rightarrow> retP ())
     (modP (\<lambda>s. s\<lparr>ep_bp := None, ep_error := None, ep_queued := (if keep_queue then ep_queued s else [])\<rparr>)))"

definition ep_queue :: "('w, 'z) entry_dbg_scheme entry_env \<Rightarrow> string \<Rightarrow> bool \<Rightarrow> (('w, 'z) entry_dbg_scheme, string list) py" where
  "ep_queue env name enabled =
     (if name \<notin> set modes then raiseP (ValueError ''only Analysis cloak and automatic clocks can be queued at entry'')
      else bindP (getP (en_at_loader env)) (\<lambda>ready.
        if \<not> ready then raiseP (ValueError ''queue entry defenses at the initial loader stop'')
        else seqP (modP (\<lambda>s. s\<lparr>ep_queued := (if enabled then List.insert name (ep_queued s) else removeAll name (ep_queued s))\<rparr>))
          (getP (\<lambda>s. filter (\<lambda>m. m \<in> set (ep_queued s)) modes))))"

definition ep_arm :: "'w lldb \<Rightarrow> ('w, 'z) entry_dbg_scheme entry_env \<Rightarrow> (('w, 'z) entry_dbg_scheme, unit) py" where
  "ep_arm L env =
     bindP (getP (\<lambda>s. (ep_bp s, en_entry env s))) (\<lambda>(bp, address).
     if bp \<noteq> None then retP ()
     else case address of
       None \<Rightarrow> raiseP (RuntimeError ''main entry address is unavailable'')
     | Some a \<Rightarrow>
         if a = 0 then raiseP (RuntimeError ''main entry address is unavailable'')
         else bindP (create_hardware_at L a) (\<lambda>b. modP (\<lambda>s. s\<lparr>ep_bp := Some (bp_id b)\<rparr>)))"

text \<open>One round of the loop over \<open>MODES\<close>: a failing defense stays queued and blocks execution.\<close>

definition ep_enable :: "'w lldb \<Rightarrow> ('w, 'z) entry_dbg_scheme entry_env \<Rightarrow> string \<Rightarrow> (('w, 'z) entry_dbg_scheme, unit) py" where
  "ep_enable L env name =
     bindP (getP (\<lambda>s. name \<in> set (ep_queued s))) (\<lambda>wanted.
     whenP wanted (bindP (en_enable env name) (\<lambda>(ok, message).
       seqP (record_event L ''DEFENSE'' message [(''defense'', name), (''ready'', if ok then ''True'' else ''False'')])
       (if \<not> ok then seqP (modP (\<lambda>s. s\<lparr>ep_error := Some message\<rparr>)) (raiseP (RuntimeError message))
        else modP (\<lambda>s. s\<lparr>ep_queued := removeAll name (ep_queued s)\<rparr>)))))"

definition ep_apply_stop :: "'w lldb \<Rightarrow> ('w, 'z) entry_dbg_scheme entry_env \<Rightarrow> (('w, 'z) entry_dbg_scheme, bool) py" where
  "ep_apply_stop L env =
     bindP (getP (\<lambda>s. (ep_bp s, en_at_entry env s))) (\<lambda>(bp, here).
     case bp of None \<Rightarrow> retP False
     | Some i \<Rightarrow> if \<not> here then retP False
         else seqP (delete_breakpoint L i)
           (seqP (modP (\<lambda>s. s\<lparr>ep_bp := None\<rparr>))
           (seqP (forP (ep_enable L env) modes)
           (retP True))))"

text \<open>The methods of the defenses leave the plan alone.\<close>

definition enable_frame :: "('w, 'z) entry_dbg_scheme entry_env \<Rightarrow> bool" where
  "enable_frame env = (\<forall>n s. let t = snd (en_enable env n s) in
     ep_queued t = ep_queued s \<and> ep_bp t = ep_bp s \<and> ep_error t = ep_error s \<and> events t = events s)"

lemma enable_frameD:
  "enable_frame env \<Longrightarrow> en_enable env n s = (r, u) \<Longrightarrow>
     ep_queued u = ep_queued s \<and> ep_bp u = ep_bp s \<and> ep_error u = ep_error s"
  unfolding enable_frame_def by (metis (no_types, lifting) snd_conv)

text \<open>The \<open>enable_...\<close> methods report a failure by their value.\<close>

definition enable_total :: "('w, 'z) entry_dbg_scheme entry_env \<Rightarrow> bool" where
  "enable_total env = (\<forall>n s. \<exists>x. fst (en_enable env n s) = Inr x)"

lemma wp_ep_enable:
  assumes "enable_frame env" "enable_total env"
  shows "wpP (ep_enable L env n)
     (\<lambda>_ u. ep_queued u = removeAll n (ep_queued s) \<and> ep_error u = ep_error s \<and> ep_bp u = ep_bp s)
     (\<lambda>e u. n \<in> set (ep_queued u) \<and> ep_bp u = ep_bp s \<and> (\<exists>m. e = RuntimeError m \<and> ep_error u = Some m)) s"
proof -
  obtain r u where e: "en_enable env n s = (r, u)" by fastforce
  then obtain ok m where r: "r = Inr (ok, m)" using assms(2) unfolding enable_total_def by (metis fst_conv surj_pair)
  have "wpP (en_enable env n) Q E s = Q (ok, m) u" for Q E using e r by (simp add: wpP_def)
  then show ?thesis using enable_frameD[OF assms(1) e]
    by (auto simp: ep_enable_def wp)
qed


definition demo_entry_env :: "(demo_world, 'z) entry_dbg_scheme entry_env" where
  "demo_entry_env = \<lparr>en_target = (\<lambda>_. True), en_at_loader = (\<lambda>_. True), en_at_entry = (\<lambda>_. True),
     en_entry = (\<lambda>_. Some 0x1000), en_enable = (\<lambda>n. retP (n = ''analysis_cloak'', n))\<rparr>"


end
