(* ===== verification/ReturnHooks.thy ===== *)
theory ReturnHooks
  imports Breakpoints
begin

text \<open>
  \<open>macdbg/core/return_hooks.py\<close>: breakpoints at return addresses, each owned by one call: a
  thread, a stack pointer and a payload. A stop consumes every hook it matches, newest call first.
\<close>

record 'p ret_hook =
  rh_tid :: int
  rh_sp :: int
  rh_address :: addr
  rh_payload :: 'p
  rh_invocation :: int

record ('w, 'p) hooks_dbg = "'w dbg" +
  rh_limit :: nat
  rh_pending :: "(int, 'p ret_hook) odict"
  rh_sequence :: int
  rh_retired :: "int set"

definition rh_ids :: "('w, 'p, 'z) hooks_dbg_scheme \<Rightarrow> int set" where
  "rh_ids s = fst ` set (rh_pending s)"

definition rh_clear :: "'w lldb \<Rightarrow> (('w, 'p, 'z) hooks_dbg_scheme, unit) py" where
  "rh_clear L = bindP (getP (\<lambda>s. map fst (rh_pending s))) (\<lambda>is.
     seqP (forP (\<lambda>i. seqP (delete_breakpoint L i) (retP ())) is)
     (modP (\<lambda>s. s\<lparr>rh_pending := [], rh_retired := {}\<rparr>)))"

definition rh_arm :: "'w lldb \<Rightarrow> thread \<Rightarrow> frame \<Rightarrow> 'p \<Rightarrow> (('w, 'p, 'z) hooks_dbg_scheme, int) py" where
  "rh_arm L t f payload =
     bindP (getP (\<lambda>s. rh_limit s \<le> length (rh_pending s))) (\<lambda>full.
     if full then raiseP (RuntimeError ''pending return observation limit reached'')
     else let address = reg_unsigned f ''lr'' in
       if address = 0 then raiseP (RuntimeError ''return address unavailable'')
       else bindP (create_hardware_at L address) (\<lambda>b.
         seqP (onW (do_bp_thread L (bp_id b) (th_id t)))
         (seqP (modP (\<lambda>s. s\<lparr>rh_sequence := rh_sequence s + 1\<rparr>))
         (seqP (modP (\<lambda>s. s\<lparr>rh_pending := od_set (bp_id b)
            \<lparr>rh_tid = th_id t, rh_sp = reg_unsigned f ''sp'', rh_address = address,
             rh_payload = payload, rh_invocation = rh_sequence s\<rparr> (rh_pending s)\<rparr>))
         (getP rh_sequence)))))"

definition rh_match :: "thread \<Rightarrow> frame \<Rightarrow> 'p ret_hook \<Rightarrow> bool" where
  "rh_match t f h = (rh_tid h = th_id t \<and> rh_address h = fr_pc f \<and> rh_sp h = reg_unsigned f ''sp'')"

definition rh_forget :: "'w lldb \<Rightarrow> int \<Rightarrow> (('w, 'p, 'z) hooks_dbg_scheme, unit) py" where
  "rh_forget L i = seqP (modP (remember_hardware_return L i))
     (seqP (delete_breakpoint L i) (modP (\<lambda>s. s\<lparr>rh_pending := od_pop i (rh_pending s)\<rparr>)))"

definition rh_consume :: "'w lldb \<Rightarrow> thread \<Rightarrow> frame \<Rightarrow> (('w, 'p, 'z) hooks_dbg_scheme, 'p ret_hook list) py" where
  "rh_consume L t f =
     (if th_reason t \<noteq> SrBreakpoint then retP []
      else bindP (getP (\<lambda>s. filter (\<lambda>(i, h). rh_match t f h) (rh_pending s))) (\<lambda>matches.
        if matches = [] then retP []
        else seqP (modP (\<lambda>s. s\<lparr>rh_retired := fst ` set matches\<rparr>))
          (seqP (forP (rh_forget L) (map fst matches))
          (retP (map snd (rev matches))))))"

section \<open>The outstanding calls\<close>

text \<open>
  What the hooks stand for: the calls not yet seen to return, oldest first. The invariant ties
  each of them to a hardware breakpoint of its own.
\<close>

definition outstanding :: "('w, 'p, 'z) hooks_dbg_scheme \<Rightarrow> 'p ret_hook list" where
  "outstanding s = map snd (rh_pending s)"

definition hooks_inv :: "'w lldb \<Rightarrow> ('w, 'p, 'z) hooks_dbg_scheme \<Rightarrow> bool" where
  "hooks_inv L s =
     (od_ok (rh_pending s) \<and> length (rh_pending s) \<le> rh_limit s \<and>
      rh_ids s \<subseteq> hardware_ids s \<inter> set (bp_ids L (world s)) \<and>
      sorted_wrt (<) (map rh_invocation (outstanding s)) \<and>
      (\<forall>h \<in> set (outstanding s). rh_address h \<noteq> 0 \<and> rh_invocation h \<le> rh_sequence s))"

lemma remember_more [simp]:
  "rh_pending (remember_hardware_return L i s) = rh_pending s"
  "rh_limit (remember_hardware_return L i s) = rh_limit s"
  "rh_sequence (remember_hardware_return L i s) = rh_sequence s"
  "hardware_ids (remember_hardware_return L i s) = hardware_ids s"
  "world (remember_hardware_return L i s) = world s"
  by (simp_all add: remember_hardware_return_def Let_def split: option.splits)

lemma sorted_wrt_filter_map: "sorted_wrt (<) (map g xs) \<Longrightarrow> sorted_wrt (<) (map (g :: _ \<Rightarrow> int) (filter P xs))"
  by (induction xs) auto

lemma hooks_inv_clear:
  "bp_delete_law L \<Longrightarrow> wpP (rh_clear L) (\<lambda>_ t. hooks_inv L t \<and> outstanding t = []) (\<lambda>_ _. False) s"
proof -
  have "wpP (forP (\<lambda>i. seqP (delete_breakpoint L i) (retP ())) is) (\<lambda>_ _. True) (\<lambda>_ _. False) s" for "is" s
    by (rule wpP_for) (auto simp: wp Let_def split_beta)
  then show ?thesis unfolding rh_clear_def
    by (simp add: wp) (rule wpP_weaken, auto simp: hooks_inv_def outstanding_def rh_ids_def od_ok_def)
qed

lemma hooks_inv_arm:
  assumes laws: "bp_delete_law L" "bp_command_law L" "bp_thread_law L" and inv: "hooks_inv L s"
  shows "wpP (rh_arm L t f payload)
    (\<lambda>n u. hooks_inv L u \<and> n = rh_sequence s + 1 \<and> outstanding u = outstanding s @
      [\<lparr>rh_tid = th_id t, rh_sp = reg_unsigned f ''sp'', rh_address = reg_unsigned f ''lr'',
        rh_payload = payload, rh_invocation = n\<rparr>])
    (\<lambda>_ u. hooks_inv L u \<and> outstanding u = outstanding s) s"
proof (cases "rh_limit s \<le> length (rh_pending s) \<or> reg_unsigned f ''lr'' = 0")
  case True
  then show ?thesis using inv by (auto simp: rh_arm_def wp Let_def)
next
  case False
  let ?h = "\<lparr>rh_tid = th_id t, rh_sp = reg_unsigned f ''sp'', rh_address = reg_unsigned f ''lr'',
        rh_payload = payload, rh_invocation = rh_sequence s + 1\<rparr>"
  have fresh: "map_of (rh_pending s) i = None" if "i \<notin> set (bp_ids L (world s))" for i
    using inv that by (auto simp: hooks_inv_def rh_ids_def map_of_eq_None_iff)
  have later: "rh_invocation h < rh_sequence s + 1" if "(i, h) \<in> set (rh_pending s)" for i h
    using inv that by (force simp: hooks_inv_def outstanding_def)
  have dist: "od_ok (rh_pending s @ [(i, ?h)])" if "i \<notin> set (bp_ids L (world s))" for i
    using inv that by (auto simp: hooks_inv_def rh_ids_def od_ok_def)
  show ?thesis unfolding rh_arm_def Let_def using False inv
    apply (simp add: wp)
    apply (rule wp_create_at[OF laws(1,2)])
     apply (simp_all add: hooks_inv_def outstanding_def rh_ids_def bp_thread_ids[OF laws(3)] od_set_fresh fresh dist
        sorted_wrt_append)
     apply (fastforce dest: later)
    done
qed


lemma find_bp_deleted:
  "bp_delete_law L \<Longrightarrow> find_bp L (snd (do_bp_delete L i w)) i = None"
  by (auto simp: find_bp_def bp_delete_lawD find_None_iff)

definition forgotten :: "'w lldb \<Rightarrow> int set \<Rightarrow> ('w, 'p, 'z) hooks_dbg_scheme \<Rightarrow> ('w, 'p, 'z) hooks_dbg_scheme \<Rightarrow> bool" where
  "forgotten L D s u = (rh_pending u = filter (\<lambda>(i, h). i \<notin> D) (rh_pending s) \<and>
     bp_ids L (world u) = filter (\<lambda>i. i \<notin> D) (bp_ids L (world s)) \<and>
     hardware_ids u = hardware_ids s - D \<and> rh_limit u = rh_limit s \<and> rh_sequence u = rh_sequence s)"

lemma rh_forget_one:
  assumes "bp_delete_law L"
  shows "wpP (rh_forget L i) (\<lambda>_ u. forgotten L {i} s u) (\<lambda>_ _. False) s"
  using assms
  by (simp add: rh_forget_def wp split_beta find_bp_deleted forgotten_def bp_delete_ids od_pop_def)

lemma rh_forget_all:
  assumes "bp_delete_law L"
  shows "wpP (forP (rh_forget L) is) (\<lambda>_ u. forgotten L (set is) s u) (\<lambda>_ _. False) s"
proof (induction "is" arbitrary: s)
  case Nil
  then show ?case by (simp add: wp forgotten_def)
next
  case (Cons i "is")
  have "wpP (rh_forget L i) (\<lambda>_. wpP (forP (rh_forget L) is) (\<lambda>_ u. forgotten L (set (i # is)) s u) (\<lambda>_ _. False))
      (\<lambda>_ _. False) s"
  proof (rule wpP_weaken[OF rh_forget_one[OF assms, of i s]])
    fix x t assume f: "forgotten L {i} s t"
    show "wpP (forP (rh_forget L) is) (\<lambda>_ u. forgotten L (set (i # is)) s u) (\<lambda>_ _. False) t"
      by (rule wpP_weaken[OF Cons.IH[of t]])
        (use f in \<open>auto simp: forgotten_def case_prod_beta' intro: filter_cong\<close>)
  qed
  then show ?case by (simp add: wp)
qed

lemma fst_filter: "fst ` set (filter (\<lambda>(i, h). i \<notin> D) xs) = fst ` set xs - D"
  by force

text \<open>
  C11. Return hooks refine a bounded list of outstanding calls. From any state of the invariant, a stop
  hands back exactly the outstanding calls of that thread, return address and stack pointer, newest
  first, and leaves the others; their breakpoints are deleted, so none is reported twice.
\<close>
theorem return_hooks_consume:
  assumes "bp_delete_law L" "hooks_inv L s" "th_reason t = SrBreakpoint" "rh_consume L t f s = (r, u)"
  shows "r = Inr (rev (filter (rh_match t f) (outstanding s))) \<and>
    outstanding u = filter (\<lambda>h. \<not> rh_match t f h) (outstanding s) \<and> hooks_inv L u \<and>
    (\<forall>i h. (i, h) \<in> set (rh_pending s) \<longrightarrow> rh_match t f h \<longrightarrow>
       i \<notin> set (bp_ids L (world u)) \<and> i \<notin> hardware_ids u)"
proof -
  let ?m = "filter (\<lambda>(i, h). rh_match t f h) (rh_pending s)"
  have ok: "od_ok (rh_pending s)" using assms(2) by (simp add: hooks_inv_def)
  have snd_m: "map snd ?m = filter (rh_match t f) (outstanding s)"
    by (simp add: outstanding_def filter_map comp_def case_prod_beta')
  have in_m: "i \<in> fst ` set ?m \<longleftrightarrow> rh_match t f h" if "(i, h) \<in> set (rh_pending s)" for i h
  proof -
    have one: "h' = h" if "(i, h') \<in> set (rh_pending s)" for h'
      using eq_key_imp_eq_value[of "rh_pending s" i h' h] ok that \<open>(i, h) \<in> _\<close> by (simp add: od_ok_def)
    have "rh_match t f h" if i: "i \<in> fst ` set ?m"
    proof -
      from i obtain h' where h': "(i, h') \<in> set (rh_pending s)" "rh_match t f h'" by auto
      from one[OF h'(1)] h'(2) show ?thesis by simp
    qed
    moreover have "rh_match t f h \<Longrightarrow> (i, h) \<in> set ?m" using that by simp
    ultimately show ?thesis by (metis fst_conv image_eqI)
  qed
  have rest: "filter (\<lambda>(i, h). i \<notin> fst ` set ?m) (rh_pending s) = filter (\<lambda>(i, h). \<not> rh_match t f h) (rh_pending s)"
  proof (rule filter_cong[OF refl])
    fix x assume "x \<in> set (rh_pending s)"
    then have "(fst x, snd x) \<in> set (rh_pending s)" by simp
    from in_m[OF this] show "(case x of (i, h) \<Rightarrow> i \<notin> fst ` set ?m) = (case x of (i, h) \<Rightarrow> \<not> rh_match t f h)"
      by (simp only: case_prod_beta)
  qed
  have inv': "hooks_inv L v \<and> outstanding v = filter (\<lambda>h. \<not> rh_match t f h) (outstanding s) \<and>
      (\<forall>i h. (i, h) \<in> set (rh_pending s) \<longrightarrow> rh_match t f h \<longrightarrow> i \<notin> set (bp_ids L (world v)) \<and> i \<notin> hardware_ids v)"
    if v: "forgotten L (fst ` set ?m) s v" for v
  proof -
    have p: "rh_pending v = filter (\<lambda>(i, h). \<not> rh_match t f h) (rh_pending s)" using v rest by (simp add: forgotten_def)
    then have o': "outstanding v = filter (\<lambda>h. \<not> rh_match t f h) (outstanding s)"
      by (simp add: outstanding_def filter_map comp_def case_prod_beta')
    have "rh_ids v = rh_ids s - fst ` set ?m" using v by (simp only: rh_ids_def forgotten_def fst_filter)
    moreover have "od_ok (rh_pending v)" using ok p by (simp add: od_ok_def distinct_map_filter)
    moreover have "length (rh_pending v) \<le> rh_limit s"
      using p assms(2) by (metis hooks_inv_def le_trans length_filter_le)
    moreover have "sorted_wrt (<) (map rh_invocation (outstanding v))"
      using assms(2) unfolding o' by (intro sorted_wrt_filter_map) (simp add: hooks_inv_def)
    moreover have "\<forall>h \<in> set (outstanding v). rh_address h \<noteq> 0 \<and> rh_invocation h \<le> rh_sequence s"
      using assms(2) unfolding o' by (simp add: hooks_inv_def)
    moreover have "rh_ids s \<subseteq> hardware_ids s \<inter> set (bp_ids L (world s))" using assms(2) by (simp add: hooks_inv_def)
    ultimately have "hooks_inv L v" using v unfolding hooks_inv_def forgotten_def by auto
    moreover have "i \<in> fst ` set ?m" if "(i, h) \<in> set (rh_pending s)" "rh_match t f h" for i h
      using in_m that by blast
    ultimately show ?thesis using o' v by (auto simp: forgotten_def)
  qed
  show ?thesis
  proof (cases "?m = []")
    case True
    then have "filter (rh_match t f) (outstanding s) = []" using snd_m by simp
    moreover have "\<not> rh_match t f h" if "(i, h) \<in> set (rh_pending s)" for i h
      using True that by (auto simp: filter_empty_conv)
    ultimately show ?thesis using assms True
      by (auto simp: rh_consume_def run outstanding_def filter_empty_conv intro!: filter_True[symmetric])
  next
    case False
    let ?s1 = "s\<lparr>rh_retired := fst ` set ?m\<rparr>"
    have "wpP (rh_consume L t f) (\<lambda>x v. x = map snd (rev ?m) \<and> forgotten L (fst ` set ?m) ?s1 v) (\<lambda>_ _. False) s"
      using False assms(3) wpP_weaken[OF rh_forget_all[OF assms(1), of "map fst ?m" ?s1]]
      by (simp add: rh_consume_def wp)
    then obtain x where "r = Inr x" "x = map snd (rev ?m)" "forgotten L (fst ` set ?m) ?s1 u"
      using assms(4) by (cases r) (auto simp: wpP_def)
    moreover from this have "forgotten L (fst ` set ?m) s u" by (simp add: forgotten_def)
    ultimately show ?thesis using inv'[of u] snd_m by (simp add: rev_map[symmetric])
  qed
qed

definition demo_hook :: "string ret_hook" where
  "demo_hook = \<lparr>rh_tid = 1, rh_sp = 0x8000, rh_address = 0x1000, rh_payload = ''read'', rh_invocation = 1\<rparr>"

definition demo_pending :: "(demo_world, string) hooks_dbg" where
  "demo_pending = dbg.extend ((demo_dbg (demo_world\<lparr>dw_bps := [demo_bp 1 0x1000]\<rparr>))\<lparr>hardware_ids := {1}\<rparr>)
     (hooks_dbg.fields 128 [(1, demo_hook)] 1 {})"

lemma return_hooks_consume_witness:
  "fst (rh_consume demo_lldb (demo_thread 1 SrBreakpoint [1, 1] [] 0x1000)
     \<lparr>fr_pc = 0x1000, fr_regs = [(''sp'', 0x8000)]\<rparr> demo_pending) = Inr [demo_hook]"
proof -
  let ?t = "demo_thread 1 SrBreakpoint [1, 1] [] 0x1000" and ?f = "\<lparr>fr_pc = 0x1000, fr_regs = [(''sp'', 0x8000)]\<rparr>"
  obtain r u where ru: "rh_consume demo_lldb ?t ?f demo_pending = (r, u)" by fastforce
  have "outstanding demo_pending = [demo_hook]" "hooks_inv demo_lldb demo_pending"
    by (simp_all add: demo_pending_def hooks_dbg.defs dbg.defs outstanding_def hooks_inv_def rh_ids_def od_ok_def demo_dbg_def
        demo_world_def bp_ids_def demo_lldb_def demo_bp_def demo_hook_def)
  moreover have "rh_match ?t ?f demo_hook" by code_simp
  moreover have "th_reason ?t = SrBreakpoint" by (simp add: demo_thread_def)
  ultimately show ?thesis using return_hooks_consume[OF demo_laws(1) _ _ ru] ru by simp
qed


section \<open>What the hooks leave alone\<close>

definition hooks_frame :: "(('w, 'p, 'z) hooks_dbg_scheme \<Rightarrow> bool) \<Rightarrow> bool" where
  "hooks_frame I = (dbg_frame I \<and> (\<forall>s f g h. I s \<longrightarrow> I (rh_pending_update f s) \<and> I (rh_sequence_update g s) \<and> I (rh_retired_update h s)))"

lemma keepsP_hooks [keeps]:
  assumes "hooks_frame I"
  shows "keepsP I (rh_arm L t f p)" "keepsP I (rh_consume L t f)" "keepsP I (rh_clear L)"
proof -
  have d: "dbg_frame I" using assms by (simp add: hooks_frame_def)
  have m: "keepsP I (modP (\<lambda>s. rh_pending_update f s))" "keepsP I (modP (rh_sequence_update g))"
    "keepsP I (modP (rh_retired_update h))" for f g h
    using assms by (auto simp: hooks_frame_def intro!: keepsP_mod)
  have m2: "keepsP I (modP (\<lambda>s. rh_pending_update (f s) s))" "keepsP I (modP (\<lambda>s. rh_sequence_update (g s) s))"
     "keepsP I (modP (\<lambda>s. rh_retired_update (h s) (rh_pending_update (f s) s)))" for f g h
    using assms by (auto simp: hooks_frame_def intro!: keepsP_mod)
  show "keepsP I (rh_arm L t f p)" unfolding rh_arm_def Let_def by (intro keeps d m m2)
  have forget: "keepsP I (rh_forget L i)" for i unfolding rh_forget_def by (intro keeps d m m2)
  show "keepsP I (rh_consume L t f)" unfolding rh_consume_def by (intro keeps d m m2 forget)
  show "keepsP I (rh_clear L)" unfolding rh_clear_def by (intro keeps d m m2)
qed

end
