(* ===== verification/MemoryAnalysis.thy ===== *)
theory MemoryAnalysis
  imports ReturnHooks Json
begin

text \<open>
  \<open>macdbg/core/analysis_memory.py\<close>: bounded memory snapshots and their comparison, the scan of
  executable regions, and the execution guard that removes and restores the execute permission
  of one region. The memory map, the digest, the \<open>mprotect\<close> call made in the target and the
  directory for dumps are arguments.
\<close>

record region =
  rg_base :: addr
  rg_end :: addr
  rg_prot :: int
  rg_name :: string

text \<open>A row of LLDB's region list: whether it is valid and mapped, its bounds, r, w, x and its name.\<close>

type_synonym region_info = "bool \<times> addr \<times> addr \<times> bool \<times> bool \<times> bool \<times> string"

record snapshot =
  sn_id :: int
  sn_addr :: addr
  sn_requested :: int
  sn_label :: string
  sn_data :: bytes
  sn_strings :: "(addr \<times> string) list"

type_synonym call_payload = "string \<times> (string \<times> int option) list"

record 'w mem_dbg = "('w, call_payload) hooks_dbg" +
  ma_enabled :: bool
  ma_hooks :: "(int, string) odict"
  ma_snapshots :: "(int, snapshot) odict"
  ma_sequence :: int
  ma_epoch :: string
  ma_previous :: "(addr, string \<times> int \<times> bytes) odict"
  ma_guard :: "region option"
  ma_guard_stop :: "(int \<times> int \<times> addr) option"
  ma_observed :: "(int \<times> int) option"
  ma_files :: "(string \<times> bytes) list"

record 'w mem_env =
  me_regions :: "'w \<Rightarrow> region_info list"
  me_digest :: "bytes \<Rightarrow> string"
  me_protect :: "region \<Rightarrow> int \<Rightarrow> 'w \<Rightarrow> string option \<times> 'w"
  me_running :: "'w \<Rightarrow> bool"
  me_halt :: "'w \<Rightarrow> bool \<times> 'w"
  me_dumps :: "'w \<Rightarrow> string"

definition rg_size :: "region \<Rightarrow> int" where
  "rg_size r = rg_end r - rg_base r"

definition HOOKS :: "string list" where
  "HOOKS = [''mprotect'', ''mach_vm_protect'', ''vm_protect'', ''mmap'', ''dlopen'']"

definition SNAPSHOT_LIMIT :: int where "SNAPSHOT_LIMIT = 1024 * 1024"

definition SCAN_LIMIT :: int where "SCAN_LIMIT = 8 * 1024 * 1024"

section \<open>Strings in memory\<close>

text \<open>\<open>re.finditer(rb'[\x20-\x7e]{5,}', data)\<close>: the maximal printable runs of five bytes or more.\<close>

function printable_runs :: "nat \<Rightarrow> nat \<Rightarrow> bytes \<Rightarrow> (nat \<times> bytes) list" where
  "printable_runs k off [] = []"
| "printable_runs k off (c # cs) =
     (if plain c then
        let r = takeWhile plain (c # cs); rest = printable_runs k (off + length r) (dropWhile plain (c # cs)) in
        (if k \<le> length r then (off, r) # rest else rest)
      else printable_runs k (off + 1) cs)"
  by pat_completeness auto
termination
  by (relation "measure (\<lambda>(k, off, cs). length cs)") (auto simp: less_Suc_eq_le length_dropWhile_le)

definition mem_strings :: "bytes \<Rightarrow> addr \<Rightarrow> (addr \<times> string) list" where
  "mem_strings data base = take 4096 (map (\<lambda>(o', r). (base + int o', r)) (printable_runs 5 0 data))"

section \<open>Regions and snapshots\<close>

definition is_stopped :: "'w lldb \<Rightarrow> 'w \<Rightarrow> bool" where
  "is_stopped L w = (case obs_process L w of None \<Rightarrow> False | Some p \<Rightarrow> pr_stopped p)"

definition region_of :: "region_info \<Rightarrow> region option" where
  "region_of i = (case i of (valid, b, e, r, w, x, n) \<Rightarrow>
     if valid then Some \<lparr>rg_base = b, rg_end = e,
       rg_prot = (if r then 1 else 0) OR (if w then 2 else 0) OR (if x then 4 else 0), rg_name = n\<rparr>
     else None)"

definition regions :: "'w lldb \<Rightarrow> 'w mem_env \<Rightarrow> 'w \<Rightarrow> region list res" where
  "regions L M w = (if \<not> is_stopped L w then Inl (ValueError ''pause the target to inspect its memory map'')
     else Inr (List.map_filter region_of (take 16384 (me_regions M w))))"

definition keep_eight :: "(int, snapshot) odict \<Rightarrow> (int, snapshot) odict" where
  "keep_eight = evict (\<lambda>xs. 8 < length xs)"

definition capture :: "'w lldb \<Rightarrow> addr \<Rightarrow> int \<Rightarrow> string \<Rightarrow> (('w, 'z) mem_dbg_scheme, snapshot) py" where
  "capture L address need label =
     (if \<not> (0 < need \<and> need \<le> SNAPSHOT_LIMIT) \<or> address < 0 \<or> 2 ^ 64 \<le> address + need
      then raiseP (ValueError ''snapshot size must be between 1 byte and 1 MiB at a valid address'')
      else bindP (getP (\<lambda>s. (is_stopped L (world s), read_memory L (world s) address (nat need)))) (\<lambda>(stopped, data).
        if \<not> stopped then raiseP (ValueError ''pause the target before capturing memory'')
        else if data = [] then raiseP (ValueError ''snapshot memory is unreadable'')
        else seqP (modP (\<lambda>s. s\<lparr>ma_sequence := ma_sequence s + 1\<rparr>))
          (bindP (getP (\<lambda>s. \<lparr>sn_id = ma_sequence s, sn_addr = address, sn_requested = need,
              sn_label = take 100 label, sn_data = data, sn_strings = mem_strings data address\<rparr>)) (\<lambda>r.
            seqP (modP (\<lambda>s. s\<lparr>ma_snapshots := keep_eight (od_set (sn_id r) r (ma_snapshots s))\<rparr>))
            (retP r)))))"

text \<open>The comparison works on rows of 16 bytes; at most 512 changed rows are listed.\<close>

definition row_at_16 :: "bytes \<Rightarrow> nat \<Rightarrow> bytes" where
  "row_at_16 bs i = slice (16 * i) (16 * i + 16) bs"

definition row_changes :: "bytes \<Rightarrow> bytes \<Rightarrow> nat" where
  "row_changes a b = length (filter (\<lambda>(x, y). x \<noteq> y) (zip a b)) + (max (length a) (length b) - min (length a) (length b))"

record comparison =
  cm_changed :: nat
  cm_changes :: "(addr \<times> bytes \<times> bytes) list"
  cm_complete :: bool
  cm_added :: "(addr \<times> string) set"
  cm_removed :: "(addr \<times> string) set"

definition compare_bytes :: "snapshot \<Rightarrow> bytes \<Rightarrow> comparison" where
  "compare_bytes old new =
     (let rows = [0 ..< (max (length new) (length (sn_data old)) + 15) div 16];
          before = set (sn_strings old); after = set (mem_strings new (sn_addr old)) in
      \<lparr>cm_changed = sum_list (map (\<lambda>i. row_changes (row_at_16 (sn_data old) i) (row_at_16 new i)) rows),
       cm_changes = take 512 (map (\<lambda>i. (sn_addr old + 16 * int i, row_at_16 (sn_data old) i, row_at_16 new i))
         (filter (\<lambda>i. row_at_16 (sn_data old) i \<noteq> row_at_16 new i) rows)),
       cm_complete = (length new = length (sn_data old)),
       cm_added = after - before, cm_removed = before - after\<rparr>)"

definition compare_snapshot :: "'w lldb \<Rightarrow> int \<Rightarrow> (('w, 'z) mem_dbg_scheme, comparison) py" where
  "compare_snapshot L i =
     bindP (getP (\<lambda>s. (is_stopped L (world s), map_of (ma_snapshots s) i))) (\<lambda>(stopped, old).
     if \<not> stopped then raiseP (ValueError ''pause the target before comparing memory'')
     else case old of None \<Rightarrow> raiseP (ValueError ''snapshot expired or does not exist'')
     | Some r \<Rightarrow> getP (\<lambda>s. compare_bytes r (read_memory L (world s) (sn_addr r) (length (sn_data r)))))"

section \<open>The execution guard\<close>

definition protect :: "'w mem_env \<Rightarrow> region \<Rightarrow> int \<Rightarrow> (('w, 'z) mem_dbg_scheme, unit) py" where
  "protect M r prot = bindP (onW (me_protect M r prot)) (\<lambda>err. case err of None \<Rightarrow> retP ()
     | Some m \<Rightarrow> raiseP (RuntimeError (''could not change execution-guard protection: '' @ m)))"

definition guardable :: "'w lldb \<Rightarrow> 'w mem_env \<Rightarrow> addr \<Rightarrow> 'w \<Rightarrow> region res" where
  "guardable L M address w =
     bindR (regions L M w) (\<lambda>rs.
     case find (\<lambda>r. rg_base r \<le> address \<and> address < rg_end r) rs of
       None \<Rightarrow> Inl (ValueError ''select an executable memory region'')
     | Some r \<Rightarrow>
        bindR (guardR (rg_prot r AND 4 \<noteq> 0) (ValueError ''select an executable memory region'')) (\<lambda>_.
        bindR (guardR (rg_size r \<le> 16 * 1024 * 1024) (ValueError ''execution guards are limited to regions of at most 16 MiB'')) (\<lambda>_.
        bindR (guardR (\<not> (case obs_process L w of None \<Rightarrow> False | Some p \<Rightarrow>
            list_ex (\<lambda>t. case th_pc t of None \<Rightarrow> False | Some pc \<Rightarrow> rg_base r \<le> pc \<and> pc < rg_end r) (pr_threads p)))
          (ValueError ''cannot guard a region containing a stopped thread PC'')) (\<lambda>_. Inr r))))"

definition arm_guard :: "'w lldb \<Rightarrow> 'w mem_env \<Rightarrow> addr \<Rightarrow> (('w, 'z) mem_dbg_scheme, region) py" where
  "arm_guard L M address =
     bindP (getP (\<lambda>s. (ma_guard s, guardable L M address (world s)))) (\<lambda>(g, found).
     if g \<noteq> None then raiseP (ValueError ''disarm the existing execution guard first'')
     else bindP (liftP found) (\<lambda>r.
       seqP (protect M r (rg_prot r AND NOT 4))
       (seqP (modP (\<lambda>s. s\<lparr>ma_guard := Some r\<rparr>))
       (seqP (record_event L ''MEMORY'' ''execution guard armed; execute permission temporarily removed''
          [(''pc'', py_str address)])
       (retP r)))))"

text \<open>
  \<open>disarm_guard\<close>: a running target is halted first; \<open>me_halt\<close> is the halt and the wait for it.
\<close>

definition disarm_guard :: "'w lldb \<Rightarrow> 'w mem_env \<Rightarrow> (('w, 'z) mem_dbg_scheme, unit) py" where
  "disarm_guard L M =
     bindP (getP (\<lambda>s. (ma_guard s, obs_process L (world s) \<noteq> None, me_running M (world s)))) (\<lambda>(g, process, running).
     case g of None \<Rightarrow> modP (\<lambda>s. s\<lparr>ma_guard := None\<rparr>)
     | Some r \<Rightarrow>
        seqP (whenP process
          (seqP (whenP running (bindP (onW (me_halt M)) (\<lambda>ok.
              bindP (getP (\<lambda>s. me_running M (world s))) (\<lambda>still.
              checkP (ok \<and> \<not> still) (RuntimeError ''cannot restore execution guard while target is running'')))))
          (bindP (getP (\<lambda>s. is_stopped L (world s))) (\<lambda>stopped.
             whenP stopped (protect M r (rg_prot r))))))
        (modP (\<lambda>s. s\<lparr>ma_guard := None\<rparr>)))"

section \<open>Hooks and scans\<close>

definition ma_disable :: "'w lldb \<Rightarrow> 'w mem_env \<Rightarrow> (('w, 'z) mem_dbg_scheme, unit) py" where
  "ma_disable L M =
     seqP (disarm_guard L M)
     (seqP (rh_clear L)
     (bindP (getP (\<lambda>s. (obs_target L (world s), map fst (ma_hooks s)))) (\<lambda>(target, is).
     seqP (whenP target (forP (\<lambda>i. seqP (delete_breakpoint L i) (retP ())) is))
     (modP (\<lambda>s. s\<lparr>ma_hooks := [], ma_enabled := False\<rparr>)))))"

definition ma_reset :: "'w lldb \<Rightarrow> 'w mem_env \<Rightarrow> (('w, 'z) mem_dbg_scheme, unit) py" where
  "ma_reset L M = seqP (ma_disable L M)
     (modP (\<lambda>s. s\<lparr>ma_snapshots := [], ma_previous := [], ma_guard_stop := None, ma_observed := None\<rparr>))"

definition system_region :: "region \<Rightarrow> bool" where
  "system_region r = (starts_with (rg_name r) ''/System/'' \<or> starts_with (rg_name r) ''/usr/lib/'')"

text \<open>What a scan makes of one region: the row for the next scan, and whether and why it is reported.\<close>

definition scan_entry ::
    "'w mem_env \<Rightarrow> bytes \<Rightarrow> int \<Rightarrow> int \<Rightarrow> (string \<times> int \<times> bytes) option \<Rightarrow> (string \<times> int \<times> bytes) \<times> bool" where
  "scan_entry M data need prot old =
     (let digest = me_digest M data; complete = (int (length data) = need) in
      case old of None \<Rightarrow> ((digest, prot, data), True)
      | Some (odig, oprot, odata) \<Rightarrow>
          (if complete then (digest, prot, data) else (odig, prot, odata),
           oprot \<noteq> prot \<or> (complete \<and> int (length odata) = need \<and> odig \<noteq> digest)))"

definition region_kind :: "'a option \<Rightarrow> string" where
  "region_kind old = (if old = None then ''new executable region'' else ''executable memory changed'')"

definition report_region ::
    "'w lldb \<Rightarrow> 'w mem_env \<Rightarrow> region \<Rightarrow> int \<Rightarrow> bytes \<Rightarrow> (string \<times> int \<times> bytes) option \<Rightarrow> (('w, 'z) mem_dbg_scheme, unit) py" where
  "report_region L M r need data old =
     bindP (capture L (rg_base r) need (region_kind old)) (\<lambda>sn.
     bindP (getP (\<lambda>s. me_dumps M (world s) @ ''/code-'' @ ma_epoch s @ ''-'' @ py_str (sn_id sn) @ ''-'' @
        drop 2 (py_hex (rg_base r)) @ ''.bin'')) (\<lambda>path.
     seqP (modP (\<lambda>s. s\<lparr>ma_files := ma_files s @ [(path, data)] @
        (case old of None \<Rightarrow> [] | Some (_, _, odata) \<Rightarrow> [(path @ ''.before'', odata)])\<rparr>))
     (record_event L ''MEMORY'' (region_kind old)
        [(''pc'', py_str (rg_base r)), (''snapshot'', py_str (sn_id sn)), (''path'', path)])))"

fun observe_rows ::
    "'w lldb \<Rightarrow> 'w mem_env \<Rightarrow> bool \<Rightarrow> region list \<Rightarrow> int \<Rightarrow> (addr, string \<times> int \<times> bytes) odict
     \<Rightarrow> (('w, 'z) mem_dbg_scheme, (addr, string \<times> int \<times> bytes) odict) py" where
  "observe_rows L M baseline [] budget cur = retP cur"
| "observe_rows L M baseline (r # rs) budget cur =
     (if rg_prot r AND 5 \<noteq> 5 \<or> system_region r then observe_rows L M baseline rs budget cur
      else let need = min (rg_size r) (min (256 * 1024) budget) in
        if need \<le> 0 then retP cur
        else bindP (getP (\<lambda>s. (read_memory L (world s) (rg_base r) (nat need), map_of (ma_previous s) (rg_base r)))) (\<lambda>(data, old).
          let (entry, changed) = scan_entry M data need (rg_prot r) old in
          seqP (whenP (\<not> baseline \<and> changed) (report_region L M r need data old))
          (observe_rows L M baseline rs (budget - need) (od_set (rg_base r) entry cur))))"

definition observe :: "'w lldb \<Rightarrow> 'w mem_env \<Rightarrow> bool \<Rightarrow> (('w, 'z) mem_dbg_scheme, unit) py" where
  "observe L M baseline =
     bindP (getP (\<lambda>s. regions L M (world s))) (\<lambda>found.
     bindP (liftP found) (\<lambda>rs.
     bindP (observe_rows L M baseline rs SCAN_LIMIT []) (\<lambda>cur.
     modP (\<lambda>s. s\<lparr>ma_previous := cur\<rparr>))))"

definition ma_hook :: "'w lldb \<Rightarrow> string \<Rightarrow> (('w, 'z) mem_dbg_scheme, unit) py" where
  "ma_hook L name =
     bindP (getP (\<lambda>s. bp_ids L (world s))) (\<lambda>before.
     bindP (onW (do_command L (''breakpoint set --skip-prologue false -F '' @ name))) (\<lambda>(ok, err).
     bindP (getP (\<lambda>s. filter (\<lambda>i. i \<notin> set before) (bp_ids L (world s)))) (\<lambda>created.
     seqP (modP (\<lambda>s. s\<lparr>ma_hooks := fold (\<lambda>i. od_set i name) created (ma_hooks s)\<rparr>))
     (checkP (ok \<and> length created = 1) (RuntimeError (''cannot monitor '' @ name))))))"

definition ma_enable :: "'w lldb \<Rightarrow> 'w mem_env \<Rightarrow> (('w, 'z) mem_dbg_scheme, unit) py" where
  "ma_enable L M =
     bindP (getP ma_enabled) (\<lambda>on.
     if on then retP ()
     else seqP (observe L M True)
       (cleanupP (seqP (forP (ma_hook L) HOOKS) (modP (\<lambda>s. s\<lparr>ma_enabled := True\<rparr>)))
         (ma_disable L M)))"

section \<open>Stops\<close>

definition guard_fault :: "'w lldb \<Rightarrow> thread \<Rightarrow> addr \<Rightarrow> ('w, 'z) mem_dbg_scheme \<Rightarrow> bool" where
  "guard_fault L t pc s = (case ma_guard s of None \<Rightarrow> False
     | Some r \<Rightarrow> th_reason t = SrException \<and> rg_base r \<le> pc \<and> pc < rg_end r \<and>
         starts_with (th_description t) ''EXC_BAD_ACCESS'')"

text \<open>The region LLDB reports at the program counter: None if it cannot be read, else its execute bit.\<close>

definition region_executable :: "'w mem_env \<Rightarrow> 'w \<Rightarrow> addr \<Rightarrow> bool option" where
  "region_executable M w pc = (case find (\<lambda>(v, b, e, _). v \<and> b \<le> pc \<and> pc < e) (me_regions M w) of
     None \<Rightarrow> None | Some (v, b, e, r, wr, x, n) \<Rightarrow> Some x)"

definition guard_stop :: "'w lldb \<Rightarrow> 'w mem_env \<Rightarrow> process \<Rightarrow> addr \<Rightarrow> (('w, 'z) mem_dbg_scheme, unit) py" where
  "guard_stop L M p pc =
     bindP (getP (\<lambda>s. region_executable M (world s) pc)) (\<lambda>x.
     if x \<noteq> Some False then
       seqP (modP (\<lambda>s. s\<lparr>ma_guard := None\<rparr>))
         (record_event L ''MEMORY'' ''execution guard invalidated by a mapping change'' [(''pc'', py_str pc)])
     else seqP (disarm_guard L M)
       (seqP (modP (\<lambda>s. s\<lparr>ma_guard_stop := Some (pr_pid p, pr_stop p, pc)\<rparr>))
         (record_event L ''MEMORY'' ''first execution in guarded region'' [(''pc'', py_str pc)])))"

definition stop_ids :: "thread \<Rightarrow> int list" where
  "stop_ids t = (if th_reason t = SrBreakpoint
     then map (\<lambda>i. th_data t ! (2 * i)) [0 ..< (length (th_data t) + 1) div 2] else [])"

definition ma_apply_stop ::
    "'w lldb \<Rightarrow> 'w mem_env \<Rightarrow> process \<Rightarrow> thread \<Rightarrow> frame \<Rightarrow> (('w, 'z) mem_dbg_scheme, verdict) py" where
  "ma_apply_stop L M p t f =
     bindP (getP (\<lambda>s. (guard_fault L t (fr_pc f) s, ma_enabled s, ma_observed s))) (\<lambda>(fault, on, seen).
     if fault then seqP (guard_stop L M p (fr_pc f)) (retP Visible)
     else if \<not> on then retP NotOurs
     else seqP (whenP (seen \<noteq> Some (pr_pid p, pr_stop p))
         (seqP (modP (\<lambda>s. s\<lparr>ma_observed := Some (pr_pid p, pr_stop p)\<rparr>)) (observe L M False)))
       (if th_reason t \<noteq> SrBreakpoint then retP NotOurs
        else bindP (getP (\<lambda>s. fst ` set (ma_hooks s) \<union> rh_ids s)) (\<lambda>owned.
          bindP (rh_consume L t f) (\<lambda>completed.
          seqP (forP (\<lambda>h. record_event L ''MEMORY'' (fst (rh_payload h) @ '' returned'')
              [(''return_value'', py_str (reg_unsigned f ''x0''))]) completed)
          (bindP (getP (\<lambda>s. find (\<lambda>i. map_of (ma_hooks s) i \<noteq> None) (stop_ids t))) (\<lambda>hit.
          let answer = retP (if stop_ids t \<noteq> [] \<and> set (stop_ids t) \<subseteq> owned then Internal else NotOurs) in
          case hit of None \<Rightarrow> answer
          | Some i \<Rightarrow>
              bindP (getP (\<lambda>s. the (map_of (ma_hooks s) i))) (\<lambda>name.
              catchP (seqP (seqP (rh_arm L t f (name, map (\<lambda>r. (r, fr_reg f r)) [''x0'', ''x1'', ''x2'', ''x3'', ''x4''])) (retP ())) answer)
                (\<lambda>e. case e of RuntimeError m \<Rightarrow>
                   seqP (record_event L ''MEMORY'' (''return observation unavailable: '' @ m) []) (retP Visible)
                 | _ \<Rightarrow> raiseP e))))))))"


section \<open>The comparison is exact\<close>

definition byte_at :: "bytes \<Rightarrow> nat \<Rightarrow> char option" where
  "byte_at bs i = (if i < length bs then Some (bs ! i) else None)"

definition differing :: "bytes \<Rightarrow> bytes \<Rightarrow> nat \<Rightarrow> nat list" where
  "differing a b n = filter (\<lambda>i. byte_at a i \<noteq> byte_at b i) [0..<n]"

lemma differing_Cons:
  "length (differing (x # a) (y # b) (Suc n)) = (if x = y then 0 else 1) + length (differing a b n)"
proof -
  have "[0..<Suc n] = 0 # map Suc [0..<n]" by (simp add: upt_conv_Cons map_Suc_upt)
  then show ?thesis by (simp add: differing_def filter_map comp_def byte_at_def)
qed

lemma differing_Nil: "length (differing [] b n) = min n (length b)" "length (differing a [] n) = min n (length a)"
proof -
  have "length (filter (\<lambda>i. i < (k :: nat)) [0..<n]) = min n k" for k by (induction n) (auto simp: min_def)
  then show "length (differing [] b n) = min n (length b)" "length (differing a [] n) = min n (length a)"
    by (simp_all add: differing_def byte_at_def if_distrib cong: if_cong)
qed

lemma row_changes_differing: "max (length a) (length b) \<le> n \<Longrightarrow> row_changes a b = length (differing a b n)"
proof (induction a b arbitrary: n rule: list_induct2')
  case (4 x a y b)
  then obtain m where "n = Suc m" "max (length a) (length b) \<le> m" by (cases n) auto
  have min_max: "min (length a) (length b) \<le> max (length a) (length b)" by simp
  from 4(1)[OF \<open>max (length a) (length b) \<le> m\<close>] \<open>n = Suc m\<close> min_max show ?case
    by (auto simp: differing_Cons row_changes_def)
qed (auto simp: row_changes_def differing_Nil)

lemma byte_at_row: "byte_at (row_at_16 bs i) j = (if j < 16 then byte_at bs (16 * i + j) else None)"
  by (auto simp: byte_at_def row_at_16_def slice_def)

lemma differing_rows:
  "length (differing a b (16 * n)) = sum_list (map (\<lambda>i. row_changes (row_at_16 a i) (row_at_16 b i)) [0..<n])"
proof (induction n)
  case (Suc n)
  have row: "row_changes (row_at_16 a n) (row_at_16 b n) = length (filter (\<lambda>j. byte_at a (16 * n + j) \<noteq> byte_at b (16 * n + j)) [0..<16])"
  proof -
    have "max (length (row_at_16 a n)) (length (row_at_16 b n)) \<le> 16" by (simp add: row_at_16_def)
    from row_changes_differing[OF this] show ?thesis
      unfolding differing_def by (rule trans) (rule arg_cong[where f = length], rule filter_cong, auto simp: byte_at_row)
  qed
  have "[0..<16 * Suc n] = [0..<16 * n] @ map (\<lambda>j. 16 * n + j) [0..<16]"
    using upt_add_eq_append[of 0 "16 * n" 16] map_add_upt[of "16 * n" 16] by (simp add: add.commute)
  then have "length (differing a b (16 * Suc n)) = length (differing a b (16 * n)) +
      length (filter (\<lambda>j. byte_at a (16 * n + j) \<noteq> byte_at b (16 * n + j)) [0..<16])"
    by (simp add: differing_def filter_map comp_def)
  with Suc row show ?case by simp
qed (simp add: differing_def)

lemma differing_more:
  "max (length a) (length b) \<le> n \<Longrightarrow> n \<le> m \<Longrightarrow> differing a b m = differing a b n"
proof -
  assume "max (length a) (length b) \<le> n" "n \<le> m"
  then have "differing a b m = differing a b n @ filter (\<lambda>i. byte_at a i \<noteq> byte_at b i) [n..<m]"
    using upt_add_eq_append[of 0 n "m - n"] by (simp add: differing_def)
  with \<open>max (length a) (length b) \<le> n\<close> show ?thesis by (simp add: filter_empty_conv byte_at_def)
qed

lemma round_up: "(m :: nat) \<le> 16 * ((m + 15) div 16)"
  by presburger

text \<open>
  Comparing a snapshot with the bytes that are there now counts exactly the positions whose byte
  differs, a missing byte included, however the rows of sixteen fall; so it reports no change just when
  the bytes are the same, and lists the first rows that differ.
\<close>
theorem compare_counts_bytes:
  "cm_changed (compare_bytes old new) = length (differing (sn_data old) new (max (length (sn_data old)) (length new))) \<and>
   (cm_changed (compare_bytes old new) = 0 \<longleftrightarrow> new = sn_data old) \<and>
   (\<forall>(a, x, y) \<in> set (cm_changes (compare_bytes old new)). x \<noteq> y)"
proof -
  let ?a = "sn_data old" and ?m = "max (length (sn_data old)) (length new)"
  have m: "?m \<le> 16 * ((?m + 15) div 16)" by (rule round_up)
  have "cm_changed (compare_bytes old new) = length (differing ?a new (16 * ((?m + 15) div 16)))"
    by (simp add: compare_bytes_def Let_def differing_rows max.commute)
  then have count: "cm_changed (compare_bytes old new) = length (differing ?a new ?m)"
    using differing_more[OF order.refl m] by simp
  have "length (differing ?a new ?m) = 0 \<longleftrightarrow> new = ?a"
  proof
    assume "length (differing ?a new ?m) = 0"
    then have eq: "byte_at ?a i = byte_at new i" if "i < ?m" for i
      using that by (auto simp: differing_def filter_empty_conv)
    have "length new = length ?a"
      using eq[of "length new"] eq[of "length ?a"] by (cases "length new" "length ?a" rule: linorder_cases) (auto simp: byte_at_def)
    moreover have "new ! i = ?a ! i" if "i < length new" for i using eq[of i] that \<open>length new = length ?a\<close> by (simp add: byte_at_def)
    ultimately show "new = ?a" by (simp add: nth_equalityI)
  qed (simp add: differing_def)
  moreover have "\<forall>(a, x, y) \<in> set (cm_changes (compare_bytes old new)). x \<noteq> y"
    by (auto simp: compare_bytes_def Let_def dest!: in_set_takeD)
  ultimately show ?thesis using count by simp
qed

lemma compare_counts_bytes_witness:
  "cm_changed (compare_bytes \<lparr>sn_id = 1, sn_addr = 0, sn_requested = 3, sn_label = [], sn_data = ''abc'', sn_strings = []\<rparr> ''axcd'') = 2"
  using compare_counts_bytes[of "\<lparr>sn_id = 1, sn_addr = 0, sn_requested = 3, sn_label = [], sn_data = ''abc'', sn_strings = []\<rparr>" "''axcd''"]
  by (simp add: differing_def byte_at_def upt_rec)

section \<open>The guard gives back the permission it took\<close>

definition set_prot :: "region \<Rightarrow> int \<Rightarrow> region_info \<Rightarrow> region_info" where
  "set_prot q prot i = (case i of (v, b, e, r, w, x, n) \<Rightarrow>
     if v \<and> b = rg_base q \<and> e = rg_end q then (v, b, e, prot AND 1 \<noteq> 0, prot AND 2 \<noteq> 0, prot AND 4 \<noteq> 0, n) else i)"

text \<open>
  What \<open>mprotect\<close> promises for a whole region: on success that region, and nothing else, has the
  requested protection; the process stays stopped.
\<close>

definition protect_law :: "'w lldb \<Rightarrow> 'w mem_env \<Rightarrow> bool" where
  "protect_law L M = (\<forall>r prot w. let (err, w') = me_protect M r prot w in
     obs_process L w' = obs_process L w \<and> me_running M w' = me_running M w \<and>
     (err = None \<longrightarrow> me_regions M w' = map (set_prot r prot) (me_regions M w)))"

lemma protect_lawD:
  "protect_law L M \<Longrightarrow> me_protect M r prot w = (err, w') \<Longrightarrow>
   obs_process L w' = obs_process L w \<and> me_running M w' = me_running M w \<and>
     (err = None \<longrightarrow> me_regions M w' = map (set_prot r prot) (me_regions M w))"
  unfolding protect_law_def by (drule spec[of _ r], drule spec[of _ prot], drule spec[of _ w]) simp

definition region_map_ok :: "region_info list \<Rightarrow> bool" where
  "region_map_ok is = (\<forall>i \<in> set is. \<forall>j \<in> set is. fst i \<and> fst j \<and> fst (snd i) = fst (snd j) \<longrightarrow> i = j)"

lemma prot_bits:
  "(((if r then 1 else 0) OR (if w then 2 else 0) OR (if x then 4 else 0) :: int) AND 1 \<noteq> 0) = r"
  "(((if r then 1 else 0) OR (if w then 2 else 0) OR (if x then 4 else 0) :: int) AND 2 \<noteq> 0) = w"
  "(((if r then 1 else 0) OR (if w then 2 else 0) OR (if x then 4 else 0) :: int) AND 4 \<noteq> 0) = x"
  by (cases r; cases w; cases x; simp)+

lemma set_prot_restore:
  assumes "region_map_ok is" "i \<in> set is" "region_of i = Some r" "j \<in> set is"
  shows "set_prot r (rg_prot r) (set_prot r p j) = j"
proof (cases "fst j \<and> fst (snd j) = rg_base r")
  case True
  have "fst i" "fst (snd i) = rg_base r" using assms(3) by (auto simp: region_of_def split: prod.splits if_splits)
  with True assms have "j = i" unfolding region_map_ok_def by fastforce
  with assms(3) show ?thesis
    by (auto simp: region_of_def set_prot_def prot_bits split: prod.splits if_splits)
qed (auto simp: set_prot_def split: prod.splits)

text \<open>
  Arming the execution guard on an address takes the execute permission of exactly the region that
  holds it; disarming it in a stopped process leaves the memory map as it was before.
\<close>
theorem guard_restores_map:
  assumes "protect_law L M" "region_map_ok (me_regions M (world s))"
    and "arm_guard L M address s = (Inr r, s1)" "disarm_guard L M s1 = (Inr u, s2)"
    and "is_stopped L (world s)" "\<not> me_running M (world s)"
  shows "me_regions M (world s2) = me_regions M (world s) \<and> ma_guard s1 = Some r \<and> ma_guard s2 = None \<and>
    rg_base r \<le> address \<and> address < rg_end r \<and> rg_prot r AND 4 \<noteq> 0 \<and>
    me_regions M (world s1) = map (set_prot r (rg_prot r AND NOT 4)) (me_regions M (world s))"
proof -
  let ?p = "rg_prot r AND NOT 4"
  from assms(3) have g: "guardable L M address (world s) = Inr r"
    by (auto simp: arm_guard_def run protect_def record_event_def onW_def split_beta split: if_splits sum.splits prod.splits option.splits)
  obtain e1 w1 where p1: "me_protect M r ?p (world s) = (e1, w1)" by fastforce
  from assms(3) g p1 have s1: "e1 = None" "world s1 = w1" "ma_guard s1 = Some r"
    by (auto simp: arm_guard_def run protect_def record_event_def onW_def split: if_splits sum.splits prod.splits option.splits)
  have law: "obs_process L w1 = obs_process L (world s)" "me_running M w1 = me_running M (world s)"
    "me_regions M w1 = map (set_prot r ?p) (me_regions M (world s))"
    using protect_lawD[OF assms(1) p1] s1(1) by auto
  obtain e2 w2 where p2: "me_protect M r (rg_prot r) w1 = (e2, w2)" by fastforce
  have proc: "obs_process L w1 \<noteq> None" "is_stopped L w1"
    using assms(5) law(1) by (auto simp: is_stopped_def split: option.splits)
  from assms(4,6) p2 s1 law(2) proc have s2: "e2 = None" "world s2 = w2" "ma_guard s2 = None"
    by (auto simp: disarm_guard_def run protect_def onW_def split: if_splits sum.splits prod.splits option.splits)
  have reg: "me_regions M w2 = map (set_prot r (rg_prot r)) (me_regions M w1)"
    using protect_lawD[OF assms(1) p2] s2(1) by auto
  from g obtain rs where rs: "regions L M (world s) = Inr rs" "find (\<lambda>r. rg_base r \<le> address \<and> address < rg_end r) rs = Some r"
    "rg_prot r AND 4 \<noteq> 0"
    by (auto simp: guardable_def bindR_Inr split: option.splits)
  then obtain i where i: "i \<in> set (me_regions M (world s))" "region_of i = Some r"
    by (auto simp: regions_def find_Some_iff List.map_filter_def dest!: nth_mem in_set_takeD split: if_splits)
  have "map (set_prot r (rg_prot r)) (map (set_prot r ?p) (me_regions M (world s))) = me_regions M (world s)"
    unfolding map_map comp_def by (rule map_idI) (rule set_prot_restore[OF assms(2) i])
  moreover have "rg_base r \<le> address" "address < rg_end r" using rs(2) by (auto simp: find_Some_iff)
  ultimately show ?thesis using s1 s2 law(3) reg rs(3) by simp
qed


definition demo_mem :: "demo_world mem_env" where
  "demo_mem = \<lparr>me_regions = dw_map, me_digest = id,
     me_protect = (\<lambda>r prot w. (None, w\<lparr>dw_map := map (set_prot r prot) (dw_map w)\<rparr>)),
     me_running = (\<lambda>_. False), me_halt = (\<lambda>w. (True, w)), me_dumps = (\<lambda>_. ''/tmp'')\<rparr>"

text \<open>\<open>MemoryAnalysis.__init__\<close> on a debugger.\<close>

definition ma_new :: "string \<Rightarrow> 'w dbg \<Rightarrow> 'w mem_dbg" where
  "ma_new epoch d = hooks_dbg.extend (dbg.extend d (hooks_dbg.fields 128 [] 0 {}))
     (mem_dbg.fields False [] [] 0 epoch [] None None None [])"

definition demo_guarded :: "demo_world mem_dbg" where
  "demo_guarded = ma_new ''e'' (demo_dbg (demo_world\<lparr>dw_process := Some (demo_process 1 []),
       dw_map := [(True, 16, 32, True, False, True, ''code''), (True, 32, 48, True, True, False, ''data'')]\<rparr>))"

lemma guard_restores_map_witness:
  "me_regions demo_mem (world (snd (disarm_guard demo_lldb demo_mem (snd (arm_guard demo_lldb demo_mem 24 demo_guarded)))))
   = me_regions demo_mem (world demo_guarded)"
proof -
  obtain r s1 where 1: "arm_guard demo_lldb demo_mem 24 demo_guarded = (r, s1)" by fastforce
  obtain u s2 where 2: "disarm_guard demo_lldb demo_mem s1 = (u, s2)" by fastforce
  have "fst (arm_guard demo_lldb demo_mem 24 demo_guarded) =
      Inr \<lparr>rg_base = 16, rg_end = 32, rg_prot = 5, rg_name = ''code''\<rparr>" by code_simp
  with 1 have r: "r = Inr \<lparr>rg_base = 16, rg_end = 32, rg_prot = 5, rg_name = ''code''\<rparr>" by simp
  have "fst (disarm_guard demo_lldb demo_mem (snd (arm_guard demo_lldb demo_mem 24 demo_guarded))) = Inr ()" by code_simp
  with 1 2 have u: "u = Inr ()" by simp
  have law: "protect_law demo_lldb demo_mem" by (simp add: protect_law_def demo_lldb_def demo_mem_def Let_def)
  have w: "world demo_guarded = demo_world\<lparr>dw_process := Some (demo_process 1 []),
       dw_map := [(True, 16, 32, True, False, True, ''code''), (True, 32, 48, True, True, False, ''data'')]\<rparr>"
    by (simp add: demo_guarded_def ma_new_def hooks_dbg.defs dbg.defs mem_dbg.defs demo_dbg_def)
  have map: "region_map_ok (me_regions demo_mem (world demo_guarded))" "is_stopped demo_lldb (world demo_guarded)"
    "\<not> me_running demo_mem (world demo_guarded)"
    unfolding w by (simp_all add: region_map_ok_def demo_mem_def demo_lldb_def is_stopped_def demo_process_def)
  from guard_restores_map[OF law map(1) 1[unfolded r] 2[unfolded u] map(2,3)] 1 2 show ?thesis by simp
qed

section \<open>Snapshots stay bounded\<close>

interpretation eight_snapshots: bounded_history "\<lambda>xs :: (int \<times> snapshot) list. 8 < length xs"
  by unfold_locales simp

definition snap_inv :: "('w, 'z) mem_dbg_scheme \<Rightarrow> bool" where
  "snap_inv s = (length (ma_snapshots s) \<le> 8 \<and> sorted_wrt (<) (map fst (ma_snapshots s)) \<and>
     (\<forall>(i, r) \<in> set (ma_snapshots s). i \<le> ma_sequence s \<and> sn_id r = i \<and> sn_data r \<noteq> [] \<and>
        int (length (sn_data r)) \<le> SNAPSHOT_LIMIT))"

lemma snap_frame: "hooks_frame snap_inv"
  by (simp add: hooks_frame_def dbg_frame_def snap_inv_def)

lemmas snap_dbg = snap_frame[unfolded hooks_frame_def, THEN conjunct1]

lemma snap_other [simp]:
  "snap_inv (ma_enabled_update e s) = snap_inv s" "snap_inv (ma_hooks_update h s) = snap_inv s"
  "snap_inv (ma_previous_update p s) = snap_inv s" "snap_inv (ma_guard_update g s) = snap_inv s"
  "snap_inv (ma_guard_stop_update gs s) = snap_inv s" "snap_inv (ma_observed_update ob s) = snap_inv s"
  "snap_inv (ma_files_update fs s) = snap_inv s"
  by (simp_all add: snap_inv_def)

lemma od_set_above:
  "sorted_wrt (<) (map fst xs) \<Longrightarrow> \<forall>(i, r) \<in> set xs. i \<le> n \<Longrightarrow> n < (k :: int) \<Longrightarrow> od_set k v xs = xs @ [(k, v)]"
  by (rule od_set_fresh) (force simp: map_of_eq_None_iff)

lemma snap_capture:
  assumes "read_law L"
  shows "keepsP snap_inv (capture L address need label)"
  unfolding keepsP_wp
proof (intro allI impI)
  fix s :: "('a, 'b) mem_dbg_scheme" assume inv: "snap_inv s"
  show "wpP (capture L address need label) (\<lambda>_. snap_inv) (\<lambda>_. snap_inv) s"
  proof (cases "\<not> (0 < need \<and> need \<le> SNAPSHOT_LIMIT) \<or> address < 0 \<or> 2 ^ 64 \<le> address + need \<or>
      \<not> is_stopped L (world s) \<or> read_memory L (world s) address (nat need) = []")
    case True
    then show ?thesis using inv by (auto simp: capture_def wp)
  next
    case False
    let ?n = "ma_sequence s + 1"
    let ?data = "read_memory L (world s) address (nat need)"
    let ?r = "\<lparr>sn_id = ?n, sn_addr = address, sn_requested = need, sn_label = take 100 label,
        sn_data = ?data, sn_strings = mem_strings ?data address\<rparr>"
    let ?new = "keep_eight (od_set ?n ?r (ma_snapshots s))"
    have app: "od_set ?n ?r (ma_snapshots s) = ma_snapshots s @ [(?n, ?r)]"
      by (rule od_set_above[where n = "ma_sequence s"]) (use inv in \<open>auto simp: snap_inv_def\<close>)
    have suf: "suffix ?new (ma_snapshots s @ [(?n, ?r)])"
      using eight_snapshots.keeps_newest[of "ma_snapshots s @ [(?n, ?r)]"] app by (simp add: keep_eight_def)
    have len: "length ?new \<le> 8"
      using eight_snapshots.within[of "od_set ?n ?r (ma_snapshots s)"] by (simp add: keep_eight_def)
    have data: "int (length ?data) \<le> SNAPSHOT_LIMIT"
      using read_memory_length[OF assms, of "world s" address "nat need"] False by linarith
    have "sorted_wrt (<) (map fst (ma_snapshots s @ [(?n, ?r)]))"
      using inv by (force simp: snap_inv_def sorted_wrt_append)
    then have sorted: "sorted_wrt (<) (map fst ?new)"
    proof -
      assume srt: "sorted_wrt (<) (map fst (ma_snapshots s @ [(?n, ?r)]))"
      from suf obtain zs where "ma_snapshots s @ [(?n, ?r)] = zs @ ?new" by (auto simp: suffix_def)
      from srt[unfolded this] show ?thesis by (simp add: sorted_wrt_append)
    qed
    have "set ?new \<subseteq> set (ma_snapshots s @ [(?n, ?r)])" using set_mono_suffix[OF suf] .
    then have "\<forall>(i, r) \<in> set ?new. i \<le> ?n \<and> sn_id r = i \<and> sn_data r \<noteq> [] \<and> int (length (sn_data r)) \<le> SNAPSHOT_LIMIT"
      using inv data False by (fastforce simp: snap_inv_def)
    then have "snap_inv (s\<lparr>ma_sequence := ?n, ma_snapshots := ?new\<rparr>)"
      using len sorted by (simp add: snap_inv_def)
    then show ?thesis using False by (simp add: capture_def wp)
  qed
qed

lemma snap_protect: "keepsP snap_inv (protect M r p)"
  unfolding protect_def by (intro keeps snap_dbg)

lemma snap_disarm: "keepsP snap_inv (disarm_guard L M)"
  unfolding disarm_guard_def
  by (intro keeps) (auto intro!: keeps snap_dbg snap_protect keepsP_mod split: option.splits prod.splits)

lemma snap_disable: "keepsP snap_inv (ma_disable L M)"
  unfolding ma_disable_def
  by (intro keeps snap_disarm snap_frame) (auto intro!: keeps snap_dbg keepsP_mod split: prod.splits)

lemma snap_report: "read_law L \<Longrightarrow> keepsP snap_inv (report_region L M r need data old)"
  unfolding report_region_def
  by (intro keeps snap_capture snap_dbg keepsP_mod) auto

lemma snap_observe_rows: "read_law L \<Longrightarrow> keepsP snap_inv (observe_rows L M b rs budget cur)"
  by (induction rs arbitrary: budget cur)
    (auto simp: Let_def intro!: keeps snap_report split: prod.splits)

lemma snap_observe: "read_law L \<Longrightarrow> keepsP snap_inv (observe L M b)"
  unfolding observe_def by (intro keeps snap_observe_rows keepsP_mod) auto

datatype 'w mem_op = Capture addr int string | Compare int | ArmGuard addr | DisarmGuard | Enable | Disable | Reset
  | Stop process thread frame | Runs 'w

fun mem_step :: "'w lldb \<Rightarrow> 'w mem_env \<Rightarrow> 'w mem_op \<Rightarrow> ('w, 'z) mem_dbg_scheme \<Rightarrow> ('w, 'z) mem_dbg_scheme" where
  "mem_step L M (Capture a n l) s = snd (capture L a n l s)"
| "mem_step L M (Compare i) s = snd (compare_snapshot L i s)"
| "mem_step L M (ArmGuard a) s = snd (arm_guard L M a s)"
| "mem_step L M DisarmGuard s = snd (disarm_guard L M s)"
| "mem_step L M Enable s = snd (ma_enable L M s)"
| "mem_step L M Disable s = snd (ma_disable L M s)"
| "mem_step L M Reset s = snd (ma_reset L M s)"
| "mem_step L M (Stop p t f) s = snd (ma_apply_stop L M p t f s)"
| "mem_step L M (Runs w) s = s\<lparr>world := w\<rparr>"

lemma snap_enable: "read_law L \<Longrightarrow> keepsP snap_inv (ma_enable L M)"
  unfolding ma_enable_def ma_hook_def
  by (intro keeps snap_observe snap_disable keepsP_mod)
    (auto intro!: keeps snap_dbg keepsP_mod snap_observe snap_disable split: prod.splits)

lemma snap_stop: "read_law L \<Longrightarrow> keepsP snap_inv (ma_apply_stop L M p t f)"
  unfolding ma_apply_stop_def guard_stop_def Let_def
  by (auto intro!: keeps snap_dbg snap_frame keepsP_mod snap_observe snap_disarm split: prod.splits option.splits exn.splits)

lemma snap_arm: "keepsP snap_inv (arm_guard L M a)"
  unfolding arm_guard_def
  by (auto intro!: keeps snap_dbg keepsP_mod snap_protect split: prod.splits)

lemma snap_reset: "keepsP snap_inv (ma_reset L M)"
  unfolding ma_reset_def by (intro keeps snap_disable keepsP_mod) (simp add: snap_inv_def)

lemma snap_compare: "keepsP snap_inv (compare_snapshot L i)"
  unfolding compare_snapshot_def by (auto intro!: keeps split: prod.splits option.splits)

lemma mem_step_inv: "read_law L \<Longrightarrow> snap_inv s \<Longrightarrow> snap_inv (mem_step L M op s)"
  by (cases op) (simp_all add: keepsP_D snap_capture snap_compare snap_arm snap_disarm snap_enable snap_disable
      snap_reset snap_stop, simp add: snap_inv_def)

text \<open>
  Whatever sequence of captures, comparisons, guards, scans and stops a session sees, at most eight
  snapshots are kept, the newest ones in the order of their identifiers, each under its own identifier
  and of at most one megabyte.
\<close>
theorem snapshots_bounded:
  assumes "read_law L"
  shows "snap_inv (fold (mem_step L M) ops (ma_new epoch d))"
proof -
  have "snap_inv s \<Longrightarrow> snap_inv (fold (mem_step L M) ops s)" for s :: "'a mem_dbg"
    by (induction ops arbitrary: s) (auto simp: mem_step_inv[OF assms])
  moreover have "snap_inv (ma_new epoch d)"
    by (simp add: snap_inv_def ma_new_def hooks_dbg.defs dbg.defs mem_dbg.defs)
  ultimately show ?thesis by blast
qed

lemma snapshots_bounded_witness:
  "length (ma_snapshots (fold (mem_step demo_lldb demo_mem) [Capture 0x1000 4 ''code''] (ma_new ''e'' (demo_dbg demo_hit)))) \<le> 8"
proof -
  have "those (map g xs) = Some d \<Longrightarrow> length d = length xs" for g :: "nat \<Rightarrow> char option" and xs d
    by (induction xs arbitrary: d) (auto split: option.splits)
  then have "read_law demo_lldb" unfolding read_law_def demo_lldb_def by fastforce
  from snapshots_bounded[OF this, of demo_mem "[Capture 0x1000 4 ''code'']" "''e''" "demo_dbg demo_hit"]
  show ?thesis by (simp add: snap_inv_def)
qed

end
