(* ===== verification/JsonRead.thy ===== *)
theory JsonRead
  imports Json
begin

text \<open>
  \<open>json.loads\<close> on the text the modelled code reads back: trace files, patch manifests and saved
  states. Characters above code point 255 are outside the text model and are refused. A number
  with a fraction or an exponent keeps its text. Every nested value and every further element
  consumes a character, so the length of the text is fuel enough.
\<close>

section \<open>Lexemes\<close>

definition BS :: char where "BS = val_byte 92"
definition DQ :: char where "DQ = val_byte 34"

definition json_space :: "char \<Rightarrow> bool" where
  "json_space c = (byte_val c \<in> {9, 10, 13, 32})"

definition skip_ws :: "string \<Rightarrow> string" where
  "skip_ws s = dropWhile json_space s"

definition hex_value :: "char \<Rightarrow> int option" where
  "hex_value c = (case digit_val c of Some d \<Rightarrow> if d < 16 then Some d else None | None \<Rightarrow> None)"

definition hex4 :: "string \<Rightarrow> int option" where
  "hex4 s = (case map hex_value s of
       [Some a, Some b, Some c, Some d] \<Rightarrow> Some (((a * 16 + b) * 16 + c) * 16 + d) | _ \<Rightarrow> None)"

definition unescape :: "char \<Rightarrow> char option" where
  "unescape c = (if c = DQ \<or> c = BS \<or> c = CHR ''/'' then Some c
     else if c = CHR ''n'' then Some (val_byte 10) else if c = CHR ''r'' then Some (val_byte 13)
     else if c = CHR ''t'' then Some (val_byte 9) else if c = CHR ''f'' then Some (val_byte 12)
     else if c = CHR ''b'' then Some (val_byte 8) else None)"

text \<open>The rest of a string after its opening quote: the text and what follows the closing one.\<close>

function scan_string :: "string \<Rightarrow> (string \<times> string) option" where
  "scan_string [] = None"
| "scan_string (c # s) =
     (if c = DQ then Some ([], s)
      else if c \<noteq> BS then (if byte_val c < 32 then None else map_option (\<lambda>(t, r). (c # t, r)) (scan_string s))
      else (case s of [] \<Rightarrow> None | e # u \<Rightarrow>
        if e = CHR ''u'' then (case hex4 (take 4 u) of None \<Rightarrow> None
          | Some v \<Rightarrow> if 256 \<le> v then None
              else map_option (\<lambda>(t, r). (val_byte v # t, r)) (scan_string (drop 4 u)))
        else (case unescape e of None \<Rightarrow> None
          | Some x \<Rightarrow> map_option (\<lambda>(t, r). (x # t, r)) (scan_string u))))"
  by pat_completeness auto
termination by (relation "measure length") auto

text \<open>Numbers: \<open>(-?(?:0|[1-9]\d*))(\.\d+)?([eE][-+]?\d+)?\<close>, as the scanner matches them.\<close>

definition digits :: "string \<Rightarrow> string \<times> string" where
  "digits s = (takeWhile is_digit s, dropWhile is_digit s)"

definition int_part :: "string \<Rightarrow> (string \<times> string) option" where
  "int_part s = (let (sign, u) = (if take 1 s = ''-'' then (''-'', drop 1 s) else ([], s)) in
     if take 1 u = ''0'' then Some (sign @ ''0'', drop 1 u)
     else if fst (digits u) = [] then None else Some (sign @ fst (digits u), snd (digits u)))"

definition frac_part :: "string \<Rightarrow> string \<times> string" where
  "frac_part s = (if take 1 s = ''.'' \<and> fst (digits (drop 1 s)) \<noteq> []
     then (CHR ''.'' # fst (digits (drop 1 s)), snd (digits (drop 1 s))) else ([], s))"

definition exp_part :: "string \<Rightarrow> string \<times> string" where
  "exp_part s = (if take 1 s = ''e'' \<or> take 1 s = ''E''
     then (let u = drop 1 s; (sign, w) = (if take 1 u = ''-'' \<or> take 1 u = ''+'' then (take 1 u, drop 1 u) else ([], u))
       in if fst (digits w) = [] then ([], s) else (take 1 s @ sign @ fst (digits w), snd (digits w)))
     else ([], s))"

definition scan_number :: "string \<Rightarrow> (json \<times> string) option" where
  "scan_number s = (case int_part s of None \<Rightarrow> None
     | Some (i, s1) \<Rightarrow> (let (f, s2) = frac_part s1; (e, s3) = exp_part s2 in
         if f = [] \<and> e = [] then map_option (\<lambda>v. (JInt v, s1)) (py_int 10 i)
         else Some (JFloat (i @ f @ e), s3)))"

definition scan_word :: "string \<Rightarrow> (json \<times> string) option" where
  "scan_word s =
     (if starts_with s ''null'' then Some (JNull, drop 4 s)
      else if starts_with s ''true'' then Some (JBool True, drop 4 s)
      else if starts_with s ''false'' then Some (JBool False, drop 5 s)
      else case scan_number s of Some r \<Rightarrow> Some r
      | None \<Rightarrow> if starts_with s ''NaN'' then Some (JFloat ''NaN'', drop 3 s)
          else if starts_with s ''Infinity'' then Some (JFloat ''Infinity'', drop 8 s)
          else if starts_with s ''-Infinity'' then Some (JFloat ''-Infinity'', drop 9 s)
          else None)"

section \<open>Values\<close>

fun scan_value :: "nat \<Rightarrow> string \<Rightarrow> (json \<times> string) option"
  and scan_elements :: "nat \<Rightarrow> string \<Rightarrow> (json list \<times> string) option"
  and scan_members :: "nat \<Rightarrow> string \<Rightarrow> ((string \<times> json) list \<times> string) option" where
  "scan_value 0 s = None"
| "scan_value (Suc n) s = (case s of [] \<Rightarrow> None | c # u \<Rightarrow>
     if c = DQ then map_option (\<lambda>(t, r). (JStr t, r)) (scan_string u)
     else if c = CHR ''['' then (case skip_ws u of [] \<Rightarrow> None
       | d # w \<Rightarrow> if d = CHR '']'' then Some (JList [], w)
           else map_option (\<lambda>(xs, r). (JList xs, r)) (scan_elements n (d # w)))
     else if c = CHR ''{'' then (case skip_ws u of [] \<Rightarrow> None
       | d # w \<Rightarrow> if d = CHR ''}'' then Some (JObj [], w)
           else map_option (\<lambda>(kvs, r). (JObj (fold (\<lambda>(k, v). od_set k v) kvs []), r)) (scan_members n (d # w)))
     else scan_word s)"
| "scan_elements 0 s = None"
| "scan_elements (Suc n) s = (case scan_value n s of None \<Rightarrow> None
     | Some (v, r) \<Rightarrow> (case skip_ws r of [] \<Rightarrow> None
       | d # w \<Rightarrow> if d = CHR '']'' then Some ([v], w)
           else if d = CHR '','' then map_option (\<lambda>(vs, r). (v # vs, r)) (scan_elements n (skip_ws w))
           else None))"
| "scan_members 0 s = None"
| "scan_members (Suc n) s = (case s of [] \<Rightarrow> None | c # u \<Rightarrow>
     if c \<noteq> DQ then None
     else (case scan_string u of None \<Rightarrow> None
     | Some (k, r) \<Rightarrow> (case skip_ws r of [] \<Rightarrow> None
       | d # w \<Rightarrow> if d \<noteq> CHR '':'' then None
         else (case scan_value n (skip_ws w) of None \<Rightarrow> None
         | Some (v, r2) \<Rightarrow> (case skip_ws r2 of [] \<Rightarrow> None
           | e # w2 \<Rightarrow> if e = CHR ''}'' then Some ([(k, v)], w2)
               else if e = CHR '','' then map_option (\<lambda>(kvs, r). ((k, v) # kvs, r)) (scan_members n (skip_ws w2))
               else None)))))"

definition json_error :: exn where "json_error = ValueError ''invalid JSON''"

definition loads :: "string \<Rightarrow> json res" where
  "loads s = (case scan_value (Suc (length s)) (skip_ws s) of
       Some (j, r) \<Rightarrow> if skip_ws r = [] then Inr j else Inl json_error
     | None \<Rightarrow> Inl json_error)"


section \<open>What is printed is read back\<close>

lemma esc_plain: "32 \<le> byte_val c \<Longrightarrow> byte_val c \<le> 126 \<Longrightarrow> c \<noteq> DQ \<Longrightarrow> c \<noteq> BS \<Longrightarrow> esc_char c = [c]"
proof -
  assume a: "32 \<le> byte_val c" "byte_val c \<le> 126" "c \<noteq> DQ" "c \<noteq> BS"
  then have "byte_val c \<noteq> 34" "byte_val c \<noteq> 92" by (metis DQ_def BS_def val_byte_byte_val)+
  with a show ?thesis by (simp add: esc_char_def Let_def)
qed

lemma hex_value_digit: "d < 16 \<Longrightarrow> hex_value (hex_digit d) = Some (int d)"
  by (simp add: hex_value_def digit_val_hex_digit)

lemma hex4_hex2: "0 \<le> v \<Longrightarrow> v < 256 \<Longrightarrow> hex4 (''00'' @ hex2 v) = Some v"
proof -
  assume "0 \<le> v" "v < 256"
  then have "v \<in> set [0..255]" by simp
  moreover have "\<forall>v \<in> set [0..255]. hex4 (''00'' @ hex2 v) = Some v" by code_simp
  ultimately show ?thesis by (rule_tac bspec)
qed

lemma control_escape:
  "c \<in> {val_byte 10, val_byte 13, val_byte 9, val_byte 12, val_byte 8, DQ, BS} \<Longrightarrow>
     \<exists>e. esc_char c = [BS, e] \<and> unescape e = Some c \<and> e \<noteq> CHR ''u''"
proof -
  assume "c \<in> {val_byte 10, val_byte 13, val_byte 9, val_byte 12, val_byte 8, DQ, BS}"
  then have "c \<in> set [val_byte 10, val_byte 13, val_byte 9, val_byte 12, val_byte 8, DQ, BS]" by simp
  moreover have "\<forall>c \<in> set [val_byte 10, val_byte 13, val_byte 9, val_byte 12, val_byte 8, DQ, BS].
     length (esc_char c) = 2 \<and> esc_char c ! 0 = BS \<and> unescape (esc_char c ! 1) = Some c \<and> esc_char c ! 1 \<noteq> CHR ''u''"
    by code_simp
  ultimately have h: "length (esc_char c) = 2 \<and> esc_char c ! 0 = BS \<and> unescape (esc_char c ! 1) = Some c \<and> esc_char c ! 1 \<noteq> CHR ''u''"
    by (rule_tac bspec)
  then have "esc_char c = [esc_char c ! 0, esc_char c ! 1]"
    by (auto simp: length_Suc_conv numeral_2_eq_2)
  with h show ?thesis by metis
qed

lemma other_escape:
  "c \<notin> {val_byte 10, val_byte 13, val_byte 9, val_byte 12, val_byte 8, DQ, BS} \<Longrightarrow>
   \<not> (32 \<le> byte_val c \<and> byte_val c \<le> 126) \<Longrightarrow> esc_char c = BS # ''u00'' @ hex2 (byte_val c)"
proof -
  assume a: "c \<notin> {val_byte 10, val_byte 13, val_byte 9, val_byte 12, val_byte 8, DQ, BS}" "\<not> (32 \<le> byte_val c \<and> byte_val c \<le> 126)"
  then have "byte_val c \<notin> {10, 13, 9, 12, 8, 34, 92}"
    by (metis (no_types, lifting) DQ_def BS_def val_byte_byte_val insert_iff empty_iff)
  with a(2) show ?thesis by (auto simp: esc_char_def Let_def BS_def)
qed

lemma DQ_BS [simp]: "DQ \<noteq> BS" "BS \<noteq> DQ" by code_simp+

lemma scan_esc: "scan_string (esc_char c @ u) = map_option (\<lambda>(t, r). (c # t, r)) (scan_string u)"
proof -
  consider (ctl) "c \<in> {val_byte 10, val_byte 13, val_byte 9, val_byte 12, val_byte 8, DQ, BS}"
    | (plain) "32 \<le> byte_val c \<and> byte_val c \<le> 126 \<and> c \<noteq> DQ \<and> c \<noteq> BS"
    | (other) "c \<notin> {val_byte 10, val_byte 13, val_byte 9, val_byte 12, val_byte 8, DQ, BS}" "\<not> (32 \<le> byte_val c \<and> byte_val c \<le> 126)"
    by blast
  then show ?thesis
  proof cases
    case ctl
    from control_escape[OF this] show ?thesis by auto
  next
    case plain
    then show ?thesis using esc_plain[of c] by simp
  next
    case other
    obtain x y where h: "hex2 (byte_val c) = [x, y]" by (simp add: hex2_def)
    have "\<not> 256 \<le> byte_val c" using byte_val_range(2)[of c] by linarith
    then show ?thesis using other_escape[OF other] hex4_hex2[of "byte_val c"] h
      by (simp add: numeral_eq_Suc)
  qed
qed

lemma scan_quote: "scan_string (concat (map esc_char s) @ DQ # rest) = Some (s, rest)"
  by (induction s) (simp_all add: scan_esc)

text \<open>Numbers end where no digit, point or exponent follows.\<close>

definition number_end :: "string \<Rightarrow> bool" where
  "number_end r = (case r of [] \<Rightarrow> True | c # _ \<Rightarrow> \<not> is_digit c \<and> c \<notin> set ''.eE'')"

lemma is_digit_hex: "d < 10 \<Longrightarrow> is_digit (hex_digit d)"
proof -
  assume "d < 10"
  moreover have "\<forall>d \<in> set [0..<10]. is_digit (hex_digit d)" by code_simp
  ultimately show ?thesis by simp
qed

lemma nat_dec_digits: "list_all is_digit (nat_dec n) \<and> nat_dec n \<noteq> []"
proof (induction n rule: nat_dec.induct)
  case (1 n)
  have "is_digit (hex_digit (n mod 10))" by (simp add: is_digit_hex)
  with 1 show ?case by (cases "n < 10") (simp_all add: nat_dec.simps[of n])
qed

lemma nat_dec_head: "0 < n \<Longrightarrow> \<exists>d s. nat_dec n = hex_digit d # s \<and> 0 < d \<and> d < 10"
proof (induction n rule: nat_dec.induct)
  case (1 n)
  show ?case
  proof (cases "n < 10")
    case True
    with 1 show ?thesis by (auto simp: nat_dec.simps[of n])
  next
    case False
    then have "0 < n div 10" by simp
    with 1 False show ?thesis by (subst nat_dec.simps) auto
  qed
qed

lemma digits_int_nat_dec:
  "digits_int 10 ok acc (nat_dec n @ s) = digits_int 10 True (acc * 10 ^ length (nat_dec n) + int n) s"
proof (induction n arbitrary: ok acc s rule: nat_dec.induct)
  case (1 n)
  have v: "digit_val (hex_digit (n mod 10)) = Some (int (n mod 10))" by (simp add: digit_val_hex_digit)
  have u: "hex_digit (n mod 10) \<noteq> CHR ''_''" by (simp add: hex_digit_plain)
  show ?case
  proof (cases "n < 10")
    case True
    with u v show ?thesis by (simp add: nat_dec.simps[of n])
  next
    case False
    have split: "int n = int (n div 10) * 10 + int (n mod 10)" by presburger
    have "digits_int 10 ok acc (nat_dec n @ s)
        = digits_int 10 True ((acc * 10 ^ length (nat_dec (n div 10)) + int (n div 10)) * 10 + int (n mod 10)) s"
      using False 1 u v by (simp add: nat_dec.simps[of n])
    also have "(acc * 10 ^ length (nat_dec (n div 10)) + int (n div 10)) * 10 + int (n mod 10)
        = acc * 10 ^ length (nat_dec n) + int n"
      using False split by (simp add: nat_dec.simps[of n] algebra_simps)
    finally show ?thesis .
  qed
qed


lemma digits_append: "list_all is_digit d \<Longrightarrow> number_end r \<Longrightarrow> digits (d @ r) = (d, r)"
proof -
  assume a: "list_all is_digit d" "number_end r"
  then have "takeWhile is_digit r = [] \<and> dropWhile is_digit r = r"
    by (cases r) (auto simp: number_end_def)
  with a(1) show ?thesis by (simp add: digits_def takeWhile_append2 dropWhile_append2 list_all_iff)
qed

lemma nat_dec_zero: "nat_dec 0 = ''0''"
  by (simp add: nat_dec.simps[of 0] hex_digit_def)

lemma hex_digit_zero: "d < 10 \<Longrightarrow> 0 < d \<Longrightarrow> hex_digit d \<noteq> CHR ''0'' \<and> hex_digit d \<noteq> CHR ''-'' \<and> hex_digit d \<noteq> CHR ''+''"
proof -
  assume "d < 10" "0 < d"
  moreover have "\<forall>d \<in> set [1..<10]. hex_digit d \<noteq> CHR ''0'' \<and> hex_digit d \<noteq> CHR ''-'' \<and> hex_digit d \<noteq> CHR ''+''" by code_simp
  ultimately show ?thesis by simp
qed

lemma int_part_dec:
  assumes "number_end r"
  shows "int_part (nat_dec n @ r) = Some (nat_dec n, r)" "int_part (CHR ''-'' # nat_dec n @ r) = Some (CHR ''-'' # nat_dec n, r)"
proof -
  have "int_part (nat_dec n @ r) = Some (nat_dec n, r) \<and> int_part (CHR ''-'' # nat_dec n @ r) = Some (CHR ''-'' # nat_dec n, r)"
  proof (cases "n = 0")
    case False
    then obtain d s where h: "nat_dec n = hex_digit d # s" "0 < d" "d < 10" using nat_dec_head by blast
    moreover have "digits (nat_dec n @ r) = (nat_dec n, r)" using digits_append assms nat_dec_digits by blast
    ultimately show ?thesis using hex_digit_zero[OF h(3,2)] by (simp add: int_part_def)
  qed (simp add: nat_dec_zero int_part_def)
  then show "int_part (nat_dec n @ r) = Some (nat_dec n, r)" "int_part (CHR ''-'' # nat_dec n @ r) = Some (CHR ''-'' # nat_dec n, r)"
    by blast+
qed

lemma number_end_parts: "number_end r \<Longrightarrow> frac_part r = ([], r) \<and> exp_part r = ([], r)"
  by (cases r) (auto simp: number_end_def frac_part_def exp_part_def)

lemma solid_dec: "\<exists>x xs y. nat_dec n = xs @ [y] \<and> hd (nat_dec n) = x \<and> \<not> is_space x \<and> \<not> is_space y"
proof -
  have "\<not> is_space c" if "is_digit c" for c using that by (auto simp: is_digit_def is_space_def Let_def)
  moreover obtain xs y where "nat_dec n = xs @ [y]" using nat_dec_digits[of n] by (cases "nat_dec n" rule: rev_cases) auto
  moreover have "is_digit (hd (nat_dec n))" using nat_dec_digits[of n] by (cases "nat_dec n") auto
  ultimately show ?thesis using nat_dec_digits[of n] by auto
qed

lemma py_strip_dec: "py_strip (nat_dec n) = nat_dec n" "py_strip (CHR ''-'' # nat_dec n) = CHR ''-'' # nat_dec n"
proof -
  obtain xs y where h: "nat_dec n = xs @ [y]" "\<not> is_space (hd (nat_dec n))" "\<not> is_space y" using solid_dec by blast
  have m: "\<not> is_space (CHR ''-'')" by code_simp
  show "py_strip (nat_dec n) = nat_dec n"
    using h by (cases xs) (auto simp: py_strip_solid py_strip_def strip_by_def lstrip_by_def rstrip_by_def)
  show "py_strip (CHR ''-'' # nat_dec n) = CHR ''-'' # nat_dec n"
    using h m py_strip_solid by simp
qed

lemma unsigned_dec: "unsigned_int 10 (nat_dec n) = Some (int n)"
proof -
  have "base_prefix (nat_dec n) = None"
  proof (cases "n = 0")
    case False
    then obtain d s where "nat_dec n = hex_digit d # s" "0 < d" "d < 10" using nat_dec_head by blast
    then show ?thesis using hex_digit_zero by (simp add: base_prefix_def)
  qed (simp add: nat_dec_zero base_prefix_def)
  then show ?thesis using digits_int_nat_dec[of False 0 n "[]"] by (simp add: unsigned_int_def)
qed

lemma py_int_py_str: "py_int 10 (py_str v) = Some v"
proof (cases "v < 0")
  case True
  then show ?thesis by (simp add: py_int_def py_str_def py_strip_dec unsigned_dec)
next
  case False
  have "take 1 (nat_dec n) \<noteq> ''-'' \<and> take 1 (nat_dec n) \<noteq> ''+''" for n
  proof -
    have "is_digit (hd (nat_dec n)) \<and> nat_dec n \<noteq> []" using nat_dec_digits[of n] by (cases "nat_dec n") auto
    moreover have "\<not> is_digit (CHR ''-'')" "\<not> is_digit (CHR ''+'')" by code_simp+
    ultimately show ?thesis by (cases "nat_dec n") auto
  qed
  with False show ?thesis by (simp add: py_int_def py_str_def py_strip_dec unsigned_dec Let_def)
qed

interpretation dec: text_codec py_str "py_int 10"
  by unfold_locales (rule py_int_py_str)

lemma scan_number_int: "number_end r \<Longrightarrow> scan_number (py_str v @ r) = Some (JInt v, r)"
proof -
  assume r: "number_end r"
  have "int_part (py_str v @ r) = Some (py_str v, r)"
    using int_part_dec[OF r] by (simp add: py_str_def)
  then show ?thesis using number_end_parts[OF r] by (simp add: scan_number_def py_int_py_str)
qed


text \<open>Values without floats and without repeated keys.\<close>

fun canon :: "json \<Rightarrow> bool" where
  "canon (JFloat t) = False"
| "canon (JList xs) = list_all canon xs"
| "canon (JObj kvs) = (distinct (map fst kvs) \<and> list_all (\<lambda>kv. canon (snd kv)) kvs)"
| "canon _ = True"

definition opener :: "char \<Rightarrow> bool" where
  "opener c = (c = DQ \<or> c = CHR ''['' \<or> c = CHR ''{'')"

lemma is_digit_plain: "is_digit c \<Longrightarrow> \<not> json_space c \<and> \<not> opener c \<and> c \<notin> set ''ntf]}''"
proof -
  assume d: "is_digit c"
  have "\<forall>v \<in> set [48..57]. \<not> json_space (val_byte v) \<and> \<not> opener (val_byte v) \<and> val_byte v \<notin> set ''ntf]}''" by code_simp
  moreover have "byte_val c \<in> set [48..57]" using d unfolding set_upto by (simp add: is_digit_def Let_def)
  ultimately show ?thesis by (metis val_byte_byte_val)
qed

lemma py_str_head: "\<exists>c s. py_str v = c # s \<and> \<not> json_space c \<and> \<not> opener c \<and> c \<notin> set ''ntf]}''"
proof -
  have m: "\<not> json_space (CHR ''-'') \<and> \<not> opener (CHR ''-'')" by code_simp
  obtain c s where "nat_dec (nat v) = c # s" "is_digit c"
    using nat_dec_digits[of "nat v"] by (cases "nat_dec (nat v)") auto
  with m is_digit_plain show ?thesis by (simp add: py_str_def)
qed

lemma skip_solid: "\<not> json_space c \<Longrightarrow> skip_ws (c # s) = c # s"
  by (simp add: skip_ws_def)

lemma solid_chars [simp]: "\<not> json_space CHR ''['' " "\<not> json_space CHR '']''" "\<not> json_space CHR ''{''"
  "\<not> json_space CHR ''}''" "\<not> json_space CHR '',''" "\<not> json_space CHR '':''" "\<not> json_space DQ" "json_space CHR '' ''"
  by code_simp+

lemma DQ_chars [simp]: "CHR ''['' \<noteq> DQ" "CHR ''{'' \<noteq> DQ" "CHR '']'' \<noteq> DQ" "CHR ''}'' \<noteq> DQ" "CHR ''n'' \<noteq> DQ" "CHR ''t'' \<noteq> DQ"
  "CHR ''f'' \<noteq> DQ" "CHR '':'' \<noteq> DQ" "CHR '','' \<noteq> DQ"
  by code_simp+

lemma number_end_chars [simp]: "number_end (CHR '','' # r)" "number_end (CHR '']'' # r)" "number_end (CHR ''}'' # r)" "number_end []"
  by (simp_all add: number_end_def is_digit_def byte_val_def)

lemma scan_word_int: "number_end r \<Longrightarrow> scan_word (py_str v @ r) = Some (JInt v, r)"
proof -
  assume r: "number_end r"
  obtain c s where h: "py_str v = c # s" "c \<notin> set ''ntf]}''" using py_str_head by blast
  then have "\<not> starts_with (py_str v @ r) ''null''" "\<not> starts_with (py_str v @ r) ''true''" "\<not> starts_with (py_str v @ r) ''false''"
    by (auto simp: starts_with_def)
  then show ?thesis using scan_number_int[OF r] by (simp add: scan_word_def)
qed

text \<open>A text of a value: read back whatever follows, and it does not start with white space.\<close>

definition reads_as :: "string \<Rightarrow> json \<Rightarrow> bool" where
  "reads_as t j = ((\<forall>n r. length t \<le> n \<longrightarrow> number_end r \<longrightarrow> scan_value n (t @ r) = Some (j, r)) \<and>
     (\<exists>c s. t = c # s \<and> \<not> json_space c \<and> c \<notin> set '']}''))"

lemma reads_asD: "reads_as t j \<Longrightarrow> length t \<le> n \<Longrightarrow> number_end r \<Longrightarrow> scan_value n (t @ r) = Some (j, r)"
  by (simp add: reads_as_def)

lemma number_end_space: "list_all json_space v \<Longrightarrow> number_end r \<Longrightarrow> number_end (v @ r)"
  by (cases v) (auto simp: number_end_def json_space_def is_digit_def byte_val_def)

lemma skip_space: "list_all json_space v \<Longrightarrow> \<not> json_space c \<Longrightarrow> skip_ws (v @ c # s) = c # s"
  by (simp add: skip_ws_def list_all_iff dropWhile_append2)

lemma skip_reads: "list_all json_space v \<Longrightarrow> reads_as t j \<Longrightarrow> skip_ws (v @ t @ r) = t @ r"
  by (auto simp: reads_as_def skip_space)

lemma reads_elements:
  assumes "list_all json_space w" "list_all json_space v"
  shows "xs \<noteq> [] \<Longrightarrow> \<forall>x \<in> set xs. reads_as (f x) x \<Longrightarrow> length (join (CHR '','' # w) (map f xs)) < n \<Longrightarrow>
   scan_elements n (join (CHR '','' # w) (map f xs) @ v @ CHR '']'' # r) = Some (xs, r)"
proof (induction xs arbitrary: n)
  case (Cons x xs)
  then obtain m where n: "n = Suc m" by (cases n) auto
  show ?case
  proof (cases xs)
    case Nil
    have "scan_value m (f x @ v @ CHR '']'' # r) = Some (x, v @ CHR '']'' # r)"
      using Cons.prems n Nil by (intro reads_asD number_end_space assms) auto
    then show ?thesis using Nil n assms(2) by (simp add: skip_space)
  next
    case (Cons y ys)
    let ?J = "join (CHR '','' # w) (map f xs)"
    have e: "join (CHR '','' # w) (map f (x # xs)) = f x @ CHR '','' # w @ ?J" by (simp add: Cons)
    obtain t where "?J = f y @ t" using Cons by (cases ys) auto
    then have sk: "skip_ws (w @ ?J @ v @ CHR '']'' # r) = ?J @ v @ CHR '']'' # r"
      using skip_reads[OF assms(1), of "f y" y] Cons.prems(2) Cons by simp
    have "scan_value m (f x @ CHR '','' # w @ ?J @ v @ CHR '']'' # r) = Some (x, CHR '','' # w @ ?J @ v @ CHR '']'' # r)"
      using Cons.prems(2,3) n e by (intro reads_asD) auto
    moreover have "scan_elements m (?J @ v @ CHR '']'' # r) = Some (xs, r)"
      using Cons.prems n e Cons by (intro Cons.IH) auto
    ultimately show ?thesis using n sk unfolding e by (simp add: skip_solid)
  qed
qed simp

definition member_text :: "('a \<Rightarrow> string) \<Rightarrow> string \<times> 'a \<Rightarrow> string" where
  "member_text f kv = quote (fst kv) @ '': '' @ f (snd kv)"

lemma reads_members:
  assumes "list_all json_space w" "list_all json_space v"
  shows "kvs \<noteq> [] \<Longrightarrow> \<forall>kv \<in> set kvs. reads_as (f (snd kv)) (snd kv) \<Longrightarrow>
   length (join (CHR '','' # w) (map (member_text f) kvs)) < n \<Longrightarrow>
   scan_members n (join (CHR '','' # w) (map (member_text f) kvs) @ v @ CHR ''}'' # r) = Some (kvs, r)"
proof (induction kvs arbitrary: n)
  case (Cons kv kvs)
  then obtain m where n: "n = Suc m" by (cases n) auto
  have q: "quote k = DQ # concat (map esc_char k) @ [DQ]" for k by (simp add: quote_def DQ_def)
  have rd: "reads_as (f (snd kv)) (snd kv)" using Cons.prems(2) by simp
  then have sp: "skip_ws (CHR '' '' # f (snd kv) @ u) = f (snd kv) @ u" for u
    using skip_reads[of "'' ''" "f (snd kv)" "snd kv" u] by simp
  have len: "length (f (snd kv)) \<le> m"
    using Cons.prems(3) n by (cases kvs) (simp_all add: member_text_def)
  show ?case
  proof (cases kvs)
    case Nil
    have "scan_value m (f (snd kv) @ v @ CHR ''}'' # r) = Some (snd kv, v @ CHR ''}'' # r)"
      by (intro reads_asD[OF rd len] number_end_space assms) simp
    then show ?thesis using Nil n sp assms(2) by (simp add: member_text_def q scan_quote skip_solid skip_space)
  next
    case (Cons kv2 kvs2)
    let ?J = "join (CHR '','' # w) (map (member_text f) kvs)"
    obtain u where u: "?J = DQ # u" using Cons by (cases kvs2) (auto simp: member_text_def q)
    have e: "join (CHR '','' # w) (map (member_text f) (kv # kvs)) = member_text f kv @ CHR '','' # w @ ?J" by (simp add: Cons)
    have sk: "skip_ws (w @ ?J @ v @ CHR ''}'' # r) = ?J @ v @ CHR ''}'' # r"
      using u assms(1) by (simp add: skip_space)
    have "scan_value m (f (snd kv) @ CHR '','' # w @ ?J @ v @ CHR ''}'' # r) =
        Some (snd kv, CHR '','' # w @ ?J @ v @ CHR ''}'' # r)"
      by (rule reads_asD[OF rd len]) simp
    moreover have "scan_members m (?J @ v @ CHR ''}'' # r) = Some (kvs, r)"
      using Cons.prems n e Cons by (intro Cons.IH) (auto simp: member_text_def)
    ultimately show ?thesis unfolding e using n sp sk
      by (simp add: member_text_def[of f kv] q scan_quote skip_solid)
  qed
qed simp

lemma dict_rebuild: "distinct (map fst kvs) \<Longrightarrow> fold (\<lambda>(k, v). od_set k v) kvs [] = kvs"
proof -
  have "distinct (map fst (d @ kvs)) \<Longrightarrow> fold (\<lambda>(k, v). od_set k v) kvs d = d @ kvs" for d :: "('a, 'b) odict"
  proof (induction kvs arbitrary: d)
    case (Cons kv kvs)
    have "map_of d (fst kv) = None" using Cons.prems by (auto simp: map_of_eq_None_iff)
    then have "od_set (fst kv) (snd kv) d = d @ [kv]" by (simp add: od_set_fresh)
    with Cons.IH[of "d @ [kv]"] Cons.prems show ?case by (simp add: split_beta)
  qed simp
  from this[of "[]"] show "distinct (map fst kvs) \<Longrightarrow> ?thesis" by simp
qed

lemma scan_word_words [simp]:
  "scan_word (CHR ''n'' # CHR ''u'' # CHR ''l'' # CHR ''l'' # r) = Some (JNull, r)"
  "scan_word (CHR ''t'' # CHR ''r'' # CHR ''u'' # CHR ''e'' # r) = Some (JBool True, r)"
  "scan_word (CHR ''f'' # CHR ''a'' # CHR ''l'' # CHR ''s'' # CHR ''e'' # r) = Some (JBool False, r)"
  by (simp_all add: scan_word_def starts_with_def)

text \<open>The texts of the constructors.\<close>

lemma reads_as_I:
  assumes "\<And>m r. length t \<le> Suc m \<Longrightarrow> number_end r \<Longrightarrow> scan_value (Suc m) (t @ r) = Some (j, r)"
    and t: "t = c # s" "\<not> json_space c" "c \<notin> set '']}''"
  shows "reads_as t j"
proof -
  have "scan_value n (t @ r) = Some (j, r)" if n: "length t \<le> n" and r: "number_end r" for n r
  proof -
    obtain m where "n = Suc m" using n t(1) by (cases n) auto
    with assms(1) n r show ?thesis by blast
  qed
  with t show ?thesis unfolding reads_as_def by blast
qed

lemma reads_scalars:
  "reads_as ''null'' JNull" "reads_as ''true'' (JBool True)" "reads_as ''false'' (JBool False)"
  "reads_as (quote t) (JStr t)"
proof -
  have c: "\<not> json_space CHR ''n''" "\<not> json_space CHR ''t''" "\<not> json_space CHR ''f''" "DQ \<notin> set '']}''" by code_simp+
  show "reads_as ''null'' JNull" "reads_as ''true'' (JBool True)" "reads_as ''false'' (JBool False)"
    using c by (auto intro!: reads_as_I)
  show "reads_as (quote t) (JStr t)"
    using c by (auto simp: quote_def DQ_def[symmetric] scan_quote intro!: reads_as_I)
qed

lemma reads_int: "reads_as (py_str v) (JInt v)"
proof -
  obtain c s where h: "py_str v = c # s" "\<not> json_space c" "\<not> opener c" "c \<notin> set ''ntf]}''" using py_str_head by blast
  show ?thesis
  proof (rule reads_as_I[OF _ h(1,2)])
    fix m r assume "number_end r"
    then show "scan_value (Suc m) (py_str v @ r) = Some (JInt v, r)"
      using scan_word_int[of r v] h by (simp add: opener_def)
  qed (use h in auto)
qed

lemma reads_empty: "reads_as ''[]'' (JList [])" "reads_as ''{}'' (JObj [])"
  by (auto simp: skip_solid intro!: reads_as_I)

lemma reads_list:
  assumes ws: "list_all json_space u" "list_all json_space w" "list_all json_space v"
    and xs: "xs \<noteq> []" "\<forall>x \<in> set xs. reads_as (f x) x"
  shows "reads_as (CHR ''['' # u @ join (CHR '','' # w) (map f xs) @ v @ '']'') (JList xs)"
proof (rule reads_as_I[OF _ refl])
  fix m r
  let ?J = "join (CHR '','' # w) (map f xs)"
  assume "length (CHR ''['' # u @ ?J @ v @ '']'') \<le> Suc m"
  then have "scan_elements m (?J @ v @ CHR '']'' # r) = Some (xs, r)"
    using xs by (intro reads_elements ws) auto
  moreover obtain c s where h: "?J = c # s" "\<not> json_space c" "c \<noteq> CHR '']''"
    using xs by (cases xs; cases "tl xs") (auto simp: reads_as_def)
  moreover have "skip_ws (u @ ?J @ v @ CHR '']'' # r) = ?J @ v @ CHR '']'' # r"
    using h by (simp add: skip_space ws)
  ultimately show "scan_value (Suc m) ((CHR ''['' # u @ ?J @ v @ '']'') @ r) = Some (JList xs, r)"
    by simp
qed simp_all

lemma reads_obj:
  assumes ws: "list_all json_space u" "list_all json_space w" "list_all json_space v"
    and kvs: "kvs \<noteq> []" "distinct (map fst kvs)" "\<forall>kv \<in> set kvs. reads_as (f (snd kv)) (snd kv)"
  shows "reads_as (CHR ''{'' # u @ join (CHR '','' # w) (map (member_text f) kvs) @ v @ ''}'') (JObj kvs)"
proof (rule reads_as_I[OF _ refl])
  fix m r
  let ?J = "join (CHR '','' # w) (map (member_text f) kvs)"
  assume "length (CHR ''{'' # u @ ?J @ v @ ''}'') \<le> Suc m"
  then have "scan_members m (?J @ v @ CHR ''}'' # r) = Some (kvs, r)"
    using kvs by (intro reads_members ws) auto
  moreover obtain s where h: "?J = DQ # s"
    using kvs(1) by (cases kvs; cases "tl kvs") (auto simp: member_text_def quote_def DQ_def)
  moreover have "skip_ws (u @ ?J @ v @ CHR ''}'' # r) = ?J @ v @ CHR ''}'' # r"
    using h by (simp add: skip_space ws)
  ultimately show "scan_value (Suc m) ((CHR ''{'' # u @ ?J @ v @ ''}'') @ r) = Some (JObj kvs, r)"
    using kvs(2) DQ_chars(4)[symmetric] by (simp add: dict_rebuild)
qed simp_all

lemma reads_dumps: "canon j \<Longrightarrow> reads_as (dumps j) j"
proof (induction j rule: dumps.induct)
  case (6 xs)
  then show ?case using reads_list[of "[]" "'' ''" "[]" xs dumps] reads_empty
    by (cases "xs = []") (auto simp: dumps.simps list_all_iff)
next
  case (7 kvs)
  then show ?case using reads_obj[of "[]" "'' ''" "[]" kvs dumps] reads_empty
    by (cases "kvs = []") (auto simp: dumps.simps list_all_iff member_text_def[abs_def])
qed (simp_all add: dumps.simps reads_scalars reads_int)

lemma loads_reads: "reads_as t j \<Longrightarrow> list_all json_space v \<Longrightarrow> loads (t @ v) = Inr j"
proof -
  assume r: "reads_as t j" and v: "list_all json_space v"
  have "scan_value (Suc (length (t @ v))) (t @ v) = Some (j, v)"
    by (rule reads_asD[OF r]) (use number_end_space[OF v, of "[]"] in simp_all)
  moreover have "skip_ws (t @ v) = t @ v" using skip_reads[OF _ r, of "[]" v] by simp
  moreover have "skip_ws v = []" using v by (simp add: skip_ws_def list_all_iff)
  ultimately show ?thesis by (simp add: loads_def del: scan_value.simps)
qed

lemma loads_dumps: "canon j \<Longrightarrow> loads (dumps j) = Inr j"
  using loads_reads[OF reads_dumps, of j "[]"] by simp

lemma loads_line: "canon j \<Longrightarrow> loads (dumps j @ [newline]) = Inr j"
proof -
  have "list_all json_space [newline]" by code_simp
  then show "canon j \<Longrightarrow> ?thesis" using loads_reads[OF reads_dumps] by blast
qed

section \<open>Indented text\<close>

text \<open>\<open>json.dumps(value, indent=2)\<close>, at a nesting level.\<close>

definition line_break :: "nat \<Rightarrow> string" where
  "line_break lv = newline # replicate (2 * lv) CHR '' ''"

fun dumps2 :: "nat \<Rightarrow> json \<Rightarrow> string" where
  "dumps2 lv (JList xs) = (if xs = [] then ''[]''
     else CHR ''['' # line_break (Suc lv) @ join (CHR '','' # line_break (Suc lv)) (map (dumps2 (Suc lv)) xs) @ line_break lv @ '']'')"
| "dumps2 lv (JObj kvs) = (if kvs = [] then ''{}''
     else CHR ''{'' # line_break (Suc lv) @
       join (CHR '','' # line_break (Suc lv)) (map (\<lambda>kv. quote (fst kv) @ '': '' @ dumps2 (Suc lv) (snd kv)) kvs) @ line_break lv @ ''}'')"
| "dumps2 lv j = dumps j"

lemma line_break_space: "list_all json_space (line_break lv)"
proof -
  have "json_space newline" by code_simp
  then show ?thesis by (simp add: line_break_def list_all_iff)
qed

lemma reads_dumps2: "canon j \<Longrightarrow> reads_as (dumps2 lv j) j"
proof (induction lv j rule: dumps2.induct)
  case (1 lv xs)
  have "reads_as (dumps2 (Suc lv) x) x" if "x \<in> set xs" for x
    using 1 that by (cases "xs = []") (simp_all add: list_all_iff[of _ xs])
  then show ?case
    using reads_list[OF line_break_space line_break_space line_break_space, of xs "dumps2 (Suc lv)" "Suc lv" "Suc lv" lv] reads_empty(1)
    by (cases "xs = []") simp_all
next
  case (2 lv kvs)
  have "reads_as (dumps2 (Suc lv) (snd kv)) (snd kv)" if "kv \<in> set kvs" for kv
    using 2 that by (cases "kvs = []") (simp_all add: list_all_iff[of _ kvs])
  moreover have "distinct (map fst kvs)" using 2(2) by simp
  ultimately show ?case
    using reads_obj[OF line_break_space line_break_space line_break_space, of kvs "dumps2 (Suc lv)" "Suc lv" "Suc lv" lv] reads_empty(2)
    by (cases "kvs = []") (simp_all add: member_text_def[abs_def])
qed (simp_all add: reads_dumps)

lemma loads_dumps2: "canon j \<Longrightarrow> loads (dumps2 lv j) = Inr j"
  using loads_reads[OF reads_dumps2, of j "[]" lv] by simp

section \<open>Values read from a document\<close>

text \<open>\<open>data.hex()\<close> and \<open>bytes.fromhex(text)\<close>, which skips white space between bytes.\<close>

definition py_bytes_hex :: "bytes \<Rightarrow> string" where
  "py_bytes_hex bs = concat (map (\<lambda>b. hex2 (byte_val b)) bs)"

definition ascii_space :: "char \<Rightarrow> bool" where
  "ascii_space c = (byte_val c \<in> {9, 10, 11, 12, 13, 32})"

function from_hex :: "string \<Rightarrow> bytes option" where
  "from_hex s = (case dropWhile ascii_space s of [] \<Rightarrow> Some []
     | [_] \<Rightarrow> None
     | a # b # r \<Rightarrow> (case (hex_value a, hex_value b) of
           (Some x, Some y) \<Rightarrow> map_option (Cons (val_byte (16 * x + y))) (from_hex r)
         | _ \<Rightarrow> None))"
  by pat_completeness auto
termination
proof -
  have "length r < length s" if "dropWhile ascii_space s = a # b # r" for s r :: string and a b
    using length_dropWhile_le[of ascii_space s] that by simp
  then show ?thesis by (relation "measure length") auto
qed

declare from_hex.simps [simp del]

lemma from_hex_byte: "from_hex (hex2 (byte_val b) @ r) = map_option (Cons b) (from_hex r)"
proof -
  have "\<forall>v \<in> set [0..255]. (case hex2 v of [x, y] \<Rightarrow> \<not> ascii_space x \<and> (case (hex_value x, hex_value y) of
      (Some a, Some b) \<Rightarrow> 16 * a + b = v | _ \<Rightarrow> False) | _ \<Rightarrow> False)" by code_simp
  moreover have "byte_val b \<in> set [0..255]" unfolding set_upto using byte_val_range[of b] by (simp add: less_le)
  ultimately have "case hex2 (byte_val b) of [x, y] \<Rightarrow> \<not> ascii_space x \<and> (case (hex_value x, hex_value y) of
      (Some a, Some c) \<Rightarrow> 16 * a + c = byte_val b | _ \<Rightarrow> False) | _ \<Rightarrow> False" by (rule bspec)
  then obtain x y a c where "hex2 (byte_val b) = [x, y]" "\<not> ascii_space x" "hex_value x = Some a" "hex_value y = Some c"
    "16 * a + c = byte_val b"
    by (auto split: list.splits option.splits)
  then show ?thesis by (subst from_hex.simps) simp
qed

lemma from_hex_bytes: "from_hex (py_bytes_hex bs) = Some bs"
  by (induction bs) (simp_all add: py_bytes_hex_def from_hex_byte, simp add: from_hex.simps)

interpretation hexbytes: text_codec py_bytes_hex from_hex
  by unfold_locales (rule from_hex_bytes)

definition type_error :: "string \<Rightarrow> exn" where
  "type_error m = PyError ''TypeError'' m"

text \<open>Truth values, \<open>isinstance(v, dict)\<close>, \<open>v.get(key)\<close> and \<open>v[key]\<close>.\<close>

fun truthy :: "json \<Rightarrow> bool" where
  "truthy JNull = False"
| "truthy (JBool b) = b"
| "truthy (JInt v) = (v \<noteq> 0)"
| "truthy (JFloat t) = (t \<notin> set [''0.0'', ''-0.0''])"
| "truthy (JStr s) = (s \<noteq> [])"
| "truthy (JList xs) = (xs \<noteq> [])"
| "truthy (JObj d) = (d \<noteq> [])"

fun is_obj :: "json \<Rightarrow> bool" where
  "is_obj (JObj d) = True"
| "is_obj _ = False"

fun obj_get :: "json \<Rightarrow> string \<Rightarrow> json option res" where
  "obj_get (JObj d) k = Inr (map_of d k)"
| "obj_get _ k = Inl (PyError ''AttributeError'' ''get'')"

fun obj_item :: "json \<Rightarrow> string \<Rightarrow> json res" where
  "obj_item (JObj d) k = (case map_of d k of Some v \<Rightarrow> Inr v | None \<Rightarrow> Inl (KeyError k))"
| "obj_item _ k = Inl (type_error k)"

text \<open>\<open>int(v, 16)\<close> and \<open>bytes.fromhex(v)\<close> want text.\<close>

fun hex_int :: "json \<Rightarrow> int res" where
  "hex_int (JStr s) = (case py_int 16 s of Some v \<Rightarrow> Inr v | None \<Rightarrow> Inl (ValueError ''invalid literal for int()''))"
| "hex_int _ = Inl (type_error ''int() can't convert non-string with explicit base'')"

fun hex_data :: "json \<Rightarrow> bytes res" where
  "hex_data (JStr s) = (case from_hex s of Some b \<Rightarrow> Inr b | None \<Rightarrow> Inl (ValueError ''non-hexadecimal number''))"
| "hex_data _ = Inl (type_error ''fromhex() argument must be str'')"

text \<open>
  \<open>int(v)\<close> of a JSON value. A float is its decimal text, truncated toward zero; texts with an
  exponent are scaled by it.
\<close>

definition float_int :: "string \<Rightarrow> int res" where
  "float_int t =
     (if t = ''NaN'' then Inl (ValueError ''cannot convert float NaN to integer'')
      else case int_part t of None \<Rightarrow> Inl (PyError ''OverflowError'' ''cannot convert float infinity to integer'')
      | Some (i, s1) \<Rightarrow> (let (f, s2) = frac_part s1; e = (case py_int 10 (drop 1 s2) of Some v \<Rightarrow> v | None \<Rightarrow> 0);
            neg = (take 1 i = ''-''); fd = drop 1 f;
            m = (case py_int 10 ((if neg then drop 1 i else i) @ fd) of Some v \<Rightarrow> v | None \<Rightarrow> 0);
            k = e - int (length fd); v = (if 0 \<le> k then m * 10 ^ nat k else m div 10 ^ nat (- k)) in
          Inr (if neg then - v else v)))"

fun json_int :: "json \<Rightarrow> int res" where
  "json_int (JInt v) = Inr v"
| "json_int (JBool b) = Inr (if b then 1 else 0)"
| "json_int (JStr s) = (case py_int 10 s of Some v \<Rightarrow> Inr v | None \<Rightarrow> Inl (ValueError ''invalid literal for int()''))"
| "json_int (JFloat t) = float_int t"
| "json_int _ = Inl (type_error ''int() argument'')"

text \<open>\<open>list(v or [])\<close>, and the rows of \<open>d.get(key) or []\<close>.\<close>

fun json_list :: "json \<Rightarrow> json list res" where
  "json_list (JList xs) = Inr xs"
| "json_list (JStr s) = Inr (map (\<lambda>c. JStr [c]) s)"
| "json_list (JObj d) = Inr (map (JStr \<circ> fst) d)"
| "json_list v = (if truthy v then Inl (type_error ''object is not iterable'') else Inr [])"

definition get_default :: "json \<Rightarrow> string \<Rightarrow> json \<Rightarrow> json res" where
  "get_default d k v = bindR (obj_get d k) (\<lambda>o'. Inr (case o' of None \<Rightarrow> v | Some x \<Rightarrow> x))"

end
