(* ===== verification/Timing.thy ===== *)
theory Timing
  imports Breakpoints JsonRead
begin

text \<open>
  \<open>macdbg/core/timing.py\<close>: rules that rewrite a register or redirect the program counter at an
  instruction of the main executable. Rules are kept as the JSON objects the state file holds;
  \<open>trule\<close> is a rule after \<open>_validated_rules\<close> has read it. Where the executable and its text
  section are loaded, and the clock that excludes these rules, come from outside.
\<close>

datatype action = Redirect int string | Rewrite string int int

record trule =
  tr_name :: string
  tr_offset :: int
  tr_expected :: string
  tr_action :: action

record 'w timing_dbg = "'w dbg" +
  tm_rules :: "json list"
  tm_saved :: "json list"
  tm_enabled :: bool
  tm_error :: "string option"
  tm_hooks :: "(int, trule \<times> addr) odict"
  tm_handled :: "(int \<times> int \<times> int \<times> int) list"
  tm_hits :: "(string, int) odict"

text \<open>The load address of the main executable, if it is loaded, and the bounds of its text section.\<close>

record 'w timing_env =
  te_main :: "'w \<Rightarrow> addr option"
  te_text :: "'w \<Rightarrow> (addr \<times> int) option"
  te_clock :: "'w \<Rightarrow> bool"

section \<open>Values\<close>

definition integer :: "json \<Rightarrow> int res" where
  "integer v = (case v of
     JInt i \<Rightarrow> Inr i
   | JStr s \<Rightarrow> (case py_int 0 s of Some i \<Rightarrow> Inr i | None \<Rightarrow> Inl (ValueError ''invalid literal for int()''))
   | _ \<Rightarrow> Inl (ValueError ''expected an integer or numeric string''))"

definition register_name_ok :: "string \<Rightarrow> bool" where
  "register_name_ok n = (case n of c # ds \<Rightarrow> (c = CHR ''x'' \<or> c = CHR ''w'') \<and>
     (case ds of [d] \<Rightarrow> is_digit d
      | [d, e] \<Rightarrow> ((d = CHR ''1'' \<or> d = CHR ''2'') \<and> is_digit e) \<or> (d = CHR ''3'' \<and> e = CHR ''0'')
      | _ \<Rightarrow> False) | [] \<Rightarrow> False)"

definition register_bits :: "json \<Rightarrow> nat res" where
  "register_bits v = (case v of
     JStr n \<Rightarrow> if register_name_ok n then Inr (if starts_with n ''w'' then 32 else 64)
       else Inl (ValueError ''timing rules require an ARM64 x0-x30 or w0-w30 register'')
   | _ \<Rightarrow> Inl (ValueError ''timing rules require an ARM64 x0-x30 or w0-w30 register''))"

definition rewritten_value :: "int \<Rightarrow> int \<Rightarrow> int \<Rightarrow> nat \<Rightarrow> int res" where
  "rewritten_value old v msk bits =
     (let limit = 2 ^ bits - 1 in
      if \<not> (0 \<le> v \<and> v \<le> limit) \<or> \<not> (0 < msk \<and> msk \<le> limit) \<or> v AND NOT msk \<noteq> 0
      then Inl (ValueError ''value must fit the register and contain only masked bits'')
      else Inr ((old AND (limit XOR msk)) OR v))"

definition name_ok :: "json \<Rightarrow> bool" where
  "name_ok v = (case v of JStr n \<Rightarrow> 1 \<le> length n \<and> length n \<le> 64 \<and>
       list_all (\<lambda>c. is_lower c \<or> is_upper c \<or> is_digit c \<or> c \<in> set ''_.-'') n
     | _ \<Rightarrow> False)"

section \<open>The main executable\<close>

definition module_base :: "'w lldb \<Rightarrow> 'w timing_env \<Rightarrow> 'w \<Rightarrow> addr res" where
  "module_base L E w =
     (if \<not> obs_target L w then Inl (ValueError ''no target'')
      else if \<not> (starts_with (obs_triple L w) ''arm64'' \<or> starts_with (obs_triple L w) ''aarch64'')
      then Inl (ValueError ''timing rules currently support native ARM64 targets'')
      else case te_main E w of None \<Rightarrow> Inl (ValueError ''main executable is not loaded'')
        | Some base \<Rightarrow> if base = 0 \<or> base = 2 ^ 64 - 1
            then Inl (ValueError ''main executable has no load address'') else Inr base)"

definition instruction :: "'w lldb \<Rightarrow> 'w timing_env \<Rightarrow> 'w \<Rightarrow> addr \<Rightarrow> string res" where
  "instruction L E w address =
     bindR (module_base L E w) (\<lambda>_.
     bindR (guardR (case te_text E w of None \<Rightarrow> False
        | Some (start, need) \<Rightarrow> address mod 4 = 0 \<and> start \<noteq> 2 ^ 64 - 1 \<and> start \<le> address \<and> address \<le> start + need - 4)
       (ValueError ''rule addresses must be aligned instructions in main __TEXT,__text'')) (\<lambda>_.
     let data = read_memory L w address 4 in
     bindR (guardR (length data = 4) (ValueError ''cannot read timing rule instruction'')) (\<lambda>_.
     Inr (py_bytes_hex data))))"

section \<open>Editing the rules\<close>

definition tm_stopped :: "'w lldb \<Rightarrow> ('w, 'z) timing_dbg_scheme \<Rightarrow> unit res" where
  "tm_stopped L s =
     bindR (guardR (case obs_process L (world s) of None \<Rightarrow> False | Some p \<Rightarrow> pr_stopped p)
       (ValueError ''timing rules require a stopped process'')) (\<lambda>_.
     guardR (\<not> step_active s) (ValueError ''finish or cancel the current step before changing timing rules''))"

definition field :: "string \<Rightarrow> (string \<times> json) list \<Rightarrow> json res" where
  "field k d = (case map_of d k of None \<Rightarrow> Inl (KeyError k) | Some v \<Rightarrow> Inr v)"

definition jget :: "json \<Rightarrow> string \<Rightarrow> json option" where
  "jget v k = (case v of JObj d \<Rightarrow> map_of d k | _ \<Rightarrow> None)"

definition mask_default :: "nat \<Rightarrow> (string \<times> json) list \<Rightarrow> json" where
  "mask_default bits args = (case map_of args ''mask'' of None \<Rightarrow> JInt (2 ^ bits - 1) | Some v \<Rightarrow> v)"

text \<open>The action part of a new rule: a redirect or a register, never both.\<close>

definition new_action ::
    "'w lldb \<Rightarrow> 'w timing_env \<Rightarrow> 'w \<Rightarrow> (string \<times> json) list \<Rightarrow> addr \<Rightarrow> addr \<Rightarrow> (string \<times> json) list res" where
  "new_action L E w args base address =
     (case map_of args ''redirect'' of
       Some rd \<Rightarrow>
         bindR (guardR (\<not> list_ex (\<lambda>k. map_of args k \<noteq> None) [''register'', ''value'', ''mask''])
           (ValueError ''choose a register action or a redirect, not both'')) (\<lambda>_.
         bindR (integer rd) (\<lambda>destination.
         bindR (guardR (destination \<noteq> address) (ValueError ''redirect must advance to a different instruction'')) (\<lambda>_.
         bindR (instruction L E w destination) (\<lambda>code.
         Inr [(''redirect_offset'', JInt (destination - base)), (''redirect_expected'', JStr code)]))))
     | None \<Rightarrow>
         bindR (field ''register'' args) (\<lambda>reg.
         bindR (register_bits reg) (\<lambda>bits.
         bindR (field ''value'' args) (\<lambda>jv.
         bindR (integer jv) (\<lambda>v.
         bindR (integer (mask_default bits args)) (\<lambda>msk.
         bindR (rewritten_value 0 v msk bits) (\<lambda>_.
         Inr [(''register'', reg), (''value'', JInt v), (''mask'', JInt msk)])))))))"

definition new_rule ::
    "'w lldb \<Rightarrow> 'w timing_env \<Rightarrow> 'w \<Rightarrow> json list \<Rightarrow> (string \<times> json) list \<Rightarrow> json res" where
  "new_rule L E w rules args =
     bindR (guardR (list_all (\<lambda>kv. fst kv \<in> set [''name'', ''addr'', ''register'', ''value'', ''mask'', ''redirect'']) args)
       (ValueError ''unknown timing rule fields'')) (\<lambda>_.
     bindR (guardR (case map_of args ''name'' of None \<Rightarrow> False | Some n \<Rightarrow> name_ok n)
       (ValueError ''rule name must be 1-64 letters, digits, dots, underscores or hyphens'')) (\<lambda>_.
     let n = the (map_of args ''name'') in
     bindR (guardR (\<not> list_ex (\<lambda>r. jget r ''name'' = Some n) rules) (ValueError ''timing rule name already exists'')) (\<lambda>_.
     bindR (field ''addr'' args) (\<lambda>ja.
     bindR (integer ja) (\<lambda>address.
     bindR (module_base L E w) (\<lambda>base.
     bindR (instruction L E w address) (\<lambda>code.
     bindR (guardR (\<not> list_ex (\<lambda>r. jget r ''offset'' = Some (JInt (address - base))) rules)
       (ValueError ''only one timing action is allowed at each instruction'')) (\<lambda>_.
     bindR (new_action L E w args base address) (\<lambda>act.
     Inr (JObj ([(''name'', n), (''offset'', JInt (address - base)), (''expected'', JStr code)] @ act)))))))))))"

definition persist :: "('w, 'z) timing_dbg_scheme \<Rightarrow> ('w, 'z) timing_dbg_scheme" where
  "persist s = s\<lparr>tm_saved := tm_rules s\<rparr>"

definition tm_add :: "'w lldb \<Rightarrow> 'w timing_env \<Rightarrow> (string \<times> json) list \<Rightarrow> (('w, 'z) timing_dbg_scheme, json) py" where
  "tm_add L E args =
     bindP (getP (tm_stopped L)) (\<lambda>st.
     seqP (liftP st)
     (bindP (getP tm_enabled) (\<lambda>on.
     seqP (checkP (\<not> on) (ValueError ''disable timing rules before editing them''))
     (bindP (getP (\<lambda>s. new_rule L E (world s) (tm_rules s) args)) (\<lambda>made.
     bindP (liftP made) (\<lambda>rule.
     seqP (modP (\<lambda>s. persist (s\<lparr>tm_rules := tm_rules s @ [rule], tm_error := None\<rparr>)))
     (retP rule)))))))"

definition tm_remove :: "'w lldb \<Rightarrow> string \<Rightarrow> (('w, 'z) timing_dbg_scheme, unit) py" where
  "tm_remove L name =
     bindP (getP (tm_stopped L)) (\<lambda>st.
     seqP (liftP st)
     (bindP (getP (\<lambda>s. (tm_enabled s, list_ex (\<lambda>r. jget r ''name'' = Some (JStr name)) (tm_rules s)))) (\<lambda>(on, known).
     seqP (checkP (\<not> on) (ValueError ''disable timing rules before editing them''))
     (seqP (checkP known (ValueError ''unknown timing rule''))
     (modP (\<lambda>s. persist (s\<lparr>tm_rules := filter (\<lambda>r. jget r ''name'' \<noteq> Some (JStr name)) (tm_rules s), tm_error := None\<rparr>)))))))"

section \<open>Reading saved rules\<close>

definition same_fields :: "(string \<times> json) list \<Rightarrow> string list \<Rightarrow> bool" where
  "same_fields d ks = (set (map fst d) = set ks)"

definition saved_action ::
    "'w lldb \<Rightarrow> 'w timing_env \<Rightarrow> 'w \<Rightarrow> (string \<times> json) list \<Rightarrow> addr \<Rightarrow> addr \<Rightarrow> action res" where
  "saved_action L E w d base address =
     (case map_of d ''redirect_offset'' of
       Some jo \<Rightarrow>
         bindR (guardR (same_fields d [''name'', ''offset'', ''expected'', ''redirect_offset'', ''redirect_expected''])
           (ValueError ''invalid saved redirect rule'')) (\<lambda>_.
         bindR (integer jo) (\<lambda>ro.
         bindR (guardR (base + ro \<noteq> address) (ValueError ''redirect instruction changed for timing rule'')) (\<lambda>_.
         bindR (instruction L E w (base + ro)) (\<lambda>code.
         bindR (guardR (map_of d ''redirect_expected'' = Some (JStr code)) (ValueError ''redirect instruction changed for timing rule'')) (\<lambda>_.
         Inr (Redirect ro code))))))
     | None \<Rightarrow>
         bindR (guardR (same_fields d [''name'', ''offset'', ''expected'', ''register'', ''value'', ''mask''])
           (ValueError ''invalid saved register rule'')) (\<lambda>_.
         bindR (field ''register'' d) (\<lambda>reg.
         bindR (register_bits reg) (\<lambda>bits.
         bindR (bindR (field ''value'' d) integer) (\<lambda>v.
         bindR (bindR (field ''mask'' d) integer) (\<lambda>msk.
         bindR (rewritten_value 0 v msk bits) (\<lambda>_.
         Inr (Rewrite (case reg of JStr n \<Rightarrow> n | _ \<Rightarrow> []) v msk))))))))"

definition saved_rule ::
    "'w lldb \<Rightarrow> 'w timing_env \<Rightarrow> 'w \<Rightarrow> addr \<Rightarrow> json \<Rightarrow> (trule \<times> addr) list \<Rightarrow> (trule \<times> addr) list res" where
  "saved_rule L E w base saved acc =
     (case saved of JObj d \<Rightarrow>
       bindR (field ''name'' d) (\<lambda>n.
       bindR (guardR (name_ok n \<and> \<not> list_ex (\<lambda>ra. JStr (tr_name (fst ra)) = n) acc)
         (ValueError ''invalid or duplicate saved timing rule name'')) (\<lambda>_.
       bindR (bindR (field ''offset'' d) integer) (\<lambda>offset.
       bindR (guardR (\<not> list_ex (\<lambda>ra. snd ra = base + offset) acc) (ValueError ''duplicate timing rule address'')) (\<lambda>_.
       bindR (instruction L E w (base + offset)) (\<lambda>code.
       bindR (field ''expected'' d) (\<lambda>expected.
       bindR (guardR (expected = JStr code) (ValueError ''instruction changed for timing rule'')) (\<lambda>_.
       bindR (saved_action L E w d base (base + offset)) (\<lambda>act.
       Inr (acc @ [(\<lparr>tr_name = (case n of JStr m \<Rightarrow> m | _ \<Rightarrow> []), tr_offset = offset,
          tr_expected = code, tr_action = act\<rparr>, base + offset)])))))))))
     | _ \<Rightarrow> Inl (ValueError ''saved timing rule must be an object''))"

definition validated_rules :: "'w lldb \<Rightarrow> 'w timing_env \<Rightarrow> 'w \<Rightarrow> json list \<Rightarrow> (trule \<times> addr) list res" where
  "validated_rules L E w rules =
     bindR (module_base L E w) (\<lambda>base. foldR (saved_rule L E w base) rules [])"

section \<open>Arming the rules\<close>

definition exn_text :: "exn \<Rightarrow> string" where
  "exn_text e = (case e of ValueError m \<Rightarrow> m | RuntimeError m \<Rightarrow> m | PyError c m \<Rightarrow> m
     | KeyError k \<Rightarrow> [val_byte 39] @ k @ [val_byte 39])"

definition tm_disable :: "'w lldb \<Rightarrow> (('w, 'z) timing_dbg_scheme, bool \<times> string) py" where
  "tm_disable L =
     bindP (getP (\<lambda>s. map fst (tm_hooks s))) (\<lambda>is.
     seqP (forP (\<lambda>i.
        seqP (bindP (getP (\<lambda>s. obs_target L (world s))) (\<lambda>target. whenP target (seqP (onW (do_bp_delete L i)) (retP ()))))
          (modP (\<lambda>s. s\<lparr>hardware_ids := hardware_ids s - {i}\<rparr>))) is)
     (seqP (modP (\<lambda>s. s\<lparr>tm_hooks := [], tm_handled := [], tm_enabled := False, tm_error := None\<rparr>))
     (retP (True, ''timing rules disabled''))))"

definition arm_rule :: "'w lldb \<Rightarrow> trule \<times> addr \<Rightarrow> (('w, 'z) timing_dbg_scheme, unit) py" where
  "arm_rule L ra =
     bindP (create_hardware_breakpoint L (''-a '' @ py_hex (snd ra)) True 0) (\<lambda>b.
     modP (\<lambda>s. s\<lparr>tm_hooks := od_set (bp_id b) ra (tm_hooks s), hardware_ids := insert (bp_id b) (hardware_ids s)\<rparr>))"

definition arm_rules :: "'w lldb \<Rightarrow> 'w timing_env \<Rightarrow> (('w, 'z) timing_dbg_scheme, unit) py" where
  "arm_rules L E =
     bindP (getP (tm_stopped L)) (\<lambda>st.
     seqP (liftP st)
     (bindP (getP (\<lambda>s. (te_clock E (world s), tm_rules s))) (\<lambda>(clock, rules).
     seqP (checkP (\<not> clock) (ValueError ''disable automatic clocks before enabling manual timing rules''))
     (seqP (checkP (rules \<noteq> []) (ValueError ''configure at least one timing rule before enabling anti_timing''))
     (bindP (getP (\<lambda>s. validated_rules L E (world s) (tm_rules s))) (\<lambda>found.
     bindP (liftP found) (\<lambda>ras.
     seqP (forP (arm_rule L) ras)
     (modP (\<lambda>s. s\<lparr>tm_enabled := True, tm_error := None, tm_handled := [], tm_hits := []\<rparr>)))))))))"

text \<open>The filters a hook may have: none, or its owner thread.\<close>

definition filters_clear :: "filters \<Rightarrow> bool" where
  "filters_clear f = (flt_condition f = [] \<and> flt_ignore f = 0 \<and> \<not> flt_auto f \<and> flt_thread f = 0 \<and>
     (flt_index f = 0 \<or> flt_index f = 2 ^ 32 - 1) \<and> flt_tname f = [] \<and> flt_queue f = [] \<and> flt_commands f = [])"

definition hook_intact :: "'w lldb \<Rightarrow> 'w \<Rightarrow> int \<Rightarrow> addr \<Rightarrow> unit res" where
  "hook_intact L w i address =
     (case find_bp L w i of None \<Rightarrow> Inl (ValueError ''timing breakpoint was modified; disable and re-enable'')
      | Some b \<Rightarrow>
         if \<not> bp_enabled b \<or> \<not> bp_hardware b \<or> length (bp_locs b) \<noteq> 1 \<or> bp_oneshot b
         then Inl (ValueError ''timing breakpoint was modified; disable and re-enable'')
         else let l = hd (bp_locs b) in
           if \<not> loc_enabled l \<or> \<not> loc_resolved l \<or> loc_addr l \<noteq> address
           then Inl (ValueError ''timing breakpoint is disabled or moved; disable and re-enable'')
           else guardR (filters_clear (bp_filters b) \<and> filters_clear (loc_filters l))
             (ValueError ''timing breakpoint filters were modified; disable and re-enable''))"

definition hooks_intact :: "'w lldb \<Rightarrow> 'w timing_env \<Rightarrow> ('w, 'z) timing_dbg_scheme \<Rightarrow> unit res" where
  "hooks_intact L E s =
     (let w = world s; sites = map (\<lambda>h. snd (snd h)) (tm_hooks s) in
      bindR (guardR (tm_hooks s \<noteq> [] \<and> length (tm_hooks s) = length (tm_rules s))
        (ValueError ''timing rule hooks are missing; disable and re-enable'')) (\<lambda>_.
      bindR (validate_hardware_capacity L (if step_plan_active s then 1 else 0) w) (\<lambda>_.
      bindR (foldR (\<lambda>h _. hook_intact L w (fst h) (snd (snd h))) (tm_hooks s) ()) (\<lambda>_.
      bindR (guardR (\<not> list_ex (shares_software sites) (obs_breakpoints L w))
        (ValueError ''software breakpoint overlaps a timing rule; remove it before resuming'')) (\<lambda>_.
      if (case obs_process L w of None \<Rightarrow> False | Some p \<Rightarrow> pr_stopped p)
      then bindR (validated_rules L E w (tm_rules s)) (\<lambda>_. Inr ()) else Inr ())))))"

definition tm_validate :: "'w lldb \<Rightarrow> 'w timing_env \<Rightarrow> (('w, 'z) timing_dbg_scheme, bool \<times> string) py" where
  "tm_validate L E =
     bindP (getP (\<lambda>s. (tm_enabled s, tm_error s))) (\<lambda>(on, err).
     if \<not> on then retP (True, ''timing rules disabled'')
     else case err of Some m \<Rightarrow> retP (False, m)
     | None \<Rightarrow> bindP (getP (hooks_intact L E)) (\<lambda>r. case r of
         Inr _ \<Rightarrow> retP (True, ''timing rules ready'')
       | Inl e \<Rightarrow> seqP (modP (\<lambda>s. s\<lparr>tm_error := Some (exn_text e)\<rparr>)) (retP (False, exn_text e))))"

definition tm_enable :: "'w lldb \<Rightarrow> 'w timing_env \<Rightarrow> (('w, 'z) timing_dbg_scheme, bool \<times> string) py" where
  "tm_enable L E =
     bindP (getP tm_enabled) (\<lambda>on.
     if on then tm_validate L E
     else catchP (seqP (arm_rules L E) (getP (\<lambda>s. (True, ''timing rules enabled ('' @ py_str (int (length (tm_hooks s))) @ '' hardware sites)''))))
       (\<lambda>e. seqP (tm_disable L)
         (seqP (modP (\<lambda>s. s\<lparr>tm_error := Some (exn_text e)\<rparr>)) (retP (False, exn_text e)))))"

definition require_ready :: "'w lldb \<Rightarrow> 'w timing_env \<Rightarrow> (('w, 'z) timing_dbg_scheme, unit) py" where
  "require_ready L E = bindP (tm_validate L E) (\<lambda>(ok, m). checkP ok (RuntimeError m))"

section \<open>Applying the rules at a stop\<close>

definition thread_of :: "'w lldb \<Rightarrow> int \<Rightarrow> 'w \<Rightarrow> thread option" where
  "thread_of L i w = (case obs_process L w of None \<Rightarrow> None | Some p \<Rightarrow> find (\<lambda>t. th_id t = i) (pr_threads p))"

definition thread_pc :: "'w lldb \<Rightarrow> int \<Rightarrow> 'w \<Rightarrow> addr option" where
  "thread_pc L i w = (case thread_of L i w of None \<Rightarrow> None | Some t \<Rightarrow> th_pc t)"

definition thread_reg :: "'w lldb \<Rightarrow> int \<Rightarrow> string \<Rightarrow> 'w \<Rightarrow> int option" where
  "thread_reg L i r w = (case thread_of L i w of None \<Rightarrow> None
     | Some t \<Rightarrow> (case th_frame t of None \<Rightarrow> None | Some f \<Rightarrow> fr_reg f r))"

definition apply_action ::
    "'w lldb \<Rightarrow> 'w timing_env \<Rightarrow> thread \<Rightarrow> frame \<Rightarrow> action \<Rightarrow> (('w, 'z) timing_dbg_scheme, string) py" where
  "apply_action L E t f act = (case act of
     Redirect ro _ \<Rightarrow>
       bindP (getP (\<lambda>s. module_base L E (world s))) (\<lambda>mb.
       bindP (liftP mb) (\<lambda>base.
       let destination = base + ro in
       bindP (onW (do_set_pc L (th_id t) destination)) (\<lambda>ok.
       bindP (getP (\<lambda>s. thread_pc L (th_id t) (world s))) (\<lambda>pc.
       seqP (checkP (ok \<and> pc = Some destination) (ValueError ''could not redirect program counter''))
       (retP (''pc '' @ py_hex (fr_pc f) @ '' -> '' @ py_hex destination))))))
   | Rewrite name v msk \<Rightarrow>
       let x = CHR ''x'' # tl name in
       bindP (liftP (register_bits (JStr name))) (\<lambda>bits.
       bindP (getP (\<lambda>s. thread_reg L (th_id t) x (world s))) (\<lambda>reg. case reg of
         None \<Rightarrow> raiseP (ValueError (''register is unavailable: '' @ name))
       | Some old \<Rightarrow>
          bindP (liftP (rewritten_value old v msk bits)) (\<lambda>new.
          bindP (onW (do_set_reg L (th_id t) x (py_hex new))) (\<lambda>err.
          case err of Some m \<Rightarrow> raiseP (ValueError (if m = [] then ''register write failed'' else m))
          | None \<Rightarrow>
             bindP (getP (\<lambda>s. thread_reg L (th_id t) x (world s))) (\<lambda>actual.
             seqP (checkP (actual = Some new) (ValueError ''register write verification failed''))
             (retP (name @ '' '' @ py_hex old @ '' -> '' @ py_hex new))))))))"

definition hit_rule ::
    "'w lldb \<Rightarrow> 'w timing_env \<Rightarrow> process \<Rightarrow> thread \<Rightarrow> frame \<Rightarrow> int \<times> trule \<Rightarrow> string list
     \<Rightarrow> (('w, 'z) timing_dbg_scheme, string list) py" where
  "hit_rule L E p t f br messages =
     (let key = (pr_pid p, pr_stop p, th_id t, fst br); rule = snd br in
      bindP (getP (\<lambda>s. key \<in> set (tm_handled s))) (\<lambda>seen.
      if seen then retP messages
      else catchP
        (bindP (apply_action L E t f (tr_action rule)) (\<lambda>detail.
         seqP (modP (\<lambda>s. s\<lparr>tm_handled := List.insert key (tm_handled s),
             tm_hits := od_set (tr_name rule) (1 + (case map_of (tm_hits s) (tr_name rule) of None \<Rightarrow> 0 | Some n \<Rightarrow> n)) (tm_hits s)\<rparr>))
         (retP (messages @ [''[timing] '' @ tr_name rule @ '' thread '' @ py_str (th_id t) @ '': '' @ detail]))))
        (\<lambda>e. if (case e of KeyError _ \<Rightarrow> True | PyError _ _ \<Rightarrow> True | _ \<Rightarrow> False) then raiseP e
          else (let m = ''timing rule '' @ tr_name rule @ '': '' @ exn_text e in
              seqP (modP (\<lambda>s. s\<lparr>tm_error := Some m\<rparr>)) (raiseP (RuntimeError m))))))"

definition thread_ids :: "thread \<Rightarrow> int list" where
  "thread_ids t = (if th_reason t = SrBreakpoint
     then map (\<lambda>i. th_data t ! (2 * i)) [0 ..< (length (th_data t) + 1) div 2] else [])"

text \<open>One thread of \<open>apply_stop\<close>: the messages so far, whether a hook matched and whether the stop is foreign.\<close>

definition apply_thread ::
    "'w lldb \<Rightarrow> 'w timing_env \<Rightarrow> process \<Rightarrow> thread \<Rightarrow> string list \<times> bool \<times> bool
     \<Rightarrow> (('w, 'z) timing_dbg_scheme, string list \<times> bool \<times> bool) py" where
  "apply_thread L E p t acc =
     (case th_frame t of None \<Rightarrow> retP acc
      | Some f \<Rightarrow>
         bindP (getP tm_hooks) (\<lambda>all.
         let hooks = map (\<lambda>(i, ra). (i, fst ra)) (filter (\<lambda>(i, ra). snd ra = fr_pc f) all);
             foreign = snd (snd acc) \<or> \<not> set (thread_ids t) \<subseteq> fst ` set all \<or>
               th_reason t \<notin> {SrNone, SrInvalid, SrBreakpoint} in
         if th_reason t \<notin> {SrBreakpoint, SrPlanComplete} then retP (fst acc, fst (snd acc), foreign)
         else bindP (foldP (hit_rule L E p t f) hooks (fst acc)) (\<lambda>messages.
           retP (messages, fst (snd acc) \<or> hooks \<noteq> [], foreign))))"

definition tm_apply_stop :: "'w lldb \<Rightarrow> 'w timing_env \<Rightarrow> (('w, 'z) timing_dbg_scheme, string list \<times> bool) py" where
  "tm_apply_stop L E =
     bindP (getP tm_enabled) (\<lambda>on.
     if \<not> on then retP ([], False)
     else seqP (require_ready L E)
       (bindP (getP (\<lambda>s. obs_process L (world s))) (\<lambda>proc. case proc of None \<Rightarrow> retP ([], False)
        | Some p \<Rightarrow>
           if \<not> pr_stopped p then retP ([], False)
           else seqP (modP (\<lambda>s. s\<lparr>tm_handled := filter (\<lambda>(a, b, c, d). (a, b) = (pr_pid p, pr_stop p)) (tm_handled s)\<rparr>))
             (bindP (foldP (apply_thread L E p) (pr_threads p) ([], False, False)) (\<lambda>(messages, matched, foreign).
             retP (messages, matched \<and> \<not> foreign))))))"


section \<open>Rewriting changes the masked bits only\<close>

text \<open>
  A register action replaces exactly the bits of its mask by those of its value, keeps the other
  bits of the register and, for a 32-bit register, clears the upper half as a W write does.
\<close>
theorem rewritten_value_bits:
  assumes "rewritten_value old v m n = Inr new" "0 \<le> old"
  shows "(\<forall>i. bit new i = (if bit m i then bit v i else i < n \<and> bit old i)) \<and> 0 \<le> new \<and> new < 2 ^ n"
proof -
  from assms(1) have v: "0 \<le> v" "v \<le> 2 ^ n - 1" "0 < m" "m \<le> 2 ^ n - 1" "v AND NOT m = 0"
    and new: "new = (old AND ((2 ^ n - 1) XOR m)) OR v"
    by (auto simp: rewritten_value_def Let_def split: if_splits)
  have lim: "(2 :: int) ^ n - 1 = Bit_Operations.mask n" by (simp add: mask_eq_exp_minus_1)
  have vm: "bit v i \<Longrightarrow> bit m i" for i
    using v(5) by (metis bit_and_iff bit_not_int_iff bit_0_eq bot_apply bot_bool_def)
  have mn: "bit m i \<Longrightarrow> i < n" for i
  proof -
    assume b: "bit m i"
    have "m = take_bit n m" using v(3,4) by (simp add: take_bit_int_eq_self)
    then show "i < n" using b by (metis bit_take_bit_iff)
  qed
  have bits: "bit new i = (if bit m i then bit v i else i < n \<and> bit old i)" for i
    using vm[of i] mn[of i] unfolding new lim
    by (auto simp: bit_or_iff bit_and_iff bit_xor_iff bit_mask_iff)
  have "new = take_bit n new"
    by (rule bit_eqI) (use bits mn in \<open>auto simp: bit_take_bit_iff\<close>)
  then have "0 \<le> new \<and> new < 2 ^ n" by (metis take_bit_int_less_exp take_bit_nonnegative)
  with bits show ?thesis by blast
qed

lemma rewritten_value_bits_witness:
  "bit (0x1ff :: int) 8 \<and> \<not> bit (0xf0f :: int) 4 \<and> (0xf0f :: int) < 2 ^ 32"
proof -
  have "rewritten_value 0xffff00000fff 0x000 0x0f0 32 = Inr 0xf0f"
    by (simp add: rewritten_value_def)
  from rewritten_value_bits[OF this] have "\<forall>i. bit (0xf0f :: int) i = (if bit (0x0f0 :: int) i then bit (0 :: int) i else i < 32 \<and> bit (0xffff00000fff :: int) i)"
    by simp
  then have "\<not> bit (0xf0f :: int) 4" by (simp add: bit_iff_odd)
  then show ?thesis by (simp add: bit_iff_odd)
qed

section \<open>Edited rules stay valid\<close>

lemma saved_rule_shape:
  assumes "saved_rule L E w base r acc = Inr acc'"
  shows "\<exists>x. acc' = acc @ [x] \<and> (\<forall>ra \<in> set acc. tr_name (fst ra) \<noteq> tr_name (fst x) \<and> snd ra \<noteq> snd x) \<and>
    (\<forall>acc2. (\<forall>ra \<in> set acc2. tr_name (fst ra) \<noteq> tr_name (fst x) \<and> snd ra \<noteq> snd x) \<longrightarrow>
       saved_rule L E w base r acc2 = Inr (acc2 @ [x])) \<and>
    jget r ''name'' = Some (JStr (tr_name (fst x))) \<and> snd x = base + tr_offset (fst x) \<and>
    (\<forall>n. jget r ''offset'' = Some (JInt n) \<longrightarrow> n = tr_offset (fst x))"
proof -
  obtain d where r: "r = JObj d" using assms by (cases r) (auto simp: saved_rule_def)
  from assms obtain n offset code act where h: "map_of d ''name'' = Some n" "name_ok n"
    "\<not> list_ex (\<lambda>ra. JStr (tr_name (fst ra)) = n) acc" "bindR (field ''offset'' d) integer = Inr offset"
    "\<not> list_ex (\<lambda>ra. snd ra = base + offset) acc" "instruction L E w (base + offset) = Inr code"
    "field ''expected'' d = Inr (JStr code)" "saved_action L E w d base (base + offset) = Inr act"
    "acc' = acc @ [(\<lparr>tr_name = (case n of JStr m \<Rightarrow> m | _ \<Rightarrow> []), tr_offset = offset,
          tr_expected = code, tr_action = act\<rparr>, base + offset)]"
    unfolding saved_rule_def r by (auto simp: bindR_Inr field_def split: option.splits)
  then obtain m where m: "n = JStr m" by (auto simp: name_ok_def split: json.splits)
  let ?x = "(\<lparr>tr_name = m, tr_offset = offset, tr_expected = code, tr_action = act\<rparr>, base + offset)"
  have again: "saved_rule L E w base r acc2 = Inr (acc2 @ [?x])"
    if "\<forall>ra \<in> set acc2. tr_name (fst ra) \<noteq> m \<and> snd ra \<noteq> base + offset" for acc2
  proof -
    have "\<not> list_ex (\<lambda>ra. tr_name (fst ra) = m) acc2" "\<not> list_ex (\<lambda>ra. snd ra = base + offset) acc2"
      using that by (auto simp: list_ex_iff)
    then show ?thesis using h m by (simp add: saved_rule_def r field_def)
  qed
  have off: "k = offset" if "jget r ''offset'' = Some (JInt k)" for k
    using h(4) that by (simp add: jget_def r field_def integer_def)
  have nm: "jget r ''name'' = Some (JStr m)" using h(1) m by (simp add: jget_def r)
  have new: "\<forall>ra \<in> set acc. tr_name (fst ra) \<noteq> m \<and> snd ra \<noteq> base + offset"
    using h(3,5) m by (auto simp: list_ex_iff)
  have e: "acc' = acc @ [?x]" using h(9) m by simp
  show ?thesis
    by (rule exI[of _ ?x]) (use e new again off nm in simp)
qed

definition rules_for :: "'w lldb \<Rightarrow> 'w timing_env \<Rightarrow> 'w \<Rightarrow> addr \<Rightarrow> json list \<Rightarrow> (trule \<times> addr) list \<Rightarrow> bool" where
  "rules_for L E w base rules ras =
     (foldR (saved_rule L E w base) rules [] = Inr ras \<and> (\<forall>r \<in> set rules. \<exists>n. jget r ''offset'' = Some (JInt n)))"

lemma rules_for_snoc:
  assumes "rules_for L E w base (rules @ [r]) ras"
  obtains ras1 x where "ras = ras1 @ [x]" "rules_for L E w base rules ras1" "saved_rule L E w base r ras1 = Inr (ras1 @ [x])"
proof -
  from assms obtain ras1 where 1: "foldR (saved_rule L E w base) rules [] = Inr ras1" "saved_rule L E w base r ras1 = Inr ras"
    "\<forall>r \<in> set rules. \<exists>n. jget r ''offset'' = Some (JInt n)"
    by (auto simp: rules_for_def foldR_append bindR_Inr)
  from saved_rule_shape[OF 1(2)] obtain x where "ras = ras1 @ [x]" by blast
  with 1 show ?thesis by (intro that[of ras1 x]) (auto simp: rules_for_def)
qed

lemma rules_for_match:
  "rules_for L E w base rules ras \<Longrightarrow> distinct (map (\<lambda>ra. tr_name (fst ra)) ras) \<and> distinct (map snd ras) \<and>
    (\<forall>ra \<in> set ras. \<exists>r \<in> set rules. jget r ''name'' = Some (JStr (tr_name (fst ra))) \<and>
       jget r ''offset'' = Some (JInt (snd ra - base)))"
proof (induction rules arbitrary: ras rule: rev_induct)
  case Nil
  then show ?case by (simp add: rules_for_def)
next
  case (snoc r rules)
  then obtain ras1 x where x: "ras = ras1 @ [x]" "rules_for L E w base rules ras1"
    "saved_rule L E w base r ras1 = Inr (ras1 @ [x])" by (blast elim: rules_for_snoc)
  from saved_rule_shape[OF x(3)] have s: "\<forall>ra \<in> set ras1. tr_name (fst ra) \<noteq> tr_name (fst x) \<and> snd ra \<noteq> snd x"
    "jget r ''name'' = Some (JStr (tr_name (fst x)))" "snd x = base + tr_offset (fst x)"
    "\<forall>n. jget r ''offset'' = Some (JInt n) \<longrightarrow> n = tr_offset (fst x)" by auto
  have "\<exists>n. jget r ''offset'' = Some (JInt n)" using snoc.prems by (simp add: rules_for_def)
  with s have off: "jget r ''offset'' = Some (JInt (snd x - base))" by force
  from snoc.IH[OF x(2)] have ih: "distinct (map (\<lambda>ra. tr_name (fst ra)) ras1)" "distinct (map snd ras1)"
    "\<forall>ra \<in> set ras1. \<exists>r \<in> set rules. jget r ''name'' = Some (JStr (tr_name (fst ra))) \<and>
       jget r ''offset'' = Some (JInt (snd ra - base))" by blast+
  have "tr_name (fst x) \<notin> (\<lambda>ra. tr_name (fst ra)) ` set ras1" "snd x \<notin> snd ` set ras1" using s(1) by auto
  with ih(1,2) have "distinct (map (\<lambda>ra. tr_name (fst ra)) ras)" "distinct (map snd ras)" by (simp_all add: x(1))
  moreover have "\<forall>ra \<in> set ras. \<exists>q \<in> set (rules @ [r]). jget q ''name'' = Some (JStr (tr_name (fst ra))) \<and>
       jget q ''offset'' = Some (JInt (snd ra - base))"
    using ih(3) s(2) off by (simp add: x(1))
  ultimately show ?case by blast
qed

lemma rules_for_filter:
  "rules_for L E w base rules ras \<Longrightarrow> \<exists>ras'. rules_for L E w base (filter P rules) ras' \<and> set ras' \<subseteq> set ras"
proof (induction rules arbitrary: ras rule: rev_induct)
  case Nil
  then show ?case by (auto simp: rules_for_def)
next
  case (snoc r rules)
  then obtain ras1 x where x: "ras = ras1 @ [x]" "rules_for L E w base rules ras1"
    "saved_rule L E w base r ras1 = Inr (ras1 @ [x])" by (blast elim: rules_for_snoc)
  from snoc.IH[OF x(2)] obtain ras' where r': "rules_for L E w base (filter P rules) ras'" "set ras' \<subseteq> set ras1" by blast
  from saved_rule_shape[OF x(3)] have "\<forall>ra \<in> set ras1. tr_name (fst ra) \<noteq> tr_name (fst x) \<and> snd ra \<noteq> snd x"
    "\<forall>acc2. (\<forall>ra \<in> set acc2. tr_name (fst ra) \<noteq> tr_name (fst x) \<and> snd ra \<noteq> snd x) \<longrightarrow>
       saved_rule L E w base r acc2 = Inr (acc2 @ [x])" by blast+
  with r'(2) have "saved_rule L E w base r ras' = Inr (ras' @ [x])" by blast
  with r' snoc.prems have "rules_for L E w base (filter P rules @ [r]) (ras' @ [x])"
    by (auto simp: rules_for_def foldR_append)
  moreover have "set (ras' @ [x]) \<subseteq> set ras" "set ras' \<subseteq> set ras" using r'(2) x(1) by auto
  ultimately show ?case using r'(1)
    by (cases "P r", intro exI[of _ "ras' @ [x]"], simp, intro exI[of _ ras'], simp)
qed

lemma new_action_saved:
  assumes "new_action L E w args base address = Inr act"
    and d: "d = [(''name'', n), (''offset'', JInt (address - base)), (''expected'', JStr code)] @ act"
  shows "\<exists>a. saved_action L E w d base (base + (address - base)) = Inr a"
proof (cases "map_of args ''redirect''")
  case (Some rd)
  with assms(1) obtain dest rcode where "integer rd = Inr dest" "dest \<noteq> address" "instruction L E w dest = Inr rcode"
    "act = [(''redirect_offset'', JInt (dest - base)), (''redirect_expected'', JStr rcode)]"
    by (auto simp: new_action_def bindR_Inr)
  then show ?thesis unfolding d
    by (simp add: saved_action_def same_fields_def integer_def insert_commute)
next
  case None
  with assms(1) obtain reg bits v m new where "register_bits reg = Inr bits" "rewritten_value 0 v m bits = Inr new"
    "act = [(''register'', reg), (''value'', JInt v), (''mask'', JInt m)]"
    by (auto simp: new_action_def bindR_Inr)
  then show ?thesis unfolding d
    by (simp add: saved_action_def same_fields_def integer_def field_def insert_commute)
qed

lemma new_rule_saved:
  assumes "new_rule L E w rules args = Inr r" "module_base L E w = Inr base" "rules_for L E w base rules ras"
  shows "\<exists>x. rules_for L E w base (rules @ [r]) (ras @ [x])"
proof -
  from assms(1,2) obtain n address code act where h: "map_of args ''name'' = Some n" "name_ok n"
    "\<not> list_ex (\<lambda>r. jget r ''name'' = Some n) rules" "instruction L E w address = Inr code"
    "\<not> list_ex (\<lambda>r. jget r ''offset'' = Some (JInt (address - base))) rules"
    "new_action L E w args base address = Inr act"
    "r = JObj ([(''name'', n), (''offset'', JInt (address - base)), (''expected'', JStr code)] @ act)"
    unfolding new_rule_def by (auto simp: bindR_Inr Let_def split: option.splits)
  from new_action_saved[OF h(6) refl] obtain a where
    a: "saved_action L E w ([(''name'', n), (''offset'', JInt (address - base)), (''expected'', JStr code)] @ act) base (base + (address - base)) = Inr a"
    by blast
  from rules_for_match[OF assms(3)] h(3,5)
  have "\<not> list_ex (\<lambda>ra. JStr (tr_name (fst ra)) = n) ras" "\<not> list_ex (\<lambda>ra. snd ra = address) ras"
    by (force simp: list_ex_iff)+
  then have "\<exists>x. saved_rule L E w base r ras = Inr (ras @ [x])"
    using a h(2,4,7) by (simp add: saved_rule_def field_def integer_def)
  then show ?thesis using assms(3) h(7) by (auto simp: rules_for_def foldR_append jget_def)
qed

datatype rule_op = AddRule "(string \<times> json) list" | RemoveRule string

fun rule_step :: "'w lldb \<Rightarrow> 'w timing_env \<Rightarrow> rule_op \<Rightarrow> ('w, 'z) timing_dbg_scheme \<Rightarrow> ('w, 'z) timing_dbg_scheme" where
  "rule_step L E (AddRule args) s = snd (tm_add L E args s)"
| "rule_step L E (RemoveRule name) s = snd (tm_remove L name s)"

lemma rule_step_rules:
  "world (rule_step L E op s) = world s \<and>
   (tm_rules (rule_step L E op s) = tm_rules s \<or>
    (\<exists>P. tm_rules (rule_step L E op s) = filter P (tm_rules s)) \<or>
    (\<exists>args r. new_rule L E (world s) (tm_rules s) args = Inr r \<and> tm_rules (rule_step L E op s) = tm_rules s @ [r]))"
  by (cases op) (auto simp: tm_add_def tm_remove_def run persist_def split: sum.splits)

text \<open>
  C13. Whatever rules an analyst adds and removes, in any order, while the executable stays as it is, the
  saved list passes the checks that are made before the rules are armed: every rule is read back, under
  its own name and at an instruction of its own.
\<close>
theorem edited_rules_valid:
  assumes "tm_rules s = []" "module_base L E (world s) = Inr base"
  shows "\<exists>ras. validated_rules L E (world s) (tm_rules (fold (rule_step L E) ops s)) = Inr ras \<and>
    distinct (map (\<lambda>ra. tr_name (fst ra)) ras) \<and> distinct (map snd ras)"
proof -
  have run: "\<exists>ras. rules_for L E (world s) base (tm_rules (fold (rule_step L E) ops u)) ras"
    if "world u = world s" "rules_for L E (world s) base (tm_rules u) ras0" for u ras0
    using that
  proof (induction ops arbitrary: u ras0)
    case (Cons op ops)
    let ?v = "rule_step L E op u"
    have "\<exists>ras. rules_for L E (world s) base (tm_rules ?v) ras"
      using rule_step_rules[of L E op u] Cons.prems rules_for_filter[OF Cons.prems(2)]
        new_rule_saved[OF _ assms(2) Cons.prems(2)]
      by metis
    with Cons.IH[of ?v] Cons.prems rule_step_rules[of L E op u] show ?case by auto
  qed auto
  have "rules_for L E (world s) base (tm_rules s) []" by (simp add: assms(1) rules_for_def)
  from run[OF refl this] obtain ras where ras: "rules_for L E (world s) base (tm_rules (fold (rule_step L E) ops s)) ras" by blast
  then show ?thesis using rules_for_match[OF ras] assms(2)
    by (auto simp: validated_rules_def rules_for_def)
qed

definition demo_text :: "demo_world timing_env" where
  "demo_text = \<lparr>te_main = (\<lambda>_. Some 16), te_text = (\<lambda>_. Some (16, 8)), te_clock = (\<lambda>_. False)\<rparr>"

definition demo_timing :: "demo_world timing_dbg" where
  "demo_timing = dbg.extend (demo_dbg (demo_world\<lparr>dw_process := Some (demo_process 1 []), dw_mem := demo_nop 16 @ demo_nop 20\<rparr>))
     (timing_dbg.fields [] [] False None [] [] [])"

definition demo_add :: "string \<Rightarrow> int \<Rightarrow> rule_op" where
  "demo_add n a = AddRule [(''name'', JStr n), (''addr'', JInt a), (''register'', JStr ''w0''), (''value'', JInt 1)]"

lemma edited_rules_valid_witness:
  "\<exists>ras. validated_rules demo_lldb demo_text (world demo_timing)
     (tm_rules (fold (rule_step demo_lldb demo_text) [demo_add ''a'' 16, demo_add ''b'' 20, RemoveRule ''a''] demo_timing)) = Inr ras \<and>
     distinct (map snd ras)"
proof -
  have "tm_rules demo_timing = []" by (simp add: demo_timing_def dbg.defs timing_dbg.defs)
  moreover have "module_base demo_lldb demo_text (world demo_timing) = Inr 16" by code_simp
  ultimately show ?thesis
    using edited_rules_valid[of demo_timing demo_lldb demo_text 16 "[demo_add ''a'' 16, demo_add ''b'' 20, RemoveRule ''a'']"]
    by blast
qed

lemma demo_rules: "length (tm_rules (fold (rule_step demo_lldb demo_text) [demo_add ''a'' 16, demo_add ''b'' 20] demo_timing)) = 2"
  by code_simp

section \<open>Arming is all or nothing\<close>

definition armed_inv :: "'w lldb \<Rightarrow> 'w \<Rightarrow> ('w, 'z) timing_dbg_scheme \<Rightarrow> bool" where
  "armed_inv L w0 s = (\<exists>new. obs_breakpoints L (world s) = obs_breakpoints L w0 @ new \<and>
     map bp_id new = map fst (tm_hooks s) \<and> list_all bp_hardware new \<and> distinct (map fst (tm_hooks s)) \<and>
     fst ` set (tm_hooks s) \<inter> set (bp_ids L w0) = {})"

lemma arm_rule_inv:
  assumes "bp_delete_law L" "bp_command_law L" "armed_inv L w0 s"
  shows "wpP (arm_rule L ra) (\<lambda>_ u. armed_inv L w0 u \<and> map snd (tm_hooks u) = map snd (tm_hooks s) @ [ra] \<and> tm_rules u = tm_rules s)
    (\<lambda>_ u. armed_inv L w0 u) s"
proof -
  from assms(3) obtain new where new: "obs_breakpoints L (world s) = obs_breakpoints L w0 @ new"
    "map bp_id new = map fst (tm_hooks s)" "list_all bp_hardware new" "distinct (map fst (tm_hooks s))"
    "fst ` set (tm_hooks s) \<inter> set (bp_ids L w0) = {}" by (auto simp: armed_inv_def)
  have ids: "set (bp_ids L (world s)) = set (bp_ids L w0) \<union> fst ` set (tm_hooks s)"
    using new(1) arg_cong[OF new(2), of set] by (simp add: bp_ids_def)
  show ?thesis unfolding arm_rule_def wp
  proof (rule wp_create_hardware[OF assms(1,2)])
    fix b w assume a: "allocated L 0 (world s) b w"
    then have fresh: "bp_id b \<notin> set (bp_ids L w0)" "bp_id b \<notin> fst ` set (tm_hooks s)" "map_of (tm_hooks s) (bp_id b) = None"
      using ids by (auto simp: allocated_def map_of_eq_None_iff)
    let ?u = "s\<lparr>world := w, tm_hooks := od_set (bp_id b) ra (tm_hooks s), hardware_ids := insert (bp_id b) (hardware_ids s)\<rparr>"
    have "obs_breakpoints L w = obs_breakpoints L w0 @ (new @ [b])" "bp_hardware b" using a new(1) by (simp_all add: allocated_def)
    then have "armed_inv L w0 ?u" unfolding armed_inv_def
      by (intro exI[of _ "new @ [b]"]) (use new fresh in \<open>simp add: od_set_fresh\<close>)
    then show "armed_inv L w0 (s\<lparr>world := w, tm_hooks := od_set (bp_id b) ra (tm_hooks (s\<lparr>world := w\<rparr>)), hardware_ids := insert (bp_id b) (hardware_ids (s\<lparr>world := w\<rparr>))\<rparr>) \<and>
       map snd (tm_hooks (s\<lparr>world := w, tm_hooks := od_set (bp_id b) ra (tm_hooks (s\<lparr>world := w\<rparr>)), hardware_ids := insert (bp_id b) (hardware_ids (s\<lparr>world := w\<rparr>))\<rparr>)) = map snd (tm_hooks s) @ [ra] \<and>
       tm_rules (s\<lparr>world := w, tm_hooks := od_set (bp_id b) ra (tm_hooks (s\<lparr>world := w\<rparr>)), hardware_ids := insert (bp_id b) (hardware_ids (s\<lparr>world := w\<rparr>))\<rparr>) = tm_rules s"
      using fresh by (simp add: od_set_fresh)
  next
    fix w assume "obs_breakpoints L w = obs_breakpoints L (world s)"
    then show "armed_inv L w0 (s\<lparr>world := w\<rparr>)" using assms(3) by (simp add: armed_inv_def)
  qed
qed

lemma arm_loop_inv:
  assumes "bp_delete_law L" "bp_command_law L" "armed_inv L w0 s"
  shows "wpP (forP (arm_rule L) ras) (\<lambda>_ u. armed_inv L w0 u \<and> map snd (tm_hooks u) = map snd (tm_hooks s) @ ras \<and> tm_rules u = tm_rules s)
    (\<lambda>_ u. armed_inv L w0 u) s"
  using assms(3)
proof (induction ras arbitrary: s)
  case (Cons ra ras)
  have "wpP (arm_rule L ra) (\<lambda>_. wpP (forP (arm_rule L) ras)
      (\<lambda>_ u. armed_inv L w0 u \<and> map snd (tm_hooks u) = map snd (tm_hooks s) @ ra # ras \<and> tm_rules u = tm_rules s)
      (\<lambda>_ u. armed_inv L w0 u)) (\<lambda>_ u. armed_inv L w0 u) s"
    by (rule wpP_weaken[OF arm_rule_inv[OF assms(1,2) Cons.prems]], rule wpP_weaken[OF Cons.IH]) auto
  then show ?case by (simp add: wp)
qed (simp add: wp)

lemma disable_all:
  assumes "bp_delete_law L" "\<And>w. obs_target L w"
  shows "wpP (tm_disable L) (\<lambda>_ u. tm_hooks u = [] \<and> \<not> tm_enabled u \<and>
     obs_breakpoints L (world u) = filter (\<lambda>b. bp_id b \<notin> fst ` set (tm_hooks s)) (obs_breakpoints L (world s)))
     (\<lambda>_ _. False) s"
proof -
  let ?del = "\<lambda>i. seqP (bindP (getP (\<lambda>s. obs_target L (world s))) (\<lambda>target. whenP target (seqP (onW (do_bp_delete L i)) (retP ()))))
          (modP (\<lambda>s. s\<lparr>hardware_ids := hardware_ids s - {i}\<rparr>))"
  have "wpP (forP ?del is) (\<lambda>_ u. obs_breakpoints L (world u) = filter (\<lambda>b. bp_id b \<notin> set is) (obs_breakpoints L (world s)))
     (\<lambda>_ _. False) s" for "is" and s :: "('a, 'b) timing_dbg_scheme"
  proof (induction "is" arbitrary: s)
    case (Cons i "is")
    show ?case using Cons.IH[of "s\<lparr>world := snd (do_bp_delete L i (world s)), hardware_ids := hardware_ids s - {i}\<rparr>"]
      by (simp add: wp assms(2) bp_delete_lawD(1)[OF assms(1)] conj_commute)
  qed (simp add: wp)
  from this[of "map fst (tm_hooks s)" s] show ?thesis
    unfolding tm_disable_def wp by (rule wpP_weaken) auto
qed

text \<open>
  C14. Enabling the timing rules is all or nothing. Either every saved rule passes its checks and gets one
  hardware breakpoint of its own, or LLDB has the breakpoints it had before, no hook is left, the rules
  are off and the reason is kept as the error.
\<close>
theorem timing_enable_atomic:
  assumes "bp_delete_law L" "bp_command_law L" "\<And>w. obs_target L w"
    and "\<not> tm_enabled s" "tm_hooks s = []" "tm_enable L E s = (r, u)"
  shows "\<exists>ok m. r = Inr (ok, m) \<and> tm_enabled u = ok \<and>
    (if ok then validated_rules L E (world s) (tm_rules s) = Inr (map snd (tm_hooks u)) \<and>
       distinct (map fst (tm_hooks u)) \<and> (\<exists>new. obs_breakpoints L (world u) = obs_breakpoints L (world s) @ new \<and>
         map bp_id new = map fst (tm_hooks u) \<and> list_all bp_hardware new)
     else tm_hooks u = [] \<and> tm_error u = Some m \<and> obs_breakpoints L (world u) = obs_breakpoints L (world s))"
proof -
  let ?w0 = "world s"
  have i0: "armed_inv L ?w0 s" by (simp add: armed_inv_def assms(5))
  let ?E = "\<lambda>(_ :: exn) u. armed_inv L ?w0 u"
  have arm: "wpP (arm_rules L E) (\<lambda>_ u. tm_enabled u \<and> armed_inv L ?w0 u \<and>
      validated_rules L E ?w0 (tm_rules s) = Inr (map snd (tm_hooks u))) ?E s"
  proof (cases "tm_stopped L s = Inr () \<and> \<not> te_clock E ?w0 \<and> tm_rules s \<noteq> []")
    case False
    then show ?thesis using i0 by (auto simp: arm_rules_def wp split: sum.splits)
  next
    case True
    show ?thesis
    proof (cases "validated_rules L E ?w0 (tm_rules s)")
      case (Inl e)
      then show ?thesis using True i0 by (simp add: arm_rules_def wp)
    next
      case (Inr ras)
      then show ?thesis using True
        by (simp add: arm_rules_def wp)
          (rule wpP_weaken[OF arm_loop_inv[OF assms(1,2) i0]], auto simp: armed_inv_def assms(5))
    qed
  qed
  let ?Q = "\<lambda>x u. tm_enabled u = fst x \<and> (if fst x then armed_inv L ?w0 u \<and>
      validated_rules L E ?w0 (tm_rules s) = Inr (map snd (tm_hooks u))
      else tm_hooks u = [] \<and> tm_error u = Some (snd x) \<and> obs_breakpoints L (world u) = obs_breakpoints L ?w0)"
  have undo: "wpP (tm_disable L) (\<lambda>_ v. ?Q (False, m) (v\<lparr>tm_error := Some m\<rparr>)) (\<lambda>_ _. False) v"
    if "armed_inv L ?w0 v" for v m
  proof (rule wpP_weaken[OF disable_all[OF assms(1,3)]])
    from that obtain new where new: "obs_breakpoints L (world v) = obs_breakpoints L ?w0 @ new"
      "map bp_id new = map fst (tm_hooks v)" "fst ` set (tm_hooks v) \<inter> set (bp_ids L ?w0) = {}"
      by (auto simp: armed_inv_def)
    have "set (map bp_id new) = fst ` set (tm_hooks v)" using new(2) by simp
    then have "filter (\<lambda>b. bp_id b \<notin> fst ` set (tm_hooks v)) new = []" by (auto simp: filter_empty_conv)
    moreover have "filter (\<lambda>b. bp_id b \<notin> fst ` set (tm_hooks v)) (obs_breakpoints L ?w0) = obs_breakpoints L ?w0"
      by (rule filter_True) (use new(3) in \<open>auto simp: bp_ids_def\<close>)
    ultimately have "filter (\<lambda>b. bp_id b \<notin> fst ` set (tm_hooks v)) (obs_breakpoints L (world v)) = obs_breakpoints L ?w0"
      by (simp add: new(1))
    then show "tm_hooks t = [] \<and> \<not> tm_enabled t \<and> obs_breakpoints L (world t) =
        filter (\<lambda>b. bp_id b \<notin> fst ` set (tm_hooks v)) (obs_breakpoints L (world v)) \<Longrightarrow> ?Q (False, m) (t\<lparr>tm_error := Some m\<rparr>)" for t
      by simp
  qed
  have "wpP (tm_enable L E) ?Q (\<lambda>_ _. False) s"
    unfolding tm_enable_def using assms(4)
    apply (simp add: wp)
    apply (rule wpP_weaken[OF arm])
     apply simp
    apply (drule undo)
    apply (erule wpP_weaken)
     apply auto
    done
  with assms(6) show ?thesis by (cases r) (auto simp: wpP_def armed_inv_def)
qed

definition demo_ruled :: "demo_world timing_dbg" where
  "demo_ruled = fold (rule_step demo_lldb demo_text) [demo_add ''a'' 16, demo_add ''b'' 20] demo_timing"

lemma timing_enable_atomic_witness:
  "\<exists>ok m. fst (tm_enable demo_lldb demo_text demo_ruled) = Inr (ok, m) \<and>
     tm_enabled (snd (tm_enable demo_lldb demo_text demo_ruled)) = ok"
proof -
  obtain r u where ru: "tm_enable demo_lldb demo_text demo_ruled = (r, u)" by fastforce
  have t: "obs_target demo_lldb w" for w by (simp add: demo_lldb_def)
  have "tm_enabled (rule_step demo_lldb demo_text op s) = tm_enabled s \<and> tm_hooks (rule_step demo_lldb demo_text op s) = tm_hooks s"
    for op and s :: "demo_world timing_dbg"
    by (cases op) (auto simp: tm_add_def tm_remove_def run persist_def split: sum.splits)
  then have "\<not> tm_enabled demo_ruled" "tm_hooks demo_ruled = []"
    by (simp_all add: demo_ruled_def demo_timing_def dbg.defs timing_dbg.defs)
  from timing_enable_atomic[OF demo_laws(1,2) t this ru] ru show ?thesis by auto
qed

end
