(* ===== verification/PatchExport.thy ===== *)
theory PatchExport
  imports Breakpoints Json MachO
begin

text \<open>
  Verified writes to the target and the patches recorded for them (\<open>write_memory\<close>,
  \<open>_record_patch\<close> and \<open>revert_patch\<close> of \<open>macdbg/core/debugger.py\<close>), and
  \<open>macdbg/core/patch_export.py\<close>: the normal form of a patch set, its manifest bound to the hash
  of the binary, the patched copy, and the import of a manifest with its rollback.
\<close>

record patch =
  pt_addr :: addr
  pt_orig :: bytes
  pt_new :: bytes

record 'w patch_dbg = "'w dbg" +
  pd_state :: bool
  pd_patches :: "patch list"

section \<open>The normal form of a patch set\<close>

definition patch_bytes :: "patch \<Rightarrow> (addr \<times> char \<times> char) list" where
  "patch_bytes p = map (\<lambda>i. (pt_addr p + int i, pt_orig p ! i, pt_new p ! i)) [0 ..< length (pt_new p)]"

text \<open>\<open>values[address] = (values.get(address, (old,))[0], new)\<close>.\<close>

definition patch_value :: "addr \<times> char \<times> char \<Rightarrow> (addr, char \<times> char) odict \<Rightarrow> (addr, char \<times> char) odict" where
  "patch_value b d = (case b of (a, old, new) \<Rightarrow>
     od_set a (case map_of d a of None \<Rightarrow> old | Some (first, _) \<Rightarrow> first, new) d)"

definition patch_values :: "patch list \<Rightarrow> (addr, char \<times> char) odict res" where
  "patch_values ps = foldR (\<lambda>p d. bindR (guardR (length (pt_orig p) = length (pt_new p)) (ValueError ''Patch lengths differ''))
     (\<lambda>_. Inr (fold patch_value (patch_bytes p) d))) ps []"

text \<open>One address of the loop that builds the runs; the runs are kept newest first here.\<close>

definition add_run :: "addr \<times> char \<times> char \<Rightarrow> patch list \<Rightarrow> patch list" where
  "add_run b runs = (case b of (a, old, new) \<Rightarrow>
     if old = new then runs
     else case runs of
       r # rs \<Rightarrow> if a = pt_addr r + int (length (pt_new r))
         then r\<lparr>pt_orig := pt_orig r @ [old], pt_new := pt_new r @ [new]\<rparr> # rs
         else \<lparr>pt_addr = a, pt_orig = [old], pt_new = [new]\<rparr> # r # rs
     | [] \<Rightarrow> [\<lparr>pt_addr = a, pt_orig = [old], pt_new = [new]\<rparr>])"

definition normalized :: "patch list \<Rightarrow> patch list res" where
  "normalized ps = bindR (patch_values ps) (\<lambda>d. Inr (rev (fold add_run (sort_key fst d) [])))"

section \<open>Verified writes\<close>

text \<open>A negative count of \<open>WriteMemory\<close> is its error.\<close>

definition record_patch :: "addr \<Rightarrow> bytes \<Rightarrow> bytes \<Rightarrow> (('w, 'z) patch_dbg_scheme, unit) py" where
  "record_patch a orig new =
     bindP (getP (\<lambda>s. (pd_state s, pd_patches s))) (\<lambda>(on, ps).
     if \<not> on then retP ()
     else bindP (liftP (normalized (ps @ [\<lparr>pt_addr = a, pt_orig = orig, pt_new = new\<rparr>]))) (\<lambda>rows.
       modP (\<lambda>s. s\<lparr>pd_patches := rows\<rparr>)))"

definition write_memory :: "'w lldb \<Rightarrow> addr \<Rightarrow> bytes \<Rightarrow> bool \<Rightarrow> (('w, 'z) patch_dbg_scheme, bool \<times> string) py" where
  "write_memory L a data track =
     bindP (getP (\<lambda>s. (obs_process L (world s), read_memory L (world s) a (length data)))) (\<lambda>(proc, orig).
     case proc of None \<Rightarrow> retP (False, ''no process'')
     | Some p \<Rightarrow>
        if \<not> pr_stopped p then retP (False, ''process not stopped'')
        else bindP (onW (do_write L a data)) (\<lambda>n.
          if n < 0 then retP (False, ''write failed'')
          else if n \<noteq> int (length data)
          then retP (False, ''partial write: '' @ py_str n @ ''/'' @ py_str (int (length data)) @ '' bytes'')
          else bindP (getP (\<lambda>s. take (length data) (read_memory L (world s) a (length data)))) (\<lambda>check.
            if check \<noteq> data then retP (False, ''verify failed'')
            else bindP (getP pd_state) (\<lambda>on.
              seqP (whenP (track \<and> on \<and> orig \<noteq> [] \<and> length data \<le> length orig) (record_patch a (take (length data) orig) data))
              (retP (True, ''wrote '' @ py_str n @ '' byte(s) at '' @ py_hex a))))))"

text \<open>\<open>Debugger.write_memory\<close> with \<open>track=False\<close> touches no record of patches.\<close>

definition write_untracked :: "'w lldb \<Rightarrow> addr \<Rightarrow> bytes \<Rightarrow> (('w, 'z) dbg_scheme, bool \<times> string) py" where
  "write_untracked L a data =
     bindP (getP (\<lambda>s. obs_process L (world s))) (\<lambda>proc. case proc of None \<Rightarrow> retP (False, ''no process'')
     | Some p \<Rightarrow>
        if \<not> pr_stopped p then retP (False, ''process not stopped'')
        else bindP (onW (do_write L a data)) (\<lambda>n.
          if n < 0 then retP (False, ''write failed'')
          else if n \<noteq> int (length data)
          then retP (False, ''partial write: '' @ py_str n @ ''/'' @ py_str (int (length data)) @ '' bytes'')
          else bindP (getP (\<lambda>s. take (length data) (read_memory L (world s) a (length data)))) (\<lambda>check.
            if check \<noteq> data then retP (False, ''verify failed'')
            else retP (True, ''wrote '' @ py_str n @ '' byte(s) at '' @ py_hex a))))"

lemma write_untracked_is: "write_memory L a data False s = write_untracked L a data s"
  by (simp add: write_memory_def write_untracked_def onW_def run split: option.splits)

definition revert_patch :: "'w lldb \<Rightarrow> int \<Rightarrow> (('w, 'z) patch_dbg_scheme, bool \<times> string) py" where
  "revert_patch L i =
     bindP (getP (\<lambda>s. (pd_state s, pd_patches s))) (\<lambda>(on, ps).
     if \<not> on \<or> \<not> (0 \<le> i \<and> i < int (length ps)) then retP (False, ''no such patch'')
     else let p = ps ! nat i in
       bindP (getP (\<lambda>s. read_memory L (world s) (pt_addr p) (length (pt_new p)))) (\<lambda>live.
       if live \<noteq> pt_new p then retP (False, ''live bytes changed since the patch; revert refused'')
       else bindP (write_memory L (pt_addr p) (pt_orig p) False) (\<lambda>(ok, msg).
         if ok then seqP (modP (\<lambda>s. s\<lparr>pd_patches := take (nat i) (pd_patches s) @ drop (Suc (nat i)) (pd_patches s)\<rparr>))
           (retP (True, ''reverted''))
         else retP (False, ''revert failed: '' @ msg))))"

section \<open>Manifests\<close>

text \<open>
  The binary on disk (its real path, size and bytes), the digest, and LLDB's answer for an
  address: its file address if it lies in the main image; the load address of a file address.
\<close>

record 'w image_env =
  ie_size :: "'w \<Rightarrow> int"
  ie_path :: string
  ie_data :: "'w \<Rightarrow> bytes"
  ie_digest :: "bytes \<Rightarrow> string"
  ie_resolve :: "'w \<Rightarrow> addr \<Rightarrow> int option"
  ie_load :: "'w \<Rightarrow> int \<Rightarrow> addr option"

record entry =
  et_offset :: int
  et_address :: addr
  et_original :: bytes
  et_new :: bytes

record manifest =
  mf_schema :: string
  mf_source :: string
  mf_sha :: string
  mf_patches :: "entry list"
  mf_signed :: bool

definition SCHEMA :: string where "SCHEMA = ''macdbg.patch-set.v1''"

definition image_source :: "'w image_env \<Rightarrow> string \<Rightarrow> 'w \<Rightarrow> (bytes \<times> macho \<times> string) res" where
  "image_source I sha w =
     bindR (guardR (ie_size I w \<le> 512 * 1024 * 1024) (ValueError ''Image exceeds the 512 MiB export limit'')) (\<lambda>_.
     let data = ie_data I w; digest = ie_digest I data in
     bindR (guardR (digest = sha) (ValueError ''Original binary changed on disk; reload before exporting'')) (\<lambda>_.
     bindR (macho_read data None) (\<lambda>m. Inr (data, m, digest))))"

definition slice_i :: "int \<Rightarrow> nat \<Rightarrow> bytes \<Rightarrow> bytes" where
  "slice_i off n data = (if 0 \<le> off then take n (drop (nat off) data) else [])"

definition manifest_entry :: "'w lldb \<Rightarrow> 'w image_env \<Rightarrow> 'w \<Rightarrow> bytes \<Rightarrow> macho \<Rightarrow> patch \<Rightarrow> entry res" where
  "manifest_entry L I w data m p =
     (case ie_resolve I w (pt_addr p) of
       None \<Rightarrow> Inl (ValueError ''Patch is outside the main file image; export it separately as memory'')
     | Some fa \<Rightarrow>
        bindR (file_offset m fa (int (length (pt_new p)))) (\<lambda>off.
        bindR (guardR (slice_i off (length (pt_new p)) data = pt_orig p)
          (ValueError ''Original bytes differ; runtime relocations or stale patches cannot be exported'')) (\<lambda>_.
        bindR (guardR (read_memory L w (pt_addr p) (length (pt_new p)) = pt_new p)
          (ValueError ''Live patch changed; refresh the patch set'')) (\<lambda>_.
        Inr \<lparr>et_offset = off, et_address = pt_addr p, et_original = pt_orig p, et_new = pt_new p\<rparr>))))"

definition make_manifest :: "'w lldb \<Rightarrow> 'w image_env \<Rightarrow> string \<Rightarrow> patch list \<Rightarrow> 'w \<Rightarrow> manifest res" where
  "make_manifest L I sha ps w =
     bindR (image_source I sha w) (\<lambda>(data, m, digest).
     bindR (normalized ps) (\<lambda>rows.
     bindR (mapR (manifest_entry L I w data m) rows) (\<lambda>entries.
     bindR (guardR (entries \<noteq> []) (ValueError ''No file-backed changes to export'')) (\<lambda>_.
     Inr \<lparr>mf_schema = SCHEMA, mf_source = ie_path I, mf_sha = digest, mf_patches = entries, mf_signed = mo_signed m\<rparr>))))"

text \<open>\<open>stream.seek(off); stream.write(bytes)\<close>: a write past the end fills the gap with zeros.\<close>

definition splice :: "nat \<Rightarrow> bytes \<Rightarrow> bytes \<Rightarrow> bytes" where
  "splice off bs d = take off (d @ replicate (off - length d) (val_byte 0)) @ bs @ drop (off + length bs) d"

definition write_entry :: "entry \<Rightarrow> bytes \<Rightarrow> bytes" where
  "write_entry e d = splice (nat (et_offset e)) (et_new e) d"

definition patched_copy :: "'w image_env \<Rightarrow> manifest \<Rightarrow> bytes \<Rightarrow> bytes res" where
  "patched_copy I mf copied =
     bindR (guardR (ie_digest I copied = mf_sha mf) (ValueError ''Original changed during export'')) (\<lambda>_.
     let out = fold write_entry (mf_patches mf) copied in
     bindR (guardR (list_all (\<lambda>e. slice_i (et_offset e) (length (et_new e)) out = et_new e) (mf_patches mf))
       (RuntimeError ''Export verification failed'')) (\<lambda>_. Inr out))"

section \<open>Importing a manifest\<close>

definition overlaps :: "entry \<Rightarrow> entry \<Rightarrow> bool" where
  "overlaps e f = (et_offset e < et_offset f + int (length (et_new f)) \<and> et_offset f < et_offset e + int (length (et_new e)))"

definition checked_entry ::
    "'w lldb \<Rightarrow> 'w image_env \<Rightarrow> 'w \<Rightarrow> bytes \<Rightarrow> macho \<Rightarrow> entry \<Rightarrow> entry list \<times> patch list \<Rightarrow> (entry list \<times> patch list) res" where
  "checked_entry L I w data m e st =
     (let n = length (et_new e) in
      bindR (guardR (1 \<le> n \<and> n \<le> 4096 \<and> length (et_original e) = n \<and> 0 \<le> et_offset e)
        (ValueError ''Invalid patch length or offset'')) (\<lambda>_.
      bindR (guardR (\<not> list_ex (overlaps e) (fst st)) (ValueError ''Overlapping manifest patches'')) (\<lambda>_.
      bindR (guardR (slice_i (et_offset e) n data = et_original e) (ValueError ''Original file bytes do not match'')) (\<lambda>_.
      bindR (file_address m (et_offset e) (int n)) (\<lambda>fa.
      case ie_load I w fa of
        None \<Rightarrow> Inl (ValueError ''Live bytes do not match the manifest original'')
      | Some a \<Rightarrow>
          bindR (guardR (read_memory L w a n = et_original e) (ValueError ''Live bytes do not match the manifest original'')) (\<lambda>_.
          Inr (fst st @ [e], snd st @ [\<lparr>pt_addr = a, pt_orig = et_original e, pt_new = et_new e\<rparr>])))))))"

definition checked_manifest :: "'w lldb \<Rightarrow> 'w image_env \<Rightarrow> string \<Rightarrow> manifest \<Rightarrow> 'w \<Rightarrow> patch list res" where
  "checked_manifest L I sha mf w =
     bindR (image_source I sha w) (\<lambda>(data, m, digest).
     bindR (guardR (mf_schema mf = SCHEMA \<and> mf_sha mf = digest) (ValueError ''Manifest does not match the original binary hash'')) (\<lambda>_.
     bindR (guardR (1 \<le> length (mf_patches mf) \<and> length (mf_patches mf) \<le> 4096) (ValueError ''Invalid patch set'')) (\<lambda>_.
     bindR (foldR (checked_entry L I w data m) (mf_patches mf) ([], [])) (\<lambda>st. Inr (snd st)))))"

text \<open>The loop that applies the checked patches, remembering what it touched, and the rollback.\<close>

fun apply_all :: "'w lldb \<Rightarrow> patch list \<Rightarrow> patch list \<Rightarrow> (('w, 'z) patch_dbg_scheme, (string \<times> patch list) option) py" where
  "apply_all L [] applied = retP None"
| "apply_all L (p # ps) applied =
     bindP (write_memory L (pt_addr p) (pt_new p) False) (\<lambda>(ok, reason).
       if ok then apply_all L ps (applied @ [p]) else retP (Some (reason, applied @ [p])))"

fun roll_back :: "'w lldb \<Rightarrow> patch list \<Rightarrow> (('w, 'z) patch_dbg_scheme, addr list) py" where
  "roll_back L [] = retP []"
| "roll_back L (p # ps) =
     bindP (write_memory L (pt_addr p) (pt_orig p) False) (\<lambda>(ok, _).
     bindP (roll_back L ps) (\<lambda>failed. retP (if ok then failed else pt_addr p # failed)))"

definition import_manifest ::
    "'w lldb \<Rightarrow> 'w image_env \<Rightarrow> string \<Rightarrow> manifest \<Rightarrow> bool \<Rightarrow> (('w, 'z) patch_dbg_scheme, patch list) py" where
  "import_manifest L I sha mf apply_it =
     bindP (getP (\<lambda>s. checked_manifest L I sha mf (world s))) (\<lambda>checked.
     bindP (liftP checked) (\<lambda>ps.
     if \<not> apply_it then retP ps
     else bindP (apply_all L ps []) (\<lambda>failure. case failure of
       Some (reason, applied) \<Rightarrow>
         bindP (roll_back L (rev applied)) (\<lambda>failed.
           raiseP (RuntimeError (if failed = [] then reason
             else reason @ ''; rollback failed at '' @ join '', '' (map py_hex failed))))
     | None \<Rightarrow>
         seqP (forP (\<lambda>p. record_patch (pt_addr p) (pt_orig p) (pt_new p)) ps)
         (seqP (record_event L ''EDIT'' ''Applied verified patch manifest'' [(''patches'', py_str (int (length ps)))])
         (retP ps)))))"


section \<open>The normal form has the same net effect\<close>

type_synonym memory = "addr \<Rightarrow> char"

definition put_byte :: "addr \<times> char \<times> char \<Rightarrow> memory \<Rightarrow> memory" where
  "put_byte b m = (case b of (a, old, new) \<Rightarrow> m(a := new))"

definition apply_patch :: "patch \<Rightarrow> memory \<Rightarrow> memory" where
  "apply_patch p m = fold put_byte (patch_bytes p) m"

definition undo_patch :: "patch \<Rightarrow> memory \<Rightarrow> memory" where
  "undo_patch p m = apply_patch (p\<lparr>pt_new := pt_orig p, pt_orig := pt_new p\<rparr>) m"

text \<open>Every patch was recorded with the bytes it replaced.\<close>

fun history_ok :: "memory \<Rightarrow> patch list \<Rightarrow> bool" where
  "history_ok m [] = True"
| "history_ok m (p # ps) = (length (pt_orig p) = length (pt_new p) \<and>
     (\<forall>(a, old, new) \<in> set (patch_bytes p). old = m a) \<and> history_ok (apply_patch p m) ps)"

definition values_ok :: "memory \<Rightarrow> memory \<Rightarrow> (addr, char \<times> char) odict \<Rightarrow> bool" where
  "values_ok m cur d = (od_ok d \<and> (\<forall>a. case map_of d a of None \<Rightarrow> cur a = m a | Some (old, new) \<Rightarrow> old = m a \<and> new = cur a))"

lemma patch_bytes_distinct: "distinct (map fst (patch_bytes p))"
  by (simp add: patch_bytes_def comp_def distinct_map inj_on_def)

lemma patch_value_ok: "values_ok m cur d \<Longrightarrow> b = (a, cur a, new) \<Longrightarrow> values_ok m (put_byte b cur) (patch_value b d)"
  unfolding values_ok_def patch_value_def put_byte_def
  by (auto simp: od_get_set od_ok_set split: option.splits) (metis option.simps(4) option.simps(5) prod.case)+

lemma put_bytes_other: "a \<notin> fst ` set bs \<Longrightarrow> fold put_byte bs m a = m a"
  by (induction bs arbitrary: m) (auto simp: put_byte_def)

lemma patch_values_bytes:
  "values_ok m cur d \<Longrightarrow> distinct (map fst bs) \<Longrightarrow> \<forall>(a, old, new) \<in> set bs. old = cur a \<Longrightarrow>
   values_ok m (fold put_byte bs cur) (fold patch_value bs d)"
proof (induction bs arbitrary: cur d)
  case (Cons b bs)
  obtain a old new where b: "b = (a, old, new)" by (cases b)
  have "values_ok m (put_byte b cur) (patch_value b d)" using Cons.prems b by (intro patch_value_ok) auto
  moreover have "\<forall>(a', old', new') \<in> set bs. old' = put_byte b cur a'"
    using Cons.prems(2,3) b by (force simp: put_byte_def)
  ultimately show ?case using Cons by simp
qed simp

lemma patch_values_ok:
  "values_ok m cur d \<Longrightarrow> history_ok cur ps \<Longrightarrow>
   \<exists>d'. foldR (\<lambda>p d. bindR (guardR (length (pt_orig p) = length (pt_new p)) (ValueError ''Patch lengths differ''))
     (\<lambda>_. Inr (fold patch_value (patch_bytes p) d))) ps d = Inr d' \<and> values_ok m (fold apply_patch ps cur) d'"
proof (induction ps arbitrary: cur d)
  case (Cons p ps)
  have "values_ok m (apply_patch p cur) (fold patch_value (patch_bytes p) d)"
    unfolding apply_patch_def using Cons.prems by (intro patch_values_bytes patch_bytes_distinct) auto
  with Cons show ?case by simp
qed simp

text \<open>The runs, newest first: their bytes are the changed bytes seen so far, in order.\<close>

definition apart :: "patch \<Rightarrow> patch \<Rightarrow> bool" where
  "apart p q = (pt_addr p + int (length (pt_new p)) < pt_addr q)"

definition run_ok :: "patch \<Rightarrow> bool" where
  "run_ok p = (length (pt_orig p) = length (pt_new p) \<and> pt_new p \<noteq> [])"

definition runs_ok :: "(addr \<times> char \<times> char) list \<Rightarrow> patch list \<Rightarrow> bool" where
  "runs_ok xs rs = (concat (map patch_bytes (rev rs)) = filter (\<lambda>(a, old, new). old \<noteq> new) xs \<and>
     list_all run_ok rs \<and> sorted_wrt (\<lambda>p q. apart q p) rs)"

lemma patch_bytes_snoc:
  "length (pt_orig r) = length (pt_new r) \<Longrightarrow>
   patch_bytes (r\<lparr>pt_orig := pt_orig r @ [old], pt_new := pt_new r @ [new]\<rparr>) =
   patch_bytes r @ [(pt_addr r + int (length (pt_new r)), old, new)]"
  by (auto simp: patch_bytes_def nth_append intro!: map_cong)

lemma patch_bytes_last:
  "run_ok r \<Longrightarrow> \<exists>old new. (pt_addr r + int (length (pt_new r)) - 1, old, new) \<in> set (patch_bytes r)"
proof -
  assume r: "run_ok r"
  let ?k = "length (pt_new r) - 1"
  have k: "?k < length (pt_new r)" using r by (simp add: run_ok_def)
  then have "(pt_addr r + int ?k, pt_orig r ! ?k, pt_new r ! ?k) \<in> set (patch_bytes r)"
    unfolding patch_bytes_def set_map set_upt by (intro image_eqI[where x = ?k]) simp_all
  moreover have "pt_addr r + int ?k = pt_addr r + int (length (pt_new r)) - 1" using k by linarith
  ultimately show ?thesis by metis
qed

lemma add_run_ok:
  assumes "runs_ok xs rs" "\<forall>y \<in> set xs. fst y < fst x"
  shows "runs_ok (xs @ [x]) (add_run x rs)"
proof -
  obtain a old new where x: "x = (a, old, new)" by (cases x)
  show ?thesis
  proof (cases "old = new")
    case True
    then show ?thesis using assms(1) x by (simp add: runs_ok_def add_run_def)
  next
    case False
    show ?thesis
    proof (cases rs)
      case Nil
      then show ?thesis using assms(1) x False by (simp add: runs_ok_def add_run_def run_ok_def patch_bytes_def)
    next
      case (Cons r rs')
      have r: "run_ok r" using assms(1) Cons by (simp add: runs_ok_def)
      from patch_bytes_last[OF r] obtain o1 n1 where l: "(pt_addr r + int (length (pt_new r)) - 1, o1, n1) \<in> set (patch_bytes r)" by blast
      have "set (patch_bytes r) \<subseteq> set xs"
      proof -
        have "set (patch_bytes r) \<subseteq> set (concat (map patch_bytes (rev rs)))" using Cons by auto
        also have "concat (map patch_bytes (rev rs)) = filter (\<lambda>(a, old, new). old \<noteq> new) xs"
          using assms(1) by (simp add: runs_ok_def)
        finally show ?thesis by auto
      qed
      with l assms(2) x have le: "pt_addr r + int (length (pt_new r)) \<le> a" by fastforce
      show ?thesis
      proof (cases "a = pt_addr r + int (length (pt_new r))")
        case True
        then show ?thesis using assms(1) x False Cons r
          by (auto simp: runs_ok_def add_run_def run_ok_def patch_bytes_snoc apart_def)
      next
        case gap: False
        with le have "apart q \<lparr>pt_addr = a, pt_orig = [old], pt_new = [new]\<rparr>" if "q \<in> set rs" for q
          using that Cons assms(1) r by (fastforce simp: apart_def runs_ok_def run_ok_def)
        moreover have "patch_bytes \<lparr>pt_addr = a, pt_orig = [old], pt_new = [new]\<rparr> = [(a, old, new)]"
          by (simp add: patch_bytes_def)
        ultimately show ?thesis using assms(1) x False Cons gap
          by (simp add: runs_ok_def add_run_def run_ok_def)
      qed
    qed
  qed
qed

lemma add_runs_ok:
  "sorted_wrt (<) (map fst xs) \<Longrightarrow> runs_ok xs (fold add_run xs [])"
proof (induction xs rule: rev_induct)
  case (snoc x xs)
  then have "runs_ok xs (fold add_run xs [])" "\<forall>y \<in> set xs. fst y < fst x" by (auto simp: sorted_wrt_append)
  from add_run_ok[OF this] show ?case by simp
qed (simp add: runs_ok_def)

lemma put_bytes_map:
  "distinct (map fst bs) \<Longrightarrow> fold put_byte bs m = (\<lambda>a. case map_of bs a of None \<Rightarrow> m a | Some (old, new) \<Rightarrow> new)"
proof (induction bs arbitrary: m)
  case (Cons b bs)
  obtain a old new where b: "b = (a, old, new)" by (cases b)
  have "map_of bs a = None" using Cons.prems b by (simp add: map_of_eq_None_iff)
  moreover have "fold put_byte bs (m(a := new)) = (\<lambda>x. case map_of bs x of None \<Rightarrow> (m(a := new)) x | Some (old, new) \<Rightarrow> new)"
    using Cons by simp
  moreover have "put_byte b m = m(a := new)" using b by (simp add: put_byte_def)
  ultimately have "fold put_byte (b # bs) m = (\<lambda>x. case map_of bs x of None \<Rightarrow> (m(a := new)) x | Some (old, new) \<Rightarrow> new)"
    by simp
  then have "fold put_byte (b # bs) m x = (case map_of (b # bs) x of None \<Rightarrow> m x | Some (old, new) \<Rightarrow> new)" for x
    using b \<open>map_of bs a = None\<close> by (cases "map_of bs x"; cases "x = a") auto
  then show ?case by blast
qed simp

lemma apply_patches_bytes: "fold apply_patch ps m = fold put_byte (concat (map patch_bytes ps)) m"
  by (induction ps arbitrary: m) (simp_all add: apply_patch_def)

lemma sorted_values: "od_ok d \<Longrightarrow> sorted_wrt (<) (map fst (sort_key (fst :: addr \<times> 'b \<Rightarrow> addr) d)) \<and>
    map_of (sort_key fst d) = map_of d"
proof
  assume d: "od_ok d"
  have "distinct (map fst (sort_key fst d))" using d by (simp add: od_ok_def distinct_map)
  then show "sorted_wrt (<) (map fst (sort_key fst d))"
    by (simp add: strict_sorted_iff)
  show "map_of (sort_key fst d) = map_of d"
    using d by (intro map_of_eqI) (auto simp: od_ok_def distinct_map map_of_eq_None_iff)
qed

lemma normalized_effect:
  assumes "history_ok m ps"
  shows "\<exists>rows. normalized ps = Inr rows \<and> fold apply_patch rows m = fold apply_patch ps m \<and>
    (\<forall>r \<in> set rows. run_ok r \<and> (\<forall>(a, old, new) \<in> set (patch_bytes r). old = m a \<and> new = fold apply_patch ps m a \<and> old \<noteq> new)) \<and>
    sorted_wrt apart rows"
proof -
  let ?f = "fold apply_patch ps m"
  have "values_ok m m []" by (simp add: values_ok_def od_ok_def)
  from patch_values_ok[OF this assms] obtain d where d: "patch_values ps = Inr d" "values_ok m ?f d"
    by (auto simp: patch_values_def)
  let ?xs = "sort_key fst d" and ?rows = "rev (fold add_run (sort_key fst d) [])"
  have ok: "od_ok d" using d(2) by (simp add: values_ok_def)
  have xs: "sorted_wrt (<) (map fst ?xs)" "map_of ?xs = map_of d" using sorted_values[OF ok] by auto
  from add_runs_ok[OF xs(1)] have runs: "concat (map patch_bytes ?rows) = filter (\<lambda>(a, old, new). old \<noteq> new) ?xs"
    "list_all run_ok ?rows" "sorted_wrt apart ?rows"
    by (simp_all add: runs_ok_def sorted_wrt_rev)
  have dist: "distinct (map fst ?xs)" using ok by (simp add: od_ok_def distinct_map)
  have mem: "old = m a \<and> new = ?f a" if "(a, old, new) \<in> set ?xs" for a old new
  proof -
    have "map_of d a = Some (old, new)" using that dist xs(2) by (metis map_of_eq_Some_iff)
    then show ?thesis using d(2) by (auto simp: values_ok_def split: option.splits)
  qed
  have "fold apply_patch ?rows m = fold put_byte (filter (\<lambda>(a, old, new). old \<noteq> new) ?xs) m"
    by (simp only: apply_patches_bytes runs(1))
  also have "\<dots> = ?f"
  proof
    fix a
    let ?ys = "filter (\<lambda>(a, old, new). old \<noteq> new) ?xs"
    have dy: "distinct (map fst ?ys)" using dist by (simp add: distinct_map_filter)
    show "fold put_byte ?ys m a = ?f a"
    proof (cases "map_of ?ys a")
      case None
      then have n: "a \<notin> fst ` set ?ys" by (simp add: map_of_eq_None_iff)
      have "m a = ?f a"
      proof (cases "map_of d a")
        case None
        moreover have "case map_of d a of None \<Rightarrow> ?f a = m a | Some (old, new) \<Rightarrow> old = m a \<and> new = ?f a"
          using d(2) by (simp add: values_ok_def)
        ultimately show ?thesis by simp
      next
        case (Some on)
        obtain old new where on: "on = (old, new)" by (cases on)
        with Some have "(a, old, new) \<in> set ?xs" by (metis map_of_SomeD xs(2))
        with n have "old = new" by force
        with mem[OF \<open>(a, old, new) \<in> set ?xs\<close>] show ?thesis by metis
      qed
      with None show ?thesis by (simp add: put_bytes_map[OF dy])
    next
      case (Some on)
      obtain old new where on: "on = (old, new)" by (cases on)
      with Some have "(a, old, new) \<in> set ?xs" by (metis filter_is_subset map_of_SomeD subsetD)
      from mem[OF this] show ?thesis using Some on by (simp add: put_bytes_map[OF dy])
    qed
  qed
  finally have eff: "fold apply_patch ?rows m = ?f" .
  have each: "run_ok r \<and> (\<forall>(a, old, new) \<in> set (patch_bytes r). old = m a \<and> new = ?f a \<and> old \<noteq> new)" if r: "r \<in> set ?rows" for r
  proof -
    have "set (patch_bytes r) \<subseteq> set (concat (map patch_bytes ?rows))" using r by auto
    then have "set (patch_bytes r) \<subseteq> {(a, old, new) \<in> set ?xs. old \<noteq> new}" unfolding runs(1) by auto
    moreover have "run_ok r" using runs(2) r by (simp add: list_all_iff)
    ultimately show ?thesis using mem by blast
  qed
  show ?thesis using d(1) eff each runs(3) by (intro exI[of _ ?rows]) (simp add: normalized_def)
qed

text \<open>
  C15. The normal form of a recorded history of edits has the same effect on memory as the edits one
  after the other: its runs keep, for every byte that really changed, the byte that was there before
  the first edit and the byte after the last one; they are ascending and never touch, and restoring
  their original bytes gives back the memory from before the first edit.
\<close>
theorem normalized_net_effect:
  assumes "history_ok m ps"
  shows "\<exists>rows. normalized ps = Inr rows \<and> fold apply_patch rows m = fold apply_patch ps m \<and>
    fold undo_patch rows (fold apply_patch ps m) = m \<and> sorted_wrt apart rows \<and>
    (\<forall>r \<in> set rows. pt_new r \<noteq> [] \<and> (\<forall>(a, old, new) \<in> set (patch_bytes r). old = m a \<and> old \<noteq> new))"
proof -
  let ?f = "fold apply_patch ps m"
  from normalized_effect[OF assms] obtain rows where rows: "normalized ps = Inr rows" "fold apply_patch rows m = ?f"
    "\<forall>r \<in> set rows. run_ok r \<and> (\<forall>(a, old, new) \<in> set (patch_bytes r). old = m a \<and> new = ?f a \<and> old \<noteq> new)"
    "sorted_wrt apart rows" by blast
  have undo: "patch_bytes (r\<lparr>pt_new := pt_orig r, pt_orig := pt_new r\<rparr>) = map (\<lambda>(a, old, new). (a, new, old)) (patch_bytes r)"
    if "run_ok r" for r using that by (simp add: patch_bytes_def run_ok_def)
  have touched: "\<exists>r \<in> set rows. a \<in> fst ` set (patch_bytes r)" if "?f a \<noteq> m a" for a
  proof (rule ccontr)
    assume "\<not> ?thesis"
    then have "a \<notin> fst ` set (concat (map patch_bytes rows))" by auto
    then have "fold apply_patch rows m a = m a" by (simp add: apply_patches_bytes put_bytes_other)
    with that rows(2) show False by simp
  qed
  have step: "fold undo_patch rs cur a = (if \<exists>r \<in> set rs. a \<in> fst ` set (patch_bytes r) then m a else cur a)"
    if "set rs \<subseteq> set rows" for rs cur a
    using that
  proof (induction rs arbitrary: cur)
    case (Cons r rs)
    have r: "run_ok r" "\<forall>(a, old, new) \<in> set (patch_bytes r). old = m a" using Cons.prems rows(3) by auto
    have "undo_patch r cur a = (if a \<in> fst ` set (patch_bytes r) then m a else cur a)"
    proof -
      let ?bs = "map (\<lambda>(a, old, new). (a, new, old)) (patch_bytes r)"
      have d: "distinct (map fst ?bs)" using patch_bytes_distinct[of r] by (simp add: comp_def case_prod_beta')
      have e: "undo_patch r cur a = (case map_of ?bs a of None \<Rightarrow> cur a | Some (old, new) \<Rightarrow> new)"
        by (simp add: undo_patch_def apply_patch_def undo[OF r(1)] put_bytes_map[OF d])
      show ?thesis
      proof (cases "map_of ?bs a")
        case None
        then have "a \<notin> fst ` set ?bs" by (simp only: map_of_eq_None_iff not_False_eq_True)
        moreover have "fst ` set ?bs = fst ` set (patch_bytes r)" by (simp add: image_image case_prod_beta')
        ultimately show ?thesis using e None by simp
      next
        case (Some on)
        obtain x y where on: "on = (x, y)" by (cases on)
        with Some have "(a, y, x) \<in> set (patch_bytes r)" by (auto dest!: map_of_SomeD)
        with r(2) Some on e show ?thesis by force
      qed
    qed
    with Cons show ?case by auto
  qed simp
  have "fold undo_patch rows ?f = m" using step[OF subset_refl, of ?f] touched by (auto simp: fun_eq_iff)
  then show ?thesis using rows by (intro exI[of _ rows]) (auto simp: run_ok_def)
qed

definition demo_edits :: "patch list" where
  "demo_edits = [\<lparr>pt_addr = 16, pt_orig = ''aaa'', pt_new = ''bca''\<rparr>, \<lparr>pt_addr = 17, pt_orig = ''ca'', pt_new = ''ad''\<rparr>]"

lemma normalized_net_effect_witness:
  "\<exists>rows. normalized demo_edits = Inr rows \<and> fold undo_patch rows (fold apply_patch demo_edits (\<lambda>_. CHR ''a'')) = (\<lambda>_. CHR ''a'')"
proof -
  have "history_ok (\<lambda>_. CHR ''a'') demo_edits"
    by (simp add: demo_edits_def patch_bytes_def apply_patch_def put_byte_def upt_rec)
  from normalized_net_effect[OF this] show ?thesis by blast
qed

lemma demo_normalized:
  "normalized demo_edits = Inr [\<lparr>pt_addr = 16, pt_orig = ''a'', pt_new = ''b''\<rparr>, \<lparr>pt_addr = 18, pt_orig = ''a'', pt_new = ''d''\<rparr>]"
  by code_simp


section \<open>A failed import is rolled back\<close>

definition covers :: "patch \<Rightarrow> addr \<Rightarrow> bool" where
  "covers p x = (pt_addr p \<le> x \<and> x < pt_addr p + int (length (pt_new p)))"

definition same_length :: "patch \<Rightarrow> bool" where
  "same_length p = (length (pt_orig p) = length (pt_new p))"

lemma wp_write_untracked:
  fixes s :: "('w, 'z) dbg_scheme"
  assumes "mem_law L mem"
  shows "wpP (write_untracked L a data)
    (\<lambda>x u. \<exists>w. u = s\<lparr>world := w\<rparr> \<and> obs_process L w = obs_process L (world s) \<and>
       (\<forall>x. \<not> (a \<le> x \<and> x < a + int (length data)) \<longrightarrow> mem w x = mem (world s) x) \<and>
       (fst x \<longrightarrow> (\<forall>i < length data. mem w (a + int i) = data ! i)))
    (\<lambda>_ _. False) s"
proof (cases "obs_process L (world s)")
  case None
  then show ?thesis by (auto simp: write_untracked_def wp intro: exI[of _ "world s"])
next
  case (Some p)
  obtain n w where w: "do_write L a data (world s) = (n, w)" by fastforce
  have out: "\<forall>x. \<not> (a \<le> x \<and> x < a + int (length data)) \<longrightarrow> mem w x = mem (world s) x"
    and same: "obs_process L w = obs_process L (world s)"
    using assms w unfolding mem_law_def by (metis snd_conv)+
  have inside: "mem w (a + int i) = data ! i"
    if t: "take (length data) (read_memory L w a (length data)) = data" "i < length data" for i
  proof -
    have "length (read_memory L w a (length data)) \<le> length data"
      by (rule read_memory_length[OF mem_read_law[OF assms]])
    then have "read_memory L w a (length data) = data" using t(1) by simp
    from read_memory_full[OF assms this refl t(2)] show ?thesis by simp
  qed
  show ?thesis
  proof (cases "pr_stopped p")
    case True
    then show ?thesis using Some w out inside same by (auto simp: write_untracked_def wp intro!: exI[of _ w])
  next
    case False
    then show ?thesis using Some by (auto simp: write_untracked_def wp intro: exI[of _ "world s"])
  qed
qed

lemma wp_write_memory:
  fixes s :: "('w, 'z) patch_dbg_scheme"
  assumes "mem_law L mem"
  shows "wpP (write_memory L a data False)
    (\<lambda>x u. \<exists>w. u = s\<lparr>world := w\<rparr> \<and> obs_process L w = obs_process L (world s) \<and>
       (\<forall>x. \<not> (a \<le> x \<and> x < a + int (length data)) \<longrightarrow> mem w x = mem (world s) x) \<and>
       (fst x \<longrightarrow> (\<forall>i < length data. mem w (a + int i) = data ! i)))
    (\<lambda>_ _. False) s"
  using wp_write_untracked[OF assms] by (simp add: wpP_def write_untracked_is)

lemma write_memory_untracked:
  assumes "mem_law L mem"
  shows "wpP (write_memory L a data False)
    (\<lambda>x u. pd_patches u = pd_patches s \<and> pd_state u = pd_state s \<and>
       (\<forall>x. \<not> (a \<le> x \<and> x < a + int (length data)) \<longrightarrow> mem (world u) x = mem (world s) x) \<and>
       (fst x \<longrightarrow> (\<forall>i < length data. mem (world u) (a + int i) = data ! i)))
    (\<lambda>_ _. False) s"
  by (rule wpP_weaken[OF wp_write_memory[OF assms]]) auto

lemma apply_all_fails:
  fixes L :: "'w lldb" and s :: "('w, 'z) patch_dbg_scheme"
  assumes "mem_law L mem" "list_all same_length ps"
  shows "wpP (apply_all L ps done)
    (\<lambda>r u. pd_patches u = pd_patches s \<and> pd_state u = pd_state s \<and> (case r of None \<Rightarrow> True
       | Some (reason, applied) \<Rightarrow> (\<exists>qs. applied = done @ qs \<and> set qs \<subseteq> set ps \<and>
           (\<forall>x. \<not> (\<exists>p \<in> set qs. covers p x) \<longrightarrow> mem (world u) x = mem (world s) x))))
    (\<lambda>_ _. False) s"
  using assms(2)
proof (induction ps arbitrary: "done" s)
  case (Cons p ps)
  have "wpP (write_memory L (pt_addr p) (pt_new p) False)
     (\<lambda>x. wpP (case x of (ok, reason) \<Rightarrow> if ok then apply_all L ps (done @ [p]) else retP (Some (reason, done @ [p])))
       (\<lambda>r u. pd_patches u = pd_patches s \<and> pd_state u = pd_state s \<and> (case r of None \<Rightarrow> True
         | Some (reason, applied) \<Rightarrow> (\<exists>qs. applied = done @ qs \<and> set qs \<subseteq> set (p # ps) \<and>
           (\<forall>x. \<not> (\<exists>p \<in> set qs. covers p x) \<longrightarrow> mem (world u) x = mem (world s) x)))) (\<lambda>_ _. False))
     (\<lambda>_ _. False) s"
  proof (rule wpP_weaken[OF write_memory_untracked[OF assms(1)]])
    fix x :: "bool \<times> string" and t :: "('w, 'z) patch_dbg_scheme"
    assume t: "pd_patches t = pd_patches s \<and> pd_state t = pd_state s \<and>
       (\<forall>x. \<not> (pt_addr p \<le> x \<and> x < pt_addr p + int (length (pt_new p))) \<longrightarrow> mem (world t) x = mem (world s) x) \<and>
       (fst x \<longrightarrow> (\<forall>i < length (pt_new p). mem (world t) (pt_addr p + int i) = pt_new p ! i))"
    obtain ok reason where x: "x = (ok, reason)" by (cases x)
    have same: "\<not> covers p y \<Longrightarrow> mem (world t) y = mem (world s) y" for y
      using t x by (auto simp: covers_def)
    show "wpP (case x of (ok, reason) \<Rightarrow> if ok then apply_all L ps (done @ [p]) else retP (Some (reason, done @ [p])))
       (\<lambda>r u. pd_patches u = pd_patches s \<and> pd_state u = pd_state s \<and> (case r of None \<Rightarrow> True
         | Some (reason, applied) \<Rightarrow> (\<exists>qs. applied = done @ qs \<and> set qs \<subseteq> set (p # ps) \<and>
           (\<forall>x. \<not> (\<exists>p \<in> set qs. covers p x) \<longrightarrow> mem (world u) x = mem (world s) x)))) (\<lambda>_ _. False) t"
    proof (cases ok)
      case False
      have "\<exists>qs. done @ [p] = done @ qs \<and> set qs \<subseteq> insert p (set ps) \<and>
          (\<forall>x. (\<forall>q \<in> set qs. \<not> covers q x) \<longrightarrow> mem (world t) x = mem (world s) x)"
        by (rule exI[of _ "[p]"]) (use same in auto)
      then show ?thesis using False x t by (simp add: wp)
    next
      case True
      have "list_all same_length ps" using Cons.prems by simp
      from Cons.IH[OF this, of "done @ [p]" t]
      have "wpP (apply_all L ps (done @ [p])) (\<lambda>r u. pd_patches u = pd_patches s \<and> pd_state u = pd_state s \<and> (case r of None \<Rightarrow> True
         | Some (reason, applied) \<Rightarrow> (\<exists>qs. applied = done @ qs \<and> set qs \<subseteq> set (p # ps) \<and>
           (\<forall>x. \<not> (\<exists>p \<in> set qs. covers p x) \<longrightarrow> mem (world u) x = mem (world s) x)))) (\<lambda>_ _. False) t"
      proof (rule wpP_weaken)
        fix r :: "(string \<times> patch list) option" and u :: "('w, 'z) patch_dbg_scheme"
        assume u: "pd_patches u = pd_patches t \<and> pd_state u = pd_state t \<and> (case r of None \<Rightarrow> True
          | Some (reason, applied) \<Rightarrow> (\<exists>qs. applied = (done @ [p]) @ qs \<and> set qs \<subseteq> set ps \<and>
             (\<forall>x. \<not> (\<exists>p \<in> set qs. covers p x) \<longrightarrow> mem (world u) x = mem (world t) x)))"
        have "\<exists>qs. applied = done @ qs \<and> set qs \<subseteq> set (p # ps) \<and>
           (\<forall>x. \<not> (\<exists>p \<in> set qs. covers p x) \<longrightarrow> mem (world u) x = mem (world s) x)" if r: "r = Some (reason, applied)" for reason applied
        proof -
          from u r obtain qs where "applied = (done @ [p]) @ qs" "set qs \<subseteq> set ps"
            "\<forall>x. \<not> (\<exists>p \<in> set qs. covers p x) \<longrightarrow> mem (world u) x = mem (world t) x" by auto
          with same show ?thesis by (intro exI[of _ "p # qs"]) auto
        qed
        then show "pd_patches u = pd_patches s \<and> pd_state u = pd_state s \<and> (case r of None \<Rightarrow> True
         | Some (reason, applied) \<Rightarrow> (\<exists>qs. applied = done @ qs \<and> set qs \<subseteq> set (p # ps) \<and>
           (\<forall>x. \<not> (\<exists>p \<in> set qs. covers p x) \<longrightarrow> mem (world u) x = mem (world s) x)))"
          using u t x by (auto split: option.splits)
      qed simp
      then show ?thesis using x True by simp
    qed
  qed simp
  then show ?case by (simp add: wp)
qed (simp add: wp)

lemma roll_back_restores:
  fixes L :: "'w lldb" and s :: "('w, 'z) patch_dbg_scheme"
  assumes "mem_law L mem" "list_all same_length ps"
    and "\<forall>p \<in> set ps. \<forall>i < length (pt_orig p). m0 (pt_addr p + int i) = pt_orig p ! i"
  shows "wpP (roll_back L ps)
    (\<lambda>failed u. pd_patches u = pd_patches s \<and> pd_state u = pd_state s \<and>
       (failed = [] \<longrightarrow> (\<forall>x. mem (world u) x = (if \<exists>p \<in> set ps. covers p x then m0 x else mem (world s) x))))
    (\<lambda>_ _. False) s"
  using assms(2,3)
proof (induction ps arbitrary: s)
  case (Cons p ps)
  let ?Q = "\<lambda>failed u. pd_patches u = pd_patches s \<and> pd_state u = pd_state s \<and>
       (failed = [] \<longrightarrow> (\<forall>x. mem (world u) x = (if \<exists>p \<in> set (p # ps). covers p x then m0 x else mem (world s) x)))"
  have len: "length (pt_orig p) = length (pt_new p)" using Cons.prems by (simp add: same_length_def)
  have "wpP (write_memory L (pt_addr p) (pt_orig p) False)
     (\<lambda>x. wpP (case x of (ok, _) \<Rightarrow> bindP (roll_back L ps) (\<lambda>failed. retP (if ok then failed else pt_addr p # failed)))
       ?Q (\<lambda>_ _. False)) (\<lambda>_ _. False) s"
  proof (rule wpP_weaken[OF write_memory_untracked[OF assms(1)]])
    fix x :: "bool \<times> string" and t :: "('w, 'z) patch_dbg_scheme"
    assume t: "pd_patches t = pd_patches s \<and> pd_state t = pd_state s \<and>
       (\<forall>x. \<not> (pt_addr p \<le> x \<and> x < pt_addr p + int (length (pt_orig p))) \<longrightarrow> mem (world t) x = mem (world s) x) \<and>
       (fst x \<longrightarrow> (\<forall>i < length (pt_orig p). mem (world t) (pt_addr p + int i) = pt_orig p ! i))"
    obtain ok msg where x: "x = (ok, msg)" by (cases x)
    have out: "\<not> covers p y \<Longrightarrow> mem (world t) y = mem (world s) y" for y
      using t x len by (auto simp: covers_def)
    have "in": "covers p y \<Longrightarrow> ok \<Longrightarrow> mem (world t) y = m0 y" for y
    proof -
      assume c: "covers p y" "ok"
      let ?i = "nat (y - pt_addr p)"
      have i: "?i < length (pt_orig p)" "y = pt_addr p + int ?i" using c(1) len by (auto simp: covers_def)
      have "\<forall>i < length (pt_orig p). mem (world t) (pt_addr p + int i) = pt_orig p ! i" using t x c(2) by simp
      with i(1) have "mem (world t) (pt_addr p + int ?i) = pt_orig p ! ?i" by blast
      also have "\<forall>i < length (pt_orig p). m0 (pt_addr p + int i) = pt_orig p ! i" using Cons.prems(2) by simp
      with i(1) have "pt_orig p ! ?i = m0 (pt_addr p + int ?i)" by metis
      finally show ?thesis using i(2) by simp
    qed
    have "list_all same_length ps" "\<forall>p \<in> set ps. \<forall>i < length (pt_orig p). m0 (pt_addr p + int i) = pt_orig p ! i"
      using Cons.prems by auto
    from Cons.IH[OF this, of t] have
      "wpP (roll_back L ps) (\<lambda>failed. wpP (retP (if ok then failed else pt_addr p # failed)) ?Q (\<lambda>_ _. False)) (\<lambda>_ _. False) t"
    proof (rule wpP_weaken)
      fix failed :: "addr list" and u :: "('w, 'z) patch_dbg_scheme"
      assume u: "pd_patches u = pd_patches t \<and> pd_state u = pd_state t \<and>
       (failed = [] \<longrightarrow> (\<forall>x. mem (world u) x = (if \<exists>p \<in> set ps. covers p x then m0 x else mem (world t) x)))"
      have "mem (world u) y = (if \<exists>q \<in> set (p # ps). covers q y then m0 y else mem (world s) y)"
        if "failed = []" ok for y
      proof (cases "\<exists>q \<in> set ps. covers q y")
        case True
        then show ?thesis using u that by auto
      next
        case False
        then show ?thesis using u that out[of y] "in"[of y] by (cases "covers p y") auto
      qed
      then show "wpP (retP (if ok then failed else pt_addr p # failed)) ?Q (\<lambda>_ _. False) u"
        using u t x by (auto simp: wp)
    qed simp
    then show "wpP (case x of (ok, _) \<Rightarrow> bindP (roll_back L ps) (\<lambda>failed. retP (if ok then failed else pt_addr p # failed)))
       ?Q (\<lambda>_ _. False) t" by (simp add: x wp)
  qed simp
  then show ?case by (simp add: wp)
qed (simp add: wp)

lemma add_runs_same_length: "list_all same_length rs \<Longrightarrow> list_all same_length (fold add_run xs rs)"
proof (induction xs arbitrary: rs)
  case (Cons x xs)
  have "list_all same_length (add_run x rs)"
    using Cons.prems by (cases rs) (auto simp: add_run_def same_length_def list_all_iff split: prod.splits)
  with Cons.IH show ?case by simp
qed simp

lemma normalized_total:
  assumes "list_all same_length ps"
  shows "\<exists>rows. normalized ps = Inr rows \<and> list_all same_length rows"
proof -
  have "\<exists>d'. foldR (\<lambda>p d. bindR (guardR (length (pt_orig p) = length (pt_new p)) (ValueError ''Patch lengths differ''))
     (\<lambda>_. Inr (fold patch_value (patch_bytes p) d))) ps d = Inr d'" for d
    using assms by (induction ps arbitrary: d) (auto simp: same_length_def)
  then obtain d where "patch_values ps = Inr d" unfolding patch_values_def by blast
  then show ?thesis using add_runs_same_length[of "[]" "sort_key fst d"]
    by (auto simp: normalized_def)
qed

lemma record_patch_total:
  assumes "list_all same_length (pd_patches s)" "length orig = length new"
  shows "wpP (record_patch a orig new) (\<lambda>_ u. list_all same_length (pd_patches u) \<and> world u = world s) (\<lambda>_ _. False) s"
proof -
  have "list_all same_length (pd_patches s @ [\<lparr>pt_addr = a, pt_orig = orig, pt_new = new\<rparr>])"
    using assms by (simp add: same_length_def)
  from normalized_total[OF this] show ?thesis using assms by (auto simp: record_patch_def wp)
qed

lemma record_patches_total:
  assumes "list_all same_length (pd_patches s)" "list_all same_length ps"
  shows "wpP (forP (\<lambda>p. record_patch (pt_addr p) (pt_orig p) (pt_new p)) ps)
    (\<lambda>_ u. list_all same_length (pd_patches u) \<and> world u = world s) (\<lambda>_ _. False) s"
proof (rule wpP_for)
  fix p u assume "p \<in> set ps" and u: "list_all same_length (pd_patches u) \<and> world u = world s"
  then have "length (pt_orig p) = length (pt_new p)" using assms(2) by (auto simp: list_all_iff same_length_def)
  then show "wpP (record_patch (pt_addr p) (pt_orig p) (pt_new p))
      (\<lambda>_ u. list_all same_length (pd_patches u) \<and> world u = world s) (\<lambda>_ _. False) u"
    using record_patch_total[of u "pt_orig p" "pt_new p" "pt_addr p"] u by simp
qed (use assms in simp)

lemma checked_entries_live:
  assumes "foldR (checked_entry L I w data m) es st = Inr st'" "mem_law L mem"
    and "\<forall>p \<in> set (snd st). same_length p \<and> (\<forall>i < length (pt_orig p). mem w (pt_addr p + int i) = pt_orig p ! i)"
  shows "\<forall>p \<in> set (snd st'). same_length p \<and> (\<forall>i < length (pt_orig p). mem w (pt_addr p + int i) = pt_orig p ! i)"
  using assms(1,3)
proof (induction es arbitrary: st)
  case (Cons e es)
  from Cons.prems(1) obtain st1 where st1: "checked_entry L I w data m e st = Inr st1"
    "foldR (checked_entry L I w data m) es st1 = Inr st'" by (auto simp: bindR_Inr)
  then obtain a where a: "read_memory L w a (length (et_new e)) = et_original e" "length (et_original e) = length (et_new e)"
    "snd st1 = snd st @ [\<lparr>pt_addr = a, pt_orig = et_original e, pt_new = et_new e\<rparr>]"
    by (auto simp: checked_entry_def Let_def bindR_Inr split: option.splits)
  have "\<forall>i < length (et_original e). mem w (a + int i) = et_original e ! i"
    using read_memory_full[OF assms(2) a(1) a(2)] a(2) by simp
  then have "\<forall>p \<in> set (snd st1). same_length p \<and> (\<forall>i < length (pt_orig p). mem w (pt_addr p + int i) = pt_orig p ! i)"
    using Cons.prems(2) a by (auto simp: same_length_def)
  with Cons.IH[OF st1(2)] show ?case by blast
qed simp

text \<open>
  C16. Importing a patch manifest is all or nothing. If the manifest is refused or one of its writes
  fails, the import raises and every byte of the target and the recorded patches are as before, unless
  the error itself says at which addresses the rollback failed; if it succeeds, every entry passed all
  the checks.
\<close>
theorem import_all_or_nothing:
  assumes "mem_law L mem" "list_all same_length (pd_patches s)" "import_manifest L I sha mf True s = (r, u)"
  shows "case r of
     Inl e \<Rightarrow> (mem (world u) = mem (world s) \<and> pd_patches u = pd_patches s) \<or>
       (\<exists>reason failed. failed \<noteq> [] \<and> e = RuntimeError (reason @ ''; rollback failed at '' @ join '', '' (map py_hex failed)))
   | Inr ps \<Rightarrow> checked_manifest L I sha mf (world s) = Inr ps \<and> list_all same_length (pd_patches u)"
proof (cases "checked_manifest L I sha mf (world s)")
  case (Inl e)
  then have "r = Inl e \<and> u = s" using assms(3) by (simp add: import_manifest_def run)
  then show ?thesis by simp
next
  case (Inr ps)
  let ?m0 = "mem (world s)"
  have live: "\<forall>p \<in> set ps. same_length p \<and> (\<forall>i < length (pt_orig p). ?m0 (pt_addr p + int i) = pt_orig p ! i)"
  proof -
    from Inr obtain data m st where "foldR (checked_entry L I (world s) data m) (mf_patches mf) ([], []) = Inr st" "ps = snd st"
      by (auto simp: checked_manifest_def bindR_Inr split_beta)
    with checked_entries_live[OF this(1) assms(1)] show ?thesis by simp
  qed
  then have len: "list_all same_length ps" by (simp add: list_all_iff)
  obtain a s1 where a: "apply_all L ps [] s = (a, s1)" by fastforce
  from apply_all_fails[OF assms(1) len, of "[]" s] a obtain failure where f: "a = Inr failure"
    "pd_patches s1 = pd_patches s" "case failure of None \<Rightarrow> True | Some (reason, applied) \<Rightarrow> (\<exists>qs. applied = [] @ qs \<and> set qs \<subseteq> set ps \<and>
       (\<forall>x. \<not> (\<exists>p \<in> set qs. covers p x) \<longrightarrow> mem (world s1) x = ?m0 x))"
    by (cases a) (auto simp: wpP_def)
  show ?thesis
  proof (cases failure)
    case None
    have "list_all same_length (pd_patches s1)" using assms(2) f(2) by simp
    from record_patches_total[OF this len] obtain s2 where s2:
      "forP (\<lambda>p. record_patch (pt_addr p) (pt_orig p) (pt_new p)) ps s1 = (Inr (), s2)" "list_all same_length (pd_patches s2)"
      by (auto simp: wpP_def split: prod.splits sum.splits)
    then have "r = Inr ps \<and> pd_patches u = pd_patches s2"
      using assms(3) Inr a f None by (auto simp: import_manifest_def run record_event_def)
    then show ?thesis using Inr s2 by simp
  next
    case (Some ra)
    obtain reason applied where ra: "ra = (reason, applied)" by (cases ra)
    from f(3) Some ra have applied: "set applied \<subseteq> set ps" "\<forall>x. \<not> (\<exists>p \<in> set applied. covers p x) \<longrightarrow> mem (world s1) x = ?m0 x"
      by auto
    have "list_all same_length (rev applied)" "\<forall>p \<in> set (rev applied). \<forall>i < length (pt_orig p). ?m0 (pt_addr p + int i) = pt_orig p ! i"
      using applied(1) live by (auto simp: list_all_iff)
    from roll_back_restores[OF assms(1) this, of s1] obtain failed s2 where s2: "roll_back L (rev applied) s1 = (Inr failed, s2)"
      "pd_patches s2 = pd_patches s" "failed = [] \<longrightarrow> (\<forall>x. mem (world s2) x = (if \<exists>p \<in> set applied. covers p x then ?m0 x else mem (world s1) x))"
      using f(2) by (auto simp: wpP_def split: prod.splits sum.splits)
    have res: "r = Inl (RuntimeError (if failed = [] then reason else reason @ ''; rollback failed at '' @ join '', '' (map py_hex failed))) \<and> u = s2"
      using assms(3) Inr a f(1) Some ra s2(1) by (auto simp: import_manifest_def run)
    show ?thesis
    proof (cases "failed = []")
      case True
      then have "mem (world s2) x = ?m0 x" for x using s2(3) applied(2) by auto
      then show ?thesis using res s2(2) by (simp add: fun_eq_iff)
    next
      case False
      then show ?thesis using res by auto
    qed
  qed
qed

definition demo_image :: "demo_world image_env" where
  "demo_image = \<lparr>ie_size = (\<lambda>_. 196), ie_path = ''/a'', ie_data = (\<lambda>_. tiny_image), ie_digest = (\<lambda>_. ''h''),
     ie_resolve = (\<lambda>_ a. Some a), ie_load = (\<lambda>_ a. Some a)\<rparr>"

definition demo_manifest :: manifest where
  "demo_manifest = \<lparr>mf_schema = SCHEMA, mf_source = ''/a'', mf_sha = ''h'', mf_patches =
     [\<lparr>et_offset = 188, et_address = 4100, et_original = slice_i 188 4 tiny_image, et_new = ''abcd''\<rparr>], mf_signed = False\<rparr>"

definition demo_importing :: "demo_world patch_dbg" where
  "demo_importing = dbg.extend (demo_dbg (demo_world\<lparr>dw_process := Some (demo_process 1 []),
     dw_mem := zip (map (\<lambda>i. 4100 + int i) [0..<4]) (slice_i 188 4 tiny_image)\<rparr>)) (patch_dbg.fields True [])"

lemma demo_checked:
  "checked_manifest demo_lldb demo_image ''h'' demo_manifest (world demo_importing) =
     Inr [\<lparr>pt_addr = 4100, pt_orig = slice_i 188 4 tiny_image, pt_new = ''abcd''\<rparr>]"
  by code_simp

lemma import_all_or_nothing_witness:
  "\<exists>r u. import_manifest demo_lldb demo_image ''h'' (demo_manifest\<lparr>mf_sha := ''x''\<rparr>) True demo_importing = (r, u) \<and>
     demo_mem_at (world u) = demo_mem_at (world demo_importing)"
proof -
  obtain r u where ru: "import_manifest demo_lldb demo_image ''h'' (demo_manifest\<lparr>mf_sha := ''x''\<rparr>) True demo_importing = (r, u)"
    by fastforce
  have "checked_manifest demo_lldb demo_image ''h'' (demo_manifest\<lparr>mf_sha := ''x''\<rparr>) (world demo_importing) =
      Inl (ValueError ''Manifest does not match the original binary hash'')" by code_simp
  then have r: "r = Inl (ValueError ''Manifest does not match the original binary hash'')"
    using ru by (simp add: import_manifest_def run)
  have "list_all same_length (pd_patches demo_importing)"
    by (simp add: demo_importing_def dbg.defs patch_dbg.defs)
  from import_all_or_nothing[OF demo_mem_law this ru] r ru show ?thesis by auto
qed

end
