(* ===== verification/ScriptPayload.thy ===== *)
theory ScriptPayload
  imports Breakpoints Json
begin

text \<open>
  \<open>macdbg/core/script_payload.py\<close>: the input bytes of OSA scripts, seen at public API calls and
  kept in a bounded cache under the descriptor or script they belong to. Which module an address
  lies in, software breakpoints and the selection of a thread are LLDB's and are arguments.
\<close>

datatype payload_key = DescKey addr int int | ScriptKey int int

record payload =
  pl_type :: int
  pl_data :: bytes
  pl_origin :: string

datatype job_kind = DescJob addr "int option" | ScriptJob int addr

record job =
  jb_kind :: job_kind
  jb_payload :: "payload option"
  jb_thread :: int
  jb_address :: addr
  jb_sp :: addr
  jb_epoch :: int

record 'w payload_dbg = "'w dbg" +
  sp_entries :: "(int, string) odict"
  sp_returns :: "(int, job) odict"
  sp_cache :: "(payload_key, payload) odict"
  sp_bytes :: int
  sp_epoch :: int
  sp_seen :: "(int \<times> int) list"
  sp_retired :: "int list"
  sp_stop_key :: "(int \<times> int) option"
  sp_problem :: string

record 'w payload_env =
  se_hardware :: "'w \<Rightarrow> addr \<Rightarrow> bool"
  se_software :: "addr \<Rightarrow> 'w \<Rightarrow> breakpoint option \<times> 'w"
  se_select :: "int \<Rightarrow> 'w \<Rightarrow> unit \<times> 'w"

definition TYPES :: "(int \<times> string \<times> string) list" where
  "TYPES = [(0x73637074, ''compiled OSA'', ''.scpt''), (0x75746638, ''UTF-8 source'', ''.applescript.txt''),
     (0x75747874, ''Unicode source'', ''.utf16.bin''), (0x75743136, ''external UTF-16 source'', ''.utf16.bin''),
     (0x54455854, ''legacy text source'', ''.text.bin'')]"

definition OBSERVERS :: "(string \<times> string) list" where
  "OBSERVERS = map (\<lambda>n. (n, ''AE'')) [''AECreateDesc'', ''AEReplaceDescData'', ''AEDuplicateDesc'', ''AEDisposeDesc''] @
     map (\<lambda>n. (n, ''OpenScripting'')) [''OSALoad'', ''OSACompile'', ''OSACopyID'', ''OSACopyScript'', ''OSADispose''] @
     [(''CloseComponent'', ''CarbonCore'')]"

definition MAX_PAYLOAD :: int where "MAX_PAYLOAD = 4 * 1024 * 1024"

definition MAX_CACHE :: int where "MAX_CACHE = 32 * 1024 * 1024"

definition MAX_ENTRIES :: nat where "MAX_ENTRIES = 128"

definition MAX_RETURNS :: nat where "MAX_RETURNS = 8"

definition payload_suffix :: "payload \<Rightarrow> string option" where
  "payload_suffix p = map_option snd (map_of TYPES (pl_type p))"

section \<open>The cache\<close>

definition sp_delete :: "'w lldb \<Rightarrow> int \<Rightarrow> (('w, 'z) payload_dbg_scheme, unit) py" where
  "sp_delete L i =
     bindP (getP (\<lambda>s. obs_target L (world s))) (\<lambda>target.
     seqP (whenP target (bindP (onW (do_bp_delete L i)) (\<lambda>deleted.
       bindP (getP (\<lambda>s. find_bp L (world s) i)) (\<lambda>left.
       checkP (deleted \<or> left = None) (RuntimeError ''cannot remove script payload observer'')))))
     (modP (\<lambda>s. s\<lparr>hardware_ids := hardware_ids s - {i}\<rparr>)))"

definition sp_reset :: "'w lldb \<Rightarrow> bool \<Rightarrow> (('w, 'z) payload_dbg_scheme, unit) py" where
  "sp_reset L keep_hooks =
     bindP (getP (\<lambda>s. map fst (sp_returns s))) (\<lambda>rs.
     seqP (forP (sp_delete L) rs)
     (seqP (modP (\<lambda>s. s\<lparr>sp_returns := []\<rparr>))
     (seqP (whenP (\<not> keep_hooks) (bindP (getP (\<lambda>s. map fst (sp_entries s))) (\<lambda>es.
        seqP (forP (sp_delete L) es) (modP (\<lambda>s. s\<lparr>sp_entries := []\<rparr>)))))
     (modP (\<lambda>s. s\<lparr>sp_cache := [], sp_bytes := 0, sp_epoch := sp_epoch s + 1, sp_seen := [], sp_retired := [],
        sp_stop_key := None,
        sp_problem := ''no observed input for this script; enable the sandbox before loading it''\<rparr>)))))"

definition sp_observe :: "'w lldb \<Rightarrow> string \<times> string \<Rightarrow> (('w, 'z) payload_dbg_scheme, unit) py" where
  "sp_observe L nm =
     bindP (getP (\<lambda>s. bp_ids L (world s))) (\<lambda>before.
     bindP (onW (do_command L (''breakpoint set --name '' @ fst nm @ '' --shlib '' @ snd nm @ '' --skip-prologue false''))) (\<lambda>(ok, err).
     bindP (getP (\<lambda>s. filter (\<lambda>i. i \<notin> set before) (bp_ids L (world s)))) (\<lambda>created.
     if \<not> ok \<or> length created \<noteq> 1
     then seqP (forP (sp_delete L) created) (raiseP (RuntimeError (''cannot arm script payload observer '' @ fst nm)))
     else modP (\<lambda>s. s\<lparr>sp_entries := od_set (hd created) (fst nm) (sp_entries s)\<rparr>))))"

definition sp_enable :: "'w lldb \<Rightarrow> (('w, 'z) payload_dbg_scheme, unit) py" where
  "sp_enable L = bindP (getP sp_entries) (\<lambda>es.
     if es \<noteq> [] then retP () else cleanupP (forP (sp_observe L) OBSERVERS) (sp_reset L False))"

definition sp_invalidate :: "string \<Rightarrow> ('w, 'z) payload_dbg_scheme \<Rightarrow> ('w, 'z) payload_dbg_scheme" where
  "sp_invalidate reason s = s\<lparr>sp_cache := [], sp_bytes := 0, sp_epoch := sp_epoch s + 1, sp_problem := reason\<rparr>"

definition sp_forget :: "payload_key \<Rightarrow> ('w, 'z) payload_dbg_scheme \<Rightarrow> ('w, 'z) payload_dbg_scheme" where
  "sp_forget k s = (case map_of (sp_cache s) k of None \<Rightarrow> s
     | Some old \<Rightarrow> s\<lparr>sp_cache := od_pop k (sp_cache s), sp_bytes := sp_bytes s - int (length (pl_data old))\<rparr>)"

text \<open>The loop that drops the oldest payloads; its last flag says whether it dropped any.\<close>

fun drop_oldest :: "(payload_key, payload) odict \<Rightarrow> int \<Rightarrow> (payload_key, payload) odict \<times> int" where
  "drop_oldest (e # es) n = (if MAX_ENTRIES < length (e # es) \<or> MAX_CACHE < n
     then drop_oldest es (n - int (length (pl_data (snd e)))) else (e # es, n))"
| "drop_oldest [] n = ([], n)"

definition sp_store :: "payload_key \<Rightarrow> payload option \<Rightarrow> ('w, 'z) payload_dbg_scheme \<Rightarrow> ('w, 'z) payload_dbg_scheme" where
  "sp_store k p s0 = (let s = sp_forget k s0 in case p of None \<Rightarrow> s
     | Some v \<Rightarrow> (let full = od_set k v (sp_cache s); (kept, n) = drop_oldest full (sp_bytes s + int (length (pl_data v))) in
         s\<lparr>sp_cache := kept, sp_bytes := n, sp_problem := (if length kept < length full
           then ''payload capture cache was exhausted; restart with fewer concurrent scripts'' else sp_problem s)\<rparr>))"

definition sp_get :: "payload_key \<Rightarrow> (('w, 'z) payload_dbg_scheme, payload option) py" where
  "sp_get k = bindP (getP (\<lambda>s. map_of (sp_cache s) k)) (\<lambda>item.
     seqP (whenP (item \<noteq> None) (modP (\<lambda>s. s\<lparr>sp_cache := od_to_end k (sp_cache s)\<rparr>))) (retP item))"

section \<open>Reading the target\<close>

definition sp_reg :: "frame \<Rightarrow> string \<Rightarrow> int res" where
  "sp_reg f r = (case fr_reg f r of Some v \<Rightarrow> Inr v
     | None \<Rightarrow> Inl (RuntimeError (''cannot read payload capture register '' @ r)))"

definition sp_read :: "'w lldb \<Rightarrow> 'w \<Rightarrow> addr \<Rightarrow> int \<Rightarrow> bytes res" where
  "sp_read L w a n = (let data = (if n = 0 then [] else read_memory L w a (nat n)) in
     if int (length data) \<noteq> n then Inl (RuntimeError ''script input memory is unreadable'') else Inr data)"

definition sp_descriptor :: "'w lldb \<Rightarrow> 'w \<Rightarrow> addr \<Rightarrow> (int \<times> int) option res" where
  "sp_descriptor L w a = bindR (sp_read L w a 12) (\<lambda>data.
     let kind = le_int (take 4 data); handle = le_int (drop 4 data) in
     Inr (if map_of TYPES kind \<noteq> None then Some (kind, handle) else None))"

definition descriptorP :: "'w lldb \<Rightarrow> addr \<Rightarrow> (('w, 'z) payload_dbg_scheme, (int \<times> int) option) py" where
  "descriptorP L a = bindP (getP (\<lambda>s. sp_descriptor L (world s) a)) liftP"

definition forget_descriptor :: "'w lldb \<Rightarrow> addr \<Rightarrow> bool \<Rightarrow> (('w, 'z) payload_dbg_scheme, unit) py" where
  "forget_descriptor L a all_aliases =
     bindP (if all_aliases \<and> a \<noteq> 0 then descriptorP L a else retP None) (\<lambda>identity.
     bindP (getP (\<lambda>s. map fst (sp_cache s))) (\<lambda>keys.
     forP (\<lambda>k. case k of DescKey b kind handle \<Rightarrow>
         whenP (b = a \<or> identity = Some (kind, handle)) (modP (sp_forget k))
       | ScriptKey _ _ \<Rightarrow> retP ()) keys))"

text \<open>The loop of \<open>_desc_payload\<close> over possible owners of the same data handle.\<close>

fun borrow :: "'w lldb \<Rightarrow> payload_key \<Rightarrow> int \<times> int \<Rightarrow> payload_key list \<Rightarrow> (('w, 'z) payload_dbg_scheme, payload option) py" where
  "borrow L key identity [] = retP None"
| "borrow L key identity (DescKey b kind handle # ks) =
     (if (kind, handle) \<noteq> identity then borrow L key identity ks
      else bindP (getP (\<lambda>s. sp_descriptor L (world s) b)) (\<lambda>current.
        if current \<noteq> Inr (Some identity)
        then seqP (modP (sp_forget (DescKey b kind handle))) (borrow L key identity ks)
        else bindP (sp_get (DescKey b kind handle)) (\<lambda>p.
          seqP (modP (sp_store key p)) (retP p))))"
| "borrow L key identity (ScriptKey c i # ks) = borrow L key identity ks"

definition desc_payload :: "'w lldb \<Rightarrow> addr \<Rightarrow> (('w, 'z) payload_dbg_scheme, payload option) py" where
  "desc_payload L a = bindP (descriptorP L a) (\<lambda>identity. case identity of
       None \<Rightarrow> retP None
     | Some (kind, handle) \<Rightarrow> bindP (sp_get (DescKey a kind handle)) (\<lambda>p. case p of
           Some v \<Rightarrow> retP (Some v)
         | None \<Rightarrow> bindP (getP (\<lambda>s. map fst (sp_cache s))) (borrow L (DescKey a kind handle) (kind, handle))))"

section \<open>Observers\<close>

definition observer_live :: "'w lldb \<Rightarrow> 'w \<Rightarrow> int \<Rightarrow> bool" where
  "observer_live L w i = (case find_bp L w i of None \<Rightarrow> False | Some b \<Rightarrow> bp_enabled b)"

definition return_live :: "'w lldb \<Rightarrow> 'w \<Rightarrow> int \<Rightarrow> bool" where
  "return_live L w i = (case find_bp L w i of None \<Rightarrow> False
     | Some b \<Rightarrow> bp_enabled b \<and> bp_locs b \<noteq> [] \<and> list_all loc_resolved (bp_locs b))"

definition sp_valid :: "'w lldb \<Rightarrow> (('w, 'z) payload_dbg_scheme, bool) py" where
  "sp_valid L =
     bindP (getP (\<lambda>s. (map fst (sp_entries s), list_all (observer_live L (world s)) (map fst (sp_entries s))))) (\<lambda>(es, live).
     if es = [] then retP False
     else if \<not> live then seqP (sp_reset L False)
       (seqP (modP (\<lambda>s. s\<lparr>sp_problem := ''a payload observer was removed or disabled; restart and re-enable the sandbox''\<rparr>)) (retP False))
     else bindP (getP (\<lambda>s. map fst (sp_returns s))) (\<lambda>rs.
       seqP (forP (\<lambda>i. bindP (getP (\<lambda>s. return_live L (world s) i)) (\<lambda>live.
           whenP (\<not> live) (seqP (sp_delete L i)
             (modP (\<lambda>s. sp_invalidate ''a script input return observer was lost'' (s\<lparr>sp_returns := od_pop i (sp_returns s)\<rparr>)))))) rs)
       (retP True)))"

text \<open>\<open>for_execution\<close>: what is known of the script a call is about to run.\<close>

definition execution_payload :: "'w lldb \<Rightarrow> string \<Rightarrow> frame \<Rightarrow> (('w, 'z) payload_dbg_scheme, payload option) py" where
  "execution_payload L name f =
     bindP (liftP (sp_reg f ''x0'')) (\<lambda>component.
     if name = ''OSAExecute'' then bindP (liftP (sp_reg f ''x1'')) (\<lambda>i. sp_get (ScriptKey component (i AND 0xffffffff)))
     else if name = ''OSAExecuteEvent'' \<or> name = ''OSADoEvent''
     then bindP (liftP (sp_reg f ''x2'')) (\<lambda>i. sp_get (ScriptKey component (i AND 0xffffffff)))
     else if name = ''OSALoadExecute'' \<or> name = ''OSACompileExecute'' \<or> name = ''OSADoScript''
     then bindP (liftP (sp_reg f ''x1'')) (desc_payload L)
     else seqP (modP (\<lambda>s. s\<lparr>sp_problem := ''file-reference-only script loading was not captured''\<rparr>)) (retP None))"

text \<open>\<open>except RuntimeError as error: self._invalidate(str(error))\<close>.\<close>

definition guardedP :: "(('w, 'z) payload_dbg_scheme, 'a) py \<Rightarrow> 'a \<Rightarrow> (('w, 'z) payload_dbg_scheme, 'a) py" where
  "guardedP m d = catchP m (\<lambda>e. case e of RuntimeError r \<Rightarrow> seqP (modP (sp_invalidate r)) (retP d) | _ \<Rightarrow> raiseP e)"

definition for_execution :: "'w lldb \<Rightarrow> string \<Rightarrow> frame \<Rightarrow> (('w, 'z) payload_dbg_scheme, payload option) py" where
  "for_execution L name f = bindP (sp_valid L) (\<lambda>ok.
     if \<not> ok then retP None else guardedP (execution_payload L name f) None)"


section \<open>Entries and returns\<close>

text \<open>A fresh capture, and what \<open>hidden_ids\<close> keeps from the user's view.\<close>

definition sp_new :: "'w dbg \<Rightarrow> 'w payload_dbg" where
  "sp_new d = dbg.extend d (payload_dbg.fields [] [] [] 0 0 [] [] None
     ''enable the sandbox before descriptor creation and script loading'')"

definition sp_hidden :: "('w, 'z) payload_dbg_scheme \<Rightarrow> int set" where
  "sp_hidden s = fst ` set (sp_entries s) \<union> fst ` set (sp_returns s) \<union> set (sp_retired s)"

definition all_resolved :: "breakpoint \<Rightarrow> bool" where
  "all_resolved b = (bp_locs b \<noteq> [] \<and> list_all loc_resolved (bp_locs b))"

text \<open>The top frame of a thread; reading a register of no frame is reading an invalid register.\<close>

definition top_frame :: "thread \<Rightarrow> frame" where
  "top_frame t = (case th_frame t of Some f \<Rightarrow> f | None \<Rightarrow> \<lparr>fr_pc = 0, fr_regs = []\<rparr>)"

text \<open>The return site, in hardware where the program's own text must stay as it is.\<close>

definition arm_site :: "'w lldb \<Rightarrow> 'w payload_env \<Rightarrow> addr \<Rightarrow> (('w, 'z) payload_dbg_scheme, breakpoint option) py" where
  "arm_site L V address = bindP (getP (\<lambda>s. se_hardware V (world s) address)) (\<lambda>hardware.
     if hardware then bindP (create_hardware_at L address) (\<lambda>b. retP (Some b)) else onW (se_software V address))"

definition keep_job :: "'w lldb \<Rightarrow> thread \<Rightarrow> job_kind \<Rightarrow> payload option \<Rightarrow> addr \<Rightarrow> breakpoint option \<Rightarrow>
    (('w, 'z) payload_dbg_scheme, unit) py" where
  "keep_job L t k p address made = (case made of
       None \<Rightarrow> raiseP (RuntimeError ''cannot arm script input return observer'')
     | Some b \<Rightarrow> if \<not> all_resolved b
         then seqP (sp_delete L (bp_id b)) (raiseP (RuntimeError ''cannot arm script input return observer''))
         else seqP (onW (do_bp_thread L (bp_id b) (th_id t)))
           (bindP (liftP (sp_reg (top_frame t) ''sp'')) (\<lambda>sp.
             modP (\<lambda>s. s\<lparr>sp_returns := od_set (bp_id b)
               \<lparr>jb_kind = k, jb_payload = p, jb_thread = th_id t, jb_address = address, jb_sp = sp,
                jb_epoch = sp_epoch s\<rparr> (sp_returns s)\<rparr>))))"

definition sp_arm :: "'w lldb \<Rightarrow> 'w payload_env \<Rightarrow> thread \<Rightarrow> job_kind \<Rightarrow> payload option \<Rightarrow>
    (('w, 'z) payload_dbg_scheme, unit) py" where
  "sp_arm L V t k p =
     bindP (getP (\<lambda>s. MAX_RETURNS \<le> length (sp_returns s))) (\<lambda>full.
     if full then raiseP (RuntimeError ''too many concurrent script payload operations'')
     else bindP (liftP (sp_reg (top_frame t) ''lr'')) (\<lambda>address.
       if address = 0 then raiseP (RuntimeError ''script input operation has no return address'')
       else bindP (arm_site L V address) (keep_job L t k p address)))"

definition regP :: "thread \<Rightarrow> string \<Rightarrow> (('w, 'z) payload_dbg_scheme, int) py" where
  "regP t r = liftP (sp_reg (top_frame t) r)"

definition forget_component :: "int \<Rightarrow> ('w, 'z) payload_dbg_scheme \<Rightarrow> ('w, 'z) payload_dbg_scheme" where
  "forget_component c s = fold (\<lambda>k. case k of ScriptKey d i \<Rightarrow> if d = c then sp_forget k else id | _ \<Rightarrow> id)
     (map fst (sp_cache s)) s"

text \<open>\<open>AECreateDesc\<close> and \<open>AEReplaceDescData\<close>: the input is copied now and stored on return.\<close>

definition entry_create :: "'w lldb \<Rightarrow> 'w payload_env \<Rightarrow> thread \<Rightarrow> string \<Rightarrow> (('w, 'z) payload_dbg_scheme, unit) py" where
  "entry_create L V t name =
     bindP (regP t ''x3'') (\<lambda>out.
     seqP (forget_descriptor L out (name = ''AEReplaceDescData''))
     (bindP (regP t ''x0'') (\<lambda>x0. bindP (regP t ''x2'') (\<lambda>n.
       let kind = x0 AND 0xffffffff in
       if map_of TYPES kind = None then retP ()
       else if MAX_PAYLOAD < n then raiseP (RuntimeError ''script input exceeds the 4 MiB capture limit'')
       else bindP (regP t ''x1'') (\<lambda>a. bindP (getP (\<lambda>s. sp_read L (world s) a n)) (\<lambda>r. bindP (liftP r) (\<lambda>data.
         sp_arm L V t (DescJob out (Some kind)) (Some \<lparr>pl_type = kind, pl_data = data, pl_origin = name\<rparr>))))))))"

definition entry_duplicate :: "'w lldb \<Rightarrow> 'w payload_env \<Rightarrow> thread \<Rightarrow> (('w, 'z) payload_dbg_scheme, unit) py" where
  "entry_duplicate L V t =
     bindP (regP t ''x0'') (\<lambda>a. bindP (descriptorP L a) (\<lambda>identity.
       if identity = None then retP ()
       else bindP (desc_payload L a) (\<lambda>p. bindP (regP t ''x1'') (\<lambda>out.
         seqP (forget_descriptor L out False) (sp_arm L V t (DescJob out None) p)))))"

definition entry_load :: "'w lldb \<Rightarrow> 'w payload_env \<Rightarrow> thread \<Rightarrow> string \<Rightarrow> (('w, 'z) payload_dbg_scheme, unit) py" where
  "entry_load L V t name =
     bindP (regP t ''x0'') (\<lambda>component. bindP (regP t ''x3'') (\<lambda>out. bindP (regP t ''x1'') (\<lambda>a.
     bindP (desc_payload L a) (\<lambda>p.
     if name \<noteq> ''OSACompile'' then sp_arm L V t (ScriptJob component out) p
     else bindP (getP (\<lambda>s. sp_read L (world s) out 4)) (\<lambda>r. bindP (liftP r) (\<lambda>old.
       seqP (modP (sp_forget (ScriptKey component (le_int old))))
       (bindP (regP t ''x2'') (\<lambda>x2. if x2 AND 4 \<noteq> 0
         then seqP (modP (\<lambda>s. s\<lparr>sp_problem := ''an augmented script context has no complete captured input''\<rparr>))
           (sp_arm L V t (ScriptJob component out) None)
         else sp_arm L V t (ScriptJob component out) p))))))))"

definition entry_copy :: "'w lldb \<Rightarrow> 'w payload_env \<Rightarrow> thread \<Rightarrow> (('w, 'z) payload_dbg_scheme, unit) py" where
  "entry_copy L V t =
     bindP (regP t ''x0'') (\<lambda>component. bindP (regP t ''x2'') (\<lambda>out. bindP (regP t ''x1'') (\<lambda>i.
     bindP (sp_get (ScriptKey component (i AND 0xffffffff))) (\<lambda>p. sp_arm L V t (ScriptJob component out) p))))"

definition sp_entry :: "'w lldb \<Rightarrow> 'w payload_env \<Rightarrow> thread \<Rightarrow> string \<Rightarrow> (('w, 'z) payload_dbg_scheme, unit) py" where
  "sp_entry L V t name =
     (if name = ''AEDisposeDesc'' then bindP (regP t ''x0'') (\<lambda>a. forget_descriptor L a False)
      else if name = ''OSADispose'' then bindP (regP t ''x0'') (\<lambda>c. bindP (regP t ''x1'') (\<lambda>i.
        modP (sp_forget (ScriptKey c (i AND 0xffffffff)))))
      else if name = ''CloseComponent'' then bindP (regP t ''x0'') (\<lambda>c. modP (forget_component c))
      else if name = ''AECreateDesc'' \<or> name = ''AEReplaceDescData'' then entry_create L V t name
      else if name = ''AEDuplicateDesc'' then entry_duplicate L V t
      else if name = ''OSALoad'' \<or> name = ''OSACompile'' then entry_load L V t name
      else if name = ''OSACopyID'' \<or> name = ''OSACopyScript'' then entry_copy L V t
      else retP ())"

definition sp_returned :: "'w lldb \<Rightarrow> job \<Rightarrow> int \<Rightarrow> (('w, 'z) payload_dbg_scheme, unit) py" where
  "sp_returned L j result =
     bindP (getP (\<lambda>s. jb_epoch j \<noteq> sp_epoch s)) (\<lambda>stale.
     if result AND 0xffffffff \<noteq> 0 \<or> stale then retP ()
     else case jb_kind j of
       DescJob out expected \<Rightarrow> bindP (descriptorP L out) (\<lambda>key. case key of
           None \<Rightarrow> retP ()
         | Some (kind, handle) \<Rightarrow> whenP (expected = None \<or> expected = Some kind)
             (modP (sp_store (DescKey out kind handle) (jb_payload j))))
     | ScriptJob component out \<Rightarrow> bindP (getP (\<lambda>s. sp_read L (world s) out 4)) (\<lambda>r. bindP (liftP r) (\<lambda>data.
         whenP (le_int data \<noteq> 0) (modP (sp_store (ScriptKey component (le_int data)) (jb_payload j))))))"

section \<open>A stop\<close>

definition payload_ids :: "thread \<Rightarrow> int list" where
  "payload_ids t = (if th_reason t = SrBreakpoint
     then map (\<lambda>i. th_data t ! (2 * i)) [0..<(length (th_data t) + 1) div 2] else [])"

definition return_hit :: "'w lldb \<Rightarrow> 'w payload_env \<Rightarrow> thread \<Rightarrow> frame \<Rightarrow> int \<times> job \<Rightarrow> (('w, 'z) payload_dbg_scheme, unit) py" where
  "return_hit L V t f e = (case e of (i, j) \<Rightarrow>
     bindP (liftP (sp_reg f ''sp'')) (\<lambda>sp. if sp \<noteq> jb_sp j then retP ()
       else bindP (liftP (sp_reg f ''x0'')) (\<lambda>result.
         seqP (onW (se_select V (th_id t)))
         (seqP (modP (remember_hardware_return L i))
         (seqP (sp_delete L i)
         (seqP (modP (\<lambda>s. s\<lparr>sp_returns := od_pop i (sp_returns s), sp_retired := List.insert i (sp_retired s)\<rparr>))
         (guardedP (sp_returned L j result) ())))))))"

definition entry_here :: "'w lldb \<Rightarrow> 'w \<Rightarrow> addr \<Rightarrow> int \<Rightarrow> bool" where
  "entry_here L w pc i = (case find_bp L w i of None \<Rightarrow> False
     | Some b \<Rightarrow> \<exists>l \<in> set (bp_locs b). loc_enabled l \<and> loc_resolved l \<and> loc_addr l = pc)"

definition entry_hit :: "'w lldb \<Rightarrow> 'w payload_env \<Rightarrow> thread \<Rightarrow> addr \<Rightarrow> int \<times> string \<Rightarrow> bool \<Rightarrow>
    (('w, 'z) payload_dbg_scheme, bool) py" where
  "entry_hit L V t pc e matched = (case e of (i, name) \<Rightarrow>
     bindP (getP (\<lambda>s. (entry_here L (world s) pc i, (th_id t, i) \<in> set (sp_seen s)))) (\<lambda>(here, known).
       if \<not> here then retP matched else if known then retP True
       else seqP (modP (\<lambda>s. s\<lparr>sp_seen := (th_id t, i) # sp_seen s\<rparr>))
         (seqP (guardedP (sp_entry L V t name) ()) (retP True))))"

definition sp_thread :: "'w lldb \<Rightarrow> 'w payload_env \<Rightarrow> int set \<Rightarrow> thread \<Rightarrow> bool \<times> bool \<Rightarrow>
    (('w, 'z) payload_dbg_scheme, bool \<times> bool) py" where
  "sp_thread L V hidden t mf = (case mf of (matched, foreign) \<Rightarrow>
     let foreign' = (foreign \<or> \<not> set (payload_ids t) \<subseteq> hidden
           \<or> \<not> (idle_reason (th_reason t) \<or> th_reason t = SrBreakpoint)) in
     if \<not> (idle_reason (th_reason t) \<or> th_reason t = SrBreakpoint \<or> th_reason t = SrPlanComplete)
     then retP (matched, foreign')
     else case th_frame t of None \<Rightarrow> retP (matched, foreign')
     | Some f \<Rightarrow>
       bindP (getP (\<lambda>s. filter (\<lambda>(i, j). jb_thread j = th_id t \<and> jb_address j = fr_pc f) (sp_returns s))) (\<lambda>hits.
       seqP (forP (return_hit L V t f) hits)
       (bindP (getP sp_entries) (\<lambda>es.
       bindP (foldP (entry_hit L V t (fr_pc f)) es (matched \<or> hits \<noteq> [])) (\<lambda>m. retP (m, foreign'))))))"

definition sp_fresh_stop :: "int \<times> int \<Rightarrow> ('w, 'z) payload_dbg_scheme \<Rightarrow> ('w, 'z) payload_dbg_scheme" where
  "sp_fresh_stop k s = (if sp_stop_key s = Some k then s else s\<lparr>sp_seen := [], sp_retired := [], sp_stop_key := Some k\<rparr>)"

definition sp_apply_stop :: "'w lldb \<Rightarrow> 'w payload_env \<Rightarrow> (('w, 'z) payload_dbg_scheme, bool) py" where
  "sp_apply_stop L V =
     bindP (getP (\<lambda>s. (sp_entries s = [], obs_process L (world s)))) (\<lambda>(none, p). case p of
       None \<Rightarrow> retP False
     | Some p \<Rightarrow> if none \<or> \<not> pr_stopped p then retP False
         else bindP (sp_valid L) (\<lambda>ok. if \<not> ok then retP False
           else seqP (modP (sp_fresh_stop (pr_pid p, pr_stop p)))
             (bindP (getP sp_hidden) (\<lambda>hidden.
             bindP (foldP (sp_thread L V hidden) (pr_threads p) (False, False)) (\<lambda>(matched, foreign).
             retP (matched \<and> \<not> foreign))))))"


section \<open>The bounds\<close>

definition cached_bytes :: "(payload_key, payload) odict \<Rightarrow> int" where
  "cached_bytes c = sum_list (map (\<lambda>(k, p). int (length (pl_data p))) c)"

definition payload_ok :: "payload \<Rightarrow> bool" where
  "payload_ok p = (map_of TYPES (pl_type p) \<noteq> None \<and> int (length (pl_data p)) \<le> MAX_PAYLOAD)"

definition cache_inv :: "('w, 'z) payload_dbg_scheme \<Rightarrow> bool" where
  "cache_inv s = (od_ok (sp_cache s) \<and> sp_bytes s = cached_bytes (sp_cache s) \<and>
     sp_bytes s \<le> MAX_CACHE \<and> length (sp_cache s) \<le> MAX_ENTRIES \<and> length (sp_returns s) \<le> MAX_RETURNS \<and>
     (\<forall>p \<in> snd ` set (sp_cache s). payload_ok p) \<and>
     (\<forall>j \<in> snd ` set (sp_returns s). \<forall>p. jb_payload j = Some p \<longrightarrow> payload_ok p))"

lemma cached_bytes_simps [simp]:
  "cached_bytes [] = 0" "cached_bytes (e # c) = int (length (pl_data (snd e))) + cached_bytes c"
  "cached_bytes (c @ d) = cached_bytes c + cached_bytes d"
  by (auto simp: cached_bytes_def split: prod.splits)

lemma cached_bytes_nonneg [simp]: "0 \<le> cached_bytes c"
  by (induction c) auto

lemma cached_bytes_pop: "od_ok c \<Longrightarrow> map_of c k = Some p \<Longrightarrow>
    cached_bytes (od_pop k c) = cached_bytes c - int (length (pl_data p))"
proof (induction c)
  case (Cons e c)
  have pop: "od_pop k c = c" if "k \<notin> fst ` set c"
    using that by (force simp: od_pop_def intro!: filter_True)
  show ?case using Cons pop by (cases e) (auto simp: od_ok_def od_pop_def split: if_splits)
qed simp

lemma cached_bytes_pop_none: "map_of c k = None \<Longrightarrow> od_pop k c = c"
  by (force simp: od_pop_def map_of_eq_None_iff intro!: filter_True)

lemma od_pop_length [simp]: "length (od_pop k c) \<le> length c"
  by (simp add: od_pop_def)

lemma od_pop_subset: "set (od_pop k c) \<subseteq> set c"
  by (auto simp: od_pop_def)

lemma od_set_values: "snd ` set (od_set k v d) \<subseteq> insert v (snd ` set d)"
  by (induction d) (auto simp: od_set_def)

lemma od_set_grows: "length (od_set k v d) \<le> Suc (length d)"
  by (induction d) (auto simp: od_set_def)

lemma drop_oldest_suffix: "drop_oldest c n = (c', n') \<Longrightarrow> suffix c' c"
  by (induction c n rule: drop_oldest.induct) (auto split: if_splits simp: suffix_Cons)

lemma drop_oldest_bounds:
  "drop_oldest c n = (c', n') \<Longrightarrow> n = cached_bytes c \<Longrightarrow>
     n' = cached_bytes c' \<and> n' \<le> MAX_CACHE \<and> length c' \<le> MAX_ENTRIES"
proof (induction c n rule: drop_oldest.induct)
  case (1 e es n)
  then show ?case by (cases "MAX_ENTRIES < length (e # es) \<or> MAX_CACHE < n") auto
qed (auto simp: MAX_CACHE_def)

text \<open>The newest payload is always kept: one payload is far below the limit of all.\<close>

lemma drop_oldest_newest:
  "int (length (pl_data (snd e))) \<le> MAX_PAYLOAD \<Longrightarrow> n = cached_bytes (c @ [e]) \<Longrightarrow>
     \<exists>c'. fst (drop_oldest (c @ [e]) n) = c' @ [e]"
proof (induction c arbitrary: n)
  case Nil
  then show ?case by (simp add: MAX_PAYLOAD_def MAX_CACHE_def MAX_ENTRIES_def)
next
  case (Cons a c)
  show ?case
  proof (cases "MAX_ENTRIES < length (a # c @ [e]) \<or> MAX_CACHE < n")
    case True
    have "\<exists>c'. fst (drop_oldest (c @ [e]) (n - int (length (pl_data (snd a))))) = c' @ [e]"
      using Cons.prems by (intro Cons.IH) simp_all
    with True show ?thesis by (simp only: append_Cons drop_oldest.simps if_True)
  next
    case False
    then have "fst (drop_oldest ((a # c) @ [e]) n) = (a # c) @ [e]" by simp
    then show ?thesis by blast
  qed
qed

lemma cache_frame: "dbg_frame cache_inv"
  by (simp add: dbg_frame_def cache_inv_def)

lemma cache_inv_forget: "cache_inv s \<Longrightarrow> cache_inv (sp_forget k s)"
  using od_pop_subset[of k "sp_cache s"] le_trans[OF od_pop_length[of k "sp_cache s"], of MAX_ENTRIES]
  by (auto simp: cache_inv_def sp_forget_def cached_bytes_pop od_ok_pop split: option.splits)

lemma forget_absent: "map_of (sp_cache (sp_forget k s)) k = None"
  by (simp add: sp_forget_def dict_simps split: option.splits)

lemma cache_inv_store:
  assumes "cache_inv s" "\<And>v. p = Some v \<Longrightarrow> payload_ok v"
  shows "cache_inv (sp_store k p s)"
proof (cases p)
  case None
  then show ?thesis using cache_inv_forget[OF assms(1)] by (simp add: sp_store_def)
next
  case (Some v)
  let ?s = "sp_forget k s"
  have inv: "cache_inv ?s" by (rule cache_inv_forget[OF assms(1)])
  have full: "od_set k v (sp_cache ?s) = sp_cache ?s @ [(k, v)]" by (rule od_set_fresh[OF forget_absent])
  have ok: "od_ok (sp_cache ?s @ [(k, v)])" using inv full od_ok_set[of "sp_cache ?s" k v] by (simp add: cache_inv_def)
  obtain kept n where d: "drop_oldest (sp_cache ?s @ [(k, v)]) (sp_bytes ?s + int (length (pl_data v))) = (kept, n)"
    by (cases "drop_oldest (sp_cache ?s @ [(k, v)]) (sp_bytes ?s + int (length (pl_data v)))")
  have b: "n = cached_bytes kept \<and> n \<le> MAX_CACHE \<and> length kept \<le> MAX_ENTRIES"
    by (rule drop_oldest_bounds[OF d]) (use inv in \<open>simp add: cache_inv_def\<close>)
  obtain pre where pre: "sp_cache ?s @ [(k, v)] = pre @ kept" using drop_oldest_suffix[OF d] by (auto simp: suffix_def)
  have sub: "set kept \<subseteq> insert (k, v) (set (sp_cache ?s))" using arg_cong[OF pre, of set] by auto
  have okk: "od_ok kept" using ok pre by (auto simp: od_ok_def)
  have vs: "\<forall>q \<in> snd ` set kept. payload_ok q"
    using sub inv assms(2)[OF Some] by (auto simp: cache_inv_def)
  have rs: "sp_returns ?s = sp_returns s" by (simp add: sp_forget_def split: option.splits)
  have eq: "sp_cache (sp_store k p s) = kept \<and> sp_bytes (sp_store k p s) = n \<and> sp_returns (sp_store k p s) = sp_returns s"
    using Some d rs by (simp add: sp_store_def Let_def full)
  show ?thesis unfolding cache_inv_def eq using b okk vs assms(1) by (simp add: cache_inv_def eq)
qed

lemma od_to_end_bytes:
  assumes "od_ok c" "map_of c k = Some v"
  shows "cached_bytes (od_to_end k c) = cached_bytes c" "length (od_to_end k c) \<le> length c"
    "snd ` set (od_to_end k c) \<subseteq> snd ` set c"
proof -
  have mem: "(k, v) \<in> set c" using assms(2) by (rule map_of_SomeD)
  then have "length (od_pop k c) < length c" unfolding od_pop_def by (intro length_filter_less) auto
  then show "length (od_to_end k c) \<le> length c" using assms(2) by (simp add: od_to_end_def)
  show "cached_bytes (od_to_end k c) = cached_bytes c" using assms by (simp add: od_to_end_def cached_bytes_pop)
  show "snd ` set (od_to_end k c) \<subseteq> snd ` set c"
    using mem assms(2) by (force simp: od_to_end_def od_pop_def)
qed

text \<open>A payload read from the cache, and what every operation does.\<close>

abbreviation good :: "payload option \<Rightarrow> bool" where
  "good p \<equiv> \<forall>v. p = Some v \<longrightarrow> payload_ok v"

lemma yields_get: "yieldsP cache_inv good (sp_get k)"
  unfolding yieldsP_def
proof (intro allI impI)
  fix s :: "('w, 'z) payload_dbg_scheme"
  assume inv: "cache_inv s"
  then have ok: "od_ok (sp_cache s)" by (simp add: cache_inv_def)
  show "wpP (sp_get k) (\<lambda>p t. cache_inv t \<and> good p) (\<lambda>_. cache_inv) s"
  proof (cases "map_of (sp_cache s) k")
    case (Some v)
    have "payload_ok v" using inv map_of_SomeD[OF Some] by (force simp: cache_inv_def)
    moreover have "\<forall>p \<in> snd ` set (od_to_end k (sp_cache s)). payload_ok p"
      using inv od_to_end_bytes(3)[OF ok Some] unfolding cache_inv_def by blast
    ultimately show ?thesis using Some inv od_to_end_bytes(1,2)[OF ok Some] od_ok_to_end[OF ok, of k]
      by (simp add: sp_get_def wp cache_inv_def)
  qed (simp add: sp_get_def wp inv)
qed

lemma keeps_forget: "keepsP cache_inv (modP (sp_forget k))"
  by (rule keepsP_mod) (rule cache_inv_forget)

lemma keeps_delete: "keepsP cache_inv (sp_delete L i)"
  unfolding sp_delete_def
  by (intro keeps keepsP_mod cache_frame) (simp add: dbg_frameD[OF cache_frame])

lemma keeps_reset: "keepsP cache_inv (sp_reset L b)"
  unfolding sp_reset_def
  by (intro keeps keeps_delete keepsP_mod) (auto simp: cache_inv_def od_ok_def MAX_CACHE_def)

lemma keeps_enable: "keepsP cache_inv (sp_enable L)"
  unfolding sp_enable_def sp_observe_def
  by (intro keeps keeps_reset keeps_delete keepsP_mod cache_frame ballI allI impI | simp add: cache_inv_def split_beta)+


lemma keeps_problem: "keepsP cache_inv (modP (\<lambda>s. s\<lparr>sp_problem := r\<rparr>))"
  by (rule keepsP_mod) (simp add: cache_inv_def)

lemma cache_inv_invalidate: "cache_inv s \<Longrightarrow> cache_inv (sp_invalidate r s)"
  by (auto simp: cache_inv_def sp_invalidate_def od_ok_def MAX_CACHE_def)

lemma keeps_invalidate: "keepsP cache_inv (modP (sp_invalidate r))"
  by (rule keepsP_mod) (rule cache_inv_invalidate)

lemma keeps_descriptor: "keepsP cache_inv (descriptorP L a)"
  unfolding descriptorP_def by (intro keeps)

lemma keeps_forget_descriptor: "keepsP cache_inv (forget_descriptor L a b)"
  unfolding forget_descriptor_def
  by (intro keeps keeps_descriptor) (auto split: payload_key.split intro!: keeps keeps_forget)

lemma keeps_store: "good p \<Longrightarrow> keepsP cache_inv (modP (sp_store k p))"
  by (rule keepsP_mod) (auto intro: cache_inv_store)

lemma yields_borrow: "yieldsP cache_inv good (borrow L key d ks)"
proof (induction L key d ks rule: borrow.induct)
  case (2 L key d b kind handle ks)
  show ?case unfolding borrow.simps
    by (intro yields keeps keeps_forget keeps_store 2 yieldsP_bind[OF yields_get]) auto
qed (simp_all add: yields)

lemma yields_desc_payload: "yieldsP cache_inv good (desc_payload L a)"
  unfolding desc_payload_def
  by (intro yields keeps keeps_descriptor) (auto intro!: yields keeps yields_borrow yieldsP_bind[OF yields_get])

lemma returns_pop_inv: "cache_inv s \<Longrightarrow> cache_inv (s\<lparr>sp_returns := od_pop i (sp_returns s)\<rparr>)"
  using le_trans[OF od_pop_length[of i "sp_returns s"], of MAX_RETURNS] subsetD[OF od_pop_subset[of i "sp_returns s"]]
  by (auto simp: cache_inv_def)

lemma keeps_valid: "keepsP cache_inv (sp_valid L)"
  unfolding sp_valid_def
  by (auto intro!: keeps keeps_reset keeps_delete keeps_problem keepsP_mod cache_inv_invalidate returns_pop_inv split del: if_split)

lemma yields_read: "yieldsP cache_inv (\<lambda>r. \<forall>d. r = Inr d \<longrightarrow> int (length d) = n) (getP (\<lambda>s. sp_read L (world s) a n))"
  by (rule yields) (auto simp: sp_read_def Let_def split: if_splits)

lemma keeps_guarded: "keepsP cache_inv m \<Longrightarrow> keepsP cache_inv (guardedP m d)"
  unfolding guardedP_def by (intro keeps) (auto split: exn.split intro!: keeps keeps_invalidate)

lemma keeps_for_execution: "keepsP cache_inv (for_execution L name f)"
  unfolding for_execution_def execution_payload_def
  by (intro keeps keeps_valid keeps_guarded keeps_problem yieldsP_keepsD[OF yields_get] yieldsP_keepsD[OF yields_desc_payload])

definition room_inv :: "('w, 'z) payload_dbg_scheme \<Rightarrow> bool" where
  "room_inv s = (cache_inv s \<and> length (sp_returns s) < MAX_RETURNS)"

lemma room_frame: "dbg_frame room_inv"
  using cache_frame by (auto simp: dbg_frame_def room_inv_def)

lemma room_add:
  assumes "room_inv s" "good (jb_payload j)"
  shows "cache_inv (s\<lparr>sp_returns := od_set i j (sp_returns s)\<rparr>)"
proof -
  have "\<forall>k \<in> snd ` set (od_set i j (sp_returns s)). good (jb_payload k)"
    using od_set_values[of i j "sp_returns s"] assms by (auto simp: room_inv_def cache_inv_def)
  then show ?thesis using assms od_set_grows[of i j "sp_returns s"] by (auto simp: room_inv_def cache_inv_def)
qed

lemma room_delete: "room_inv s \<Longrightarrow> wpP (sp_delete L i) (\<lambda>_. cache_inv) (\<lambda>_. cache_inv) s"
  by (rule keepsP_use[OF keeps_delete]) (simp add: room_inv_def)

lemma keep_job_inv: "room_inv s \<Longrightarrow> good p \<Longrightarrow> wpP (keep_job L t k p address made) (\<lambda>_. cache_inv) (\<lambda>_. cache_inv) s"
proof (cases made)
  case (Some b)
  assume inv: "room_inv s" "good p"
  then have "cache_inv (s\<lparr>world := w\<rparr>)" for w by (simp add: room_inv_def dbg_frameD[OF cache_frame])
  moreover have "cache_inv (s\<lparr>world := w, sp_returns := od_set i j (sp_returns s)\<rparr>)" if "jb_payload j = p" for w i j
    using room_add[of "s\<lparr>world := w\<rparr>" j i] inv that by (simp add: dbg_frameD[OF room_frame])
  ultimately show ?thesis using inv Some
    by (auto simp: keep_job_def wp split: sum.split intro: wpP_weaken[OF room_delete])
qed (simp add: keep_job_def wp room_inv_def)

lemma keeps_arm:
  fixes L :: "'w lldb"
  assumes p: "good p"
  shows "keepsP cache_inv (sp_arm L V t k p :: (('w, 'z) payload_dbg_scheme, unit) py)"
  unfolding keepsP_wp
proof (intro allI impI)
  fix s :: "('w, 'z) payload_dbg_scheme"
  assume inv: "cache_inv s"
  have site: "keepsP room_inv (arm_site L V address :: (('w, 'z) payload_dbg_scheme, breakpoint option) py)" for address
    unfolding arm_site_def by (intro keeps room_frame)
  have rest: "wpP (arm_site L V address) (\<lambda>m. wpP (keep_job L t k p address m) (\<lambda>_. cache_inv) (\<lambda>_. cache_inv)) (\<lambda>_. cache_inv) s"
    if "room_inv s" for address
    by (rule wpP_weaken[OF keepsP_use[OF site that]]) (auto simp: room_inv_def[symmetric] keep_job_inv p, simp add: room_inv_def)
  then show "wpP (sp_arm L V t k p) (\<lambda>_. cache_inv) (\<lambda>_. cache_inv) s"
    using inv by (auto simp: sp_arm_def wp room_inv_def split: sum.split)
qed

lemma keeps_reg: "keepsP cache_inv (regP t r)"
  unfolding regP_def by (intro keeps)

lemma keeps_forget_component: "keepsP cache_inv (modP (forget_component c))"
proof (rule keepsP_mod)
  have "cache_inv (fold (\<lambda>k. case k of ScriptKey d i \<Rightarrow> if d = c then sp_forget k else id | _ \<Rightarrow> id) ks s)"
    if "cache_inv s" for ks and s :: "('w, 'z) payload_dbg_scheme"
    using that by (induction ks arbitrary: s) (auto split: payload_key.split intro: cache_inv_forget)
  then show "cache_inv s \<Longrightarrow> cache_inv (forget_component c s)" for s :: "('w, 'z) payload_dbg_scheme"
    by (simp add: forget_component_def)
qed

lemma keeps_read: "(\<And>data. int (length data) = n \<Longrightarrow> keepsP cache_inv (f data)) \<Longrightarrow>
    keepsP cache_inv (bindP (getP (\<lambda>s. sp_read L (world s) a n)) (\<lambda>r. bindP (liftP r) f))"
  by (rule keepsP_bind_yields[OF yields_read], rule keepsP_bind_yields[where P = "\<lambda>d. int (length d) = n"])
     (auto intro!: yields)

lemma keeps_create: "keepsP cache_inv (entry_create L V t name)"
  unfolding entry_create_def Let_def
  by (intro keepsP_bind[OF keeps_reg] keepsP_seq keepsP_cond keepsP_base keeps_forget_descriptor keeps_read keeps_arm)
     (simp_all add: payload_ok_def)

lemmas payload_keeps = keeps_reg keeps_arm keeps_forget_descriptor keeps_descriptor keeps_forget keeps_problem
  keeps_forget_component keeps_create

lemma keeps_entry: "keepsP cache_inv (sp_entry L V t name)"
  unfolding sp_entry_def entry_duplicate_def entry_load_def entry_copy_def
  by (intro keeps payload_keeps keepsP_bind_yields[OF yields_desc_payload] keepsP_bind_yields[OF yields_get]) simp_all


lemma keeps_returned: "good (jb_payload j) \<Longrightarrow> keepsP cache_inv (sp_returned L j r)"
  unfolding sp_returned_def by (auto intro!: keeps keeps_store keeps_descriptor split: job_kind.split)

lemma keeps_return_hit: "good (jb_payload (snd e)) \<Longrightarrow> keepsP cache_inv (return_hit L V t f e)"
proof -
  assume g: "good (jb_payload (snd e))"
  have retire: "keepsP cache_inv (modP (\<lambda>s. s\<lparr>sp_returns := od_pop i (sp_returns s), sp_retired := List.insert i (sp_retired s)\<rparr>))" for i
    by (rule keepsP_mod) (drule returns_pop_inv[where i = i], simp add: cache_inv_def)
  show ?thesis unfolding return_hit_def split_beta
    by (intro keeps cache_frame keeps_delete retire keeps_guarded keeps_returned g)
qed

lemma keeps_entry_hit: "keepsP cache_inv (entry_hit L V t pc e m)"
  unfolding entry_hit_def split_beta
  by (intro keeps keeps_guarded keeps_entry keepsP_mod) (simp add: cache_inv_def)

lemma keeps_thread: "keepsP cache_inv (sp_thread L V hidden t mf)"
proof -
  have hits: "yieldsP cache_inv (\<lambda>hs. \<forall>e \<in> set hs. good (jb_payload (snd e))) (getP (\<lambda>s. filter P (sp_returns s)))" for P
    by (rule yields) (auto simp: cache_inv_def)
  show ?thesis unfolding sp_thread_def split_beta Let_def
    by (intro keeps keepsP_bind_yields[OF hits] keeps_return_hit keeps_entry_hit) auto
qed

lemma keeps_apply_stop: "keepsP cache_inv (sp_apply_stop L V)"
  unfolding sp_apply_stop_def split_beta
  by (intro keeps keeps_valid keeps_thread keepsP_mod) (simp add: sp_fresh_stop_def cache_inv_def)


section \<open>Sessions\<close>

text \<open>
  What the controller asks of the capture, in any order; between two requests the target may be
  anything. An exception is reported by the caller and the capture goes on.
\<close>

datatype 'w payload_op = PayloadTarget 'w | PayloadEnable | PayloadReset bool | PayloadStop | PayloadExecution string frame

fun payload_step :: "'w lldb \<Rightarrow> 'w payload_env \<Rightarrow> 'w payload_op \<Rightarrow> 'w payload_dbg \<Rightarrow> 'w payload_dbg" where
  "payload_step L V (PayloadTarget w) s = s\<lparr>world := w\<rparr>"
| "payload_step L V PayloadEnable s = snd (sp_enable L s)"
| "payload_step L V (PayloadReset k) s = snd (sp_reset L k s)"
| "payload_step L V PayloadStop s = snd (sp_apply_stop L V s)"
| "payload_step L V (PayloadExecution name f) s = snd (for_execution L name f s)"

definition payload_session :: "'w lldb \<Rightarrow> 'w payload_env \<Rightarrow> 'w payload_op list \<Rightarrow> 'w dbg \<Rightarrow> 'w payload_dbg" where
  "payload_session L V ops d = fold (payload_step L V) ops (sp_new d)"

lemma payload_step_inv: "cache_inv s \<Longrightarrow> cache_inv (payload_step L V op s)"
  by (cases op) (auto simp: dbg_frameD[OF cache_frame] intro: keepsP_D[OF keeps_enable] keepsP_D[OF keeps_reset]
      keepsP_D[OF keeps_apply_stop] keepsP_D[OF keeps_for_execution])

lemma payload_session_inv: "cache_inv (payload_session L V ops d)"
proof -
  have "cache_inv s \<Longrightarrow> cache_inv (fold (payload_step L V) ops s)" for s
    by (induction ops arbitrary: s) (simp_all add: payload_step_inv)
  moreover have "cache_inv (sp_new d)"
    by (simp add: cache_inv_def sp_new_def dbg.defs payload_dbg.defs od_ok_def MAX_CACHE_def)
  ultimately show ?thesis by (simp add: payload_session_def)
qed

text \<open>
  C17. However the session goes, the capture keeps at most 128 payloads of at most 32 megabytes
  in all, its byte counter is their exact size, each of them is of a known descriptor type and at
  most four megabytes, no two share a key, and at most eight calls are awaited.
\<close>
theorem payload_cache_bounded:
  "od_ok (sp_cache (payload_session L V ops d)) \<and>
   sp_bytes (payload_session L V ops d) = sum_list (map (\<lambda>(k, p). int (length (pl_data p))) (sp_cache (payload_session L V ops d))) \<and>
   sp_bytes (payload_session L V ops d) \<le> 33554432 \<and>
   length (sp_cache (payload_session L V ops d)) \<le> 128 \<and>
   length (sp_returns (payload_session L V ops d)) \<le> 8 \<and>
   list_all (\<lambda>(k, p). payload_suffix p \<noteq> None \<and> length (pl_data p) \<le> 4194304) (sp_cache (payload_session L V ops d))"
  using payload_session_inv[of L V ops d]
  by (auto simp: cache_inv_def cached_bytes_def MAX_CACHE_def MAX_ENTRIES_def MAX_RETURNS_def list_all_iff
      payload_ok_def payload_suffix_def MAX_PAYLOAD_def)

end
