(* ===== verification/SavedState.thy ===== *)
theory SavedState
  imports PatchExport TraceLog JsonRead
begin

text \<open>
  \<open>macdbg/core/state.py\<close>: what macdbg remembers of a binary, the JSON document it is saved as,
  the directory of a sample and the move of files of the old layout. The file system is a map of
  files and a list of directories; the paths whose operations the system refuses, the directory
  of all states (an absolute path) and the digest come from outside. Comments, bookmarks and the
  texts of a breakpoint are whatever JSON the file holds: the loader does not check them.
\<close>

record stored_bp =
  sb_addr :: int
  sb_symbol :: json
  sb_condition :: json
  sb_commands :: "json list"
  sb_enabled :: bool
  sb_hardware :: bool
  sb_specification :: "json option"

record watch =
  wt_slot :: int
  wt_addr :: int
  wt_len :: int
  wt_label :: string

record binary_state =
  bs_sha :: string
  bs_path :: string
  bs_comments :: "(int, json) odict"
  bs_bookmarks :: "(int, json) odict"
  bs_breakpoints :: "stored_bp list"
  bs_patches :: "patch list"
  bs_watches :: "watch list"
  bs_timing :: json
  bs_identity :: json

definition fresh_state :: "string \<Rightarrow> string \<Rightarrow> binary_state" where
  "fresh_state sha path = \<lparr>bs_sha = sha, bs_path = path, bs_comments = [], bs_bookmarks = [], bs_breakpoints = [],
     bs_patches = [], bs_watches = [], bs_timing = JList [], bs_identity = JObj []\<rparr>"

section \<open>Paths\<close>

text \<open>\<open>str.isalnum\<close> or one of \<open>-._\<close>; the underscore is what any other character becomes.\<close>

definition safe_name :: "string \<Rightarrow> string" where
  "safe_name name = (let s = map (\<lambda>c. if is_word c \<or> c \<in> set ''-.'' then c else CHR ''_'') name in
     if s = [] then ''unknown'' else s)"

definition basename :: "string \<Rightarrow> string" where
  "basename p = rev (takeWhile (\<lambda>c. c \<noteq> CHR ''/'') (rev p))"

definition dirname :: "string \<Rightarrow> string" where
  "dirname p = (let h = rev (dropWhile (\<lambda>c. c \<noteq> CHR ''/'') (rev p)); t = rstrip_by (\<lambda>c. c = CHR ''/'') h in
     if t = [] then h else t)"

definition sample_name :: "string \<Rightarrow> string \<Rightarrow> string" where
  "sample_name path sha = safe_name (basename path) @ ''-'' @ take 12 sha"

definition sample_dir :: "string \<Rightarrow> string \<Rightarrow> string \<Rightarrow> string" where
  "sample_dir root path sha = path_join root (sample_name path sha)"

definition state_dir :: "string \<Rightarrow> binary_state \<Rightarrow> string" where
  "state_dir root st = sample_dir root (bs_path st) (bs_sha st)"

definition file_path :: "string \<Rightarrow> binary_state \<Rightarrow> string" where
  "file_path root st = path_join (state_dir root st) ''state.json''"

definition dumps_dir :: "string \<Rightarrow> binary_state \<Rightarrow> string" where
  "dumps_dir root st = path_join (state_dir root st) ''dumps''"

section \<open>Files\<close>

record files =
  fs_files :: "(string, string) odict"
  fs_dirs :: "string list"
  fs_denied :: "string \<Rightarrow> bool"

definition is_dir :: "files \<Rightarrow> string \<Rightarrow> bool" where
  "is_dir fs p = (p \<in> set (fs_dirs fs))"

definition path_exists :: "files \<Rightarrow> string \<Rightarrow> bool" where
  "path_exists fs p = (map_of (fs_files fs) p \<noteq> None \<or> is_dir fs p)"

text \<open>
  \<open>os.makedirs(p, exist_ok=True)\<close>, \<open>os.replace\<close> and \<open>os.rmdir\<close>; None is \<open>OSError\<close>. Replacing a
  directory moves all that is below it.
\<close>

definition os_makedirs :: "string \<Rightarrow> files \<Rightarrow> files option" where
  "os_makedirs p fs = (if fs_denied fs p \<or> map_of (fs_files fs) p \<noteq> None then None
     else if is_dir fs p then Some fs else Some (fs\<lparr>fs_dirs := fs_dirs fs @ [p]\<rparr>))"

definition moved :: "string \<Rightarrow> string \<Rightarrow> string \<Rightarrow> string" where
  "moved src dst p = (if p = src \<or> starts_with p (src @ ''/'') then dst @ drop (length src) p else p)"

definition os_replace :: "string \<Rightarrow> string \<Rightarrow> files \<Rightarrow> files option" where
  "os_replace src dst fs =
     (if fs_denied fs src \<or> fs_denied fs dst \<or> \<not> is_dir fs (dirname dst) then None
      else if is_dir fs src then (if path_exists fs dst then None
        else Some (fs\<lparr>fs_files := map (\<lambda>(p, c). (moved src dst p, c)) (fs_files fs), fs_dirs := map (moved src dst) (fs_dirs fs)\<rparr>))
      else case map_of (fs_files fs) src of None \<Rightarrow> None
        | Some c \<Rightarrow> if is_dir fs dst then None else Some (fs\<lparr>fs_files := od_set dst c (od_pop src (fs_files fs))\<rparr>))"

definition os_rmdir :: "string \<Rightarrow> files \<Rightarrow> files option" where
  "os_rmdir p fs = (if fs_denied fs p \<or> \<not> is_dir fs p \<or> list_ex (\<lambda>q. starts_with q (p @ ''/'')) (map fst (fs_files fs) @ fs_dirs fs)
     then None else Some (fs\<lparr>fs_dirs := filter (\<lambda>q. q \<noteq> p) (fs_dirs fs)\<rparr>))"

text \<open>\<open>open(p, 'w')\<close> and a write of the whole text.\<close>

definition os_write :: "string \<Rightarrow> string \<Rightarrow> files \<Rightarrow> files option" where
  "os_write p c fs = (if fs_denied fs p \<or> is_dir fs p \<or> \<not> is_dir fs (dirname p) then None
     else Some (fs\<lparr>fs_files := od_set p c (fs_files fs)\<rparr>))"

text \<open>\<open>except OSError: pass\<close>.\<close>

definition ignoring :: "(files \<Rightarrow> files option) \<Rightarrow> files \<Rightarrow> files" where
  "ignoring f fs = (case f fs of None \<Rightarrow> fs | Some g \<Rightarrow> g)"

definition after_makedirs :: "string \<Rightarrow> (files \<Rightarrow> files option) \<Rightarrow> files \<Rightarrow> files" where
  "after_makedirs d f fs = (case os_makedirs d fs of None \<Rightarrow> fs | Some g \<Rightarrow> ignoring f g)"

section \<open>Saving\<close>

definition json_addr :: "int \<Rightarrow> json" where "json_addr a = JStr (py_hex a)"

definition bp_json :: "stored_bp \<Rightarrow> json" where
  "bp_json b = JObj [(''addr'', json_addr (sb_addr b)), (''symbol'', sb_symbol b), (''condition'', sb_condition b),
     (''commands'', JList (sb_commands b)), (''enabled'', JBool (sb_enabled b)), (''hardware'', JBool (sb_hardware b)),
     (''specification'', case sb_specification b of None \<Rightarrow> JNull | Some s \<Rightarrow> s)]"

definition patch_json :: "patch \<Rightarrow> json" where
  "patch_json p = JObj [(''addr'', json_addr (pt_addr p)), (''orig'', JStr (py_bytes_hex (pt_orig p))),
     (''new'', JStr (py_bytes_hex (pt_new p)))]"

definition watch_json :: "watch \<Rightarrow> json" where
  "watch_json w = JObj [(''slot'', JInt (wt_slot w)), (''addr'', json_addr (wt_addr w)),
     (''length'', JInt (wt_len w)), (''label'', JStr (wt_label w))]"

definition notes_json :: "(int, json) odict \<Rightarrow> json" where
  "notes_json d = JObj (map (\<lambda>(k, v). (py_hex k, v)) d)"

definition state_json :: "binary_state \<Rightarrow> json" where
  "state_json st = JObj [(''sha256'', JStr (bs_sha st)), (''binary_path'', JStr (bs_path st)),
     (''timing_rules'', bs_timing st), (''identity_profile'', bs_identity st),
     (''comments'', notes_json (bs_comments st)), (''bookmarks'', notes_json (bs_bookmarks st)),
     (''breakpoints'', JList (map bp_json (bs_breakpoints st))), (''patches'', JList (map patch_json (bs_patches st))),
     (''watches'', JList (map watch_json (bs_watches st)))]"

text \<open>The written path, None when the system refused; the temporary file may then stay behind.\<close>

definition save_state :: "string \<Rightarrow> binary_state \<Rightarrow> files \<Rightarrow> string option \<times> files" where
  "save_state root st fs =
     (let final = file_path root st; tmp = final @ ''.tmp'' in
      case os_makedirs (state_dir root st) fs of None \<Rightarrow> (None, fs)
      | Some fs1 \<Rightarrow> (case os_write tmp (dumps2 0 (state_json st)) fs1 of None \<Rightarrow> (None, fs1)
        | Some fs2 \<Rightarrow> (case os_replace tmp final fs2 of None \<Rightarrow> (None, fs2) | Some fs3 \<Rightarrow> (Some final, fs3))))"

section \<open>Loading\<close>

definition migrate_legacy :: "string \<Rightarrow> binary_state \<Rightarrow> files \<Rightarrow> files" where
  "migrate_legacy root st fs =
     (let final = file_path root st; legacy = path_join root (bs_sha st @ ''.json'');
          old = path_join (path_join root (safe_name (basename (bs_path st)))) ''dumps''; new = dumps_dir root st in
      if path_exists fs final then fs
      else let fs1 = (if path_exists fs legacy then after_makedirs (state_dir root st) (os_replace legacy final) fs else fs) in
        if is_dir fs1 old \<and> \<not> path_exists fs1 new \<and> old \<noteq> new
        then after_makedirs (state_dir root st)
          (\<lambda>g. map_option (ignoring (os_rmdir (dirname old))) (os_replace old new g)) fs1
        else fs1)"

text \<open>\<open>str(v)\<close> of what a label may be; the printed form of a container is an argument.\<close>

fun json_str :: "(json \<Rightarrow> string) \<Rightarrow> json \<Rightarrow> string" where
  "json_str shown (JStr s) = s"
| "json_str shown (JInt v) = py_str v"
| "json_str shown (JBool b) = (if b then ''True'' else ''False'')"
| "json_str shown JNull = ''None''"
| "json_str shown v = shown v"

definition load_bp :: "json \<Rightarrow> stored_bp res" where
  "load_bp j =
     bindR (obj_item j ''addr'') (\<lambda>a. bindR (hex_int a) (\<lambda>addr.
     bindR (get_default j ''symbol'' (JStr [])) (\<lambda>symbol.
     bindR (get_default j ''condition'' (JStr [])) (\<lambda>c.
     bindR (get_default j ''commands'' JNull) (\<lambda>cs. bindR (json_list cs) (\<lambda>commands.
     bindR (get_default j ''enabled'' (JBool True)) (\<lambda>en.
     bindR (get_default j ''hardware'' (JBool False)) (\<lambda>hw.
     bindR (get_default j ''specification'' JNull) (\<lambda>sp.
     Inr \<lparr>sb_addr = addr, sb_symbol = symbol, sb_condition = (if truthy c then c else JStr []), sb_commands = commands,
       sb_enabled = truthy en, sb_hardware = truthy hw, sb_specification = (if is_obj sp then Some sp else None)\<rparr>)))))))))"

definition load_patch :: "json \<Rightarrow> patch res" where
  "load_patch j =
     bindR (obj_item j ''addr'') (\<lambda>a. bindR (hex_int a) (\<lambda>addr.
     bindR (get_default j ''orig'' (JStr [])) (\<lambda>o'. bindR (hex_data o') (\<lambda>orig.
     bindR (get_default j ''new'' (JStr [])) (\<lambda>n. bindR (hex_data n) (\<lambda>new.
     Inr \<lparr>pt_addr = addr, pt_orig = orig, pt_new = new\<rparr>))))))"

definition load_watch :: "(json \<Rightarrow> string) \<Rightarrow> json \<Rightarrow> watch res" where
  "load_watch shown j =
     bindR (obj_item j ''slot'') (\<lambda>s. bindR (json_int s) (\<lambda>slot.
     bindR (obj_item j ''addr'') (\<lambda>a. bindR (hex_int a) (\<lambda>addr.
     bindR (get_default j ''length'' (JInt 32)) (\<lambda>l. bindR (json_int l) (\<lambda>len.
     bindR (get_default j ''label'' (JStr [])) (\<lambda>lb.
     Inr \<lparr>wt_slot = slot, wt_addr = addr, wt_len = len, wt_label = json_str shown lb\<rparr>)))))))"

text \<open>\<open>except (KeyError, ValueError): continue\<close>; anything else leaves the loader.\<close>

fun skippable :: "exn \<Rightarrow> bool" where
  "skippable (KeyError k) = True"
| "skippable (ValueError m) = True"
| "skippable e = False"

definition load_row :: "(json \<Rightarrow> 'a res) \<Rightarrow> json \<Rightarrow> 'a list \<Rightarrow> 'a list res" where
  "load_row f j acc = (case f j of Inr x \<Rightarrow> Inr (acc @ [x]) | Inl e \<Rightarrow> if skippable e then Inr acc else Inl e)"

definition load_rows :: "(json \<Rightarrow> 'a res) \<Rightarrow> json \<Rightarrow> string \<Rightarrow> 'a list res" where
  "load_rows f d k = bindR (get_default d k JNull) (\<lambda>v. bindR (json_list v) (\<lambda>rows. foldR (load_row f) rows []))"

text \<open>Comments and bookmarks.\<close>

definition load_note :: "string \<times> json \<Rightarrow> (int, json) odict \<Rightarrow> (int, json) odict" where
  "load_note kv acc = (case py_int 16 (fst kv) of Some a \<Rightarrow> od_set a (snd kv) acc | None \<Rightarrow> acc)"

definition load_notes :: "json \<Rightarrow> string \<Rightarrow> (int, json) odict res" where
  "load_notes d k = bindR (get_default d k JNull) (\<lambda>v.
     case v of JObj kvs \<Rightarrow> Inr (fold load_note kvs [])
     | _ \<Rightarrow> if truthy v then Inl (PyError ''AttributeError'' ''items'') else Inr [])"

definition read_state :: "(json \<Rightarrow> string) \<Rightarrow> binary_state \<Rightarrow> json \<Rightarrow> binary_state res" where
  "read_state shown st d =
     bindR (get_default d ''timing_rules'' (JList [])) (\<lambda>timing.
     bindR (get_default d ''identity_profile'' (JObj [])) (\<lambda>identity.
     bindR (load_notes d ''comments'') (\<lambda>comments.
     bindR (load_notes d ''bookmarks'') (\<lambda>bookmarks.
     bindR (load_rows load_bp d ''breakpoints'') (\<lambda>bps.
     bindR (load_rows load_patch d ''patches'') (\<lambda>patches.
     bindR (load_rows (load_watch shown) d ''watches'') (\<lambda>watches.
     Inr (st\<lparr>bs_timing := timing, bs_identity := identity, bs_comments := comments, bs_bookmarks := bookmarks,
       bs_breakpoints := bps, bs_patches := patches, bs_watches := watches\<rparr>))))))))"

text \<open>\<open>sha256_of\<close> of the binary and \<open>load_for\<close>; an unreadable state file or bad JSON means a fresh state.\<close>

definition sha256_of :: "(string \<Rightarrow> string) \<Rightarrow> files \<Rightarrow> string \<Rightarrow> string res" where
  "sha256_of digest fs p = (case map_of (fs_files fs) p of
       Some c \<Rightarrow> if fs_denied fs p then Inl (PyError ''OSError'' p) else Inr (digest c)
     | None \<Rightarrow> Inl (PyError ''OSError'' p))"

definition load_for :: "(json \<Rightarrow> string) \<Rightarrow> (string \<Rightarrow> string) \<Rightarrow> string \<Rightarrow> string \<Rightarrow> files \<Rightarrow> binary_state res \<times> files" where
  "load_for shown digest root path fs =
     (case sha256_of digest fs path of Inl e \<Rightarrow> (Inl e, fs)
      | Inr sha \<Rightarrow> (let st = fresh_state sha path; fs1 = migrate_legacy root st fs; p = file_path root st in
          (if \<not> path_exists fs1 p then Inr st
           else case map_of (fs_files fs1) p of None \<Rightarrow> Inr st
           | Some text \<Rightarrow> if fs_denied fs1 p then Inr st
               else (case loads text of Inl e \<Rightarrow> Inr st | Inr d \<Rightarrow> read_state shown st d), fs1)))"


section \<open>Saving and loading\<close>

definition bp_ok :: "stored_bp \<Rightarrow> bool" where
  "bp_ok b = (canon (sb_symbol b) \<and> canon (sb_condition b) \<and> (truthy (sb_condition b) \<or> sb_condition b = JStr []) \<and>
     list_all canon (sb_commands b) \<and>
     (case sb_specification b of None \<Rightarrow> True | Some s \<Rightarrow> is_obj s \<and> canon s))"

definition state_ok :: "binary_state \<Rightarrow> bool" where
  "state_ok st = (od_ok (bs_comments st) \<and> od_ok (bs_bookmarks st) \<and> list_all (\<lambda>kv. canon (snd kv)) (bs_comments st) \<and>
     list_all (\<lambda>kv. canon (snd kv)) (bs_bookmarks st) \<and> list_all bp_ok (bs_breakpoints st) \<and>
     canon (bs_timing st) \<and> canon (bs_identity st))"

lemma hex_json [simp]: "hex_int (json_addr a) = Inr a" "hex_data (JStr (py_bytes_hex b)) = Inr b"
  by (simp_all add: json_addr_def hex16.parse_print hexbytes.parse_print)

lemma canon_addr [simp]: "canon (json_addr a)"
  by (simp add: json_addr_def)

lemma canon_notes: "od_ok d \<Longrightarrow> list_all (\<lambda>kv. canon (snd kv)) d \<Longrightarrow> canon (notes_json d)"
proof -
  assume a: "od_ok d" "list_all (\<lambda>kv. canon (snd kv)) d"
  have "distinct (map (py_hex \<circ> fst) d)"
    using a(1) unfolding od_ok_def map_map[symmetric] by (simp add: distinct_map inj_on_def hex16.print_inj)
  moreover have "map fst (map (\<lambda>(k, v). (py_hex k, v)) d) = map (py_hex \<circ> fst) d" by auto
  ultimately show ?thesis using a(2) by (auto simp: notes_json_def list_all_iff simp del: map_map)
qed

lemma canon_bp: "bp_ok b \<Longrightarrow> canon (bp_json b)"
  by (auto simp: bp_ok_def bp_json_def split: option.splits)

lemma canon_state: "state_ok st \<Longrightarrow> canon (state_json st)"
  using canon_bp by (auto simp: state_ok_def state_json_def canon_notes list_all_iff patch_json_def watch_json_def)

lemma load_bp_json: "bp_ok b \<Longrightarrow> load_bp (bp_json b) = Inr b"
  by (cases "sb_specification b") (auto simp: bp_ok_def load_bp_def bp_json_def get_default_def)

lemma load_patch_json: "load_patch (patch_json p) = Inr p"
  by (simp add: load_patch_def patch_json_def get_default_def hexbytes.parse_print)

lemma load_watch_json: "load_watch shown (watch_json w) = Inr w"
  by (simp add: load_watch_def watch_json_def get_default_def)

lemma load_rows_json:
  assumes "\<forall>x \<in> set xs. f (g x) = Inr x" "obj_get d k = Inr (Some (JList (map g xs)))"
  shows "load_rows f d k = Inr xs"
proof -
  have "foldR (load_row f) (map g xs) acc = Inr (acc @ xs)" for acc
    using assms(1) by (induction xs arbitrary: acc) (simp_all add: load_row_def)
  with assms(2) show ?thesis by (simp add: load_rows_def get_default_def)
qed

lemma load_notes_json:
  assumes "od_ok n" "obj_get d k = Inr (Some (notes_json n))"
  shows "load_notes d k = Inr n"
proof -
  have "fold load_note (map (\<lambda>(k, v). (py_hex k, v)) n) acc = fold (\<lambda>(k, v). od_set k v) n acc" for acc
    by (induction n arbitrary: acc) (auto simp: load_note_def hex16.parse_print)
  with assms show ?thesis by (simp add: load_notes_def get_default_def notes_json_def dict_rebuild od_ok_def)
qed

lemma read_state_json:
  assumes "state_ok st"
  shows "read_state shown (fresh_state (bs_sha st) (bs_path st)) (state_json st) = Inr st"
proof -
  let ?d = "state_json st"
  have "load_notes ?d ''comments'' = Inr (bs_comments st)" "load_notes ?d ''bookmarks'' = Inr (bs_bookmarks st)"
    using assms by (auto simp: state_ok_def state_json_def intro!: load_notes_json)
  moreover have "load_rows load_bp ?d ''breakpoints'' = Inr (bs_breakpoints st)"
    by (rule load_rows_json[where g = bp_json])
       (use assms load_bp_json in \<open>auto simp: state_ok_def list_all_iff state_json_def\<close>)
  moreover have "load_rows load_patch ?d ''patches'' = Inr (bs_patches st)"
    by (rule load_rows_json[where g = patch_json]) (simp_all add: load_patch_json state_json_def)
  moreover have "load_rows (load_watch shown) ?d ''watches'' = Inr (bs_watches st)"
    by (rule load_rows_json[where g = watch_json]) (simp_all add: load_watch_json state_json_def)
  moreover have "get_default ?d ''timing_rules'' (JList []) = Inr (bs_timing st)"
    "get_default ?d ''identity_profile'' (JObj []) = Inr (bs_identity st)"
    by (simp_all add: get_default_def state_json_def)
  ultimately show ?thesis by (simp add: read_state_def fresh_state_def)
qed

lemma os_makedirs_files: "os_makedirs d fs = Some fs1 \<Longrightarrow> fs_files fs1 = fs_files fs"
  by (auto simp: os_makedirs_def split: if_splits)

lemma os_write_file:
  "os_write p c fs = Some fs' \<Longrightarrow> fs_files fs' = od_set p c (fs_files fs) \<and> \<not> is_dir fs' p"
  by (auto simp: os_write_def is_dir_def split: if_splits)

lemma os_replace_file:
  assumes "os_replace src dst fs = Some fs'" "\<not> is_dir fs src"
  shows "\<exists>c. map_of (fs_files fs) src = Some c \<and> fs_files fs' = od_set dst c (od_pop src (fs_files fs)) \<and> \<not> fs_denied fs' dst"
  using assms by (auto simp: os_replace_def split: if_splits option.splits)

text \<open>The three steps of a save, each of which may be refused.\<close>

lemma save_state_cases:
  assumes "save_state root st fs = (r, fs')"
  defines "p \<equiv> file_path root st" and "c \<equiv> dumps2 0 (state_json st)"
  shows "(r = None \<and> fs_files fs' = fs_files fs) \<or> (r = None \<and> fs_files fs' = od_set (p @ ''.tmp'') c (fs_files fs)) \<or>
    (r = Some p \<and> fs_files fs' = od_set p c (od_pop (p @ ''.tmp'') (od_set (p @ ''.tmp'') c (fs_files fs))) \<and> \<not> fs_denied fs' p)"
proof (cases "os_makedirs (state_dir root st) fs")
  case None
  then show ?thesis using assms(1) by (simp add: save_state_def Let_def)
next
  case (Some fs1)
  note mk = this os_makedirs_files[OF this]
  show ?thesis
  proof (cases "os_write (p @ ''.tmp'') c fs1")
    case None
    then show ?thesis using assms(1) mk by (simp add: save_state_def Let_def p_def c_def)
  next
    case (Some fs2)
    note w = this os_write_file[OF this]
    show ?thesis
    proof (cases "os_replace (p @ ''.tmp'') p fs2")
      case None
      then show ?thesis using assms(1) mk w by (simp add: save_state_def Let_def p_def c_def)
    next
      case (Some fs3)
      then show ?thesis using assms(1) mk w os_replace_file[OF Some]
        by (auto simp: save_state_def Let_def p_def c_def dict_simps)
    qed
  qed
qed

lemma save_state_file:
  assumes "save_state root st fs = (Some p, fs')"
  shows "p = file_path root st" "map_of (fs_files fs') p = Some (dumps2 0 (state_json st))" "\<not> fs_denied fs' p"
  using save_state_cases[OF assms] by (simp_all add: dict_simps)

text \<open>
  C18. What is saved is loaded: after a save that reports success, loading the same binary gives
  back the very state, comments, bookmarks, breakpoints, patches, watches, rules and identity
  profile included, and touches no file. Values with floats are left out.
\<close>
theorem state_roundtrip:
  assumes "state_ok st" "save_state root st fs = (Some p, fs')" "sha256_of digest fs' (bs_path st) = Inr (bs_sha st)"
  shows "load_for shown digest root (bs_path st) fs' = (Inr st, fs')"
proof -
  let ?f = "fresh_state (bs_sha st) (bs_path st)"
  have p: "file_path root ?f = p"
    using save_state_file(1)[OF assms(2)] by (simp add: file_path_def state_dir_def fresh_state_def)
  have ex: "path_exists fs' p" using save_state_file(2)[OF assms(2)] by (simp add: path_exists_def)
  then have "migrate_legacy root ?f fs' = fs'" by (simp add: migrate_legacy_def p Let_def)
  moreover have "loads (dumps2 0 (state_json st)) = Inr (state_json st)"
    by (rule loads_dumps2[OF canon_state[OF assms(1)]])
  ultimately show ?thesis
    using ex save_state_file(2,3)[OF assms(2)] read_state_json[OF assms(1)] assms(3) by (simp add: load_for_def p Let_def)
qed

definition demo_state :: binary_state where
  "demo_state = \<lparr>bs_sha = ''ab'', bs_path = ''/x'', bs_comments = [(16, JStr ''hi'')], bs_bookmarks = [],
     bs_breakpoints = [\<lparr>sb_addr = 24, sb_symbol = JStr ''f'', sb_condition = JStr [], sb_commands = [], sb_enabled = True,
       sb_hardware = False, sb_specification = None\<rparr>],
     bs_patches = [\<lparr>pt_addr = 32, pt_orig = ''a'', pt_new = ''b''\<rparr>], bs_watches = [], bs_timing = JList [], bs_identity = JObj []\<rparr>"

definition demo_files :: "(string \<Rightarrow> bool) \<Rightarrow> files" where
  "demo_files denied = \<lparr>fs_files = [(''/x'', ''code'')], fs_dirs = [''/s''], fs_denied = denied\<rparr>"

lemma state_roundtrip_witness:
  "load_for (\<lambda>_. []) (\<lambda>_. ''ab'') ''/s'' ''/x'' (snd (save_state ''/s'' demo_state (demo_files (\<lambda>_. False)))) =
     (Inr demo_state, snd (save_state ''/s'' demo_state (demo_files (\<lambda>_. False))))"
proof -
  let ?r = "save_state ''/s'' demo_state (demo_files (\<lambda>_. False))"
  have ok: "state_ok demo_state" by code_simp
  have "fst ?r = Some ''/s/x-ab/state.json''" by code_simp
  then have r: "?r = (Some ''/s/x-ab/state.json'', snd ?r)" by (metis prod.collapse)
  have p: "bs_path demo_state = ''/x''" "bs_sha demo_state = ''ab''" by (simp_all add: demo_state_def)
  have "sha256_of (\<lambda>_. ''ab'') (snd ?r) ''/x'' = Inr ''ab''" by code_simp
  then show ?thesis using state_roundtrip[OF ok r, of "\<lambda>_. ''ab''" "\<lambda>_. []"] by (simp only: p)
qed




end
