(* ===== verification/Markers.thy ===== *)
theory Markers
  imports PyText
begin

text \<open>
  The text tests of \<open>macdbg/core/anti_analysis.py\<close>: names of tools and of images inside process
  names and paths, the environment given to the target and C string literals. Process names arrive
  as bytes; they are decoded as UTF-8 with the maximal invalid parts dropped or replaced, as
  \<open>bytes.decode\<close> does, into code points (None: an invalid part).
\<close>

section \<open>Decoding\<close>

definition continues :: "int \<Rightarrow> int \<Rightarrow> char \<Rightarrow> bool" where
  "continues lo hi c = (lo \<le> byte_val c \<and> byte_val c \<le> hi)"

fun second_range :: "int \<Rightarrow> int \<times> int" where
  "second_range b = (if b = 0xE0 then (0xA0, 0xBF) else if b = 0xED then (0x80, 0x9F)
     else if b = 0xF0 then (0x90, 0xBF) else if b = 0xF4 then (0x80, 0x8F) else (0x80, 0xBF))"

definition lead_length :: "int \<Rightarrow> nat" where
  "lead_length b = (if b < 0x80 then 1 else if 0xC2 \<le> b \<and> b \<le> 0xDF then 2
     else if 0xE0 \<le> b \<and> b \<le> 0xEF then 3 else if 0xF0 \<le> b \<and> b \<le> 0xF4 then 4 else 0)"

text \<open>How many of the continuation bytes that follow a lead byte are there.\<close>

definition good_tail :: "int \<Rightarrow> bytes \<Rightarrow> bytes" where
  "good_tail b s = (case s of [] \<Rightarrow> [] | d # t \<Rightarrow>
     if continues (fst (second_range b)) (snd (second_range b)) d
     then d # takeWhile (continues 0x80 0xBF) (take (lead_length b - 2) t) else [])"

definition code_point :: "int \<Rightarrow> bytes \<Rightarrow> int" where
  "code_point b t = foldl (\<lambda>v c. v * 64 + (byte_val c - 0x80))
     (case length t of 0 \<Rightarrow> b | Suc 0 \<Rightarrow> b - 0xC0 | Suc (Suc 0) \<Rightarrow> b - 0xE0 | _ \<Rightarrow> b - 0xF0) t"

definition tail_of :: "char \<Rightarrow> bytes \<Rightarrow> bytes" where
  "tail_of c s = (if lead_length (byte_val c) < 2 then [] else good_tail (byte_val c) s)"

definition point_of :: "char \<Rightarrow> bytes \<Rightarrow> int option" where
  "point_of c t = (if Suc (length t) = lead_length (byte_val c) then Some (code_point (byte_val c) t) else None)"

function utf8 :: "bytes \<Rightarrow> int option list" where
  "utf8 [] = []"
| "utf8 (c # s) = point_of c (tail_of c s) # utf8 (drop (length (tail_of c s)) s)"
  by pat_completeness auto
termination by (relation "measure length") auto

section \<open>Markers\<close>

definition TOOL_MARKERS :: "string list" where
  "TOOL_MARKERS = [''lldb'', ''debugserver'', ''lldb-rpc-server'', ''frida-server'', ''frida-trace'',
    ''hopper'', ''radare2'', ''r2'', ''cutter'', ''ghidra'', ''x64dbgi'', ''binaryninja'', ''gdb'', ''class-dump'',
    ''mitmproxy'', ''charles'', ''proxyman'', ''objection'', ''jtool2'', ''dtrace'', ''fs_usage'']"

definition IMAGE_MARKERS :: "string list" where
  "IMAGE_MARKERS = [''frida'', ''fridagadget'', ''substrate'', ''mobilesubstrate'', ''sbinjector'',
    ''libcycript'', ''libreveal'', ''revealserver'', ''dobby'', ''fishhook'', ''cycript'', ''sslkillswitch'']"

text \<open>
  \<open>casefold\<close>, as far as ASCII text can be found in the result: the code points above 127 whose
  folding holds ASCII letters give these letters, all others a character no marker has.
\<close>

definition other_char :: char where "other_char = CHR 0xFF"

definition fold_table :: "(int \<times> string) list" where
  "fold_table = [(0xDF, ''ss''), (0x130, ''i'' @ [other_char]), (0x149, other_char # ''n''), (0x17F, ''s''),
     (0x1F0, ''j'' @ [other_char]), (0x1E96, ''h'' @ [other_char]), (0x1E97, ''t'' @ [other_char]), (0x1E98, ''w'' @ [other_char]),
     (0x1E99, ''y'' @ [other_char]), (0x1E9A, ''a'' @ [other_char]), (0x1E9E, ''ss''), (0x212A, ''k''), (0xFB00, ''ff''),
     (0xFB01, ''fi''), (0xFB02, ''fl''), (0xFB03, ''ffi''), (0xFB04, ''ffl''), (0xFB05, ''st''), (0xFB06, ''st'')]"

definition fold_point :: "int \<Rightarrow> string" where
  "fold_point p = (if p < 128 then [lower_char (val_byte p)]
     else case map_of fold_table p of Some t \<Rightarrow> t | None \<Rightarrow> [other_char])"

definition casefold :: "int list \<Rightarrow> string" where
  "casefold ps = concat (map fold_point ps)"

text \<open>\<open>decode("utf-8", errors="ignore")\<close> and \<open>errors="replace"\<close>.\<close>

definition decode_ignore :: "bytes \<Rightarrow> int list" where
  "decode_ignore b = List.map_filter id (utf8 b)"

definition decode_replace :: "bytes \<Rightarrow> int list" where
  "decode_replace b = map (\<lambda>p. case p of None \<Rightarrow> 0xFFFD | Some v \<Rightarrow> v) (utf8 b)"

text \<open>Messages are Latin-1 in this model: other characters are shown as one.\<close>

definition shown :: "int list \<Rightarrow> string" where
  "shown ps = map (\<lambda>p. if p < 255 then val_byte p else other_char) ps"

text \<open>A marker of at most two letters has to stand between separators or ends, \<open>$\<close> before a last line break too.\<close>

definition separates :: "char \<Rightarrow> bool" where
  "separates c = (c \<in> {CHR ''/'', CHR 0x5C, CHR ''.'', CHR ''_'', CHR ''-''})"

definition at_border :: "string \<Rightarrow> nat \<Rightarrow> nat \<Rightarrow> bool" where
  "at_border s i n = ((i = 0 \<or> separates (s ! (i - 1))) \<and>
     (i + n = length s \<or> (i + n < length s \<and> (separates (s ! (i + n)) \<or>
        (Suc (i + n) = length s \<and> byte_val (s ! (i + n)) = 10)))))"

definition marker_hit :: "string \<Rightarrow> string \<Rightarrow> bool" where
  "marker_hit s m = (if length m \<le> 2
     then list_ex (\<lambda>i. starts_with (drop i s) m \<and> at_border s i (length m)) [0..<Suc (length s)]
     else py_find m s \<noteq> None)"

definition contains_marker :: "int list \<Rightarrow> string list \<Rightarrow> bool" where
  "contains_marker value markers = list_ex (\<lambda>m. marker_hit (casefold value) (py_lower m)) markers"

section \<open>Environment and literals\<close>

definition FORBIDDEN_ENV :: "string list" where
  "FORBIDDEN_ENV = [''DYLD_FORCE_FLAT_NAMESPACE'', ''DYLD_IMAGE_SUFFIX'', ''DYLD_INSERT_LIBRARIES'',
     ''DYLD_PRINT_BINDINGS'', ''DYLD_PRINT_INITIALIZERS'', ''DYLD_PRINT_LIBRARIES'', ''MallocStackLogging'',
     ''MallocStackLoggingNoCompact'', ''NSZombieEnabled'']"

definition filter_environment :: "string list \<Rightarrow> string list" where
  "filter_environment entries = filter (\<lambda>e. fst (cut_at ''='' e) \<notin> set FORBIDDEN_ENV) entries"

definition escape_char :: "char \<Rightarrow> string" where
  "escape_char c = (if byte_val c = 0x5C then [CHR 0x5C, CHR 0x5C] else if byte_val c = 34 then [CHR 0x5C, c]
     else if byte_val c = 10 then [CHR 0x5C, CHR ''n''] else if byte_val c = 13 then [CHR 0x5C, CHR ''r'']
     else if byte_val c = 9 then [CHR 0x5C, CHR ''t''] else if byte_val c = 0 then [CHR 0x5C, CHR ''0''] else [c])"

definition escape_c_string :: "string \<Rightarrow> string" where
  "escape_c_string t = concat (map escape_char t)"

text \<open>Escaping leaves no quote that a backslash does not precede, so a literal cannot be left early.\<close>

fun closes :: "string \<Rightarrow> bool" where
  "closes [] = False"
| "closes (c # s) = (if byte_val c = 0x5C then (case s of [] \<Rightarrow> True | _ # t \<Rightarrow> closes t)
     else byte_val c = 34 \<or> closes s)"

lemma closes_escape: "closes (escape_char c @ s) = closes s"
  by (auto simp: escape_char_def byte_val_def)

lemma escaped_stays_inside: "\<not> closes (escape_c_string t)"
  by (induction t) (simp_all add: escape_c_string_def closes_escape)

lemma filter_environment_clean: "e \<in> set (filter_environment es) \<Longrightarrow> fst (cut_at ''='' e) \<notin> set FORBIDDEN_ENV"
  by (simp add: filter_environment_def)

lemma utf8_ascii: "list_all (\<lambda>c. byte_val c < 128) s \<Longrightarrow> utf8 s = map (Some \<circ> byte_val) s"
  by (induction s) (simp_all add: lead_length_def code_point_def tail_of_def point_of_def)

end
