(* ===== verification/Defenses.thy ===== *)
theory Defenses
  imports Breakpoints Markers
begin

text \<open>
  The single defenses of \<open>macdbg/core/debugger.py\<close>: hooks on \<open>ptrace\<close>, \<open>sysctl\<close>, \<open>csops\<close>,
  \<open>task_get_exception_ports\<close> and the \<open>syscall\<close> wrappers, which several defenses share, and the
  scrubbing of what the hooked calls return. Breakpoints created by name or address, raw writes
  and commands are calls to LLDB, given by \<open>defense_env\<close>; resuming the target is an argument.
  No hook is number 0, an absent list or dictionary is empty.
\<close>

record 'w defense_dbg = "'w dbg" +
  df_ptrace :: int
  df_csops :: int
  df_mach :: int
  df_sysctl :: int
  df_ptraced :: bool
  df_parent :: bool
  df_syscalls :: "int list"
  df_returns :: "(int, string \<times> addr \<times> addr) odict"
  df_threads :: "(int, int) odict"
  df_error :: "string option"

text \<open>
  \<open>BreakpointCreateByName\<close> (None: invalid), \<open>BreakpointCreateByAddress\<close>, \<open>WriteMemory\<close> (whether it
  reports success, and how many bytes), a command (success, output, error).
\<close>

record 'w defense_env =
  de_by_name :: "string \<Rightarrow> string option \<Rightarrow> 'w \<Rightarrow> int option \<times> 'w"
  de_at :: "addr \<Rightarrow> 'w \<Rightarrow> int \<times> 'w"
  de_write :: "addr \<Rightarrow> bytes \<Rightarrow> 'w \<Rightarrow> (bool \<times> int) \<times> 'w"
  de_command :: "string \<Rightarrow> 'w \<Rightarrow> (bool \<times> string \<times> string) \<times> 'w"

section \<open>Shared hooks\<close>

definition syscall_wanted :: "('w, 'z) defense_dbg_scheme \<Rightarrow> bool" where
  "syscall_wanted s = (df_ptrace s \<noteq> 0 \<or> df_ptraced s \<or> df_parent s \<or> df_csops s \<noteq> 0)"

definition create_syscall :: "'w defense_env \<Rightarrow> string \<Rightarrow> int list \<Rightarrow> (('w, 'z) defense_dbg_scheme, int list) py" where
  "create_syscall D name ids =
     bindP (onW (de_by_name D name (Some ''libsystem_kernel.dylib''))) (\<lambda>b0.
     bindP (case b0 of Some i \<Rightarrow> retP (Some i) | None \<Rightarrow> onW (de_by_name D name None)) (\<lambda>b.
     retP (case b of None \<Rightarrow> ids | Some i \<Rightarrow> ids @ [i])))"

definition delete_each :: "'w lldb \<Rightarrow> int list \<Rightarrow> (('w, 'z) dbg_scheme, unit) py" where
  "delete_each L ids = forP (\<lambda>i. seqP (delete_breakpoint L i) (retP ())) ids"

definition sync_syscall_bp :: "'w lldb \<Rightarrow> 'w defense_env \<Rightarrow> (('w, 'z) defense_dbg_scheme, unit) py" where
  "sync_syscall_bp L D =
     bindP (getP (\<lambda>s. (obs_target L (world s), syscall_wanted s, df_syscalls s))) (\<lambda>(target, want, ids).
     if \<not> target then retP ()
     else if want \<and> ids = [] then
       bindP (foldP (create_syscall D) [''syscall'', ''__syscall''] []) (\<lambda>new. modP (\<lambda>s. s\<lparr>df_syscalls := new\<rparr>))
     else if \<not> want \<and> ids \<noteq> [] then seqP (delete_each L ids) (modP (\<lambda>s. s\<lparr>df_syscalls := []\<rparr>))
     else retP ())"

definition ensure_sysctl_bp :: "'w defense_env \<Rightarrow> (('w, 'z) defense_dbg_scheme, bool \<times> string) py" where
  "ensure_sysctl_bp D =
     bindP (getP df_sysctl) (\<lambda>i. if i \<noteq> 0 then retP (True, ''already armed'')
     else bindP (onW (de_by_name D ''sysctl'' None)) (\<lambda>b. case b of
       None \<Rightarrow> retP (False, ''sysctl symbol not found'')
     | Some j \<Rightarrow> seqP (modP (\<lambda>s. s\<lparr>df_sysctl := j\<rparr>)) (retP (True, ''armed''))))"

definition maybe_release_sysctl_bp :: "'w lldb \<Rightarrow> (('w, 'z) defense_dbg_scheme, unit) py" where
  "maybe_release_sysctl_bp L =
     bindP (getP (\<lambda>s. (\<not> df_ptraced s \<and> \<not> df_parent s \<and> df_sysctl s \<noteq> 0 \<and> obs_target L (world s), df_sysctl s))) (\<lambda>(free, i).
     whenP free (seqP (delete_breakpoint L i) (modP (\<lambda>s. s\<lparr>df_sysctl := 0\<rparr>))))"

section \<open>Switching defenses\<close>

text \<open>A defense with a hook of its own: \<open>ptrace\<close>, \<open>csops\<close>, the exception ports.\<close>

datatype own_hook = Ptrace | Csops | MachPorts

fun hook_symbol :: "own_hook \<Rightarrow> string" where
  "hook_symbol Ptrace = ''ptrace''"
| "hook_symbol Csops = ''csops''"
| "hook_symbol MachPorts = ''task_get_exception_ports''"

fun hook_id :: "own_hook \<Rightarrow> ('w, 'z) defense_dbg_scheme \<Rightarrow> int" where
  "hook_id Ptrace s = df_ptrace s"
| "hook_id Csops s = df_csops s"
| "hook_id MachPorts s = df_mach s"

fun set_hook :: "own_hook \<Rightarrow> int \<Rightarrow> ('w, 'z) defense_dbg_scheme \<Rightarrow> ('w, 'z) defense_dbg_scheme" where
  "set_hook Ptrace i s = s\<lparr>df_ptrace := i\<rparr>"
| "set_hook Csops i s = s\<lparr>df_csops := i\<rparr>"
| "set_hook MachPorts i s = s\<lparr>df_mach := i\<rparr>"

fun armed_text :: "own_hook \<Rightarrow> string" where
  "armed_text Ptrace = ''PT_DENY_ATTACH bypass armed (bp #''"
| "armed_text Csops = ''csops(CS_DEBUGGED) scrub armed (bp #''"
| "armed_text MachPorts = ''Mach exception port cloak armed (bp #''"

fun disabled_text :: "own_hook \<Rightarrow> string" where
  "disabled_text Ptrace = ''PT_DENY_ATTACH bypass disabled''"
| "disabled_text Csops = ''csops(CS_DEBUGGED) scrub disabled''"
| "disabled_text MachPorts = ''Mach exception port cloak disabled''"

definition enable_own :: "'w lldb \<Rightarrow> 'w defense_env \<Rightarrow> own_hook \<Rightarrow> (('w, 'z) defense_dbg_scheme, bool \<times> string) py" where
  "enable_own L D k =
     bindP (getP (\<lambda>s. (obs_target L (world s), hook_id k s))) (\<lambda>(target, i).
     if \<not> target then retP (False, ''no target'')
     else if i \<noteq> 0 then retP (True, ''already enabled'')
     else bindP (onW (de_by_name D (hook_symbol k) None)) (\<lambda>b. case b of
       None \<Rightarrow> retP (False, hook_symbol k @ '' symbol not found'')
     | Some j \<Rightarrow> seqP (modP (set_hook k j)) (seqP (if k = MachPorts then retP () else sync_syscall_bp L D)
         (retP (True, armed_text k @ py_str j @ '')'')))))"

definition disable_own :: "'w lldb \<Rightarrow> 'w defense_env \<Rightarrow> own_hook \<Rightarrow> (('w, 'z) defense_dbg_scheme, bool \<times> string) py" where
  "disable_own L D k =
     bindP (getP (\<lambda>s. (obs_target L (world s), hook_id k s))) (\<lambda>(target, i).
     if \<not> target \<or> i = 0 then retP (True, ''already disabled'')
     else seqP (delete_breakpoint L i) (seqP (modP (set_hook k 0))
       (seqP (if k = MachPorts then retP () else sync_syscall_bp L D) (retP (True, disabled_text k)))))"

text \<open>The two scrubs of \<open>sysctl\<close> results, which share its hook.\<close>

datatype scrub = Ptraced | Parent

fun set_scrub :: "scrub \<Rightarrow> bool \<Rightarrow> ('w, 'z) defense_dbg_scheme \<Rightarrow> ('w, 'z) defense_dbg_scheme" where
  "set_scrub Ptraced b s = s\<lparr>df_ptraced := b\<rparr>"
| "set_scrub Parent b s = s\<lparr>df_parent := b\<rparr>"

fun scrub_on :: "scrub \<Rightarrow> ('w, 'z) defense_dbg_scheme \<Rightarrow> bool" where
  "scrub_on Ptraced s = df_ptraced s"
| "scrub_on Parent s = df_parent s"

fun scrub_text :: "scrub \<Rightarrow> bool \<Rightarrow> string" where
  "scrub_text Ptraced True = ''sysctl(P_TRACED) scrub armed''"
| "scrub_text Ptraced False = ''sysctl(P_TRACED) scrub disabled''"
| "scrub_text Parent True = ''parent cloak armed: debugger names scrubbed from sysctl(KERN_PROC) results''"
| "scrub_text Parent False = ''parent cloak disabled''"

definition enable_scrub :: "'w lldb \<Rightarrow> 'w defense_env \<Rightarrow> scrub \<Rightarrow> (('w, 'z) defense_dbg_scheme, bool \<times> string) py" where
  "enable_scrub L D k =
     bindP (getP (\<lambda>s. obs_target L (world s))) (\<lambda>target.
     if \<not> target then retP (False, ''no target'')
     else seqP (modP (set_scrub k True)) (bindP (ensure_sysctl_bp D) (\<lambda>(ok, why).
       if \<not> ok then seqP (modP (set_scrub k False)) (retP (False, why))
       else seqP (sync_syscall_bp L D) (retP (True, scrub_text k True)))))"

definition disable_scrub :: "'w lldb \<Rightarrow> 'w defense_env \<Rightarrow> scrub \<Rightarrow> (('w, 'z) defense_dbg_scheme, bool \<times> string) py" where
  "disable_scrub L D k =
     seqP (modP (set_scrub k False)) (seqP (maybe_release_sysctl_bp L) (seqP (sync_syscall_bp L D)
       (retP (True, scrub_text k False))))"


text \<open>The methods of the debugger.\<close>

definition enable_anti_ptrace :: "'w lldb \<Rightarrow> 'w defense_env \<Rightarrow> (('w, 'z) defense_dbg_scheme, bool \<times> string) py" where
  "enable_anti_ptrace L D = enable_own L D Ptrace"

definition disable_anti_ptrace :: "'w lldb \<Rightarrow> 'w defense_env \<Rightarrow> (('w, 'z) defense_dbg_scheme, bool \<times> string) py" where
  "disable_anti_ptrace L D = disable_own L D Ptrace"

definition enable_anti_csops :: "'w lldb \<Rightarrow> 'w defense_env \<Rightarrow> (('w, 'z) defense_dbg_scheme, bool \<times> string) py" where
  "enable_anti_csops L D = enable_own L D Csops"

definition disable_anti_csops :: "'w lldb \<Rightarrow> 'w defense_env \<Rightarrow> (('w, 'z) defense_dbg_scheme, bool \<times> string) py" where
  "disable_anti_csops L D = disable_own L D Csops"

definition enable_anti_mach_ports :: "'w lldb \<Rightarrow> 'w defense_env \<Rightarrow> (('w, 'z) defense_dbg_scheme, bool \<times> string) py" where
  "enable_anti_mach_ports L D = enable_own L D MachPorts"

definition disable_anti_mach_ports :: "'w lldb \<Rightarrow> 'w defense_env \<Rightarrow> (('w, 'z) defense_dbg_scheme, bool \<times> string) py" where
  "disable_anti_mach_ports L D = disable_own L D MachPorts"

definition enable_anti_sysctl :: "'w lldb \<Rightarrow> 'w defense_env \<Rightarrow> (('w, 'z) defense_dbg_scheme, bool \<times> string) py" where
  "enable_anti_sysctl L D = enable_scrub L D Ptraced"

definition disable_anti_sysctl :: "'w lldb \<Rightarrow> 'w defense_env \<Rightarrow> (('w, 'z) defense_dbg_scheme, bool \<times> string) py" where
  "disable_anti_sysctl L D = disable_scrub L D Ptraced"

definition enable_anti_parent :: "'w lldb \<Rightarrow> 'w defense_env \<Rightarrow> (('w, 'z) defense_dbg_scheme, bool \<times> string) py" where
  "enable_anti_parent L D = enable_scrub L D Parent"

definition disable_anti_parent :: "'w lldb \<Rightarrow> 'w defense_env \<Rightarrow> (('w, 'z) defense_dbg_scheme, bool \<times> string) py" where
  "disable_anti_parent L D = disable_scrub L D Parent"

section \<open>Scrubbing results\<close>

definition KINFO_SIZE :: nat where "KINFO_SIZE = 648"

definition P_TRACED :: int where "P_TRACED = 0x800"

definition CS_DEBUGGED :: int where "CS_DEBUGGED = 0x10000000"

text \<open>\<open>ReadMemory\<close> that gave data, and the integer in it; without a process they raise.\<close>

definition read_some :: "'w lldb \<Rightarrow> 'w \<Rightarrow> addr \<Rightarrow> nat \<Rightarrow> bytes option" where
  "read_some L w a n = (case obs_read L w a n of None \<Rightarrow> None | Some d \<Rightarrow> if d = [] then None else Some d)"

definition read_uint :: "'w lldb \<Rightarrow> 'w \<Rightarrow> addr \<Rightarrow> nat \<Rightarrow> int option" where
  "read_uint L w a n = map_option le_int (read_some L w a n)"

text \<open>The first field between NUL bytes that names a tool, with its position.\<close>

definition c_text :: "bytes \<Rightarrow> bytes" where "c_text d = takeWhile (\<lambda>c. byte_val c \<noteq> 0) d"

function tool_field :: "nat \<Rightarrow> bytes \<Rightarrow> (nat \<times> bytes) option" where
  "tool_field at d = (if length (c_text d) = length d then None
     else if c_text d \<noteq> [] \<and> contains_marker (decode_ignore (c_text d)) TOOL_MARKERS then Some (at, c_text d)
     else tool_field (at + length (c_text d) + 1) (drop (Suc (length (c_text d))) d))"
  by pat_completeness auto
termination
proof (relation "measure (\<lambda>(at, d). length d)")
  fix at :: nat and d :: bytes
  assume "length (c_text d) \<noteq> length d"
  then show "((at + length (c_text d) + 1, drop (Suc (length (c_text d))) d), (at, d)) \<in> measure (\<lambda>(at, d). length d)"
    by (cases d) (auto simp: c_text_def)
qed simp

declare tool_field.simps [simp del]

definition launchd_over :: "bytes \<Rightarrow> bytes" where
  "launchd_over field = (let r = take (length field) ''launchd'' @ [val_byte 0] in
     r @ replicate (length field + 1 - length r) (val_byte 0))"

definition result_length :: "'w lldb \<Rightarrow> 'w \<Rightarrow> addr \<Rightarrow> nat" where
  "result_length L w oldlenp = (if oldlenp = 0 then KINFO_SIZE
     else case read_uint L w oldlenp 8 of None \<Rightarrow> KINFO_SIZE
     | Some n \<Rightarrow> if n = 0 then KINFO_SIZE else nat (min n 4096))"

definition scrub_debugger_name :: "'w lldb \<Rightarrow> 'w defense_env \<Rightarrow> addr \<Rightarrow> addr \<Rightarrow> (('w, 'z) defense_dbg_scheme, string option) py" where
  "scrub_debugger_name L D buf oldlenp =
     bindP (getP (\<lambda>s. read_some L (world s) buf (result_length L (world s) oldlenp))) (\<lambda>data. case data of
       None \<Rightarrow> retP None
     | Some d \<Rightarrow> (case tool_field 0 d of None \<Rightarrow> retP (Some '''')
         | Some (start, field) \<Rightarrow> bindP (onW (de_write D (buf + int start) (launchd_over field))) (\<lambda>(ok, n).
             retP (if ok \<and> n = int (length (launchd_over field))
               then Some (''scrubbed debugger name '' @ [CHR 0x27] @ shown (decode_ignore field) @ [CHR 0x27] @ '' from sysctl(KERN_PROC) result'')
               else None))))"

definition clear_flag :: "'w lldb \<Rightarrow> 'w defense_env \<Rightarrow> addr \<Rightarrow> int \<Rightarrow> int \<Rightarrow> string \<Rightarrow> (('w, 'z) defense_dbg_scheme, unit) py" where
  "clear_flag L D a flag b name =
     bindP (onW (de_write D a (int_le 4 (flag AND NOT b)))) (\<lambda>(ok, n).
     if \<not> ok \<or> n \<noteq> 4 then raiseP (RuntimeError (''cannot scrub '' @ name @ ''; target remains stopped''))
     else record_event L ''DEFENSE'' (''scrubbed '' @ name)
       [(''defense'', ''flag_scrubs''), (''original'', py_hex flag), (''replacement'', py_hex (flag AND NOT b)), (''address'', py_hex a)])"

definition join_messages :: "string list \<Rightarrow> string" where
  "join_messages ms = (case ms of [] \<Rightarrow> '''' | m # rest \<Rightarrow> m @ concat (map (\<lambda>x. ''; '' @ x) rest))"

definition scrub_traced :: "'w lldb \<Rightarrow> 'w defense_env \<Rightarrow> addr \<Rightarrow> (('w, 'z) defense_dbg_scheme, string list) py" where
  "scrub_traced L D buf =
     bindP (getP (\<lambda>s. (df_ptraced s, read_uint L (world s) (buf + 32) 4))) (\<lambda>(on, v). case v of
       None \<Rightarrow> retP []
     | Some flag \<Rightarrow> if on \<and> flag AND P_TRACED \<noteq> 0
         then seqP (clear_flag L D (buf + 32) flag P_TRACED ''P_TRACED'') (retP [''scrubbed P_TRACED from sysctl(KERN_PROC) result''])
         else retP [])"

definition scrub_flag :: "'w lldb \<Rightarrow> 'w defense_env \<Rightarrow> string \<Rightarrow> addr \<Rightarrow> addr \<Rightarrow> (('w, 'z) defense_dbg_scheme, string option) py" where
  "scrub_flag L D kind buf oldlenp =
     (if kind = ''sysctl'' then
        bindP (scrub_traced L D buf) (\<lambda>msgs. bindP (getP df_parent) (\<lambda>parent.
        bindP (if parent then scrub_debugger_name L D buf oldlenp else retP None) (\<lambda>m.
        retP (Some (join_messages (msgs @ (case m of None \<Rightarrow> [] | Some t \<Rightarrow> if t = '''' then [] else [t])))))))
      else if kind = ''csops'' then
        bindP (getP (\<lambda>s. read_uint L (world s) buf 4)) (\<lambda>v. case v of None \<Rightarrow> retP None
        | Some flag \<Rightarrow> if flag AND CS_DEBUGGED = 0 then retP (Some '''')
            else seqP (clear_flag L D buf flag CS_DEBUGGED ''CS_DEBUGGED'')
              (retP (Some ''scrubbed CS_DEBUGGED from csops(CS_OPS_STATUS) result'')))
      else retP None)"

section \<open>Return hooks of the scrubs\<close>

definition critical :: "string \<Rightarrow> (('w, 'z) defense_dbg_scheme, string) py" where
  "critical m = seqP (modP (\<lambda>s. if df_error s = None then s\<lparr>df_error := Some m\<rparr> else s))
     (getP (\<lambda>s. case df_error s of None \<Rightarrow> m | Some e \<Rightarrow> e))"

text \<open>\<open>try: ... except RuntimeError as error\<close>.\<close>

definition on_runtime_error :: "('s, 'a) py \<Rightarrow> (string \<Rightarrow> ('s, 'a) py) \<Rightarrow> ('s, 'a) py" where
  "on_runtime_error m h = catchP m (\<lambda>e. case e of RuntimeError t \<Rightarrow> h t | _ \<Rightarrow> raiseP e)"

definition arm_return_scrub :: "'w lldb \<Rightarrow> 'w defense_env \<Rightarrow> thread \<Rightarrow> frame \<Rightarrow> string \<Rightarrow> addr \<Rightarrow> addr \<Rightarrow>
    (('w, 'z) defense_dbg_scheme, unit) py" where
  "arm_return_scrub L D t f kind buf oldlenp =
     (let a = reg_unsigned f ''lr'' in
      if a = 0 then retP ()
      else bindP (on_runtime_error
          (bindP (getP cloak_enabled) (\<lambda>hw. if hw then bindP (create_hardware_at L a) (\<lambda>b. retP (Some (bp_id b)))
             else bindP (onW (de_at D a)) (\<lambda>i. retP (Some i))))
          (\<lambda>m. seqP (critical (m @ ''; restart at entry after reducing hardware sites'')) (retP None))) (\<lambda>b.
        case b of None \<Rightarrow> retP ()
        | Some i \<Rightarrow> seqP (onW (do_bp_thread L i (th_id t)))
            (modP (\<lambda>s. s\<lparr>df_returns := od_set i (kind, buf, oldlenp) (df_returns s),
               df_threads := od_set i (th_id t) (df_threads s)\<rparr>))))"

definition consume_scrub_return :: "'w lldb \<Rightarrow> 'w defense_env \<Rightarrow> int \<Rightarrow> thread \<Rightarrow> string \<times> addr \<times> addr \<Rightarrow>
    (('w, 'z) defense_dbg_scheme, string option) py" where
  "consume_scrub_return L D i t hook =
     bindP (getP (\<lambda>s. (map_of (df_threads s) i, cloak_enabled s))) (\<lambda>(own, on). case own of
       None \<Rightarrow> seqP (if on then seqP (critical ''flag return hook missing thread ownership; cloak failed'') (retP ()) else retP ())
         (retP None)
     | Some owner \<Rightarrow> if th_id t \<noteq> owner then retP None
         else seqP (modP (\<lambda>s. s\<lparr>df_returns := od_pop i (df_returns s), df_threads := od_pop i (df_threads s)\<rparr>))
           (seqP (modP (remember_hardware_return L i))
           (seqP (delete_breakpoint L i)
           (bindP (case hook of (kind, buf, oldlenp) \<Rightarrow> scrub_flag L D kind buf oldlenp) (\<lambda>m.
            retP (Some (case m of None \<Rightarrow> '''' | Some x \<Rightarrow> x)))))))"

definition clear_scrub_returns :: "'w lldb \<Rightarrow> (('w, 'z) defense_dbg_scheme, unit) py" where
  "clear_scrub_returns L =
     bindP (getP (\<lambda>s. (obs_target L (world s), map fst (df_returns s)))) (\<lambda>(target, ids).
     seqP (whenP target (delete_each L ids)) (modP (\<lambda>s. s\<lparr>df_returns := [], df_threads := []\<rparr>)))"

section \<open>Stops at the hooks\<close>

text \<open>The query of one process: \<open>{CTL_KERN, KERN_PROC, KERN_PROC_PID}\<close>.\<close>

definition process_query :: "'w lldb \<Rightarrow> 'w \<Rightarrow> addr \<Rightarrow> bool" where
  "process_query L w mib = (case obs_read L w mib 12 of None \<Rightarrow> False
     | Some d \<Rightarrow> length d = 12 \<and> le_int (take 4 d) = 1 \<and> le_int (take 4 (drop 4 d)) = 14 \<and> le_int (drop 8 d) = 1)"

definition arm_query :: "'w lldb \<Rightarrow> 'w defense_env \<Rightarrow> thread \<Rightarrow> frame \<Rightarrow> int \<Rightarrow> int \<Rightarrow> int \<Rightarrow> int \<Rightarrow> (('w, 'z) defense_dbg_scheme, unit) py" where
  "arm_query L D t f mib namelen oldp oldlenp =
     bindP (getP (\<lambda>s. mib \<noteq> 0 \<and> oldp \<noteq> 0 \<and> 3 \<le> namelen \<and> process_query L (world s) mib)) (\<lambda>ours.
     if ours then arm_return_scrub L D t f ''sysctl'' oldp oldlenp else retP ())"

text \<open>The selected thread and its first frame.\<close>

definition stop_of :: "'w lldb \<Rightarrow> 'w \<Rightarrow> (thread \<times> frame) option" where
  "stop_of L w = (case obs_process L w of None \<Rightarrow> None | Some p \<Rightarrow> (case selected_thread p of None \<Rightarrow> None
     | Some t \<Rightarrow> map_option (Pair t) (th_frame t)))"

definition handle_flag_scrub_hit :: "'w lldb \<Rightarrow> 'w defense_env \<Rightarrow> (('w, 'z) defense_dbg_scheme, unit) py \<Rightarrow> int \<Rightarrow>
    (('w, 'z) defense_dbg_scheme, string option) py" where
  "handle_flag_scrub_hit L D cont i =
     bindP (getP (\<lambda>s. (obs_process L (world s), stop_of L (world s), map_of (df_returns s) i, df_sysctl s, df_csops s)))
       (\<lambda>(proc, here, hook, sysctl, csops). case proc of None \<Rightarrow> retP None
     | Some p \<Rightarrow> (case selected_thread p of None \<Rightarrow> retP None
       | Some t0 \<Rightarrow> (case hook of
           Some h \<Rightarrow> bindP (consume_scrub_return L D i t0 h) (\<lambda>m. seqP (whenP (m \<noteq> None) cont) (retP m))
         | None \<Rightarrow> (case here of None \<Rightarrow> retP None
           | Some (t, f) \<Rightarrow>
               if i = sysctl then seqP (arm_query L D t f (reg_unsigned f ''x0'') (reg_unsigned f ''x1'')
                   (reg_unsigned f ''x2'') (reg_unsigned f ''x3'')) (seqP cont (retP (Some '''')))
               else if i = csops then seqP (if reg_unsigned f ''x2'' \<noteq> 0 \<and> reg_unsigned f ''x1'' = 0
                   then arm_return_scrub L D t f ''csops'' (reg_unsigned f ''x2'') 0 else retP ())
                 (seqP cont (retP (Some '''')))
               else retP None))))"

text \<open>The variadic arguments of \<open>syscall\<close> are on the stack.\<close>

definition syscall_args :: "'w lldb \<Rightarrow> 'w \<Rightarrow> frame \<Rightarrow> nat \<Rightarrow> int list" where
  "syscall_args L w f n = map (\<lambda>i. case read_uint L w (reg_unsigned f ''sp'' + 8 * int i) 8 of None \<Rightarrow> 0 | Some v \<Rightarrow> v) [0..<n]"

definition return_zero :: "'w defense_env \<Rightarrow> (('w, 'z) defense_dbg_scheme, unit) py" where
  "return_zero D = seqP (onW (de_command D ''thread return 0'')) (retP ())"

definition handle_syscall_hit :: "'w lldb \<Rightarrow> 'w defense_env \<Rightarrow> (('w, 'z) defense_dbg_scheme, unit) py \<Rightarrow> int \<Rightarrow>
    (('w, 'z) defense_dbg_scheme, string option) py" where
  "handle_syscall_hit L D cont i =
     bindP (getP (\<lambda>s. (i \<in> set (df_syscalls s), stop_of L (world s), df_ptrace s, df_ptraced s \<or> df_parent s, df_csops s)))
       (\<lambda>(ours, here, ptrace, scrubs, csops). case here of None \<Rightarrow> retP None
     | Some (t, f) \<Rightarrow> if \<not> ours then retP None
       else (let num = reg_unsigned f ''x0'' in
         bindP (getP (\<lambda>s. syscall_args L (world s) f)) (\<lambda>args.
         if num = 26 \<and> ptrace \<noteq> 0 \<and> args 1 ! 0 = 31
         then seqP (return_zero D) (seqP cont (retP (Some ''blocked ptrace(PT_DENY_ATTACH) via syscall()'')))
         else seqP (if num = 202 \<and> scrubs then arm_query L D t f (args 4 ! 0) (args 4 ! 1) (args 4 ! 2) (args 4 ! 3)
             else if num = 169 \<and> csops \<noteq> 0 \<and> args 3 ! 2 \<noteq> 0 \<and> args 3 ! 1 = 0
             then arm_return_scrub L D t f ''csops'' (args 3 ! 2) 0 else retP ())
           (seqP cont (retP (Some ''''))))))"

definition handle_anti_ptrace_hit :: "'w lldb \<Rightarrow> 'w defense_env \<Rightarrow> (('w, 'z) defense_dbg_scheme, unit) py \<Rightarrow> int \<Rightarrow>
    (('w, 'z) defense_dbg_scheme, string option) py" where
  "handle_anti_ptrace_hit L D cont i =
     bindP (getP (\<lambda>s. (i = df_ptrace s, stop_of L (world s)))) (\<lambda>(ours, here). case here of None \<Rightarrow> retP None
     | Some (t, f) \<Rightarrow> if \<not> ours then retP None
       else if reg_unsigned f ''x0'' \<noteq> 31
       then seqP cont (retP (Some (''ptrace(op='' @ py_str (reg_unsigned f ''x0'') @ '') allowed through'')))
       else seqP (return_zero D) (seqP (record_event L ''DEFENSE'' ''blocked PT_DENY_ATTACH''
           [(''defense'', ''deny_attach''), (''original.request'', ''31''), (''replacement.return'', ''0'')])
         (seqP cont (retP (Some (''blocked ptrace(PT_DENY_ATTACH) '' @ [other_char] @ '' returned 0 without syscall''))))))"

definition handle_anti_mach_hit :: "'w lldb \<Rightarrow> 'w defense_env \<Rightarrow> (('w, 'z) defense_dbg_scheme, unit) py \<Rightarrow> int \<Rightarrow>
    (('w, 'z) defense_dbg_scheme, string option) py" where
  "handle_anti_mach_hit L D cont i =
     bindP (getP (\<lambda>s. (i = df_mach s, stop_of L (world s)))) (\<lambda>(ours, here). case here of None \<Rightarrow> retP None
     | Some (t, f) \<Rightarrow> if \<not> ours then retP None
       else seqP (if reg_unsigned f ''x3'' \<noteq> 0 then seqP (onW (de_write D (reg_unsigned f ''x3'') (int_le 4 0))) (retP ()) else retP ())
         (seqP (return_zero D) (seqP cont (retP (Some ''cloaked task_get_exception_ports (returned 0 masks)'')))))"


section \<open>Sessions of switching\<close>

datatype toggle = Own own_hook bool | Scrub scrub bool

fun toggle_step :: "'w lldb \<Rightarrow> 'w defense_env \<Rightarrow> toggle \<Rightarrow> ('w, 'z) defense_dbg_scheme \<Rightarrow> ('w, 'z) defense_dbg_scheme" where
  "toggle_step L D (Own k on) s = snd ((if on then enable_own L D k else disable_own L D k) s)"
| "toggle_step L D (Scrub k on) s = snd ((if on then enable_scrub L D k else disable_scrub L D k) s)"

definition toggles :: "'w lldb \<Rightarrow> 'w defense_env \<Rightarrow> toggle list \<Rightarrow> ('w, 'z) defense_dbg_scheme \<Rightarrow> ('w, 'z) defense_dbg_scheme" where
  "toggles L D ops s = fold (toggle_step L D) ops s"

definition owned :: "('w, 'z) defense_dbg_scheme \<Rightarrow> int list" where
  "owned s = filter (\<lambda>i. i \<noteq> 0) [df_ptrace s, df_csops s, df_mach s, df_sysctl s] @ df_syscalls s"

definition no_defense :: "('w, 'z) defense_dbg_scheme \<Rightarrow> bool" where
  "no_defense s = (df_ptrace s = 0 \<and> df_csops s = 0 \<and> df_mach s = 0 \<and> \<not> df_ptraced s \<and> \<not> df_parent s)"

definition defenses_off :: "('w, 'z) defense_dbg_scheme \<Rightarrow> bool" where
  "defenses_off s = (no_defense s \<and> df_sysctl s = 0 \<and> df_syscalls s = [])"

text \<open>
  What LLDB promises of creating by name: a new breakpoint under an identifier of its own, or
  none; creating and deleting leave the target valid.
\<close>

definition by_name_law :: "'w lldb \<Rightarrow> 'w defense_env \<Rightarrow> bool" where
  "by_name_law L D = (\<forall>n m w. case de_by_name D n m w of (r, w') \<Rightarrow> obs_target L w' = obs_target L w \<and>
     (case r of None \<Rightarrow> obs_breakpoints L w' = obs_breakpoints L w
      | Some i \<Rightarrow> i \<noteq> 0 \<and> i \<notin> set (bp_ids L w) \<and> (\<exists>b. bp_id b = i \<and> obs_breakpoints L w' = obs_breakpoints L w @ [b])))"

definition target_law :: "'w lldb \<Rightarrow> bool" where
  "target_law L = (\<forall>i w. obs_target L (snd (do_bp_delete L i w)) = obs_target L w)"

text \<open>The breakpoints of the target are the given ones and others with the given identifiers.\<close>

definition holds :: "'w lldb \<Rightarrow> breakpoint list \<Rightarrow> int set \<Rightarrow> 'w \<Rightarrow> bool" where
  "holds L base I w = (obs_target L w \<and> I \<inter> bp_id ` set base = {} \<and>
     (\<exists>new. obs_breakpoints L w = base @ new \<and> bp_id ` set new = I))"

lemma holds_create:
  assumes "by_name_law L D" "holds L base I w"
  shows "case de_by_name D n m w of (r, w') \<Rightarrow> (case r of None \<Rightarrow> holds L base I w'
    | Some i \<Rightarrow> i \<noteq> 0 \<and> i \<notin> I \<and> holds L base (insert i I) w')"
proof -
  obtain r w' where c: "de_by_name D n m w = (r, w')" by fastforce
  have l: "obs_target L w' = obs_target L w" "case r of None \<Rightarrow> obs_breakpoints L w' = obs_breakpoints L w
      | Some i \<Rightarrow> i \<noteq> 0 \<and> i \<notin> set (bp_ids L w) \<and> (\<exists>b. bp_id b = i \<and> obs_breakpoints L w' = obs_breakpoints L w @ [b])"
    using assms(1) c unfolding by_name_law_def by (metis (mono_tags, lifting) case_prod_conv)+
  then show ?thesis using assms(2) c by (cases r) (auto simp: holds_def bp_ids_def)
qed

lemma holds_delete:
  assumes "bp_delete_law L" "target_law L" "holds L base I w" "i \<notin> bp_id ` set base"
  shows "holds L base (I - {i}) (snd (do_bp_delete L i w))"
proof -
  obtain new where new: "obs_breakpoints L w = base @ new" "bp_id ` set new = I" using assms(3) by (auto simp: holds_def)
  have "filter (\<lambda>b. bp_id b \<noteq> i) base = base" using assms(4) by (intro filter_True) auto
  then have "obs_breakpoints L (snd (do_bp_delete L i w)) = base @ filter (\<lambda>b. bp_id b \<noteq> i) new"
    using bp_delete_lawD(1)[OF assms(1)] new by simp
  moreover have "bp_id ` set (filter (\<lambda>b. bp_id b \<noteq> i) new) = I - {i}" using new(2) by auto
  ultimately show ?thesis using assms(2,3) by (auto simp: holds_def target_law_def)
qed

definition hooks_held :: "'w lldb \<Rightarrow> breakpoint list \<Rightarrow> ('w, 'z) defense_dbg_scheme \<Rightarrow> bool" where
  "hooks_held L base s = (holds L base (set (owned s)) (world s) \<and> distinct (owned s) \<and> 0 \<notin> set (df_syscalls s) \<and>
     (df_ptraced s \<or> df_parent s) = (df_sysctl s \<noteq> 0))"

definition defense_inv :: "'w lldb \<Rightarrow> breakpoint list \<Rightarrow> ('w, 'z) defense_dbg_scheme \<Rightarrow> bool" where
  "defense_inv L base s = (hooks_held L base s \<and> (df_syscalls s \<noteq> [] \<longrightarrow> syscall_wanted s))"

lemma wp_by_name:
  assumes "by_name_law L D" "holds L base I (world s)"
    and "\<And>w. holds L base I w \<Longrightarrow> Q None (s\<lparr>world := w\<rparr>)"
    and "\<And>i w. i \<noteq> 0 \<Longrightarrow> i \<notin> I \<Longrightarrow> holds L base (insert i I) w \<Longrightarrow> Q (Some i) (s\<lparr>world := w\<rparr>)"
  shows "wpP (onW (de_by_name D n m)) Q E s"
  using holds_create[OF assms(1,2), of n m] assms(3,4) by (auto simp: wp split: prod.splits option.splits)

lemma wp_delete_owned:
  assumes "bp_delete_law L" "target_law L" "holds L base I (world s)" "i \<notin> bp_id ` set base"
    and "\<And>w h. holds L base (I - {i}) w \<Longrightarrow> Q d (s\<lparr>world := w, hardware_ids := h\<rparr>)"
  shows "wpP (delete_breakpoint L i) (\<lambda>_. Q d) E s"
  using holds_delete[OF assms(1-4)] assms(5) by (simp add: wp split_beta Let_def)

lemma delete_each_Nil: "delete_each L [] = retP ()"
  and delete_each_Cons: "delete_each L (i # ids) = seqP (seqP (delete_breakpoint L i) (retP ())) (delete_each L ids)"
  by (simp_all add: delete_each_def)

lemma wp_delete_each:
  fixes s :: "('w, 'z) defense_dbg_scheme"
  assumes "bp_delete_law L" "target_law L" "holds L base I (world s)" "set ids \<inter> bp_id ` set base = {}"
    and "\<And>w h. holds L base (I - set ids) w \<Longrightarrow> Q () (s\<lparr>world := w, hardware_ids := h\<rparr>)"
  shows "wpP (delete_each L ids) Q E s"
  using assms(3-5)
proof (induction ids arbitrary: s I)
  case Nil
  have "Q () (s\<lparr>world := world s, hardware_ids := hardware_ids s\<rparr>)"
    by (rule Nil.prems(3)) (use Nil.prems(1) in simp)
  then show ?case by (simp add: delete_each_Nil wp)
next
  case (Cons i ids)
  have i: "i \<notin> bp_id ` set base" and ids: "set ids \<inter> bp_id ` set base = {}" using Cons.prems(2) by auto
  have rest: "wpP (delete_each L ids) Q E (s\<lparr>world := w, hardware_ids := h\<rparr>)" if w: "holds L base (I - {i}) w" for w h
  proof (rule Cons.IH)
    show "holds L base (I - {i}) (world (s\<lparr>world := w, hardware_ids := h\<rparr>))" using w by simp
    fix w' h' assume "holds L base (I - {i} - set ids) w'"
    then have "holds L base (I - set (i # ids)) w'" unfolding list.set(2) by (subst Diff_insert2)
    then have "Q () (s\<lparr>world := w', hardware_ids := h'\<rparr>)" by (rule Cons.prems(3))
    then show "Q () (s\<lparr>world := w, hardware_ids := h, world := w', hardware_ids := h'\<rparr>)" by simp
  qed (rule ids)
  have "wpP (delete_breakpoint L i) (\<lambda>_. wpP (delete_each L ids) Q E) E s"
    by (rule wp_delete_owned[OF assms(1,2) Cons.prems(1) i, where d = "()" and Q = "\<lambda>_. wpP (delete_each L ids) Q E"])
      (rule rest)
  then show ?case unfolding delete_each_Cons wpP_bind wpP_simps .
qed

lemma syscall_wanted_simps [simp]:
  "syscall_wanted (s\<lparr>world := w\<rparr>) = syscall_wanted s" "syscall_wanted (s\<lparr>hardware_ids := h\<rparr>) = syscall_wanted s"
  "syscall_wanted (s\<lparr>df_syscalls := l\<rparr>) = syscall_wanted s"
  by (simp_all add: syscall_wanted_def)

lemma wp_create_syscall:
  fixes s :: "('w, 'z) defense_dbg_scheme"
  assumes "by_name_law L D" "holds L base I (world s)"
    and "\<And>w ids'. set ids' \<inter> I = {} \<Longrightarrow> distinct ids' \<Longrightarrow> 0 \<notin> set ids' \<Longrightarrow> holds L base (I \<union> set ids') w \<Longrightarrow>
       Q (ids @ ids') (s\<lparr>world := w\<rparr>)"
  shows "wpP (create_syscall D name ids) Q E s"
proof -
  have one: "Q (ids @ [i]) (s\<lparr>world := w\<rparr>)" if "i \<noteq> 0" "i \<notin> I" "holds L base (insert i I) w" for i w
    using assms(3)[of "[i]" w] that by simp
  have none: "Q ids (s\<lparr>world := w\<rparr>)" if "holds L base I w" for w using assms(3)[of "[]" w] that by simp
  show ?thesis unfolding create_syscall_def wpP_bind(1)
  proof (rule wp_by_name[OF assms(1,2)])
    fix w assume w: "holds L base I w"
    show "wpP (case None of None \<Rightarrow> onW (de_by_name D name None) | Some i \<Rightarrow> retP (Some i))
       (\<lambda>b. wpP (retP (case b of None \<Rightarrow> ids | Some i \<Rightarrow> ids @ [i])) Q E) E (s\<lparr>world := w\<rparr>)"
      unfolding option.case wpP_simps(1)
      by (rule wp_by_name[OF assms(1), where I = I]) (use w one none in auto)
  qed (use one in \<open>auto simp: wp\<close>)
qed

lemma wp_sync:
  fixes s :: "('w, 'z) defense_dbg_scheme"
  assumes laws: "bp_delete_law L" "target_law L" "by_name_law L D" and J: "hooks_held L base s"
  shows "wpP (sync_syscall_bp L D) (\<lambda>_. defense_inv L base) (\<lambda>_ _. False) s"
proof -
  have t: "obs_target L (world s)" and h: "holds L base (set (owned s)) (world s)" using J by (auto simp: hooks_held_def holds_def)
  consider "syscall_wanted s" "df_syscalls s = []" | "\<not> syscall_wanted s" "df_syscalls s \<noteq> []"
    | "syscall_wanted s = (df_syscalls s \<noteq> [])" by blast
  then show ?thesis
  proof cases
    case 1
    let ?Q = "\<lambda>new t. defense_inv L base (t\<lparr>df_syscalls := new\<rparr>)"
    have fin: "defense_inv L base (s\<lparr>world := w, df_syscalls := ids\<rparr>)"
      if "set ids \<inter> set (owned s) = {}" "distinct ids" "0 \<notin> set ids" "holds L base (set (owned s) \<union> set ids) w" for ids w
      using that J 1 by (auto simp: defense_inv_def hooks_held_def owned_def holds_def)
    have "wpP (create_syscall D ''syscall'' []) (\<lambda>ids. wpP (create_syscall D ''__syscall'' ids) ?Q (\<lambda>_ _. False)) (\<lambda>_ _. False) s"
    proof (rule wp_create_syscall[OF laws(3) h])
      fix w ids assume a: "set ids \<inter> set (owned s) = {}" "distinct ids" "0 \<notin> set ids" "holds L base (set (owned s) \<union> set ids) w"
      show "wpP (create_syscall D ''__syscall'' ([] @ ids)) ?Q (\<lambda>_ _. False) (s\<lparr>world := w\<rparr>)"
      proof (rule wp_create_syscall[OF laws(3), where I = "set (owned s) \<union> set ids"])
        fix w' ids' assume b: "set ids' \<inter> (set (owned s) \<union> set ids) = {}" "distinct ids'" "0 \<notin> set ids'"
          "holds L base (set (owned s) \<union> set ids \<union> set ids') w'"
        then have "defense_inv L base (s\<lparr>world := w', df_syscalls := ids @ ids'\<rparr>)"
          using a by (intro fin) (auto simp: Un_assoc)
        then show "?Q (([] @ ids) @ ids') (s\<lparr>world := w, world := w'\<rparr>)" by simp
      qed (use a in simp)
    qed
    then show ?thesis using 1 t by (simp add: sync_syscall_bp_def wp)
  next
    case 2
    have "wpP (delete_each L (df_syscalls s)) (\<lambda>_ t. defense_inv L base (t\<lparr>df_syscalls := []\<rparr>)) (\<lambda>_ _. False) s"
    proof (rule wp_delete_each[OF laws(1,2) h])
      show "set (df_syscalls s) \<inter> bp_id ` set base = {}" using h by (auto simp: holds_def owned_def)
      fix w hw assume w: "holds L base (set (owned s) - set (df_syscalls s)) w"
      let ?n = "filter (\<lambda>i. i \<noteq> 0) [df_ptrace s, df_csops s, df_mach s, df_sysctl s]"
      have "distinct (?n @ df_syscalls s)" using J by (simp only: hooks_held_def owned_def)
      then have "set (owned s) - set (df_syscalls s) = set ?n" unfolding owned_def by auto
      then show "defense_inv L base (s\<lparr>world := w, hardware_ids := hw, df_syscalls := []\<rparr>)"
        using w J by (auto simp: defense_inv_def hooks_held_def owned_def)
    qed
    then show ?thesis using 2 t by (simp add: sync_syscall_bp_def wp)
  next
    case 3
    then show ?thesis using J t by (simp add: sync_syscall_bp_def wp defense_inv_def)
  qed
qed

lemma hook_set_simps [simp]:
  "world (set_hook k i s) = world s" "hook_id k (set_hook k i s) = i" "world (set_scrub j b s) = world s"
  "df_sysctl (set_scrub j b s) = df_sysctl s" "df_syscalls (set_hook k i s) = df_syscalls s"
  "df_syscalls (set_scrub j b s) = df_syscalls s" "owned (set_scrub j b s) = owned s"
  "df_sysctl (set_hook k i s) = df_sysctl s" "df_ptraced (set_hook k i s) = df_ptraced s" "df_parent (set_hook k i s) = df_parent s"
  by (cases k; cases j; simp add: owned_def)+

lemma owned_set_hook:
  "hook_id k s = 0 \<Longrightarrow> i \<noteq> 0 \<Longrightarrow> set (owned (set_hook k i s)) = insert i (set (owned s)) \<and>
     (i \<notin> set (owned s) \<longrightarrow> distinct (owned s) \<longrightarrow> distinct (owned (set_hook k i s)))"
  by (cases k) (auto simp: owned_def)

lemma owned_clear_hook:
  "hook_id k s \<noteq> 0 \<Longrightarrow> distinct (owned s) \<Longrightarrow> set (owned (set_hook k 0 s)) = set (owned s) - {hook_id k s} \<and>
     distinct (owned (set_hook k 0 s))"
  by (cases k) (auto simp: owned_def split: if_splits)

lemma owned_frame [simp]:
  "owned (s\<lparr>world := w\<rparr>) = owned s" "owned (s\<lparr>hardware_ids := h\<rparr>) = owned s"
  "owned (s\<lparr>world := w, df_mach := i\<rparr>) = owned (s\<lparr>df_mach := i\<rparr>)"
  "owned (s\<lparr>world := w, hardware_ids := h, df_mach := i\<rparr>) = owned (s\<lparr>df_mach := i\<rparr>)"
  by (simp_all add: owned_def)

lemma hook_id_frame [simp]:
  "hook_id k (s\<lparr>world := w\<rparr>) = hook_id k s" "hook_id k (s\<lparr>hardware_ids := h\<rparr>) = hook_id k s"
  by (cases k; simp)+

lemma set_hook_frame:
  "set_hook k i (s\<lparr>world := w, hardware_ids := h\<rparr>) = (set_hook k i s)\<lparr>world := w, hardware_ids := h\<rparr>"
  "set_hook k i (s\<lparr>world := w\<rparr>) = (set_hook k i s)\<lparr>world := w\<rparr>"
  by (cases k; simp)+

lemma hook_own: "hook_id k s \<noteq> 0 \<Longrightarrow> hook_id k s \<in> set (owned s)"
  by (cases k) (auto simp: owned_def)

lemma inv_world:
  "defense_inv L base s \<Longrightarrow> holds L base (set (owned s)) w \<Longrightarrow> defense_inv L base (s\<lparr>world := w\<rparr>)"
  by (auto simp: defense_inv_def hooks_held_def)

lemma wp_enable_own:
  fixes s :: "('w, 'z) defense_dbg_scheme"
  assumes laws: "bp_delete_law L" "target_law L" "by_name_law L D" and inv: "defense_inv L base s"
  shows "wpP (enable_own L D k) (\<lambda>_. defense_inv L base) (\<lambda>_ _. False) s"
proof (cases "hook_id k s = 0")
  case True
  have J: "hooks_held L base s" and h: "holds L base (set (owned s)) (world s)" using inv by (auto simp: defense_inv_def hooks_held_def)
  have t: "obs_target L (world s)" using h by (simp add: holds_def)
  have new: "hooks_held L base (set_hook k i (s\<lparr>world := w\<rparr>))" and mach: "k = MachPorts \<Longrightarrow> defense_inv L base (s\<lparr>world := w, df_mach := i\<rparr>)"
    if "i \<noteq> 0" "i \<notin> set (owned s)" "holds L base (insert i (set (owned s))) w" for i w
    using that J inv owned_set_hook[OF True that(1)]
    by (auto simp: hooks_held_def set_hook_frame defense_inv_def syscall_wanted_def)
  show ?thesis unfolding enable_own_def wpP_bind wpP_simps using True t
    by (auto intro!: wp_by_name[OF laws(3) h] inv_world[OF inv] mach wp_sync[OF laws new] simp: wpP_bind wpP_simps inv)
next
  case False
  then show ?thesis using inv by (simp add: enable_own_def wp)
qed

lemma wp_disable_own:
  fixes s :: "('w, 'z) defense_dbg_scheme"
  assumes laws: "bp_delete_law L" "target_law L" "by_name_law L D" and inv: "defense_inv L base s"
  shows "wpP (disable_own L D k) (\<lambda>_. defense_inv L base) (\<lambda>_ _. False) s"
proof (cases "hook_id k s = 0")
  case False
  have J: "hooks_held L base s" and h: "holds L base (set (owned s)) (world s)" using inv by (auto simp: defense_inv_def hooks_held_def)
  have t: "obs_target L (world s)" using h by (simp add: holds_def)
  have i: "hook_id k s \<notin> bp_id ` set base" using hook_own[OF False] h by (auto simp: holds_def)
  have J': "hooks_held L base (set_hook k 0 (s\<lparr>world := w, hardware_ids := hw\<rparr>))"
    and mach: "k = MachPorts \<Longrightarrow> defense_inv L base (s\<lparr>world := w, hardware_ids := hw, df_mach := 0\<rparr>)"
    if "holds L base (set (owned s) - {hook_id k s}) w" for w hw
    using that J inv owned_clear_hook[OF False]
    by (auto simp: hooks_held_def set_hook_frame defense_inv_def syscall_wanted_def)
  have "wpP (delete_breakpoint L (hook_id k s)) (\<lambda>_. wpP (modP (set_hook k 0)) (\<lambda>_. wpP (if k = MachPorts then retP () else sync_syscall_bp L D)
      (\<lambda>_. defense_inv L base) (\<lambda>_ _. False)) (\<lambda>_ _. False)) (\<lambda>_ _. False) s"
    by (rule wp_delete_owned[OF laws(1,2) h i, where d = "()" and Q = "\<lambda>_. _"])
      (auto simp: wpP_simps intro!: mach wp_sync[OF laws J'])
  then show ?thesis using False t by (simp add: disable_own_def wpP_bind wpP_simps)
next
  case True
  then show ?thesis using inv by (simp add: disable_own_def wp)
qed

lemma wp_enable_scrub:
  fixes s :: "('w, 'z) defense_dbg_scheme"
  assumes laws: "bp_delete_law L" "target_law L" "by_name_law L D" and inv: "defense_inv L base s"
  shows "wpP (enable_scrub L D k) (\<lambda>_. defense_inv L base) (\<lambda>_ _. False) s"
proof -
  have J: "hooks_held L base s" and h: "holds L base (set (owned s)) (world s)" using inv by (auto simp: defense_inv_def hooks_held_def)
  have t: "obs_target L (world s)" using h by (simp add: holds_def)
  let ?on = "set_scrub k True s"
  have h': "holds L base (set (owned ?on)) (world ?on)" using h by simp
  show ?thesis
  proof (cases "df_sysctl s = 0")
    case False
    have "hooks_held L base ?on" using J False by (cases k) (auto simp: hooks_held_def owned_def)
    then show ?thesis using False t
      by (auto simp: enable_scrub_def ensure_sysctl_bp_def wpP_bind wpP_simps intro!: wp_sync[OF laws])
  next
    case True
    then have off: "\<not> df_ptraced s" "\<not> df_parent s" using J by (auto simp: hooks_held_def)
    have new: "hooks_held L base (?on\<lparr>world := w, df_sysctl := i\<rparr>)"
      if "i \<noteq> 0" "i \<notin> set (owned s)" "holds L base (insert i (set (owned s))) w" for i w
    proof -
      have "set (owned (?on\<lparr>world := w, df_sysctl := i\<rparr>)) = insert i (set (owned s))"
        using True that(1) by (cases k) (auto simp: owned_def)
      moreover have "distinct (owned (?on\<lparr>world := w, df_sysctl := i\<rparr>))"
        using True that(1,2) J by (cases k) (auto simp: owned_def hooks_held_def)
      moreover have "df_ptraced ?on \<or> df_parent ?on" by (cases k) simp_all
      ultimately show ?thesis using that J by (simp add: hooks_held_def)
    qed
    have old: "defense_inv L base (set_scrub k False (?on\<lparr>world := w\<rparr>))" if "holds L base (set (owned s)) w" for w
    proof -
      have "set_scrub k False (?on\<lparr>world := w\<rparr>) = s\<lparr>world := w\<rparr>" using off by (cases k) simp_all
      then show ?thesis using inv_world[OF inv that] by simp
    qed
    have ens: "wpP (ensure_sysctl_bp D) (\<lambda>(ok, why). wpP (if \<not> ok then seqP (modP (set_scrub k False)) (retP (False, why))
        else seqP (sync_syscall_bp L D) (retP (True, scrub_text k True))) (\<lambda>_. defense_inv L base) (\<lambda>_ _. False)) (\<lambda>_ _. False) ?on"
      using True by (auto simp: ensure_sysctl_bp_def wpP_bind wpP_simps old new
        intro!: wp_by_name[OF laws(3) h'] wp_sync[OF laws new])
    then show ?thesis using t by (simp add: enable_scrub_def wpP_bind wpP_simps case_prod_unfold)
  qed
qed

lemma wp_disable_scrub:
  fixes s :: "('w, 'z) defense_dbg_scheme"
  assumes laws: "bp_delete_law L" "target_law L" "by_name_law L D" and inv: "defense_inv L base s"
  shows "wpP (disable_scrub L D k) (\<lambda>_. defense_inv L base) (\<lambda>_ _. False) s"
proof -
  have J: "hooks_held L base s" and h: "holds L base (set (owned s)) (world s)" using inv by (auto simp: defense_inv_def hooks_held_def)
  have t: "obs_target L (world s)" using h by (simp add: holds_def)
  let ?off = "set_scrub k False s"
  have h': "holds L base (set (owned ?off)) (world ?off)" using h by simp
  show ?thesis
  proof (cases "\<not> df_ptraced ?off \<and> \<not> df_parent ?off \<and> df_sysctl s \<noteq> 0")
    case False
    have "hooks_held L base ?off" using J False by (cases k) (auto simp: hooks_held_def owned_def)
    then show ?thesis using False t
      by (auto simp: disable_scrub_def maybe_release_sysctl_bp_def wpP_bind wpP_simps intro!: wp_sync[OF laws])
  next
    case True
    have i: "df_sysctl s \<notin> bp_id ` set base" using h True by (auto simp: holds_def owned_def)
    have J': "hooks_held L base (?off\<lparr>world := w, hardware_ids := hw, df_sysctl := 0\<rparr>)"
      if "holds L base (set (owned s) - {df_sysctl s}) w" for w hw
    proof -
      have d: "distinct (owned s)" using J by (simp add: hooks_held_def)
      then have "set (owned s) - {df_sysctl s} = set (owned (s\<lparr>df_sysctl := 0\<rparr>))" "distinct (owned (s\<lparr>df_sysctl := 0\<rparr>))"
        using True by (auto simp: owned_def split: if_splits)
      then show ?thesis using that J True by (cases k) (auto simp: hooks_held_def owned_def)
    qed
    have "wpP (delete_breakpoint L (df_sysctl s)) (\<lambda>_. wpP (modP (\<lambda>s. s\<lparr>df_sysctl := 0\<rparr>)) (\<lambda>_. wpP (sync_syscall_bp L D)
        (\<lambda>_. defense_inv L base) (\<lambda>_ _. False)) (\<lambda>_ _. False)) (\<lambda>_ _. False) ?off"
      by (rule wp_delete_owned[OF laws(1,2) h', where d = "()" and Q = "\<lambda>_. _"])
        (use i in \<open>auto simp: wpP_simps intro!: wp_sync[OF laws J']\<close>)
    then show ?thesis using True t by (simp add: disable_scrub_def maybe_release_sysctl_bp_def wpP_bind wpP_simps)
  qed
qed

lemma toggle_step_inv:
  fixes s :: "('w, 'z) defense_dbg_scheme"
  assumes "bp_delete_law L" "target_law L" "by_name_law L D" "defense_inv L base s"
  shows "defense_inv L base (toggle_step L D x s)"
proof -
  have use: "defense_inv L base (snd (m s))" if "wpP m (\<lambda>_. defense_inv L base) (\<lambda>_ _. False) s"
    for m :: "(('w, 'z) defense_dbg_scheme, bool \<times> string) py"
    using that by (cases "m s"; cases "fst (m s)") (auto simp: wpP_def)
  show ?thesis
    by (cases x) (auto intro!: use wp_enable_own wp_disable_own wp_enable_scrub wp_disable_scrub assms)
qed

lemma toggles_inv:
  fixes d :: "('w, 'z) defense_dbg_scheme"
  assumes "bp_delete_law L" "target_law L" "by_name_law L D" "obs_target L (world d)" "defenses_off d"
  shows "defense_inv L (obs_breakpoints L (world d)) (toggles L D ops d)"
proof -
  let ?base = "obs_breakpoints L (world d)"
  have "defense_inv L ?base s \<Longrightarrow> defense_inv L ?base (fold (toggle_step L D) ops s)" for s :: "('w, 'z) defense_dbg_scheme"
    by (induction ops arbitrary: s) (simp_all add: toggle_step_inv[OF assms(1-3)])
  moreover have "defense_inv L ?base d"
    using assms(4,5) by (simp add: defense_inv_def hooks_held_def defenses_off_def no_defense_def owned_def holds_def)
  ultimately show ?thesis unfolding toggles_def .
qed

text \<open>
  C23. Defenses never leak hooks: after any sequence of switching single defenses on and off, the target's
  breakpoints are those it had before, in their order, followed by exactly the hooks the defenses
  own; the hooks on the \<open>syscall\<close> wrappers exist only while a defense wants them; and once every
  defense is off, the target has its old breakpoints and no others.
\<close>
theorem defenses_do_not_leak:
  fixes d :: "('w, 'z) defense_dbg_scheme"
  assumes "bp_delete_law L" "target_law L" "by_name_law L D" "obs_target L (world d)" "defenses_off d"
  shows "let s = toggles L D ops d in
    (\<exists>new. obs_breakpoints L (world s) = obs_breakpoints L (world d) @ new \<and> bp_id ` set new = set (owned s)) \<and>
    set (owned s) \<inter> set (bp_ids L (world d)) = {} \<and> distinct (owned s) \<and>
    (df_syscalls s \<noteq> [] \<longrightarrow> syscall_wanted s) \<and>
    (no_defense s \<longrightarrow> obs_breakpoints L (world s) = obs_breakpoints L (world d))"
proof -
  let ?base = "obs_breakpoints L (world d)"
  have inv: "defense_inv L ?base (toggles L D ops d)" by (rule toggles_inv[OF assms])
  then have "owned (toggles L D ops d) = []" if "no_defense (toggles L D ops d)"
    using that by (auto simp: defense_inv_def hooks_held_def no_defense_def owned_def syscall_wanted_def)
  then show ?thesis using inv
    by (auto simp: Let_def defense_inv_def hooks_held_def holds_def bp_ids_def)
qed

definition demo_defense :: "demo_world defense_env" where
  "demo_defense = \<lparr>de_by_name = (\<lambda>n m w. if n = ''__syscall'' then (None, w)
       else let i = fresh_id (dw_bps w) in (Some i, w\<lparr>dw_bps := dw_bps w @ [demo_bp i 0]\<rparr>)),
     de_at = (\<lambda>a w. (fresh_id (dw_bps w), w\<lparr>dw_bps := dw_bps w @ [demo_bp (fresh_id (dw_bps w)) a]\<rparr>)),
     de_write = (\<lambda>a bs w. case do_write demo_lldb a bs w of (n, w') \<Rightarrow> ((True, n), w')),
     de_command = (\<lambda>c w. ((True, [], []), w\<lparr>dw_log := dw_log w @ [c]\<rparr>))\<rparr>"

definition demo_defenses :: "demo_world \<Rightarrow> demo_world defense_dbg" where
  "demo_defenses w = dbg.extend (demo_dbg w) \<lparr>df_ptrace = 0, df_csops = 0, df_mach = 0, df_sysctl = 0,
     df_ptraced = False, df_parent = False, df_syscalls = [], df_returns = [], df_threads = [], df_error = None\<rparr>"

lemma demo_defense_laws: "target_law demo_lldb" "by_name_law demo_lldb demo_defense"
proof -
  show "target_law demo_lldb" by (simp add: target_law_def demo_lldb_def)
  have "bp_id (demo_bp i a) = i" for i a by (simp add: demo_bp_def)
  moreover have "fresh_id bs \<noteq> 0" for bs
  proof -
    have "0 \<le> foldr max (map bp_id bs) 0" by (induction bs) auto
    then show ?thesis by (simp add: fresh_id_def)
  qed
  ultimately show "by_name_law demo_lldb demo_defense"
    by (auto simp: by_name_law_def demo_defense_def demo_lldb_def Let_def fresh_id_fresh bp_ids_def)
qed

lemma defenses_do_not_leak_witness:
  "obs_breakpoints demo_lldb (world (toggles demo_lldb demo_defense
     [Own Ptrace True, Scrub Parent True, Own Ptrace False, Scrub Ptraced True, Scrub Parent False, Scrub Ptraced False]
     (demo_defenses (demo_world\<lparr>dw_bps := [demo_bp 1 4096]\<rparr>)))) = [demo_bp 1 4096]"
proof -
  let ?d = "demo_defenses (demo_world\<lparr>dw_bps := [demo_bp 1 4096]\<rparr>)"
  let ?ops = "[Own Ptrace True, Scrub Parent True, Own Ptrace False, Scrub Ptraced True, Scrub Parent False, Scrub Ptraced False]"
  have d: "obs_target demo_lldb (world ?d)" "defenses_off ?d" "no_defense (toggles demo_lldb demo_defense ?ops ?d)"
    "obs_breakpoints demo_lldb (world ?d) = [demo_bp 1 4096]"
    by code_simp+
  show ?thesis
    using defenses_do_not_leak[OF demo_laws(1) demo_defense_laws d(1,2), of ?ops] d(3,4) by (simp add: Let_def)
qed

end
