(* ===== verification/Cloak.thy ===== *)
theory Cloak
  imports Defenses JsonRead
begin

text \<open>
  \<open>AnalysisCloak\<close> of \<open>macdbg/core/anti_analysis.py\<close>: the identity it presents, switching it on and
  off with the defenses it borrows, and the checks before the target may run. \<open>cloak_enabled\<close> is
  its \<open>enabled\<close>, \<open>df_error\<close> its \<open>last_error\<close>; sets are lists without repetition.
\<close>

record identity =
  id_mode :: string
  id_model :: string
  id_cpu :: string
  id_uuid :: string
  id_serial :: string

text \<open>What a return hook waits for: a parent's path, a system value, the name of a loaded image.\<close>

datatype ck_hook = ParentHook addr int | SysctlHook string string addr addr int | ImageHook

record 'w cloak_dbg = "'w defense_dbg" +
  ck_bps :: "int list"
  ck_entry :: "(int, string) odict"
  ck_returns :: "(int, ck_hook) odict"
  ck_owners :: "(int, int) odict"
  ck_cf :: "(string, addr) odict"
  ck_cs :: "(string, addr) odict"
  ck_owned :: "scrub list"
  ck_owned_ids :: "(scrub, int list) odict"
  ck_target :: "int option"
  ck_required :: "(int, string) odict"
  ck_profile :: identity
  ck_interpose :: bool
  ck_pending :: "string option"
  ck_patches :: "(addr \<times> bytes) list"

text \<open>Where the executable's \<open>__TEXT,__text\<close> is: no module, no section, or a range.\<close>

datatype text_section = NoModule | NoSection | TextAt addr int

text \<open>
  The identity of the target, the file names of its modules, whether it stands at its entry point,
  its text section; C strings, pointer size and the thread's \<open>tsd_address\<close>.
\<close>

record 'w cloak_env =
  ce_target :: "'w \<Rightarrow> int option"
  ce_modules :: "'w \<Rightarrow> string list"
  ce_at_entry :: "'w \<Rightarrow> bool"
  ce_text :: "'w \<Rightarrow> text_section"
  ce_cstring :: "'w \<Rightarrow> addr \<Rightarrow> nat \<Rightarrow> int list option"
  ce_wide :: "'w \<Rightarrow> bool"
  ce_tsd :: "'w \<Rightarrow> int \<Rightarrow> string option"

section \<open>The identity\<close>

definition PLATFORM_UUID :: string where "PLATFORM_UUID = ''8D4C7A12-3F65-4B90-A2DE-61C8E5079F34''"

definition DEFAULT_IDENTITY :: identity where
  "DEFAULT_IDENTITY = \<lparr>id_mode = ''spoof'', id_model = ''Mac14,6'', id_cpu = ''Apple M2 Pro'',
     id_uuid = PLATFORM_UUID, id_serial = ''C02ZQ0ABC123''\<rparr>"

definition identity_json :: "identity \<Rightarrow> (string \<times> json) list" where
  "identity_json p = [(''mode'', JStr (id_mode p)), (''model'', JStr (id_model p)), (''cpu'', JStr (id_cpu p)),
     (''uuid'', JStr (id_uuid p)), (''serial'', JStr (id_serial p))]"

text \<open>\<open>str(uuid.UUID(text)).upper()\<close>.\<close>

fun drop_all :: "string \<Rightarrow> string \<Rightarrow> string" where
  "drop_all n [] = []"
| "drop_all n (c # s) = (if n \<noteq> [] \<and> starts_with (c # s) n then drop_all n (drop (length n - 1) s) else c # drop_all n s)"

definition upper_char :: "char \<Rightarrow> char" where
  "upper_char c = (if is_lower c then val_byte (byte_val c - 32) else c)"

definition pad_left :: "nat \<Rightarrow> string \<Rightarrow> string" where
  "pad_left n s = replicate (n - length s) CHR ''0'' @ s"

definition canonical_uuid :: "string \<Rightarrow> string res" where
  "canonical_uuid t =
     (let h = filter (\<lambda>c. c \<noteq> CHR ''-'') (strip_by (\<lambda>c. c \<in> {CHR ''{'', CHR ''}''}) (drop_all ''uuid:'' (drop_all ''urn:'' t))) in
      if length h \<noteq> 32 then Inl (ValueError ''badly formed hexadecimal UUID string'')
      else case py_int 16 h of None \<Rightarrow> Inl (ValueError h)
      | Some v \<Rightarrow> if v < 0 then Inl (ValueError ''int is out of range (need a 128-bit value)'')
          else let d = pad_left 32 (map upper_char (nat_hex (nat v))) in
            Inr (take 8 d @ ''-'' @ slice 8 12 d @ ''-'' @ slice 12 16 d @ ''-'' @ slice 16 20 d @ ''-'' @ drop 20 d))"

definition identity_field :: "(string \<times> json) list \<Rightarrow> string \<Rightarrow> string res" where
  "identity_field d k = (case map_of d k of
     Some (JStr t) \<Rightarrow> if 1 \<le> length t \<and> length t \<le> 128 \<and> val_byte 0 \<notin> set t then Inr t
       else Inl (ValueError (''invalid identity field '' @ k))
   | _ \<Rightarrow> Inl (ValueError (''invalid identity field '' @ k)))"

definition new_identity :: "identity \<Rightarrow> json \<Rightarrow> identity res" where
  "new_identity old values = (case values of
     JObj d \<Rightarrow> if \<not> set (map fst d) \<subseteq> set (map fst (identity_json old)) then Inl (ValueError ''unknown identity profile fields'')
       else (let p = foldl (\<lambda>acc (k, v). od_set k v acc) (identity_json old) d in
         case map_of p ''mode'' of
           Some (JStr mode) \<Rightarrow> if mode \<notin> {''preserve'', ''spoof''} then Inl (ValueError ''identity mode must be preserve or spoof'')
             else bindR (identity_field p ''model'') (\<lambda>model. bindR (identity_field p ''cpu'') (\<lambda>cpu.
               bindR (identity_field p ''serial'') (\<lambda>serial. bindR (identity_field p ''uuid'') (\<lambda>u.
               bindR (canonical_uuid u) (\<lambda>uuid.
               Inr \<lparr>id_mode = mode, id_model = model, id_cpu = cpu, id_uuid = uuid, id_serial = serial\<rparr>)))))
         | _ \<Rightarrow> Inl (ValueError ''identity mode must be preserve or spoof''))
   | _ \<Rightarrow> Inl (ValueError ''unknown identity profile fields''))"

text \<open>\<open>store\<close> keeps the profile in the binary's state and saves it, where there is one.\<close>

definition configure_identity :: "(identity \<Rightarrow> (('w, 'z) cloak_dbg_scheme, unit) py) \<Rightarrow> json \<Rightarrow>
    (('w, 'z) cloak_dbg_scheme, identity) py" where
  "configure_identity store values =
     bindP (getP (\<lambda>s. (cloak_enabled s, ck_profile s))) (\<lambda>(on, old).
     if on then raiseP (ValueError ''disable Analysis cloak before changing identity'')
     else bindP (liftP (new_identity old values)) (\<lambda>p.
       seqP (modP (\<lambda>s. s\<lparr>ck_profile := p\<rparr>)) (seqP (store p) (retP p))))"

text \<open>The values presented: kind (an integer or text) and text; the integer is always 0.\<close>

definition sysctl_spoofs :: "identity \<Rightarrow> (string \<times> string \<times> string) list" where
  "sysctl_spoofs p = (''kern.hv_vmm_present'', ''u32'', ''0'') #
     (if id_mode p = ''spoof'' then [(''hw.model'', ''cstring'', id_model p),
        (''machdep.cpu.brand_string'', ''cstring'', id_cpu p), (''kern.hostuuid'', ''cstring'', id_uuid p)] else [])"

definition iokit_spoofs :: "identity \<Rightarrow> (string \<times> string) list" where
  "iokit_spoofs p = (if id_mode p = ''spoof'' then [(''IOPlatformSerialNumber'', id_serial p), (''IOPlatformUUID'', id_uuid p)] else [])"

section \<open>Commands and hooks\<close>

text \<open>\<open>Debugger.handle_command\<close>: refused while a decision is pending.\<close>

definition handle_command :: "'w defense_env \<Rightarrow> string \<Rightarrow> (('w, 'z) cloak_dbg_scheme, bool \<times> string \<times> string) py" where
  "handle_command D c = bindP (getP ck_pending) (\<lambda>kind. case kind of
     Some k \<Rightarrow> retP (False, [], ''A '' @ k @ '' decision is pending; resolve it before continuing.'' @
        '' Inspect using the debugger panes or structured commands.'')
   | None \<Rightarrow> onW (de_command D c))"

definition EXPR :: string where "EXPR = ''expression -l c++ --ignore-breakpoints true -- ''"

definition ck_delete_one :: "'w lldb \<Rightarrow> 'w cloak_env \<Rightarrow> int \<Rightarrow> (('w, 'z) cloak_dbg_scheme, unit) py" where
  "ck_delete_one L C i =
     bindP (getP (\<lambda>s. (ce_target C (world s) \<noteq> None, map_of (ck_returns s) i \<noteq> None))) (\<lambda>(target, hooked).
     seqP (whenP target (seqP (whenP hooked (modP (remember_hardware_return L i))) (seqP (onW (do_bp_delete L i)) (retP ()))))
       (modP (\<lambda>s. s\<lparr>hardware_ids := hardware_ids s - {i}, ck_returns := od_pop i (ck_returns s), ck_owners := od_pop i (ck_owners s)\<rparr>)))"

definition ck_delete :: "'w lldb \<Rightarrow> 'w cloak_env \<Rightarrow> int list \<Rightarrow> (('w, 'z) cloak_dbg_scheme, unit) py" where
  "ck_delete L C ids = forP (ck_delete_one L C) ids"

definition delete_unclaimed :: "'w lldb \<Rightarrow> 'w cloak_env \<Rightarrow> int list \<Rightarrow> (('w, 'z) cloak_dbg_scheme, unit) py" where
  "delete_unclaimed L C ids =
     bindP (getP (\<lambda>s. df_sysctl s # df_syscalls s)) (\<lambda>shared. ck_delete L C (filter (\<lambda>i. i \<notin> set shared) ids))"

definition release_one :: "'w lldb \<Rightarrow> 'w defense_env \<Rightarrow> 'w cloak_env \<Rightarrow> scrub \<Rightarrow> (('w, 'z) cloak_dbg_scheme, unit) py" where
  "release_one L D C k =
     seqP (disable_scrub L D k) (bindP (getP (\<lambda>s. case map_of (ck_owned_ids s) k of None \<Rightarrow> [] | Some ids \<Rightarrow> ids)) (\<lambda>ids.
     seqP (modP (\<lambda>s. s\<lparr>ck_owned_ids := od_pop k (ck_owned_ids s)\<rparr>)) (delete_unclaimed L C ids)))"

definition rollback_existing :: "'w lldb \<Rightarrow> 'w defense_env \<Rightarrow> 'w cloak_env \<Rightarrow> scrub list \<Rightarrow> (('w, 'z) cloak_dbg_scheme, unit) py" where
  "rollback_existing L D C acquired =
     forP (\<lambda>k. seqP (release_one L D C k) (modP (\<lambda>s. s\<lparr>ck_owned := removeAll k (ck_owned s)\<rparr>))) (rev acquired)"

definition module_loaded :: "'w cloak_env \<Rightarrow> 'w \<Rightarrow> string \<Rightarrow> bool" where
  "module_loaded C w marker = (ce_target C w \<noteq> None \<and>
     list_ex (\<lambda>m. casefold (map byte_val m) = casefold (map byte_val marker)) (ce_modules C w))"

definition hook_counts :: "'w lldb \<Rightarrow> 'w cloak_env \<Rightarrow> ('w, 'z) cloak_dbg_scheme \<Rightarrow> nat \<times> nat" where
  "hook_counts L C s = (if ce_target C (world s) = None then (0, 0)
     else let bs = List.map_filter (find_bp L (world s)) (ck_bps s) in
       (length (filter (\<lambda>b. list_ex loc_resolved (bp_locs b)) bs), length (filter (\<lambda>b. \<not> list_ex loc_resolved (bp_locs b)) bs)))"

definition scrub_live_environment :: "'w defense_env \<Rightarrow> (('w, 'z) cloak_dbg_scheme, bool \<times> string) py" where
  "scrub_live_environment D =
     bindP (foldP (\<lambda>name failed. if failed \<noteq> None then retP failed
        else bindP (handle_command D (EXPR @ ''(int)unsetenv('' @ [CHR 0x22] @ name @ [CHR 0x22] @ '')'')) (\<lambda>(ok, out, err).
          retP (if ok then None else Some (''could not unset '' @ name @ '': '' @ py_strip err)))) FORBIDDEN_ENV None) (\<lambda>failed.
     retP (case failed of Some m \<Rightarrow> (False, m)
       | None \<Rightarrow> (True, ''removed '' @ py_str (int (length FORBIDDEN_ENV)) @ '' analysis environment variables'')))"


section \<open>Switching\<close>

definition ENTRY_SYMBOLS :: "string list" where
  "ENTRY_SYMBOLS = [''proc_pidpath'', ''sysctlbyname'', ''IORegistryEntryCreateCFProperty'', ''_dyld_get_image_name'']"

definition EXISTING :: "scrub list" where "EXISTING = [Ptraced, Parent]"

fun scrub_name :: "scrub \<Rightarrow> string" where
  "scrub_name Ptraced = ''anti_sysctl''"
| "scrub_name Parent = ''anti_parent''"

text \<open>
  Borrowing the defenses that are off: the first refusal undoes what it left and what was borrowed
  before. The result is a message, or None, with the defenses borrowed.
\<close>

fun acquire :: "'w lldb \<Rightarrow> 'w defense_env \<Rightarrow> 'w cloak_env \<Rightarrow> scrub list \<Rightarrow> scrub list \<Rightarrow>
    (('w, 'z) cloak_dbg_scheme, string option \<times> scrub list) py" where
  "acquire L D C [] acquired = retP (None, acquired)"
| "acquire L D C (k # ks) acquired =
     bindP (getP (\<lambda>s. (scrub_on k s, bp_ids L (world s)))) (\<lambda>(on, before).
     if on then acquire L D C ks acquired
     else bindP (enable_scrub L D k) (\<lambda>(ok, message).
       bindP (getP (\<lambda>s. (filter (\<lambda>i. i \<notin> set before) (bp_ids L (world s)), scrub_on k s))) (\<lambda>(added, now_on).
       if \<not> ok then
         seqP (whenP now_on (seqP (disable_scrub L D k) (retP ())))
           (seqP (ck_delete L C added) (seqP (rollback_existing L D C acquired)
             (retP (Some (''could not enable '' @ scrub_name k @ '': '' @ message), acquired))))
       else seqP (modP (\<lambda>s. s\<lparr>ck_owned := List.insert k (ck_owned s), ck_owned_ids := od_set k added (ck_owned_ids s)\<rparr>))
         (acquire L D C ks (acquired @ [k])))))"

definition drop_hooks :: "'w lldb \<Rightarrow> 'w defense_env \<Rightarrow> 'w cloak_env \<Rightarrow> scrub list \<Rightarrow> (('w, 'z) cloak_dbg_scheme, unit) py" where
  "drop_hooks L D C acquired =
     bindP (getP ck_bps) (\<lambda>ids. seqP (ck_delete L C ids)
       (seqP (modP (\<lambda>s. s\<lparr>ck_bps := [], ck_entry := []\<rparr>)) (rollback_existing L D C acquired)))"

text \<open>A hook has to have a place, except on IOKit, which may not be loaded yet.\<close>

definition placed :: "'w lldb \<Rightarrow> 'w cloak_env \<Rightarrow> 'w \<Rightarrow> string \<Rightarrow> int \<Rightarrow> bool" where
  "placed L C w name i = (case find_bp L w i of None \<Rightarrow> False
     | Some b \<Rightarrow> bp_locs b \<noteq> [] \<or> (name = ''IORegistryEntryCreateCFProperty'' \<and> \<not> module_loaded C w ''IOKit''))"

fun hook_entries :: "'w lldb \<Rightarrow> 'w defense_env \<Rightarrow> 'w cloak_env \<Rightarrow> scrub list \<Rightarrow> string list \<Rightarrow>
    (('w, 'z) cloak_dbg_scheme, string option) py" where
  "hook_entries L D C acquired [] = retP None"
| "hook_entries L D C acquired (name # names) =
     bindP (onW (de_by_name D name None)) (\<lambda>b.
     bindP (getP (\<lambda>s. case b of None \<Rightarrow> False | Some i \<Rightarrow> placed L C (world s) name i)) (\<lambda>good.
     case b of
       None \<Rightarrow> seqP (drop_hooks L D C acquired) (retP (Some (''could not enable '' @ name @ '' cloak: symbol not found'')))
     | Some i \<Rightarrow> if good
         then seqP (modP (\<lambda>s. s\<lparr>ck_bps := List.insert i (ck_bps s), ck_entry := od_set i name (ck_entry s)\<rparr>)) (hook_entries L D C acquired names)
         else seqP (onW (do_bp_delete L i)) (seqP (drop_hooks L D C acquired)
           (retP (Some (''could not enable '' @ name @ '' cloak: symbol not found''))))))"

definition required_hooks :: "('w, 'z) cloak_dbg_scheme \<Rightarrow> (int, string) odict" where
  "required_hooks s =
     (let base = (if df_sysctl s = 0 then ck_entry s else od_set (df_sysctl s) ''sysctl'' (ck_entry s)) in
      foldl (\<lambda>d i. od_set i ''syscall wrapper'' d) base (df_syscalls s))"

definition switched_on :: "'w cloak_env \<Rightarrow> ('w, 'z) cloak_dbg_scheme \<Rightarrow> ('w, 'z) cloak_dbg_scheme" where
  "switched_on C s = s\<lparr>cloak_enabled := True, ck_target := ce_target C (world s), ck_required := required_hooks s\<rparr>"

section \<open>Checks before the target runs\<close>

definition crit :: "string \<Rightarrow> (('w, 'z) cloak_dbg_scheme, unit) py" where
  "crit m = seqP (critical m) (retP ())"

text \<open>What is wrong with a required hook.\<close>

definition hook_failure :: "'w lldb \<Rightarrow> 'w cloak_env \<Rightarrow> 'w \<Rightarrow> int \<times> string \<Rightarrow> string option" where
  "hook_failure L C w = (\<lambda>(i, name).
     let defer = (name = ''IORegistryEntryCreateCFProperty'' \<and> \<not> module_loaded C w ''IOKit'') in
     case find_bp L w i of None \<Rightarrow> Some ''is missing''
     | Some b \<Rightarrow> if \<not> bp_enabled b then Some ''is disabled''
         else if bp_locs b = [] then (if defer then None else Some ''did not resolve'')
         else if list_ex (\<lambda>l. \<not> loc_enabled l \<or> (\<not> loc_resolved l \<and> \<not> defer)) (bp_locs b)
         then Some ''has a disabled or unresolved location'' else None)"

fun first_failure :: "'w lldb \<Rightarrow> 'w cloak_env \<Rightarrow> 'w \<Rightarrow> (int, string) odict \<Rightarrow> string option" where
  "first_failure L C w [] = None"
| "first_failure L C w (h # hs) = (case hook_failure L C w h of
     Some f \<Rightarrow> Some (''required '' @ snd h @ '' hook #'' @ py_str (fst h) @ '' '' @ f @ ''; restart and re-enable analysis cloak'')
   | None \<Rightarrow> first_failure L C w hs)"

definition missing_handlers :: "('w, 'z) cloak_dbg_scheme \<Rightarrow> string list" where
  "missing_handlers s = filter (\<lambda>n. n \<notin> snd ` set (ck_entry s))
     [''IORegistryEntryCreateCFProperty'', ''_dyld_get_image_name'', ''proc_pidpath'', ''sysctlbyname'']"

definition join_names :: "string list \<Rightarrow> string" where
  "join_names ms = (case ms of [] \<Rightarrow> [] | m # rest \<Rightarrow> m @ concat (map (\<lambda>x. '', '' @ x) rest))"

definition required_failure :: "'w lldb \<Rightarrow> 'w cloak_env \<Rightarrow> ('w, 'z) cloak_dbg_scheme \<Rightarrow> string option" where
  "required_failure L C s =
     (if ce_target C (world s) = None \<or> ce_target C (world s) \<noteq> ck_target s
      then Some ''analysis cloak belongs to a different target; restart and enable at entry''
      else if missing_handlers s \<noteq> []
      then Some (''missing analysis cloak entry handler for '' @ join_names (missing_handlers s) @ ''; restart and re-enable at entry'')
      else case find (\<lambda>k. \<not> scrub_on k s) EXISTING of
        Some k \<Rightarrow> Some (''required '' @ scrub_name k @ '' defense is disabled; restart and re-enable analysis cloak'')
      | None \<Rightarrow> first_failure L C (world s) (ck_required s))"

definition validate_required_hooks :: "'w lldb \<Rightarrow> 'w cloak_env \<Rightarrow> (('w, 'z) cloak_dbg_scheme, unit) py" where
  "validate_required_hooks L C = bindP (getP (required_failure L C)) (\<lambda>f. case f of None \<Rightarrow> retP () | Some m \<Rightarrow> crit m)"

definition validate_resume :: "'w lldb \<Rightarrow> 'w cloak_env \<Rightarrow> (('w, 'z) cloak_dbg_scheme, bool \<times> string) py" where
  "validate_resume L C =
     bindP (getP (\<lambda>s. cloak_enabled s \<and> ck_interpose s)) (\<lambda>clash.
     seqP (whenP clash (crit ''analysis cloak is incompatible with fork-tree tracing in v1''))
     (bindP (getP (\<lambda>s. cloak_enabled s \<and> df_error s \<in> {None, Some []})) (\<lambda>check.
     seqP (whenP check (validate_required_hooks L C))
     (getP (\<lambda>s. case df_error s of
        Some m \<Rightarrow> if cloak_enabled s \<and> m \<noteq> [] then (False, m) else (True, ''analysis cloak ready'')
      | None \<Rightarrow> (True, ''analysis cloak ready''))))))"

definition refused :: "string \<Rightarrow> ('s, bool \<times> string) py" where
  "refused m = retP (False, m)"

definition hooked_env :: "'w lldb \<Rightarrow> 'w defense_env \<Rightarrow> 'w cloak_env \<Rightarrow> scrub list \<Rightarrow> (('w, 'z) cloak_dbg_scheme, bool \<times> string) py" where
  "hooked_env L D C acquired =
     bindP (scrub_live_environment D) (\<lambda>(ok, message).
     if \<not> ok then seqP (drop_hooks L D C acquired) (refused message)
     else seqP (modP (switched_on C)) (bindP (getP (hook_counts L C)) (\<lambda>(resolved, deferred).
       retP (True, ''analysis cloak enabled; '' @ message @ ''; '' @ py_str (int resolved) @ '' resolved, ''
         @ py_str (int deferred) @ '' deferred hooks''))))"

definition cloak_enable :: "'w lldb \<Rightarrow> 'w defense_env \<Rightarrow> 'w cloak_env \<Rightarrow> (('w, 'z) cloak_dbg_scheme, bool \<times> string) py" where
  "cloak_enable L D C =
     bindP (getP cloak_enabled) (\<lambda>on.
     if on then bindP (validate_resume L C) (\<lambda>(ready, error).
       retP (if ready then (True, ''analysis cloak already enabled'') else (False, error)))
     else seqP (modP (\<lambda>s. s\<lparr>df_error := None\<rparr>))
       (bindP (getP (\<lambda>s. (ck_interpose s, ce_at_entry C (world s)))) (\<lambda>(interpose, entry).
       if interpose then refused ''analysis cloak is incompatible with fork-tree tracing in v1''
       else if \<not> entry then refused ''analysis cloak must be enabled while stopped at the entry point; restart the target''
       else bindP (acquire L D C EXISTING []) (\<lambda>(failed, acquired). case failed of
         Some m \<Rightarrow> refused m
       | None \<Rightarrow> bindP (getP (\<lambda>s. ce_target C (world s) \<noteq> None)) (\<lambda>target.
           bindP (if target then hook_entries L D C acquired ENTRY_SYMBOLS else retP None) (\<lambda>failed.
           case failed of Some m \<Rightarrow> refused m | None \<Rightarrow> hooked_env L D C acquired))))))"

text \<open>Strings the cloak made in the target are released once.\<close>

definition release_strings :: "'w defense_env \<Rightarrow> string \<Rightarrow> addr list \<Rightarrow> (('w, 'z) cloak_dbg_scheme, unit) py" where
  "release_strings D call pointers =
     forP (\<lambda>a. seqP (handle_command D (EXPR @ ''(void)'' @ call @ ''((void*)'' @ py_hex a @ '')'')) (retP ())) (remdups pointers)"

definition release_cfstrings :: "'w defense_env \<Rightarrow> (('w, 'z) cloak_dbg_scheme, unit) py" where
  "release_cfstrings D = bindP (getP (\<lambda>s. map snd (ck_cf s))) (\<lambda>ps.
     seqP (modP (\<lambda>s. s\<lparr>ck_cf := []\<rparr>)) (release_strings D ''CFRelease'' ps))"

definition release_cstrings :: "'w defense_env \<Rightarrow> (('w, 'z) cloak_dbg_scheme, unit) py" where
  "release_cstrings D = bindP (getP (\<lambda>s. map snd (ck_cs s))) (\<lambda>ps.
     seqP (modP (\<lambda>s. s\<lparr>ck_cs := []\<rparr>)) (release_strings D ''free'' ps))"

definition cloak_disable :: "'w lldb \<Rightarrow> 'w defense_env \<Rightarrow> 'w cloak_env \<Rightarrow> (('w, 'z) cloak_dbg_scheme, bool \<times> string) py" where
  "cloak_disable L D C =
     seqP (release_cfstrings D) (seqP (release_cstrings D)
     (bindP (getP (\<lambda>s. List.union (ck_bps s) (map fst (ck_returns s)))) (\<lambda>ids.
     seqP (ck_delete L C ids)
     (seqP (modP (\<lambda>s. s\<lparr>ck_bps := [], ck_entry := [], ck_returns := [], ck_owners := []\<rparr>))
     (seqP (forP (\<lambda>k. bindP (getP (\<lambda>s. k \<in> set (ck_owned s))) (\<lambda>ours. whenP ours (release_one L D C k))) (rev EXISTING))
     (seqP (modP (\<lambda>s. s\<lparr>ck_owned := [], cloak_enabled := False, ck_target := None, ck_required := [], df_error := None\<rparr>))
     (retP (True, ''analysis cloak disabled''))))))))"

definition clear_return_hooks :: "'w lldb \<Rightarrow> 'w defense_env \<Rightarrow> 'w cloak_env \<Rightarrow> (('w, 'z) cloak_dbg_scheme, unit) py" where
  "clear_return_hooks L D C =
     bindP (getP (\<lambda>s. map fst (ck_returns s))) (\<lambda>ids. seqP (ck_delete L C ids)
     (seqP (modP (\<lambda>s. s\<lparr>ck_returns := [], ck_owners := []\<rparr>))
     (seqP (release_cfstrings D) (seqP (release_cstrings D) (modP (\<lambda>s. s\<lparr>df_error := None\<rparr>))))))"

definition filter_launch_environment :: "string list \<Rightarrow> ('w, 'z) cloak_dbg_scheme \<Rightarrow> string list" where
  "filter_launch_environment entries s = (if cloak_enabled s then filter_environment entries else entries)"

definition hidden_bp_ids :: "('w, 'z) cloak_dbg_scheme \<Rightarrow> int set" where
  "hidden_bp_ids s = set (ck_bps s) \<union> fst ` set (ck_returns s) \<union> \<Union> (set ` snd ` set (ck_owned_ids s))"

section \<open>Integrity of the text\<close>

definition cloak_reserve :: "('w, 'z) cloak_dbg_scheme \<Rightarrow> int" where
  "cloak_reserve s = (if step_active s \<and> step_target_depth s \<noteq> None then 1 else 0)"

text \<open>Breakpoints and their locations in order; the first enabled one inside the text that is not fit.\<close>

definition text_locations :: "addr \<Rightarrow> addr \<Rightarrow> breakpoint list \<Rightarrow> (breakpoint \<times> location) list" where
  "text_locations start stop bs = concat (map (\<lambda>b. if \<not> bp_enabled b then [] else
     map (Pair b) (filter (\<lambda>l. loc_enabled l \<and> start \<le> loc_addr l \<and> loc_addr l < stop) (bp_locs b))) bs)"

definition location_refusal :: "int set \<Rightarrow> breakpoint \<times> location \<Rightarrow> string option" where
  "location_refusal hardware = (\<lambda>(b, l).
     if bp_id b \<notin> hardware \<or> \<not> bp_hardware b
     then Some (''software breakpoint modifies target __text (breakpoint #'' @ py_str (bp_id b) @
       ''); delete or disable it and recreate it using the structured hardware breakpoint command. '' @
       ''For internal sites, disable/re-enable their defense or enable tracer hardware mode'')
     else if \<not> loc_resolved l
     then Some (''hardware breakpoint #'' @ py_str (bp_id b) @ '' is not installed; free hardware breakpoint slots or reduce traced sites'')
     else None)"

fun first_some :: "('a \<Rightarrow> 'b option) \<Rightarrow> 'a list \<Rightarrow> 'b option" where
  "first_some f [] = None"
| "first_some f (x # xs) = (case f x of Some y \<Rightarrow> Some y | None \<Rightarrow> first_some f xs)"

definition patch_refusal :: "addr \<Rightarrow> addr \<Rightarrow> addr \<times> bytes \<Rightarrow> string option" where
  "patch_refusal start stop = (\<lambda>(a, new). if new \<noteq> [] \<and> a < stop \<and> start < a + int (length new)
     then Some (''tracked patch modifies target __text at '' @ py_hex a @ ''; revert the patch before resuming'') else None)"

definition text_refusal :: "'w lldb \<Rightarrow> 'w \<Rightarrow> int set \<Rightarrow> addr \<Rightarrow> addr \<Rightarrow> (addr \<times> bytes) list \<Rightarrow> bool \<times> string" where
  "text_refusal L w hardware start stop patches =
     (case first_some (location_refusal hardware) (text_locations start stop (obs_breakpoints L w)) of
        Some m \<Rightarrow> (False, m)
      | None \<Rightarrow> (case first_some (patch_refusal start stop) patches of
          Some m \<Rightarrow> (False, m)
        | None \<Rightarrow> (True, ''target __text integrity protected'')))"

definition validate_integrity :: "'w lldb \<Rightarrow> 'w cloak_env \<Rightarrow> int set \<Rightarrow> (('w, 'z) cloak_dbg_scheme, bool \<times> string) py" where
  "validate_integrity L C extra =
     bindP (getP cloak_enabled) (\<lambda>on. if \<not> on then retP (True, ''integrity protection disabled'')
     else bindP (getP (\<lambda>s. (validate_hardware_capacity L (cloak_reserve s) (world s), ce_text C (world s)))) (\<lambda>(capacity, text_at).
     case capacity of Inl (RuntimeError m) \<Rightarrow> refused m | Inl e \<Rightarrow> raiseP e
     | Inr _ \<Rightarrow> (case text_at of
         NoModule \<Rightarrow> refused ''cannot locate main executable __text; restart at entry''
       | NoSection \<Rightarrow> refused ''cannot locate main executable __TEXT,__text; resume refused''
       | TextAt start len \<Rightarrow> if start = 0 \<or> start = 0xffffffffffffffff \<or> len = 0
           then refused ''main executable __text is not mapped; restart at entry''
           else seqP (modP (\<lambda>s. s\<lparr>hardware_ids := hardware_ids s \<inter> set (bp_ids L (world s))\<rparr>))
             (getP (\<lambda>s. text_refusal L (world s) (hardware_ids s \<union> extra) start (start + len) (ck_patches s))))))"

end
