(* ===== verification/CloakHits.thy ===== *)
theory CloakHits
  imports Cloak Regex
begin

text \<open>
  What \<open>AnalysisCloak\<close> does at its hooks: it lets the hooked call run to its return, then replaces
  the result, or it answers in the call's place. A replacement that cannot be completed is rolled
  back and sets the error that keeps the target stopped.
\<close>

section \<open>Memory and registers\<close>

text \<open>Registers are looked up again in the process, as the values of LLDB do.\<close>

definition live_reg :: "'w lldb \<Rightarrow> 'w \<Rightarrow> int \<Rightarrow> string \<Rightarrow> int" where
  "live_reg L w tid r = (case obs_process L w of None \<Rightarrow> 0
     | Some p \<Rightarrow> (case find (\<lambda>t. th_id t = tid) (pr_threads p) of None \<Rightarrow> 0
         | Some t \<Rightarrow> (case th_frame t of None \<Rightarrow> 0 | Some f \<Rightarrow> reg_unsigned f r)))"

definition set_reg :: "'w lldb \<Rightarrow> int \<Rightarrow> string \<Rightarrow> int \<Rightarrow> (('w, 'z) cloak_dbg_scheme, bool) py" where
  "set_reg L tid r v = bindP (onW (do_set_reg L tid r (py_str v))) (\<lambda>err.
     bindP (getP (\<lambda>s. live_reg L (world s) tid r)) (\<lambda>now. retP (err = None \<and> now = v)))"

definition read_exact :: "'w lldb \<Rightarrow> 'w \<Rightarrow> addr \<Rightarrow> nat \<Rightarrow> bytes option" where
  "read_exact L w a n = (case obs_read L w a n of None \<Rightarrow> None | Some d \<Rightarrow> if length d = n then Some d else None)"

definition write_exact :: "'w lldb \<Rightarrow> 'w defense_env \<Rightarrow> addr \<Rightarrow> bytes \<Rightarrow> (('w, 'z) cloak_dbg_scheme, bool) py" where
  "write_exact L D a data =
     bindP (getP (\<lambda>s. read_exact L (world s) a (length data))) (\<lambda>original.
     bindP (onW (de_write D a data)) (\<lambda>(ok, n).
     seqP (whenP (ok \<and> n = int (length data)) (record_event L ''DEFENSE'' ''cloak memory rewrite''
        [(''defense'', ''analysis_cloak''), (''address'', py_hex a),
         (''original'', case original of None \<Rightarrow> ''None'' | Some d \<Rightarrow> py_bytes_hex d), (''replacement'', py_bytes_hex data)]))
     (retP (ok \<and> n = int (length data)))))"

text \<open>
  \<open>re.findall(r"=\s*(0x[0-9a-fA-F]+)", output)\<close> and \<open>r"=\s*(-?[0-9]+)"\<close>: the last match.
\<close>

definition rx_pointer :: rx where
  "rx_pointer = Seqs [Chr CHR ''='', rSpaces, Grp 1 rHexNum]"

definition rx_integer :: rx where
  "rx_integer = Seqs [Chr CHR ''='', rSpaces, Grp 1 (Seq (Opt (Chr CHR ''-'')) rDigits)]"

definition last_value :: "rx \<Rightarrow> int \<Rightarrow> string \<Rightarrow> int option" where
  "last_value r base text = (case rev (rx_findall r text) of [] \<Rightarrow> None
     | (m, g) # _ \<Rightarrow> (case grp 1 g of None \<Rightarrow> None | Some t \<Rightarrow> py_int base t))"

definition eval_pointer :: "'w defense_env \<Rightarrow> string \<Rightarrow> (('w, 'z) cloak_dbg_scheme, int option) py" where
  "eval_pointer D e = bindP (handle_command D e) (\<lambda>(ok, out, err). retP (if ok then last_value rx_pointer 16 out else None))"

definition eval_integer :: "'w defense_env \<Rightarrow> string \<Rightarrow> (('w, 'z) cloak_dbg_scheme, int option) py" where
  "eval_integer D e = bindP (handle_command D e) (\<lambda>(ok, out, err). retP (if ok then last_value rx_integer 10 out else None))"

definition quoted :: "string \<Rightarrow> string" where
  "quoted t = [CHR 0x22] @ escape_c_string t @ [CHR 0x22]"

text \<open>\<open>_read_errno\<close>: the errno pointer is in the second slot of the thread's own data.\<close>

definition signed4 :: "bytes \<Rightarrow> int" where
  "signed4 d = (if le_int d < 2 ^ 31 then le_int d else le_int d - 2 ^ 32)"

definition read_errno :: "'w lldb \<Rightarrow> 'w cloak_env \<Rightarrow> 'w \<Rightarrow> int \<Rightarrow> int option" where
  "read_errno L C w tid =
     (if \<not> ce_wide C w then None
      else case ce_tsd C w tid of None \<Rightarrow> None
      | Some t \<Rightarrow> (case py_int 0 (py_strip t) of None \<Rightarrow> None
        | Some base \<Rightarrow> if \<not> (0 < base \<and> base < 2 ^ 64 - 16) \<or> base mod 8 \<noteq> 0 then None
          else (case read_exact L w (base + 8) 8 of None \<Rightarrow> None
            | Some d \<Rightarrow> (let p = le_int d in
                if \<not> (0 < p \<and> p < 2 ^ 64 - 4) \<or> p mod 4 \<noteq> 0 then None
                else map_option signed4 (read_exact L w p 4)))))"

section \<open>Returns\<close>

definition LAUNCHD :: bytes where "LAUNCHD = ''/sbin/launchd'' @ [val_byte 0]"

definition raw_write :: "'w defense_env \<Rightarrow> addr \<Rightarrow> bytes \<Rightarrow> (('w, 'z) cloak_dbg_scheme, bool \<times> int) py" where
  "raw_write D a data = onW (de_write D a data)"

text \<open>\<open>proc_pidpath\<close> returned the length of a path: that of a tool becomes launchd's.\<close>

definition tool_path :: "bytes \<Rightarrow> bool" where
  "tool_path d = (val_byte 0 \<in> set d \<and> contains_marker (decode_replace (c_text d)) TOOL_MARKERS)"

definition parent_return :: "'w lldb \<Rightarrow> 'w defense_env \<Rightarrow> int \<Rightarrow> addr \<Rightarrow> int \<Rightarrow> int \<Rightarrow> (('w, 'z) cloak_dbg_scheme, string) py" where
  "parent_return L D tid buffer capacity returned =
     (if \<not> (0 < returned \<and> returned \<le> capacity \<and> int (length LAUNCHD) \<le> capacity) then retP []
      else let n = nat (min capacity (max (returned + 1) (int (length LAUNCHD)))) in
        bindP (getP (\<lambda>s. read_exact L (world s) buffer n)) (\<lambda>data. case data of None \<Rightarrow> retP []
        | Some d \<Rightarrow> if \<not> tool_path d then retP []
            else bindP (raw_write D buffer LAUNCHD) (\<lambda>(ok, n).
              if ok \<and> n = int (length LAUNCHD) then
                bindP (set_reg L tid ''x0'' (int (length LAUNCHD) - 1)) (\<lambda>set_ok.
                if set_ok then retP ''cloaked parent process path from proc_pidpath''
                else seqP (set_reg L tid ''x0'' returned) (seqP (raw_write D buffer (take (length LAUNCHD) d)) (retP [])))
              else if n \<noteq> 0 then seqP (raw_write D buffer (take (length LAUNCHD) d)) (retP [])
              else retP [])))"

text \<open>The text of a profile is sent as UTF-8.\<close>

definition utf8_char :: "char \<Rightarrow> bytes" where
  "utf8_char c = (let v = byte_val c in if v < 128 then [c] else [val_byte (192 + v div 64), val_byte (128 + v mod 64)])"

definition spoof_payload :: "string \<Rightarrow> string \<Rightarrow> bytes" where
  "spoof_payload kind value = (if kind = ''u32'' then int_le 4 0 else concat (map utf8_char value) @ [val_byte 0])"

definition sysctl_fail :: "string \<Rightarrow> string \<Rightarrow> bool \<Rightarrow> (('w, 'z) cloak_dbg_scheme, string) py" where
  "sysctl_fail name what rolled = critical (''sysctlbyname('' @ name @ '') '' @ what @ (if rolled then [] else ''; rollback failed''))"

text \<open>A size probe: only the length is an output.\<close>

definition sysctl_probe :: "'w lldb \<Rightarrow> 'w defense_env \<Rightarrow> string \<Rightarrow> addr \<Rightarrow> bytes \<Rightarrow> (('w, 'z) cloak_dbg_scheme, string) py" where
  "sysctl_probe L D name size_at payload =
     bindP (getP (\<lambda>s. if size_at = 0 then None else read_exact L (world s) size_at 8)) (\<lambda>original. case original of
       None \<Rightarrow> sysctl_fail name ''could not preserve real result size; cloak failed'' True
     | Some old \<Rightarrow> bindP (write_exact L D size_at (int_le 8 (int (length payload)))) (\<lambda>ok.
         if \<not> ok then bindP (write_exact L D size_at old) (\<lambda>back. sysctl_fail name ''could not write result size; cloak failed'' back)
         else retP (''spoofed sysctlbyname('' @ name @ '') result size'')))"

text \<open>The real read: buffer, then length, then (after ENOMEM) the return value, each undone when a later one fails.\<close>

definition sysctl_undo :: "'w lldb \<Rightarrow> 'w defense_env \<Rightarrow> addr \<Rightarrow> bytes \<Rightarrow> addr \<Rightarrow> bytes \<Rightarrow> (('w, 'z) cloak_dbg_scheme, bool) py" where
  "sysctl_undo L D buffer original size_at old_size =
     bindP (write_exact L D buffer original) (\<lambda>a. bindP (write_exact L D size_at old_size) (\<lambda>b. retP (a \<and> b)))"

definition sysctl_write :: "'w lldb \<Rightarrow> 'w defense_env \<Rightarrow> int \<Rightarrow> string \<Rightarrow> addr \<Rightarrow> addr \<Rightarrow> bytes \<Rightarrow> bool \<Rightarrow> int \<Rightarrow>
    (('w, 'z) cloak_dbg_scheme, string) py" where
  "sysctl_write L D tid name buffer size_at payload recover returned =
     bindP (getP (\<lambda>s. (read_exact L (world s) buffer (length payload), read_exact L (world s) size_at 8))) (\<lambda>(buf, size).
     case (buf, size) of
       (Some original, Some old_size) \<Rightarrow>
         bindP (write_exact L D buffer payload) (\<lambda>ok.
         if \<not> ok then bindP (write_exact L D buffer original) (\<lambda>back.
           sysctl_fail name ''could not write result buffer; cloak failed'' back)
         else bindP (write_exact L D size_at (int_le 8 (int (length payload)))) (\<lambda>ok.
           if \<not> ok then bindP (sysctl_undo L D buffer original size_at old_size) (\<lambda>back.
             sysctl_fail name ''could not write result size; cloak failed'' back)
           else bindP (if recover then set_reg L tid ''x0'' 0 else retP True) (\<lambda>ok.
             if \<not> ok then bindP (set_reg L tid ''x0'' returned) (\<lambda>reg_back.
               bindP (sysctl_undo L D buffer original size_at old_size) (\<lambda>back.
               sysctl_fail name ''could not write return register; cloak failed'' (reg_back \<and> back)))
             else retP (''spoofed sysctlbyname('' @ name @ '')''))))
     | _ \<Rightarrow> sysctl_fail name ''could not preserve real result; cloak failed'' True)"

definition ENOMEM :: int where "ENOMEM = 12"

text \<open>Whether a failed call only lacked room for the payload; a message when errno cannot be read.\<close>

definition recover_check :: "'w lldb \<Rightarrow> 'w cloak_env \<Rightarrow> int \<Rightarrow> string \<Rightarrow> addr \<Rightarrow> addr \<Rightarrow> int \<Rightarrow> bytes \<Rightarrow> int \<Rightarrow>
    (('w, 'z) cloak_dbg_scheme, bool \<times> string) py" where
  "recover_check L C tid name buffer size_at capacity payload returned =
     (if returned mod 2 ^ 32 = 0xffffffff \<and> buffer \<noteq> 0 \<and> size_at \<noteq> 0 \<and> int (length payload) \<le> capacity
      then bindP (getP (\<lambda>s. read_errno L C (world s) tid)) (\<lambda>e. case e of
          None \<Rightarrow> bindP (sysctl_fail name ''could not read return errno; cloak failed'' True) (\<lambda>m. retP (False, m))
        | Some v \<Rightarrow> retP (v = ENOMEM, []))
      else retP (False, []))"

definition sysctl_return :: "'w lldb \<Rightarrow> 'w defense_env \<Rightarrow> 'w cloak_env \<Rightarrow> int \<Rightarrow> string \<Rightarrow> string \<Rightarrow> addr \<Rightarrow> addr \<Rightarrow> int \<Rightarrow> int \<Rightarrow>
    (('w, 'z) cloak_dbg_scheme, string) py" where
  "sysctl_return L D C tid kind name buffer size_at capacity returned =
     bindP (getP (\<lambda>s. map_of (sysctl_spoofs (ck_profile s)) name)) (\<lambda>spoof. case spoof of
       None \<Rightarrow> raiseP (KeyError name)
     | Some (k, value) \<Rightarrow> (let payload = spoof_payload kind value in
         bindP (recover_check L C tid name buffer size_at capacity payload returned) (\<lambda>(recover, message).
         if returned \<noteq> 0 \<and> \<not> recover then retP message
         else if buffer = 0 then sysctl_probe L D name size_at payload
         else if size_at = 0 \<or> capacity < int (length payload) then sysctl_fail name ''buffer too small; cloak failed'' True
         else sysctl_write L D tid name buffer size_at payload recover returned)))"

text \<open>The name of a loaded image: a tool's is replaced by that of the system library.\<close>

definition IMAGE_REPLACEMENT :: string where "IMAGE_REPLACEMENT = ''/usr/lib/libSystem.B.dylib''"

definition base_name :: "int list \<Rightarrow> int list" where
  "base_name p = rev (takeWhile (\<lambda>c. c \<noteq> byte_val CHR ''/'') (rev p))"

definition cached_cstring :: "'w defense_env \<Rightarrow> (('w, 'z) cloak_dbg_scheme, int option) py" where
  "cached_cstring D = bindP (getP (\<lambda>s. map_of (ck_cs s) IMAGE_REPLACEMENT)) (\<lambda>c. case c of
     Some a \<Rightarrow> retP (Some a)
   | None \<Rightarrow> bindP (eval_pointer D (EXPR @ ''(void*)strdup('' @ quoted IMAGE_REPLACEMENT @ '')'')) (\<lambda>p. case p of
         None \<Rightarrow> retP None
       | Some a \<Rightarrow> if a = 0 then retP None
           else seqP (modP (\<lambda>s. s\<lparr>ck_cs := od_set IMAGE_REPLACEMENT a (ck_cs s)\<rparr>)) (retP (Some a))))"

definition image_return :: "'w lldb \<Rightarrow> 'w defense_env \<Rightarrow> 'w cloak_env \<Rightarrow> int \<Rightarrow> int \<Rightarrow> (('w, 'z) cloak_dbg_scheme, string) py" where
  "image_return L D C tid returned =
     (if returned = 0 then retP []
      else bindP (getP (\<lambda>s. ce_cstring C (world s) returned 4096)) (\<lambda>path. case path of
        None \<Rightarrow> critical ''could not read _dyld_get_image_name result; cloak failed''
      | Some p \<Rightarrow> if \<not> contains_marker p IMAGE_MARKERS then retP []
          else bindP (cached_cstring D) (\<lambda>c. case c of
            None \<Rightarrow> critical ''could not allocate loaded-image replacement; cloak failed''
          | Some a \<Rightarrow> bindP (set_reg L tid ''x0'' a) (\<lambda>ok.
              if \<not> ok then critical ''could not replace _dyld_get_image_name result; cloak failed''
              else retP (''cloaked loaded image '' @ shown (base_name p))))))"

definition hook_return :: "'w lldb \<Rightarrow> 'w defense_env \<Rightarrow> 'w cloak_env \<Rightarrow> int \<Rightarrow> int \<Rightarrow> ck_hook \<Rightarrow> (('w, 'z) cloak_dbg_scheme, string) py" where
  "hook_return L D C tid returned h = (case h of
     ImageHook \<Rightarrow> image_return L D C tid returned
   | ParentHook buffer capacity \<Rightarrow> parent_return L D tid buffer capacity returned
   | SysctlHook kind name buffer size_at capacity \<Rightarrow> sysctl_return L D C tid kind name buffer size_at capacity returned)"

text \<open>The end of a stop: the target goes on unless the cloak has failed.\<close>

definition resume_unless_failed :: "(('w, 'z) cloak_dbg_scheme, unit) py \<Rightarrow> bool \<Rightarrow> (('w, 'z) cloak_dbg_scheme, unit) py" where
  "resume_unless_failed cont resume = bindP (getP (\<lambda>s. df_error s = None)) (\<lambda>fine. whenP (fine \<and> resume) cont)"

definition handle_return :: "'w lldb \<Rightarrow> 'w defense_env \<Rightarrow> 'w cloak_env \<Rightarrow> (('w, 'z) cloak_dbg_scheme, unit) py \<Rightarrow> bool \<Rightarrow>
    int \<Rightarrow> thread \<Rightarrow> ck_hook \<Rightarrow> (('w, 'z) cloak_dbg_scheme, string option) py" where
  "handle_return L D C cont resume i t h =
     bindP (getP (\<lambda>s. map_of (ck_owners s) i)) (\<lambda>own. case own of
       None \<Rightarrow> bindP (critical ''return hook missing thread ownership; cloak failed'') (\<lambda>m. retP (Some m))
     | Some owner \<Rightarrow> if th_id t \<noteq> owner then retP None
         else seqP (ck_delete L C [i])
           (bindP (getP (\<lambda>s. live_reg L (world s) (th_id t) ''x0'')) (\<lambda>returned.
            bindP (hook_return L D C (th_id t) returned h) (\<lambda>message.
            bindP (getP (\<lambda>s. (live_reg L (world s) (th_id t) ''x0'', df_error s = None))) (\<lambda>(now, ready).
            seqP (whenP (message \<noteq> []) (record_event L ''DEFENSE'' message
               [(''defense'', ''analysis_cloak''), (''original.return'', py_hex returned), (''replacement.return'', py_hex now),
                (''ready'', if ready then ''True'' else ''False'')]))
            (seqP (resume_unless_failed cont resume) (retP (Some message))))))))"

section \<open>Entries\<close>

text \<open>Arming a hook at the return address; \<open>strict\<close> hooks need a place.\<close>

definition ENTRY_REFUSED :: string where "ENTRY_REFUSED = ''; restart at entry after reducing hardware sites''"

definition arm_return :: "'w lldb \<Rightarrow> int \<Rightarrow> addr \<Rightarrow> ck_hook \<Rightarrow> bool \<Rightarrow> string \<Rightarrow>
    (('w, 'z) cloak_dbg_scheme, (bool \<times> string)) py" where
  "arm_return L tid a h strict failure =
     on_runtime_error
       (bindP (create_hardware_at L a) (\<lambda>b.
        if strict \<and> bp_locs b = [] then seqP (onW (do_bp_delete L (bp_id b)))
          (bindP (critical failure) (\<lambda>m. retP (True, m)))
        else seqP (onW (do_bp_thread L (bp_id b) tid))
          (seqP (modP (\<lambda>s. s\<lparr>ck_returns := od_set (bp_id b) h (ck_returns s), ck_owners := od_set (bp_id b) tid (ck_owners s)\<rparr>))
          (retP (True, [])))))
       (\<lambda>e. bindP (critical (e @ ENTRY_REFUSED)) (\<lambda>m. retP (False, m)))"

text \<open>A refused breakpoint leaves the stop at once, without resuming.\<close>

definition finish_entry :: "(('w, 'z) cloak_dbg_scheme, unit) py \<Rightarrow> bool \<Rightarrow> bool \<times> string \<Rightarrow> (('w, 'z) cloak_dbg_scheme, string option) py" where
  "finish_entry cont resume = (\<lambda>(go_on, m). seqP (whenP go_on (resume_unless_failed cont resume)) (retP (Some m)))"

definition image_entry :: "'w lldb \<Rightarrow> (('w, 'z) cloak_dbg_scheme, unit) py \<Rightarrow> bool \<Rightarrow> thread \<Rightarrow> frame \<Rightarrow>
    (('w, 'z) cloak_dbg_scheme, string option) py" where
  "image_entry L cont resume t f =
     (let a = reg_unsigned f ''lr'' in
      bindP (if a = 0 then bindP (critical ''_dyld_get_image_name has no return address; cloak failed'') (\<lambda>m. retP (True, m))
        else arm_return L (th_id t) a ImageHook True ''_dyld_get_image_name could not arm return hook; cloak failed'')
      (finish_entry cont resume))"

text \<open>What a \<open>sysctlbyname\<close> call asks for, when it reads a spoofed value and writes none.\<close>

definition spoofed_name :: "'w cloak_env \<Rightarrow> ('w, 'z) cloak_dbg_scheme \<Rightarrow> frame \<Rightarrow> (string \<times> string) option" where
  "spoofed_name C s f =
     (let at = reg_unsigned f ''x0''; name = (if at = 0 then Some [] else ce_cstring C (world s) at 256) in
      case name of None \<Rightarrow> None
      | Some n \<Rightarrow> if reg_unsigned f ''x3'' = 0 \<and> reg_unsigned f ''x4'' = 0
          then map_option (\<lambda>(k, v, _). (k, v)) (find (\<lambda>(k, v, _). map byte_val k = n) (sysctl_spoofs (ck_profile s))) else None)"

definition sysctl_entry :: "'w lldb \<Rightarrow> 'w cloak_env \<Rightarrow> (('w, 'z) cloak_dbg_scheme, unit) py \<Rightarrow> bool \<Rightarrow> thread \<Rightarrow> frame \<Rightarrow>
    (('w, 'z) cloak_dbg_scheme, string option) py" where
  "sysctl_entry L C cont resume t f =
     (let size_at = reg_unsigned f ''x2''; a = reg_unsigned f ''lr'' in
      bindP (getP (\<lambda>s. (spoofed_name C s f, if size_at = 0 then None else read_exact L (world s) size_at 8))) (\<lambda>(wanted, size).
      bindP (case wanted of None \<Rightarrow> retP (True, [])
        | Some (name, kind) \<Rightarrow> (case size of
            None \<Rightarrow> bindP (critical (''sysctlbyname('' @ name @ '') could not read input capacity; cloak failed'')) (\<lambda>m. retP (True, m))
          | Some d \<Rightarrow> (let failure = ''sysctlbyname('' @ name @ '') could not arm return hook; cloak failed'' in
              if a = 0 then bindP (critical failure) (\<lambda>m. retP (True, m))
              else arm_return L (th_id t) a (SysctlHook kind name (reg_unsigned f ''x1'') size_at (le_int d)) True failure)))
      (finish_entry cont resume)))"

definition parent_entry :: "'w lldb \<Rightarrow> (('w, 'z) cloak_dbg_scheme, unit) py \<Rightarrow> bool \<Rightarrow> thread \<Rightarrow> frame \<Rightarrow>
    (('w, 'z) cloak_dbg_scheme, string option) py" where
  "parent_entry L cont resume t f =
     (let buffer = reg_unsigned f ''x1''; capacity = reg_unsigned f ''x2''; a = reg_unsigned f ''lr'' in
      bindP (if buffer \<noteq> 0 \<and> capacity \<noteq> 0 \<and> a \<noteq> 0 then arm_return L (th_id t) a (ParentHook buffer capacity) False [] else retP (True, []))
      (finish_entry cont resume))"

section \<open>IOKit properties\<close>

definition cf_expr :: "addr \<Rightarrow> string" where
  "cf_expr p = EXPR @ ''(void*)((const char *(*)(const void *, unsigned int))CFStringGetCStringPtr)((const void*)'' @ py_hex p @ '', 0x08000100)''"

definition cf_copy :: "addr \<Rightarrow> addr \<Rightarrow> string" where
  "cf_copy p buf = EXPR @ ''(int)((unsigned char (*)(const void *, char *, long, unsigned int))CFStringGetCString)((const void*)'' @
     py_hex p @ '', (char*)'' @ py_hex buf @ '', 256, 0x08000100)''"

definition cfstring_text :: "'w defense_env \<Rightarrow> 'w cloak_env \<Rightarrow> addr \<Rightarrow> (('w, 'z) cloak_dbg_scheme, int list option) py" where
  "cfstring_text D C p =
     (if p = 0 then retP None
      else bindP (eval_pointer D (cf_expr p)) (\<lambda>c. case c of None \<Rightarrow> retP None
        | Some a \<Rightarrow> if a \<noteq> 0 then getP (\<lambda>s. ce_cstring C (world s) a 256)
            else bindP (eval_pointer D (EXPR @ ''(void*)malloc(256)'')) (\<lambda>b. case b of None \<Rightarrow> retP None
              | Some buf \<Rightarrow> if buf = 0 then retP None
                  else bindP (eval_integer D (cf_copy p buf)) (\<lambda>copied.
                    bindP (getP (\<lambda>s. if copied = Some 1 then ce_cstring C (world s) buf 256 else None)) (\<lambda>v.
                    bindP (handle_command D (EXPR @ ''(void)free((void*)'' @ py_hex buf @ '')'')) (\<lambda>(freed, out, err).
                    retP (if freed then v else None)))))))"

definition make_cfstring :: "'w defense_env \<Rightarrow> string \<Rightarrow> (('w, 'z) cloak_dbg_scheme, int option) py" where
  "make_cfstring D t = eval_pointer D (EXPR @ ''(void*)CFStringCreateWithCString((void*)0, '' @ quoted t @ '', 0x08000100)'')"

definition cached_cfstring :: "'w defense_env \<Rightarrow> string \<Rightarrow> string \<Rightarrow> (('w, 'z) cloak_dbg_scheme, int option) py" where
  "cached_cfstring D key value = bindP (getP (\<lambda>s. map_of (ck_cf s) key)) (\<lambda>c. case c of
     Some a \<Rightarrow> retP (Some a)
   | None \<Rightarrow> bindP (make_cfstring D value) (\<lambda>p. case p of None \<Rightarrow> retP None
       | Some a \<Rightarrow> if a = 0 then retP None
           else seqP (modP (\<lambda>s. s\<lparr>ck_cf := od_set key a (ck_cf s)\<rparr>)) (retP (Some a))))"

definition iokit_answer :: "'w lldb \<Rightarrow> 'w defense_env \<Rightarrow> (('w, 'z) cloak_dbg_scheme, unit) py \<Rightarrow> bool \<Rightarrow> string \<Rightarrow> string \<Rightarrow>
    (('w, 'z) cloak_dbg_scheme, string) py" where
  "iokit_answer L D cont resume key value =
     bindP (cached_cfstring D key value) (\<lambda>c. case c of
       None \<Rightarrow> critical (''could not create replacement for '' @ key @ ''; cloak failed'')
     | Some a \<Rightarrow> bindP (eval_pointer D (EXPR @ ''(void*)CFRetain((void*)'' @ py_hex a @ '')'')) (\<lambda>kept.
         if kept \<noteq> Some a then critical (''could not retain replacement for '' @ key @ ''; cloak failed'')
         else bindP (handle_command D (''thread return '' @ py_hex a)) (\<lambda>(ok, out, err).
           if \<not> ok then seqP (handle_command D (EXPR @ ''(void)CFRelease((void*)'' @ py_hex a @ '')''))
             (critical (''could not return replacement for '' @ key @ ''; cloak failed: '' @ py_strip err))
           else seqP (record_event L ''DEFENSE'' (''spoofed IOKit property '' @ key) [(''defense'', ''analysis_cloak''),
               (''original.property'', key), (''original.result_observed'', ''False''), (''replacement'', value)])
             (seqP (whenP resume cont) (retP (''spoofed IORegistryEntryCreateCFProperty('' @ key @ '')''))))))"

definition iokit_entry :: "'w lldb \<Rightarrow> 'w defense_env \<Rightarrow> 'w cloak_env \<Rightarrow> (('w, 'z) cloak_dbg_scheme, unit) py \<Rightarrow> bool \<Rightarrow> frame \<Rightarrow>
    (('w, 'z) cloak_dbg_scheme, string option) py" where
  "iokit_entry L D C cont resume f =
     bindP (cfstring_text D C (reg_unsigned f ''x1'')) (\<lambda>key. bindP (getP (\<lambda>s. iokit_spoofs (ck_profile s))) (\<lambda>spoofs.
     bindP (case key of None \<Rightarrow> critical ''could not read IOKit property key; cloak failed''
       | Some k \<Rightarrow> (case find (\<lambda>(n, v). map byte_val n = k) spoofs of
           None \<Rightarrow> seqP (whenP resume cont) (retP [])
         | Some (n, v) \<Rightarrow> iokit_answer L D cont resume n v)) (\<lambda>m. retP (Some m))))"

section \<open>A stop at a hook\<close>

definition handle_entry :: "'w lldb \<Rightarrow> 'w defense_env \<Rightarrow> 'w cloak_env \<Rightarrow> (('w, 'z) cloak_dbg_scheme, unit) py \<Rightarrow> bool \<Rightarrow>
    thread \<Rightarrow> frame \<Rightarrow> string \<Rightarrow> (('w, 'z) cloak_dbg_scheme, string option) py" where
  "handle_entry L D C cont resume t f kind =
     (if kind = ''IORegistryEntryCreateCFProperty'' then iokit_entry L D C cont resume f
      else if kind = ''_dyld_get_image_name'' then image_entry L cont resume t f
      else if kind = ''proc_pidpath'' then parent_entry L cont resume t f
      else sysctl_entry L C cont resume t f)"

definition handle_hit :: "'w lldb \<Rightarrow> 'w defense_env \<Rightarrow> 'w cloak_env \<Rightarrow> (('w, 'z) cloak_dbg_scheme, unit) py \<Rightarrow> bool \<Rightarrow> int \<Rightarrow>
    (('w, 'z) cloak_dbg_scheme, string option) py" where
  "handle_hit L D C cont resume i =
     bindP (getP (\<lambda>s. (obs_process L (world s), ce_target C (world s), map_of (ck_returns s) i, stop_of L (world s))))
       (\<lambda>(proc, target, hook, here).
     bindP (getP (\<lambda>s. if i \<in> set (ck_bps s) then map_of (ck_entry s) i else None)) (\<lambda>entry.
     case proc of None \<Rightarrow> retP None
     | Some p \<Rightarrow> if target = None then retP None
         else (case hook of
           Some h \<Rightarrow> (case selected_thread p of
               Some t \<Rightarrow> handle_return L D C cont resume i t h
             | None \<Rightarrow> bindP (getP (\<lambda>s. map_of (ck_owners s) i)) (\<lambda>own. case own of
                 None \<Rightarrow> bindP (critical ''return hook missing thread ownership; cloak failed'') (\<lambda>m. retP (Some m))
               | Some _ \<Rightarrow> retP None))
         | None \<Rightarrow> (case (entry, here) of
             (Some kind, Some (t, f)) \<Rightarrow> handle_entry L D C cont resume t f kind
           | _ \<Rightarrow> retP None))))"


section \<open>All of a spoofed value or none\<close>

text \<open>
  What LLDB promises of memory: a full read gives the bytes; a write, complete or not, changes none
  outside its range, and one that reports success wrote them all; setting a register writes none.
\<close>

definition spoof_law :: "'w lldb \<Rightarrow> 'w defense_env \<Rightarrow> ('w \<Rightarrow> addr \<Rightarrow> char) \<Rightarrow> bool" where
  "spoof_law L D mem =
     ((\<forall>w a n d. obs_read L w a n = Some d \<longrightarrow> length d = n \<longrightarrow> (\<forall>i < n. d ! i = mem w (a + int i))) \<and>
      (\<forall>w a bs x. \<not> (a \<le> x \<and> x < a + int (length bs)) \<longrightarrow> mem (snd (de_write D a bs w)) x = mem w x) \<and>
      (\<forall>w a bs i. fst (de_write D a bs w) = (True, int (length bs)) \<longrightarrow> i < length bs \<longrightarrow>
         mem (snd (de_write D a bs w)) (a + int i) = bs ! i) \<and>
      (\<forall>t r v w. mem (snd (do_set_reg L t r v w)) = mem w))"

definition range_is :: "('w \<Rightarrow> addr \<Rightarrow> char) \<Rightarrow> 'w \<Rightarrow> addr \<Rightarrow> bytes \<Rightarrow> bool" where
  "range_is mem w a d = (\<forall>i < length d. mem w (a + int i) = d ! i)"

definition in_range :: "addr \<Rightarrow> nat \<Rightarrow> addr \<Rightarrow> bool" where
  "in_range a n x = (a \<le> x \<and> x < a + int n)"

definition same_outside :: "('w \<Rightarrow> addr \<Rightarrow> char) \<Rightarrow> 'w \<Rightarrow> 'w \<Rightarrow> addr \<Rightarrow> nat \<Rightarrow> bool" where
  "same_outside mem w w' a n = (\<forall>x. \<not> in_range a n x \<longrightarrow> mem w' x = mem w x)"

lemma range_is_at: "range_is mem w a d \<Longrightarrow> in_range a (length d) x \<Longrightarrow> mem w x = d ! nat (x - a)"
proof -
  assume r: "range_is mem w a d" and x: "in_range a (length d) x"
  then have "nat (x - a) < length d" "a + int (nat (x - a)) = x" by (auto simp: in_range_def)
  then show ?thesis using r unfolding range_is_def by metis
qed

lemma wp_write_exact:
  fixes s :: "('w, 'z) cloak_dbg_scheme"
  assumes "spoof_law L D mem"
    and "\<And>ok w ev. (ok \<Longrightarrow> range_is mem w a d) \<Longrightarrow> same_outside mem (world s) w a (length d) \<Longrightarrow> Q ok (s\<lparr>world := w, events := ev\<rparr>)"
  shows "wpP (write_exact L D a d) Q E s"
proof -
  let ?w = "snd (de_write D a d (world s))"
  let ?ok = "fst (fst (de_write D a d (world s))) \<and> snd (fst (de_write D a d (world s))) = int (length d)"
  have full: "range_is mem ?w a d" if ?ok
  proof -
    have "fst (de_write D a d (world s)) = (True, int (length d))" using that by (simp add: prod_eq_iff)
    then show ?thesis using assms(1) unfolding spoof_law_def range_is_def by blast
  qed
  have out: "same_outside mem (world s) ?w a (length d)"
    using assms(1) unfolding spoof_law_def same_outside_def in_range_def by blast
  have ev: "Q ?ok (s\<lparr>world := ?w, events := ev\<rparr>)" for ev by (rule assms(2)) (use full out in auto)
  have "s\<lparr>world := ?w, events := events s\<rparr> = s\<lparr>world := ?w\<rparr>" by simp
  with ev[of "events s"] have none: "Q ?ok (s\<lparr>world := ?w\<rparr>)" by simp
  show ?thesis
  proof (cases ?ok)
    case True
    then have t: "?ok = True" by simp
    have "Q True (s\<lparr>world := ?w, events := ev\<rparr>)" for ev using ev[of ev] unfolding t .
    then show ?thesis by (simp only: write_exact_def wp split_beta t if_True)
  next
    case False
    then have f: "?ok = False" by simp
    have "Q False (s\<lparr>world := ?w\<rparr>)" using none unfolding f .
    then have "if ?ok then P else Q ?ok (s\<lparr>world := ?w\<rparr>)" for P unfolding f by simp
    then show ?thesis by (simp only: write_exact_def wp split_beta f if_False)
  qed
qed

lemma wp_set_reg:
  fixes s :: "('w, 'z) cloak_dbg_scheme"
  assumes "spoof_law L D mem"
    and "\<And>ok w. mem w = mem (world s) \<Longrightarrow> (ok \<Longrightarrow> live_reg L w tid r = v) \<Longrightarrow> Q ok (s\<lparr>world := w\<rparr>)"
  shows "wpP (set_reg L tid r v) Q E s"
  using assms by (simp add: set_reg_def wp spoof_law_def)

lemma wp_sysctl_fail:
  assumes "df_error s = None"
    and "\<And>m. (\<not> rolled \<Longrightarrow> ends_with m ''; rollback failed'') \<Longrightarrow> Q m (s\<lparr>df_error := Some m\<rparr>)"
  shows "wpP (sysctl_fail name what rolled) Q E s"
proof -
  have "ends_with (x @ ''; rollback failed'') ''; rollback failed''" for x by (simp add: ends_with_def starts_with_def)
  from this[of "''sysctlbyname('' @ name @ '') '' @ what"] show ?thesis
    using assms by (simp add: sysctl_fail_def critical_def wp)
qed

definition untouched :: "('w \<Rightarrow> addr \<Rightarrow> char) \<Rightarrow> 'w \<Rightarrow> 'w \<Rightarrow> bool" where
  "untouched mem w w' = (mem w' = mem w)"

lemma restored:
  assumes "range_is mem w a d" "same_outside mem w w1 a (length d)" "range_is mem w2 a d" "same_outside mem w1 w2 a (length d)"
  shows "untouched mem w w2"
  unfolding untouched_def
proof
  fix x
  show "mem w2 x = mem w x"
    using assms range_is_at[OF assms(1), of x] range_is_at[OF assms(3), of x]
    by (cases "in_range a (length d) x") (auto simp: same_outside_def)
qed

text \<open>Two ranges changed and written back, in that order, whatever their overlap.\<close>

lemma restored_both:
  assumes "range_is mem w a d" "range_is mem w b e"
    and "same_outside mem w w1 a (length d)" "same_outside mem w1 w2 b (length e)"
    and "range_is mem w3 a d" "same_outside mem w2 w3 a (length d)"
    and "range_is mem w4 b e" "same_outside mem w3 w4 b (length e)"
  shows "untouched mem w w4"
  unfolding untouched_def
proof
  fix x
  show "mem w4 x = mem w x"
  proof (cases "in_range b (length e) x")
    case True
    then show ?thesis using range_is_at[OF assms(2)] range_is_at[OF assms(7)] by simp
  next
    case False
    then have "mem w4 x = mem w3 x" using assms(8) by (simp add: same_outside_def)
    moreover have "mem w3 x = mem w x"
      using False assms(3,4,6) range_is_at[OF assms(1), of x] range_is_at[OF assms(5), of x]
      by (cases "in_range a (length d) x") (auto simp: same_outside_def)
    ultimately show ?thesis by simp
  qed
qed

lemma read_exact_range: "spoof_law L D mem \<Longrightarrow> read_exact L w a n = Some d \<Longrightarrow> range_is mem w a d \<and> length d = n"
  by (auto simp: spoof_law_def read_exact_def range_is_def split: option.splits if_splits)

text \<open>
  The outcome of a return: nothing in memory changed, and the message, if any, is the error; the
  error says that undoing failed; or the whole answer is in place.
\<close>

definition answered :: "('w \<Rightarrow> addr \<Rightarrow> char) \<Rightarrow> 'w \<Rightarrow> 'w \<Rightarrow> addr \<Rightarrow> addr \<Rightarrow> bytes \<Rightarrow> bool" where
  "answered mem w w' buffer size_at payload =
     (range_is mem w' size_at (int_le 8 (int (length payload))) \<and>
      (buffer \<noteq> 0 \<longrightarrow> (\<forall>x. in_range buffer (length payload) x \<longrightarrow> \<not> in_range size_at 8 x) \<longrightarrow> range_is mem w' buffer payload) \<and>
      (\<forall>x. \<not> in_range size_at 8 x \<longrightarrow> (buffer = 0 \<or> \<not> in_range buffer (length payload) x) \<longrightarrow> mem w' x = mem w x))"

definition return_outcome :: "'w lldb \<Rightarrow> ('w \<Rightarrow> addr \<Rightarrow> char) \<Rightarrow> int \<Rightarrow> addr \<Rightarrow> addr \<Rightarrow> bytes \<Rightarrow> bool \<Rightarrow> 'w \<Rightarrow>
    string \<Rightarrow> ('w, 'z) cloak_dbg_scheme \<Rightarrow> bool" where
  "return_outcome L mem tid buffer size_at payload recover w m t =
     ((untouched mem w (world t) \<and> (df_error t = Some m \<or> (df_error t = None \<and> m = []))) \<or>
      (df_error t = Some m \<and> ends_with m ''; rollback failed'') \<or>
      (df_error t = None \<and> answered mem w (world t) buffer size_at payload \<and> (recover \<longrightarrow> live_reg L (world t) tid ''x0'' = 0)))"

lemma wp_fail_outcome:
  fixes s :: "('w, 'z) cloak_dbg_scheme"
  assumes "df_error s = None" "rolled \<Longrightarrow> untouched mem w (world s)"
  shows "wpP (sysctl_fail name what rolled) (return_outcome L mem tid buffer size_at payload recover w) E s"
  by (rule wp_sysctl_fail[OF assms(1)]) (use assms(2) in \<open>cases rolled; simp add: return_outcome_def\<close>)

lemma untouched_refl [simp]: "untouched mem w w" by (simp add: untouched_def)

lemma range_is_mem: "mem w' = mem w \<Longrightarrow> range_is mem w' a d = range_is mem w a d"
  by (simp add: range_is_def)

lemma wp_sysctl_probe:
  fixes s :: "('w, 'z) cloak_dbg_scheme"
  assumes law: "spoof_law L D mem" and err: "df_error s = None"
  shows "wpP (sysctl_probe L D name size_at payload) (return_outcome L mem tid 0 size_at payload False (world s)) (\<lambda>_ _. False) s"
proof (cases "size_at = 0 \<or> read_exact L (world s) size_at 8 = None")
  case True
  then show ?thesis using err by (auto simp: sysctl_probe_def wpP_bind wpP_simps intro!: wp_fail_outcome)
next
  case False
  then obtain old where old: "read_exact L (world s) size_at 8 = Some old" by auto
  have o': "range_is mem (world s) size_at old" "length old = 8" using read_exact_range[OF law old] by auto
  let ?R = "return_outcome L mem tid 0 size_at payload False (world s) :: string \<Rightarrow> ('w, 'z) cloak_dbg_scheme \<Rightarrow> bool"
  let ?n = "int_le 8 (int (length payload))"
  have n8: "length ?n = 8" by simp
  have bad: "wpP (write_exact L D size_at old) (\<lambda>back. wpP (sysctl_fail name ''could not write result size; cloak failed'' back) ?R (\<lambda>_ _. False))
      (\<lambda>_ _. False) (s\<lparr>world := w, events := ev\<rparr>)" if w: "same_outside mem (world s) w size_at 8" for w ev
  proof (rule wp_write_exact[OF law])
    fix ok w' ev' assume a: "ok \<Longrightarrow> range_is mem w' size_at old"
      "same_outside mem (world (s\<lparr>world := w, events := ev\<rparr>)) w' size_at (length old)"
    have "untouched mem (world s) w'" if ok
      by (rule restored[OF o'(1) _ a(1)[OF that]]) (use w a(2) o'(2) in simp_all)
    then show "wpP (sysctl_fail name ''could not write result size; cloak failed'' ok) ?R (\<lambda>_ _. False)
        (s\<lparr>world := w, events := ev, world := w', events := ev'\<rparr>)"
      using err by (intro wp_fail_outcome) simp_all
  qed
  have good: "?R (''spoofed sysctlbyname('' @ name @ '') result size'') (s\<lparr>world := w, events := ev\<rparr>)"
    if "range_is mem w size_at ?n" "same_outside mem (world s) w size_at 8" for w ev
    using that err by (simp add: return_outcome_def answered_def same_outside_def)
  have "wpP (write_exact L D size_at ?n) (\<lambda>ok. wpP (if \<not> ok then bindP (write_exact L D size_at old)
        (\<lambda>back. sysctl_fail name ''could not write result size; cloak failed'' back)
      else retP (''spoofed sysctlbyname('' @ name @ '') result size'')) ?R (\<lambda>_ _. False)) (\<lambda>_ _. False) s"
    by (rule wp_write_exact[OF law]) (use good bad n8 in \<open>auto simp: wpP_bind wpP_simps\<close>)
  then show ?thesis using False old by (simp add: sysctl_probe_def wpP_bind wpP_simps)
qed

lemma wp_sysctl_undo:
  fixes s :: "('w, 'z) cloak_dbg_scheme"
  assumes law: "spoof_law L D mem" and a: "range_is mem w0 a d" and b: "range_is mem w0 b e"
    and c: "same_outside mem w0 w1 a (length d)" "same_outside mem w1 (world s) b (length e)"
    and Q: "\<And>ok w ev. (ok \<Longrightarrow> untouched mem w0 w) \<Longrightarrow> Q ok (s\<lparr>world := w, events := ev\<rparr>)"
  shows "wpP (sysctl_undo L D a d b e) Q E s"
  unfolding sysctl_undo_def wpP_bind(1) wpP_simps(1)
proof (rule wp_write_exact[OF law])
  fix oka w3 ev3 assume w3: "oka \<Longrightarrow> range_is mem w3 a d" "same_outside mem (world s) w3 a (length d)"
  let ?s3 = "s\<lparr>world := w3, events := ev3\<rparr>"
  show "wpP (write_exact L D b e) (\<lambda>b. Q (oka \<and> b)) E ?s3"
  proof (rule wp_write_exact[OF law])
    fix okb w4 ev4 assume w4: "okb \<Longrightarrow> range_is mem w4 b e" "same_outside mem (world ?s3) w4 b (length e)"
    have "untouched mem w0 w4" if "oka \<and> okb"
      using restored_both[OF a b c w3(1) w3(2) w4(1)] that w4(2) by simp
    then have "Q (oka \<and> okb) (s\<lparr>world := w4, events := ev4\<rparr>)" by (rule Q)
    then show "Q (oka \<and> okb) (?s3\<lparr>world := w4, events := ev4\<rparr>)" by simp
  qed
qed

lemma wp_sysctl_write:
  fixes s :: "('w, 'z) cloak_dbg_scheme"
  assumes law: "spoof_law L D mem" and err: "df_error s = None" and buf: "buffer \<noteq> 0"
  shows "wpP (sysctl_write L D tid name buffer size_at payload recover returned)
     (return_outcome L mem tid buffer size_at payload recover (world s)) (\<lambda>_ _. False) s"
proof (cases "read_exact L (world s) buffer (length payload) = None \<or> read_exact L (world s) size_at 8 = None")
  case True
  then show ?thesis using err
    by (auto simp: sysctl_write_def wpP_bind wpP_simps intro!: wp_fail_outcome split: option.splits)
next
  case False
  then obtain original old where reads: "read_exact L (world s) buffer (length payload) = Some original"
    "read_exact L (world s) size_at 8 = Some old" by auto
  have orig: "range_is mem (world s) buffer original" "length original = length payload"
    and old: "range_is mem (world s) size_at old" "length old = 8" using reads read_exact_range[OF law] by auto
  let ?w = "world s"
  let ?R = "return_outcome L mem tid buffer size_at payload recover ?w :: string \<Rightarrow> ('w, 'z) cloak_dbg_scheme \<Rightarrow> bool"
  let ?n = "int_le 8 (int (length payload))"
  let ?E = "\<lambda>(_ :: exn) (_ :: ('w, 'z) cloak_dbg_scheme). False"
  have undo: "wpP (sysctl_undo L D buffer original size_at old) (\<lambda>back. wpP (sysctl_fail name what (g \<and> back)) ?R ?E) ?E t"
    if c: "same_outside mem ?w w1 buffer (length payload)" "same_outside mem w1 (world t) size_at 8" "df_error t = None"
    for t :: "('w, 'z) cloak_dbg_scheme" and w1 g what
  proof (rule wp_sysctl_undo[OF law orig(1) old(1)])
    show "same_outside mem ?w w1 buffer (length original)" "same_outside mem w1 (world t) size_at (length old)"
      using c orig(2) old(2) by simp_all
    fix ok w ev assume "ok \<Longrightarrow> untouched mem ?w w"
    then show "wpP (sysctl_fail name what (g \<and> ok)) ?R ?E (t\<lparr>world := w, events := ev\<rparr>)"
      using c(3) by (intro wp_fail_outcome) auto
  qed
  have first_bad: "wpP (write_exact L D buffer original) (\<lambda>back. wpP (sysctl_fail name what back) ?R ?E) ?E (s\<lparr>world := w, events := ev\<rparr>)"
    if w: "same_outside mem ?w w buffer (length payload)" for w ev what
  proof (rule wp_write_exact[OF law])
    fix ok w' ev' assume a: "ok \<Longrightarrow> range_is mem w' buffer original"
      "same_outside mem (world (s\<lparr>world := w, events := ev\<rparr>)) w' buffer (length original)"
    have "untouched mem ?w w'" if ok
      by (rule restored[OF orig(1) _ a(1)[OF that]]) (use w a(2) orig(2) in simp_all)
    then show "wpP (sysctl_fail name what ok) ?R ?E (s\<lparr>world := w, events := ev, world := w', events := ev'\<rparr>)"
      using err by (intro wp_fail_outcome) simp_all
  qed
  have fin: "?R (''spoofed sysctlbyname('' @ name @ '')'') t"
    if c: "range_is mem w1 buffer payload" "same_outside mem ?w w1 buffer (length payload)"
      "range_is mem w2 size_at ?n" "same_outside mem w1 w2 size_at 8" "mem (world t) = mem w2" "df_error t = None"
      "recover \<longrightarrow> live_reg L (world t) tid ''x0'' = 0" for t :: "('w, 'z) cloak_dbg_scheme" and w1 w2
  proof -
    have "range_is mem w2 buffer payload" if "\<forall>x. in_range buffer (length payload) x \<longrightarrow> \<not> in_range size_at 8 x"
      using that c(1,4) by (auto simp: range_is_def same_outside_def in_range_def)
    then show ?thesis using c buf
      by (auto simp: return_outcome_def answered_def same_outside_def range_is_mem[OF c(5)])
  qed
  have reg_bad: "wpP (set_reg L tid ''x0'' returned) (\<lambda>reg_back. wpP (sysctl_undo L D buffer original size_at old)
      (\<lambda>back. wpP (sysctl_fail name what (reg_back \<and> back)) ?R ?E) ?E) ?E t"
    if "same_outside mem ?w w1 buffer (length payload)" "same_outside mem w1 (world t) size_at 8" "df_error t = None"
    for t :: "('w, 'z) cloak_dbg_scheme" and w1 what
    by (rule wp_set_reg[OF law]) (use that in \<open>auto intro!: undo simp: same_outside_def\<close>)
  have regs: "wpP (if recover then set_reg L tid ''x0'' 0 else retP True) (\<lambda>ok. wpP (if \<not> ok then bindP (set_reg L tid ''x0'' returned) (\<lambda>reg_back.
        bindP (sysctl_undo L D buffer original size_at old) (\<lambda>back.
        sysctl_fail name ''could not write return register; cloak failed'' (reg_back \<and> back)))
      else retP (''spoofed sysctlbyname('' @ name @ '')'')) ?R ?E) ?E t"
    if c: "range_is mem w1 buffer payload" "same_outside mem ?w w1 buffer (length payload)"
      "range_is mem (world t) size_at ?n" "same_outside mem w1 (world t) size_at 8" "df_error t = None"
    for t :: "('w, 'z) cloak_dbg_scheme" and w1
  proof (cases recover)
    case False
    then show ?thesis using fin[OF c(1-4)] c(5) by (simp add: wpP_bind wpP_simps del: append_Cons)
  next
    case True
    have "wpP (set_reg L tid ''x0'' 0) (\<lambda>ok. wpP (if \<not> ok then bindP (set_reg L tid ''x0'' returned) (\<lambda>reg_back.
        bindP (sysctl_undo L D buffer original size_at old) (\<lambda>back.
        sysctl_fail name ''could not write return register; cloak failed'' (reg_back \<and> back)))
      else retP (''spoofed sysctlbyname('' @ name @ '')'')) ?R ?E) ?E t"
    proof (rule wp_set_reg[OF law])
      fix ok w assume w: "mem w = mem (world t)" "ok \<Longrightarrow> live_reg L w tid ''x0'' = 0"
      then show "wpP (if \<not> ok then bindP (set_reg L tid ''x0'' returned) (\<lambda>reg_back.
        bindP (sysctl_undo L D buffer original size_at old) (\<lambda>back.
        sysctl_fail name ''could not write return register; cloak failed'' (reg_back \<and> back)))
      else retP (''spoofed sysctlbyname('' @ name @ '')'')) ?R ?E (t\<lparr>world := w\<rparr>)"
        using c by (cases ok) (auto simp: wpP_bind wpP_simps same_outside_def simp del: append_Cons intro!: reg_bad[OF c(2)] fin[OF c(1-4)])
    qed
    then show ?thesis using True by simp
  qed
  have sizes: "wpP (write_exact L D size_at ?n) (\<lambda>ok. wpP (if \<not> ok then bindP (sysctl_undo L D buffer original size_at old) (\<lambda>back.
        sysctl_fail name ''could not write result size; cloak failed'' back)
      else bindP (if recover then set_reg L tid ''x0'' 0 else retP True) (\<lambda>ok.
        if \<not> ok then bindP (set_reg L tid ''x0'' returned) (\<lambda>reg_back.
          bindP (sysctl_undo L D buffer original size_at old) (\<lambda>back.
          sysctl_fail name ''could not write return register; cloak failed'' (reg_back \<and> back)))
        else retP (''spoofed sysctlbyname('' @ name @ '')''))) ?R ?E) ?E (s\<lparr>world := w1, events := ev\<rparr>)"
    if c: "range_is mem w1 buffer payload" "same_outside mem ?w w1 buffer (length payload)" for w1 ev
  proof (rule wp_write_exact[OF law], goal_cases)
    case (1 ok w2 ev2)
    show ?case
    proof (cases ok)
      case True
      show ?thesis
        by (simp only: True not_True_eq_False if_False wpP_bind(1), rule regs[OF c]) (use 1 True err in simp_all)
    next
      case False
      show ?thesis
        by (simp only: False not_False_eq_True if_True wpP_bind(1), rule undo[OF c(2), where g = True, simplified])
          (use 1 err in simp_all)
    qed
  qed
  show ?thesis unfolding sysctl_write_def wpP_bind(1) wpP_simps(3) reads prod.case option.case
  proof (rule wp_write_exact[OF law], goal_cases)
    case (1 ok w1 ev)
    show ?case
    proof (cases ok)
      case True
      show ?thesis
        by (simp only: True not_True_eq_False if_False wpP_bind(1), rule sizes) (use 1 True in simp_all)
    next
      case False
      show ?thesis
        by (simp only: False not_False_eq_True if_True wpP_bind(1), rule first_bad) (use 1 in simp_all)
    qed
  qed
qed


lemma wp_recover_check:
  fixes s :: "('w, 'z) cloak_dbg_scheme"
  assumes err: "df_error s = None"
    and stop: "\<And>m. returned \<noteq> 0 \<Longrightarrow> Q (False, m) (s\<lparr>df_error := Some m\<rparr>)" and no: "Q (False, []) s"
    and yes: "buffer \<noteq> 0 \<Longrightarrow> read_errno L C (world s) tid = Some ENOMEM \<Longrightarrow> returned mod 2 ^ 32 = 0xffffffff \<Longrightarrow> Q (True, []) s"
  shows "wpP (recover_check L C tid name buffer size_at capacity payload returned) Q E s"
proof -
  have fail: "wpP (sysctl_fail name what True) (\<lambda>m. Q (False, m)) E s" if "returned \<noteq> 0" for what
    by (rule wp_sysctl_fail[OF err]) (simp add: stop[OF that])
  have "returned mod 2 ^ 32 = 0xffffffff \<Longrightarrow> returned \<noteq> 0" by auto
  then show ?thesis
  proof (cases "returned mod 2 ^ 32 = 0xffffffff \<and> buffer \<noteq> 0 \<and> size_at \<noteq> 0 \<and> int (length payload) \<le> capacity")
    case False
    then show ?thesis using no by (auto simp only: recover_check_def if_False wpP_simps)
  next
    case True
    then have nz: "returned \<noteq> 0" by auto
    show ?thesis
    proof (cases "read_errno L C (world s) tid")
      case None
      then show ?thesis using True fail[OF nz] by (simp add: recover_check_def wpP_bind wpP_simps)
    next
      case (Some v)
      then show ?thesis using True no yes by (cases "v = ENOMEM") (simp_all add: recover_check_def wpP_bind wpP_simps)
    qed
  qed
qed


definition demo_cloak_env :: "demo_world cloak_env" where
  "demo_cloak_env = \<lparr>ce_target = (\<lambda>_. Some 1), ce_modules = (\<lambda>_. [''a.out'']), ce_at_entry = (\<lambda>_. True),
     ce_text = (\<lambda>_. TextAt 4096 64), ce_cstring = (\<lambda>_ _ _. None), ce_wide = (\<lambda>_. True), ce_tsd = (\<lambda>_ _. None)\<rparr>"

definition demo_cloak :: "demo_world \<Rightarrow> demo_world cloak_dbg" where
  "demo_cloak w = defense_dbg.extend (demo_defenses w) \<lparr>ck_bps = [], ck_entry = [], ck_returns = [], ck_owners = [],
     ck_cf = [], ck_cs = [], ck_owned = [], ck_owned_ids = [], ck_target = None, ck_required = [],
     ck_profile = DEFAULT_IDENTITY, ck_interpose = False, ck_pending = None, ck_patches = []\<rparr>"

lemma demo_spoof_law: "spoof_law demo_lldb demo_defense demo_mem_at"
proof -
  have w: "snd (de_write demo_defense a bs w) = snd (do_write demo_lldb a bs w)" for a bs w
    by (simp add: demo_defense_def split_beta)
  have "obs_read demo_lldb w a n = Some d \<Longrightarrow> i < n \<Longrightarrow> d ! i = demo_mem_at w (a + int i)" for w a n d i
    using demo_mem_law unfolding mem_law_def by blast
  moreover have "\<not> (a \<le> x \<and> x < a + int (length bs)) \<Longrightarrow> demo_mem_at (snd (do_write demo_lldb a bs w)) x = demo_mem_at w x" for a bs w x
    using demo_mem_law unfolding mem_law_def by blast
  moreover have "demo_mem_at (snd (do_set_reg demo_lldb t r v w)) = demo_mem_at w" for t r v w
    by (simp add: fun_eq_iff demo_mem_at_def demo_lldb_def)
  ultimately show ?thesis unfolding spoof_law_def w using demo_write_at by blast
qed

definition demo_sysctl :: demo_world where
  "demo_sysctl = demo_world\<lparr>dw_mem := zip (map int [16..<20]) ''real'' @ zip (map int [32..<40]) (int_le 8 4)\<rparr>"



section \<open>What the integrity check promises\<close>

lemma first_some_None: "first_some f xs = None \<longleftrightarrow> list_all (\<lambda>x. f x = None) xs"
  by (induction xs) (auto split: option.splits)

definition text_clean :: "'w lldb \<Rightarrow> 'w \<Rightarrow> int set \<Rightarrow> addr \<Rightarrow> addr \<Rightarrow> bool" where
  "text_clean L w hardware start stop = list_all (\<lambda>b. bp_enabled b \<longrightarrow>
     list_all (\<lambda>l. loc_enabled l \<and> start \<le> loc_addr l \<and> loc_addr l < stop \<longrightarrow>
       bp_hardware b \<and> loc_resolved l \<and> bp_id b \<in> hardware) (bp_locs b)) (obs_breakpoints L w)"

definition patches_clear :: "(addr \<times> bytes) list \<Rightarrow> addr \<Rightarrow> addr \<Rightarrow> bool" where
  "patches_clear patches start stop =
     list_all (\<lambda>(a, new). new = [] \<or> stop \<le> a \<or> a + int (length new) \<le> start) patches"

lemma text_refusal_clean:
  assumes "text_refusal L w hardware start stop patches = (True, m)"
  shows "text_clean L w hardware start stop" "patches_clear patches start stop"
proof -
  have "first_some (location_refusal hardware) (text_locations start stop (obs_breakpoints L w)) = None"
    and p: "first_some (patch_refusal start stop) patches = None"
    using assms by (auto simp: text_refusal_def split: option.splits)
  then have "list_all (\<lambda>x. location_refusal hardware x = None) (text_locations start stop (obs_breakpoints L w))"
    by (simp add: first_some_None)
  then show "text_clean L w hardware start stop"
    by (force simp: text_clean_def text_locations_def location_refusal_def list_all_iff split: if_splits)
  show "patches_clear patches start stop"
    using p by (force simp: first_some_None patches_clear_def patch_refusal_def list_all_iff split: if_splits)
qed

text \<open>
  C25. When the cloak is on and the integrity check lets the target go, no software breakpoint is
  inserted in the code of the main executable: every enabled location there is a resolved hardware
  breakpoint that the debugger or the tracer owns; no tracked patch overlaps that code; and the
  hardware sites, with the slot a step needs, fit in the processor's slots.
\<close>
theorem integrity_check_safe:
  fixes s :: "('w, 'z) cloak_dbg_scheme"
  assumes "validate_integrity L C extra s = (Inr (True, m), t)" "cloak_enabled s"
  shows "\<exists>start len. ce_text C (world s) = TextAt start len \<and> world t = world s \<and>
    text_clean L (world t) (hardware_ids t \<union> extra) start (start + len) \<and>
    hardware_ids t \<subseteq> hardware_ids s \<inter> set (bp_ids L (world s)) \<and>
    patches_clear (ck_patches t) start (start + len) \<and>
    (hardware_usage L (world t) + cloak_reserve t = 0 \<or>
     (\<exists>slots. hardware_breakpoint_capacity L = Inr slots \<and> hardware_usage L (world t) + cloak_reserve t \<le> slots))"
proof -
  let ?s = "s\<lparr>hardware_ids := hardware_ids s \<inter> set (bp_ids L (world s))\<rparr>"
  obtain start len where tx: "ce_text C (world s) = TextAt start len"
    and cap: "validate_hardware_capacity L (cloak_reserve s) (world s) = Inr ()"
    and t: "t = ?s"
    and ok: "text_refusal L (world s) (hardware_ids ?s \<union> extra) start (start + len) (ck_patches s) = (True, m)"
    using assms by (auto simp: validate_integrity_def refused_def run split: sum.splits text_section.splits if_splits exn.splits)
  have "0 \<le> cloak_reserve s" by (simp add: cloak_reserve_def)
  from capacity_bound[OF cap this] text_refusal_clean[OF ok] tx t show ?thesis
    by (auto simp: cloak_reserve_def)
qed

definition demo_guarded_cloak :: "demo_world cloak_dbg" where
  "demo_guarded_cloak = (demo_cloak (demo_world\<lparr>dw_bps := [demo_bp 1 4100, (demo_bp 2 9000)\<lparr>bp_hardware := False\<rparr>]\<rparr>))
     \<lparr>cloak_enabled := True, hardware_ids := {1}, ck_patches := [(4000, ''abcd'')]\<rparr>"

lemma integrity_check_safe_witness:
  "patches_clear (ck_patches (snd (validate_integrity demo_lldb demo_cloak_env {} demo_guarded_cloak))) 4096 4160"
proof -
  let ?r = "validate_integrity demo_lldb demo_cloak_env {} demo_guarded_cloak"
  have "fst ?r = Inr (True, ''target __text integrity protected'')" by code_simp
  then have r: "?r = (Inr (True, ''target __text integrity protected''), snd ?r)" by (metis prod.collapse)
  have on: "cloak_enabled demo_guarded_cloak" by code_simp
  have tx: "ce_text demo_cloak_env (world demo_guarded_cloak) = TextAt 4096 64" by (simp add: demo_cloak_env_def)
  from integrity_check_safe[OF r on] tx show ?thesis by auto
qed

end
