(* ===== verification/CloakSwitch.thy ===== *)
theory CloakSwitch
  imports CloakHits
begin

text \<open>
  Why a refused \<open>cloak_enable\<close> leaves nothing behind. \<open>switched\<close> says what one switch of a scrub
  changes, \<open>borrowed\<close> and \<open>hooked\<close> what holds between the steps of the cloak's switching on, and
  each step has its weakest-precondition lemma over them.
\<close>

section \<open>Switching on is all or nothing\<close>

text \<open>What a switch of one scrub leaves alone: everything of the cloak, and the hooks of the other defenses.\<close>

definition rest :: "('w, 'z) defense_dbg_scheme \<Rightarrow> ('w, 'z) defense_dbg_scheme \<Rightarrow> bool" where
  "rest s t = (defense_dbg.more t = defense_dbg.more s \<and> cloak_enabled t = cloak_enabled s \<and>
     df_ptrace t = df_ptrace s \<and> df_csops t = df_csops s \<and> df_mach t = df_mach s)"

lemma rest_frame: "dbg_frame (rest s)" and flag_frame: "dbg_frame (\<lambda>t. scrub_on j t = b)"
  by (cases j; simp add: dbg_frame_def rest_def)+

lemma rest_set [simp]: "rest s (set_scrub k b t) = rest s t" "rest s (t\<lparr>df_sysctl := i\<rparr>) = rest s t"
  "rest s (t\<lparr>df_syscalls := l\<rparr>) = rest s t"
  by (cases k; simp add: rest_def)+

lemma flag_set [simp]: "j \<noteq> k \<Longrightarrow> scrub_on j (set_scrub k b t) = scrub_on j t" "scrub_on k (set_scrub k b t) = b"
  "scrub_on j (t\<lparr>df_sysctl := i\<rparr>) = scrub_on j t" "scrub_on j (t\<lparr>df_syscalls := l\<rparr>) = scrub_on j t"
  by (cases j; cases k; simp)+

lemma keeps_sync:
  assumes "dbg_frame I" "\<And>t l. I t \<Longrightarrow> I (t\<lparr>df_syscalls := l\<rparr>)"
  shows "keepsP I (sync_syscall_bp L D)"
  unfolding sync_syscall_bp_def create_syscall_def delete_each_def
  by (intro keeps keepsP_mod assms keepsP_onW[OF assms(1)] keepsP_delete[OF assms(1)])
    (auto intro!: keeps keepsP_mod assms keepsP_onW keepsP_delete split: prod.splits)

lemma keeps_scrubs:
  assumes "dbg_frame I" "\<And>t l. I t \<Longrightarrow> I (t\<lparr>df_syscalls := l\<rparr>)" "\<And>t i. I t \<Longrightarrow> I (t\<lparr>df_sysctl := i\<rparr>)"
    "\<And>t b. I t \<Longrightarrow> I (set_scrub k b t)"
  shows "keepsP I (enable_scrub L D k)" "keepsP I (disable_scrub L D k)"
  unfolding enable_scrub_def disable_scrub_def ensure_sysctl_bp_def maybe_release_sysctl_bp_def
  by (auto intro!: keeps keepsP_mod keeps_sync[OF assms(1)] assms keepsP_onW keepsP_delete split: prod.splits)

lemma wpP_keeps: "keepsP I m \<Longrightarrow> I s \<Longrightarrow> wpP m (\<lambda>_. I) (\<lambda>_ _. True) s"
  by (auto dest!: keepsP_use elim: wpP_weaken)

lemma enable_scrub_result:
  fixes s :: "('w, 'z) defense_dbg_scheme"
  assumes law: "by_name_law L D" and off: "\<not> scrub_on k s"
  shows "wpP (enable_scrub L D k) (\<lambda>(ok, m) t. scrub_on k t = ok \<and> (\<not> ok \<longrightarrow> obs_breakpoints L (world t) = obs_breakpoints L (world s)))
    (\<lambda>_ _. True) s"
proof -
  have sync: "wpP (sync_syscall_bp L D) (\<lambda>_ t. scrub_on k t) (\<lambda>_ _. True) t" if "scrub_on k t" for t :: "('w, 'z) defense_dbg_scheme"
  proof -
    have "keepsP (\<lambda>t. scrub_on k t = True) (sync_syscall_bp L D :: (('w, 'z) defense_dbg_scheme, unit) py)"
      by (rule keeps_sync[OF flag_frame]) simp
    from wpP_keeps[OF this, of t] show ?thesis using that by simp
  qed
  have none: "obs_breakpoints L (snd (de_by_name D n m w)) = obs_breakpoints L w" if "fst (de_by_name D n m w) = None" for n m w
  proof -
    obtain r w' where c: "de_by_name D n m w = (r, w')" by fastforce
    have "case de_by_name D n m w of (r, w') \<Rightarrow> obs_target L w' = obs_target L w \<and>
     (case r of None \<Rightarrow> obs_breakpoints L w' = obs_breakpoints L w
      | Some i \<Rightarrow> i \<noteq> 0 \<and> i \<notin> set (bp_ids L w) \<and> (\<exists>b. bp_id b = i \<and> obs_breakpoints L w' = obs_breakpoints L w @ [b]))"
      by (rule law[unfolded by_name_law_def, rule_format])
    then show ?thesis using c that by simp
  qed
  have w: "scrub_on j (t\<lparr>world := x\<rparr>) = scrub_on j t" for j x and t :: "('w, 'z) defense_dbg_scheme" by (cases j) simp_all
  let ?Q = "\<lambda>(ok, m :: string) t. scrub_on k t = ok \<and> (\<not> ok \<longrightarrow> obs_breakpoints L (world t) = obs_breakpoints L (world s))"
  let ?on = "set_scrub k True s"
  have go: "wpP (seqP (sync_syscall_bp L D) (retP (True, scrub_text k True))) ?Q (\<lambda>_ _. True) t" if "scrub_on k t"
    for t :: "('w, 'z) defense_dbg_scheme" using sync[OF that] by (simp add: wpP_bind wpP_simps)
  show ?thesis
  proof (cases "obs_target L (world s) \<and> df_sysctl s = 0")
    case False
    then show ?thesis using off go[of ?on] by (simp add: enable_scrub_def ensure_sysctl_bp_def wpP_bind wpP_simps)
  next
    case True
    obtain r w' where c: "de_by_name D ''sysctl'' None (world s) = (r, w')" by fastforce
    show ?thesis
    proof (cases r)
      case None
      then show ?thesis using True c none[of "''sysctl''" None "world s"] off
        by (simp add: enable_scrub_def ensure_sysctl_bp_def wpP_bind wpP_simps wpP_onW)
    next
      case (Some i)
      then show ?thesis using True c go[of "?on\<lparr>world := w', df_sysctl := i\<rparr>"]
        by (simp add: enable_scrub_def ensure_sysctl_bp_def wpP_bind wpP_simps wpP_onW w)
    qed
  qed
qed

definition other_scrub :: "scrub \<Rightarrow> scrub" where
  "other_scrub k = (case k of Ptraced \<Rightarrow> Parent | Parent \<Rightarrow> Ptraced)"

lemma other_scrub: "other_scrub k \<noteq> k"
  by (cases k) (simp_all add: other_scrub_def)

lemma other_scrubs: "(\<forall>j. j \<noteq> k \<longrightarrow> P j) = P (other_scrub k)"
proof
  assume P: "P (other_scrub k)"
  have "P j" if "j \<noteq> k" for j using P that by (cases k; cases j) (simp_all add: other_scrub_def)
  then show "\<forall>j. j \<noteq> k \<longrightarrow> P j" by blast
qed (simp add: other_scrub)

definition switched :: "'w lldb \<Rightarrow> breakpoint list \<Rightarrow> scrub \<Rightarrow> ('w, 'z) defense_dbg_scheme \<Rightarrow> ('w, 'z) defense_dbg_scheme \<Rightarrow> bool" where
  "switched L base k s t = (defense_inv L base t \<and> rest s t \<and> (\<forall>j. j \<noteq> k \<longrightarrow> scrub_on j t = scrub_on j s))"

lemma wp_other_flags:
  fixes s :: "('w, 'z) defense_dbg_scheme"
  assumes "\<And>b I. dbg_frame I \<Longrightarrow> (\<And>t l. I t \<Longrightarrow> I (t\<lparr>df_syscalls := l\<rparr>)) \<Longrightarrow> (\<And>t i. I t \<Longrightarrow> I (t\<lparr>df_sysctl := i\<rparr>)) \<Longrightarrow>
      (\<And>t b. I t \<Longrightarrow> I (set_scrub k b t)) \<Longrightarrow> keepsP I (m :: (('w, 'z) defense_dbg_scheme, 'a) py)"
    and "wpP m (\<lambda>_. defense_inv L base) (\<lambda>_ _. False) s"
  shows "wpP m (\<lambda>_. switched L base k s) (\<lambda>_ _. False) s"
proof -
  have "wpP m (\<lambda>_ t. rest s t) (\<lambda>_ _. True) s"
    by (rule wpP_keeps[OF assms(1)[OF rest_frame]]) (simp_all, simp add: rest_def)
  moreover have "wpP m (\<lambda>_ t. \<forall>j. j \<noteq> k \<longrightarrow> scrub_on j t = scrub_on j s) (\<lambda>_ _. True) s"
  proof -
    let ?j = "other_scrub k"
    have "keepsP (\<lambda>t. scrub_on ?j t = scrub_on ?j s) m"
      by (rule assms(1)[OF flag_frame]) (simp_all add: other_scrub)
    from wpP_keeps[OF this, of s] show ?thesis by (simp add: other_scrubs)
  qed
  ultimately show ?thesis using assms(2) by (auto simp: wpP_def switched_def split: sum.splits prod.splits)
qed

lemma wp_enable_switched:
  fixes s :: "('w, 'z) defense_dbg_scheme"
  assumes laws: "bp_delete_law L" "target_law L" "by_name_law L D" and inv: "defense_inv L base s" and off: "\<not> scrub_on k s"
  shows "wpP (enable_scrub L D k) (\<lambda>(ok, m) t. switched L base k s t \<and> scrub_on k t = ok \<and>
      (\<not> ok \<longrightarrow> obs_breakpoints L (world t) = obs_breakpoints L (world s))) (\<lambda>_ _. False) s"
  using wp_other_flags[where m = "enable_scrub L D k" and k = k, OF keeps_scrubs(1) wp_enable_scrub[OF laws inv]] enable_scrub_result[OF laws(3) off]
  by (auto simp: wpP_def split: sum.splits prod.splits)

lemma wp_disable_switched:
  fixes s :: "('w, 'z) defense_dbg_scheme"
  assumes laws: "bp_delete_law L" "target_law L" "by_name_law L D" and inv: "defense_inv L base s"
  shows "wpP (disable_scrub L D k) (\<lambda>_ t. switched L base k s t \<and> \<not> scrub_on k t) (\<lambda>_ _. False) s"
proof -
  have f: "keepsP (\<lambda>t. scrub_on k t = False) (maybe_release_sysctl_bp L :: (('w, 'z) defense_dbg_scheme, unit) py)"
    unfolding maybe_release_sysctl_bp_def
    by (intro keeps keepsP_mod keepsP_delete flag_frame) (auto intro!: keeps keepsP_mod keepsP_delete simp: flag_frame[where b = False, simplified])
  have g: "keepsP (\<lambda>t. scrub_on k t = False) (sync_syscall_bp L D :: (('w, 'z) defense_dbg_scheme, unit) py)"
    by (rule keeps_sync[OF flag_frame]) simp
  have "keepsP (\<lambda>t. scrub_on k t = False) (seqP (maybe_release_sysctl_bp L) (seqP (sync_syscall_bp L D) (retP (True, scrub_text k False)))
      :: (('w, 'z) defense_dbg_scheme, bool \<times> string) py)"
    by (intro keeps f g)
  from wpP_keeps[OF this, of "set_scrub k False s"]
  have "wpP (disable_scrub L D k) (\<lambda>_ t. scrub_on k t = False) (\<lambda>_ _. True) s"
    by (simp add: disable_scrub_def wpP_bind wpP_simps)
  with wp_other_flags[where m = "disable_scrub L D k" and k = k, OF keeps_scrubs(2) wp_disable_scrub[OF laws inv]]
  show ?thesis by (auto simp: wpP_def split: sum.splits prod.splits)
qed

section \<open>Borrowed defenses and hooks of the cloak\<close>

text \<open>
  While it is switched on: the defenses in \<open>A\<close> are borrowed, the breakpoints of the target are the
  given ones, the hooks of the defenses and those of the cloak, and what was noted of a borrowed
  defense are neither given breakpoints nor hooks of the other defenses.
\<close>

definition wired :: "('w, 'z) defense_dbg_scheme \<Rightarrow> bool" where
  "wired s = (distinct (owned s) \<and> 0 \<notin> set (df_syscalls s) \<and> (df_ptraced s \<or> df_parent s) = (df_sysctl s \<noteq> 0) \<and>
     (df_syscalls s \<noteq> [] \<longrightarrow> syscall_wanted s))"

lemma defense_inv_wired: "defense_inv L base s = (holds L base (set (owned s)) (world s) \<and> wired s)"
  by (auto simp: defense_inv_def hooks_held_def wired_def)

definition own_ids :: "('w, 'z) defense_dbg_scheme \<Rightarrow> int set" where
  "own_ids s = {df_ptrace s, df_csops s, df_mach s}"

definition hooked :: "'w lldb \<Rightarrow> breakpoint list \<Rightarrow> ('w, 'z) cloak_dbg_scheme \<Rightarrow> scrub set \<Rightarrow> ('w, 'z) cloak_dbg_scheme \<Rightarrow> bool" where
  "hooked L base s0 A s = (holds L base (set (owned s) \<union> set (ck_bps s)) (world s) \<and> set (owned s) \<inter> set (ck_bps s) = {} \<and>
     wired s \<and> own_ids s = own_ids s0 \<and> ck_returns s = [] \<and> fst ` set (ck_entry s) = set (ck_bps s) \<and> set (ck_owned s) = A \<and>
     (\<forall>k. scrub_on k s = (scrub_on k s0 \<or> k \<in> A)) \<and>
     (\<forall>k ids. map_of (ck_owned_ids s) k = Some ids \<longrightarrow> set ids \<inter> (bp_id ` set base \<union> own_ids s0) = {}))"

definition borrowed :: "'w lldb \<Rightarrow> breakpoint list \<Rightarrow> ('w, 'z) cloak_dbg_scheme \<Rightarrow> scrub set \<Rightarrow> ('w, 'z) cloak_dbg_scheme \<Rightarrow> bool" where
  "borrowed L base s0 A s = (hooked L base s0 A s \<and> ck_bps s = [] \<and> ck_entry s = [] \<and> \<not> cloak_enabled s)"

lemma borrowed_inv: "borrowed L base s0 A s \<Longrightarrow> defense_inv L base s"
  unfolding borrowed_def hooked_def defense_inv_wired by (clarsimp; simp)

lemma same_cloak:
  fixes s t :: "('w, 'z) cloak_dbg_scheme"
  assumes "rest s t"
  shows "ck_bps t = ck_bps s" "ck_entry t = ck_entry s" "ck_returns t = ck_returns s" "ck_owned t = ck_owned s"
    "ck_owned_ids t = ck_owned_ids s" "cloak_enabled t = cloak_enabled s" "own_ids t = own_ids s"
  using assms by (cases s; cases t; simp add: rest_def own_ids_def)+

lemma frame_more [simp]:
  "owned (s\<lparr>ck_owned := a\<rparr>) = owned s" "wired (s\<lparr>ck_owned := a\<rparr>) = wired s" "scrub_on k (s\<lparr>ck_owned := a\<rparr>) = scrub_on k s"
  "own_ids (s\<lparr>ck_owned := a\<rparr>) = own_ids s"
  "owned (s\<lparr>ck_owned_ids := b\<rparr>) = owned s" "wired (s\<lparr>ck_owned_ids := b\<rparr>) = wired s"
  "scrub_on k (s\<lparr>ck_owned_ids := b\<rparr>) = scrub_on k s" "own_ids (s\<lparr>ck_owned_ids := b\<rparr>) = own_ids s"
  "owned (s\<lparr>ck_bps := i\<rparr>) = owned s" "wired (s\<lparr>ck_bps := i\<rparr>) = wired s" "scrub_on k (s\<lparr>ck_bps := i\<rparr>) = scrub_on k s"
  "own_ids (s\<lparr>ck_bps := i\<rparr>) = own_ids s"
  "owned (s\<lparr>ck_entry := e\<rparr>) = owned s" "wired (s\<lparr>ck_entry := e\<rparr>) = wired s" "scrub_on k (s\<lparr>ck_entry := e\<rparr>) = scrub_on k s"
  "own_ids (s\<lparr>ck_entry := e\<rparr>) = own_ids s"
  by (cases k; simp add: owned_def wired_def own_ids_def syscall_wanted_def)+

lemma frame_world [simp]:
  "wired (s\<lparr>world := w\<rparr>) = wired s" "scrub_on k (s\<lparr>world := w\<rparr>) = scrub_on k s" "own_ids (s\<lparr>world := w\<rparr>) = own_ids s"
  "wired (s\<lparr>hardware_ids := h\<rparr>) = wired s" "scrub_on k (s\<lparr>hardware_ids := h\<rparr>) = scrub_on k s"
  "own_ids (s\<lparr>hardware_ids := h\<rparr>) = own_ids s"
  by (cases k; simp add: wired_def own_ids_def)+

definition reach_law :: "'w lldb \<Rightarrow> 'w cloak_env \<Rightarrow> bool" where
  "reach_law L C = (\<forall>w. obs_target L w \<longrightarrow> ce_target C w \<noteq> None)"

lemma wp_ck_delete_one:
  fixes s :: "('w, 'z) cloak_dbg_scheme"
  assumes "bp_delete_law L" "target_law L" "reach_law L C" "holds L base I (world s)" "i \<notin> bp_id ` set base" "ck_returns s = []"
    and "\<And>w h e. holds L base (I - {i}) w \<Longrightarrow> Q () (s\<lparr>world := w, hardware_ids := h, ck_returns := [], ck_owners := e\<rparr>)"
  shows "wpP (ck_delete_one L C i) Q E s"
proof -
  have "ce_target C (world s) \<noteq> None" using assms(3,4) by (simp add: reach_law_def holds_def)
  moreover have "holds L base (I - {i}) (snd (do_bp_delete L i (world s)))" by (rule holds_delete[OF assms(1,2,4,5)])
  ultimately show ?thesis using assms(6,7) by (simp add: ck_delete_one_def wp od_pop_def)
qed

lemma wp_ck_delete:
  fixes s :: "('w, 'z) cloak_dbg_scheme"
  assumes laws: "bp_delete_law L" "target_law L" "reach_law L C"
    and "holds L base I (world s)" "set ids \<inter> bp_id ` set base = {}" "ck_returns s = []"
    and "\<And>w h e. holds L base (I - set ids) w \<Longrightarrow> Q () (s\<lparr>world := w, hardware_ids := h, ck_returns := [], ck_owners := e\<rparr>)"
  shows "wpP (ck_delete L C ids) Q E s"
  using assms(4-7) unfolding ck_delete_def
proof (induction ids arbitrary: s I)
  case Nil
  have "Q () (s\<lparr>world := world s, hardware_ids := hardware_ids s, ck_returns := [], ck_owners := ck_owners s\<rparr>)"
    by (rule Nil.prems(4)) (use Nil.prems(1) in simp)
  moreover have "s\<lparr>world := world s, hardware_ids := hardware_ids s, ck_returns := [], ck_owners := ck_owners s\<rparr> = s"
    using Nil.prems(3) by simp
  ultimately show ?case by (simp add: wp)
next
  case (Cons i ids)
  have i: "i \<notin> bp_id ` set base" and ids: "set ids \<inter> bp_id ` set base = {}" using Cons.prems(2) by auto
  show ?case unfolding forP.simps wpP_bind
  proof (rule wp_ck_delete_one[OF laws Cons.prems(1) i Cons.prems(3)])
    fix w h e assume w: "holds L base (I - {i}) w"
    show "wpP (forP (ck_delete_one L C) ids) Q E (s\<lparr>world := w, hardware_ids := h, ck_returns := [], ck_owners := e\<rparr>)"
    proof (rule Cons.IH[OF _ ids])
      fix w' h' e' assume "holds L base (I - {i} - set ids) w'"
      then have "holds L base (I - set (i # ids)) w'" unfolding list.set(2) by (subst Diff_insert2)
      from Cons.prems(4)[OF this, of e' h']
      show "Q () (s\<lparr>world := w, hardware_ids := h, ck_returns := [], ck_owners := e, world := w', hardware_ids := h',
          ck_returns := [], ck_owners := e'\<rparr>)" by simp
    qed (use w in simp_all)
  qed
qed

lemma minus_unclaimed: "K \<subseteq> W \<union> set M \<Longrightarrow> set X \<inter> (B \<union> W) = {} \<Longrightarrow> K - set (filter (\<lambda>i. i \<notin> set M) X) = K"
  by auto

lemma owned_claimed: "set (owned t) \<subseteq> own_ids t \<union> set (df_sysctl t # df_syscalls t)"
  by (auto simp: owned_def own_ids_def)

lemma wp_release_one:
  fixes s :: "('w, 'z) cloak_dbg_scheme"
  assumes laws: "bp_delete_law L" "target_law L" "by_name_law L D" "reach_law L C"
    and b: "borrowed L base s0 A s" and off: "\<not> scrub_on k s0"
  shows "wpP (seqP (release_one L D C k) (modP (\<lambda>s. s\<lparr>ck_owned := removeAll k (ck_owned s)\<rparr>)))
    (\<lambda>_. borrowed L base s0 (A - {k})) (\<lambda>_ _. False) s"
proof -
  have h: "hooked L base s0 A s" and e: "ck_bps s = []" "ck_entry s = []" "\<not> cloak_enabled s" using b by (auto simp: borrowed_def)
  let ?ids = "\<lambda>t. case map_of (ck_owned_ids t) k of None \<Rightarrow> [] | Some ids \<Rightarrow> ids"
  have after: "wpP (delete_unclaimed L C (?ids t)) (\<lambda>_ u. borrowed L base s0 (A - {k}) (u\<lparr>ck_owned := removeAll k (ck_owned u)\<rparr>)) (\<lambda>_ _. False)
      (t\<lparr>ck_owned_ids := od_pop k (ck_owned_ids t)\<rparr>)" if t: "switched L base k s t" "\<not> scrub_on k t" for t :: "('w, 'z) cloak_dbg_scheme"
  proof -
    have r: "rest s t" and inv: "holds L base (set (owned t)) (world t)" "wired t" and fl: "\<And>j. j \<noteq> k \<Longrightarrow> scrub_on j t = scrub_on j s"
      using t(1) by (auto simp: switched_def defense_inv_wired)
    let ?gone = "filter (\<lambda>i. i \<notin> set (df_sysctl t # df_syscalls t)) (?ids t)"
    have ids: "set (?ids t) \<inter> (bp_id ` set base \<union> own_ids s0) = {}"
      by (cases "map_of (ck_owned_ids s) k") (use h in \<open>simp_all add: hooked_def same_cloak[OF r]\<close>)
    have o: "own_ids t = own_ids s0" using h by (simp add: hooked_def same_cloak[OF r])
    have kept: "set (owned t) - set ?gone = set (owned t)"
      by (rule minus_unclaimed[OF owned_claimed ids[folded o]])
    have flags: "scrub_on j t = (scrub_on j s0 \<or> j \<in> A - {k})" for j using fl[of j] t(2) h off by (cases "j = k") (auto simp: hooked_def)
    show ?thesis unfolding delete_unclaimed_def wpP_bind wpP_simps
    proof (rule wp_ck_delete[OF laws(1,2,4), where I = "set (owned t)" and base = base])
      fix w hw ow assume w: "holds L base (set (owned t) - set (filter (\<lambda>i. i \<notin> set (df_sysctl (t\<lparr>ck_owned_ids := od_pop k (ck_owned_ids t)\<rparr>)
          # df_syscalls (t\<lparr>ck_owned_ids := od_pop k (ck_owned_ids t)\<rparr>))) (?ids t))) w"
      let ?u = "t\<lparr>ck_owned_ids := od_pop k (ck_owned_ids t), world := w, hardware_ids := hw, ck_returns := [], ck_owners := ow\<rparr>"
      have "owned ?u = owned t" "wired ?u = wired t" "own_ids ?u = own_ids t" "\<And>j. scrub_on j ?u = scrub_on j t"
        by (simp_all add: owned_def wired_def own_ids_def syscall_wanted_def, case_tac j, simp_all)
      then show "borrowed L base s0 (A - {k}) (?u\<lparr>ck_owned := removeAll k (ck_owned ?u)\<rparr>)"
        using w kept h e inv(2) flags by (auto simp: borrowed_def hooked_def same_cloak[OF r] od_get_pop split: if_splits)
    qed (use inv ids h in \<open>auto simp: same_cloak[OF r] hooked_def\<close>)
  qed
  show ?thesis unfolding release_one_def wpP_bind wpP_simps
    by (rule wpP_weaken[OF wp_disable_switched[OF laws(1-3) borrowed_inv[OF b], of k]]) (use after in \<open>auto simp: wp\<close>)
qed

lemma wp_rollback:
  fixes s :: "('w, 'z) cloak_dbg_scheme"
  assumes laws: "bp_delete_law L" "target_law L" "by_name_law L D" "reach_law L C"
    and "borrowed L base s0 A s" "\<And>k. k \<in> set ks \<Longrightarrow> \<not> scrub_on k s0"
  shows "wpP (rollback_existing L D C ks) (\<lambda>_. borrowed L base s0 (A - set ks)) (\<lambda>_ _. False) s"
proof -
  let ?f = "\<lambda>k. seqP (release_one L D C k) (modP (\<lambda>s. s\<lparr>ck_owned := removeAll k (ck_owned s)\<rparr>))"
  have "wpP (forP ?f js) (\<lambda>_. borrowed L base s0 (A - set js)) (\<lambda>_ _. False) s"
    if "borrowed L base s0 A s" "\<And>k. k \<in> set js \<Longrightarrow> \<not> scrub_on k s0" for js A and s :: "('w, 'z) cloak_dbg_scheme"
    using that
  proof (induction js arbitrary: A s)
    case (Cons k js)
    have "wpP (?f k) (\<lambda>_. borrowed L base s0 (A - {k})) (\<lambda>_ _. False) s"
      by (rule wp_release_one[OF laws Cons.prems(1)]) (use Cons.prems(2) in simp)
    then show ?case unfolding forP.simps wpP_bind(2)[of "?f k"]
    proof (rule wpP_weaken)
      fix t assume "borrowed L base s0 (A - {k}) t"
      from Cons.IH[OF this] show "wpP (forP ?f js) (\<lambda>_. borrowed L base s0 (A - set (k # js))) (\<lambda>_ _. False) t"
        using Cons.prems(2) unfolding list.set(2) by (subst Diff_insert2) simp
    qed simp
  qed (simp add: wp)
  from this[of A s "rev ks"] show ?thesis using assms(5,6) by (simp add: rollback_existing_def)
qed

lemma switched_borrowed:
  fixes s t :: "('w, 'z) cloak_dbg_scheme"
  assumes "switched L base k s t" "borrowed L base s0 A s" "scrub_on k t = (scrub_on k s0 \<or> k \<in> A)"
  shows "borrowed L base s0 A t"
proof -
  have r: "rest s t" and inv: "holds L base (set (owned t)) (world t)" "wired t" and fl: "\<And>j. j \<noteq> k \<Longrightarrow> scrub_on j t = scrub_on j s"
    using assms(1) by (auto simp: switched_def defense_inv_wired)
  have "scrub_on j t = (scrub_on j s0 \<or> j \<in> A)" for j
    using fl[of j] assms(2,3) by (cases "j = k") (auto simp: borrowed_def hooked_def)
  then show ?thesis using inv assms(2) by (simp add: borrowed_def hooked_def same_cloak[OF r])
qed

lemma holds_ids: "holds L base I w \<Longrightarrow> set (bp_ids L w) = bp_id ` set base \<union> I"
  unfolding holds_def bp_ids_def by (elim conjE exE) (simp add: image_Un)

lemma switched_acquired:
  fixes s t :: "('w, 'z) cloak_dbg_scheme"
  assumes sw: "switched L base k s t" and b: "borrowed L base s0 A s" and on: "scrub_on k t"
  shows "borrowed L base s0 (insert k A) (t\<lparr>ck_owned := List.insert k (ck_owned t),
    ck_owned_ids := od_set k (filter (\<lambda>i. i \<notin> set (bp_ids L (world s))) (bp_ids L (world t))) (ck_owned_ids t)\<rparr>)"
proof -
  have r: "rest s t" and inv: "holds L base (set (owned t)) (world t)" "wired t" and fl: "\<And>j. j \<noteq> k \<Longrightarrow> scrub_on j t = scrub_on j s"
    using sw by (auto simp: switched_def defense_inv_wired)
  have own: "own_ids t = own_ids s0" "own_ids s = own_ids s0" and hs: "holds L base (set (owned s)) (world s)"
    using b by (auto simp: borrowed_def hooked_def same_cloak[OF r])
  have flags: "scrub_on j t = (scrub_on j s0 \<or> j \<in> insert k A)" for j
    using fl[of j] b on by (cases "j = k") (auto simp: borrowed_def hooked_def)
  have before: "set (bp_ids L (world s)) = bp_id ` set base \<union> set (owned s)" using hs by (rule holds_ids)
  have after: "set (bp_ids L (world t)) = bp_id ` set base \<union> set (owned t)" using inv(1) by (rule holds_ids)
  have zero: "0 \<notin> set (owned t)" using inv(2) by (auto simp: wired_def owned_def)
  have "own_ids s \<subseteq> insert 0 (set (owned s))" by (auto simp: own_ids_def owned_def)
  then have "set (filter (\<lambda>i. i \<notin> set (bp_ids L (world s))) (bp_ids L (world t))) \<inter> (bp_id ` set base \<union> own_ids s0) = {}"
    using zero own by (auto simp: before after)
  then show ?thesis using inv b flags
    by (auto simp: borrowed_def hooked_def same_cloak[OF r] own od_get_set split: if_splits)
qed

text \<open>A refused borrowing leaves nothing; an accepted one has every defense on.\<close>

fun borrowing :: "'w lldb \<Rightarrow> breakpoint list \<Rightarrow> ('w, 'z) cloak_dbg_scheme \<Rightarrow> scrub list \<Rightarrow> scrub list \<Rightarrow> string option \<times> scrub list \<Rightarrow>
    ('w, 'z) cloak_dbg_scheme \<Rightarrow> bool" where
  "borrowing L base s0 ks acquired (Some m, got) t = borrowed L base s0 {} t"
| "borrowing L base s0 ks acquired (None, got) t = (borrowed L base s0 (set got) t \<and> (\<forall>k\<in>set got. \<not> scrub_on k s0) \<and>
     set acquired \<subseteq> set got \<and> (\<forall>k\<in>set ks. scrub_on k s0 \<or> k \<in> set got))"

lemma ck_delete_Nil: "ck_delete L C [] = retP ()"
  by (simp add: ck_delete_def)

lemma wp_acquire:
  fixes s :: "('w, 'z) cloak_dbg_scheme"
  assumes laws: "bp_delete_law L" "target_law L" "by_name_law L D" "reach_law L C"
    and "borrowed L base s0 (set acquired) s" "\<And>k. k \<in> set acquired \<Longrightarrow> \<not> scrub_on k s0"
  shows "wpP (acquire L D C ks acquired) (borrowing L base s0 ks acquired) (\<lambda>_ _. False) s"
  using assms(5,6)
proof (induction ks arbitrary: acquired s)
  case Nil
  then show ?case by (simp add: wp)
next
  case (Cons k ks)
  have flag: "scrub_on k s = (scrub_on k s0 \<or> k \<in> set acquired)" using Cons.prems(1) by (simp add: borrowed_def hooked_def)
  have grow: "borrowing L base s0 (k # ks) acquired r t"
    if "borrowing L base s0 ks got r t" "set acquired \<subseteq> set got" "scrub_on k s0 \<or> k \<in> set got" for r t got
    using that by (cases "(L, base, s0, ks, got, r, t)" rule: borrowing.cases) auto
  show ?case
  proof (cases "scrub_on k s")
    case True
    then show ?thesis using wpP_weaken[OF Cons.IH[OF Cons.prems] grow] flag by (simp add: wpP_bind wpP_simps)
  next
    case False
    let ?new = "\<lambda>t. filter (\<lambda>i. i \<notin> set (bp_ids L (world s))) (bp_ids L (world t))"
    have none: "?new t = []" if "obs_breakpoints L (world t) = obs_breakpoints L (world s)" for t :: "('w, 'z) cloak_dbg_scheme"
      using that by (simp add: bp_ids_def)
    have en: "wpP (enable_scrub L D k) (\<lambda>(ok, m) t. switched L base k s t \<and> (if ok then scrub_on k t else \<not> scrub_on k t \<and> ?new t = [])) (\<lambda>_ _. False) s"
      by (rule wpP_weaken[OF wp_enable_switched[OF laws(1-3) borrowed_inv[OF Cons.prems(1)] False]]) (auto intro: none)
    have no: "wpP (rollback_existing L D C acquired) (\<lambda>_. borrowed L base s0 {}) (\<lambda>_ _. False) t"
      if "switched L base k s t" "\<not> scrub_on k t" for t :: "('w, 'z) cloak_dbg_scheme"
    proof -
      have "borrowed L base s0 (set acquired) t"
        by (rule switched_borrowed[OF that(1) Cons.prems(1)]) (use that False flag in simp)
      from wp_rollback[OF laws this, of acquired] show ?thesis using Cons.prems(2) by simp
    qed
    have yes: "wpP (acquire L D C ks (acquired @ [k])) (borrowing L base s0 (k # ks) acquired) (\<lambda>_ _. False)
        (t\<lparr>ck_owned := List.insert k (ck_owned t),
          ck_owned_ids := od_set k (filter (\<lambda>i. i \<notin> set (bp_ids L (world s))) (bp_ids L (world t))) (ck_owned_ids t)\<rparr>)"
      if "switched L base k s t" "scrub_on k t" for t :: "('w, 'z) cloak_dbg_scheme"
    proof (rule wpP_weaken[OF Cons.IH[of "acquired @ [k]"]])
      show "borrowed L base s0 (set (acquired @ [k])) (t\<lparr>ck_owned := List.insert k (ck_owned t),
          ck_owned_ids := od_set k (filter (\<lambda>i. i \<notin> set (bp_ids L (world s))) (bp_ids L (world t))) (ck_owned_ids t)\<rparr>)"
        using switched_acquired[OF that(1) Cons.prems(1) that(2)] by simp
      show "borrowing L base s0 (k # ks) acquired r u" if "borrowing L base s0 ks (acquired @ [k]) r u" for r u
        by (rule grow[OF that]) auto
    qed (use Cons.prems(2) False flag in \<open>auto\<close>)
    show ?thesis unfolding acquire.simps wpP_bind wpP_simps
    proof (simp only: prod.case if_False False wpP_bind(1), rule wpP_weaken[OF en])
    qed (use no yes in \<open>auto simp: wpP_bind wpP_simps ck_delete_Nil elim!: wpP_weaken\<close>)
  qed
qed

lemma wp_drop_hooks:
  fixes s :: "('w, 'z) cloak_dbg_scheme"
  assumes laws: "bp_delete_law L" "target_law L" "by_name_law L D" "reach_law L C"
    and h: "hooked L base s0 (set acquired) s" "\<not> cloak_enabled s" and off: "\<And>k. k \<in> set acquired \<Longrightarrow> \<not> scrub_on k s0"
  shows "wpP (drop_hooks L D C acquired) (\<lambda>_. borrowed L base s0 {}) (\<lambda>_ _. False) s"
proof -
  have w: "holds L base (set (owned s) \<union> set (ck_bps s)) (world s)" and d: "set (owned s) \<inter> set (ck_bps s) = {}"
    using h by (auto simp: hooked_def)
  then have base: "set (ck_bps s) \<inter> bp_id ` set base = {}" by (auto simp: holds_def)
  have less: "set (owned s) \<union> set (ck_bps s) - set (ck_bps s) = set (owned s)" using d by auto
  have roll: "wpP (rollback_existing L D C acquired) (\<lambda>_. borrowed L base s0 {}) (\<lambda>_ _. False)
      (s\<lparr>world := v, hardware_ids := hw, ck_returns := [], ck_owners := ow, ck_bps := [], ck_entry := []\<rparr>)"
    if v: "holds L base (set (owned s)) v" for v hw ow
  proof -
    let ?u = "s\<lparr>world := v, hardware_ids := hw, ck_returns := [], ck_owners := ow, ck_bps := [], ck_entry := []\<rparr>"
    have "owned ?u = owned s" "wired ?u = wired s" "own_ids ?u = own_ids s" "\<And>j. scrub_on j ?u = scrub_on j s"
      by (simp_all add: owned_def wired_def own_ids_def syscall_wanted_def, case_tac j, simp_all)
    then have "borrowed L base s0 (set acquired) ?u" using v h by (simp add: borrowed_def hooked_def)
    from wp_rollback[OF laws this, of acquired] off show ?thesis by simp
  qed
  show ?thesis unfolding drop_hooks_def wpP_bind wpP_simps
    by (rule wp_ck_delete[OF laws(1,2,4) w base])
      (use h roll in \<open>simp_all add: hooked_def less\<close>)
qed

definition hooking :: "'w lldb \<Rightarrow> breakpoint list \<Rightarrow> ('w, 'z) cloak_dbg_scheme \<Rightarrow> scrub list \<Rightarrow> string list \<Rightarrow> string option \<Rightarrow>
    ('w, 'z) cloak_dbg_scheme \<Rightarrow> bool" where
  "hooking L base s0 acquired names r t = (case r of Some m \<Rightarrow> borrowed L base s0 {} t
   | None \<Rightarrow> hooked L base s0 (set acquired) t \<and> \<not> cloak_enabled t \<and> set names \<subseteq> snd ` set (ck_entry t))"

lemma hooked_fresh:
  fixes s :: "('w, 'z) cloak_dbg_scheme"
  assumes "hooked L base s0 A s" "i \<notin> set (owned s) \<union> set (ck_bps s)" "holds L base (insert i (set (owned s) \<union> set (ck_bps s))) w"
  shows "hooked L base s0 A (s\<lparr>world := w, ck_bps := List.insert i (ck_bps s), ck_entry := od_set i name (ck_entry s)\<rparr>)"
    "snd ` set (od_set i name (ck_entry s)) = insert name (snd ` set (ck_entry s))"
proof -
  have k: "i \<notin> fst ` set (ck_entry s)" using assms(1,2) by (auto simp: hooked_def)
  then have e: "od_set i name (ck_entry s) = ck_entry s @ [(i, name)]"
    by (intro od_set_fresh) (simp add: map_of_eq_None_iff)
  show "snd ` set (od_set i name (ck_entry s)) = insert name (snd ` set (ck_entry s))" by (simp add: e)
  show "hooked L base s0 A (s\<lparr>world := w, ck_bps := List.insert i (ck_bps s), ck_entry := od_set i name (ck_entry s)\<rparr>)"
    using assms e by (auto simp: hooked_def Un_commute insert_commute)
qed

lemma hooked_world:
  "hooked L base s0 A s \<Longrightarrow> holds L base (set (owned s) \<union> set (ck_bps s)) w \<Longrightarrow> hooked L base s0 A (s\<lparr>world := w\<rparr>)"
  by (simp add: hooked_def)

lemma wp_hook_entries:
  fixes s :: "('w, 'z) cloak_dbg_scheme"
  assumes laws: "bp_delete_law L" "target_law L" "by_name_law L D" "reach_law L C"
    and "hooked L base s0 (set acquired) s" "\<not> cloak_enabled s" "set seen \<subseteq> snd ` set (ck_entry s)"
    and off: "\<And>k. k \<in> set acquired \<Longrightarrow> \<not> scrub_on k s0"
  shows "wpP (hook_entries L D C acquired names) (hooking L base s0 acquired (seen @ names)) (\<lambda>_ _. False) s"
  using assms(5-7)
proof (induction names arbitrary: s seen)
  case Nil
  then show ?case by (simp add: wp hooking_def)
next
  case (Cons name names)
  let ?I = "set (owned s) \<union> set (ck_bps s)"
  have I: "holds L base ?I (world s)" using Cons.prems(1) by (simp add: hooked_def)
  have drop: "wpP (drop_hooks L D C acquired) (\<lambda>_. hooking L base s0 acquired (seen @ name # names) (Some m)) (\<lambda>_ _. False) (s\<lparr>world := w\<rparr>)"
    if "holds L base ?I w" for w m
    by (rule wpP_weaken[OF wp_drop_hooks[OF laws hooked_world[OF Cons.prems(1) that] _ off]])
      (use Cons.prems(2) in \<open>simp_all add: hooking_def\<close>)
  show ?case unfolding hook_entries.simps wpP_bind(1)
  proof (rule wp_by_name[OF laws(3) I])
    fix w assume "holds L base ?I w"
    from drop[OF this] show "wpP (getP (\<lambda>s. case None of None \<Rightarrow> False | Some i \<Rightarrow> placed L C (world s) name i))
        (\<lambda>good. wpP (case None of None \<Rightarrow> seqP (drop_hooks L D C acquired)
            (retP (Some (''could not enable '' @ name @ '' cloak: symbol not found'')))
          | Some i \<Rightarrow> if good then seqP (modP (\<lambda>s. s\<lparr>ck_bps := List.insert i (ck_bps s), ck_entry := od_set i name (ck_entry s)\<rparr>))
              (hook_entries L D C acquired names)
            else seqP (onW (do_bp_delete L i)) (seqP (drop_hooks L D C acquired)
              (retP (Some (''could not enable '' @ name @ '' cloak: symbol not found'')))))
          (hooking L base s0 acquired (seen @ name # names)) (\<lambda>_ _. False)) (\<lambda>_ _. False) (s\<lparr>world := w\<rparr>)"
      by (simp add: wpP_bind wpP_simps)
  next
    fix i w assume i: "i \<noteq> 0" "i \<notin> ?I" "holds L base (insert i ?I) w"
    have "holds L base (insert i ?I - {i}) (snd (do_bp_delete L i w))"
      by (rule holds_delete[OF laws(1,2) i(3)]) (use i(3) in \<open>auto simp: holds_def\<close>)
    then have gone: "holds L base ?I (snd (do_bp_delete L i w))" using i(2) by simp
    let ?t = "s\<lparr>world := w, ck_bps := List.insert i (ck_bps s), ck_entry := od_set i name (ck_entry s)\<rparr>"
    have "wpP (hook_entries L D C acquired names) (hooking L base s0 acquired ((seen @ [name]) @ names)) (\<lambda>_ _. False) ?t"
      by (rule Cons.IH[OF hooked_fresh(1)[OF Cons.prems(1) i(2,3)]])
        (use Cons.prems(2,3) hooked_fresh(2)[OF Cons.prems(1) i(2,3)] in auto)
    then have more: "wpP (hook_entries L D C acquired names) (hooking L base s0 acquired (seen @ name # names)) (\<lambda>_ _. False) ?t"
      by simp
    show "wpP (getP (\<lambda>s. case Some i of None \<Rightarrow> False | Some i \<Rightarrow> placed L C (world s) name i))
        (\<lambda>good. wpP (case Some i of None \<Rightarrow> seqP (drop_hooks L D C acquired)
            (retP (Some (''could not enable '' @ name @ '' cloak: symbol not found'')))
          | Some i \<Rightarrow> if good then seqP (modP (\<lambda>s. s\<lparr>ck_bps := List.insert i (ck_bps s), ck_entry := od_set i name (ck_entry s)\<rparr>))
              (hook_entries L D C acquired names)
            else seqP (onW (do_bp_delete L i)) (seqP (drop_hooks L D C acquired)
              (retP (Some (''could not enable '' @ name @ '' cloak: symbol not found'')))))
          (hooking L base s0 acquired (seen @ name # names)) (\<lambda>_ _. False)) (\<lambda>_ _. False) (s\<lparr>world := w\<rparr>)"
      using more drop[OF gone] by (simp add: wpP_bind wpP_simps wpP_onW)
  qed
qed

text \<open>Expressions leave the breakpoints and the target alone.\<close>

definition expr_law :: "'w lldb \<Rightarrow> 'w defense_env \<Rightarrow> bool" where
  "expr_law L D = (\<forall>e w. obs_breakpoints L (snd (de_command D (EXPR @ e) w)) = obs_breakpoints L w \<and>
     obs_target L (snd (de_command D (EXPR @ e) w)) = obs_target L w)"

definition ready :: "'w lldb \<Rightarrow> breakpoint list \<Rightarrow> ('w, 'z) cloak_dbg_scheme \<Rightarrow> scrub list \<Rightarrow> string list \<Rightarrow> ('w, 'z) cloak_dbg_scheme \<Rightarrow> bool" where
  "ready L base s0 acquired names t = (hooked L base s0 (set acquired) t \<and> \<not> cloak_enabled t \<and> set names \<subseteq> snd ` set (ck_entry t))"

lemma ready_holds: "ready L base s0 acquired names t \<Longrightarrow> holds L base (set (owned t) \<union> set (ck_bps t)) (world t)"
  by (simp add: ready_def hooked_def)

lemma keeps_expression:
  assumes "expr_law L D"
  shows "keepsP (ready L base s0 acquired names) (handle_command D (EXPR @ e))"
proof -
  have "ready L base s0 acquired names (t\<lparr>world := snd (de_command D (EXPR @ e) (world t))\<rparr>)"
    if "ready L base s0 acquired names t" for t
    using that assms ready_holds[OF that] by (simp add: ready_def hooked_world holds_def expr_law_def)
  then have "keepsP (ready L base s0 acquired names) (onW (de_command D (EXPR @ e)))" by (simp add: keepsP_wp wpP_onW)
  then show ?thesis unfolding handle_command_def by (intro keepsP_bind keepsP_base keepsP_option)
qed

lemma keeps_environment:
  assumes "expr_law L D"
  shows "keepsP (ready L base s0 acquired names) (scrub_live_environment D)"
  unfolding scrub_live_environment_def
  by (intro keeps keeps_expression[OF assms])

fun outcome :: "'w lldb \<Rightarrow> breakpoint list \<Rightarrow> ('w, 'z) cloak_dbg_scheme \<Rightarrow> bool \<Rightarrow> ('w, 'z) cloak_dbg_scheme \<Rightarrow> bool" where
  "outcome L base s True t = (cloak_enabled t \<and> (\<forall>k. scrub_on k t) \<and> fst ` set (ck_entry t) = set (ck_bps t) \<and>
     set ENTRY_SYMBOLS \<subseteq> snd ` set (ck_entry t) \<and> set (owned t) \<inter> set (ck_bps t) = {} \<and>
     holds L base (set (owned t) \<union> set (ck_bps t)) (world t))"
| "outcome L base s False t = (\<not> cloak_enabled t \<and> ck_bps t = [] \<and> ck_entry t = [] \<and> ck_owned t = [] \<and>
     (\<forall>k. scrub_on k t = scrub_on k s) \<and> holds L base (set (owned t)) (world t))"

lemma borrowed_outcome: "borrowed L base s {} t \<Longrightarrow> outcome L base s False t"
  unfolding borrowed_def hooked_def by (clarsimp; simp)

lemma wp_hooked_env:
  fixes s :: "('w, 'z) cloak_dbg_scheme"
  assumes laws: "bp_delete_law L" "target_law L" "by_name_law L D" "reach_law L C" "expr_law L D"
    and r: "ready L base s0 acquired ENTRY_SYMBOLS s" and off: "\<And>k. k \<in> set acquired \<Longrightarrow> \<not> scrub_on k s0"
    and all: "\<And>k. scrub_on k s0 \<or> k \<in> set acquired"
  shows "wpP (hooked_env L D C acquired) (\<lambda>(ok, m). outcome L base s0 ok) (\<lambda>_ _. False) s"
proof -
  have nofail: "wpP (scrub_live_environment D) (\<lambda>_ _. True) (\<lambda>_ _. False) s"
    unfolding scrub_live_environment_def wpP_bind
    by (rule wpP_fold[where I = "\<lambda>_ _. True", THEN wpP_weaken])
      (auto simp: handle_command_def wpP_bind wpP_simps wpP_onW split: option.splits prod.splits)
  have ok: "wpP (scrub_live_environment D) (\<lambda>_. ready L base s0 acquired ENTRY_SYMBOLS) (\<lambda>_ _. False) s"
    using wpP_conj[OF keepsP_use[OF keeps_environment[OF laws(5)] r] nofail] by (auto elim: wpP_weaken)
  have drop: "wpP (drop_hooks L D C acquired) (\<lambda>_. outcome L base s0 False) (\<lambda>_ _. False) t"
    if "ready L base s0 acquired ENTRY_SYMBOLS t" for t
    by (rule wpP_weaken[OF wp_drop_hooks[OF laws(1-4) _ _ off]])
      (use that borrowed_outcome in \<open>auto simp: ready_def\<close>)
  have fin: "outcome L base s0 True (switched_on C t)" if "ready L base s0 acquired ENTRY_SYMBOLS t" for t
  proof -
    have "owned (switched_on C t) = owned t" "\<And>k. scrub_on k (switched_on C t) = scrub_on k t"
      by (simp_all add: switched_on_def owned_def, case_tac k, simp_all)
    then show ?thesis using that all by (auto simp: ready_def hooked_def switched_on_def)
  qed
  show ?thesis unfolding hooked_env_def wpP_bind
    by (rule wpP_weaken[OF ok])
      (use drop fin in \<open>auto simp: wpP_bind wpP_simps refused_def simp del: outcome.simps split: prod.splits\<close>)
qed

text \<open>A cloak as a session has it before it is first switched on, or after it was switched off.\<close>

definition cloak_off :: "('w, 'z) cloak_dbg_scheme \<Rightarrow> bool" where
  "cloak_off s = (\<not> cloak_enabled s \<and> ck_bps s = [] \<and> ck_entry s = [] \<and> ck_returns s = [] \<and> ck_owned s = [] \<and> ck_owned_ids s = [])"

lemma wp_cloak_enable:
  fixes s :: "('w, 'z) cloak_dbg_scheme"
  assumes laws: "bp_delete_law L" "target_law L" "by_name_law L D" "reach_law L C" "expr_law L D"
    and inv: "defense_inv L base s" and off: "cloak_off s"
  shows "wpP (cloak_enable L D C) (\<lambda>(ok, m). outcome L base s ok) (\<lambda>_ _. False) s"
proof -
  let ?s = "s\<lparr>df_error := None\<rparr>"
  have "owned ?s = owned s" "wired ?s = wired s" "own_ids ?s = own_ids s" "\<And>j. scrub_on j ?s = scrub_on j s"
    by (simp_all add: owned_def wired_def own_ids_def syscall_wanted_def, case_tac j, simp_all)
  then have b: "borrowed L base s {} ?s"
    using inv off by (auto simp: borrowed_def hooked_def cloak_off_def defense_inv_wired)
  then have same: "outcome L base s False ?s" by (rule borrowed_outcome)
  have hooks: "wpP (hook_entries L D C got ENTRY_SYMBOLS)
      (\<lambda>failed. wpP (case failed of None \<Rightarrow> hooked_env L D C got | Some m \<Rightarrow> refused m) (\<lambda>(ok, m). outcome L base s ok) (\<lambda>_ _. False))
      (\<lambda>_ _. False) t"
    if t: "borrowing L base s EXISTING [] (None, got) t" for t :: "('w, 'z) cloak_dbg_scheme" and got
  proof (rule wpP_weaken[OF wp_hook_entries[OF laws(1-4), where seen = "[]" and acquired = got and ?s0.0 = s]])
    have "k \<in> set EXISTING" for k by (cases k) (simp_all add: EXISTING_def)
    then have all: "scrub_on k s \<or> k \<in> set got" for k using t by auto
    show "wpP (case r of None \<Rightarrow> hooked_env L D C got | Some m \<Rightarrow> refused m) (\<lambda>(ok, m). outcome L base s ok) (\<lambda>_ _. False) u"
      if "hooking L base s got ([] @ ENTRY_SYMBOLS) r u" for r u
    proof (cases r)
      case None
      have "wpP (hooked_env L D C got) (\<lambda>(ok, m). outcome L base s ok) (\<lambda>_ _. False) u"
        by (rule wp_hooked_env[OF laws]) (use that t all None in \<open>auto simp: hooking_def ready_def\<close>)
      then show ?thesis using None by simp
    next
      case (Some m)
      then show ?thesis using that borrowed_outcome by (simp add: hooking_def refused_def wpP_simps del: outcome.simps)
    qed
  qed (use t in \<open>auto simp: borrowed_def\<close>)
  have target: "ce_target C (world t) \<noteq> None" if "borrowing L base s EXISTING [] (None, got) t"
    for t :: "('w, 'z) cloak_dbg_scheme" and got
    using that laws(4) by (auto simp: borrowed_def hooked_def holds_def reach_law_def)
  have fin: "wpP (case r of (Some m, got) \<Rightarrow> refused m
      | (None, got) \<Rightarrow> bindP (getP (\<lambda>s. ce_target C (world s) \<noteq> None)) (\<lambda>target.
           bindP (if target then hook_entries L D C got ENTRY_SYMBOLS else retP None) (\<lambda>failed.
           case failed of Some m \<Rightarrow> refused m | None \<Rightarrow> hooked_env L D C got))) (\<lambda>(ok, m). outcome L base s ok) (\<lambda>_ _. False) t"
    if t: "borrowing L base s EXISTING [] r t" for r and t :: "('w, 'z) cloak_dbg_scheme"
  proof (cases r)
    case (Pair f got)
    show ?thesis
    proof (cases f)
      case None
      then show ?thesis using Pair t hooks target by (simp add: wpP_bind wpP_simps del: outcome.simps borrowing.simps)
    next
      case (Some m)
      then have "borrowed L base s {} t" using Pair t by simp
      then show ?thesis using Pair Some borrowed_outcome by (simp add: refused_def wpP_simps del: outcome.simps)
    qed
  qed
  have acq: "wpP (acquire L D C EXISTING []) (borrowing L base s EXISTING []) (\<lambda>_ _. False) ?s"
    by (rule wp_acquire[OF laws(1-4)]) (use b in simp_all)
  have on: "wpP (acquire L D C EXISTING []) (\<lambda>r. wpP (case r of (Some m, got) \<Rightarrow> refused m
      | (None, got) \<Rightarrow> bindP (getP (\<lambda>s. ce_target C (world s) \<noteq> None)) (\<lambda>target.
           bindP (if target then hook_entries L D C got ENTRY_SYMBOLS else retP None) (\<lambda>failed.
           case failed of Some m \<Rightarrow> refused m | None \<Rightarrow> hooked_env L D C got))) (\<lambda>(ok, m). outcome L base s ok) (\<lambda>_ _. False))
      (\<lambda>_ _. False) ?s"
    by (rule wpP_weaken[OF acq]) (use fin in auto)
  have "\<not> cloak_enabled s" using off by (simp add: cloak_off_def)
  then show ?thesis using same on unfolding cloak_enable_def
    by (simp add: wpP_bind wpP_simps refused_def case_prod_unfold del: outcome.simps)
qed

lemma keeps_own:
  assumes "dbg_frame I" "\<And>t l. I t \<Longrightarrow> I (t\<lparr>df_syscalls := l\<rparr>)" "\<And>t i. I t \<Longrightarrow> I (set_hook k i t)"
  shows "keepsP I (enable_own L D k)" "keepsP I (disable_own L D k)"
  using assms(3) unfolding enable_own_def disable_own_def
  by (auto intro!: keeps keepsP_mod keeps_sync[OF assms(1)] assms keepsP_onW keepsP_delete simp del: set_hook.simps split: prod.splits)

definition same_more :: "('w, 'z) defense_dbg_scheme \<Rightarrow> ('w, 'z) defense_dbg_scheme \<Rightarrow> bool" where
  "same_more s t = (defense_dbg.more t = defense_dbg.more s \<and> cloak_enabled t = cloak_enabled s)"

lemma same_more_frame: "dbg_frame (same_more s)" "same_more s t \<Longrightarrow> same_more s (t\<lparr>df_syscalls := l\<rparr>)"
  "same_more s t \<Longrightarrow> same_more s (t\<lparr>df_sysctl := i\<rparr>)" "same_more s t \<Longrightarrow> same_more s (set_hook h i t)"
  "same_more s t \<Longrightarrow> same_more s (set_scrub k b t)"
  by (cases h; cases k; simp add: dbg_frame_def same_more_def)+

lemma toggles_same_more: "same_more s (toggles L D ops s)"
proof -
  have step: "same_more s (toggle_step L D x t)" if "same_more s t" for x t
  proof (cases x)
    case (Own k on)
    have "keepsP (same_more s) (enable_own L D k)" "keepsP (same_more s) (disable_own L D k)"
      by (rule keeps_own[OF same_more_frame(1,2,4)]; assumption)+
    then show ?thesis using that Own by (simp add: keepsP_D)
  next
    case (Scrub k on)
    have "keepsP (same_more s) (enable_scrub L D k)" "keepsP (same_more s) (disable_scrub L D k)"
      by (rule keeps_scrubs[OF same_more_frame(1,2,3,5)]; assumption)+
    then show ?thesis using that Scrub by (simp add: keepsP_D)
  qed
  have "same_more s t \<Longrightarrow> same_more s (fold (toggle_step L D) ops t)" for t
    by (induction ops arbitrary: t) (simp_all add: step)
  then show ?thesis by (simp add: toggles_def same_more_def)
qed

lemma toggles_cloak_off:
  fixes s :: "('w, 'z) cloak_dbg_scheme"
  assumes "cloak_off s"
  shows "cloak_off (toggles L D ops s)"
  using assms toggles_same_more[of s L D ops]
  by (cases s; cases "toggles L D ops s"; simp add: cloak_off_def same_more_def)


text \<open>A target that refuses the cloak's expressions: the hooks already made are taken back.\<close>

definition demo_refusing :: "demo_world defense_env" where
  "demo_refusing = demo_defense\<lparr>de_command := (\<lambda>c w. ((False, [], ''denied''), w))\<rparr>"


end
