(* ===== verification/ClockBindings.thy ===== *)
theory ClockBindings
  imports PatchExport Markers
begin

text \<open>
  \<open>macdbg/core/clock_bindings.py\<close>: the import slots of the main executable, read from its loaded
  Mach-O commands, and \<open>ClockBindings\<close>, which points them at forwarders in a page of its own.
  What the target's binary says is not trusted: every count and offset is checked before it is used.
\<close>

section \<open>The import tables\<close>

text \<open>Pointer sections as (address, count, first index); library names are kept as bytes, of which only an ASCII prefix matters.\<close>

record import_tables =
  tb_offset :: int
  tb_slots :: "(int \<times> int \<times> int) list"
  tb_symtab :: "(int \<times> int \<times> int \<times> int) option"
  tb_indirect :: "(int \<times> int) option"
  tb_linkedit :: "(int \<times> int \<times> int) option"
  tb_slide :: "int option"
  tb_libraries :: "bytes list"

definition no_tables :: import_tables where
  "no_tables = \<lparr>tb_offset = 0, tb_slots = [], tb_symtab = None, tb_indirect = None, tb_linkedit = None, tb_slide = None,
     tb_libraries = []\<rparr>"

definition broken :: "string \<Rightarrow> 'a res" where
  "broken m = Inl (RuntimeError m)"

text \<open>\<open>read\<close>: all the bytes asked for, or an error.\<close>

definition read_all :: "'w lldb \<Rightarrow> 'w \<Rightarrow> addr \<Rightarrow> int \<Rightarrow> bytes res" where
  "read_all L w a n = (let d = read_memory L w a (nat n) in
     if len_i d \<noteq> n then broken ''cannot read Mach-O import metadata'' else Inr d)"

text \<open>\<open>data.find(b'\\0', at)\<close>\<close>

definition find_nul :: "bytes \<Rightarrow> int \<Rightarrow> int option" where
  "find_nul d at = (let rest = drop (nat at) d; k = length (takeWhile (\<lambda>c. byte_val c \<noteq> 0) rest) in
     if at \<le> len_i d \<and> k < length rest then Some (at + int k) else None)"

definition pointer_section :: "bytes \<Rightarrow> int \<Rightarrow> int \<Rightarrow> int \<Rightarrow> import_tables \<Rightarrow> import_tables res" where
  "pointer_section data vmaddr vmsize i tb =
     (let section = bytes_at data (72 + i * 80) 80;
          address = le_at section 32 8; sz = le_at section 40 8;
          flags = le_at section 64 4; first = le_at section 68 4 in
      if flags AND 0xff = 6 \<or> flags AND 0xff = 7 then
        bindR (guardR (\<not> (sz mod 8 \<noteq> 0 \<or> sz > 1048576)) (RuntimeError ''invalid Mach-O import pointer section'')) (\<lambda>_.
        bindR (guardR (\<not> (address < vmaddr \<or> address + sz > vmaddr + vmsize)) (RuntimeError ''Mach-O import pointers escape their segment'')) (\<lambda>_.
        Inr (tb\<lparr>tb_slots := tb_slots tb @ [(address, sz div 8, first)]\<rparr>)))
      else Inr tb)"

definition segment_command :: "addr \<Rightarrow> bytes \<Rightarrow> int \<Rightarrow> import_tables \<Rightarrow> import_tables res" where
  "segment_command header data sz tb =
     bindR (guardR (\<not> sz < 72) (RuntimeError ''truncated Mach-O segment'')) (\<lambda>_.
     let name = rstrip_by (\<lambda>c. byte_val c = 0) (bytes_at data 8 16);
         vmaddr = le_at data 24 8; vmsize = le_at data 32 8; fileoff = le_at data 40 8; filesize = le_at data 48 8;
         sections = le_at data 64 4 in
     bindR (guardR (\<not> 72 + sections * 80 > sz) (RuntimeError ''truncated Mach-O sections'')) (\<lambda>_.
     let tb1 = (if name = ''__TEXT'' then tb\<lparr>tb_slide := Some (header - vmaddr)\<rparr> else tb);
         tb2 = (if name = ''__LINKEDIT'' then tb1\<lparr>tb_linkedit := Some (vmaddr, fileoff, filesize)\<rparr> else tb1) in
     foldR (pointer_section data vmaddr vmsize) [0..sections - 1] tb2))"

definition library_command :: "bytes \<Rightarrow> int \<Rightarrow> import_tables \<Rightarrow> import_tables res" where
  "library_command data sz tb =
     bindR (guardR (\<not> sz < 24) (RuntimeError ''truncated Mach-O library command'')) (\<lambda>_.
     let at = le_at data 8 4 in
     case find_nul data at of
       Some stop \<Rightarrow> if at < 24 \<or> at \<ge> sz then broken ''invalid Mach-O library name''
         else Inr (tb\<lparr>tb_libraries := tb_libraries tb @ [bytes_at data at (stop - at)]\<rparr>)
     | None \<Rightarrow> broken ''invalid Mach-O library name'')"

text \<open>One load command, at the offset the commands before it reached.\<close>

definition load_command :: "addr \<Rightarrow> bytes \<Rightarrow> int \<Rightarrow> int \<Rightarrow> import_tables \<Rightarrow> import_tables res" where
  "load_command header commands len k tb =
     (let offset = tb_offset tb in
      bindR (guardR (\<not> offset + 8 > len) (RuntimeError ''truncated Mach-O load command'')) (\<lambda>_.
      let command = le_at commands offset 4; sz = le_at commands (offset + 4) 4 in
      bindR (guardR (\<not> (sz < 8 \<or> offset + sz > len)) (RuntimeError ''invalid Mach-O load command size'')) (\<lambda>_.
      let data = bytes_at commands offset sz in
      bindR (if command = 0x19 then segment_command header data sz tb
        else if command = 2 \<and> sz \<ge> 24
        then Inr (tb\<lparr>tb_symtab := Some (le_at data 8 4, le_at data 12 4, le_at data 16 4, le_at data 20 4)\<rparr>)
        else if command = 0xb \<and> sz \<ge> 80 then Inr (tb\<lparr>tb_indirect := Some (le_at data 56 4, le_at data 60 4)\<rparr>)
        else if command \<in> {0xc, 0x80000018, 0x8000001f, 0x20, 0x80000023} then library_command data sz tb
        else Inr tb) (\<lambda>tb'.
      Inr (tb'\<lparr>tb_offset := offset + sz\<rparr>)))))"

definition linkedit_data :: "'w lldb \<Rightarrow> 'w \<Rightarrow> int \<times> int \<times> int \<Rightarrow> int \<Rightarrow> int \<Rightarrow> int \<Rightarrow> bytes res" where
  "linkedit_data L w linkedit slide at sz = (case linkedit of (vmaddr, fileoff, filesize) \<Rightarrow>
     bindR (guardR (\<not> (at < fileoff \<or> sz > 16777216 \<or> at + sz > fileoff + filesize))
       (RuntimeError ''Mach-O import table is out of bounds'')) (\<lambda>_. read_all L w (vmaddr + slide + at - fileoff) sz))"

text \<open>The name of a symbol without its underscore; a byte that is not ASCII is replaced.\<close>

definition import_name :: "bytes \<Rightarrow> int \<Rightarrow> int \<Rightarrow> string" where
  "import_name strings at stop = (let n = map (\<lambda>c. if byte_val c < 128 then c else other_char) (bytes_at strings at (stop - at)) in
     case n of c # r \<Rightarrow> if c = CHR ''_'' then r else n | [] \<Rightarrow> n)"

definition system_library :: "bytes list \<Rightarrow> int \<Rightarrow> bool" where
  "system_library libs ordinal = (0 < ordinal \<and> ordinal \<le> len_i libs \<and>
     (starts_with (libs ! nat (ordinal - 1)) ''/usr/lib/'' \<or> starts_with (libs ! nat (ordinal - 1)) ''/System/Library/''))"

text \<open>One pointer of a section: skipped, or an import with the bytes it holds.\<close>

definition import_at :: "'w lldb \<Rightarrow> 'w \<Rightarrow> (string, addr) odict \<Rightarrow> import_tables \<Rightarrow> int \<Rightarrow> int \<Rightarrow> int \<Rightarrow>
    bytes \<Rightarrow> bytes \<Rightarrow> bytes \<Rightarrow> int \<times> int \<Rightarrow> int \<Rightarrow> (string \<times> addr \<times> bytes) list \<Rightarrow> (string \<times> addr \<times> bytes) list res" where
  "import_at L w wanted tb slide nsyms strsize symbols strings indices slot i found = (case slot of (address, first) \<Rightarrow>
     let index = le_at indices ((first + i) * 4) 4 in
     if index AND 0xc0000000 \<noteq> 0 then Inr found
     else bindR (guardR (\<not> index \<ge> nsyms) (RuntimeError ''Mach-O symbol index is out of bounds'')) (\<lambda>_.
     let string_index = le_at symbols (index * 16) 4 in
     case find_nul strings string_index of
       None \<Rightarrow> broken ''invalid Mach-O import name''
     | Some stop \<Rightarrow> if string_index \<ge> strsize then broken ''invalid Mach-O import name''
       else let name = import_name strings string_index stop in
        (case map_of wanted name of
           None \<Rightarrow> Inr found
         | Some real \<Rightarrow> if le_at symbols (index * 16 + 4) 1 AND 0x0e \<notin> {0, 0x0c} then Inr found
           else let pointer = address + slide + i * 8 in
             bindR (read_all L w pointer 8) (\<lambda>value.
             let ordinal = drop_bit 8 (le_at symbols (index * 16 + 6) 2) in
             if \<not> system_library (tb_libraries tb) ordinal \<and> le_int value \<noteq> real then Inr found
             else Inr (found @ [(name, pointer, value)])))))"

definition section_imports :: "'w lldb \<Rightarrow> 'w \<Rightarrow> (string, addr) odict \<Rightarrow> import_tables \<Rightarrow> int \<Rightarrow> int \<Rightarrow> int \<Rightarrow> int \<Rightarrow>
    bytes \<Rightarrow> bytes \<Rightarrow> bytes \<Rightarrow> int \<times> int \<times> int \<Rightarrow> (string \<times> addr \<times> bytes) list \<Rightarrow> (string \<times> addr \<times> bytes) list res" where
  "section_imports L w wanted tb slide nsyms strsize nind symbols strings indices slot found = (case slot of (address, count, first) \<Rightarrow>
     bindR (guardR (\<not> first + count > nind) (RuntimeError ''Mach-O import index is out of bounds'')) (\<lambda>_.
     foldR (import_at L w wanted tb slide nsyms strsize symbols strings indices (address, first)) [0..count - 1] found))"

definition import_slots :: "'w lldb \<Rightarrow> 'w \<Rightarrow> addr \<Rightarrow> (string, addr) odict \<Rightarrow> (string \<times> addr \<times> bytes) list res" where
  "import_slots L w header wanted =
     bindR (read_all L w header 32) (\<lambda>head.
     bindR (guardR (le_at head 0 4 = 0xfeedfacf) (RuntimeError ''clock import binding requires a 64-bit Mach-O'')) (\<lambda>_.
     let count = le_at head 16 4; len = le_at head 20 4 in
     bindR (guardR (\<not> (len > 65536 \<or> count > len div 8)) (RuntimeError ''invalid Mach-O load commands'')) (\<lambda>_.
     bindR (read_all L w (header + 32) len) (\<lambda>commands.
     bindR (foldR (load_command header commands len) [0..count - 1] no_tables) (\<lambda>tb.
     if tb_slots tb = [] then Inr []
     else case (tb_symtab tb, tb_indirect tb, tb_linkedit tb, tb_slide tb) of
       (Some (symoff, nsyms, stroff, strsize), Some (indoff, nind), Some linkedit, Some slide) \<Rightarrow>
         bindR (linkedit_data L w linkedit slide symoff (nsyms * 16)) (\<lambda>symbols.
         bindR (linkedit_data L w linkedit slide stroff strsize) (\<lambda>strings.
         bindR (linkedit_data L w linkedit slide indoff (nind * 4)) (\<lambda>indices.
         foldR (section_imports L w wanted tb slide nsyms strsize nind symbols strings indices) (tb_slots tb) [])))
     | _ \<Rightarrow> broken ''missing Mach-O import tables'')))))"

section \<open>The bindings\<close>

text \<open>
  Forwarders by name and their code by address; the bound slots with the bytes they had and got.
\<close>

record 'w bind_dbg = "'w patch_dbg" +
  cb_originals :: "(string, addr) odict"
  cb_proxies :: "(string, addr) odict"
  cb_code :: "(addr, bytes) odict"
  cb_slots :: "(addr \<times> bytes \<times> bytes) list"
  cb_skipped :: "string list"
  cb_installing :: bool
  cb_pid :: int

text \<open>
  The load address of the executable's header, its \<open>__stub_helper\<close> section, allocating and
  freeing a page in the target (a failure is its message), and \<open>handle_command\<close>.
\<close>

record 'w bind_env =
  be_header :: "'w \<Rightarrow> addr"
  be_helper :: "'w \<Rightarrow> (addr \<times> int) option"
  be_alloc :: "'w \<Rightarrow> (string + addr) \<times> 'w"
  be_free :: "addr \<Rightarrow> 'w \<Rightarrow> unit \<times> 'w"
  be_command :: "string \<Rightarrow> 'w \<Rightarrow> (bool \<times> string \<times> string) \<times> 'w"

definition new_bindings :: "int \<Rightarrow> (string, addr) odict \<Rightarrow> ('w, 'z) bind_dbg_scheme \<Rightarrow> ('w, 'z) bind_dbg_scheme" where
  "new_bindings pid originals s = s\<lparr>cb_originals := originals, cb_proxies := [], cb_code := [], cb_slots := [], cb_skipped := [],
     cb_installing := True, cb_pid := pid\<rparr>"

text \<open>\<open>value.to_bytes(8, 'little')\<close>, and \<open>struct.pack\<close> of a 64-bit field: out of range they raise.\<close>

definition u64 :: "exn \<Rightarrow> int \<Rightarrow> bytes res" where
  "u64 e v = (if 0 \<le> v \<and> v < 2 ^ 64 then Inr (int_le 8 v) else Inl e)"

definition forwarder :: "addr \<Rightarrow> bytes res" where
  "forwarder address = bindR (u64 (PyError ''struct.error'' ''pack'') address) (\<lambda>a. Inr (int_le 4 0x58000050 @ int_le 4 0xd61f0200 @ a))"

fun write_forwarders :: "'w lldb \<Rightarrow> addr \<Rightarrow> int \<Rightarrow> (string \<times> addr) list \<Rightarrow> (('w, 'z) bind_dbg_scheme, unit) py" where
  "write_forwarders L page index [] = retP ()"
| "write_forwarders L page index ((name, address) # rest) =
     (let proxy = page + index * 16 in
      bindP (liftP (forwarder address)) (\<lambda>code.
      bindP (write_memory L proxy code False) (\<lambda>(ok, message).
      seqP (checkP ok (RuntimeError (''cannot write clock forwarder: '' @ message)))
      (seqP (modP (\<lambda>s. s\<lparr>cb_proxies := od_set name proxy (cb_proxies s), cb_code := od_set proxy code (cb_code s)\<rparr>))
        (write_forwarders L page (index + 1) rest)))))"

definition protect_forwarders :: "'w bind_env \<Rightarrow> addr \<Rightarrow> (('w, 'z) bind_dbg_scheme, unit) py" where
  "protect_forwarders B page =
     bindP (onW (be_command B (''expression -l c++ --ignore-breakpoints true -- (int)mprotect((void*)'' @ py_hex page @ '', 4096, 5)'')))
       (\<lambda>(ok, out, message).
     checkP (ok \<and> ends_with (py_strip out) ''= 0'')
       (RuntimeError (''cannot protect clock forwarders: '' @ py_strip (if message \<noteq> [] then message else out))))"

definition page_forwarders :: "'w lldb \<Rightarrow> 'w bind_env \<Rightarrow> addr \<Rightarrow> (('w, 'z) bind_dbg_scheme, unit) py" where
  "page_forwarders L B page =
     cleanupP (bindP (getP cb_originals) (\<lambda>originals.
         seqP (write_forwarders L page 0 originals) (protect_forwarders B page)))
       (seqP (onW (be_free B page)) (modP (\<lambda>s. s\<lparr>cb_proxies := [], cb_code := []\<rparr>)))"

text \<open>Restoring, newest slot first: while installing always, later only where the binding still stands.\<close>

fun restore_slots :: "'w lldb \<Rightarrow> (addr \<times> bytes \<times> bytes) list \<Rightarrow> (('w, 'z) bind_dbg_scheme, unit) py" where
  "restore_slots L [] = retP ()"
| "restore_slots L ((pointer, original, replacement) # rest) =
     bindP (getP (\<lambda>s. cb_installing s \<or> read_memory L (world s) pointer 8 = replacement)) (\<lambda>ours.
     seqP (whenP ours (bindP (write_memory L pointer original False) (\<lambda>(ok, message).
         checkP ok (RuntimeError (''cannot restore clock import: '' @ message)))))
       (restore_slots L rest))"

definition same_process :: "'w lldb \<Rightarrow> ('w, 'z) bind_dbg_scheme \<Rightarrow> bool" where
  "same_process L s = (case obs_process L (world s) of None \<Rightarrow> False | Some p \<Rightarrow> pr_pid p = cb_pid s \<and> pr_stopped p)"

definition restore_bindings :: "'w lldb \<Rightarrow> (('w, 'z) bind_dbg_scheme, unit) py" where
  "restore_bindings L =
     bindP (getP (\<lambda>s. (same_process L s, rev (cb_slots s)))) (\<lambda>(same, slots).
     seqP (whenP same (restore_slots L slots)) (modP (\<lambda>s. s\<lparr>cb_slots := []\<rparr>)))"

definition lazy_stub :: "(addr \<times> int) option \<Rightarrow> int \<Rightarrow> bool" where
  "lazy_stub helper v = (case helper of None \<Rightarrow> False | Some (start, len) \<Rightarrow> start \<le> v \<and> v < start + len)"

fun bind_imports :: "'w lldb \<Rightarrow> (addr \<times> int) option \<Rightarrow> (string \<times> addr \<times> bytes) list \<Rightarrow> (('w, 'z) bind_dbg_scheme, unit) py" where
  "bind_imports L helper [] = retP ()"
| "bind_imports L helper ((name, pointer, original) # rest) =
     (let v = le_int original in
      if v = 0 then bind_imports L helper rest
      else bindP (getP (\<lambda>s. map_of (cb_originals s) name)) (\<lambda>real. case real of
        None \<Rightarrow> raiseP (KeyError name)
      | Some a \<Rightarrow> if v \<noteq> a \<and> \<not> lazy_stub helper v
          then seqP (modP (\<lambda>s. s\<lparr>cb_skipped := cb_skipped s @ [name]\<rparr>)) (bind_imports L helper rest)
          else bindP (getP (\<lambda>s. map_of (cb_proxies s) name)) (\<lambda>proxy. case proxy of
            None \<Rightarrow> raiseP (KeyError name)
          | Some q \<Rightarrow> bindP (liftP (u64 (PyError ''OverflowError'' ''int too big to convert'') q)) (\<lambda>replacement.
              seqP (modP (\<lambda>s. s\<lparr>cb_slots := cb_slots s @ [(pointer, original, replacement)]\<rparr>))
              (bindP (write_memory L pointer replacement False) (\<lambda>(ok, message).
              seqP (checkP ok (RuntimeError (''cannot bind clock import: '' @ message))) (bind_imports L helper rest)))))))"

definition install_bindings :: "'w lldb \<Rightarrow> 'w bind_env \<Rightarrow> (('w, 'z) bind_dbg_scheme, (addr \<times> bytes \<times> bytes) list) py" where
  "install_bindings L B =
     bindP (getP (\<lambda>s. (import_slots L (world s) (be_header B (world s)) (cb_originals s), be_helper B (world s)))) (\<lambda>(found, helper).
     bindP (liftP found) (\<lambda>imports.
     bindP (onW (be_alloc B)) (\<lambda>page. case page of
       Inl m \<Rightarrow> raiseP (RuntimeError (''cannot allocate clock forwarders: '' @ m))
     | Inr page \<Rightarrow>
         seqP (page_forwarders L B page)
         (seqP (cleanupP (bind_imports L helper imports) (restore_bindings L))
         (seqP (modP (\<lambda>s. s\<lparr>cb_installing := False\<rparr>)) (getP cb_slots))))))"

definition validate_bindings :: "'w lldb \<Rightarrow> ('w, 'z) bind_dbg_scheme \<Rightarrow> unit res" where
  "validate_bindings L s = (case obs_process L (world s) of
     None \<Rightarrow> Inl (PyError ''AttributeError'' ''GetState'')
   | Some p \<Rightarrow> if \<not> pr_stopped p then Inr ()
       else if list_ex (\<lambda>(a, expected). read_memory L (world s) a (length expected) \<noteq> expected) (cb_code s) then Inl (RuntimeError ''clock forwarder was modified'')
       else if list_ex (\<lambda>(a, orig, new). read_memory L (world s) a 8 \<noteq> new) (cb_slots s)
       then Inl (RuntimeError ''clock import binding was modified'') else Inr ())"

section \<open>What is read of the imports\<close>

definition read_here :: "'w lldb \<Rightarrow> 'w \<Rightarrow> string \<times> addr \<times> bytes \<Rightarrow> bool" where
  "read_here L w = (\<lambda>(n, p, v). read_memory L w p 8 = v \<and> length v = 8)"

lemma import_at_ok:
  assumes "list_all (read_here L w) found"
  shows "okR (list_all (read_here L w)) (\<lambda>_. True) (import_at L w wanted tb slide nsyms strsize symbols strings indices slot i found)"
  using assms unfolding import_at_def
  by (cases slot)
    (auto simp: okR_def bindR_def guardR_def broken_def read_all_def read_here_def Let_def len_i_def split: sum.splits option.splits if_splits)

lemma import_slots_ok:
  assumes "import_slots L w header wanted = Inr found"
  shows "list_all (read_here L w) found"
proof -
  have inner: "okR (list_all (read_here L w)) (\<lambda>_. True)
      (section_imports L w wanted tb slide nsyms strsize nind symbols strings indices slot found)"
    if "list_all (read_here L w) found" for tb slide nsyms strsize nind symbols strings indices slot found
    using that unfolding section_imports_def
    by (cases slot) (auto intro!: ok_rules okR_foldR import_at_ok)
  have "okR (list_all (read_here L w)) (\<lambda>_. True) (foldR (section_imports L w wanted tb slide nsyms strsize nind symbols strings indices) slots [])"
    for tb slide nsyms strsize nind symbols strings indices slots
    by (rule okR_foldR) (simp_all add: inner)
  from okR_D[OF this] show ?thesis using assms
    by (fastforce simp: import_slots_def bindR_Inr Let_def broken_def split: if_splits option.splits prod.splits)
qed

definition mapped :: "'w lldb \<Rightarrow> 'w \<Rightarrow> addr \<Rightarrow> bool" where
  "mapped L w x = (\<exists>a n. obs_read L w a n \<noteq> None \<and> a \<le> x \<and> x < a + int n)"

text \<open>
  What LLDB promises of a page it allocates in the target: it was not mapped, it is aligned inside
  the address space, and neither allocating, protecting nor freeing it changes other memory or
  the process.
\<close>

definition page_law :: "'w lldb \<Rightarrow> 'w bind_env \<Rightarrow> ('w \<Rightarrow> addr \<Rightarrow> char) \<Rightarrow> bool" where
  "page_law L B mem =
     ((\<forall>w. case be_alloc B w of (r, w') \<Rightarrow> obs_process L w' = obs_process L w \<and> (\<forall>x. mapped L w x \<longrightarrow> mem w' x = mem w x) \<and>
        (\<forall>page. r = Inr page \<longrightarrow> 0 \<le> page \<and> page + 4096 \<le> 2 ^ 64 \<and> (\<forall>x. page \<le> x \<and> x < page + 4096 \<longrightarrow> \<not> mapped L w x))) \<and>
      (\<forall>page w. obs_process L (snd (be_free B page w)) = obs_process L w \<and>
        (\<forall>x. \<not> (page \<le> x \<and> x < page + 4096) \<longrightarrow> mem (snd (be_free B page w)) x = mem w x)) \<and>
      (\<forall>e w. let w' = snd (be_command B (''expression -l c++ --ignore-breakpoints true -- (int)mprotect((void*)'' @ e) w) in
        obs_process L w' = obs_process L w \<and> (\<forall>x. mem w' x = mem w x)))"

lemma page_lawD:
  assumes "page_law L B mem" "be_alloc B w = (r, w')"
  shows "obs_process L w' = obs_process L w" "\<forall>x. mapped L w x \<longrightarrow> mem w' x = mem w x"
    "r = Inr page \<Longrightarrow> page \<le> x \<Longrightarrow> x < page + 4096 \<Longrightarrow> \<not> mapped L w x"
proof -
  note all = assms(1)[unfolded page_law_def, THEN conjunct1, rule_format, of w, unfolded assms(2) prod.case]
  show "obs_process L w' = obs_process L w" by (rule all[THEN conjunct1])
  show "\<forall>x. mapped L w x \<longrightarrow> mem w' x = mem w x" using all by simp
  show "r = Inr page \<Longrightarrow> page \<le> x \<Longrightarrow> x < page + 4096 \<Longrightarrow> \<not> mapped L w x" using all by simp
qed

text \<open>The original bytes of a slot were read from the target as it was.\<close>

lemma read_here_mapped:
  assumes "mem_law L mem" "read_here L w (n, p, v)" "i < 8"
  shows "v ! i = mem w (p + int i)" "mapped L w (p + int i)"
proof -
  have r: "read_memory L w p 8 = v" "length v = 8" using assms(2) by (simp_all add: read_here_def)
  show "v ! i = mem w (p + int i)" by (rule read_memory_full[OF assms(1) r assms(3)])
  have len: "\<And>k d. obs_read L w p k = Some d \<Longrightarrow> length d = k" using assms(1) by (simp add: mem_law_def)
  have "obs_process L w \<noteq> None" using r by (auto simp: read_memory_def split: if_splits)
  then have "read_halving (obs_read L w p) 8 = v" using r(1) unfolding read_memory_def by (simp only: if_False)
  then have "obs_read L w p 8 = Some v" using read_halving_full[of "obs_read L w p" 8, OF len] r(2) by simp
  then show "mapped L w (p + int i)" using assms(3) unfolding mapped_def by (intro exI[of _ p] exI[of _ 8]) simp
qed

section \<open>Installing\<close>

text \<open>The process is the one it was, and the memory mapped then is as it was but for the addresses \<open>X\<close>.\<close>

definition kept :: "'w lldb \<Rightarrow> ('w \<Rightarrow> addr \<Rightarrow> char) \<Rightarrow> 'w \<Rightarrow> addr set \<Rightarrow> 'w \<Rightarrow> bool" where
  "kept L mem w0 X w = (obs_process L w = obs_process L w0 \<and> (\<forall>x. mapped L w0 x \<longrightarrow> x \<notin> X \<longrightarrow> mem w x = mem w0 x))"

definition slot_core :: "('w, 'z) bind_dbg_scheme \<Rightarrow> (string, addr) odict \<times> (addr \<times> bytes \<times> bytes) list \<times> bool \<times> int" where
  "slot_core s = (cb_originals s, cb_slots s, cb_installing s, cb_pid s)"

text \<open>The first forwarders of a page: each proxy is one of them and jumps to the function of its name.\<close>

definition forwards :: "('w \<Rightarrow> addr \<Rightarrow> char) \<Rightarrow> (string, addr) odict \<Rightarrow> addr \<Rightarrow> int \<Rightarrow> (string, addr) odict \<Rightarrow> 'w \<Rightarrow> bool" where
  "forwards mem originals page n proxies w = (\<forall>name q. map_of proxies name = Some q \<longrightarrow>
     (\<exists>j a code. 0 \<le> j \<and> j < n \<and> q = page + j * 16 \<and> (name, a) \<in> set originals \<and> forwarder a = Inr code \<and>
        (\<forall>i < 16. mem w (q + int i) = code ! i)))"

lemma forwarder_length: "forwarder a = Inr code \<Longrightarrow> length code = 16"
  by (auto simp: forwarder_def u64_def split: if_splits)

lemma forwards_outside:
  assumes "forwards mem originals page n proxies w"
    and "\<And>x. page \<le> x \<Longrightarrow> x < page + n * 16 \<Longrightarrow> mem v x = mem w x"
  shows "forwards mem originals page n proxies v"
  unfolding forwards_def
proof (intro allI impI)
  fix name q assume "map_of proxies name = Some q"
  with assms(1) obtain j a code where j: "0 \<le> j" "j < n" "q = page + j * 16" "(name, a) \<in> set originals" "forwarder a = Inr code"
      "\<forall>i < 16. mem w (q + int i) = code ! i"
    unfolding forwards_def by blast
  have "mem v (q + int i) = mem w (q + int i)" if "i < 16" for i using assms(2)[of "q + int i"] that j(1-3) by linarith
  then show "\<exists>j a code. 0 \<le> j \<and> j < n \<and> q = page + j * 16 \<and> (name, a) \<in> set originals \<and> forwarder a = Inr code \<and>
      (\<forall>i < 16. mem v (q + int i) = code ! i)"
    using j by (intro exI[of _ j] exI[of _ a] exI[of _ code]) simp
qed

lemma forwards_add:
  assumes "forwards mem originals page n proxies w" "0 \<le> n" "(name, a) \<in> set originals" "forwarder a = Inr code"
    and "\<And>x. page \<le> x \<Longrightarrow> x < page + n * 16 \<Longrightarrow> mem v x = mem w x" "\<forall>i < 16. mem v (page + n * 16 + int i) = code ! i"
  shows "forwards mem originals page (n + 1) (od_set name (page + n * 16) proxies) v"
  unfolding forwards_def
proof (intro allI impI)
  fix m q assume q: "map_of (od_set name (page + n * 16) proxies) m = Some q"
  show "\<exists>j b code. 0 \<le> j \<and> j < n + 1 \<and> q = page + j * 16 \<and> (m, b) \<in> set originals \<and> forwarder b = Inr code \<and>
      (\<forall>i < 16. mem v (q + int i) = code ! i)"
  proof (cases "m = name")
    case True
    then show ?thesis using q assms(2-4,6) by (intro exI[of _ n] exI[of _ a] exI[of _ code]) (simp add: od_get_set)
  next
    case False
    have "forwards mem originals page n proxies v" by (rule forwards_outside[OF assms(1,5)])
    moreover have "map_of proxies m = Some q" using False q by (simp add: od_get_set)
    ultimately obtain j b c where "0 \<le> j" "j < n" "q = page + j * 16" "(m, b) \<in> set originals" "forwarder b = Inr c"
        "\<forall>i < 16. mem v (q + int i) = c ! i"
      unfolding forwards_def by blast
    then show ?thesis by (intro exI[of _ j] exI[of _ b] exI[of _ c]) simp
  qed
qed

lemma wp_forwarders:
  fixes s :: "('w, 'z) bind_dbg_scheme"
  assumes mem: "mem_law L mem" and page: "\<And>x. page \<le> x \<Longrightarrow> x < page + 4096 \<Longrightarrow> \<not> mapped L w0 x"
    and "kept L mem w0 {} (world s)" "0 \<le> n" "n + int (length todo) \<le> 256" "set todo \<subseteq> set originals"
      "forwards mem originals page n (cb_proxies s) (world s)"
  shows "wpP (write_forwarders L page n todo)
    (\<lambda>_ t. slot_core t = slot_core s \<and> kept L mem w0 {} (world t) \<and> forwards mem originals page (n + int (length todo)) (cb_proxies t) (world t))
    (\<lambda>_ t. slot_core t = slot_core s \<and> kept L mem w0 {} (world t)) s"
  using assms(3-7)
proof (induction todo arbitrary: n s)
  case Nil
  then show ?case by (simp add: wp)
next
  case (Cons x rest)
  obtain name a where x: "x = (name, a)" by (cases x)
  show ?case
  proof (cases "forwarder a")
    case (Inl e)
    then show ?thesis using Cons.prems(1) by (simp add: x wp Let_def)
  next
    case (Inr code)
    have len: "length code = 16" by (rule forwarder_length[OF Inr])
    let ?q = "page + n * 16"
    have step: "kept L mem w0 {} w" if fr: "obs_process L w = obs_process L (world s)"
        "\<forall>x. \<not> (?q \<le> x \<and> x < ?q + int (length code)) \<longrightarrow> mem w x = mem (world s) x" for w
    proof -
      have "mem w x = mem w0 x" if m: "mapped L w0 x" for x
      proof -
        have "\<not> (page \<le> x \<and> x < page + 4096)" using page[of x] m by blast
        moreover have "page \<le> x \<and> x < page + 4096" if "?q \<le> x" "x < ?q + 16" using that Cons.prems(2,3) by auto
        ultimately have "\<not> (?q \<le> x \<and> x < ?q + int (length code))" by (auto simp: len)
        then show ?thesis using fr(2) Cons.prems(1) m by (simp add: kept_def)
      qed
      then show ?thesis using fr(1) Cons.prems(1) by (simp add: kept_def)
    qed
    have go: "wpP (write_forwarders L page (n + 1) rest)
        (\<lambda>_ t. slot_core t = slot_core s \<and> kept L mem w0 {} (world t) \<and> forwards mem originals page (n + int (length (x # rest))) (cb_proxies t) (world t))
        (\<lambda>_ t. slot_core t = slot_core s \<and> kept L mem w0 {} (world t))
        (s\<lparr>world := w, cb_proxies := od_set name ?q (cb_proxies s), cb_code := od_set ?q code (cb_code s)\<rparr>)"
      if w: "obs_process L w = obs_process L (world s)"
        "\<forall>x. \<not> (?q \<le> x \<and> x < ?q + int (length code)) \<longrightarrow> mem w x = mem (world s) x"
        "\<forall>i < length code. mem w (?q + int i) = code ! i" for w
    proof -
      let ?t = "s\<lparr>world := w, cb_proxies := od_set name ?q (cb_proxies s), cb_code := od_set ?q code (cb_code s)\<rparr>"
      have f: "forwards mem originals page (n + 1) (cb_proxies ?t) (world ?t)"
        using forwards_add[OF Cons.prems(5,2) _ Inr, of name w] w(2,3) Cons.prems(4) x len by simp
      have "slot_core ?t = slot_core s" by (simp add: slot_core_def)
      then show ?thesis
        using Cons.IH[of ?t "n + 1"] step[OF w(1,2)] f Cons.prems(2-4) by (simp add: add.assoc)
    qed
    show ?thesis unfolding x write_forwarders.simps Let_def wpP_bind wpP_simps Inr sum.case
      by (rule wpP_weaken[OF wp_write_memory[OF mem]])
        (use go step x in \<open>auto simp: wpP_bind wpP_simps slot_core_def\<close>)
  qed
qed

lemma wp_page_forwarders:
  fixes s :: "('w, 'z) bind_dbg_scheme"
  assumes mem: "mem_law L mem" and law: "page_law L B mem" and page: "\<And>x. page \<le> x \<Longrightarrow> x < page + 4096 \<Longrightarrow> \<not> mapped L w0 x"
    and "kept L mem w0 {} (world s)" "length (cb_originals s) \<le> 256" "cb_proxies s = []"
  shows "wpP (page_forwarders L B page)
    (\<lambda>_ t. slot_core t = slot_core s \<and> kept L mem w0 {} (world t) \<and>
       forwards mem (cb_originals s) page (int (length (cb_originals s))) (cb_proxies t) (world t))
    (\<lambda>_ t. slot_core t = slot_core s \<and> kept L mem w0 {} (world t)) s"
proof -
  let ?n = "int (length (cb_originals s))"
  let ?E = "\<lambda>_ t. slot_core t = slot_core s \<and> kept L mem w0 {} (world t)"
  let ?Q = "\<lambda>_ t. slot_core t = slot_core s \<and> kept L mem w0 {} (world t) \<and> forwards mem (cb_originals s) page ?n (cb_proxies t) (world t)"
  have free: "kept L mem w0 {} (snd (be_free B page w))" if "kept L mem w0 {} w" for w
    using that law page unfolding kept_def page_law_def by (metis empty_iff)
  have clear: "wpP (seqP (onW (be_free B page)) (modP (\<lambda>s. s\<lparr>cb_proxies := [], cb_code := []\<rparr>))) (\<lambda>_. ?E e) ?E t"
    if "?E e t" for e and t :: "('w, 'z) bind_dbg_scheme"
    using that free by (simp add: wpP_bind wpP_simps wpP_onW slot_core_def)
  have protect: "wpP (protect_forwarders B page) ?Q ?E t" if "?Q () t" for t :: "('w, 'z) bind_dbg_scheme"
  proof -
    let ?c = "''expression -l c++ --ignore-breakpoints true -- (int)mprotect((void*)'' @ (py_hex page @ '', 4096, 5)'')"
    let ?w = "snd (be_command B ?c (world t))"
    have w: "obs_process L ?w = obs_process L (world t)" "\<And>x. mem ?w x = mem (world t) x"
      using law unfolding page_law_def Let_def by blast+
    have "forwards mem (cb_originals s) page ?n (cb_proxies t) ?w"
      by (rule forwards_outside) (use that w in auto)
    then have "?Q () (t\<lparr>world := ?w\<rparr>)" using that w by (simp add: kept_def slot_core_def)
    then show ?thesis unfolding protect_forwarders_def
      by (simp add: wpP_bind wpP_simps wpP_onW split_beta del: append_Cons append.simps)
  qed
  have "wpP (write_forwarders L page 0 (cb_originals s)) ?Q ?E s"
    using wp_forwarders[OF mem page assms(4), where n = 0 and todo = "cb_originals s" and originals = "cb_originals s"] assms(5,6)
    by (simp add: forwards_def)
  then have "wpP (write_forwarders L page 0 (cb_originals s)) (\<lambda>_. wpP (protect_forwarders B page) ?Q ?E) ?E s"
    by (rule wpP_weaken) (use protect in auto)
  then have "wpP (bindP (getP cb_originals) (\<lambda>originals. seqP (write_forwarders L page 0 originals) (protect_forwarders B page))) ?Q ?E s"
    by (simp add: wpP_bind wpP_simps)
  then show ?thesis unfolding page_forwarders_def wpP_bind(4)
    by (rule wpP_weaken) (use clear in auto)
qed

definition covered :: "(addr \<times> bytes \<times> bytes) list \<Rightarrow> addr set" where
  "covered slots = (\<Union>(p, orig, new) \<in> set slots. {p ..< p + 8})"

text \<open>The slots carry what the target held.\<close>

definition genuine :: "'w lldb \<Rightarrow> 'w \<Rightarrow> (addr \<times> bytes \<times> bytes) list \<Rightarrow> bool" where
  "genuine L w0 slots = list_all (\<lambda>(p, orig, new). read_here L w0 ([], p, orig)) slots"

lemma kept_original:
  assumes mem: "mem_law L mem" and k: "kept L mem w0 (covered ((p, orig, new) # rest)) w" and o: "read_here L w0 ([], p, orig)"
    and v: "obs_process L v = obs_process L w" "\<forall>x. \<not> (p \<le> x \<and> x < p + int (length orig)) \<longrightarrow> mem v x = mem w x"
      "\<forall>i < length orig. mem v (p + int i) = orig ! i"
  shows "kept L mem w0 (covered rest) v"
proof -
  have len: "length orig = 8" using o by (simp add: read_here_def)
  have "mem v x = mem w0 x" if x: "mapped L w0 x" "x \<notin> covered rest" for x
  proof (cases "p \<le> x \<and> x < p + 8")
    case True
    then obtain i where i: "i < 8" "x = p + int i" by (intro that[of "nat (x - p)"]) auto
    then show ?thesis using v(3) read_here_mapped(1)[OF mem o i(1)] len by simp
  next
    case False
    then have "x \<notin> covered ((p, orig, new) # rest)" using x(2) by (auto simp: covered_def)
    then show ?thesis using k x(1) v(2) False len by (simp add: kept_def)
  qed
  then show ?thesis using v(1) k by (simp add: kept_def)
qed

definition cannot_restore :: "exn \<Rightarrow> bool" where
  "cannot_restore e = (\<exists>m. e = RuntimeError (''cannot restore clock import: '' @ m))"

lemma wp_restore_slots:
  fixes s :: "('w, 'z) bind_dbg_scheme"
  assumes mem: "mem_law L mem" and "genuine L w0 slots" "kept L mem w0 (covered slots) (world s)" "cb_installing s"
  shows "wpP (restore_slots L slots) (\<lambda>_ t. kept L mem w0 {} (world t)) (\<lambda>e _. cannot_restore e) s"
  using assms(2-4)
proof (induction slots arbitrary: s)
  case Nil
  then show ?case by (simp add: wp covered_def)
next
  case (Cons x rest)
  obtain p orig new where x: "x = (p, orig, new)" by (cases x)
  have o: "read_here L w0 ([], p, orig)" and g: "genuine L w0 rest" using Cons.prems(1) by (simp_all add: genuine_def x)
  have k: "kept L mem w0 (covered ((p, orig, new) # rest)) (world s)" using Cons.prems(2) x by simp
  have go: "wpP (restore_slots L rest) (\<lambda>_ t. kept L mem w0 {} (world t)) (\<lambda>e _. cannot_restore e) (s\<lparr>world := w\<rparr>)"
    if "obs_process L w = obs_process L (world s)" "\<forall>x. \<not> (p \<le> x \<and> x < p + int (length orig)) \<longrightarrow> mem w x = mem (world s) x"
      "\<forall>i < length orig. mem w (p + int i) = orig ! i" for w
    by (rule Cons.IH[OF g]) (use kept_original[OF mem k o that] Cons.prems(3) in simp_all)
  have stop: "cannot_restore (RuntimeError (''cannot restore clock import: '' @ m))" for m
    unfolding cannot_restore_def by blast
  have "wpP (write_memory L p orig False) (\<lambda>(ok, message). wpP (checkP ok (RuntimeError (''cannot restore clock import: '' @ message)))
      (\<lambda>_. wpP (restore_slots L rest) (\<lambda>_ t. kept L mem w0 {} (world t)) (\<lambda>e _. cannot_restore e)) (\<lambda>e _. cannot_restore e)) (\<lambda>e _. cannot_restore e) s"
    by (rule wpP_weaken[OF wp_write_memory[OF mem]])
      (use go stop in \<open>auto simp: wpP_simps simp del: append_Cons append.simps\<close>)
  then show ?case unfolding x restore_slots.simps wpP_bind wpP_simps
    using Cons.prems(3) by (simp add: wpP_bind wpP_simps case_prod_unfold del: append_Cons append.simps)
qed

text \<open>
  While the imports are bound: every slot is one of them, held the function of its name or a lazy
  stub, and gets its forwarder.
\<close>

definition slot_ok :: "(string \<times> addr \<times> bytes) list \<Rightarrow> (addr \<times> int) option \<Rightarrow> (string, addr) odict \<Rightarrow> (string, addr) odict \<Rightarrow>
    addr \<times> bytes \<times> bytes \<Rightarrow> bool" where
  "slot_ok imports helper originals proxies = (\<lambda>(p, orig, new). \<exists>name a q. (name, p, orig) \<in> set imports \<and>
     map_of originals name = Some a \<and> map_of proxies name = Some q \<and> new = int_le 8 q \<and>
     (le_int orig = a \<or> lazy_stub helper (le_int orig)))"

definition spaced :: "(addr \<times> bytes \<times> bytes) list \<Rightarrow> bool" where
  "spaced slots = sorted_wrt (\<lambda>x y. 8 \<le> \<bar>fst x - fst y\<bar>) slots"

definition holding :: "('w \<Rightarrow> addr \<Rightarrow> char) \<Rightarrow> 'w \<Rightarrow> (addr \<times> bytes \<times> bytes) list \<Rightarrow> bool" where
  "holding mem w slots = list_all (\<lambda>(p, orig, new). \<forall>i < 8. mem w (p + int i) = new ! i) slots"

definition binding :: "'w lldb \<Rightarrow> ('w \<Rightarrow> addr \<Rightarrow> char) \<Rightarrow> 'w \<Rightarrow> (string \<times> addr \<times> bytes) list \<Rightarrow> (addr \<times> int) option \<Rightarrow>
    (string, addr) odict \<Rightarrow> (string, addr) odict \<Rightarrow> addr \<Rightarrow> int \<Rightarrow> int \<Rightarrow> ('w, 'z) bind_dbg_scheme \<Rightarrow> bool" where
  "binding L mem w0 imports helper originals proxies page n pid s =
     (genuine L w0 (cb_slots s) \<and> kept L mem w0 (covered (cb_slots s)) (world s) \<and> cb_installing s \<and> cb_pid s = pid \<and>
      cb_originals s = originals \<and> cb_proxies s = proxies \<and> list_all (slot_ok imports helper originals proxies) (cb_slots s) \<and>
      forwards mem originals page n proxies (world s))"

lemma wp_bind_imports:
  fixes s :: "('w, 'z) bind_dbg_scheme"
  assumes mem: "mem_law L mem" and page: "\<And>x. page \<le> x \<Longrightarrow> x < page + n * 16 \<Longrightarrow> \<not> mapped L w0 x"
    and here: "list_all (read_here L w0) imports"
    and "set todo \<subseteq> set imports" "binding L mem w0 imports helper originals proxies page n pid s"
      "spaced (cb_slots s) \<longrightarrow> holding mem (world s) (cb_slots s)"
  shows "wpP (bind_imports L helper todo)
    (\<lambda>_ t. binding L mem w0 imports helper originals proxies page n pid t \<and> (spaced (cb_slots t) \<longrightarrow> holding mem (world t) (cb_slots t)))
    (\<lambda>_. binding L mem w0 imports helper originals proxies page n pid) s"
  using assms(4-6)
proof (induction todo arbitrary: s)
  case Nil
  then show ?case by (simp add: wp)
next
  case (Cons x rest)
  obtain name p orig where x: "x = (name, p, orig)" by (cases x)
  let ?B = "binding L mem w0 imports helper originals proxies page n pid"
  let ?Q = "\<lambda>_ t. ?B t \<and> (spaced (cb_slots t) \<longrightarrow> holding mem (world t) (cb_slots t))"
  let ?E = "\<lambda>_. ?B"
  have next_one: "wpP (bind_imports L helper rest) ?Q ?E t"
    if "?B t" "spaced (cb_slots t) \<longrightarrow> holding mem (world t) (cb_slots t)" for t :: "('w, 'z) bind_dbg_scheme"
    by (rule Cons.IH[OF _ that]) (use Cons.prems(1) in simp)
  have o: "read_here L w0 ([], p, orig)" using here Cons.prems(1) x by (auto simp: list_all_iff read_here_def)
  have imp: "(name, p, orig) \<in> set imports" using Cons.prems(1) x by simp
  have b: "cb_originals s = originals" "cb_proxies s = proxies" using Cons.prems(2) by (simp_all add: binding_def)
  have skip: "wpP (bind_imports L helper rest) ?Q ?E (s\<lparr>cb_skipped := k\<rparr>)" for k
    using next_one[of "s\<lparr>cb_skipped := k\<rparr>"] Cons.prems(2,3) by (simp add: binding_def)
  have bound: "?B (s\<lparr>cb_slots := cb_slots s @ [(p, orig, int_le 8 q)], world := w\<rparr>)"
      "spaced (cb_slots s @ [(p, orig, int_le 8 q)]) \<Longrightarrow> \<forall>i < 8. mem w (p + int i) = int_le 8 q ! i \<Longrightarrow>
         holding mem w (cb_slots s @ [(p, orig, int_le 8 q)])"
    if a: "map_of originals name = Some a" "le_int orig = a \<or> lazy_stub helper (le_int orig)" "map_of proxies name = Some q"
      and w: "obs_process L w = obs_process L (world s)" "\<forall>x. \<not> (p \<le> x \<and> x < p + 8) \<longrightarrow> mem w x = mem (world s) x" for a q w
  proof -
    let ?slots = "cb_slots s @ [(p, orig, int_le 8 q)]"
    have g: "genuine L w0 ?slots" using Cons.prems(2) o by (simp add: binding_def genuine_def)
    have k: "kept L mem w0 (covered ?slots) w" using Cons.prems(2) w by (auto simp: binding_def kept_def covered_def)
    have "list_all (slot_ok imports helper originals proxies) ?slots"
      using Cons.prems(2) a imp by (auto simp: binding_def slot_ok_def)
    moreover have "forwards mem originals page n proxies w"
    proof (rule forwards_outside)
      show "forwards mem originals page n proxies (world s)" using Cons.prems(2) by (simp add: binding_def)
      fix x assume x: "page \<le> x" "x < page + n * 16"
      have "\<not> (p \<le> x \<and> x < p + 8)"
      proof
        assume "p \<le> x \<and> x < p + 8"
        then obtain i where "i < 8" "x = p + int i" by (intro that[of "nat (x - p)"]) auto
        with read_here_mapped(2)[OF mem o] page[OF x] show False by simp
      qed
      then show "mem w x = mem (world s) x" using w(2) by simp
    qed
    ultimately show "?B (s\<lparr>cb_slots := ?slots, world := w\<rparr>)" using Cons.prems(2) g k by (simp add: binding_def)
    assume sp: "spaced ?slots" and new: "\<forall>i < 8. mem w (p + int i) = int_le 8 q ! i"
    have "holding mem (world s) (cb_slots s)" using Cons.prems(3) sp by (simp add: spaced_def sorted_wrt_append)
    moreover have "\<not> (p \<le> r + int i \<and> r + int i < p + 8)" if "(r, u) \<in> set (cb_slots s)" "i < 8" for r u i
      using sp that by (force simp: spaced_def sorted_wrt_append)
    ultimately show "holding mem w ?slots" using w(2) new by (fastforce simp: holding_def list_all_iff)
  qed
  have wr: "wpP (write_memory L p (int_le 8 q) False) (\<lambda>(ok, m). wpP (checkP ok (RuntimeError (''cannot bind clock import: '' @ m)))
      (\<lambda>_. wpP (bind_imports L helper rest) ?Q ?E) ?E) ?E (s\<lparr>cb_slots := cb_slots s @ [(p, orig, int_le 8 q)]\<rparr>)"
    if "map_of originals name = Some a" "le_int orig = a \<or> lazy_stub helper (le_int orig)" "map_of proxies name = Some q" for a q
    by (rule wpP_weaken[OF wp_write_memory[OF mem]])
      (use bound[OF that] next_one in \<open>auto simp: wpP_simps simp del: append_Cons append.simps int_le.simps\<close>)
  show ?case unfolding x bind_imports.simps Let_def
    using Cons.prems(2,3) next_one skip wr b
    by (auto simp: wpP_bind wpP_simps u64_def case_prod_unfold simp del: append_Cons append.simps int_le.simps split: option.splits)
qed

text \<open>What installing promises.\<close>

definition installed :: "'w lldb \<Rightarrow> ('w \<Rightarrow> addr \<Rightarrow> char) \<Rightarrow> 'w \<Rightarrow> (string \<times> addr \<times> bytes) list \<Rightarrow> (addr \<times> int) option \<Rightarrow>
    (string, addr) odict \<Rightarrow> (addr \<times> bytes \<times> bytes) list \<Rightarrow> ('w, 'z) bind_dbg_scheme \<Rightarrow> bool" where
  "installed L mem w0 imports helper originals slots t =
     (slots = cb_slots t \<and> list_all (slot_ok imports helper originals (cb_proxies t)) slots \<and>
      (\<exists>page. forwards mem originals page (int (length originals)) (cb_proxies t) (world t)) \<and>
      (\<forall>x. mapped L w0 x \<longrightarrow> x \<notin> covered slots \<longrightarrow> mem (world t) x = mem w0 x) \<and>
      (spaced slots \<longrightarrow> holding mem (world t) slots))"

definition undone :: "'w lldb \<Rightarrow> ('w \<Rightarrow> addr \<Rightarrow> char) \<Rightarrow> 'w \<Rightarrow> exn \<Rightarrow> ('w, 'z) bind_dbg_scheme \<Rightarrow> bool" where
  "undone L mem w0 e t = (cannot_restore e \<or> (cb_slots t = [] \<and> (\<forall>x. mapped L w0 x \<longrightarrow> mem (world t) x = mem w0 x)))"

lemma wp_restore_bindings:
  fixes s :: "('w, 'z) bind_dbg_scheme"
  assumes mem: "mem_law L mem" and p: "obs_process L w0 = Some p" "pr_stopped p"
    and b: "binding L mem w0 imports helper originals proxies page n (pr_pid p) s"
  shows "wpP (restore_bindings L) (\<lambda>_. undone L mem w0 e) (\<lambda>e _. cannot_restore e) s"
proof -
  have same: "same_process L s" using b p by (simp add: binding_def kept_def same_process_def)
  have g: "genuine L w0 (rev (cb_slots s))" and i: "cb_installing s" using b by (simp_all add: binding_def genuine_def)
  have "covered (rev (cb_slots s)) = covered (cb_slots s)" by (simp add: covered_def)
  then have k: "kept L mem w0 (covered (rev (cb_slots s))) (world s)" using b by (simp add: binding_def)
  have "wpP (restore_slots L (rev (cb_slots s))) (\<lambda>_ t. undone L mem w0 e (t\<lparr>cb_slots := []\<rparr>)) (\<lambda>e _. cannot_restore e) s"
    by (rule wpP_weaken[OF wp_restore_slots[OF mem g k i]]) (simp_all add: undone_def kept_def)
  then show ?thesis using same by (simp add: restore_bindings_def wpP_bind wpP_simps)
qed

lemma wp_install:
  fixes s :: "('w, 'z) bind_dbg_scheme"
  assumes mem: "mem_law L mem" and law: "page_law L B mem" and p: "obs_process L (world s) = Some p" "pr_stopped p"
    and n: "length originals \<le> 256" and new: "cb_originals s = originals" "cb_proxies s = []" "cb_slots s = []" "cb_installing s" "cb_pid s = pr_pid p"
  shows "wpP (install_bindings L B)
    (\<lambda>slots t. \<exists>found. import_slots L (world s) (be_header B (world s)) originals = Inr found \<and>
       installed L mem (world s) found (be_helper B (world s)) originals slots t)
    (undone L mem (world s)) s"
proof (cases "import_slots L (world s) (be_header B (world s)) originals")
  case (Inl e)
  then show ?thesis using new by (simp add: install_bindings_def wpP_bind wpP_simps undone_def)
next
  case (Inr found)
  let ?w0 = "world s" and ?helper = "be_helper B (world s)" and ?n = "int (length originals)"
  let ?Q = "\<lambda>slots t. installed L mem ?w0 found ?helper originals slots t"
  have here: "list_all (read_here L ?w0) found" by (rule import_slots_ok[OF Inr])
  obtain r w where a: "be_alloc B ?w0 = (r, w)" by fastforce
  note alloc = page_lawD(1,2)[OF law a] and fresh = page_lawD(3)[OF law a]
  let ?s = "s\<lparr>world := w\<rparr>"
  have k: "kept L mem ?w0 {} (world ?s)" using alloc by (simp add: kept_def)
  show ?thesis
  proof (cases r)
    case (Inl m)
    then show ?thesis using Inr a new alloc by (simp add: install_bindings_def wpP_bind wpP_simps wpP_onW undone_def)
  next
    case page: (Inr page)
    have slots: "wpP (bind_imports L ?helper found)
        (\<lambda>_ t. installed L mem ?w0 found ?helper originals (cb_slots t) (t\<lparr>cb_installing := False\<rparr>))
        (\<lambda>e. wpP (restore_bindings L) (\<lambda>_. undone L mem ?w0 e) (undone L mem ?w0)) t"
      if t: "slot_core t = slot_core ?s" "kept L mem ?w0 {} (world t)" "forwards mem originals page ?n (cb_proxies t) (world t)"
      for t :: "('w, 'z) bind_dbg_scheme"
    proof -
      have c: "cb_originals t = originals" "cb_slots t = []" "cb_installing t" "cb_pid t = pr_pid p"
        using t(1) new by (simp_all add: slot_core_def)
      have b: "binding L mem ?w0 found ?helper originals (cb_proxies t) page ?n (pr_pid p) t"
        using c t(2,3) by (simp add: binding_def genuine_def covered_def)
      have out: "\<not> mapped L ?w0 x" if "page \<le> x" "x < page + ?n * 16" for x
        by (rule fresh[OF page]) (use that n in auto)
      have "spaced (cb_slots t) \<longrightarrow> holding mem (world t) (cb_slots t)" using c by (simp add: holding_def)
      from wp_bind_imports[OF mem out here subset_refl b this]
      show ?thesis
      proof (rule wpP_weaken)
        fix u assume "binding L mem ?w0 found ?helper originals (cb_proxies t) page ?n (pr_pid p) u \<and>
          (spaced (cb_slots u) \<longrightarrow> holding mem (world u) (cb_slots u))"
        then show "installed L mem ?w0 found ?helper originals (cb_slots u) (u\<lparr>cb_installing := False\<rparr>)"
          by (auto simp: installed_def binding_def kept_def)
      next
        fix e u assume "binding L mem ?w0 found ?helper originals (cb_proxies t) page ?n (pr_pid p) u"
        from wp_restore_bindings[OF mem p this]
        show "wpP (restore_bindings L) (\<lambda>_. undone L mem ?w0 e) (undone L mem ?w0) u"
          by (rule wpP_weaken) (simp_all add: undone_def)
      qed
    qed
    have "wpP (page_forwarders L B page)
        (\<lambda>_. wpP (bind_imports L ?helper found)
          (\<lambda>_ t. installed L mem ?w0 found ?helper originals (cb_slots t) (t\<lparr>cb_installing := False\<rparr>))
          (\<lambda>e. wpP (restore_bindings L) (\<lambda>_. undone L mem ?w0 e) (undone L mem ?w0)))
        (undone L mem ?w0) ?s"
    proof (rule wpP_weaken[OF wp_page_forwarders[OF mem law fresh[OF page] k]])
      fix e and t :: "('w, 'z) bind_dbg_scheme" assume "slot_core t = slot_core ?s \<and> kept L mem ?w0 {} (world t)"
      then show "undone L mem ?w0 e t" using new by (simp add: undone_def kept_def slot_core_def)
    qed (use slots new n in auto)
    then show ?thesis using Inr a page new
      by (simp add: install_bindings_def wpP_bind wpP_simps wpP_onW)
  qed
qed



section \<open>An installation\<close>

definition demo_page :: "demo_world \<Rightarrow> (string + addr) \<times> demo_world" where
  "demo_page w = (let m = max 0 (fold max (map fst (dw_mem w)) 0 + 1) in if m + 4096 \<le> 2 ^ 64 then (Inr m, w) else (Inl ''no memory'', w))"

definition demo_bind_env :: "demo_world bind_env" where
  "demo_bind_env = \<lparr>be_header = (\<lambda>_. 4096), be_helper = (\<lambda>_. None), be_alloc = demo_page, be_free = (\<lambda>a w. ((), w)),
     be_command = (\<lambda>c w. ((True, ''(int) $0 = 0'', []), w))\<rparr>"

text \<open>The header of an executable without load commands, at 4096.\<close>

definition demo_header :: "demo_world" where
  "demo_header = demo_world\<lparr>dw_process := Some \<lparr>pr_pid = 7, pr_uid = 1, pr_stop = 1, pr_stopped = True, pr_threads = [], pr_selected = 0\<rparr>,
     dw_mem := zip (map (\<lambda>i. 4096 + int i) [0..<32]) (int_le 4 0xfeedfacf @ replicate 28 (val_byte 0))\<rparr>"

definition demo_binding :: "demo_world bind_dbg" where
  "demo_binding = patch_dbg.extend (dbg.extend (demo_dbg demo_header) (patch_dbg.fields True []))
     \<lparr>cb_originals = [], cb_proxies = [], cb_code = [], cb_slots = [], cb_skipped = [], cb_installing = False, cb_pid = 0\<rparr>"

lemma demo_page_law: "page_law demo_lldb demo_bind_env demo_mem_at"
proof -
  have key: "map_of (dw_mem w) x \<noteq> None" if m: "mapped demo_lldb w x" for w x
  proof -
    obtain a n d where r: "obs_read demo_lldb w a n = Some d" and x: "a \<le> x" "x < a + int n" using m by (auto simp: mapped_def)
    from r have "those (map (\<lambda>i. map_of (dw_mem w) (a + int i)) [0..<n]) = Some d" by (simp add: demo_lldb_def)
    from those_map_nth[OF this] have "\<forall>i < n. map_of (dw_mem w) (a + int i) = Some (d ! i)" by simp
    moreover have "nat (x - a) < n" "a + int (nat (x - a)) = x" using x by auto
    ultimately show ?thesis by (metis option.distinct(1))
  qed
  have top: "k \<le> fold max ks b" if "k \<in> set ks" for k b :: int and ks using that
  proof (induction ks arbitrary: b)
    case (Cons j ks)
    have "c \<le> fold max ls c" for c :: int and ls
      by (induction ls arbitrary: c) (simp_all, meson max.bounded_iff)
    then show ?case using Cons by (auto intro: order_trans[OF max.cobounded1])
  qed simp
  have "\<not> mapped demo_lldb w x" if "max 0 (fold max (map fst (dw_mem w)) 0 + 1) \<le> x" for w x
  proof
    assume "mapped demo_lldb w x"
    then have "x \<in> set (map fst (dw_mem w))" using key[of w x] by (auto simp: map_of_eq_None_iff)
    from top[OF this, of 0] that show False by simp
  qed
  then show ?thesis by (simp add: page_law_def demo_bind_env_def demo_page_def Let_def)
qed


definition demo_code :: bytes where
  "demo_code = int_le 4 0x58000050 @ int_le 4 0xd61f0200 @ int_le 8 20480"

lemma demo_imports: "import_slots demo_lldb demo_header 4096 [(''t'', 20480)] = Inr []"
proof -
  have r: "read_all demo_lldb demo_header 4096 32 = Inr (int_le 4 0xfeedfacf @ replicate 28 (val_byte 0))"
    "read_all demo_lldb demo_header 4128 0 = Inr []" by code_simp+
  have v: "le_at (int_le 4 0xfeedfacf @ replicate 28 (val_byte 0)) 0 4 = 0xfeedfacf"
    "le_at (int_le 4 0xfeedfacf @ replicate 28 (val_byte 0)) 16 4 = 0"
    "le_at (int_le 4 0xfeedfacf @ replicate 28 (val_byte 0)) 20 4 = 0" by code_simp+
  show ?thesis by (simp add: import_slots_def r v Let_def no_tables_def del: int_le.simps)
qed

lemma demo_write: "do_write demo_lldb 4128 demo_code demo_header = (16, demo_header\<lparr>dw_mem := zip (map (\<lambda>i. 4128 + int i) [0..<16]) demo_code @ dw_mem demo_header\<rparr>)"
  by (simp add: demo_lldb_def demo_code_def del: int_le.simps)

lemma demo_read_back: "read_memory demo_lldb (demo_header\<lparr>dw_mem := zip (map (\<lambda>i. 4128 + int i) [0..<16]) demo_code @ dw_mem demo_header\<rparr>) 4128 16 = demo_code"
  by code_simp

lemma demo_installed:
  "let r = install_bindings demo_lldb demo_bind_env (new_bindings 7 [(''t'', 20480)] demo_binding) in
     fst r = Inr [] \<and> map_of (cb_proxies (snd r)) ''t'' = Some 4128"
proof -
  let ?w = "demo_header\<lparr>dw_mem := zip (map (\<lambda>i. 4128 + int i) [0..<16]) demo_code @ dw_mem demo_header\<rparr>"
  have f: "forwarder 20480 = Inr demo_code" by (simp add: forwarder_def u64_def demo_code_def del: int_le.simps)
  have len: "length demo_code = 16" by (simp add: demo_code_def del: int_le.simps)
  have top: "fold max (map fst (dw_mem demo_header)) 0 = 4127" by code_simp
  have pg: "demo_page demo_header = (Inr 4128, demo_header)" unfolding demo_page_def top by simp
  have w: "world demo_binding = demo_header" by code_simp
  have pr: "obs_process demo_lldb demo_header = Some \<lparr>pr_pid = 7, pr_uid = 1, pr_stop = 1, pr_stopped = True, pr_threads = [], pr_selected = 0\<rparr>"
    by code_simp
  have ok: "ends_with (py_strip ''(int) $0 = 0'') ''= 0''" by code_simp
  show ?thesis
    by (simp add: Let_def install_bindings_def new_bindings_def run demo_bind_env_def w demo_imports onW_def pg page_forwarders_def
       cleanupP_def f len write_memory_def pr demo_write demo_read_back protect_forwarders_def ok od_set_def)
qed


end
