(* ===== verification/CodeGraph.thy ===== *)
theory CodeGraph
  imports CodeFlow Breakpoints Markers
begin

text \<open>
  \<open>macdbg/core/code_navigation.py\<close>: the basic blocks and edges of a decoded function, what is
  known of one instruction and of the values it uses, the observation of indirect branches over
  single steps, and the bounded pages of symbols and references. Sets of observed edges are lists
  in the order the code iterates them.
\<close>

record nav_row = flow_row +
  nr_comment :: string

definition INDIRECT :: "string list" where
  "INDIRECT = [''br'', ''blr'', ''braa'', ''brab'', ''braaz'', ''brabz'', ''blraa'', ''blrab'', ''blraaz'', ''blrabz'']"

definition CONDITIONAL :: "string list" where "CONDITIONAL = [''cbz'', ''cbnz'', ''tbz'', ''tbnz'']"

datatype kind = Call | Terminal | Conditional

definition branch_kind :: "string \<Rightarrow> kind option" where
  "branch_kind mn = (if mn \<in> set INDIRECT \<and> starts_with mn ''bl'' then Some Call
     else if mn = ''b'' \<or> mn \<in> set INDIRECT \<or> starts_with mn ''ret'' then Some Terminal
     else if starts_with mn ''b.'' \<or> mn \<in> set CONDITIONAL then Some Conditional else None)"

section \<open>Blocks and edges\<close>

record nav_block =
  nb_addr :: int
  nb_rows :: "nav_row list"
  nb_visits :: int

record nav_edge =
  ne_from :: int
  ne_to :: "int option"
  ne_kind :: string
  ne_source :: string
  ne_active :: "bool option"

definition row_addrs :: "nav_row list \<Rightarrow> int set" where "row_addrs rows = fr_addr ` set rows"

text \<open>The addresses where a block starts: the first row, the targets of branches and what follows them.\<close>

definition row_leaders :: "int set \<Rightarrow> nav_row \<Rightarrow> int list" where
  "row_leaders addresses r = (if branch_kind (fr_mn r) = None then []
     else (case branch_target (fr_ops r) of None \<Rightarrow> [] | Some t \<Rightarrow> if t \<in> addresses then [t] else [])
       @ (if fr_addr r + 4 \<in> addresses then [fr_addr r + 4] else []))"

definition block_leaders :: "nav_row list \<Rightarrow> int set" where
  "block_leaders rows = insert (fr_addr (hd rows)) (set (concat (map (row_leaders (row_addrs rows)) rows)))"

text \<open>The blocks so far, newest first; their rows newest last.\<close>

fun add_row :: "int set \<Rightarrow> nav_row \<Rightarrow> nav_block list \<Rightarrow> nav_block list" where
  "add_row lead r [] = [\<lparr>nb_addr = fr_addr r, nb_rows = [r], nb_visits = 0\<rparr>]"
| "add_row lead r (b # bs) = (if fr_addr r \<in> lead then \<lparr>nb_addr = fr_addr r, nb_rows = [r], nb_visits = 0\<rparr> # b # bs
     else b\<lparr>nb_rows := nb_rows b @ [r]\<rparr> # bs)"

definition edge :: "int \<Rightarrow> int option \<Rightarrow> string \<Rightarrow> string \<Rightarrow> nav_edge" where
  "edge from to knd src = \<lparr>ne_from = from, ne_to = to, ne_kind = knd, ne_source = src, ne_active = None\<rparr>"

definition block_edges :: "int set \<Rightarrow> (int \<times> int) list \<Rightarrow> nav_block \<Rightarrow> nav_edge list" where
  "block_edges addresses observed b =
     (let r = last (nb_rows b); k = branch_kind (fr_mn r); start = nb_addr b in
      (if fr_mn r = ''b'' \<or> k = Some Conditional
       then [edge start (branch_target (fr_ops r)) (if k = Some Conditional then ''taken'' else ''jump'') ''decoded'']
       else if fr_mn r \<in> set INDIRECT
       then (let targets = map snd (filter (\<lambda>(src, dst). src = fr_addr r) observed) in
         if targets = [] then [edge start None ''indirect'' ''unresolved'']
         else map (\<lambda>dst. edge start (Some dst) ''indirect'' ''observed single step'') targets)
       else []) @
      (if k \<noteq> Some Terminal \<and> fr_addr r + 4 \<in> addresses then [edge start (Some (fr_addr r + 4)) ''fallthrough'' ''decoded''] else []))"

definition blocks_for :: "nav_row list \<Rightarrow> (int \<times> int) list \<Rightarrow> nav_block list \<times> nav_edge list" where
  "blocks_for rows observed = (if rows = [] then ([], [])
     else let blocks = rev (fold (add_row (block_leaders rows)) rows []) in
       (blocks, concat (map (block_edges (row_addrs rows) observed) blocks)))"

section \<open>The debugger's view\<close>

record 'w nav_dbg = "'w dbg" +
  nv_observed :: "(int \<times> int) list"
  nv_code :: "((int \<times> int), bytes) odict"
  nv_step :: "(int \<times> int \<times> int \<times> bytes) option"
  nv_pid :: "int option"

text \<open>
  At most so many instructions from an address; the named symbol at an address with its start;
  the function, or else the symbol, there with its name, start and end (None: neither).
\<close>

record 'w nav_env =
  nve_instructions :: "'w \<Rightarrow> addr \<Rightarrow> int \<Rightarrow> nav_row list"
  nve_symbol :: "'w \<Rightarrow> addr \<Rightarrow> (string \<times> addr) option"
  nve_function :: "'w \<Rightarrow> addr \<Rightarrow> (string \<times> addr \<times> addr) option"

definition nav_sync :: "'w lldb \<Rightarrow> (('w, 'z) nav_dbg_scheme, unit) py" where
  "nav_sync L = modP (\<lambda>s. let pid = map_option pr_pid (obs_process L (world s)) in
     if pid \<noteq> nv_pid s then s\<lparr>nv_pid := pid, nv_step := None, nv_observed := [], nv_code := []\<rparr> else s)"

definition nav_instructions :: "'w nav_env \<Rightarrow> 'w \<Rightarrow> addr \<Rightarrow> int \<Rightarrow> nav_row list" where
  "nav_instructions N w a n = nve_instructions N w a (min n 16384)"

text \<open>\<open>repr\<close> of printable ASCII.\<close>

definition py_repr :: "string \<Rightarrow> string" where
  "py_repr t = (let q = (if CHR 0x27 \<in> set t \<and> CHR 0x22 \<notin> set t then CHR 0x22 else CHR 0x27) in
     [q] @ concat (map (\<lambda>c. if c = q \<or> c = CHR 0x5C then [CHR 0x5C, c] else [c]) t) @ [q])"

definition nav_preview :: "'w lldb \<Rightarrow> 'w nav_env \<Rightarrow> 'w \<Rightarrow> addr \<Rightarrow> string" where
  "nav_preview L N w a = (case nve_symbol N w a of
     Some (name, start) \<Rightarrow> name @ ''+'' @ py_hex (a - start)
   | None \<Rightarrow> let t = takeWhile (\<lambda>c. byte_val c \<noteq> 0) (read_memory L w a 64) in
       if 4 \<le> length t \<and> list_all (\<lambda>c. 32 \<le> byte_val c \<and> byte_val c < 127) t then py_repr t else [])"

section \<open>One instruction\<close>

record nav_link =
  nl_addr :: int
  nl_label :: string
  nl_memory :: bool

record nav_info =
  nf_live :: "bool option"
  nf_lines :: "string list"
  nf_links :: "nav_link list"

definition nav_reg :: "frame \<Rightarrow> string \<Rightarrow> int option" where
  "nav_reg f name = (if name = ''xzr'' \<or> name = ''wzr'' then Some 0 else fr_reg f name)"

definition rx_nav_index :: rx where
  "rx_nav_index = Seqs [Grp 1 (Seq (one_of ''wx'') rDigits),
     Opt (Seqs [Chr CHR '','', rSpaces, Grp 2 (Alts [Str ''lsl'', Str ''uxtw'', Str ''sxtw'', Str ''sxtx'']),
       rSpaces, Opt (Chr CHR ''#''), Grp 3 rDigits])]"

text \<open>The offset of an addressing mode; None when it is not decoded.\<close>

definition nav_offset :: "frame \<Rightarrow> string \<Rightarrow> int option res" where
  "nav_offset f rest = (if rest = [] then Inr (Some 0)
     else case rx_full rx_immediate rest of
       Some g \<Rightarrow> bindR (int_or_error 0 (the (grp 1 g))) (\<lambda>v. Inr (Some v))
     | None \<Rightarrow> (case rx_full rx_nav_index rest of
         None \<Rightarrow> Inr None
       | Some g \<Rightarrow> (case nav_reg f (the (grp 1 g)) of
           None \<Rightarrow> Inr None
         | Some v \<Rightarrow> bindR (case grp 3 g of None \<Rightarrow> Inr 0 | Some t \<Rightarrow> int_or_error 10 t) (\<lambda>sh.
             Inr (Some (push_bit (nat sh) (extend_index (grp 2 g) v)))))))"

definition nav_width :: "string \<Rightarrow> string \<Rightarrow> nat" where
  "nav_width mn ops = (let first = py_strip (hd (split_on CHR '','' ops));
       w0 = (if starts_with first ''q'' then 16 else if starts_with first ''x'' \<or> starts_with first ''d'' then 8 else 4);
       w1 = (if ends_with mn ''b'' then 1 else if ends_with mn ''h'' then 2 else if mn = ''ldrsw'' \<or> mn = ''ldursw'' then 4 else w0) in
     if starts_with mn ''ldp'' \<or> starts_with mn ''stp'' then w1 * 2 else w1)"

definition hex_bytes :: "bytes \<Rightarrow> string" where
  "hex_bytes d = (case map (\<lambda>c. [hex_digit (nat (byte_val c) div 16), hex_digit (nat (byte_val c) mod 16)]) d of
     [] \<Rightarrow> [] | h # hs \<Rightarrow> h @ concat (map (\<lambda>x. CHR '' '' # x) hs))"

definition conditional_lines :: "frame \<Rightarrow> nav_row \<Rightarrow> string list res" where
  "conditional_lines f r = bindR (evaluate_condition (fr_mn r) (fr_ops r) (fr_reg f)) (\<lambda>taken.
     let names = (case filter is_gpr (words (fr_ops r)) of [] \<Rightarrow> [''cpsr''] | ns \<Rightarrow> ns) in
     Inr ((case taken of Some b \<Rightarrow> ''Branch: '' @ (if b then ''taken'' else ''not taken'') | None \<Rightarrow> ''Branch outcome unavailable'')
       # List.map_filter (\<lambda>n. map_option (\<lambda>v. n @ '' = '' @ py_hex v) (nav_reg f n)) names))"

definition access_lines :: "'w lldb \<Rightarrow> 'w nav_env \<Rightarrow> 'w \<Rightarrow> frame \<Rightarrow> nav_row \<Rightarrow> (string list \<times> nav_link list) res" where
  "access_lines L N w f r = (case rx_search rx_base (fr_ops r) of
     None \<Rightarrow> Inr ([], [])
   | Some (_, _, g) \<Rightarrow> if \<not> (starts_with (fr_mn r) ''ld'' \<or> starts_with (fr_mn r) ''st'') then Inr ([], [])
     else bindR (nav_offset f (trim_rest (the (grp 2 g)))) (\<lambda>off.
       case (nav_reg f (the (grp 1 g)), off) of
         (Some base, Some v) \<Rightarrow>
           (let effective = (base + v) AND MASK64; width = nav_width (fr_mn r) (fr_ops r);
                data = read_memory L w effective width in
            Inr ([''Effective address: '' @ py_hex effective @ [CHR '' '', other_char, CHR '' ''] @ py_str (int width) @ '' bytes'' @
                  (if starts_with (fr_mn r) ''st'' then [CHR '' '', other_char, CHR '' ''] @ ''before store'' else []),
                 ''Memory: '' @ (if data = [] then ''unreadable'' else hex_bytes data)] @
               (if 0 < length data \<and> length data \<le> 8
                then [''Value: '' @ py_hex (le_int data) @ '' '' @ nav_preview L N w (le_int data)] else []),
               [\<lparr>nl_addr = effective, nl_label = ''Effective address'', nl_memory = True\<rparr>]))
       | _ \<Rightarrow> Inr ([''Addressing mode not decoded; raw operands shown.''], [])))"

text \<open>The names of the arguments of known functions; the first key found as a word of the name counts.\<close>

definition SIGNATURES :: "(string \<times> string list) list" where
  "SIGNATURES = [(''openat'', [''dirfd'', ''path'', ''flags'']), (''open'', [''path'', ''flags'']),
     (''read'', [''fd'', ''buffer'', ''length'']), (''write'', [''fd'', ''buffer'', ''length'']),
     (''mprotect'', [''address'', ''length'', ''protection'']), (''ptrace'', [''request'', ''pid'', ''address'', ''data'']),
     (''strcmp'', [''left'', ''right'']), (''memcmp'', [''left'', ''right'', ''length'']),
     (''memcpy'', [''destination'', ''source'', ''length'']), (''objc_msgSend'', [''receiver'', ''selector''])]"

definition OPEN_FLAGS :: "(string \<times> int) list" where
  "OPEN_FLAGS = [(''O_CREAT'', 0x200), (''O_TRUNC'', 0x400), (''O_APPEND'', 8), (''O_EXCL'', 0x800), (''O_NONBLOCK'', 4)]"

definition open_flags :: "int \<Rightarrow> string" where
  "open_flags v = (let access = (case map_of [(0, ''O_RDONLY''), (1, ''O_WRONLY''), (2, ''O_RDWR'')] (v AND 3) of
        None \<Rightarrow> ''unknown access'' | Some t \<Rightarrow> t) in
     ''Open flags: '' @ access @ concat (map (\<lambda>(k, b). if v AND b \<noteq> 0 then '' | '' @ k else []) OPEN_FLAGS))"

definition call_lines :: "'w lldb \<Rightarrow> 'w nav_env \<Rightarrow> 'w \<Rightarrow> frame \<Rightarrow> nav_row \<Rightarrow> int option \<Rightarrow> string list" where
  "call_lines L N w f r target =
     (let name = (if nr_comment r \<noteq> [] then nr_comment r
          else case target of None \<Rightarrow> [] | Some t \<Rightarrow> if t = 0 then [] else nav_preview L N w t);
          signature = find (\<lambda>(k, _). k \<in> set (words name)) SIGNATURES;
          labels = (case signature of Some (_, ls) \<Rightarrow> ls | None \<Rightarrow> map (\<lambda>i. ''argument '' @ py_str i) [0..7]);
          arguments = concat (map (\<lambda>(i, label). let x = ''x'' @ py_str (int i) in case nav_reg f x of
              None \<Rightarrow> []
            | Some v \<Rightarrow> (label @ '' ('' @ x @ '') = '' @ py_hex v @ '' '' @ nav_preview L N w v) #
                (if label = ''flags'' \<and> map_option fst signature \<in> {Some ''open'', Some ''openat''} then [open_flags v] else []))
            (enumerate 0 labels)) in
      [''Call: '' @ (if name = [] then ''indirect / unknown signature'' else name)] @ arguments @
      [if signature = None then ''Raw ARM64 argument registers; signature unknown'' else ''Known API argument labels''])"

definition CALLS :: "string list" where "CALLS = [''bl'', ''blr'', ''blraa'', ''blrab'', ''blraaz'', ''blrabz'']"

definition is_live :: "'w lldb \<Rightarrow> 'w \<Rightarrow> frame option \<Rightarrow> addr \<Rightarrow> bool" where
  "is_live L w fr a = (case (fr, obs_process L w) of (Some f, Some p) \<Rightarrow> a = fr_pc f \<and> pr_stopped p | _ \<Rightarrow> False)"

text \<open>\<open>info\<close>: with the listed row, None when there is no instruction.\<close>

definition nav_info_of :: "'w lldb \<Rightarrow> 'w nav_env \<Rightarrow> 'w \<Rightarrow> frame option \<Rightarrow> addr \<Rightarrow> (nav_row option \<times> nav_info) res" where
  "nav_info_of L N w fr a = (case nav_instructions N w a 1 of
     [] \<Rightarrow> Inr (None, \<lparr>nf_live = None, nf_lines = [''Instruction unavailable''], nf_links = []\<rparr>)
   | r # _ \<Rightarrow>
     (let target = (if fr_mn r \<in> {''b'', ''bl''} \<or> branch_kind (fr_mn r) = Some Conditional then branch_target (fr_ops r) else None);
          link0 = (case target of None \<Rightarrow> [] | Some t \<Rightarrow> [\<lparr>nl_addr = t,
            nl_label = (let p = nav_preview L N w t in if p = [] then py_hex t else p), nl_memory = False\<rparr>]) in
      if \<not> is_live L w fr a then Inr (Some r, \<lparr>nf_live = Some False,
        nf_lines = [''Static selection '' @ [other_char] @ '' register-dependent values are shown only at the current PC.''], nf_links = link0\<rparr>)
      else let f = the fr in
        bindR (if branch_kind (fr_mn r) = Some Conditional then conditional_lines f r else Inr []) (\<lambda>cond.
        bindR (access_lines L N w f r) (\<lambda>(acc, link1).
        let operand = py_strip (hd (split_on CHR '','' (fr_ops r)));
            indirect = (if fr_mn r \<in> set INDIRECT then nav_reg f operand else None);
            ind = (case indirect of None \<Rightarrow> [] | Some v \<Rightarrow> [''Live '' @ operand @ '' = '' @ py_hex v @ '' (register value; not an observed edge)'']);
            link2 = (case indirect of None \<Rightarrow> [] | Some v \<Rightarrow> [\<lparr>nl_addr = v, nl_label = ''Indirect target register'', nl_memory = False\<rparr>]);
            call = (if fr_mn r \<in> set CALLS then call_lines L N w f r target else []);
            lines = cond @ acc @ ind @ call in
        Inr (Some r, \<lparr>nf_live = Some True,
          nf_lines = (if lines = [] then [''No additional dynamic information for this instruction.''] else lines),
          nf_links = link0 @ link1 @ link2\<rparr>)))))"

section \<open>Observed branches\<close>

text \<open>The current frame is that of the selected thread.\<close>

definition current_frame :: "'w lldb \<Rightarrow> 'w \<Rightarrow> (thread \<times> frame) option" where
  "current_frame L w = (case obs_process L w of None \<Rightarrow> None | Some p \<Rightarrow> (case selected_thread p of None \<Rightarrow> None
     | Some t \<Rightarrow> (case th_frame t of None \<Rightarrow> None | Some f \<Rightarrow> Some (t, f))))"

definition arm_observation :: "'w lldb \<Rightarrow> 'w nav_env \<Rightarrow> (('w, 'z) nav_dbg_scheme, unit) py" where
  "arm_observation L N = seqP (nav_sync L) (modP (\<lambda>s. s\<lparr>nv_step :=
     (case (current_frame L (world s), obs_process L (world s)) of
        (Some (t, f), Some p) \<Rightarrow> (case nav_instructions N (world s) (fr_pc f) 1 of
           r # _ \<Rightarrow> if fr_mn r \<in> set INDIRECT then Some (pr_stop p, th_id t, fr_pc f, read_memory L (world s) (fr_pc f) 4) else None
         | [] \<Rightarrow> None)
      | _ \<Rightarrow> None)\<rparr>))"

definition observe_edge :: "(int \<times> int) \<Rightarrow> bytes \<Rightarrow> ('w, 'z) nav_dbg_scheme \<Rightarrow> ('w, 'z) nav_dbg_scheme" where
  "observe_edge e code s = (if length (nv_observed s) < 4096
     then s\<lparr>nv_observed := List.insert e (nv_observed s), nv_code := od_set e code (nv_code s)\<rparr> else s)"

definition observe_branch :: "'w lldb \<Rightarrow> (('w, 'z) nav_dbg_scheme, unit) py" where
  "observe_branch L = seqP (nav_sync L) (modP (\<lambda>s. let t0 = s\<lparr>nv_step := None\<rparr> in
     case nv_step s of None \<Rightarrow> t0
     | Some (stop, tid, pc, code) \<Rightarrow> (case (current_frame L (world s), obs_process L (world s)) of
         (Some (t, f), Some p) \<Rightarrow> if pr_stop p = stop + 1 \<and> th_id t = tid \<and> th_reason t \<in> {SrPlanComplete, SrTrace}
           then observe_edge (pc, fr_pc f) code t0 else t0
       | _ \<Rightarrow> t0)))"

section \<open>The graph of a function\<close>

text \<open>Edges, the code they were seen in and the visits of a recording of the same process.\<close>

record nav_trace =
  nt_edges :: "(int \<times> int) list"
  nt_code :: "((int \<times> int), string) odict"
  nt_visits :: "(int, int) odict"

record nav_graph =
  ng_name :: string
  ng_start :: int
  ng_blocks :: "nav_block list"
  ng_edges :: "nav_edge list"
  ng_truncated :: bool
  ng_next :: "int option"
  ng_unknown :: bool
  ng_pc :: "int option"

definition nav_range :: "'w nav_env \<Rightarrow> 'w \<Rightarrow> addr \<Rightarrow> string \<times> int \<times> int \<times> bool" where
  "nav_range N w a = (let (name, start, stop) = (case nve_function N w a of
        Some (n, s, e) \<Rightarrow> (n, s, e) | None \<Rightarrow> (''Unknown function'', a, a + 1024)) in
     if start \<le> a \<and> a < stop \<and> stop \<noteq> 2 ^ 64 - 1 then (name, start, stop, True) else (name, a, a + 1024, False))"

definition seen_edges :: "'w lldb \<Rightarrow> ('w, 'z) nav_dbg_scheme \<Rightarrow> nav_trace option \<Rightarrow> nav_row list \<Rightarrow> (int \<times> int) list" where
  "seen_edges L s tr rows =
     (let here = (\<lambda>e. fst e \<in> row_addrs rows); code = (\<lambda>e. read_memory L (world s) (fst e) 4);
          own = filter (\<lambda>e. here e \<and> map_of (nv_code s) e = Some (code e)) (nv_observed s);
          traced = (case tr of None \<Rightarrow> [] | Some t \<Rightarrow>
            filter (\<lambda>e. here e \<and> map_of (nt_code t) e = Some (concat (map (\<lambda>c. hex_bytes [c]) (code e)))) (nt_edges t)) in
      own @ filter (\<lambda>e. e \<notin> set own) traced)"

text \<open>Visits of a block, and the edge of an indirect branch whose target could be inferred.\<close>

definition inferred_targets :: "'w lldb \<Rightarrow> 'w \<Rightarrow> nav_row list \<Rightarrow> (int, int \<times> string) odict res" where
  "inferred_targets L w rows = bindR (reference_candidates (map flow_row.truncate rows) (Some (\<lambda>a n. read_memory L w a (nat n)))) (\<lambda>refs.
     Inr (foldl (\<lambda>d r. if starts_with (rf_kind r) ''inferred indirect'' then od_set (fr_addr (rf_row r)) (rf_target r, rf_kind r) d else d) [] refs))"

definition infer_edge :: "(int, int \<times> string) odict \<Rightarrow> nav_block \<Rightarrow> nav_edge list \<Rightarrow> nav_edge list" where
  "infer_edge inferred b es = (case map_of inferred (fr_addr (last (nb_rows b))) of
     None \<Rightarrow> es
   | Some (t, k) \<Rightarrow> if list_ex (\<lambda>e. ne_from e = nb_addr b \<and> ne_to e = Some t) es then es
       else es @ [edge (nb_addr b) (Some t) ''indirect'' k])"

definition count_visits :: "(int, int) odict \<Rightarrow> nav_block \<Rightarrow> nav_block" where
  "count_visits visits b = b\<lparr>nb_visits := sum_list (map (\<lambda>r. case map_of visits (fr_addr r) of None \<Rightarrow> 0 | Some v \<Rightarrow> v) (nb_rows b))\<rparr>"

text \<open>The edge the branch at the current instruction is going to take.\<close>

definition activate :: "'w lldb \<Rightarrow> 'w \<Rightarrow> nav_block \<Rightarrow> nav_edge list \<Rightarrow> nav_edge list res" where
  "activate L w b es = (let r = last (nb_rows b) in
     case current_frame L w of
       None \<Rightarrow> Inr es
     | Some (t, f) \<Rightarrow> if fr_addr r = fr_pc f \<and> branch_kind (fr_mn r) = Some Conditional
         then bindR (evaluate_condition (fr_mn r) (fr_ops r) (fr_reg f)) (\<lambda>taken. Inr (case taken of
            None \<Rightarrow> es
          | Some k \<Rightarrow> map (\<lambda>e. if ne_from e = nb_addr b then e\<lparr>ne_active := Some ((ne_kind e = ''taken'') = k)\<rparr> else e) es))
         else Inr es)"

definition nav_graph_of :: "'w lldb \<Rightarrow> 'w nav_env \<Rightarrow> nav_trace option \<Rightarrow> addr \<Rightarrow> int \<Rightarrow> int \<Rightarrow> (('w, 'z) nav_dbg_scheme, nav_graph) py" where
  "nav_graph_of L N tr a limit offset =
     seqP (nav_sync L) (bindP (getP (\<lambda>s. nav_range N (world s) a)) (\<lambda>(name, start, stop0, known).
     seqP (checkP (16 \<le> limit \<and> limit \<le> 16384 \<and> 0 \<le> offset \<and> offset mod 4 = 0) (ValueError ''Invalid graph range''))
     (let stop = (if known then stop0 else start + limit * 4) in
     seqP (checkP (start + offset < stop) (ValueError ''Graph offset is outside the function''))
     (let count = min ((stop - start - offset) div 4) limit in
     bindP (getP (\<lambda>s. nav_instructions N (world s) (start + offset) count)) (\<lambda>rows.
     bindP (getP (\<lambda>s. (blocks_for rows (seen_edges L s tr rows), inferred_targets L (world s) rows))) (\<lambda>((blocks, edges), found).
     bindP (liftP found) (\<lambda>inferred.
     bindP (getP world) (\<lambda>w.
     bindP (liftP (foldR (activate L w) blocks (fold (infer_edge inferred) blocks edges))) (\<lambda>es.
     let reached = start + offset + int (length rows) * 4 in
     retP \<lparr>ng_name = name, ng_start = start,
        ng_blocks = map (count_visits (case tr of None \<Rightarrow> [] | Some t \<Rightarrow> nt_visits t)) blocks, ng_edges = es,
        ng_truncated = (reached < stop \<or> \<not> known),
        ng_next = (if int (length rows) = count \<and> reached < stop then Some (offset + int (length rows) * 4) else None),
        ng_unknown = (\<not> known), ng_pc = map_option (\<lambda>(t, f). fr_pc f) (current_frame L w)\<rparr>)))))))))"

section \<open>Pages of symbols and references\<close>

text \<open>\<open>casefold\<close> of Latin-1 text.\<close>

definition latin_fold :: "char \<Rightarrow> string" where
  "latin_fold c = (let v = byte_val c in
     if v = 0xDF then ''ss'' else if (65 \<le> v \<and> v \<le> 90) \<or> (0xC0 \<le> v \<and> v \<le> 0xDE \<and> v \<noteq> 0xD7) then [val_byte (v + 32)] else [c])"

record nav_symbol =
  ns_name :: string
  ns_addr :: "addr option"
  ns_kind :: string

record nav_symbols =
  sy_rows :: "nav_symbol list"
  sy_next :: int
  sy_complete :: bool

fun scan_symbols :: "string \<Rightarrow> nav_symbol list \<Rightarrow> nav_symbol list \<Rightarrow> int \<Rightarrow> nav_symbol list \<times> int" where
  "scan_symbols q rows [] scanned = (rows, scanned)"
| "scan_symbols q rows (y # ys) scanned =
     (if ns_addr y = None \<or> py_find (concat (map latin_fold q)) (concat (map latin_fold (ns_name y))) = None
      then scan_symbols q rows ys (scanned + 1)
      else if Suc (length rows) = 500 then (rows @ [y], scanned + 1)
      else scan_symbols q (rows @ [y]) ys (scanned + 1))"

definition nav_symbols_of :: "nav_symbol list \<Rightarrow> string \<Rightarrow> int \<Rightarrow> nav_symbols res" where
  "nav_symbols_of table q offset =
     bindR (guardR (\<not> (offset < 0 \<or> offset > int (length table) \<or> length q > 1024)) (ValueError ''Invalid symbol query or offset'')) (\<lambda>_.
     let (rows, scanned) = scan_symbols q [] (take 50000 (drop (nat offset) table)) 0 in
     Inr \<lparr>sy_rows = rows, sy_next = offset + scanned, sy_complete = (offset + scanned \<ge> int (length table))\<rparr>)"

record nav_references =
  nr_rows :: "reference list"
  nr_next :: int
  nr_complete :: bool
  nr_covered :: bool

text \<open>\<open>section\<close> is the load address and size of \<open>__TEXT,__text\<close> of the module.\<close>

definition nav_references_of :: "'w lldb \<Rightarrow> 'w nav_env \<Rightarrow> (addr \<times> int) option \<Rightarrow> 'w \<Rightarrow> addr \<Rightarrow> int \<Rightarrow> nav_references res" where
  "nav_references_of L N sec w a offset = (case sec of
     None \<Rightarrow> Inl (ValueError ''Module has no __TEXT,__text section'')
   | Some (base, sz) \<Rightarrow>
     bindR (guardR (\<not> (offset < 0 \<or> offset mod 4 \<noteq> 0 \<or> offset > sz)) (ValueError ''Invalid scan offset'')) (\<lambda>_.
     let scan_start = max 0 (offset - 1024); requested = min ((sz - scan_start) div 4) 16384;
         rows = nav_instructions N w (base + scan_start) requested in
     bindR (reference_candidates (map flow_row.truncate rows) (Some (\<lambda>a n. read_memory L w a (nat n)))) (\<lambda>refs.
     let next_offset = scan_start + int (length rows) * 4; short = int (length rows) < requested in
     Inr \<lparr>nr_rows = filter (\<lambda>r. rf_target r = a \<and> base + offset \<le> fr_addr (rf_row r)) refs, nr_next = next_offset,
       nr_complete = (next_offset \<ge> sz \<or> short), nr_covered = (next_offset \<ge> sz)\<rparr>)))"

section \<open>Blocks partition the rows\<close>

lemma add_rows_concat:
  "concat (map nb_rows (rev (fold (add_row lead) rows bs))) = concat (map nb_rows (rev bs)) @ rows"
proof (induction rows arbitrary: bs)
  case (Cons r rows)
  have "concat (map nb_rows (rev (add_row lead r bs))) = concat (map nb_rows (rev bs)) @ [r]" by (cases bs) simp_all
  then show ?case using Cons by simp
qed simp

text \<open>A block holds at least its first row, whose address it has; no later row of it is a leader.\<close>

definition block_ok :: "int set \<Rightarrow> nav_block \<Rightarrow> bool" where
  "block_ok lead b = (nb_rows b \<noteq> [] \<and> fr_addr (hd (nb_rows b)) = nb_addr b \<and> (\<forall>r \<in> set (tl (nb_rows b)). fr_addr r \<notin> lead))"

lemma add_rows_ok: "list_all (block_ok lead) bs \<Longrightarrow> list_all (block_ok lead) (fold (add_row lead) rows bs)"
proof (induction rows arbitrary: bs)
  case (Cons r rows)
  have "list_all (block_ok lead) (add_row lead r bs)"
  proof (cases bs)
    case (Cons b cs)
    then have "block_ok lead b" "list_all (block_ok lead) cs" using Cons.prems by simp_all
    then show ?thesis using Cons by (cases "nb_rows b") (auto simp: block_ok_def[of lead b] block_ok_def[of lead "nav_block.make _ _ _"] block_ok_def[of _ "b\<lparr>nb_rows := _\<rparr>"] block_ok_def[of _ "\<lparr>nb_addr = _, nb_rows = _, nb_visits = _\<rparr>"])
  qed (simp add: block_ok_def)
  then show ?case using Cons.IH by simp
qed simp

text \<open>Rows as the disassembler lists them: one every four bytes.\<close>

definition listed :: "nav_row list \<Rightarrow> bool" where
  "listed rows = (\<forall>i < length rows. fr_addr (rows ! i) = fr_addr (hd rows) + 4 * int i)"

lemma add_rows_starts:
  "bs \<noteq> [] \<Longrightarrow> nb_addr ` set (fold (add_row lead) rows bs) = nb_addr ` set bs \<union> (row_addrs rows \<inter> lead)"
proof (induction rows arbitrary: bs)
  case (Cons r rows)
  then obtain b cs where b: "bs = b # cs" by (cases bs) auto
  have "nb_addr ` set (add_row lead r bs) = nb_addr ` set bs \<union> (if fr_addr r \<in> lead then {fr_addr r} else {})"
    by (auto simp: b)
  moreover have "add_row lead r bs \<noteq> []" by (simp add: b)
  ultimately show ?case using Cons.IH[of "add_row lead r bs"] by (auto simp: row_addrs_def)
qed (simp add: row_addrs_def)

lemma block_starts:
  assumes "rows \<noteq> []"
  shows "nb_addr ` set (fst (blocks_for rows observed)) = row_addrs rows \<inter> block_leaders rows"
proof -
  obtain r rs where r: "rows = r # rs" using assms by (cases rows) auto
  have "nb_addr ` set (fold (add_row (block_leaders rows)) rs [\<lparr>nb_addr = fr_addr r, nb_rows = [r], nb_visits = 0\<rparr>]) =
      {fr_addr r} \<union> (row_addrs rs \<inter> block_leaders rows)"
    by (subst add_rows_starts) simp_all
  moreover have "fr_addr r \<in> block_leaders rows" by (simp add: block_leaders_def r)
  ultimately show ?thesis by (simp add: blocks_for_def Let_def r row_addrs_def)
qed

lemma leader_target:
  assumes "q \<in> set rows" "branch_kind (fr_mn q) \<noteq> None"
  shows "branch_target (fr_ops q) = Some t \<Longrightarrow> t \<in> row_addrs rows \<Longrightarrow> t \<in> block_leaders rows"
    "fr_addr q + 4 \<in> row_addrs rows \<Longrightarrow> fr_addr q + 4 \<in> block_leaders rows"
proof -
  have "set (row_leaders (row_addrs rows) q) \<subseteq> block_leaders rows" using assms(1) by (auto simp: block_leaders_def)
  moreover have "branch_target (fr_ops q) = Some t \<Longrightarrow> t \<in> row_addrs rows \<Longrightarrow> t \<in> set (row_leaders (row_addrs rows) q)"
    "fr_addr q + 4 \<in> row_addrs rows \<Longrightarrow> fr_addr q + 4 \<in> set (row_leaders (row_addrs rows) q)"
    using assms(2) by (simp_all add: row_leaders_def)
  ultimately show "branch_target (fr_ops q) = Some t \<Longrightarrow> t \<in> row_addrs rows \<Longrightarrow> t \<in> block_leaders rows"
    "fr_addr q + 4 \<in> row_addrs rows \<Longrightarrow> fr_addr q + 4 \<in> block_leaders rows" by blast+
qed

lemma concat_segment: "b \<in> set bs \<Longrightarrow> \<exists>pre post. concat (map f bs) = pre @ f b @ post"
  by (metis concat.simps(2) concat_append list.simps(9) map_append split_list)

lemma listed_step:
  assumes "listed rows" "rows = pre @ seg @ post" "Suc i < length seg"
  shows "fr_addr (seg ! Suc i) = fr_addr (seg ! i) + 4"
proof -
  have "seg ! Suc i = rows ! (length pre + Suc i)" "seg ! i = rows ! (length pre + i)"
    using assms(2,3) by (simp_all add: nth_append)
  moreover have "length pre + Suc i < length rows" using assms(2,3) by simp
  ultimately show ?thesis using assms(1) by (simp add: listed_def)
qed

text \<open>
  C7. The blocks of a listing are basic blocks. In their order they are the listed rows; each has
  the address of its first row; a branch can only be the last row of a block, and only the first
  row of a block is the target of a branch. An edge starts at a block, and a decoded edge that
  stays in the listing ends at the start of one.
\<close>
theorem blocks_partition:
  assumes "listed rows" "blocks_for rows observed = (blocks, edges)"
  shows "concat (map nb_rows blocks) = rows \<and>
    list_all (\<lambda>b. nb_rows b \<noteq> [] \<and> nb_addr b = fr_addr (hd (nb_rows b)) \<and>
      list_all (\<lambda>r. branch_kind (fr_mn r) = None) (butlast (nb_rows b)) \<and>
      list_all (\<lambda>r. list_all (\<lambda>q. branch_kind (fr_mn q) = None \<or> branch_target (fr_ops q) \<noteq> Some (fr_addr r)) rows) (tl (nb_rows b))) blocks \<and>
    list_all (\<lambda>e. ne_from e \<in> nb_addr ` set blocks \<and>
      (ne_source e = ''decoded'' \<longrightarrow> (case ne_to e of None \<Rightarrow> True | Some t \<Rightarrow> t \<in> row_addrs rows \<longrightarrow> t \<in> nb_addr ` set blocks))) edges"
proof (cases "rows = []")
  case True
  then show ?thesis using assms(2) by (simp add: blocks_for_def)
next
  case False
  let ?lead = "block_leaders rows"
  have blocks: "blocks = rev (fold (add_row ?lead) rows [])" and edges: "edges = concat (map (block_edges (row_addrs rows) observed) blocks)"
    using assms(2) False by (auto simp: blocks_for_def Let_def)
  have parts: "concat (map nb_rows blocks) = rows" by (simp add: blocks add_rows_concat)
  have ok: "block_ok ?lead b" if "b \<in> set blocks" for b
    using add_rows_ok[of ?lead "[]" rows] that by (auto simp: blocks list_all_iff)
  have starts: "nb_addr ` set blocks = row_addrs rows \<inter> ?lead" using block_starts[OF False, of observed] assms(2) by simp
  have plain: "branch_kind (fr_mn r) = None" if b: "b \<in> set blocks" and r: "r \<in> set (butlast (nb_rows b))" for b r
  proof (rule ccontr)
    assume k: "branch_kind (fr_mn r) \<noteq> None"
    obtain i where "i < length (butlast (nb_rows b))" "r = butlast (nb_rows b) ! i"
      using r unfolding in_set_conv_nth by blast
    then have i: "Suc i < length (nb_rows b)" "r = nb_rows b ! i" by (simp_all add: nth_butlast)
    obtain pre post where seg: "rows = pre @ nb_rows b @ post" using concat_segment[OF b, of nb_rows] parts by auto
    have step: "fr_addr (nb_rows b ! Suc i) = fr_addr r + 4" using listed_step[OF assms(1) seg i(1)] i(2) by simp
    have "nb_rows b ! Suc i \<in> set rows" using i(1) by (subst seg) simp
    then have "fr_addr r + 4 \<in> row_addrs rows" unfolding row_addrs_def using step by (metis imageI)
    moreover have "r \<in> set rows" using i by (subst seg) simp
    ultimately have "fr_addr r + 4 \<in> ?lead" using k leader_target(2) by blast
    moreover have "nb_rows b ! Suc i \<in> set (tl (nb_rows b))" using i(1)
      by (cases "nb_rows b") auto
    ultimately show False using ok[OF b] step unfolding block_ok_def by metis
  qed
  have target: "branch_kind (fr_mn q) = None \<or> branch_target (fr_ops q) \<noteq> Some (fr_addr r)"
    if b: "b \<in> set blocks" and r: "r \<in> set (tl (nb_rows b))" and q: "q \<in> set rows" for b r q
  proof -
    obtain pre post where seg: "rows = pre @ nb_rows b @ post" using concat_segment[OF b, of nb_rows] parts by auto
    have "r \<in> set rows" using r by (subst seg) (cases "nb_rows b", auto)
    then have "fr_addr r \<in> row_addrs rows" by (simp add: row_addrs_def)
    moreover have "fr_addr r \<notin> ?lead" using ok[OF b] r by (simp add: block_ok_def)
    ultimately show ?thesis using leader_target(1)[OF q] by blast
  qed
  have edge: "ne_from e = nb_addr b \<and> (ne_source e = ''decoded'' \<longrightarrow> (\<forall>t. ne_to e = Some t \<longrightarrow> t \<in> row_addrs rows \<longrightarrow> t \<in> ?lead))"
    if b: "b \<in> set blocks" and e: "e \<in> set (block_edges (row_addrs rows) observed b)" for b e
  proof -
    let ?r = "last (nb_rows b)"
    obtain bs1 bs2 where bs: "blocks = bs1 @ b # bs2" using split_list[OF b] by blast
    have seg: "rows = concat (map nb_rows bs1) @ nb_rows b @ concat (map nb_rows bs2)" using parts bs by simp
    have ne: "nb_rows b \<noteq> []" using ok[OF b] by (simp add: block_ok_def)
    have r: "?r \<in> set rows" using ne by (subst seg) simp
    have fall: "fr_addr ?r + 4 \<in> ?lead" if t: "fr_addr ?r + 4 \<in> row_addrs rows"
    proof (cases bs2)
      case Nil
      then have l: "?r = last rows" using ne by (subst seg) simp
      obtain i where i: "i < length rows" "fr_addr (rows ! i) = fr_addr ?r + 4" using t by (auto simp: row_addrs_def in_set_conv_nth)
      have "rows ! (length rows - 1) = last rows" using False by (simp add: last_conv_nth)
      moreover have "fr_addr (rows ! i) = fr_addr (hd rows) + 4 * int i"
        "fr_addr (rows ! (length rows - 1)) = fr_addr (hd rows) + 4 * int (length rows - 1)"
        using assms(1) i(1) by (auto simp: listed_def)
      ultimately have "int i = int (length rows - 1) + 1" using i(2) l by simp
      then show ?thesis using i(1) by linarith
    next
      case (Cons c bs3)
      have c: "c \<in> set blocks" by (simp add: bs Cons)
      then obtain x xs where x: "nb_rows c = x # xs" using ok[OF c] by (cases "nb_rows c") (auto simp: block_ok_def)
      have sg: "rows = concat (map nb_rows bs1) @ (nb_rows b @ [x]) @ xs @ concat (map nb_rows bs3)" using seg by (simp add: Cons x)
      have "fr_addr x = fr_addr ?r + 4" using listed_step[OF assms(1) sg, of "length (nb_rows b) - 1"] ne
        by (simp add: nth_append last_conv_nth)
      then have "fr_addr ?r + 4 = nb_addr c" using ok[OF c] x by (simp add: block_ok_def)
      then show ?thesis using starts c by blast
    qed
    have jump: "t \<in> ?lead" if "fr_mn ?r = ''b'' \<or> branch_kind (fr_mn ?r) = Some Conditional" "branch_target (fr_ops ?r) = Some t" "t \<in> row_addrs rows" for t
      by (rule leader_target(1)[OF r _ that(2,3)]) (use that(1) in \<open>auto simp: branch_kind_def split: if_splits\<close>)
    show ?thesis using e fall jump by (auto simp: block_edges_def Let_def edge_def split: if_splits)
  qed
  have "list_all (\<lambda>e. ne_from e \<in> nb_addr ` set blocks \<and>
      (ne_source e = ''decoded'' \<longrightarrow> (case ne_to e of None \<Rightarrow> True | Some t \<Rightarrow> t \<in> row_addrs rows \<longrightarrow> t \<in> nb_addr ` set blocks))) edges"
    unfolding list_all_iff
  proof
    fix e assume "e \<in> set edges"
    then obtain b where b: "b \<in> set blocks" "e \<in> set (block_edges (row_addrs rows) observed b)" unfolding edges by auto
    from edge[OF this] show "ne_from e \<in> nb_addr ` set blocks \<and>
      (ne_source e = ''decoded'' \<longrightarrow> (case ne_to e of None \<Rightarrow> True | Some t \<Rightarrow> t \<in> row_addrs rows \<longrightarrow> t \<in> nb_addr ` set blocks))"
      using b(1) starts by (cases "ne_to e") auto
  qed
  then show ?thesis using parts ok plain target by (simp add: list_all_iff block_ok_def)
qed

definition demo_row :: "int \<Rightarrow> string \<Rightarrow> string \<Rightarrow> nav_row" where
  "demo_row a mn ops = \<lparr>fr_addr = a, fr_mn = mn, fr_ops = ops, nr_comment = []\<rparr>"

definition demo_rows :: "nav_row list" where
  "demo_rows = [demo_row 4096 ''nop'' [], demo_row 4100 ''cbz'' ''x0, 0x100c'', demo_row 4104 ''nop'' [], demo_row 4108 ''ret'' []]"

lemma blocks_partition_witness:
  "map nb_addr (fst (blocks_for demo_rows [])) = [4096, 4104, 4108] \<and>
   concat (map nb_rows (fst (blocks_for demo_rows []))) = demo_rows"
proof
  show "map nb_addr (fst (blocks_for demo_rows [])) = [4096, 4104, 4108]" by code_simp
  have "fr_addr (demo_rows ! i) = fr_addr (hd demo_rows) + 4 * int i" if "i < length demo_rows" for i
    using that by (auto simp: demo_rows_def demo_row_def nth_Cons less_Suc_eq split: nat.splits)
  then have "listed demo_rows" by (simp add: listed_def)
  from blocks_partition[OF this prod.collapse[symmetric], of "[]"]
  show "concat (map nb_rows (fst (blocks_for demo_rows []))) = demo_rows" by blast
qed

text \<open>
  Where there is neither a function nor a symbol, \<open>graph\<close> takes the 1024 bytes from the address as
  the function and never says that its boundary is unknown.
\<close>

lemma boundary_never_unknown:
  "nve_function N w a = None \<Longrightarrow> a + 1024 \<noteq> 2 ^ 64 - 1 \<Longrightarrow> nav_range N w a = (''Unknown function'', a, a + 1024, True)"
  by (simp add: nav_range_def)

text \<open>A pair of sign-extended words is eight bytes, as \<open>arm64_operands\<close> has it; \<open>info\<close> shows sixteen.\<close>

lemma pair_width_differs:
  "nav_width ''ldpsw'' ''x0, x1, [x2]'' = 16 \<and> access_width ''ldpsw'' CHR ''x'' = 8"
  by code_simp

text \<open>A half-word of a vector register is two bytes; \<open>info\<close> shows four.\<close>

lemma half_width_differs: "nav_width ''ldr'' ''h0, [x2]'' = 4 \<and> access_width ''ldr'' CHR ''h'' = 2"
  by code_simp

text \<open>A page of symbols has at most 500 rows, and the next page starts after the symbols this one looked at.\<close>

lemma scan_symbols_bound:
  "scan_symbols q rows ys k = (out, n) \<Longrightarrow> length rows < 500 \<Longrightarrow> length out \<le> 500 \<and> k \<le> n \<and> n \<le> k + int (length ys)"
proof (induction ys arbitrary: rows k)
  case (Cons y ys)
  show ?case
  proof (cases "ns_addr y = None \<or> py_find (concat (map latin_fold q)) (concat (map latin_fold (ns_name y))) = None")
    case True
    then show ?thesis using Cons.IH[of rows "k + 1"] Cons.prems by (simp del: disj_not1)
  next
    case False
    then show ?thesis using Cons.IH[of "rows @ [y]" "k + 1"] Cons.prems by (auto split: if_splits)
  qed
qed simp

text \<open>At most 4096 observed edges are kept, each with the code it was seen in.\<close>

lemma observe_edge_bound:
  "length (nv_observed s) \<le> 4096 \<Longrightarrow> set (nv_observed s) \<subseteq> fst ` set (nv_code s) \<Longrightarrow>
   length (nv_observed (observe_edge e c s)) \<le> 4096 \<and> set (nv_observed (observe_edge e c s)) \<subseteq> fst ` set (nv_code (observe_edge e c s))"
proof -
  assume a: "length (nv_observed s) \<le> 4096" "set (nv_observed s) \<subseteq> fst ` set (nv_code s)"
  have "fst ` set (od_set e c (nv_code s)) = insert e (fst ` set (nv_code s))"
    by (simp add: od_set_def dom_update)
  then show ?thesis using a by (auto simp: observe_edge_def List.insert_def)
qed

end
