(* ===== verification/Inspect.thy ===== *)
theory Inspect
  imports Markers Lldb Arm64Operands
begin

text \<open>
  What the panes show: the register rows of \<open>macdbg/core/registers.py\<close> with their annotations, the
  hexdump rows of \<open>macdbg/core/memory.py\<close>, and \<open>resolve\<close> of \<open>macdbg/core/address.py\<close>, which turns
  what the user types into addresses without running code in the target.
\<close>

section \<open>Hexdump\<close>

definition hex2 :: "char \<Rightarrow> string" where
  "hex2 c = [hex_digit (nat (byte_val c) div 16), hex_digit (nat (byte_val c) mod 16)]"

fun spaced_hex :: "bytes \<Rightarrow> string" where
  "spaced_hex [] = []"
| "spaced_hex [c] = hex2 c"
| "spaced_hex (c # d # cs) = hex2 c @ CHR '' '' # spaced_hex (d # cs)"

definition ljust :: "nat \<Rightarrow> string \<Rightarrow> string" where
  "ljust n s = s @ replicate (n - length s) CHR '' ''"

definition ascii_char :: "char \<Rightarrow> char" where
  "ascii_char c = (if 32 \<le> byte_val c \<and> byte_val c < 127 then c else CHR ''.'')"

fun hexdump_from :: "nat \<Rightarrow> bytes \<Rightarrow> addr \<Rightarrow> nat \<Rightarrow> (addr \<times> string \<times> string) list" where
  "hexdump_from 0 data base width = []"
| "hexdump_from (Suc n) data base width =
     (base, ljust (width * 3 - 1) (spaced_hex (take width data)), map ascii_char (take width data))
       # hexdump_from n (drop width data) (base + int width) width"

text \<open>\<open>range(0, len(data), width)\<close>: as many rows as it has members; a zero width raises.\<close>

definition hexdump_rows :: "bytes \<Rightarrow> addr \<Rightarrow> nat \<Rightarrow> (addr \<times> string \<times> string) list res" where
  "hexdump_rows data base width = (if width = 0 then Inl (ValueError ''range() arg 3 must not be zero'')
     else Inr (hexdump_from ((length data + width - 1) div width) data base width))"

definition bytes_per_row_for :: "int \<Rightarrow> nat" where
  "bytes_per_row_for w = (if w < 88 then 8 else 16)"

section \<open>Registers\<close>

record reg_row =
  rg_name :: string
  rg_value :: string
  rg_changed :: bool
  rg_note :: string

text \<open>
  The symbol at an address: its module's file name, its name and its load address (None when it
  has none); whether the address lies in a module; the executable's file name.
\<close>

record 'w sym_env =
  se_target :: "'w \<Rightarrow> bool"
  se_symbol :: "'w \<Rightarrow> addr \<Rightarrow> (string \<times> string \<times> addr option) option"
  se_module :: "'w \<Rightarrow> addr \<Rightarrow> bool"
  se_executable :: "'w \<Rightarrow> string"

definition SKIP_DEREF :: "string list" where
  "SKIP_DEREF = [''cpsr'', ''rflags'', ''eflags'', ''fpsr'', ''fpcr'', ''mxcsr'', ''fs'', ''gs'', ''cs'', ''ds'', ''es'', ''ss'']"

definition PRIORITY :: "string list" where
  "PRIORITY = map (\<lambda>i. ''x'' @ py_str i) [0..28] @ [''fp'', ''lr'', ''sp'', ''pc'', ''cpsr'',
     ''rax'', ''rbx'', ''rcx'', ''rdx'', ''rsi'', ''rdi'', ''rbp'', ''rsp'',
     ''r8'', ''r9'', ''r10'', ''r11'', ''r12'', ''r13'', ''r14'', ''r15'', ''rip'', ''rflags'']"

definition looks_like_addr :: "int \<Rightarrow> bool" where "looks_like_addr v = (v \<ge> 0x10000)"

text \<open>The printable bytes at the start, and whether a NUL ends them.\<close>

definition printable :: "char \<Rightarrow> bool" where "printable c = (32 \<le> byte_val c \<and> byte_val c < 127)"

definition printable_prefix :: "bytes \<Rightarrow> string" where
  "printable_prefix data = (let p = takeWhile printable data; after = dropWhile printable data;
       terminated = (p \<noteq> [] \<and> (case after of c # _ \<Rightarrow> byte_val c = 0 | [] \<Rightarrow> False)) in
     if length p < 5 then [] else if \<not> terminated \<and> length p < 12 then [] else p)"

definition symbolize :: "'w sym_env \<Rightarrow> 'w \<Rightarrow> addr \<Rightarrow> string" where
  "symbolize S w a = (if \<not> se_target S w then []
     else case se_symbol S w a of None \<Rightarrow> []
     | Some (modname, name, start) \<Rightarrow> if name = [] then []
       else (let offset = (case start of None \<Rightarrow> 0 | Some b \<Rightarrow> a - b);
                 prefix = (if modname \<noteq> [] \<and> modname \<noteq> se_executable S w then modname @ ''`'' else []) in
         if offset = 0 then prefix @ name
         else if offset < 0 \<or> offset > 0x100000 then [] else prefix @ name @ ''+'' @ py_hex offset))"

text \<open>\<open>int(val, 16) if val.startswith("0x") else int(val)\<close>\<close>

definition reg_int :: "string \<Rightarrow> int option" where
  "reg_int v = (if starts_with v ''0x'' then py_int 16 v else py_int 10 v)"

definition annotate_value :: "'w lldb \<Rightarrow> 'w sym_env \<Rightarrow> 'w \<Rightarrow> string \<Rightarrow> string" where
  "annotate_value L S w val = (case reg_int val of None \<Rightarrow> []
     | Some v \<Rightarrow> if \<not> looks_like_addr v then []
       else let sym = symbolize S w v in if sym \<noteq> [] then sym
       else let data = read_memory L w v 64; quote = [CHR 0x22] in
         if data = [] then []
         else if printable_prefix data \<noteq> [] then quote @ take 40 (printable_prefix data) @ quote
         else (let ptr = le_int (take 8 data); deep = (8 \<le> length data \<and> looks_like_addr ptr);
                   sym2 = (if deep then symbolize S w ptr else []);
                   s2 = (if deep then printable_prefix (read_memory L w ptr 64) else []) in
           if sym2 \<noteq> [] then ''-> '' @ sym2
           else if s2 \<noteq> [] then ''-> '' @ py_hex ptr @ '' '' @ quote @ take 40 s2 @ quote
           else if se_target S w \<and> se_module S w v then ''['' @ spaced_hex (take 8 data) @ '']'' else []))"

definition CPSR_FLAGS :: "(char \<times> nat) list" where "CPSR_FLAGS = zip ''NZCV'' [31, 30, 29, 28]"
definition RFLAGS_FLAGS :: "(char \<times> nat) list" where "RFLAGS_FLAGS = zip ''OSZC'' [11, 7, 6, 0]"

definition flag_layout_for :: "string \<Rightarrow> (char \<times> nat) list option" where
  "flag_layout_for name = (let n = py_lower name in
     if n = ''cpsr'' then Some CPSR_FLAGS else if n = ''rflags'' \<or> n = ''eflags'' then Some RFLAGS_FLAGS else None)"

definition decode_flags :: "string \<Rightarrow> (char \<times> nat) list \<Rightarrow> string" where
  "decode_flags val layout = (case (if starts_with (py_lower val) ''0x'' then py_int 16 val else py_int 10 val) of
     None \<Rightarrow> [] | Some v \<Rightarrow> map (\<lambda>(name, b). if drop_bit b v AND 1 \<noteq> 0 then name else lower_char name) layout)"

text \<open>The annotation of one register, with the cache of earlier ones.\<close>

definition annotate :: "'w lldb \<Rightarrow> 'w sym_env \<Rightarrow> 'w \<Rightarrow> string \<Rightarrow> string \<Rightarrow> (string, string) odict \<Rightarrow> string \<times> (string, string) odict" where
  "annotate L S w name val cache = (case flag_layout_for name of
     Some layout \<Rightarrow> (decode_flags val layout, cache)
   | None \<Rightarrow> if name \<in> set SKIP_DEREF then ([], cache)
     else (case map_of cache (name @ ''='' @ val) of
        Some note \<Rightarrow> (note, cache)
      | None \<Rightarrow> let note = annotate_value L S w val in (note, od_set (name @ ''='' @ val) note cache)))"

fun collect_rows :: "'w lldb \<Rightarrow> 'w sym_env \<Rightarrow> 'w \<Rightarrow> (string, string) odict \<Rightarrow> (string \<times> string) list \<Rightarrow> (string, string) odict \<Rightarrow>
    reg_row list \<times> (string, string) odict" where
  "collect_rows L S w prev [] cache = ([], cache)"
| "collect_rows L S w prev ((name, val) # rest) cache =
     (let (note, cache1) = annotate L S w name val cache; (rows, cache2) = collect_rows L S w prev rest cache1 in
      (\<lparr>rg_name = name, rg_value = val, rg_changed = (prev \<noteq> [] \<and> map_of prev name \<noteq> Some val), rg_note = note\<rparr> # rows, cache2))"

text \<open>The values by name, each under the place of its first set: later sets overwrite.\<close>

definition reg_seen :: "(string \<times> string) list \<Rightarrow> (string, string) odict" where
  "reg_seen regs = foldl (\<lambda>d (n, v). if n = [] then d else od_set n v d) [] regs"

definition reg_order :: "(string, string) odict \<Rightarrow> (string \<times> string) list" where
  "reg_order seen = List.map_filter (\<lambda>n. map_option (Pair n) (map_of seen n)) PRIORITY @ filter (\<lambda>(n, v). n \<notin> set PRIORITY) seen"

definition collect :: "'w lldb \<Rightarrow> 'w sym_env \<Rightarrow> 'w \<Rightarrow> (string \<times> string) list option \<Rightarrow> (string, string) odict \<Rightarrow> (string, string) odict \<Rightarrow>
    reg_row list \<times> (string, string) odict" where
  "collect L S w regs prev cache = (case regs of None \<Rightarrow> ([], cache)
     | Some rs \<Rightarrow> collect_rows L S w prev (reg_order (reg_seen rs)) cache)"

definition reg_snapshot :: "reg_row list \<Rightarrow> (string, string) odict" where
  "reg_snapshot rows = foldl (\<lambda>d r. od_set (rg_name r) (rg_value r) d) [] rows"

section \<open>Addresses the user types\<close>

text \<open>\<open>re.search\<close> of a pattern that ends in \<open>$\<close>, in stripped text: the text before the leftmost match, and its groups.\<close>

fun rx_search_end :: "rx \<Rightarrow> string \<Rightarrow> (nat \<times> groups) option" where
  "rx_search_end r [] = map_option (Pair 0) (rx_full r [])"
| "rx_search_end r (c # s) = (case rx_full r (c # s) of Some g \<Rightarrow> Some (0, g)
     | None \<Rightarrow> map_option (\<lambda>(n, g). (Suc n, g)) (rx_search_end r s))"

definition rx_offset :: rx where
  "rx_offset = Seqs [rSpaces, Grp 1 (one_of ''+-''), rSpaces, Grp 2 (Alt rHexNum rDigits)]"

text \<open>The text without its offset, and the offset.\<close>

definition split_offset :: "string \<Rightarrow> (string \<times> int) res" where
  "split_offset t = (case rx_search_end rx_offset t of
     Some (n, g) \<Rightarrow> if n = 0 then Inr (t, 0)
       else bindR (int_or_error 0 (the (grp 2 g))) (\<lambda>v.
         Inr (py_strip (take n t), v * (if grp 1 g = Some ''-'' then -1 else 1)))
   | None \<Rightarrow> Inr (t, 0))"

text \<open>
  The current frame's register of a name, and the functions, then the symbols, of a name: module,
  name of the item (empty: none), load address (None: no item or not loaded).
\<close>

record 'w addr_env =
  ae_register :: "'w \<Rightarrow> string \<Rightarrow> int option"
  ae_target :: "'w \<Rightarrow> bool"
  ae_contexts :: "'w \<Rightarrow> string \<Rightarrow> (string \<times> string \<times> addr option) list"

definition name_candidates :: "'w addr_env \<Rightarrow> 'w \<Rightarrow> string \<Rightarrow> (addr \<times> string) list" where
  "name_candidates A w t =
     (let (modname, name) = (case cut_at ''!'' t of (m, Some n) \<Rightarrow> (m, n) | (n, None) \<Rightarrow> ([], n)) in
      List.map_filter (\<lambda>(m, item, a). if modname \<noteq> [] \<and> m \<noteq> modname then None
        else map_option (\<lambda>v. (v, m @ ''!'' @ (if item \<noteq> [] then item else name))) a) (ae_contexts A w name))"

definition candidates :: "'w addr_env \<Rightarrow> 'w \<Rightarrow> string \<Rightarrow> (addr \<times> string) list res" where
  "candidates A w t = (case py_int 0 t of
     Some v \<Rightarrow> Inr [(v, t)]
   | None \<Rightarrow> (case ae_register A w (lstrip_by (\<lambda>c. c = CHR ''$'') t) of
       Some v \<Rightarrow> Inr [(v, t)]
     | None \<Rightarrow> if \<not> ae_target A w then Inl (ValueError ''No target loaded.'') else Inr (name_candidates A w t)))"

definition add_candidate :: "int \<Rightarrow> addr \<times> string \<Rightarrow> (addr, string) odict \<Rightarrow> (addr, string) odict res" where
  "add_candidate offset c d = (case c of (a, label) \<Rightarrow>
     if \<not> (0 \<le> a + offset \<and> a + offset < 2 ^ 64) then Inl (ValueError ''Address is outside the 64-bit address space.'')
     else Inr (if map_of d (a + offset) = None then d @ [(a + offset, label)] else d))"

definition resolve :: "'w addr_env \<Rightarrow> 'w \<Rightarrow> string \<Rightarrow> (string \<times> string) list res" where
  "resolve A w expression =
     (let t = py_strip expression in
      if t = [] then Inl (ValueError ''Enter an address, symbol, or register.'')
      else bindR (split_offset t) (\<lambda>(text, offset).
        bindR (candidates A w text) (\<lambda>cs.
        bindR (foldR (add_candidate offset) cs []) (\<lambda>d.
        if d = [] then Inl (ValueError ''No match. Use a symbol, $register, or address with an optional +/- offset.'')
        else Inr (map (\<lambda>(a, label). (py_hex a, label)) d)))))"

section \<open>What is shown is what is there\<close>

text \<open>The rows of a hexdump follow each other and their text shows all the bytes, in order.\<close>

lemma hexdump_from_texts:
  "length data \<le> n * width \<Longrightarrow> concat (map (\<lambda>(a, h, t). t) (hexdump_from n data base width)) = map ascii_char data"
proof (induction n arbitrary: data base)
  case (Suc n)
  have "length (drop width data) \<le> n * width" using Suc.prems by (simp add: algebra_simps)
  then have "concat (map (\<lambda>(a, h, t). t) (hexdump_from n (drop width data) (base + int width) width)) = map ascii_char (drop width data)"
    by (rule Suc.IH)
  then show ?case by (simp flip: map_append)
qed simp

lemma hexdump_covers:
  assumes "hexdump_rows data base width = Inr rows"
  shows "concat (map (\<lambda>(a, h, t). t) rows) = map ascii_char data"
proof -
  have w: "width \<noteq> 0" and rows: "rows = hexdump_from ((length data + width - 1) div width) data base width"
    using assms by (auto simp: hexdump_rows_def split: if_splits)
  have "length data \<le> (length data + width - 1) div width * width"
  proof -
    have "length data + width - 1 = (length data + width - 1) div width * width + (length data + width - 1) mod width" by simp
    moreover have "(length data + width - 1) mod width \<le> width - 1" using w by (simp add: Suc_leI less_Suc_eq_le[symmetric])
    ultimately show ?thesis using w by linarith
  qed
  then show ?thesis unfolding rows by (rule hexdump_from_texts)
qed

text \<open>Every resolved address is a 64-bit address, no address appears twice, and there is at least one.\<close>

lemma add_candidate_ok:
  assumes "distinct (map fst d)" "\<forall>a \<in> fst ` set d. 0 \<le> a \<and> a < 2 ^ 64" "add_candidate offset c d = Inr e"
  shows "distinct (map fst e)" "\<forall>a \<in> fst ` set e. 0 \<le> a \<and> a < 2 ^ 64"
  using assms by (auto simp: add_candidate_def map_of_eq_None_iff split: prod.splits if_splits)

lemma resolve_bounds:
  assumes "resolve A w expression = Inr rows"
  shows "rows \<noteq> [] \<and> distinct (map fst rows) \<and> (\<forall>h \<in> fst ` set rows. \<exists>a. h = py_hex a \<and> 0 \<le> a \<and> a < 2 ^ 64)"
proof -
  obtain cs offset d where fold: "foldR (add_candidate offset) cs [] = Inr d" and d: "d \<noteq> []" "rows = map (\<lambda>(a, label). (py_hex a, label)) d"
    using assms by (auto simp: resolve_def Let_def bindR_Inr split: if_splits)
  have ok: "distinct (map fst d) \<and> (\<forall>a \<in> fst ` set d. 0 \<le> a \<and> a < 2 ^ 64)"
    by (rule foldR_invariant[OF fold]) (simp, blast dest: add_candidate_ok)
  have "inj_on py_hex (fst ` set d)"
    by (rule inj_onI) (metis option.inject py_int_py_hex insertI1)
  then have "distinct (map py_hex (map fst d))" using ok by (subst distinct_map) (simp del: distinct_map)
  moreover have "map fst rows = map py_hex (map fst d)" by (simp add: d comp_def split_beta)
  ultimately show ?thesis using d(1) ok by (auto simp: d(2) comp_def split_beta)
qed

text \<open>The rows of the registers have one row per register, and the snapshot of them is what was read.\<close>

lemma collect_rows_names: "map (\<lambda>r. (rg_name r, rg_value r)) (fst (collect_rows L S w prev regs cache)) = regs"
  by (induction regs arbitrary: cache) (auto simp: Let_def split: prod.splits, metis fst_conv)

end
