(* ===== verification/SelfTrap.thy ===== *)
theory SelfTrap
  imports Breakpoints Json
begin

unbundle bit_operations_syntax

text \<open>
  \<open>SelfTrapForwarder\<close> of \<open>macdbg/core/self_trap.py\<close>: a \<open>brk #0\<close> the target set on itself is sent
  to the handler it installed for \<open>SIGTRAP\<close>, on a stack of its own; when the handler returns, the
  registers saved before are put back, each verified after it was written. Register data,
  allocation and commands are calls to LLDB, given by \<open>trap_env\<close>; resuming is an argument.
\<close>

text \<open>Size of the register, size of its data, and the bytes a read of some length returns.\<close>

record reg_data =
  rd_size :: nat
  rd_bytes :: nat
  rd_raw :: "nat \<Rightarrow> bytes option"

record 'w trap_env =
  te_alloc :: "nat \<Rightarrow> 'w \<Rightarrow> int option \<times> 'w"
  te_free :: "int \<Rightarrow> 'w \<Rightarrow> unit \<times> 'w"
  te_command :: "string \<Rightarrow> 'w \<Rightarrow> (bool \<times> string) \<times> 'w"
  te_register :: "'w \<Rightarrow> int \<Rightarrow> string \<Rightarrow> reg_data option"
  te_module :: "'w \<Rightarrow> addr \<Rightarrow> string"

type_synonym regs = "(string, bytes) odict"

record trap_entry =
  tr_bp :: int
  tr_pc :: addr
  tr_stack :: int
  tr_top :: int
  tr_registers :: regs

record 'w trap_dbg = "'w dbg" +
  st_on :: bool
  st_active :: "(int, trap_entry) odict"
  st_error :: "string option"

definition trap_hidden_ids :: "('w, 'z) trap_dbg_scheme \<Rightarrow> int set" where
  "trap_hidden_ids s = (\<lambda>(_, e). tr_bp e) ` set (st_active s)"

definition drop_entry :: "'w lldb \<Rightarrow> 'w trap_env \<Rightarrow> int \<times> trap_entry \<Rightarrow> (('w, 'z) trap_dbg_scheme, unit) py" where
  "drop_entry L E = (\<lambda>(_, e).
     seqP (delete_breakpoint L (tr_bp e))
     (bindP (getP (\<lambda>s. obs_process L (world s))) (\<lambda>p. whenP (p \<noteq> None) (onW (te_free E (tr_stack e))))))"

definition trap_reset :: "'w lldb \<Rightarrow> 'w trap_env \<Rightarrow> (('w, 'z) trap_dbg_scheme, unit) py" where
  "trap_reset L E =
     bindP (getP st_active) (\<lambda>active.
     seqP (forP (drop_entry L E) active)
     (modP (\<lambda>s. s\<lparr>st_active := [], st_error := None\<rparr>)))"

section \<open>Switching\<close>

definition enable_anti_sigtrap :: "'w lldb \<Rightarrow> (('w, 'z) trap_dbg_scheme, bool \<times> string) py" where
  "enable_anti_sigtrap L = bindP (getP (\<lambda>s. obs_target L (world s))) (\<lambda>target.
     if \<not> target then retP (False, ''no target'')
     else seqP (modP (\<lambda>s. s\<lparr>st_on := True\<rparr>))
       (retP (True, ''self-trap forwarder armed: brk #0 routed to the target's SIGTRAP handler'')))"

definition disable_anti_sigtrap :: "(('w, 'z) trap_dbg_scheme, bool \<times> string) py" where
  "disable_anti_sigtrap = bindP (getP st_active) (\<lambda>active.
     if active \<noteq> [] then retP (False, ''finish the in-flight signal handler or restart before disabling forwarding'')
     else seqP (modP (\<lambda>s. s\<lparr>st_on := False\<rparr>)) (retP (True, ''self-trap forwarder disabled'')))"

section \<open>Saving and restoring\<close>

definition raw_register :: "'w trap_env \<Rightarrow> 'w \<Rightarrow> int \<Rightarrow> string \<Rightarrow> nat \<Rightarrow> bytes option" where
  "raw_register E w tid name n = (case te_register E w tid name of None \<Rightarrow> None | Some r \<Rightarrow> rd_raw r n)"

definition SAVED :: "string list" where
  "SAVED = map (\<lambda>i. ''x'' @ py_str (int i)) [0..<29] @ [''fp'', ''lr'', ''sp'', ''cpsr'', ''fpsr'', ''fpcr'']
     @ map (\<lambda>i. ''v'' @ py_str (int i)) [0..<32]"

definition save_register :: "'w trap_env \<Rightarrow> 'w \<Rightarrow> int \<Rightarrow> string \<Rightarrow> (string \<times> bytes) res" where
  "save_register E w tid name = (let e = RuntimeError (''cannot preserve self-trap register '' @ name) in
     case te_register E w tid name of None \<Rightarrow> Inl e
     | Some r \<Rightarrow> if rd_bytes r \<noteq> rd_size r then Inl e
         else (case rd_raw r (rd_bytes r) of None \<Rightarrow> Inl e | Some d \<Rightarrow> Inr (name, d)))"

definition vector_literal :: "bytes \<Rightarrow> string" where
  "vector_literal d = ''{'' @ join '' '' (map (\<lambda>b. ''0x'' @ [hex_digit (nat (byte_val b) div 16), hex_digit (nat (byte_val b) mod 16)]) d) @ ''}''"

definition write_register :: "'w lldb \<Rightarrow> 'w trap_env \<Rightarrow> int \<Rightarrow> string \<Rightarrow> bytes \<Rightarrow> 'w \<Rightarrow> bool \<times> 'w" where
  "write_register L E tid name data w =
     (if starts_with name ''v''
      then (case te_command E (''register write '' @ name @ '' '' @ [CHR 0x22] @ vector_literal data @ [CHR 0x22]) w of
        ((ok, out), w') \<Rightarrow> (ok, w'))
      else (case do_set_reg L tid name (py_hex (le_int data)) w of (err, w') \<Rightarrow> (err = None, w')))"

definition restore_register ::
    "'w lldb \<Rightarrow> 'w trap_env \<Rightarrow> int \<Rightarrow> string \<times> bytes \<Rightarrow> (('w, 'z) trap_dbg_scheme, unit) py" where
  "restore_register L E tid = (\<lambda>(name, data).
     bindP (onW (write_register L E tid name data)) (\<lambda>success.
     bindP (getP (\<lambda>s. raw_register E (world s) tid name (length data))) (\<lambda>observed.
     if \<not> success \<or> observed \<noteq> Some data
     then let m = ''cannot restore self-trap register '' @ name @ ''; restart required'' in
       seqP (modP (\<lambda>s. s\<lparr>st_error := Some m\<rparr>)) (raiseP (RuntimeError m))
     else retP ())))"

definition restore_registers :: "'w lldb \<Rightarrow> 'w trap_env \<Rightarrow> int \<Rightarrow> regs \<Rightarrow> (('w, 'z) trap_dbg_scheme, unit) py" where
  "restore_registers L E tid registers = forP (restore_register L E tid) registers"

text \<open>\<open>_action\<close>: the handler, mask and flags of \<open>SIGTRAP\<close> (signal 5), \<open>struct\<close> format \<open><QII\<close>.\<close>

definition query_action :: "'w lldb \<Rightarrow> 'w trap_env \<Rightarrow> int \<Rightarrow> (('w, 'z) trap_dbg_scheme, int \<times> int \<times> int) py" where
  "query_action L E address =
     bindP (onW (te_command E (''expression -l c++ --ignore-breakpoints true -- '' @
       ''((int(*)(int,void*,void*))sigaction)(5, (void*)0, (void*)'' @ py_hex address @ '')''))) (\<lambda>(ok, out).
     seqP (checkP (ok \<and> ends_with (py_strip out) ''= 0'') (RuntimeError ''cannot query the target SIGTRAP action''))
     (bindP (getP (\<lambda>s. read_memory L (world s) address 16)) (\<lambda>data.
     seqP (checkP (length data = 16) (RuntimeError ''short sigaction result''))
     (retP (le_int (take 8 data), le_int (take 4 (drop 8 data)), le_int (drop 12 data))))))"

definition trap_action :: "'w lldb \<Rightarrow> 'w trap_env \<Rightarrow> (('w, 'z) trap_dbg_scheme, int \<times> int \<times> int) py" where
  "trap_action L E = bindP (onW (te_alloc E 16)) (\<lambda>a. case a of
       None \<Rightarrow> raiseP (RuntimeError ''cannot allocate sigaction query buffer'')
     | Some address \<Rightarrow> finallyP (query_action L E address) (onW (te_free E address)))"

section \<open>Forwarding\<close>

definition BRK0 :: bytes where "BRK0 = map val_byte [0x00, 0x00, 0x20, 0xd4]"

definition own_trap :: "'w lldb \<Rightarrow> 'w trap_env \<Rightarrow> 'w \<Rightarrow> addr \<Rightarrow> bool" where
  "own_trap L E w pc = (let path = te_module E w pc in
     \<not> (starts_with path ''/System/Library/'' \<or> starts_with path ''/usr/lib/'') \<and> read_memory L w pc 4 = BRK0)"

text \<open>Only a handler without mask and without flags other than \<open>SA_RESTART\<close> (2) can be called plainly.\<close>

definition simple_action :: "int \<Rightarrow> int \<Rightarrow> bool" where
  "simple_action blocked flags = (blocked = 0 \<and> flags AND NOT 2 = 0)"

definition enter_register :: "'w lldb \<Rightarrow> int \<Rightarrow> string \<times> int \<Rightarrow> (('w, 'z) trap_dbg_scheme, unit) py" where
  "enter_register L tid = (\<lambda>(name, v). bindP (onW (do_set_reg L tid name (py_hex v))) (\<lambda>err.
     if err = None then retP ()
     else let m = ''could not enter self-trap handler; restart required'' in
       seqP (modP (\<lambda>s. s\<lparr>st_error := Some m\<rparr>)) (raiseP (RuntimeError m))))"

definition enter_handler ::
    "'w lldb \<Rightarrow> 'w trap_env \<Rightarrow> (('w, 'z) trap_dbg_scheme, unit) py \<Rightarrow> int \<Rightarrow> addr \<Rightarrow> regs \<Rightarrow> int \<Rightarrow>
     (('w, 'z) trap_dbg_scheme, string option) py" where
  "enter_handler L E cont tid pc registers handler =
     bindP (onW (te_alloc E 65536)) (\<lambda>a. case a of
       None \<Rightarrow> raiseP (RuntimeError ''cannot allocate self-trap handler stack'')
     | Some stack \<Rightarrow>
     bindP (cleanupP (create_hardware_at L (pc + 4)) (onW (te_free E stack))) (\<lambda>b.
     seqP (onW (do_bp_thread L (bp_id b) tid))
     (let top = (stack + 65536 - 16) AND NOT 15 in
     seqP (modP (\<lambda>s. s\<lparr>st_active := od_set tid
       \<lparr>tr_bp = bp_id b, tr_pc = pc + 4, tr_stack = stack, tr_top = top, tr_registers = registers\<rparr> (st_active s)\<rparr>))
     (seqP (forP (enter_register L tid) [(''sp'', top), (''x0'', 5), (''lr'', pc + 4), (''pc'', handler)])
     (seqP cont
     (retP (Some (''self-trap: entered target SIGTRAP handler '' @ py_hex handler @ ''; context saved''))))))))"

definition LLDB_INVALID_ADDRESS :: addr where "LLDB_INVALID_ADDRESS = 2 ^ 64 - 1"

definition forward_saved ::
    "'w lldb \<Rightarrow> 'w trap_env \<Rightarrow> (('w, 'z) trap_dbg_scheme, unit) py \<Rightarrow> int \<Rightarrow> addr \<Rightarrow> regs \<Rightarrow>
     (('w, 'z) trap_dbg_scheme, string option) py" where
  "forward_saved L E cont tid pc registers =
     bindP (finallyP (trap_action L E) (restore_registers L E tid registers)) (\<lambda>(handler, blocked, flags).
     if handler = 0 \<or> handler = 1 then retP None
     else seqP (checkP (simple_action blocked flags) (RuntimeError (''self-trap requires a simple handler without siginfo, signal masks, '' @
       ''alternate stacks or reset/reentrant flags; target remains stopped'')))
     (enter_handler L E cont tid pc registers handler))"

definition trap_pc :: "thread \<Rightarrow> addr" where
  "trap_pc t = (case th_pc t of None \<Rightarrow> LLDB_INVALID_ADDRESS | Some a \<Rightarrow> a)"

definition forward ::
    "'w lldb \<Rightarrow> 'w trap_env \<Rightarrow> (('w, 'z) trap_dbg_scheme, unit) py \<Rightarrow> thread \<Rightarrow> (('w, 'z) trap_dbg_scheme, string option) py" where
  "forward L E cont t =
     bindP (getP (\<lambda>s. (st_on s, world s, st_active s))) (\<lambda>(on, w, active).
     if \<not> on \<or> th_reason t \<noteq> SrException \<or> \<not> own_trap L E w (trap_pc t) then retP None
     else seqP (checkP (active = [])
         (RuntimeError ''nested/concurrent self-trap forwarding is unsupported; target remains stopped''))
       (bindP (liftP (mapR (save_register E w (th_id t)) SAVED)) (forward_saved L E cont (th_id t) (trap_pc t))))"

section \<open>Completion\<close>

text \<open>Every other datum of a breakpoint stop is a breakpoint's identifier.\<close>

fun even_data :: "int list \<Rightarrow> int list" where
  "even_data [] = []"
| "even_data [i] = [i]"
| "even_data (i # _ # rest) = i # even_data rest"

definition live_sp :: "thread \<Rightarrow> int" where
  "live_sp t = (case th_frame t of None \<Rightarrow> 0 | Some f \<Rightarrow> reg_unsigned f ''sp'')"

definition complete :: "'w lldb \<Rightarrow> 'w trap_env \<Rightarrow> (('w, 'z) trap_dbg_scheme, bool) py" where
  "complete L E =
     bindP (getP (\<lambda>s. (obs_process L (world s), st_active s))) (\<lambda>(p, active).
     case p of None \<Rightarrow> raiseP (PyError ''AttributeError'' ''GetSelectedThread'')
     | Some p \<Rightarrow> (case selected_thread p of None \<Rightarrow> retP False
     | Some t \<Rightarrow> (case map_of active (th_id t) of None \<Rightarrow> retP False
     | Some e \<Rightarrow>
       let ids = set (even_data (th_data t)) in
       if th_reason t \<noteq> SrBreakpoint then retP False
       else if tr_bp e \<notin> ids \<or> th_pc t \<noteq> Some (tr_pc e) then retP False
       else if live_sp t \<noteq> tr_top e
       then raiseP (RuntimeError ''self-trap handler did not restore its stack; target remains stopped'')
       else seqP (restore_registers L E (th_id t) (tr_registers e))
         (bindP (delete_breakpoint L (tr_bp e)) (\<lambda>_.
         seqP (onW (te_free E (tr_stack e)))
         (seqP (modP (\<lambda>s. s\<lparr>st_active := od_pop (th_id t) (st_active s)\<rparr>))
         (retP (ids = {tr_bp e}))))))))"

section \<open>What is restored\<close>

text \<open>
  A register is not changed by writing another, and no register by deleting a breakpoint or
  freeing memory.
\<close>

definition reg_law :: "'w lldb \<Rightarrow> 'w trap_env \<Rightarrow> bool" where
  "reg_law L E = (\<forall>tid r n w.
     (\<forall>name \<in> set SAVED. \<forall>data. r \<noteq> name \<and> r \<in> set SAVED \<longrightarrow>
        raw_register E (snd (write_register L E tid name data w)) tid r n = raw_register E w tid r n) \<and>
     (\<forall>i. raw_register E (snd (do_bp_delete L i w)) tid r n = raw_register E w tid r n) \<and>
     (\<forall>a. raw_register E (snd (te_free E a w)) tid r n = raw_register E w tid r n))"

lemma reg_lawD:
  assumes "reg_law L E"
  shows "name \<in> set SAVED \<Longrightarrow> r \<in> set SAVED \<Longrightarrow> r \<noteq> name \<Longrightarrow>
      raw_register E (snd (write_register L E tid name data w)) tid r n = raw_register E w tid r n"
    "raw_register E (snd (do_bp_delete L i w)) tid r n = raw_register E w tid r n"
    "raw_register E (snd (te_free E a w)) tid r n = raw_register E w tid r n"
  using assms unfolding reg_law_def by blast+

definition verified :: "'w trap_env \<Rightarrow> 'w \<Rightarrow> int \<Rightarrow> regs \<Rightarrow> bool" where
  "verified E w tid rs = list_all (\<lambda>(name, data). raw_register E w tid name (length data) = Some data) rs"

text \<open>Only the target changes, unless a register could not be restored: then the error is kept.\<close>

definition same_traps :: "('w, 'z) trap_dbg_scheme \<Rightarrow> ('w, 'z) trap_dbg_scheme \<Rightarrow> bool" where
  "same_traps s t = (\<exists>w. t = s\<lparr>world := w\<rparr>)"

definition trap_failed :: "('w, 'z) trap_dbg_scheme \<Rightarrow> ('w, 'z) trap_dbg_scheme \<Rightarrow> bool" where
  "trap_failed s t = (\<exists>w m. t = s\<lparr>world := w, st_error := Some m\<rparr>)"

lemma wp_restore_registers:
  assumes law: "reg_law L E" and names: "distinct (map fst rs)" "fst ` set rs \<subseteq> set SAVED"
  shows "wpP (restore_registers L E tid rs)
     (\<lambda>_ t. verified E (world t) tid rs \<and> same_traps s t) (\<lambda>_ t. trap_failed s t) s"
proof -
  have "wpP (forP (restore_register L E tid) rs)
      (\<lambda>_ t. verified E (world t) tid (dn @ rs) \<and> same_traps s t) (\<lambda>_ t. trap_failed s t) u"
    if "verified E (world u) tid dn" "same_traps s u" "distinct (map fst (dn @ rs))" "fst ` set (dn @ rs) \<subseteq> set SAVED"
    for dn u
    using that
  proof (induction rs arbitrary: dn u)
    case (Cons x rs)
    obtain name data where x: "x = (name, data)" by (cases x)
    let ?w = "snd (write_register L E tid name data (world u))"
    have kept: "verified E ?w tid dn"
      unfolding verified_def list_all_iff
    proof (clarify)
      fix r d
      assume m: "(r, d) \<in> set dn"
      then have "r \<noteq> name" "r \<in> set SAVED" "name \<in> set SAVED" using Cons.prems(3,4) x by (auto simp: image_iff)
      then show "raw_register E ?w tid r (length d) = Some d"
        using reg_lawD(1)[OF law] m Cons.prems(1) by (auto simp: verified_def list_all_iff)
    qed
    have st: "same_traps s (u\<lparr>world := ?w\<rparr>)" "\<And>m. trap_failed s (u\<lparr>world := ?w, st_error := Some m\<rparr>)"
    proof -
      obtain w where "u = s\<lparr>world := w\<rparr>" using Cons.prems(2) by (auto simp: same_traps_def)
      then have u: "u\<lparr>world := ?w\<rparr> = s\<lparr>world := ?w\<rparr>"
        "\<And>m. u\<lparr>world := ?w, st_error := Some m\<rparr> = s\<lparr>world := ?w, st_error := Some m\<rparr>" by simp_all
      show "same_traps s (u\<lparr>world := ?w\<rparr>)" unfolding same_traps_def u by (rule exI) (rule refl)
      show "trap_failed s (u\<lparr>world := ?w, st_error := Some m\<rparr>)" for m
        unfolding trap_failed_def u by (intro exI) (rule refl)
    qed
    have "wpP (restore_register L E tid x) (\<lambda>_ t. verified E (world t) tid (dn @ [x]) \<and> same_traps s t)
        (\<lambda>_ t. trap_failed s t) u"
      using kept st by (simp add: restore_register_def x wp Let_def verified_def)
    then have "wpP (restore_register L E tid x)
        (\<lambda>_. wpP (forP (restore_register L E tid) rs) (\<lambda>_ t. verified E (world t) tid (dn @ x # rs) \<and> same_traps s t)
          (\<lambda>_ t. trap_failed s t)) (\<lambda>_ t. trap_failed s t) u"
      by (rule wpP_weaken) (use Cons.IH[where dn = "dn @ [x]"] Cons.prems(3,4) in simp_all)
    then show ?case by (simp add: wp)
  qed (simp add: wp)
  from this[where dn = "[]" and u = s] names show ?thesis
    by (simp add: restore_registers_def verified_def same_traps_def) (metis (no_types, lifting) dbg.surjective dbg.update_convs(1))
qed

text \<open>
  At most one handler is in flight; its entry holds every saved register once, and its stack
  pointer is aligned and inside the stack allocated for it.
\<close>

definition entry_ok :: "trap_entry \<Rightarrow> bool" where
  "entry_ok e = (map fst (tr_registers e) = SAVED \<and> tr_top e mod 16 = 0 \<and>
     tr_stack e \<le> tr_top e \<and> tr_top e < tr_stack e + 65536)"

definition trap_inv :: "('w, 'z) trap_dbg_scheme \<Rightarrow> bool" where
  "trap_inv s = (length (st_active s) \<le> 1 \<and> list_all (\<lambda>(_, e). entry_ok e) (st_active s))"

lemma trap_frame: "dbg_frame trap_inv"
  by (simp add: dbg_frame_def trap_inv_def)

lemma SAVED_distinct: "distinct SAVED"
  by code_simp

lemma top_aligned:
  fixes a :: int
  shows "((a + 65536 - 16) AND NOT 15) mod 16 = 0"
    "a \<le> (a + 65536 - 16) AND NOT 15" "(a + 65536 - 16) AND NOT 15 < a + 65536"
proof -
  have e: "(x AND NOT 15) = x - x mod 16" for x :: int
  proof -
    have "NOT x AND take_bit 4 x = 0" by (rule bit_eqI) (simp add: bit_simps)
    then have "x - take_bit 4 x = x AND NOT (take_bit 4 x)" by (rule disjunctive_diff_eq_and_not)
    also have "\<dots> = x AND NOT (mask 4)" by (rule bit_eqI) (auto simp: bit_simps)
    finally show ?thesis by (simp add: take_bit_eq_mod mask_eq_exp_minus_1)
  qed
  have "0 \<le> (a + 65520) mod 16" "(a + 65520) mod 16 < 16" by simp_all
  then show "((a + 65536 - 16) AND NOT 15) mod 16 = 0"
    "a \<le> (a + 65536 - 16) AND NOT 15" "(a + 65536 - 16) AND NOT 15 < a + 65536"
    unfolding e by (simp_all add: mod_diff_left_eq[symmetric] minus_mod_eq_mult_div)
qed

lemma saved_names: "mapR (save_register E w tid) names = Inr rs \<Longrightarrow> map fst rs = names"
proof (induction names arbitrary: rs)
  case (Cons n names)
  then show ?case
    by (auto simp: bindR_def save_register_def Let_def split: sum.splits option.splits if_splits)
qed simp

definition idle_traps :: "('w, 'z) trap_dbg_scheme \<Rightarrow> bool" where
  "idle_traps s = (st_active s = [])"

lemma idle_frame: "dbg_frame idle_traps"
  by (simp add: dbg_frame_def idle_traps_def)

lemma idle_inv: "idle_traps s \<Longrightarrow> trap_inv s"
  by (simp add: idle_traps_def trap_inv_def)

lemma keeps_trap_error [keeps]:
  "keepsP trap_inv (modP (\<lambda>s. s\<lparr>st_error := e\<rparr>))" "keepsP idle_traps (modP (\<lambda>s. s\<lparr>st_error := e\<rparr>))"
  by (intro keepsP_mod; simp add: trap_inv_def idle_traps_def)+

lemma keeps_restore [keeps]:
  "keepsP trap_inv (restore_registers L E tid rs)" "keepsP idle_traps (restore_registers L E tid rs)"
  unfolding restore_registers_def restore_register_def Let_def
  by (auto intro!: keeps simp: trap_frame idle_frame split: prod.splits)

lemma keeps_action [keeps]:
  "keepsP trap_inv (trap_action L E)" "keepsP idle_traps (trap_action L E)"
  unfolding trap_action_def query_action_def
  by (auto intro!: keeps simp: trap_frame idle_frame split: prod.splits option.splits)

lemma keeps_enter_register: "keepsP trap_inv (enter_register L tid x)"
  unfolding enter_register_def Let_def by (auto intro!: keeps simp: trap_frame split: prod.splits)

lemma entering_inv:
  assumes "idle_traps s" "map fst rs = SAVED"
  shows "trap_inv (s\<lparr>st_active := od_set tid \<lparr>tr_bp = i, tr_pc = pc, tr_stack = stack,
     tr_top = (stack + 65536 - 16) AND NOT 15, tr_registers = rs\<rparr> (st_active s)\<rparr>)"
  using assms top_aligned[of stack] by (simp add: trap_inv_def idle_traps_def entry_ok_def od_set_def)

lemma wp_enter_handler:
  assumes c: "keepsP trap_inv cont" and s: "idle_traps s" and rs: "map fst rs = SAVED"
  shows "wpP (enter_handler L E cont tid pc rs h) (\<lambda>r t. r \<noteq> None \<and> trap_inv t) (\<lambda>_. trap_inv) s"
  unfolding enter_handler_def
proof (rule wpP_keeps_bind[of idle_traps], goal_cases)
  case (3 a t)
  note idle = this
  show ?case
  proof (cases a)
    case None
    then show ?thesis using idle by (simp add: wp idle_inv)
  next
    case (Some stack)
    have k: "keepsP trap_inv (forP (enter_register L tid) xs)" for xs
      by (intro keeps keeps_enter_register)
    show ?thesis
      unfolding Some option.case
    proof (rule wpP_keeps_bind[of idle_traps], goal_cases)
      case (3 b u)
      show ?case
      proof (rule wpP_keeps_seq[of idle_traps], goal_cases)
        case (3 v)
        show ?case
          unfolding Let_def
          using keepsP_use[OF keepsP_seq[OF k c] entering_inv[OF 3 rs]] by (simp add: wp del: forP.simps)
      qed (use 3 in \<open>auto intro!: keeps simp: idle_frame idle_inv\<close>)
    qed (use idle in \<open>auto intro!: keeps simp: idle_frame idle_inv\<close>)
  qed
qed (use s in \<open>auto intro!: keeps simp: idle_frame idle_inv\<close>)


lemma keeps_enter_none: "yieldsP (\<lambda>_. True) (\<lambda>r. r \<noteq> None) (enter_handler L E cont tid pc rs h)"
  unfolding enter_handler_def Let_def
  by (intro yields keeps) (simp_all add: keepsP_def yields dbg_frame_def)

lemma same_traps_simps [simp]: "same_traps s (s\<lparr>world := w\<rparr>)" "same_traps s s"
  by (auto simp: same_traps_def intro: exI[of _ "world s"])

lemma trap_failed_simp [simp]: "trap_failed s (s\<lparr>world := w, st_error := Some m\<rparr>)"
  unfolding trap_failed_def by (intro exI) (rule refl)

lemma same_traps_trans: "same_traps s t \<Longrightarrow> same_traps t u \<Longrightarrow> same_traps s u"
  "same_traps s t \<Longrightarrow> trap_failed t u \<Longrightarrow> trap_failed s u"
  by (auto simp: same_traps_def trap_failed_def[of t])

lemma wp_trap_action:
  "wpP (trap_action L E) (\<lambda>_. same_traps s) (\<lambda>_. same_traps s) s"
  by (simp add: trap_action_def query_action_def finallyP_def wp split: option.splits prod.splits)

text \<open>The question to the target: answered or failed, the registers are back, or the failure is kept.\<close>

lemma wp_query:
  assumes "reg_law L E" "map fst rs = SAVED"
  shows "wpP (finallyP (trap_action L E) (restore_registers L E tid rs))
     (\<lambda>_ t. verified E (world t) tid rs \<and> same_traps s t)
     (\<lambda>_ t. verified E (world t) tid rs \<and> same_traps s t \<or> trap_failed s t) s"
proof -
  have r: "wpP (restore_registers L E tid rs) (\<lambda>_ t. verified E (world t) tid rs \<and> same_traps s t)
      (\<lambda>_ t. trap_failed s t) u" if "same_traps s u" for u
    by (rule wpP_weaken[OF wp_restore_registers[OF assms(1)]])
      (use assms(2) SAVED_distinct that in \<open>auto intro: same_traps_trans simp flip: set_map\<close>)
  have r1: "wpP (restore_registers L E tid rs) (\<lambda>_ t. verified E (world t) tid rs \<and> same_traps s t)
      (\<lambda>_ t. verified E (world t) tid rs \<and> same_traps s t \<or> trap_failed s t) u" if "same_traps s u" for u
    by (rule wpP_weaken[OF r[OF that]]) auto
  have r2: "wpP (restore_registers L E tid rs) (\<lambda>_ t. verified E (world t) tid rs \<and> same_traps s t \<or> trap_failed s t)
      (\<lambda>_ t. verified E (world t) tid rs \<and> same_traps s t \<or> trap_failed s t) u" if "same_traps s u" for u
    by (rule wpP_weaken[OF r[OF that]]) auto
  show ?thesis
    unfolding finallyP_def wp by (rule wpP_weaken[OF wp_trap_action]) (simp_all add: r1 r2)
qed

lemma forward_run:
  "forward L E cont t s =
    (if \<not> st_on s \<or> th_reason t \<noteq> SrException \<or> \<not> own_trap L E (world s) (trap_pc t) then (Inr None, s)
     else if st_active s \<noteq> [] then
       (Inl (RuntimeError ''nested/concurrent self-trap forwarding is unsupported; target remains stopped''), s)
     else case mapR (save_register E (world s) (th_id t)) SAVED of Inl e \<Rightarrow> (Inl e, s)
       | Inr rs \<Rightarrow> forward_saved L E cont (th_id t) (trap_pc t) rs s)"
  by (simp add: forward_def run split: sum.splits)

lemma keeps_forward_saved:
  assumes "keepsP trap_inv cont" "idle_traps s" "map fst rs = SAVED"
  shows "wpP (forward_saved L E cont tid pc rs) (\<lambda>_. trap_inv) (\<lambda>_. trap_inv) s"
  unfolding forward_saved_def
proof (rule wpP_keeps_bind[of idle_traps], goal_cases)
  case (3 x t)
  have "wpP (enter_handler L E cont tid pc rs h) (\<lambda>_. trap_inv) (\<lambda>_. trap_inv) t" for h
    by (rule wpP_weaken[OF wp_enter_handler[OF assms(1) 3 assms(3)]]) simp_all
  then show ?case using 3 by (simp add: wp idle_inv split: prod.split)
qed (use assms(2) in \<open>auto intro!: keeps simp: idle_inv\<close>)

lemma keeps_forward:
  assumes "keepsP trap_inv cont"
  shows "keepsP trap_inv (forward L E cont t)"
  unfolding keepsP_wp
proof (intro allI impI)
  fix s :: "('a, 'b) trap_dbg_scheme" assume "trap_inv s"
  then show "wpP (forward L E cont t) (\<lambda>_. trap_inv) (\<lambda>_. trap_inv) s"
    using keeps_forward_saved[OF assms, of s]
    by (auto simp: wpP_def forward_run saved_names idle_traps_def split: sum.split)
qed

text \<open>A trap that is not forwarded leaves the thread as it was: every saved register is back.\<close>

definition as_saved :: "'w trap_env \<Rightarrow> int \<Rightarrow> ('w, 'z) trap_dbg_scheme \<Rightarrow> ('w, 'z) trap_dbg_scheme \<Rightarrow> bool" where
  "as_saved E tid s t = (\<exists>rs. mapR (save_register E (world s) tid) SAVED = Inr rs \<and>
     verified E (world t) tid rs \<and> same_traps s t)"

lemma forward_declined:
  assumes "reg_law L E" "forward L E cont th s = (Inr None, t)"
  shows "t = s \<or> as_saved E (th_id th) s t"
proof (cases "st_on s \<and> th_reason th = SrException \<and> own_trap L E (world s) (trap_pc th)")
  case True
  then obtain rs where rs: "mapR (save_register E (world s) (th_id th)) SAVED = Inr rs"
      "forward_saved L E cont (th_id th) (trap_pc th) rs s = (Inr None, t)"
    using assms(2) by (auto simp: forward_run split: if_splits sum.splits)
  have "wpP (enter_handler L E cont (th_id th) (trap_pc th) rs h) (\<lambda>r u. r = None \<longrightarrow> P u) (\<lambda>_ _. True) u" for h u P
    using keeps_enter_none[of L E cont "th_id th" "trap_pc th" rs h]
    by (auto simp: yieldsP_def elim!: wpP_weaken allE[of _ u])
  then have "wpP (forward_saved L E cont (th_id th) (trap_pc th) rs)
      (\<lambda>r u. r = None \<longrightarrow> verified E (world u) (th_id th) rs \<and> same_traps s u) (\<lambda>_ _. True) s"
    unfolding forward_saved_def wpP_bind(1)
    by (intro wpP_weaken[OF wp_query[OF assms(1) saved_names[OF rs(1)]]]) (auto simp: wp split: prod.split)
  from wpP_D[OF this rs(2)] rs(1) show ?thesis by (simp add: as_saved_def)
next
  case False
  with assms(2) show ?thesis by (auto simp: forward_run)
qed

lemma keeps_complete: "keepsP trap_inv (complete L E)"
proof -
  have "keepsP trap_inv (modP (\<lambda>s. s\<lparr>st_active := od_pop i (st_active s)\<rparr>))" for i
    by (rule keepsP_mod) (auto simp: trap_inv_def od_pop_def list_all_iff intro: le_trans[OF length_filter_le])
  then show ?thesis
    unfolding complete_def Let_def by (auto intro!: keeps simp: trap_frame split: prod.splits option.splits)
qed

lemma keeps_trap_reset: "keepsP trap_inv (trap_reset L E)"
proof -
  have "keepsP trap_inv (modP (\<lambda>s. s\<lparr>st_active := [], st_error := None\<rparr>))"
    by (rule keepsP_mod) (simp add: trap_inv_def)
  then show ?thesis
    unfolding trap_reset_def drop_entry_def by (auto intro!: keeps simp: trap_frame split: prod.splits)
qed

lemma single_entry:
  assumes "length d \<le> 1" "map_of d k = Some v"
  shows "d = [(k, v)]"
  using assms by (cases d) (auto split: if_splits)

definition completed :: "'w trap_env \<Rightarrow> ('w, 'z) trap_dbg_scheme \<Rightarrow> ('w, 'z) trap_dbg_scheme \<Rightarrow> bool" where
  "completed E s t = list_ex (\<lambda>(tid, e). map fst (tr_registers e) = SAVED \<and>
     verified E (world t) tid (tr_registers e) \<and> tr_bp e \<notin> hardware_ids t \<and> st_active t = []) (st_active s)"

lemma verified_law:
  assumes "reg_law L E" "verified E w tid rs"
  shows "verified E (snd (do_bp_delete L i w)) tid rs" "verified E (snd (te_free E a w)) tid rs"
  using assms(2) unfolding verified_def by (simp_all add: reg_lawD(2,3)[OF assms(1)])

lemma complete_outcome:
  assumes law: "reg_law L E" "bp_delete_law L" and inv: "trap_inv s"
  shows "wpP (complete L E) (\<lambda>_ t. t = s \<or> completed E s t) (\<lambda>_ t. t = s \<or> trap_failed s t) s"
proof (cases "\<exists>p th e. obs_process L (world s) = Some p \<and> selected_thread p = Some th \<and> map_of (st_active s) (th_id th) = Some e
    \<and> th_reason th = SrBreakpoint \<and> tr_bp e \<in> set (even_data (th_data th)) \<and> th_pc th = Some (tr_pc e) \<and> live_sp th = tr_top e")
  case False
  then show ?thesis by (auto simp: complete_def wp Let_def split: option.splits)
next
  case True
  then obtain p th e where o: "obs_process L (world s) = Some p" "selected_thread p = Some th"
      "map_of (st_active s) (th_id th) = Some e" "th_reason th = SrBreakpoint" "tr_bp e \<in> set (even_data (th_data th))"
      "th_pc th = Some (tr_pc e)" "live_sp th = tr_top e"
    by blast
  have act: "st_active s = [(th_id th, e)]" using single_entry[OF _ o(3)] inv by (simp add: trap_inv_def)
  have names: "map fst (tr_registers e) = SAVED" using inv act by (simp add: trap_inv_def entry_ok_def)
  have gone: "find_bp L (snd (do_bp_delete L i v)) i = None" for i v
    using bp_delete_lawD(1)[OF law(2), of i v] by (auto simp: find_bp_def find_None_iff)
  have r: "wpP (restore_registers L E (th_id th) (tr_registers e))
      (\<lambda>_ t. verified E (world t) (th_id th) (tr_registers e) \<and> same_traps s t) (\<lambda>_ t. trap_failed s t) s"
    by (rule wp_restore_registers[OF law(1)]) (use names SAVED_distinct in \<open>simp_all flip: set_map\<close>)
  have final: "completed E s (t\<lparr>hardware_ids := hardware_ids t - {tr_bp e},
       world := snd (te_free E a (snd (do_bp_delete L (tr_bp e) (world t)))), st_active := od_pop (th_id th) (st_active t)\<rparr>)"
    if "verified E (world t) (th_id th) (tr_registers e) \<and> same_traps s t" for t a
    using that act names verified_law[OF law(1)] by (auto simp: completed_def od_pop_def same_traps_def)
  show ?thesis
    using o by (auto simp: complete_def wp Let_def split_beta gone final intro!: wpP_weaken[OF r])
qed

section \<open>A target whose registers are bytes\<close>

type_synonym trap_world = "demo_world \<times> regs"

definition on_demo :: "(demo_world \<Rightarrow> 'a \<times> demo_world) \<Rightarrow> trap_world \<Rightarrow> 'a \<times> trap_world" where
  "on_demo f = (\<lambda>(w, g). case f w of (x, w') \<Rightarrow> (x, (w', g)))"

definition trap_lldb :: "trap_world lldb" where
  "trap_lldb = \<lparr>obs_process = obs_process demo_lldb \<circ> fst, obs_target = (\<lambda>_. True), obs_triple = (\<lambda>_. ''arm64-apple-macosx''),
     obs_breakpoints = obs_breakpoints demo_lldb \<circ> fst, obs_read = obs_read demo_lldb \<circ> fst, obs_slots = Some ''6'',
     do_command = (\<lambda>c. on_demo (do_command demo_lldb c)), do_bp_delete = (\<lambda>i. on_demo (do_bp_delete demo_lldb i)),
     do_bp_thread = (\<lambda>i t. on_demo (do_bp_thread demo_lldb i t)), do_write = (\<lambda>a b. on_demo (do_write demo_lldb a b)),
     do_set_pc = (\<lambda>t a. on_demo (do_set_pc demo_lldb t a)),
     do_set_reg = (\<lambda>t r v (w, g). (None, (w, case py_int 16 v of None \<Rightarrow> g | Some n \<Rightarrow> od_set r (int_le 8 n) g)))\<rparr>"

text \<open>Its vectors cannot be written, which only shows when they have changed.\<close>

definition demo_trap :: "trap_world trap_env" where
  "demo_trap = \<lparr>te_alloc = (\<lambda>n w. (Some 0x50000, w)), te_free = (\<lambda>a w. ((), w)),
     te_command = (\<lambda>c w. ((True, ''$0 = 0''), w)),
     te_register = (\<lambda>(w, g) t r. case map_of g r of None \<Rightarrow> None
       | Some d \<Rightarrow> Some \<lparr>rd_size = length d, rd_bytes = length d, rd_raw = (\<lambda>n. if n = length d then Some d else None)\<rparr>),
     te_module = (\<lambda>w a. ''/tmp/sample'')\<rparr>"

definition demo_registers :: "int \<Rightarrow> regs" where
  "demo_registers x0 = map (\<lambda>r. (r, int_le 8 (if r = ''x0'' then x0 else 0))) SAVED"

definition demo_thread :: thread where
  "demo_thread = \<lparr>th_id = 7, th_reason = SrBreakpoint, th_data = [1, 1], th_description = [],
     th_frames = [\<lparr>fr_pc = 0x1004, fr_regs = [(''sp'', 0x5fff0)]\<rparr>]\<rparr>"

definition demo_returned :: "trap_world trap_dbg" where
  "demo_returned = \<lparr>world = (demo_world\<lparr>dw_bps := [demo_bp 1 0x1004], dw_process := Some \<lparr>pr_pid = 1, pr_uid = 1, pr_stop = 2,
       pr_stopped = True, pr_threads = [demo_thread], pr_selected = 7\<rparr>\<rparr>, demo_registers 5),
     hardware_ids = {1}, events = [], step_active = False, step_plan_active = False, step_target_depth = None,
     cloak_enabled = False, suppress_retry = False, retired_return = None, hw_continue = None, retired_candidate = None,
     recovery = None, recovery_failed = None, traced_stop = None, st_on = True,
     st_active = [(7, \<lparr>tr_bp = 1, tr_pc = 0x1004, tr_stack = 0x50000, tr_top = 0x5fff0, tr_registers = demo_registers 0\<rparr>)],
     st_error = None\<rparr>"

lemma demo_reg_law: "reg_law trap_lldb demo_trap"
  unfolding reg_law_def
  by (auto simp: raw_register_def write_register_def trap_lldb_def demo_trap_def on_demo_def dict_simps
      split: prod.splits option.splits)

lemma demo_trap_delete: "bp_delete_law trap_lldb"
  unfolding bp_delete_law_def bp_ids_def by (auto simp: trap_lldb_def on_demo_def demo_lldb_def)

lemma demo_trap_inv: "trap_inv demo_returned"
  by code_simp

lemma demo_completes: "fst (complete trap_lldb demo_trap demo_returned) = Inr True"
  by code_simp



end
