(* ===== verification/Pauses.thy ===== *)
theory Pauses
  imports Prelude
begin

text \<open>
  \<open>PauseAccounting\<close> of \<open>macdbg/core/auto_clock.py\<close>: the time the target spent stopped, so that its
  clocks can be set back by it. Times are what the host's monotonic clock answers, an argument of
  each operation. The reference is the target's own clock: the sum of the times it ran.
\<close>

section \<open>The accounting\<close>

text \<open>A stop is known by the process and its stop id.\<close>

type_synonym stop_key = "int \<times> int"

record pauses =
  pa_paused :: int
  pa_stopped :: "int option"
  pa_key :: "stop_key option"
  pa_resumed :: int

definition pause_reset :: pauses where
  "pause_reset = \<lparr>pa_paused = 0, pa_stopped = None, pa_key = None, pa_resumed = 0\<rparr>"

text \<open>The stamp is the time the stop was observed, or now.\<close>

definition pause_stop :: "stop_key \<Rightarrow> int \<Rightarrow> pauses \<Rightarrow> pauses" where
  "pause_stop key stamp p = (if Some key = pa_key p then p
     else p\<lparr>pa_key := Some key, pa_stopped := Some (max stamp (pa_resumed p))\<rparr>)"

definition pause_total :: "int \<Rightarrow> pauses \<Rightarrow> int" where
  "pause_total now p = pa_paused p + (case pa_stopped p of None \<Rightarrow> 0 | Some t \<Rightarrow> max 0 (now - t))"

text \<open>Resuming returns what a failed resume needs to roll back.\<close>

definition pause_resume :: "int \<Rightarrow> pauses \<Rightarrow> pauses \<times> pauses" where
  "pause_resume stamp p = (p, p\<lparr>pa_paused := pa_paused p + (case pa_stopped p of None \<Rightarrow> 0 | Some t \<Rightarrow> max 0 (stamp - t)),
     pa_stopped := None, pa_resumed := stamp\<rparr>)"

definition pause_rollback :: "pauses \<Rightarrow> pauses \<Rightarrow> pauses" where
  "pause_rollback token p = token"

section \<open>The target's own clock\<close>

text \<open>
  The history of a process: it is seen stopped, it is resumed, and a resume that failed is rolled
  back. The reference keeps the time it ran and since when it is in its present state.
\<close>

datatype pause_event = Seen stop_key int | Resume int | Rollback

record own_clock =
  oc_ran :: int
  oc_stopped :: bool
  oc_since :: int
  oc_key :: "stop_key option"

text \<open>
  Resuming a stopped process starts a run; a stop ends it and adds its length. Seeing a known stop
  again changes nothing; a new stop without a resume between, which LLDB's internal resumes cause,
  counts the time between the two stops as run.
\<close>

definition own_seen :: "stop_key \<Rightarrow> int \<Rightarrow> own_clock \<Rightarrow> own_clock" where
  "own_seen k t c = (if Some k = oc_key c then c
     else c\<lparr>oc_ran := oc_ran c + (t - oc_since c), oc_stopped := True, oc_since := t, oc_key := Some k\<rparr>)"

definition own_resume :: "int \<Rightarrow> own_clock \<Rightarrow> own_clock" where
  "own_resume t c = (if oc_stopped c then c\<lparr>oc_stopped := False, oc_since := t\<rparr>
     else c\<lparr>oc_ran := oc_ran c + (t - oc_since c), oc_since := t\<rparr>)"

fun acc_step :: "pause_event \<Rightarrow> pauses \<times> pauses \<Rightarrow> pauses \<times> pauses" where
  "acc_step (Seen k t) (p, token) = (pause_stop k t p, token)"
| "acc_step (Resume t) (p, token) = (case pause_resume t p of (token', p') \<Rightarrow> (p', token'))"
| "acc_step Rollback (p, token) = (pause_rollback token p, token)"

fun own_step :: "pause_event \<Rightarrow> own_clock \<times> own_clock \<Rightarrow> own_clock \<times> own_clock" where
  "own_step (Seen k t) (c, saved) = (own_seen k t c, saved)"
| "own_step (Resume t) (c, saved) = (own_resume t c, c)"
| "own_step Rollback (c, saved) = (saved, saved)"

text \<open>Times do not run backwards along a history, and nothing was observed before its resume.\<close>

fun event_time :: "pause_event \<Rightarrow> int option" where
  "event_time (Seen k t) = Some t"
| "event_time (Resume t) = Some t"
| "event_time Rollback = None"

fun in_order :: "int \<Rightarrow> pause_event list \<Rightarrow> bool" where
  "in_order b [] = True"
| "in_order b (e # es) = (case event_time e of None \<Rightarrow> in_order b es | Some t \<Rightarrow> b \<le> t \<and> in_order t es)"

fun last_time :: "int \<Rightarrow> pause_event list \<Rightarrow> int" where
  "last_time b [] = b"
| "last_time b (e # es) = last_time (case event_time e of None \<Rightarrow> b | Some t \<Rightarrow> t) es"

definition acc_run :: "pause_event list \<Rightarrow> pauses \<times> pauses" where
  "acc_run es = fold acc_step es (pause_reset, pause_reset)"

definition own_start :: own_clock where
  "own_start = \<lparr>oc_ran = 0, oc_stopped = False, oc_since = 0, oc_key = None\<rparr>"

definition own_run :: "pause_event list \<Rightarrow> own_clock \<times> own_clock" where
  "own_run es = fold own_step es (own_start, own_start)"

text \<open>What the target's clock shows: it stands still while the target is stopped.\<close>

definition own_now :: "int \<Rightarrow> own_clock \<Rightarrow> int" where
  "own_now now c = (if oc_stopped c then oc_ran c else oc_ran c + (now - oc_since c))"

section \<open>The accounting implements the target's clock\<close>

definition tracks :: "int \<Rightarrow> pauses \<Rightarrow> own_clock \<Rightarrow> bool" where
  "tracks b p c = (pa_key p = oc_key c \<and> pa_resumed p \<le> oc_since c \<and> oc_since c \<le> b \<and>
     oc_ran c = oc_since c - pa_paused p \<and>
     (if oc_stopped c then pa_stopped p = Some (oc_since c) else pa_stopped p = None \<and> pa_resumed p = oc_since c))"

lemma tracks_start: "tracks 0 pause_reset own_start"
  by (simp add: tracks_def pause_reset_def own_start_def)

lemma tracks_later: "tracks b p c \<Longrightarrow> b \<le> b' \<Longrightarrow> tracks b' p c"
  by (auto simp: tracks_def)

lemma tracks_seen: "tracks b p c \<Longrightarrow> b \<le> t \<Longrightarrow> tracks t (pause_stop k t p) (own_seen k t c)"
  by (auto simp: tracks_def pause_stop_def own_seen_def)

lemma tracks_resume: "tracks b p c \<Longrightarrow> b \<le> t \<Longrightarrow> tracks t (snd (pause_resume t p)) (own_resume t c)"
  by (auto simp: tracks_def pause_resume_def own_resume_def)

lemma tracks_run:
  assumes "tracks b p c" "tracks b q d" "in_order b es"
  shows "tracks (last_time b es) (fst (fold acc_step es (p, q))) (fst (fold own_step es (c, d))) \<and>
    tracks (last_time b es) (snd (fold acc_step es (p, q))) (snd (fold own_step es (c, d)))"
  using assms
proof (induction es arbitrary: b p q c d)
  case (Cons e es)
  show ?case
  proof (cases e)
    case (Seen k t)
    then show ?thesis
      using Cons.prems Cons.IH[of t "pause_stop k t p" "own_seen k t c" q d] tracks_seen tracks_later by simp
  next
    case (Resume t)
    then show ?thesis
      using Cons.prems Cons.IH[of t "snd (pause_resume t p)" "own_resume t c" p c] tracks_resume[of b p c t] tracks_later
      by (simp add: pause_resume_def)
  next
    case Rollback
    then show ?thesis using Cons.prems Cons.IH[of b q d q d] by (simp add: pause_rollback_def)
  qed
qed simp

lemma tracks_now: "tracks b p c \<Longrightarrow> b \<le> now \<Longrightarrow> now - pause_total now p = own_now now c"
  by (auto simp: tracks_def pause_total_def own_now_def)

text \<open>Without a rollback the target's clock never runs backwards.\<close>

lemma own_step_grows:
  assumes "oc_since (fst cs) \<le> b" "b \<le> now" "event_time e = Some t" "b \<le> t" "e \<noteq> Rollback"
  shows "own_now b (fst cs) \<le> own_now t (fst (own_step e cs))" "oc_since (fst (own_step e cs)) \<le> t"
  using assms by (cases cs; cases e; auto simp: own_now_def own_seen_def own_resume_def)+

lemma own_now_mono: "oc_since c \<le> b \<Longrightarrow> b \<le> t \<Longrightarrow> own_now b c \<le> own_now t c"
  by (simp add: own_now_def)

lemma own_run_grows:
  assumes "oc_since (fst cs) \<le> b" "in_order b es" "Rollback \<notin> set es" "last_time b es \<le> now"
  shows "own_now b (fst cs) \<le> own_now now (fst (fold own_step es cs))"
  using assms
proof (induction es arbitrary: b cs)
  case Nil
  then show ?case by (simp add: own_now_mono)
next
  case (Cons e es)
  then obtain t where t: "event_time e = Some t" by (cases e) auto
  then have b: "b \<le> t" using Cons.prems(2) by simp
  have "own_now b (fst cs) \<le> own_now t (fst (own_step e cs))" "oc_since (fst (own_step e cs)) \<le> t"
    using own_step_grows[OF Cons.prems(1) order_refl t b] Cons.prems(3) by auto
  then show ?case using Cons.IH[of "own_step e cs" t] Cons.prems t by fastforce
qed



end
