(* ===== verification/AutoClock.thy ===== *)
theory AutoClock
  imports Pauses ClockBindings Timing Regex "HOL-Library.List_Lexorder" "HOL-Library.Char_ord"
begin

unbundle bit_operations_syntax

text \<open>
  \<open>AutomaticClock\<close> of \<open>macdbg/core/auto_clock.py\<close>: hooks at forwarders of the clock functions and
  at instructions that read a counter, whose results are set back by the time the target was
  stopped. The host's clocks, symbols, instructions and memory regions are observations, given by
  \<open>clock_env\<close>; building the library that reads the host's counters is one call of it.
\<close>

section \<open>State\<close>

text \<open>A hook: its address, what it reads, the register of a counter read, the code it stands on.\<close>

type_synonym clock_hook = "addr \<times> string \<times> string option \<times> bytes"

text \<open>A clock that must not run backwards: a function or counter by name, or a clock id.\<close>

datatype clock_domain = DName string | DClock int

record 'w clock_dbg = "'w bind_dbg" +
  ac_enabled :: bool
  ac_error :: "string option"
  ac_pauses :: pauses
  ac_hooks :: "(int, clock_hook) odict"
  ac_handled :: "(int \<times> int \<times> int \<times> int) list"
  ac_last :: "(clock_domain, int) odict"
  ac_hits :: "(string, int) odict"
  ac_passthrough :: int
  ac_sites :: int
  ac_armed :: int
  ac_scan :: bool
  ac_notes :: "string list"
  ac_text :: "addr \<times> addr"
  ac_pid :: "int option"
  ac_bound :: bool
  ac_returns :: "(int, addr \<times> int \<times> string) odict"
  ac_resolutions :: "(string, int) odict"
  ac_timebase :: "int \<times> int"
  ac_frequency :: int

text \<open>
  In the order of the record: what the bindings need; the host's monotonic clock; whether the
  target is stopped at its entry; the platform; whether manual rules are on; the Mach timebase
  (numerator and denominator); address and size of the executable's \<open>__text\<close>; the code symbols
  of a name with the file of their module; instructions (address, mnemonic, operands) at an
  address; a software breakpoint (None: invalid); the frequency of the counter library; a host
  counter; a host Mach clock; a host POSIX clock; a C string; a memory region (writable, end).
\<close>

record 'w clock_env =
  ae_bind :: "'w bind_env"
  ae_now :: "'w \<Rightarrow> int \<times> 'w"
  ae_entry :: "'w \<Rightarrow> bool"
  ae_platform :: "'w \<Rightarrow> string"
  ae_timing :: "'w \<Rightarrow> bool"
  ae_timebase :: "(int \<times> int) res"
  ae_text :: "'w \<Rightarrow> (addr \<times> int) option"
  ae_symbols :: "'w \<Rightarrow> string \<Rightarrow> (string \<times> addr) list"
  ae_code :: "'w \<Rightarrow> addr \<Rightarrow> nat \<Rightarrow> (addr \<times> string \<times> string) list"
  ae_bp_at :: "addr \<Rightarrow> 'w \<Rightarrow> int option \<times> 'w"
  ae_counters :: "'w \<Rightarrow> int res \<times> 'w"
  ae_counter :: "string \<Rightarrow> 'w \<Rightarrow> int \<times> 'w"
  ae_mach :: "string \<Rightarrow> 'w \<Rightarrow> int \<times> 'w"
  ae_posix :: "int \<Rightarrow> 'w \<Rightarrow> int res \<times> 'w"
  ae_cstring :: "'w \<Rightarrow> addr \<Rightarrow> string option"
  ae_region :: "'w \<Rightarrow> addr \<Rightarrow> (bool \<times> addr) option"

definition API_NAMES :: "string list" where
  "API_NAMES = [''mach_absolute_time'', ''mach_continuous_time'', ''clock_gettime'', ''gettimeofday'', ''mach_wait_until'']"

definition SCAN_LIMIT :: int where "SCAN_LIMIT = 4 * 1024 * 1024"

definition CLOCK_IDS :: "int list" where "CLOCK_IDS = [0, 4, 5, 6, 8, 9]"

definition clock_hidden_ids :: "('w, 'z) clock_dbg_scheme \<Rightarrow> int list" where
  "clock_hidden_ids s = remdups (map fst (ac_hooks s) @ map fst (ac_returns s))"

definition observe_clock_stop :: "'w lldb \<Rightarrow> 'w clock_env \<Rightarrow> int option \<Rightarrow> (('w, 'z) clock_dbg_scheme, unit) py" where
  "observe_clock_stop L A observed =
     bindP (getP (\<lambda>s. (ac_enabled s, obs_process L (world s)))) (\<lambda>(on, proc). case proc of None \<Rightarrow> retP ()
     | Some p \<Rightarrow> whenP (on \<and> pr_stopped p)
         (bindP (case observed of Some t \<Rightarrow> retP t | None \<Rightarrow> onW (ae_now A)) (\<lambda>stamp.
          modP (\<lambda>s. s\<lparr>ac_pauses := pause_stop (pr_pid p, pr_stop p) stamp (ac_pauses s)\<rparr>))))"

section \<open>Where the clocks are\<close>

definition api_address :: "'w clock_env \<Rightarrow> 'w \<Rightarrow> string \<Rightarrow> addr res" where
  "api_address A w name =
     (case remdups (map snd (filter (\<lambda>(path, a). starts_with path ''/usr/lib/'' \<and> a \<noteq> 0 \<and> a \<noteq> 2 ^ 64 - 1) (ae_symbols A w name))) of
       [a] \<Rightarrow> Inr a
     | _ \<Rightarrow> Inl (RuntimeError (''cannot uniquely resolve OS clock entry '' @ name)))"

text \<open>\<open>(x(?:[12]?\d|30)|xzr),\s*(cntvct_el0|cntpct_el0)\<close>\<close>

definition rx_counter :: rx where
  "rx_counter = Seqs
     [Grp 1 (Alt (Seq (Chr CHR ''x'') (Alt (Seq (Opt (one_of ''12'')) rDigit) (Str ''30''))) (Str ''xzr'')),
      Chr CHR '','', rSpaces, Grp 2 (Alt (Str ''cntvct_el0'') (Str ''cntpct_el0''))]"

definition counter_site :: "addr \<times> string \<times> string \<Rightarrow> (addr \<times> string \<times> string) list" where
  "counter_site = (\<lambda>(a, mnemonic, operands).
     if py_lower mnemonic \<noteq> ''mrs'' then []
     else case rx_full rx_counter (py_lower operands) of None \<Rightarrow> []
     | Some g \<Rightarrow> (case (grp 1 g, grp 2 g) of (Some r, Some k) \<Rightarrow> [(a, r, k)] | _ \<Rightarrow> []))"

text \<open>At most 2048 instructions are read at a time; the scan ends at the limit or where nothing is read.\<close>

function scan_from ::
    "(addr \<Rightarrow> nat \<Rightarrow> (addr \<times> string \<times> string) list) \<Rightarrow> addr \<Rightarrow> addr \<Rightarrow> (addr \<times> string \<times> string) list \<times> addr" where
  "scan_from code limit at =
     (if \<not> at < limit then ([], at)
      else let found = code at (nat (min 2048 ((limit - at) div 4))) in
        if found = [] then ([], at)
        else case scan_from code limit (at + 4 * int (length found)) of
          (sites, stop) \<Rightarrow> (concat (map counter_site found) @ sites, stop))"
  by pat_completeness auto
termination
  by (relation "measure (\<lambda>(code, limit, at). nat (limit - at))") (auto simp: Let_def)

declare scan_from.simps [simp del]

definition scan_counters :: "'w clock_env \<Rightarrow> (('w, 'z) clock_dbg_scheme, (addr \<times> string \<times> string) list) py" where
  "scan_counters A =
     bindP (getP (\<lambda>s. (ac_text s, world s))) (\<lambda>((start, finish), w).
     case scan_from (ae_code A w) (min finish (start + SCAN_LIMIT)) start of (sites, at) \<Rightarrow>
       seqP (modP (\<lambda>s. s\<lparr>ac_scan := (finish \<le> at), ac_notes := (if finish \<le> at then ac_notes s
           else ac_notes s @ [''main text counter scan is incomplete (4 MiB limit or unreadable code)''])\<rparr>))
       (retP sites))"

section \<open>Validation\<close>

definition filters_owned :: "int \<Rightarrow> filters \<Rightarrow> bool" where
  "filters_owned owner f = filters_clear (if flt_thread f = owner then f\<lparr>flt_thread := 0\<rparr> else f)"

definition FILTERS_MODIFIED :: exn where
  "FILTERS_MODIFIED = ValueError ''timing breakpoint filters were modified; disable and re-enable''"

definition clock_hook_ok :: "'w lldb \<Rightarrow> 'w \<Rightarrow> int \<times> clock_hook \<Rightarrow> unit res" where
  "clock_hook_ok L w = (\<lambda>(i, address, kind, register, expected).
     case find_bp L w i of None \<Rightarrow> Inl (RuntimeError ''automatic clock breakpoint was modified'')
     | Some b \<Rightarrow>
        if \<not> bp_enabled b \<or> bp_oneshot b \<or> length (bp_locs b) \<noteq> 1 then Inl (RuntimeError ''automatic clock breakpoint was modified'')
        else let l = hd (bp_locs b) in
          bindR (guardR (loc_enabled l \<and> loc_resolved l \<and> loc_addr l = address)
            (RuntimeError ''automatic clock breakpoint is unresolved or moved'')) (\<lambda>_.
          bindR (guardR (filters_clear (bp_filters b) \<and> filters_clear (loc_filters l)) FILTERS_MODIFIED) (\<lambda>_.
          if register = None then Inr ()
          else bindR (guardR (bp_hardware b) (RuntimeError ''counter breakpoint is not hardware-backed'')) (\<lambda>_.
            guardR (\<not> (case obs_process L w of None \<Rightarrow> False | Some p \<Rightarrow> pr_stopped p) \<or> read_memory L w address 4 = expected)
              (RuntimeError ''counter instruction changed; restart and rescan'')))))"

definition resolver_ok :: "'w lldb \<Rightarrow> 'w \<Rightarrow> int \<times> addr \<times> int \<times> string \<Rightarrow> unit res" where
  "resolver_ok L w = (\<lambda>(i, address, owner, name).
     case find_bp L w i of None \<Rightarrow> Inl (RuntimeError ''clock resolver return hook was modified'')
     | Some b \<Rightarrow>
        if \<not> bp_enabled b \<or> \<not> bp_hardware b \<or> bp_oneshot b \<or> flt_thread (bp_filters b) \<noteq> owner \<or> length (bp_locs b) \<noteq> 1
        then Inl (RuntimeError ''clock resolver return hook was modified'')
        else let l = hd (bp_locs b) in
          bindR (guardR (loc_enabled l \<and> loc_resolved l \<and> loc_addr l = address)
            (RuntimeError ''clock resolver return hook moved or became unresolved'')) (\<lambda>_.
          guardR (filters_owned owner (bp_filters b) \<and> filters_owned owner (loc_filters l)) FILTERS_MODIFIED))"

definition clock_intact :: "'w lldb \<Rightarrow> ('w, 'z) clock_dbg_scheme \<Rightarrow> unit res" where
  "clock_intact L s = (let w = world s in
     bindR (guardR (case obs_process L w of None \<Rightarrow> False | Some p \<Rightarrow> ac_pid s = Some (pr_pid p))
       (RuntimeError ''automatic clock hooks belong to a different process'')) (\<lambda>_.
     bindR (guardR (int (length (ac_hooks s)) = int (length API_NAMES) + 1 + ac_armed s)
       (RuntimeError ''automatic clock hooks are missing'')) (\<lambda>_.
     bindR (validate_hardware_capacity L (if step_plan_active s then 1 else 0) w) (\<lambda>_.
     bindR (foldR (\<lambda>h _. clock_hook_ok L w h) (ac_hooks s) ()) (\<lambda>_.
     bindR (guardR (ac_bound s) (RuntimeError ''clock import bindings are missing'')) (\<lambda>_.
     bindR (validate_bindings L s) (\<lambda>_.
     foldR (\<lambda>h _. resolver_ok L w h) (ac_returns s) ())))))))"

text \<open>\<open>except (RuntimeError, ValueError)\<close>\<close>

definition clock_refusal :: "exn \<Rightarrow> bool" where
  "clock_refusal e = (case e of RuntimeError _ \<Rightarrow> True | ValueError _ \<Rightarrow> True | _ \<Rightarrow> False)"

definition clock_validate :: "'w lldb \<Rightarrow> (('w, 'z) clock_dbg_scheme, bool \<times> string) py" where
  "clock_validate L =
     bindP (getP (\<lambda>s. (ac_enabled s, ac_error s))) (\<lambda>(on, err).
     if \<not> on then retP (True, ''automatic clocks disabled'')
     else if err \<noteq> None \<and> err \<noteq> Some [] then retP (False, the err)
     else bindP (getP (clock_intact L)) (\<lambda>r. case r of
         Inr _ \<Rightarrow> retP (True, ''automatic clock hooks ready'')
       | Inl e \<Rightarrow> if \<not> clock_refusal e then raiseP e
           else seqP (modP (\<lambda>s. s\<lparr>ac_error := Some (exn_text e)\<rparr>)) (retP (False, exn_text e))))"

definition clock_require_ready :: "'w lldb \<Rightarrow> (('w, 'z) clock_dbg_scheme, unit) py" where
  "clock_require_ready L = bindP (clock_validate L) (\<lambda>(ok, m). checkP ok (RuntimeError m))"

section \<open>Switching off\<close>

definition delete_clock_bp :: "'w lldb \<Rightarrow> int \<Rightarrow> (('w, 'z) dbg_scheme, unit) py" where
  "delete_clock_bp L i =
     seqP (bindP (getP (\<lambda>s. obs_target L (world s))) (\<lambda>target. whenP target (seqP (onW (do_bp_delete L i)) (retP ()))))
       (modP (\<lambda>s. s\<lparr>hardware_ids := hardware_ids s - {i}\<rparr>))"

definition clock_cleared :: "('w, 'z) clock_dbg_scheme \<Rightarrow> ('w, 'z) clock_dbg_scheme" where
  "clock_cleared s = s\<lparr>ac_handled := [], ac_enabled := False, ac_error := None, ac_pauses := pause_reset, ac_hits := [],
     ac_last := [], ac_resolutions := [], ac_sites := 0, ac_armed := 0, ac_passthrough := 0, ac_scan := False, ac_notes := [],
     ac_pid := None, ac_text := (0, 0)\<rparr>"

definition clock_unbind :: "'w lldb \<Rightarrow> (('w, 'z) clock_dbg_scheme, unit) py" where
  "clock_unbind L =
     bindP (getP ac_bound) (\<lambda>bound.
     whenP bound (seqP
       (catchP (restore_bindings L) (\<lambda>e. case e of
          RuntimeError m \<Rightarrow> seqP (modP (\<lambda>s. s\<lparr>ac_enabled := True, ac_error := Some m\<rparr>)) (raiseP e)
        | _ \<Rightarrow> raiseP e))
       (modP (\<lambda>s. s\<lparr>ac_bound := False\<rparr>))))"

definition clock_disable :: "'w lldb \<Rightarrow> (('w, 'z) clock_dbg_scheme, bool \<times> string) py" where
  "clock_disable L =
     bindP (getP clock_hidden_ids) (\<lambda>ids.
     seqP (forP (delete_clock_bp L) ids)
     (seqP (modP (\<lambda>s. s\<lparr>ac_hooks := [], ac_returns := []\<rparr>))
     (seqP (clock_unbind L)
     (seqP (modP clock_cleared)
     (retP (True, ''automatic clocks disabled; restart before re-enabling''))))))"

section \<open>Switching on\<close>

text \<open>A software breakpoint on every forwarder.\<close>

definition arm_forwarder :: "'w lldb \<Rightarrow> 'w clock_env \<Rightarrow> string \<times> addr \<Rightarrow> (('w, 'z) clock_dbg_scheme, unit) py" where
  "arm_forwarder L A = (\<lambda>(name, address).
     bindP (onW (ae_bp_at A address)) (\<lambda>created.
     let e = RuntimeError (''cannot arm clock forwarder '' @ name) in
     case created of None \<Rightarrow> raiseP e
     | Some i \<Rightarrow>
        bindP (getP (\<lambda>s. (case find_bp L (world s) i of None \<Rightarrow> 0 | Some b \<Rightarrow> length (bp_locs b), map_of (cb_code s) address))) (\<lambda>(locs, code).
        if locs \<noteq> 1 then seqP (onW (do_bp_delete L i)) (raiseP e)
        else (case code of None \<Rightarrow> raiseP (KeyError (py_str address))
          | Some c \<Rightarrow> modP (\<lambda>s. s\<lparr>ac_hooks := od_set i (address, name, None, c) (ac_hooks s)\<rparr>)))))"

text \<open>A hardware breakpoint on every counter read, or on none.\<close>

definition arm_counter ::
    "'w lldb \<Rightarrow> addr \<times> string \<times> string \<Rightarrow> int list \<Rightarrow> (('w, 'z) clock_dbg_scheme, int list \<times> exn option) py" where
  "arm_counter L = (\<lambda>(address, register, kind) ids.
     bindP (getP (\<lambda>s. read_memory L (world s) address 4)) (\<lambda>expected.
     if length expected \<noteq> 4 then retP (ids, Some (RuntimeError ''cannot read counter instruction''))
     else catchP
       (bindP (create_hardware_breakpoint L (''-a '' @ py_hex address) True 1) (\<lambda>b.
        seqP (modP (\<lambda>s. s\<lparr>hardware_ids := insert (bp_id b) (hardware_ids s),
            ac_hooks := od_set (bp_id b) (address, kind, Some register, expected) (ac_hooks s)\<rparr>))
        (retP (ids @ [bp_id b], None))))
       (\<lambda>e. retP (ids, Some e))))"

fun arm_counters ::
    "'w lldb \<Rightarrow> (addr \<times> string \<times> string) list \<Rightarrow> int list \<Rightarrow> (('w, 'z) clock_dbg_scheme, int list \<times> exn option) py" where
  "arm_counters L [] ids = retP (ids, None)"
| "arm_counters L (x # xs) ids = bindP (arm_counter L x ids) (\<lambda>(ids', e). case e of
     None \<Rightarrow> arm_counters L xs ids' | Some _ \<Rightarrow> retP (ids', e))"

definition drop_counter :: "'w lldb \<Rightarrow> int \<Rightarrow> (('w, 'z) clock_dbg_scheme, unit) py" where
  "drop_counter L i = seqP (onW (do_bp_delete L i))
     (modP (\<lambda>s. s\<lparr>hardware_ids := hardware_ids s - {i}, ac_hooks := od_pop i (ac_hooks s)\<rparr>))"

definition arm_direct_counters ::
    "'w lldb \<Rightarrow> 'w clock_env \<Rightarrow> (addr \<times> string \<times> string) list \<Rightarrow> (('w, 'z) clock_dbg_scheme, unit) py" where
  "arm_direct_counters L A sites =
     seqP (modP (\<lambda>s. s\<lparr>ac_sites := int (length sites), ac_armed := 0\<rparr>))
     (if sites = [] then retP ()
      else bindP (onW (ae_counters A)) (\<lambda>frequency.
       bindP (liftP frequency) (\<lambda>f.
       seqP (modP (\<lambda>s. s\<lparr>ac_frequency := f\<rparr>))
       (bindP (arm_counters L sites []) (\<lambda>(ids, e). case e of
          None \<Rightarrow> modP (\<lambda>s. s\<lparr>ac_armed := int (length ids)\<rparr>)
        | Some x \<Rightarrow> (case x of
            RuntimeError m \<Rightarrow> seqP (forP (drop_counter L) ids)
              (modP (\<lambda>s. s\<lparr>ac_notes := ac_notes s @ [''direct counters uncovered: '' @ m]\<rparr>))
          | _ \<Rightarrow> raiseP x))))))"

definition clock_possible :: "'w lldb \<Rightarrow> 'w clock_env \<Rightarrow> ('w, 'z) clock_dbg_scheme \<Rightarrow> unit res" where
  "clock_possible L A s = (let w = world s in
     bindR (guardR (ae_entry A w \<and> \<not> step_active s)
       (RuntimeError ''automatic clock mode must be enabled at the initial entry stop; restart first'')) (\<lambda>_.
     bindR (guardR (ae_platform A w = ''host'') (RuntimeError ''automatic clocks require the local host platform'')) (\<lambda>_.
     bindR (guardR (starts_with (obs_triple L w) ''arm64-'') (RuntimeError ''automatic clocks currently require native ARM64'')) (\<lambda>_.
     guardR (\<not> ae_timing A w) (RuntimeError ''disable manual timing rules before enabling automatic clocks'')))))"

definition text_range :: "'w clock_env \<Rightarrow> 'w \<Rightarrow> (addr \<times> addr) res" where
  "text_range A w = (case ae_text A w of
     Some (start, n) \<Rightarrow> if start = 0 \<or> start = 2 ^ 64 - 1 then Inl (RuntimeError ''cannot locate main executable text'') else Inr (start, start + n)
   | None \<Rightarrow> Inl (RuntimeError ''cannot locate main executable text''))"

definition clock_originals :: "'w clock_env \<Rightarrow> 'w \<Rightarrow> (string, addr) odict res" where
  "clock_originals A w = mapR (\<lambda>name. bindR (api_address A w name) (\<lambda>a. Inr (name, a))) (API_NAMES @ [''dlsym''])"

definition bind_clocks :: "'w lldb \<Rightarrow> 'w clock_env \<Rightarrow> (('w, 'z) clock_dbg_scheme, unit) py" where
  "bind_clocks L A =
     bindP (getP (\<lambda>s. clock_originals A (world s))) (\<lambda>found.
     bindP (liftP found) (\<lambda>originals.
     bindP (getP (\<lambda>s. obs_process L (world s))) (\<lambda>proc. case proc of
       None \<Rightarrow> raiseP (PyError ''AttributeError'' ''GetProcessID'')
     | Some p \<Rightarrow>
        seqP (modP (\<lambda>s. (new_bindings (pr_pid p) originals s)\<lparr>ac_bound := True\<rparr>))
        (bindP (install_bindings L (ae_bind A)) (\<lambda>imports.
        modP (\<lambda>s. s\<lparr>ac_notes := ac_notes s
          @ (if imports = [] then [''no supported clock or dlsym imports found in the main executable''] else [])
          @ (if cb_skipped s = [] then []
             else [''custom clock bindings left unchanged: '' @ join '', '' (sort (remdups (cb_skipped s)))])\<rparr>))))))"

definition arm_clock :: "'w lldb \<Rightarrow> 'w clock_env \<Rightarrow> (('w, 'z) clock_dbg_scheme, unit) py" where
  "arm_clock L A =
     bindP (getP (clock_possible L A)) (\<lambda>possible.
     seqP (liftP possible)
     (bindP (liftP (ae_timebase A)) (\<lambda>tb.
     seqP (modP (\<lambda>s. s\<lparr>ac_timebase := tb, ac_notes := []\<rparr>))
     (bindP (getP (\<lambda>s. text_range A (world s))) (\<lambda>range.
     bindP (liftP range) (\<lambda>text.
     seqP (modP (\<lambda>s. s\<lparr>ac_text := text\<rparr>))
     (seqP (bind_clocks L A)
     (bindP (getP cb_proxies) (\<lambda>proxies.
     seqP (forP (arm_forwarder L A) proxies)
     (bindP (scan_counters A) (arm_direct_counters L A)))))))))))"

definition clock_started :: "'w lldb \<Rightarrow> ('w, 'z) clock_dbg_scheme \<Rightarrow> ('w, 'z) clock_dbg_scheme" where
  "clock_started L s = s\<lparr>ac_enabled := True, ac_error := None, ac_pid := map_option pr_pid (obs_process L (world s)),
     ac_pauses := pause_reset, ac_handled := [], ac_last := [], ac_hits := [], ac_resolutions := [], ac_passthrough := 0\<rparr>"

definition clock_enabled_text :: "('w, 'z) clock_dbg_scheme \<Rightarrow> string" where
  "clock_enabled_text s = ''automatic clocks enabled ('' @ py_str (int (length API_NAMES)) @ '' APIs, '' @ py_str (ac_armed s) @ ''/'' @
     py_str (ac_sites s) @ '' direct counters)'' @ (if ac_notes s = [] then [] else ''; '' @ join ''; '' (ac_notes s))"

text \<open>\<open>except (RuntimeError, OSError, ValueError, subprocess.SubprocessError)\<close>\<close>

definition clock_caught :: "exn \<Rightarrow> bool" where
  "clock_caught e = (case e of RuntimeError _ \<Rightarrow> True | ValueError _ \<Rightarrow> True | KeyError _ \<Rightarrow> False
     | PyError c _ \<Rightarrow> c \<in> {''OSError'', ''TimeoutExpired'', ''SubprocessError''})"

definition clock_enable :: "'w lldb \<Rightarrow> 'w clock_env \<Rightarrow> (('w, 'z) clock_dbg_scheme, bool \<times> string) py" where
  "clock_enable L A =
     bindP (getP ac_enabled) (\<lambda>on.
     if on then clock_validate L
     else catchP
       (seqP (arm_clock L A)
       (seqP (modP (clock_started L))
       (seqP (observe_clock_stop L A None)
       (getP (\<lambda>s. (True, clock_enabled_text s))))))
       (\<lambda>e. if \<not> clock_caught e then raiseP e
         else seqP (clock_disable L)
           (seqP (modP (\<lambda>s. s\<lparr>ac_error := Some (exn_text e)\<rparr>)) (retP (False, exn_text e)))))"

section \<open>Answering a clock read\<close>

text \<open>\<open>_adjust\<close>: the time stopped, in the unit of the clock, is taken off; a monotonic clock never goes back.\<close>

definition adjusted :: "int \<Rightarrow> int \<Rightarrow> int \<Rightarrow> int \<Rightarrow> int" where
  "adjusted real paused scale divisor = max 0 (real - paused * scale div divisor)"

definition adjust_clock ::
    "'w clock_env \<Rightarrow> int \<Rightarrow> clock_domain \<Rightarrow> int \<Rightarrow> int \<Rightarrow> bool \<Rightarrow> (('w, 'z) clock_dbg_scheme, int) py" where
  "adjust_clock A real which scale divisor monotonic =
     bindP (onW (ae_now A)) (\<lambda>now.
     bindP (getP (\<lambda>s. (adjusted real (pause_total now (ac_pauses s)) scale divisor, map_of (ac_last s) which))) (\<lambda>(v0, last).
     if \<not> monotonic then retP v0
     else let v = max v0 (case last of None \<Rightarrow> 0 | Some l \<Rightarrow> l) in
       seqP (modP (\<lambda>s. s\<lparr>ac_last := od_set which v (ac_last s)\<rparr>)) (retP v)))"

definition clock_read :: "'w lldb \<Rightarrow> int \<Rightarrow> string \<Rightarrow> (('w, 'z) clock_dbg_scheme, int) py" where
  "clock_read L tid name = bindP (getP (\<lambda>s. thread_reg L tid name (world s))) (\<lambda>v. case v of
       None \<Rightarrow> raiseP (RuntimeError (''cannot read clock argument '' @ name)) | Some x \<Rightarrow> retP x)"

definition clock_write :: "'w lldb \<Rightarrow> int \<Rightarrow> string \<Rightarrow> int \<Rightarrow> (('w, 'z) clock_dbg_scheme, unit) py" where
  "clock_write L tid name v =
     bindP (onW (do_set_reg L tid name (py_hex v))) (\<lambda>err.
     seqP (checkP (err = None) (RuntimeError (''cannot write clock result '' @ name)))
     (bindP (getP (\<lambda>s. thread_reg L tid name (world s))) (\<lambda>actual.
     checkP (actual = Some v) (RuntimeError ''clock register verification failed''))))"

function writable_from :: "(addr \<Rightarrow> (bool \<times> addr) option) \<Rightarrow> addr \<Rightarrow> addr \<Rightarrow> bool" where
  "writable_from region finish a =
     (if \<not> a < finish then True
      else case region a of None \<Rightarrow> False
      | Some (writable, stop) \<Rightarrow> if \<not> writable \<or> stop \<le> a then False else writable_from region finish (min finish stop))"
  by pat_completeness auto
termination
  by (relation "measure (\<lambda>(region, finish, a). nat (finish - a))") auto

declare writable_from.simps [simp del]

definition clock_writable :: "'w clock_env \<Rightarrow> 'w \<Rightarrow> addr \<Rightarrow> int \<Rightarrow> bool" where
  "clock_writable A w a n = (a \<noteq> 0 \<and> writable_from (ae_region A w) (a + n) a)"

definition count_hit :: "string \<Rightarrow> ('w, 'z) clock_dbg_scheme \<Rightarrow> ('w, 'z) clock_dbg_scheme" where
  "count_hit kind s = s\<lparr>ac_hits := od_set kind ((case map_of (ac_hits s) kind of None \<Rightarrow> 0 | Some n \<Rightarrow> n) + 1) (ac_hits s)\<rparr>"

definition pass_through :: "('w, 'z) clock_dbg_scheme \<Rightarrow> ('w, 'z) clock_dbg_scheme" where
  "pass_through s = s\<lparr>ac_passthrough := ac_passthrough s + 1\<rparr>"

definition in_text :: "('w, 'z) clock_dbg_scheme \<Rightarrow> addr \<Rightarrow> bool" where
  "in_text s a = (fst (ac_text s) \<le> a \<and> a < snd (ac_text s))"

text \<open>The target looks a clock function up: its return is hooked, to answer with the forwarder.\<close>

definition handle_dlsym :: "'w lldb \<Rightarrow> 'w clock_env \<Rightarrow> int \<Rightarrow> (('w, 'z) clock_dbg_scheme, unit) py" where
  "handle_dlsym L A tid =
     bindP (clock_read L tid ''x30'') (\<lambda>caller.
     bindP (getP (\<lambda>s. in_text s caller)) (\<lambda>own.
     if \<not> own then retP ()
     else bindP (clock_read L tid ''x1'') (\<lambda>pointer.
       bindP (getP (\<lambda>s. (ae_cstring A (world s) pointer, map fst (cb_proxies s)))) (\<lambda>(name, known).
       case name of None \<Rightarrow> retP ()
       | Some n \<Rightarrow> if n \<notin> set known then retP ()
           else bindP (create_hardware_at L caller) (\<lambda>b.
             seqP (onW (do_bp_thread L (bp_id b) tid))
             (modP (\<lambda>s. s\<lparr>ac_returns := od_set (bp_id b) (caller, tid, n) (ac_returns s)\<rparr>)))))))"

text \<open>Returning to the caller in the place of the function or past the counter read.\<close>

definition advance_to :: "'w lldb \<Rightarrow> int \<Rightarrow> string \<Rightarrow> addr \<Rightarrow> (('w, 'z) clock_dbg_scheme, unit) py" where
  "advance_to L tid kind destination =
     bindP (onW (do_set_pc L tid destination)) (\<lambda>ok.
     bindP (getP (\<lambda>s. thread_pc L tid (world s))) (\<lambda>pc.
     seqP (checkP (ok \<and> pc = Some destination) (RuntimeError ''cannot advance past clock read''))
     (modP (count_hit kind))))"

definition handle_counter :: "'w lldb \<Rightarrow> 'w clock_env \<Rightarrow> int \<Rightarrow> addr \<Rightarrow> string \<Rightarrow> string \<Rightarrow> (('w, 'z) clock_dbg_scheme, unit) py" where
  "handle_counter L A tid pc kind register =
     bindP (onW (ae_counter A kind)) (\<lambda>real.
     bindP (getP ac_frequency) (\<lambda>frequency.
     bindP (adjust_clock A real (DName kind) frequency 1000000000 True) (\<lambda>v.
     seqP (whenP (register \<noteq> ''xzr'') (clock_write L tid register v))
     (advance_to L tid kind (pc + 4)))))"

text \<open>The real wait runs, with a deadline later by the time stopped.\<close>

definition handle_wait :: "'w lldb \<Rightarrow> 'w clock_env \<Rightarrow> int \<Rightarrow> string \<Rightarrow> (('w, 'z) clock_dbg_scheme, unit) py" where
  "handle_wait L A tid kind =
     bindP (clock_read L tid ''x0'') (\<lambda>deadline.
     bindP (onW (ae_now A)) (\<lambda>now.
     bindP (getP (\<lambda>s. pause_total now (ac_pauses s) * snd (ac_timebase s) div fst (ac_timebase s))) (\<lambda>ticks.
     seqP (clock_write L tid ''x0'' (min (2 ^ 64 - 1) (deadline + ticks)))
     (modP (count_hit kind)))))"

definition handle_mach :: "'w lldb \<Rightarrow> 'w clock_env \<Rightarrow> int \<Rightarrow> string \<Rightarrow> addr \<Rightarrow> (('w, 'z) clock_dbg_scheme, unit) py" where
  "handle_mach L A tid kind destination =
     bindP (onW (ae_mach A kind)) (\<lambda>real.
     bindP (getP ac_timebase) (\<lambda>(numer, denom).
     bindP (adjust_clock A real (DName kind) denom numer True) (\<lambda>v.
     seqP (clock_write L tid ''x0'' v) (advance_to L tid kind destination))))"

text \<open>\<open>struct timespec\<close> (two 64-bit fields), or \<open>struct timeval\<close> as 12 bytes.\<close>

definition time_bytes :: "string \<Rightarrow> int \<Rightarrow> bytes" where
  "time_bytes kind ns = (let seconds = ns div 1000000000; nanos = ns mod 1000000000 in
     if kind = ''clock_gettime'' then int_le 8 seconds @ int_le 8 nanos else int_le 8 seconds @ int_le 4 (nanos div 1000))"

definition supported_read :: "'w lldb \<Rightarrow> 'w clock_env \<Rightarrow> int \<Rightarrow> string \<Rightarrow> int \<Rightarrow> addr \<Rightarrow> (('w, 'z) clock_dbg_scheme, bool) py" where
  "supported_read L A tid kind clock address =
     bindP (getP (\<lambda>s. clock \<in> set CLOCK_IDS \<and> clock_writable A (world s) address (if kind = ''clock_gettime'' then 16 else 12))) (\<lambda>ok.
     if \<not> ok then retP False
     else if kind \<noteq> ''gettimeofday'' then retP True
     else bindP (clock_read L tid ''x1'') (\<lambda>zone. retP (zone = 0)))"

definition handle_posix :: "'w lldb \<Rightarrow> 'w clock_env \<Rightarrow> int \<Rightarrow> string \<Rightarrow> addr \<Rightarrow> (('w, 'z) clock_dbg_scheme, unit) py" where
  "handle_posix L A tid kind destination =
     bindP (if kind = ''clock_gettime'' then clock_read L tid ''x0'' else retP 0) (\<lambda>clock.
     bindP (clock_read L tid (if kind = ''clock_gettime'' then ''x1'' else ''x0'')) (\<lambda>address.
     bindP (supported_read L A tid kind clock address) (\<lambda>ok.
     if \<not> ok then modP pass_through
     else bindP (onW (ae_posix A clock)) (\<lambda>r.
       bindP (liftP r) (\<lambda>real.
       bindP (adjust_clock A real (DClock clock) 1 1 (clock \<noteq> 0)) (\<lambda>ns.
       bindP (write_memory L address (time_bytes kind ns) False) (\<lambda>(written, message).
       seqP (checkP written (RuntimeError (''cannot write clock buffer: '' @ message)))
       (seqP (clock_write L tid ''x0'' 0) (advance_to L tid kind destination)))))))))"

text \<open>
  \<open>_handle\<close>: only callers in the executable's own text are answered; others run the real function.
\<close>

definition handle_clock ::
    "'w lldb \<Rightarrow> 'w clock_env \<Rightarrow> int \<Rightarrow> addr \<Rightarrow> string \<Rightarrow> string option \<Rightarrow> (('w, 'z) clock_dbg_scheme, unit) py" where
  "handle_clock L A tid pc kind register =
     (if kind = ''dlsym'' then handle_dlsym L A tid
      else case register of
        Some r \<Rightarrow> handle_counter L A tid pc kind r
      | None \<Rightarrow>
         bindP (clock_read L tid ''x30'') (\<lambda>destination.
         bindP (getP (\<lambda>s. in_text s destination)) (\<lambda>own.
         if \<not> own then modP pass_through
         else if kind = ''mach_wait_until'' then handle_wait L A tid kind
         else if starts_with kind ''mach_'' then handle_mach L A tid kind destination
         else handle_posix L A tid kind destination)))"

section \<open>At a stop\<close>

definition resolved_name :: "'w lldb \<Rightarrow> int \<Rightarrow> string \<Rightarrow> (('w, 'z) clock_dbg_scheme, unit) py" where
  "resolved_name L tid name =
     bindP (clock_read L tid ''x0'') (\<lambda>result.
     bindP (getP (\<lambda>s. (map_of (cb_originals s) name, map_of (cb_proxies s) name))) (\<lambda>(original, proxy).
     case original of None \<Rightarrow> raiseP (KeyError name)
     | Some a \<Rightarrow> if result \<noteq> a then retP ()
         else (case proxy of None \<Rightarrow> raiseP (KeyError name)
           | Some q \<Rightarrow> seqP (clock_write L tid ''x0'' q)
               (modP (\<lambda>s. s\<lparr>ac_resolutions := od_set name ((case map_of (ac_resolutions s) name of None \<Rightarrow> 0 | Some n \<Rightarrow> n) + 1) (ac_resolutions s)\<rparr>)))))"

definition retire_resolver :: "'w lldb \<Rightarrow> int \<Rightarrow> (('w, 'z) clock_dbg_scheme, unit) py" where
  "retire_resolver L i =
     seqP (modP (remember_hardware_return L i))
     (bindP (delete_breakpoint L i) (\<lambda>deleted.
     if \<not> deleted
     then let m = ''cannot retire clock resolver return hook'' in seqP (modP (\<lambda>s. s\<lparr>ac_error := Some m\<rparr>)) (raiseP (RuntimeError m))
     else modP (\<lambda>s. s\<lparr>ac_returns := od_pop i (ac_returns s)\<rparr>)))"

definition at_resolver :: "'w lldb \<Rightarrow> int \<Rightarrow> addr \<Rightarrow> int \<times> addr \<times> int \<times> string \<Rightarrow> bool \<Rightarrow> (('w, 'z) clock_dbg_scheme, bool) py" where
  "at_resolver L tid pc = (\<lambda>(i, address, owner, name) matched.
     if pc \<noteq> address \<or> tid \<noteq> owner then retP matched
     else seqP (resolved_name L tid name) (seqP (retire_resolver L i) (retP True)))"

definition at_hook ::
    "'w lldb \<Rightarrow> 'w clock_env \<Rightarrow> stop_key \<Rightarrow> int \<Rightarrow> addr \<Rightarrow> int \<times> clock_hook \<Rightarrow> bool \<Rightarrow> (('w, 'z) clock_dbg_scheme, bool) py" where
  "at_hook L A key tid pc = (\<lambda>(i, address, kind, register, expected) matched.
     if pc \<noteq> address then retP matched
     else let token = (fst key, snd key, tid, i) in
       bindP (getP (\<lambda>s. token \<in> set (ac_handled s))) (\<lambda>handled.
       if handled then retP True
       else seqP (catchP (seqP (handle_clock L A tid pc kind register)
             (modP (\<lambda>s. s\<lparr>ac_handled := List.insert token (ac_handled s)\<rparr>)))
           (\<lambda>e. case e of RuntimeError m \<Rightarrow> seqP (modP (\<lambda>s. s\<lparr>ac_error := Some m\<rparr>)) (raiseP e) | _ \<Rightarrow> raiseP e))
         (retP True)))"

definition at_thread ::
    "'w lldb \<Rightarrow> 'w clock_env \<Rightarrow> stop_key \<Rightarrow> int list \<Rightarrow> thread \<Rightarrow> bool \<times> bool \<Rightarrow> (('w, 'z) clock_dbg_scheme, bool \<times> bool) py" where
  "at_thread L A key hidden t = (\<lambda>(matched, foreign).
     let foreign' = (foreign \<or> \<not> set (thread_ids t) \<subseteq> set hidden \<or> th_reason t \<notin> {SrNone, SrInvalid, SrBreakpoint}) in
     if th_reason t \<notin> {SrBreakpoint, SrPlanComplete, SrNone, SrInvalid} then retP (matched, foreign')
     else case th_pc t of None \<Rightarrow> retP (matched, foreign')
     | Some pc \<Rightarrow>
        bindP (getP ac_returns) (\<lambda>returns.
        bindP (foldP (at_resolver L (th_id t) pc) returns matched) (\<lambda>m1.
        bindP (getP ac_hooks) (\<lambda>hooks.
        bindP (foldP (at_hook L A key (th_id t) pc) hooks m1) (\<lambda>m2.
        retP (m2, foreign'))))))"

definition clock_apply_stop :: "'w lldb \<Rightarrow> 'w clock_env \<Rightarrow> (('w, 'z) clock_dbg_scheme, bool) py" where
  "clock_apply_stop L A =
     bindP (getP ac_enabled) (\<lambda>on.
     if \<not> on then retP False
     else seqP (observe_clock_stop L A None)
       (seqP (clock_require_ready L)
       (bindP (getP (\<lambda>s. obs_process L (world s))) (\<lambda>proc. case proc of None \<Rightarrow> retP False
        | Some p \<Rightarrow>
           if \<not> pr_stopped p then retP False
           else let key = (pr_pid p, pr_stop p) in
             seqP (modP (\<lambda>s. s\<lparr>ac_handled := filter (\<lambda>(a, b, c, d). (a, b) = key) (ac_handled s)\<rparr>))
             (bindP (getP clock_hidden_ids) (\<lambda>hidden.
              bindP (foldP (at_thread L A key hidden) (pr_threads p) (False, False)) (\<lambda>(matched, foreign).
              retP (matched \<and> \<not> foreign))))))))"


definition counted :: "(string, int) odict \<Rightarrow> json" where
  "counted d = JObj (map (\<lambda>(k, v). (k, JInt v)) d)"

definition clock_status :: "'w lldb \<Rightarrow> 'w clock_env \<Rightarrow> (('w, 'z) clock_dbg_scheme, json) py" where
  "clock_status L A =
     bindP (clock_validate L) (\<lambda>(ok, message).
     bindP (getP ac_enabled) (\<lambda>on.
     bindP (if on then onW (ae_now A) else retP 0) (\<lambda>now.
     getP (\<lambda>s. JObj [
       (''enabled'', JBool on), (''safe'', JBool (on \<and> ok)),
       (''error'', if ok then (case ac_error s of None \<Rightarrow> JNull | Some m \<Rightarrow> JStr m) else JStr message),
       (''scope'', JStr ''main-executable callers and scanned main text''),
       (''apis'', JList (if on then map JStr API_NAMES else [])),
       (''entry_points'', if ac_bound s then counted (cb_proxies s) else JObj []),
       (''import_bindings'', JInt (if ac_bound s then int (length (cb_slots s)) else 0)),
       (''dynamic_resolutions'', counted (ac_resolutions s)),
       (''counter_kinds'', JList [JStr ''cntvct_el0'', JStr ''cntpct_el0'']),
       (''counter_sites'', JInt (ac_sites s)), (''counter_armed'', JInt (ac_armed s)),
       (''counter_coverage_complete'', JBool (ac_scan s \<and> ac_sites s = ac_armed s)),
       (''scan_complete'', JBool (ac_scan s)), (''coverage_notes'', JList (map JStr (ac_notes s))),
       (''hits'', counted (ac_hits s)), (''passthrough'', JInt (ac_passthrough s)),
       (''paused_ns'', JInt (if on then pause_total now (ac_pauses s) else 0))]))))"

section \<open>Switching is all or nothing\<close>

text \<open>
  What LLDB promises: no call used here changes the breakpoints, except that a software breakpoint
  may be added, under a new identifier; and the target stays valid.
\<close>

definition calm :: "'w lldb \<Rightarrow> ('w \<Rightarrow> 'a \<times> 'w) \<Rightarrow> bool" where
  "calm L f = (\<forall>w. bp_ids L (snd (f w)) = bp_ids L w)"

definition clock_law :: "'w lldb \<Rightarrow> 'w clock_env \<Rightarrow> bool" where
  "clock_law L A =
     (bp_delete_law L \<and> bp_command_law L \<and>
      (\<forall>a d. calm L (do_write L a d)) \<and> calm L (be_alloc (ae_bind A)) \<and> (\<forall>a. calm L (be_free (ae_bind A) a)) \<and>
      (\<forall>c. calm L (be_command (ae_bind A) c)) \<and> calm L (ae_now A) \<and> calm L (ae_counters A) \<and>
      (\<forall>w. obs_target L w) \<and>
      (\<forall>a w. let (r, w') = ae_bp_at A a w in
         (case r of None \<Rightarrow> bp_ids L w' = bp_ids L w | Some i \<Rightarrow> i \<notin> set (bp_ids L w) \<and> set (bp_ids L w') = insert i (set (bp_ids L w)))))"

definition clock_core :: "'w lldb \<Rightarrow> ('w, 'z) clock_dbg_scheme \<Rightarrow> int set \<times> int set \<times> (int, clock_hook) odict \<times> (int, addr \<times> int \<times> string) odict" where
  "clock_core L s = (set (bp_ids L (world s)), hardware_ids s, ac_hooks s, ac_returns s)"

definition on_core where
  "on_core L P s = P (clock_core L s)"

lemma keeps_core_mod: "(\<And>s. clock_core L (f s) = clock_core L s) \<Longrightarrow> keepsP (on_core L P) (modP f)"
  by (rule keepsP_mod) (simp add: on_core_def)

lemma keeps_core_onW: "calm L f \<Longrightarrow> keepsP (on_core L P) (onW f)"
  unfolding onW_def by (rule keepsP_act) (simp add: on_core_def clock_core_def calm_def split_beta)

lemma keeps_core_write:
  assumes "\<And>a d. calm L (do_write L a d)"
  shows "keepsP (on_core L P) (write_memory L a d track)"
  unfolding write_memory_def record_patch_def Let_def
  by (intro keeps keeps_core_onW assms keeps_core_mod | (simp add: clock_core_def split: option.splits))+

lemma clock_lawD:
  assumes "clock_law L A"
  shows "calm L (do_write L a d)" "calm L (be_alloc (ae_bind A))" "calm L (be_free (ae_bind A) a)"
    "calm L (be_command (ae_bind A) c)" "calm L (ae_now A)" "calm L (ae_counters A)"
    "bp_delete_law L" "bp_command_law L" "obs_target L w"
    "case fst (ae_bp_at A a w) of None \<Rightarrow> bp_ids L (snd (ae_bp_at A a w)) = bp_ids L w
     | Some i \<Rightarrow> i \<notin> set (bp_ids L w) \<and> set (bp_ids L (snd (ae_bp_at A a w))) = insert i (set (bp_ids L w))"
  using assms unfolding clock_law_def Let_def split_beta by blast+

lemma keeps_core_slots:
  assumes "clock_law L A"
  shows "keepsP (on_core L P) (restore_slots L xs)"
  by (induction xs) (auto intro!: keeps keeps_core_write clock_lawD(1)[OF assms] split: prod.splits)

lemma keeps_core_restore:
  assumes "clock_law L A"
  shows "keepsP (on_core L P) (restore_bindings L)"
  unfolding restore_bindings_def
  by (intro keeps keeps_core_slots[OF assms] keeps_core_mod) (simp add: clock_core_def)

lemma keeps_core_forwarders:
  assumes "clock_law L A"
  shows "keepsP (on_core L P) (write_forwarders L page k xs)"
  by (induction xs arbitrary: k)
    (auto simp: Let_def clock_core_def intro!: keeps keeps_core_write keeps_core_mod clock_lawD(1)[OF assms] split: prod.splits)

lemma keeps_core_bind:
  assumes "clock_law L A"
  shows "keepsP (on_core L P) (bind_imports L helper xs)"
proof (induction xs)
  case (Cons x xs)
  then show ?case
    by (cases x) (auto simp: Let_def clock_core_def
      intro!: keeps keeps_core_write keeps_core_mod clock_lawD(1)[OF assms] split: prod.splits option.splits)
qed (simp add: keeps)

lemma keeps_core_install:
  assumes "clock_law L A"
  shows "keepsP (on_core L P) (install_bindings L (ae_bind A))"
  unfolding install_bindings_def page_forwarders_def protect_forwarders_def
  by (intro keeps keeps_core_onW keeps_core_bind[OF assms] keeps_core_restore[OF assms] keeps_core_forwarders[OF assms]
    keeps_core_mod clock_lawD[OF assms]) (simp_all add: clock_core_def)

text \<open>While the clocks are being armed: the breakpoints are those before and the hooks.\<close>

definition clock_arming :: "'w lldb \<Rightarrow> int set \<Rightarrow> int set \<Rightarrow> ('w, 'z) clock_dbg_scheme \<Rightarrow> bool" where
  "clock_arming L B H = on_core L (\<lambda>(ids, hw, hooks, returns). ids = B \<union> fst ` set hooks \<and> B \<inter> fst ` set hooks = {} \<and>
     hw \<subseteq> H \<union> fst ` set hooks \<and> returns = [])"

lemma arming_iff:
  "clock_arming L B H s \<longleftrightarrow> set (bp_ids L (world s)) = B \<union> fst ` set (ac_hooks s) \<and> B \<inter> fst ` set (ac_hooks s) = {} \<and>
     hardware_ids s \<subseteq> H \<union> fst ` set (ac_hooks s) \<and> ac_returns s = []"
  by (simp add: clock_arming_def on_core_def clock_core_def)

lemma od_keys_set: "fst ` set (od_set k v d) = insert k (fst ` set d)"
  by (simp add: od_set_def dom_update)

lemma arming_added:
  assumes "clock_arming L B H s" "i \<notin> set (bp_ids L (world s))" "set (bp_ids L w) = insert i (set (bp_ids L (world s)))"
    "h \<subseteq> insert i (hardware_ids s)"
  shows "clock_arming L B H (s\<lparr>world := w, hardware_ids := h, ac_hooks := od_set i x (ac_hooks s)\<rparr>)"
  using assms unfolding arming_iff by (auto simp: od_keys_set)

lemma wp_arm_forwarder:
  assumes law: "clock_law L A" and s: "clock_arming L B H s"
  shows "wpP (arm_forwarder L A x) (\<lambda>_. clock_arming L B H) (\<lambda>e t. clock_caught e \<longrightarrow> clock_arming L B H t) s"
proof -
  obtain name address where x: "x = (name, address)" by (cases x)
  obtain r w where r: "ae_bp_at A address (world s) = (r, w)" by force
  note new = clock_lawD(10)[OF law, of address "world s", unfolded r, simplified]
  show ?thesis
  proof (cases r)
    case None
    then show ?thesis using s new by (simp add: arm_forwarder_def x r wp Let_def clock_caught_def arming_iff)
  next
    case (Some i)
    have del: "set (bp_ids L (snd (do_bp_delete L i w))) = set (bp_ids L (world s))"
      using new Some by (auto simp: bp_delete_ids[OF clock_lawD(7)[OF law]])
    have "clock_arming L B H (s\<lparr>world := w, ac_hooks := od_set i y (ac_hooks s)\<rparr>)" for y
      using arming_added[OF s, of i w "hardware_ids s" y] new Some by auto
    then show ?thesis using s del Some
      by (auto simp: arm_forwarder_def x r wp Let_def clock_caught_def arming_iff split: option.splits)
  qed
qed

lemma wp_arm_counter:
  assumes law: "clock_law L A" and s: "clock_arming L B H s"
  shows "wpP (arm_counter L x ids) (\<lambda>(ids', e) t. clock_arming L B H t \<and> (set ids \<subseteq> fst ` set (ac_hooks s) \<longrightarrow> set ids' \<subseteq> fst ` set (ac_hooks t))) (\<lambda>_ _. False) s"
proof -
  obtain address register kind where x: "x = (address, register, kind)" by (cases x)
  show ?thesis
    unfolding arm_counter_def x wp prod.case
    apply (simp add: wp s)
    apply (intro impI)
    apply (rule wp_create_hardware[OF clock_lawD(7,8)[OF law]])
    subgoal for b w
      using arming_added[OF s, of "bp_id b" w "insert (bp_id b) (hardware_ids s)"]
      by (auto simp: allocated_def bp_ids_def od_keys_set)
    subgoal for m w
      using s by (simp add: arming_iff bp_ids_def)
    done
qed

lemma wp_arm_counters:
  assumes law: "clock_law L A" and s: "clock_arming L B H s" "set ids \<subseteq> fst ` set (ac_hooks s)"
  shows "wpP (arm_counters L xs ids) (\<lambda>(ids', e) t. clock_arming L B H t \<and> set ids' \<subseteq> fst ` set (ac_hooks t)) (\<lambda>_ _. False) s"
  using s
proof (induction xs arbitrary: ids s)
  case (Cons x xs)
  have "wpP (arm_counter L x ids) (\<lambda>(ids', e). wpP (case e of None \<Rightarrow> arm_counters L xs ids' | Some _ \<Rightarrow> retP (ids', e))
      (\<lambda>(ids', e) t. clock_arming L B H t \<and> set ids' \<subseteq> fst ` set (ac_hooks t)) (\<lambda>_ _. False)) (\<lambda>_ _. False) s"
    by (rule wpP_weaken[OF wp_arm_counter[OF law Cons.prems(1)]])
      (use Cons in \<open>auto simp: wp split: option.splits\<close>)
  then show ?case by (simp add: wp case_prod_unfold)
qed (simp add: wp)

lemma wp_drop_counter:
  assumes law: "clock_law L A" and s: "clock_arming L B H s" "i \<notin> B"
  shows "wpP (drop_counter L i) (\<lambda>_. clock_arming L B H) E s"
  using s unfolding arming_iff
  by (auto simp: drop_counter_def wp bp_delete_ids[OF clock_lawD(7)[OF law]] dict_simps)

lemma wp_direct_counters:
  assumes law: "clock_law L A" and s: "clock_arming L B H s"
  shows "wpP (arm_direct_counters L A xs) (\<lambda>_. clock_arming L B H) (\<lambda>_. clock_arming L B H) s"
proof -
  have core: "clock_arming L B H t" if "clock_core L t = clock_core L u" "clock_arming L B H u" for t u
    using that by (simp add: clock_arming_def on_core_def)
  have fin: "wpP (case e of None \<Rightarrow> modP (\<lambda>s. s\<lparr>ac_armed := int (length ids)\<rparr>)
        | Some x \<Rightarrow> (case x of
            RuntimeError m \<Rightarrow> seqP (forP (drop_counter L) ids)
              (modP (\<lambda>s. s\<lparr>ac_notes := ac_notes s @ [''direct counters uncovered: '' @ m]\<rparr>))
          | _ \<Rightarrow> raiseP x)) (\<lambda>_. clock_arming L B H) (\<lambda>_. clock_arming L B H) t"
    if t: "clock_arming L B H t" "set ids \<subseteq> fst ` set (ac_hooks t)" for ids e t
  proof -
    have "wpP (forP (drop_counter L) ids) (\<lambda>_. clock_arming L B H) (\<lambda>_. clock_arming L B H) t"
      using t by (intro wpP_for[of "clock_arming L B H"] wp_drop_counter[OF law]) (auto simp: arming_iff)
    then have "wpP (forP (drop_counter L) ids) (\<lambda>_ u. clock_arming L B H (u\<lparr>ac_notes := ac_notes u @ [''direct counters uncovered: '' @ m]\<rparr>))
        (\<lambda>_. clock_arming L B H) t" for m
      by (rule wpP_weaken) (auto intro: core simp: clock_core_def)
    then show ?thesis using t by (auto simp: wp arming_iff split: option.splits exn.splits)
  qed
  have arm: "wpP (bindP (arm_counters L xs []) (\<lambda>(ids, e). case e of None \<Rightarrow> modP (\<lambda>s. s\<lparr>ac_armed := int (length ids)\<rparr>)
        | Some x \<Rightarrow> (case x of
            RuntimeError m \<Rightarrow> seqP (forP (drop_counter L) ids)
              (modP (\<lambda>s. s\<lparr>ac_notes := ac_notes s @ [''direct counters uncovered: '' @ m]\<rparr>))
          | _ \<Rightarrow> raiseP x))) (\<lambda>_. clock_arming L B H) (\<lambda>_. clock_arming L B H) t" if "clock_arming L B H t" for t
    unfolding wp
    by (rule wpP_weaken[OF wp_arm_counters[OF law that]]) (auto intro: fin)
  have c: "keepsP (clock_arming L B H) (modP f)" if "\<And>s. clock_core L (f s) = clock_core L s" for f
    unfolding clock_arming_def by (rule keeps_core_mod) (rule that)
  have w: "keepsP (clock_arming L B H) (onW (ae_counters A))"
    unfolding clock_arming_def by (rule keeps_core_onW[OF clock_lawD(6)[OF law]])
  show ?thesis
    unfolding arm_direct_counters_def
  proof (rule wpP_keeps_seq[OF c s], goal_cases)
    case (2 t)
    then show ?case
    proof (cases "xs = []")
      case False
      have "wpP (bindP (onW (ae_counters A)) (\<lambda>frequency. bindP (liftP frequency) (\<lambda>f. seqP (modP (\<lambda>s. s\<lparr>ac_frequency := f\<rparr>)) k)))
          (\<lambda>_. clock_arming L B H) (\<lambda>_. clock_arming L B H) t"
        if "\<And>u. clock_arming L B H u \<Longrightarrow> wpP k (\<lambda>_. clock_arming L B H) (\<lambda>_. clock_arming L B H) u" for k :: "(('a, 'b) clock_dbg_scheme, unit) py"
        by (rule wpP_keeps_bind[OF w 2]; (rule wpP_keeps_bind[OF keepsP_base(4)]; assumption?; (rule wpP_keeps_seq[OF c]; (assumption | rule that | simp add: clock_core_def))?)?)
      from this[OF arm] False show ?thesis by simp
    qed (simp add: wp)
  qed (simp_all add: clock_core_def)
qed

lemma keeps_core_bind_clocks:
  assumes "clock_law L A"
  shows "keepsP (on_core L P) (bind_clocks L A)"
  unfolding bind_clocks_def
  by (intro keeps keeps_core_install[OF assms] keeps_core_mod) (simp_all add: clock_core_def new_bindings_def)

lemma wp_arm_clock:
  assumes law: "clock_law L A" and s: "clock_arming L B H s"
  shows "wpP (arm_clock L A) (\<lambda>_. clock_arming L B H) (\<lambda>e t. clock_caught e \<longrightarrow> clock_arming L B H t) s"
proof -
  let ?J = "clock_arming L B H"
  let ?E = "\<lambda>e t. clock_caught e \<longrightarrow> ?J t"
  have c: "keepsP ?J (modP f)" if "\<And>s. clock_core L (f s) = clock_core L s" for f
    unfolding clock_arming_def by (rule keeps_core_mod) (rule that)
  have b: "keepsP ?J (bind_clocks L A)"
    unfolding clock_arming_def by (rule keeps_core_bind_clocks[OF law])
  have scan: "keepsP ?J (scan_counters A)"
    unfolding scan_counters_def case_prod_unfold by (intro keeps c) (simp add: clock_core_def)
  have counters: "wpP (bindP (scan_counters A) (arm_direct_counters L A)) (\<lambda>_. ?J) ?E t" if "?J t" for t
    by (rule wpP_keeps_bind[OF scan that]) (auto intro: wpP_weaken[OF wp_direct_counters[OF law]])
  have forwarders: "wpP (forP (arm_forwarder L A) xs) (\<lambda>_. ?J) ?E t" if "?J t" for xs t
    using that by (intro wpP_for[of ?J] wp_arm_forwarder[OF law])
  have armed: "wpP (bindP (getP cb_proxies) (\<lambda>xs. seqP (forP (arm_forwarder L A) xs) (bindP (scan_counters A) (arm_direct_counters L A))))
      (\<lambda>_. ?J) ?E t" if "?J t" for t
    unfolding wpP_bind(1)[of "getP cb_proxies"] wpP_simps(3) wpP_bind(2)
    by (rule wpP_weaken[OF forwarders[OF that] counters])
  have rest: "wpP (seqP (modP f) (seqP (bind_clocks L A) k)) (\<lambda>_. ?J) ?E t"
    if "\<And>s. clock_core L (f s) = clock_core L s" "?J t" "\<And>u. ?J u \<Longrightarrow> wpP k (\<lambda>_. ?J) ?E u" for f k t
    using that by (intro wpP_keeps_seq[OF c] wpP_keeps_seq[OF b]) auto
  show ?thesis
    unfolding arm_clock_def
    using s
    by (intro wpP_keeps_bind[of ?J] wpP_keeps_seq[of ?J] rest armed keeps c) (auto simp: clock_core_def)
qed

lemma wp_delete_clock:
  assumes law: "clock_law L A"
  shows "wpP (forP (delete_clock_bp L) ids) (\<lambda>_ t. \<exists>w. set (bp_ids L w) = set (bp_ids L (world s)) - set ids \<and>
     t = s\<lparr>world := w, hardware_ids := hardware_ids s - set ids\<rparr>) (\<lambda>_ _. False) s"
proof (induction ids arbitrary: s)
  case Nil
  show ?case by (simp add: wp) (rule exI[of _ "world s"], simp)
next
  case (Cons i ids)
  show ?case
    using Cons.IH[of "s\<lparr>world := snd (do_bp_delete L i (world s)), hardware_ids := hardware_ids s - {i}\<rparr>"]
    by (simp add: delete_clock_bp_def wp clock_lawD(9)[OF law] bp_delete_ids[OF clock_lawD(7)[OF law]] set_diff_eq)
qed

lemma restore_raises: "wpP (restore_bindings L) (\<lambda>_ _. True) (\<lambda>e _. \<exists>m. e = RuntimeError m) s"
proof -
  have slots: "wpP (restore_slots L xs) (\<lambda>_ _. True) (\<lambda>e _. \<exists>m. e = RuntimeError m) s" for xs s
    by (induction xs arbitrary: s) (auto simp: write_memory_def wp Let_def split: option.splits)
  show ?thesis
    by (simp add: restore_bindings_def wp) (intro impI wpP_weaken[OF slots], auto)
qed

definition clock_off :: "'w lldb \<Rightarrow> int set \<Rightarrow> int set \<Rightarrow> ('w, 'z) clock_dbg_scheme \<Rightarrow> bool" where
  "clock_off L B H s = (set (bp_ids L (world s)) = B \<and> hardware_ids s \<subseteq> H \<and> ac_hooks s = [] \<and> ac_returns s = [])"

lemma off_core: "clock_off L B H = on_core L (\<lambda>(ids, hw, hooks, returns). ids = B \<and> hw \<subseteq> H \<and> hooks = [] \<and> returns = [])"
  by (auto simp: clock_off_def on_core_def clock_core_def)

lemma wp_clock_disable:
  assumes law: "clock_law L A" and s: "clock_arming L B H s"
  shows "wpP (clock_disable L) (\<lambda>_ t. clock_off L B H t \<and> \<not> ac_enabled t)
     (\<lambda>e t. clock_off L B H t \<and> ac_enabled t \<and> e = RuntimeError (the (ac_error t)) \<and> ac_error t \<noteq> None) s"
proof -
  have r: "wpP (restore_bindings L) (\<lambda>_. clock_off L B H) (\<lambda>e t. clock_off L B H t \<and> (\<exists>m. e = RuntimeError m)) t"
    if "clock_off L B H t" for t
    by (rule wpP_weaken[OF wpP_conj[OF restore_raises keepsP_use[OF keeps_core_restore[OF law]]]])
      (use that in \<open>auto simp: off_core\<close>)
  let ?E = "\<lambda>e t. clock_off L B H t \<and> ac_enabled t \<and> e = RuntimeError (the (ac_error t)) \<and> ac_error t \<noteq> None"
  have b: "wpP (clock_unbind L) (\<lambda>_. clock_off L B H) ?E t" if "clock_off L B H t" for t
    using that by (auto simp: clock_unbind_def wp clock_off_def intro!: wpP_weaken[OF r[OF that]])
  have b1: "wpP (clock_unbind L) (\<lambda>_ u. clock_off L B H (clock_cleared u) \<and> \<not> ac_enabled (clock_cleared u)) ?E t" if "clock_off L B H t" for t
    by (rule wpP_weaken[OF b[OF that]]) (simp_all add: clock_off_def clock_cleared_def)
  have "clock_off L B H (s\<lparr>world := w, hardware_ids := hardware_ids s - set (clock_hidden_ids s), ac_hooks := [], ac_returns := []\<rparr>)"
    if "set (bp_ids L w) = set (bp_ids L (world s)) - set (clock_hidden_ids s)" for w
    using s that by (auto simp: clock_off_def arming_iff clock_hidden_ids_def)
  from b1[OF this] show ?thesis
    unfolding clock_disable_def wp by (intro wpP_weaken[OF wp_delete_clock[OF law]]) auto
qed


section \<open>A refused session\<close>

definition demo_clock_env :: "demo_world clock_env" where
  "demo_clock_env = \<lparr>ae_bind = demo_bind_env, ae_now = (\<lambda>w. (100, w)), ae_entry = (\<lambda>w. True), ae_platform = (\<lambda>w. ''host''),
     ae_timing = (\<lambda>w. False), ae_timebase = Inr (125, 3), ae_text = (\<lambda>w. Some (4096, 64)), ae_symbols = (\<lambda>w n. []),
     ae_code = (\<lambda>w a n. []), ae_bp_at = (\<lambda>a w. (Some (fresh_id (dw_bps w)), w\<lparr>dw_bps := dw_bps w @ [demo_bp (fresh_id (dw_bps w)) a]\<rparr>)),
     ae_counters = (\<lambda>w. (Inr 24000000, w)), ae_counter = (\<lambda>k w. (0, w)), ae_mach = (\<lambda>k w. (0, w)), ae_posix = (\<lambda>c w. (Inr 0, w)),
     ae_cstring = (\<lambda>w a. None), ae_region = (\<lambda>w a. None)\<rparr>"

definition demo_clocked :: "demo_world clock_dbg" where
  "demo_clocked = bind_dbg.extend demo_binding
     \<lparr>ac_enabled = False, ac_error = None, ac_pauses = pause_reset, ac_hooks = [], ac_handled = [], ac_last = [], ac_hits = [],
      ac_passthrough = 0, ac_sites = 0, ac_armed = 0, ac_scan = False, ac_notes = [], ac_text = (0, 0), ac_pid = None,
      ac_bound = False, ac_returns = [], ac_resolutions = [], ac_timebase = (1, 1), ac_frequency = 0\<rparr>"

lemma demo_clock_law: "clock_law demo_lldb demo_clock_env"
  unfolding clock_law_def Let_def
  by (intro conjI demo_laws allI)
    (auto simp: calm_def bp_ids_def demo_lldb_def demo_clock_env_def demo_bind_env_def demo_page_def Let_def demo_bp_def fresh_id_fresh
      split: prod.splits)

lemma demo_clocked_off: "\<not> ac_enabled demo_clocked" "ac_hooks demo_clocked = []" "ac_returns demo_clocked = []" "bp_ids demo_lldb (world demo_clocked) = []"
  by (simp_all add: demo_clocked_def bind_dbg.defs demo_binding_def patch_dbg.defs dbg.defs demo_dbg_def bp_ids_def demo_lldb_def demo_header_def demo_world_def)

lemma demo_refused: "fst (clock_enable demo_lldb demo_clock_env demo_clocked) =
   Inr (False, ''cannot uniquely resolve OS clock entry mach_absolute_time'')"
  by code_simp


end
