(* ===== verification/Sandbox.thy ===== *)
theory Sandbox
  imports CloakHits
begin

text \<open>
  The remaining hooks of \<open>macdbg/core/debugger.py\<close>: breakpoints on inline \<open>svc\<close> instructions, the
  faked \<open>fork\<close> and \<open>setsid\<close>, and the shield around a real \<open>fork\<close>. Enabling a breakpoint and the
  reads below are calls to LLDB, given by \<open>sandbox_env\<close>; resuming the target is an argument.
\<close>

record 'w sandbox_dbg = "'w cloak_dbg" +
  sx_direct :: "int list"
  sx_requested :: bool
  sx_fork :: "int list"
  sx_setsid :: "int list"
  sx_fork_mode :: string
  sx_fork_interactive :: bool
  sx_shield :: int
  sx_saved :: "int list"
  sx_pending :: "string option"
  sx_authorized :: bool

text \<open>
  In the order of the record: enabling a breakpoint; the load address and bytes of the executable's
  \<open>__text\<close> (None: no such module); a memory region (executable, end); the function of the selected
  frame.
\<close>

record 'w sandbox_env =
  sb_enable :: "int \<Rightarrow> bool \<Rightarrow> 'w \<Rightarrow> unit \<times> 'w"
  sb_text :: "'w \<Rightarrow> (addr \<times> bytes) option"
  sb_region :: "'w \<Rightarrow> addr \<Rightarrow> (bool \<times> addr) option"
  sb_function :: "'w \<Rightarrow> string"

section \<open>Inline system calls\<close>

definition SVC :: bytes where "SVC = map val_byte [0x01, 0x10, 0x00, 0xd4]"

fun svc_sites :: "addr \<Rightarrow> bytes \<Rightarrow> addr list" where
  "svc_sites a (b0 # b1 # b2 # b3 # rest) = (if [b0, b1, b2, b3] = SVC then [a] else []) @ svc_sites (a + 4) rest"
| "svc_sites a _ = []"

definition disable_direct_syscall_scan :: "'w lldb \<Rightarrow> (('w, 'z) sandbox_dbg_scheme, bool \<times> string) py" where
  "disable_direct_syscall_scan L =
     seqP (modP (\<lambda>s. s\<lparr>sx_requested := False\<rparr>))
     (bindP (getP (\<lambda>s. (obs_target L (world s), sx_direct s))) (\<lambda>(target, ids).
     if \<not> target \<or> ids = [] then retP (True, ''already disabled'')
     else seqP (delete_each L ids) (seqP (modP (\<lambda>s. s\<lparr>sx_direct := []\<rparr>)) (retP (True, ''direct-syscall scan disabled'')))))"

definition arm_svc :: "'w lldb \<Rightarrow> 'w defense_env \<Rightarrow> addr \<Rightarrow> (('w, 'z) sandbox_dbg_scheme, unit) py" where
  "arm_svc L D a =
     bindP (getP cloak_enabled) (\<lambda>hw.
     bindP (if hw then bindP (create_hardware_at L a) (\<lambda>b. retP (bp_id b)) else onW (de_at D a)) (\<lambda>i.
     modP (\<lambda>s. s\<lparr>sx_direct := sx_direct s @ [i]\<rparr>)))"

definition enable_direct_syscall_scan ::
    "'w lldb \<Rightarrow> 'w defense_env \<Rightarrow> 'w sandbox_env \<Rightarrow> (('w, 'z) sandbox_dbg_scheme, bool \<times> string) py" where
  "enable_direct_syscall_scan L D S =
     bindP (getP (\<lambda>s. (obs_target L (world s), sx_direct s, sb_text S (world s)))) (\<lambda>(target, ids, text).
     if \<not> target then retP (False, ''no target'')
     else if ids \<noteq> [] then retP (True, ''already armed'')
     else case text of None \<Rightarrow> retP (False, ''target executable module not found'')
     | Some (load, code) \<Rightarrow>
        if code = [] then retP (False, ''could not read __text'')
        else if load = 0 \<or> load = 2 ^ 64 - 1
        then retP (False, ''target __text not mapped yet '' @ [other_char] @ '' launch the process first'')
        else on_runtime_error
          (seqP (forP (arm_svc L D) (svc_sites load code))
            (seqP (modP (\<lambda>s. s\<lparr>sx_requested := True\<rparr>))
              (retP (True, ''direct-syscall scan: '' @ py_str (int (length (svc_sites load code))) @
                 '' svc #0x80 site(s) armed in target __text''))))
          (\<lambda>m. seqP (disable_direct_syscall_scan L) (retP (False, m))))"

definition first_address :: "'w lldb \<Rightarrow> 'w \<Rightarrow> int \<Rightarrow> addr" where
  "first_address L w i = (case find_bp L w i of None \<Rightarrow> 2 ^ 64 - 1
     | Some b \<Rightarrow> (case bp_locs b of [] \<Rightarrow> 2 ^ 64 - 1 | l # _ \<Rightarrow> loc_addr l))"

definition arm_sites :: "'w lldb \<Rightarrow> addr list \<Rightarrow> int list \<Rightarrow> (('w, 'z) sandbox_dbg_scheme, int list \<times> exn option) py" where
  "arm_sites L sites created = foldP (\<lambda>a (ids, e). case e of
       Some _ \<Rightarrow> retP (ids, e)
     | None \<Rightarrow> catchP (bindP (create_hardware_at L a) (\<lambda>b. retP (ids @ [bp_id b], None))) (\<lambda>x. retP (ids, Some x)))
     sites (created, None)"

definition scan_live_syscalls :: "'w lldb \<Rightarrow> 'w sandbox_env \<Rightarrow> addr \<Rightarrow> int \<Rightarrow> (('w, 'z) sandbox_dbg_scheme, int) py" where
  "scan_live_syscalls L S address size' =
     seqP (checkP (address mod 4 = 0 \<and> 0 < size' \<and> size' \<le> 1024 * 1024)
       (ValueError ''select an aligned executable range of at most 1 MiB''))
     (bindP (getP (\<lambda>s. sb_region S (world s) address)) (\<lambda>region.
     seqP (checkP (case region of None \<Rightarrow> False | Some (executable, stop) \<Rightarrow> executable \<and> address + size' \<le> stop)
       (ValueError ''the selected range must be inside one executable memory region''))
     (bindP (getP (\<lambda>s. (read_memory L (world s) address (nat size'), map (first_address L (world s)) (sx_direct s)))) (\<lambda>(code, existing).
     seqP (checkP (int (length code) = size') (ValueError ''could not read the complete selected code range''))
     (bindP (arm_sites L (filter (\<lambda>a. a \<notin> set existing) (svc_sites address code)) []) (\<lambda>(created, e). case e of
       Some x \<Rightarrow> seqP (delete_each L created) (raiseP x)
     | None \<Rightarrow>
        seqP (modP (\<lambda>s. s\<lparr>sx_direct := sx_direct s @ created, sx_requested := True\<rparr>))
        (seqP (record_event L ''DEFENSE'' ''scanned live executable memory for inline syscalls''
           [(''pc'', py_str address), (''bytes_scanned'', py_str size'), (''sites'', py_str (int (length created))), (''defense'', ''deny_attach'')])
        (retP (int (length created))))))))))"

definition handle_direct_syscall_hit ::
    "'w lldb \<Rightarrow> 'w defense_env \<Rightarrow> (('w, 'z) sandbox_dbg_scheme, unit) py \<Rightarrow> int \<Rightarrow> (('w, 'z) sandbox_dbg_scheme, string option) py" where
  "handle_direct_syscall_hit L D cont i =
     bindP (getP (\<lambda>s. (i \<in> set (sx_direct s), stop_of L (world s)))) (\<lambda>(ours, here). case here of None \<Rightarrow> retP None
     | Some (t, f) \<Rightarrow> if \<not> ours then retP None
       else (let x16 = reg_unsigned f ''x16''; x0 = reg_unsigned f ''x0''; pc = fr_pc f in
         if x16 = 26 \<and> x0 = 31
         then seqP (onW (de_command D ''register write x0 0''))
           (seqP (onW (de_command D (''register write pc '' @ py_hex (pc + 4))))
           (seqP (record_event L ''DEFENSE'' ''blocked inline PT_DENY_ATTACH''
             [(''defense'', ''deny_attach''), (''original.x16'', ''26''), (''original.x0'', ''31''), (''replacement.x0'', ''0''),
              (''replacement.pc'', py_hex (pc + 4)), (''pc'', py_str pc)])
           (seqP cont (retP (Some (''blocked direct ptrace(PT_DENY_ATTACH) svc at '' @ py_hex pc))))))
         else seqP cont (retP (Some (''direct svc #'' @ py_str x16 @ '' passed (op='' @ py_hex x0 @ '')'')))))"

section \<open>Forks\<close>

definition arm_names :: "'w defense_env \<Rightarrow> string list \<Rightarrow> (('w, 'z) sandbox_dbg_scheme, int list) py" where
  "arm_names D names = foldP (\<lambda>n ids. bindP (onW (de_by_name D n None)) (\<lambda>b.
     retP (case b of None \<Rightarrow> ids | Some i \<Rightarrow> ids @ [i]))) names []"

definition enable_fork_identity :: "'w lldb \<Rightarrow> 'w defense_env \<Rightarrow> (('w, 'z) sandbox_dbg_scheme, bool \<times> string) py" where
  "enable_fork_identity L D =
     bindP (getP (\<lambda>s. (obs_target L (world s), sx_fork s))) (\<lambda>(target, ids).
     if \<not> target then retP (False, ''no target'')
     else if ids \<noteq> [] then seqP (modP (\<lambda>s. s\<lparr>sx_fork_mode := ''identity''\<rparr>)) (retP (True, ''fork identity already armed''))
     else bindP (arm_names D [''fork'', ''vfork'']) (\<lambda>forks.
       bindP (arm_names D [''setsid'']) (\<lambda>sids.
       seqP (modP (\<lambda>s. s\<lparr>sx_fork := sx_fork s @ forks, sx_setsid := sx_setsid s @ sids, sx_fork_mode := ''identity''\<rparr>))
       (retP (True, ''fork identity armed (fork+setsid faked; use direct-syscall scan for inline svc)'')))))"

definition disable_fork_identity :: "'w lldb \<Rightarrow> (('w, 'z) sandbox_dbg_scheme, bool \<times> string) py" where
  "disable_fork_identity L =
     bindP (getP (\<lambda>s. (obs_target L (world s), sx_fork s, sx_setsid s))) (\<lambda>(target, forks, sids).
     if \<not> target then seqP (modP (\<lambda>s. s\<lparr>sx_fork_mode := ''off''\<rparr>)) (retP (True, ''fork identity already off''))
     else seqP (delete_each L forks) (seqP (delete_each L sids)
       (seqP (modP (\<lambda>s. s\<lparr>sx_fork := [], sx_setsid := [], sx_fork_mode := ''off'', sx_fork_interactive := False\<rparr>))
       (retP (True, ''fork identity disabled'')))))"

definition handle_setsid_hit ::
    "'w lldb \<Rightarrow> 'w defense_env \<Rightarrow> (('w, 'z) sandbox_dbg_scheme, unit) py \<Rightarrow> int \<Rightarrow> (('w, 'z) sandbox_dbg_scheme, string option) py" where
  "handle_setsid_hit L D cont i =
     bindP (getP (\<lambda>s. (i \<in> set (sx_setsid s), obs_process L (world s), sx_fork_mode s))) (\<lambda>(ours, proc, mode).
     case proc of None \<Rightarrow> retP None
     | Some p \<Rightarrow> if \<not> ours \<or> mode \<noteq> ''identity'' then retP None
       else (let sid = py_str (if pr_pid p = 0 then 1 else pr_pid p) in
         seqP (onW (de_command D (''thread return '' @ sid)))
         (seqP cont (retP (Some (''identity: setsid() faked, returned '' @ sid @ '' (real call would fail)''))))))"

definition fork_name :: "'w sandbox_env \<Rightarrow> 'w \<Rightarrow> string" where
  "fork_name S w = (if sb_function S w = [] then ''fork'' else sb_function S w)"

definition peek_fork_hit :: "'w lldb \<Rightarrow> 'w sandbox_env \<Rightarrow> int \<Rightarrow> ('w, 'z) sandbox_dbg_scheme \<Rightarrow> string option" where
  "peek_fork_hit L S i s = (case obs_process L (world s) of None \<Rightarrow> None
     | Some p \<Rightarrow> if i \<notin> set (sx_fork s) \<or> selected_thread p = None then None else Some (fork_name S (world s)))"

definition arm_fork_shield :: "'w lldb \<Rightarrow> 'w sandbox_env \<Rightarrow> (('w, 'z) sandbox_dbg_scheme, bool) py" where
  "arm_fork_shield L S =
     bindP (getP (\<lambda>s. (obs_target L (world s), stop_of L (world s), length (obs_breakpoints L (world s))))) (\<lambda>(target, here, n).
     let back = (case here of None \<Rightarrow> 0 | Some (t, f) \<Rightarrow> reg_unsigned f ''lr'') in
     if \<not> target \<or> back = 0 then retP False
     else on_runtime_error
       (bindP (create_hardware_at L back) (\<lambda>b.
        bindP (getP (\<lambda>s. map bp_id (filter bp_enabled (take n (obs_breakpoints L (world s)))))) (\<lambda>saved.
        seqP (forP (\<lambda>i. onW (sb_enable S i False)) saved)
        (seqP (modP (\<lambda>s. s\<lparr>sx_shield := bp_id b, sx_saved := saved\<rparr>)) (retP True)))))
       (\<lambda>m. retP False))"

definition reenable :: "'w lldb \<Rightarrow> 'w sandbox_env \<Rightarrow> int \<Rightarrow> (('w, 'z) sandbox_dbg_scheme, unit) py" where
  "reenable L S i = bindP (getP (\<lambda>s. find_bp L (world s) i)) (\<lambda>b. whenP (b \<noteq> None) (onW (sb_enable S i True)))"

definition finish_fork_shield :: "'w lldb \<Rightarrow> 'w sandbox_env \<Rightarrow> (('w, 'z) sandbox_dbg_scheme, unit) py" where
  "finish_fork_shield L S =
     bindP (getP (\<lambda>s. (obs_target L (world s), sx_shield s, sx_saved s))) (\<lambda>(target, shield, saved).
     seqP (whenP target (seqP (whenP (shield \<noteq> 0) (seqP (delete_breakpoint L shield) (retP ()))) (forP (reenable L S) saved)))
     (modP (\<lambda>s. s\<lparr>sx_shield := 0, sx_saved := []\<rparr>)))"

text \<open>An explicit decision may resume the target although a decision is pending.\<close>

definition resolve_decision :: "(('w, 'z) sandbox_dbg_scheme, 'a) py \<Rightarrow> (('w, 'z) sandbox_dbg_scheme, 'a) py" where
  "resolve_decision action = duringP (\<lambda>b s. s\<lparr>sx_authorized := b\<rparr>) action"

definition require_decision_resolved :: "(('w, 'z) sandbox_dbg_scheme, unit) py" where
  "require_decision_resolved = bindP (getP (\<lambda>s. (sx_pending s, sx_authorized s))) (\<lambda>(kind, authorized).
     case kind of None \<Rightarrow> retP ()
     | Some k \<Rightarrow> checkP (k = [] \<or> authorized) (RuntimeError (''A '' @ k @ '' decision is pending; resolve it before continuing.'')))"

definition resolve_fork_now ::
    "'w lldb \<Rightarrow> 'w defense_env \<Rightarrow> 'w sandbox_env \<Rightarrow> (('w, 'z) sandbox_dbg_scheme, unit) py \<Rightarrow> string \<Rightarrow> (('w, 'z) sandbox_dbg_scheme, unit) py" where
  "resolve_fork_now L D S cont decision =
     bindP (getP (\<lambda>s. obs_process L (world s))) (\<lambda>proc.
     if proc = None then retP ()
     else if decision = ''child'' then
       bindP (onW (de_command D ''thread return 0'')) (\<lambda>(ok, out, err).
       seqP (checkP ok (RuntimeError (''could not enter child path: '' @ (if err = [] then ''return failed'' else err)))) cont)
     else seqP (arm_fork_shield L S) cont)"

definition resolve_fork ::
    "'w lldb \<Rightarrow> 'w defense_env \<Rightarrow> 'w sandbox_env \<Rightarrow> (('w, 'z) sandbox_dbg_scheme, unit) py \<Rightarrow> string \<Rightarrow> (('w, 'z) sandbox_dbg_scheme, unit) py" where
  "resolve_fork L D S cont decision =
     seqP (checkP (decision = ''parent'' \<or> decision = ''child'') (ValueError ''invalid fork decision''))
     (resolve_decision (resolve_fork_now L D S cont decision))"

definition handle_fork_hit ::
    "'w lldb \<Rightarrow> 'w defense_env \<Rightarrow> 'w sandbox_env \<Rightarrow> (('w, 'z) sandbox_dbg_scheme, unit) py \<Rightarrow> int \<Rightarrow> (('w, 'z) sandbox_dbg_scheme, string option) py" where
  "handle_fork_hit L D S cont i =
     bindP (getP (\<lambda>s. (i \<in> set (sx_fork s) \<and> sx_fork_mode s = ''identity'' \<and> \<not> sx_fork_interactive s,
        (case obs_process L (world s) of None \<Rightarrow> None | Some p \<Rightarrow> selected_thread p), fork_name S (world s)))) (\<lambda>(ours, t, name).
     if \<not> ours \<or> t = None then retP None
     else seqP (onW (de_command D ''thread return 0''))
       (seqP cont (retP (Some (''identity: '' @ name @ ''() returned 0, parent takes child code path'')))))"


section \<open>The shield around a real fork\<close>

definition set_enabled :: "int \<Rightarrow> bool \<Rightarrow> breakpoint \<Rightarrow> breakpoint" where
  "set_enabled i on b = (if bp_id b = i then b\<lparr>bp_enabled := on\<rparr> else b)"

text \<open>Enabling a breakpoint changes that and nothing else of the breakpoints.\<close>

definition enable_law :: "'w lldb \<Rightarrow> 'w sandbox_env \<Rightarrow> bool" where
  "enable_law L S = (\<forall>i on w. obs_breakpoints L (snd (sb_enable S i on w)) = map (set_enabled i on) (obs_breakpoints L w) \<and>
     obs_target L (snd (sb_enable S i on w)) = obs_target L w)"

lemma wp_enable_each:
  assumes "enable_law L S"
  shows "wpP (forP (\<lambda>i. onW (sb_enable S i on)) ids) (\<lambda>_ t. \<exists>w. t = s\<lparr>world := w\<rparr> \<and> obs_target L w = obs_target L (world s) \<and>
     obs_breakpoints L w = map (\<lambda>b. if bp_id b \<in> set ids then b\<lparr>bp_enabled := on\<rparr> else b) (obs_breakpoints L (world s))) (\<lambda>_ _. False) s"
proof (induction ids arbitrary: s)
  case Nil
  show ?case by (simp add: wp) (rule exI[of _ "world s"], simp)
next
  case (Cons i ids)
  have e: "obs_breakpoints L (snd (sb_enable S i on (world s))) = map (set_enabled i on) (obs_breakpoints L (world s))"
    "obs_target L (snd (sb_enable S i on (world s))) = obs_target L (world s)"
    using assms unfolding enable_law_def by simp_all
  have m: "(\<lambda>b. if bp_id b \<in> set ids then b\<lparr>bp_enabled := on\<rparr> else b) \<circ> set_enabled i on =
      (\<lambda>b. if bp_id b \<in> set (i # ids) then b\<lparr>bp_enabled := on\<rparr> else b)"
    by (auto simp: set_enabled_def fun_eq_iff)
  show ?case
    using Cons.IH[of "s\<lparr>world := snd (sb_enable S i on (world s))\<rparr>"]
    by (simp add: wp e m del: list.set) 
qed

lemma wp_reenable_each:
  assumes "enable_law L S"
  shows "wpP (forP (reenable L S) ids) (\<lambda>_ t. \<exists>w. t = s\<lparr>world := w\<rparr> \<and> obs_target L w = obs_target L (world s) \<and>
     obs_breakpoints L w = map (\<lambda>b. if bp_id b \<in> set ids then b\<lparr>bp_enabled := True\<rparr> else b) (obs_breakpoints L (world s))) (\<lambda>_ _. False) s"
proof (induction ids arbitrary: s)
  case Nil
  show ?case by (simp add: wp) (rule exI[of _ "world s"], simp)
next
  case (Cons i ids)
  have e: "obs_breakpoints L (snd (sb_enable S i True (world s))) = map (set_enabled i True) (obs_breakpoints L (world s))"
    "obs_target L (snd (sb_enable S i True (world s))) = obs_target L (world s)"
    using assms unfolding enable_law_def by simp_all
  have m: "(\<lambda>b. if bp_id b \<in> set ids then b\<lparr>bp_enabled := True\<rparr> else b) \<circ> set_enabled i True =
      (\<lambda>b. if bp_id b \<in> set (i # ids) then b\<lparr>bp_enabled := True\<rparr> else b)"
    by (auto simp: set_enabled_def fun_eq_iff)
  show ?case
  proof (cases "find_bp L (world s) i")
    case None
    then have n: "map (\<lambda>b. if bp_id b \<in> set ids then b\<lparr>bp_enabled := True\<rparr> else b) (obs_breakpoints L (world s)) =
      map (\<lambda>b. if bp_id b \<in> set (i # ids) then b\<lparr>bp_enabled := True\<rparr> else b) (obs_breakpoints L (world s))"
      by (auto simp: find_None_iff find_bp_def)
    show ?thesis using Cons.IH[of s, unfolded n] None by (simp add: wp reenable_def del: list.set)
  next
    case (Some b)
    then show ?thesis
      using Cons.IH[of "s\<lparr>world := snd (sb_enable S i True (world s))\<rparr>"]
      by (simp add: reenable_def wp e m del: list.set)
  qed
qed

text \<open>Identifiers given to new breakpoints are positive, and the target stays valid.\<close>

definition shield_law :: "'w lldb \<Rightarrow> 'w sandbox_env \<Rightarrow> bool" where
  "shield_law L S = (bp_delete_law L \<and> bp_command_law L \<and> enable_law L S \<and> (\<forall>w. obs_target L w) \<and>
     (\<forall>c w. \<forall>b \<in> set (obs_breakpoints L (snd (do_command L c w))). bp_id b \<in> set (bp_ids L w) \<or> 0 < bp_id b))"

lemma wp_create_positive:
  assumes law: "shield_law L S"
    and Q: "\<And>b w h. obs_breakpoints L w = obs_breakpoints L (world s) @ [b] \<Longrightarrow> bp_id b \<notin> set (bp_ids L (world s)) \<Longrightarrow> 0 < bp_id b \<Longrightarrow>
      Q b (s\<lparr>world := w, hardware_ids := h\<rparr>)"
    and E: "\<And>m w. obs_breakpoints L w = obs_breakpoints L (world s) \<Longrightarrow> E (RuntimeError m) (s\<lparr>world := w\<rparr>)"
  shows "wpP (create_hardware_at L a) Q E s"
proof -
  have laws: "bp_delete_law L" "bp_command_law L" using law by (simp_all add: shield_law_def)
  let ?pos = "\<lambda>w. \<forall>b \<in> set (obs_breakpoints L w). bp_id b \<in> set (bp_ids L (world s)) \<or> 0 < bp_id b"
  have del: "keepsP (\<lambda>u. ?pos (world u)) (onW (do_bp_delete L i))" for i
    unfolding onW_def by (rule keepsP_act) (auto simp: split_beta bp_delete_lawD[OF laws(1)])
  have dels: "keepsP (\<lambda>u. ?pos (world u)) (delete_created L bs)" for bs
    unfolding delete_created_def by (intro keeps del)
  have cmd: "?pos (snd (do_command L c (world s)))" for c
    using law unfolding shield_law_def by blast
  have "wpP (create_hardware_breakpoint L sel True reserve) (\<lambda>_ u. ?pos (world u)) (\<lambda>_ _. True) s" for sel reserve
  proof -
    have first: "wpP (onW (do_command L c)) (\<lambda>_ u. ?pos (world u)) (\<lambda>_ _. True) s" for c by (simp add: wp cmd)
    show ?thesis
      unfolding create_hardware_breakpoint_def
      by (subst wpP_bind(1), subst wpP_simps(3), subst wpP_bind(1))
        (rule wpP_weaken[OF first], rule wpP_weaken[OF keepsP_use[of "\<lambda>u. ?pos (world u)"]], (intro keeps dels | assumption | rule TrueI)+)
  qed
  note pos = this
  have new: "wpP (create_hardware_breakpoint L sel True reserve)
      (\<lambda>b u. \<exists>w. u = s\<lparr>world := w\<rparr> \<and> obs_breakpoints L w = obs_breakpoints L (world s) @ [b] \<and> bp_id b \<notin> set (bp_ids L (world s)))
      (\<lambda>e u. \<exists>m w. e = RuntimeError m \<and> u = s\<lparr>world := w\<rparr> \<and> obs_breakpoints L w = obs_breakpoints L (world s)) s" for sel reserve
    by (rule wp_create_hardware[OF laws]) (auto simp: allocated_def)
  show ?thesis
    unfolding create_hardware_at_def wp
    by (rule wpP_weaken[OF wpP_conj[OF new pos]]) (auto intro!: Q E)
qed

definition shielded :: "breakpoint list \<Rightarrow> breakpoint \<Rightarrow> breakpoint list" where
  "shielded bs b = map (\<lambda>x. x\<lparr>bp_enabled := False\<rparr>) bs @ [b]"

lemma disabled_saved:
  assumes "bp_id b \<notin> bp_id ` set bs" "distinct (map bp_id bs)"
  shows "map (\<lambda>x. if bp_id x \<in> set (map bp_id (filter bp_enabled bs)) then x\<lparr>bp_enabled := False\<rparr> else x) (bs @ [b]) = shielded bs b"
proof -
  have "(if bp_id x \<in> set (map bp_id (filter bp_enabled bs)) then x\<lparr>bp_enabled := False\<rparr> else x) = x\<lparr>bp_enabled := False\<rparr>" if "x \<in> set bs" for x
    using that by (cases "bp_enabled x") auto
  then show ?thesis using assms(1) by (auto simp: shielded_def image_iff)
qed

lemma reenabled:
  assumes "bp_id b \<notin> bp_id ` set bs" "distinct (map bp_id bs)"
  shows "map (\<lambda>x. if bp_id x \<in> set (map bp_id (filter bp_enabled bs)) then x\<lparr>bp_enabled := True\<rparr> else x)
     (filter (\<lambda>x. bp_id x \<noteq> bp_id b) (shielded bs b)) = bs"
proof -
  have f: "filter (\<lambda>x. bp_id x \<noteq> bp_id b) (shielded bs b) = map (\<lambda>x. x\<lparr>bp_enabled := False\<rparr>) bs"
    using assms(1) by (auto simp: shielded_def filter_id_conv image_iff)
  have "(if bp_id x \<in> set (map bp_id (filter bp_enabled bs)) then x\<lparr>bp_enabled := True\<rparr> else x\<lparr>bp_enabled := False\<rparr>) = x" if "x \<in> set bs" for x
  proof (cases "bp_enabled x")
    case False
    have "bp_id x \<notin> set (map bp_id (filter bp_enabled bs))"
      using assms(2) that False by (auto simp: distinct_map inj_on_def)
    then show ?thesis using False by simp
  qed (use that in auto)
  then show ?thesis unfolding f by (simp add: map_idI cong: if_cong)
qed

lemma wp_arm_shield:
  assumes law: "shield_law L S" and ids: "distinct (bp_ids L (world s))"
  shows "wpP (arm_fork_shield L S)
    (\<lambda>r t. if r then \<exists>b. bp_id b \<notin> set (bp_ids L (world s)) \<and> 0 < bp_id b \<and> sx_shield t = bp_id b \<and>
        sx_saved t = map bp_id (filter bp_enabled (obs_breakpoints L (world s))) \<and>
        obs_breakpoints L (world t) = shielded (obs_breakpoints L (world s)) b
      else obs_breakpoints L (world t) = obs_breakpoints L (world s)) (\<lambda>_ _. False) s"
proof -
  let ?bs = "obs_breakpoints L (world s)"
  let ?n = "length ?bs"
  have enable: "enable_law L S" using law by (simp add: shield_law_def)
  have dist: "distinct (map bp_id ?bs)" using ids by (simp add: bp_ids_def)
  have lift: "wpP (forP (\<lambda>i. onW (sb_enable S i False)) (map bp_id (filter bp_enabled ?bs)))
      (\<lambda>_ t. obs_breakpoints L (world t) = shielded ?bs b) (\<lambda>_ _. False) u"
    if "obs_breakpoints L (world u) = ?bs @ [b]" "bp_id b \<notin> set (bp_ids L (world s))" for u b
    by (rule wpP_weaken[OF wp_enable_each[OF enable]])
      (use that disabled_saved[OF _ dist] in \<open>auto simp: bp_ids_def simp del: map_append\<close>)
  have "wpP (bindP (create_hardware_at L a) (\<lambda>b.
        bindP (getP (\<lambda>s. map bp_id (filter bp_enabled (take ?n (obs_breakpoints L (world s)))))) (\<lambda>saved.
        seqP (forP (\<lambda>i. onW (sb_enable S i False)) saved)
        (seqP (modP (\<lambda>s. s\<lparr>sx_shield := bp_id b, sx_saved := saved\<rparr>)) (retP True)))))
     (\<lambda>r t. r \<and> (\<exists>b. bp_id b \<notin> set (bp_ids L (world s)) \<and> 0 < bp_id b \<and> sx_shield t = bp_id b \<and>
        sx_saved t = map bp_id (filter bp_enabled ?bs) \<and> obs_breakpoints L (world t) = shielded ?bs b))
     (\<lambda>e t. (\<exists>m. e = RuntimeError m) \<and> obs_breakpoints L (world t) = ?bs) s" for a
    unfolding wp
    by (rule wp_create_positive[OF law]) (auto intro!: wpP_weaken[OF lift])
  note armed = this
  show ?thesis
    unfolding arm_fork_shield_def on_runtime_error_def wpP_bind(1)[of "getP _"] wpP_simps(3) Let_def
    by (auto simp: wpP_simps wpP_bind(3) intro!: wpP_weaken[OF armed])
qed

lemma wp_finish_shield:
  assumes law: "shield_law L S" and t: "0 < sx_shield t"
  shows "wpP (finish_fork_shield L S) (\<lambda>_ u. obs_breakpoints L (world u) =
      map (\<lambda>x. if bp_id x \<in> set (sx_saved t) then x\<lparr>bp_enabled := True\<rparr> else x)
        (filter (\<lambda>x. bp_id x \<noteq> sx_shield t) (obs_breakpoints L (world t)))) (\<lambda>_ _. False) t"
proof -
  have laws: "bp_delete_law L" "enable_law L S" "\<And>w. obs_target L w" using law by (simp_all add: shield_law_def)
  have each: "wpP (forP (reenable L S) ids) (\<lambda>_ v. obs_breakpoints L (world v) =
      map (\<lambda>x. if bp_id x \<in> set ids then x\<lparr>bp_enabled := True\<rparr> else x) (obs_breakpoints L (world u))) (\<lambda>_ _. False) u" for ids u
    by (rule wpP_weaken[OF wp_reenable_each[OF laws(2)]]) auto
  show ?thesis
    unfolding finish_fork_shield_def
    using t by (auto simp: wp laws(3) Let_def bp_delete_lawD[OF laws(1)] split_beta simp del: forP.simps intro!: wpP_weaken[OF each])
qed

text \<open>
  C31. The shield around a real fork is undone. While it stands every breakpoint there was is
  disabled, so that the child inherits none, and one new hardware breakpoint waits for the parent;
  lifting it enables exactly the breakpoints that were enabled and removes that one. A shield that
  cannot be armed changes no breakpoint.
\<close>

theorem fork_shield_restores:
  assumes law: "shield_law L S" and ids: "distinct (bp_ids L (world s))"
  shows "case arm_fork_shield L S s of
      (Inr True, t) \<Rightarrow> (\<exists>b. bp_id b = sx_shield t \<and> bp_id b \<notin> set (bp_ids L (world s)) \<and>
          obs_breakpoints L (world t) = shielded (obs_breakpoints L (world s)) b) \<and>
        fst (finish_fork_shield L S t) = Inr () \<and>
        obs_breakpoints L (world (snd (finish_fork_shield L S t))) = obs_breakpoints L (world s)
    | (Inr False, t) \<Rightarrow> obs_breakpoints L (world t) = obs_breakpoints L (world s)
    | (Inl e, t) \<Rightarrow> False"
proof -
  obtain r t where arm: "arm_fork_shield L S s = (r, t)" by force
  show ?thesis
  proof (cases r)
    case (Inl e)
    then show ?thesis using wp_arm_shield[OF assms] arm by (simp add: wpP_def)
  next
    case (Inr ok)
    note out = wpP_D[OF wp_arm_shield[OF assms] arm[unfolded Inr]]
    show ?thesis
    proof (cases ok)
      case True
      with out obtain b where b: "bp_id b \<notin> set (bp_ids L (world s))" "0 < bp_id b" "sx_shield t = bp_id b"
        "sx_saved t = map bp_id (filter bp_enabled (obs_breakpoints L (world s)))"
        "obs_breakpoints L (world t) = shielded (obs_breakpoints L (world s)) b" by auto
      have "map (\<lambda>x. if bp_id x \<in> set (sx_saved t) then x\<lparr>bp_enabled := True\<rparr> else x)
        (filter (\<lambda>x. bp_id x \<noteq> sx_shield t) (obs_breakpoints L (world t))) = obs_breakpoints L (world s)"
        unfolding b(3-5) by (rule reenabled) (use b(1) ids in \<open>simp_all add: bp_ids_def\<close>)
      moreover obtain q u where f: "finish_fork_shield L S t = (q, u)" by force
      ultimately show ?thesis
        using wp_finish_shield[OF law, of t] b arm Inr True by (cases q) (auto simp: wpP_def)
    next
      case False
      then show ?thesis using out arm Inr by simp
    qed
  qed
qed

text \<open>
  With the cloak on the parent's decision cannot be carried out: the shield has just disabled the
  hooks the check before every resume requires.
\<close>

lemma parent_fork_refused:
  assumes law: "shield_law L S" and ids: "distinct (bp_ids L (world s))"
    and required: "ck_required s = (i, name) # others" "find_bp L (world s) i \<noteq> None"
    and arm: "arm_fork_shield L S s = (Inr True, t)"
    and kept: "cloak_enabled t" "ck_required t = ck_required s" "df_error t = None"
  shows "\<exists>m u. validate_resume L C t = (Inr (False, m), u)"
proof -
  have "\<exists>b. obs_breakpoints L (world t) = shielded (obs_breakpoints L (world s)) b"
    using wpP_D[OF wp_arm_shield[OF law ids] arm] by auto
  then obtain b where b: "obs_breakpoints L (world t) = shielded (obs_breakpoints L (world s)) b" by blast
  obtain x where x: "find (\<lambda>b. bp_id b = i) (obs_breakpoints L (world s)) = Some x" using required(2) by (auto simp: find_bp_def)
  have f: "find (\<lambda>b. bp_id b = i) (map (\<lambda>x. x\<lparr>bp_enabled := False\<rparr>) bs @ cs) = Some (x\<lparr>bp_enabled := False\<rparr>)"
    if "find (\<lambda>b. bp_id b = i) bs = Some x" for bs cs
    using that by (induction bs) (auto split: if_splits)
  have "hook_failure L C (world t) (i, name) \<noteq> None"
    using f[OF x] by (simp add: hook_failure_def find_bp_def b shielded_def Let_def)
  then have "first_failure L C (world t) (ck_required t) \<noteq> None"
    using kept(2) required(1) by (auto split: option.splits)
  then have "required_failure L C t \<noteq> None" by (auto simp: required_failure_def split: option.splits)
  moreover have "first_failure L C (world t) hs \<noteq> Some []" for hs by (induction hs) (auto split: option.splits)
  then have "required_failure L C t \<noteq> Some []" by (auto simp: required_failure_def split: option.splits)
  ultimately show ?thesis using kept
    by (auto simp: validate_resume_def validate_required_hooks_def run crit_def critical_def split: option.splits)
qed

section \<open>A parent across its fork\<close>

definition demo_sandbox_env :: "demo_world sandbox_env" where
  "demo_sandbox_env = \<lparr>sb_enable = (\<lambda>i on w. ((), w\<lparr>dw_bps := map (set_enabled i on) (dw_bps w)\<rparr>)),
     sb_text = (\<lambda>w. None), sb_region = (\<lambda>w a. None), sb_function = (\<lambda>w. ''fork'')\<rparr>"

definition demo_forking :: "demo_world sandbox_dbg" where
  "demo_forking = cloak_dbg.extend (demo_cloak (demo_world\<lparr>dw_bps := [demo_bp 1 0x1000, (demo_bp 2 0x1004)\<lparr>bp_enabled := False\<rparr>],
       dw_process := Some \<lparr>pr_pid = 1, pr_uid = 1, pr_stop = 1, pr_stopped = True, pr_threads =
         [\<lparr>th_id = 7, th_reason = SrBreakpoint, th_data = [1, 1], th_description = [],
           th_frames = [\<lparr>fr_pc = 0x1000, fr_regs = [(''lr'', 0x2000)]\<rparr>]\<rparr>], pr_selected = 7\<rparr>\<rparr>))
     \<lparr>sx_direct = [], sx_requested = False, sx_fork = [1], sx_setsid = [], sx_fork_mode = ''identity'', sx_fork_interactive = True,
      sx_shield = 0, sx_saved = [], sx_pending = None, sx_authorized = False\<rparr>"

lemma demo_shield_law: "shield_law demo_lldb demo_sandbox_env"
proof -
  have "0 < fresh_id bs" for bs
  proof -
    have "0 \<le> foldr max (map bp_id bs) 0" by (induction bs) auto
    then show ?thesis by (simp add: fresh_id_def)
  qed
  then show ?thesis
    unfolding shield_law_def
    by (intro conjI demo_laws)
      (auto simp: enable_law_def demo_sandbox_env_def demo_lldb_def bp_ids_def demo_bp_def split: option.splits)
qed

definition demo_before :: "breakpoint list" where
  "demo_before = [demo_bp 1 0x1000, (demo_bp 2 0x1004)\<lparr>bp_enabled := False\<rparr>]"

lemma demo_bps: "dw_bps (world demo_forking) = demo_before"
  by (simp add: demo_forking_def demo_before_def cloak_dbg.defs demo_cloak_def defense_dbg.defs demo_defenses_def dbg.defs demo_dbg_def)

lemma demo_cmd: "do_command demo_lldb (''breakpoint set -H '' @ ''-a '' @ py_hex a) w =
    ((True, []), w\<lparr>dw_bps := dw_bps w @ [demo_bp (fresh_id (dw_bps w)) a]\<rparr>)"
proof -
  have "py_int 16 (drop (length ''breakpoint set -H -a '') (''breakpoint set -H '' @ ''-a '' @ py_hex a)) = Some a"
    by (simp add: py_int_py_hex)
  then show ?thesis by (simp add: demo_lldb_def del: append_Cons append.simps)
qed

lemma demo_fresh: "fresh_id demo_before = 3" by (simp add: fresh_id_def demo_before_def demo_bp_def)

lemma demo_shield_checked: "checked_allocation demo_lldb 0 (demo_bp 3 0x2000) (world demo_forking\<lparr>dw_bps := demo_before @ [demo_bp 3 0x2000]\<rparr>) = Inr ()"
  by code_simp

lemma demo_forking_stop: "obs_target demo_lldb (world demo_forking)"
  "(case stop_of demo_lldb (world demo_forking) of None \<Rightarrow> 0 | Some (t, f) \<Rightarrow> reg_unsigned f ''lr'') = 0x2000"
  "step_reserve demo_forking = 0"
  by code_simp+

lemma demo_created: "create_hardware_at demo_lldb 0x2000 demo_forking = (Inr (demo_bp 3 0x2000),
    demo_forking\<lparr>world := world demo_forking\<lparr>dw_bps := demo_before @ [demo_bp 3 0x2000]\<rparr>, hardware_ids := insert 3 (hardware_ids demo_forking)\<rparr>)"
proof -
  have ids: "bp_ids demo_lldb (world demo_forking) = [1, 2]"
    by (simp add: bp_ids_def demo_lldb_def demo_bps demo_before_def demo_bp_def)
  have obs: "obs_breakpoints demo_lldb w = dw_bps w" for w by (simp add: demo_lldb_def)
  have ok: "allocated_ok True True [demo_bp 3 0x2000]" by code_simp
  have new: "filter (\<lambda>b. bp_id b \<noteq> 1 \<and> bp_id b \<noteq> 2) (demo_before @ [demo_bp 3 0x2000]) = [demo_bp 3 0x2000]"
    by (simp add: demo_before_def demo_bp_def)
  show ?thesis
    by (simp add: create_hardware_at_def create_hardware_breakpoint_def run onW_def demo_forking_stop(3) ids obs demo_cmd demo_bps
      demo_fresh new ok demo_shield_checked del: append_Cons append.simps filter.simps filter_append)
      (simp add: demo_bp_def)
qed

lemma demo_shield: "fst (arm_fork_shield demo_lldb demo_sandbox_env demo_forking) = Inr True"
proof -
  have f: "\<exists>u. forP (\<lambda>i. onW (sb_enable demo_sandbox_env i False)) ids t = (Inr (), u)" for ids and t :: "demo_world sandbox_dbg"
    by (induction ids arbitrary: t) (simp_all add: run onW_def demo_sandbox_env_def)
  define t where "t = snd (create_hardware_at demo_lldb 0x2000 demo_forking)"
  have c: "create_hardware_at demo_lldb 0x2000 demo_forking = (Inr (demo_bp 3 0x2000), t)"
    by (simp add: t_def demo_created)
  obtain u where u: "forP (\<lambda>i. onW (sb_enable demo_sandbox_env i False))
      (map bp_id (filter bp_enabled (take (length (obs_breakpoints demo_lldb (world demo_forking))) (obs_breakpoints demo_lldb (world t))))) t = (Inr (), u)"
    using f by blast
  show ?thesis
    by (simp add: arm_fork_shield_def run on_runtime_error_def demo_forking_stop Let_def c u del: forP.simps)
qed

lemma fork_shield_restores_witness:
  "distinct (bp_ids demo_lldb (world demo_forking)) \<and> (case arm_fork_shield demo_lldb demo_sandbox_env demo_forking of (r, t) \<Rightarrow>
     r = Inr True \<and> obs_breakpoints demo_lldb (world (snd (finish_fork_shield demo_lldb demo_sandbox_env t))) =
       obs_breakpoints demo_lldb (world demo_forking))"
proof -
  have d: "distinct (bp_ids demo_lldb (world demo_forking))"
    by (simp add: bp_ids_def demo_lldb_def demo_bps demo_before_def demo_bp_def)
  obtain r t where a: "arm_fork_shield demo_lldb demo_sandbox_env demo_forking = (r, t)" by force
  then have "r = Inr True" using demo_shield by simp
  then show ?thesis using fork_shield_restores[OF demo_shield_law d] a d by auto
qed

end
