(* ===== verification/ScriptExec.thy ===== *)
theory ScriptExec
  imports ScriptPayload PatchExport Timing
begin

unbundle bit_operations_syntax

text \<open>
  \<open>macdbg/core/script_exec.py\<close>: the gate in front of calls that run an OSA script. A thread that
  stops at the first instruction of such a call waits for a decision; a refused call is returned
  from by writing its result, \<open>x0\<close> and the program counter, each verified, and undone when a step
  fails. The readable view of a payload (\<open>readable\<close>) and its hash are arguments.
\<close>

section \<open>The calls\<close>

text \<open>Name, the argument in \<open>x1\<close>, the registers of the flags and of the output, its kind.\<close>

definition OSA_CALLS :: "(string \<times> string \<times> string \<times> string \<times> string) list" where
  "OSA_CALLS =
    [(''OSAExecute'', ''script_id'', ''x3'', ''x4'', ''id''),
     (''OSAExecuteEvent'', ''event_descriptor'', ''x3'', ''x4'', ''id''),
     (''OSALoadExecute'', ''script_descriptor'', ''x3'', ''x4'', ''id''),
     (''OSACompileExecute'', ''source_descriptor'', ''x3'', ''x4'', ''id''),
     (''OSADoScript'', ''source_descriptor'', ''x4'', ''x5'', ''descriptor''),
     (''OSADoEvent'', ''event_descriptor'', ''x3'', ''x4'', ''descriptor''),
     (''OSADoScriptFile'', ''file_reference'', ''x4'', ''x5'', ''descriptor'')]"

definition osa_name :: "string \<Rightarrow> bool" where
  "osa_name name = (map_of OSA_CALLS name \<noteq> None)"

record osa_content =
  oc_text :: string
  oc_kind :: string
  oc_note :: string

record osa_view =
  ov_text :: string
  ov_kind :: string
  ov_note :: string
  ov_truncated :: bool

definition PREVIEW_CHARS :: nat where "PREVIEW_CHARS = 256 * 1024"

definition content_preview :: "osa_content \<Rightarrow> osa_view" where
  "content_preview c = \<lparr>ov_text = take PREVIEW_CHARS (oc_text c), ov_kind = oc_kind c, ov_note = oc_note c,
     ov_truncated = (PREVIEW_CHARS < length (oc_text c))\<rparr>"

text \<open>\<open>ScriptPayload.summary\<close>: kind, bytes, hash and origin.\<close>

definition payload_summary :: "(bytes \<Rightarrow> string) \<Rightarrow> payload \<Rightarrow> string \<times> int \<times> string \<times> string" where
  "payload_summary sha p = ((case map_of TYPES (pl_type p) of None \<Rightarrow> [] | Some (kind, _) \<Rightarrow> kind),
     int (length (pl_data p)), sha (pl_data p), pl_origin p)"

record osa_capture =
  oa_sym :: string
  oa_cmd :: string
  oa_view :: osa_view
  oa_metadata :: "(string, string) odict"
  oa_captured :: "(string \<times> int \<times> string \<times> string) option"
  oa_bytes :: "int option"

text \<open>Process, stop, thread and program counter.\<close>

type_synonym osa_key = "int \<times> int \<times> int \<times> addr"

record osa_pending =
  op_key :: osa_key
  op_capture :: osa_capture
  op_content :: osa_content
  op_output :: int
  op_kind :: string
  op_payload :: "payload option"
  op_error :: "string option"
  op_dump :: "(string, string) odict"

record 'w osa_dbg = "'w payload_dbg" +
  os_hooks :: "(int, string) odict"
  os_pending :: "osa_pending option"
  os_allowed :: "osa_key list"
  os_error :: "string option"

record osa_env =
  oe_readable :: "payload \<Rightarrow> osa_content"
  oe_sha :: "bytes \<Rightarrow> string"

definition osa_reset :: "'w lldb \<Rightarrow> bool \<Rightarrow> (('w, 'z) osa_dbg_scheme, unit) py" where
  "osa_reset L keep_hooks = seqP (sp_reset L keep_hooks)
     (modP (\<lambda>s. s\<lparr>os_pending := None, os_allowed := [], os_error := None\<rparr>))"

definition osa_thread_key :: "process \<Rightarrow> thread \<Rightarrow> osa_key" where
  "osa_thread_key p t = (pr_pid p, pr_stop p, th_id t, fr_pc (top_frame t))"

definition osa_breakpoint_ids :: "('w, 'z) osa_dbg_scheme \<Rightarrow> int set" where
  "osa_breakpoint_ids s = {i. \<exists>name. (i, name) \<in> set (os_hooks s) \<and> osa_name name} \<union> sp_hidden s"

section \<open>Finding a stopped call\<close>

fun osa_sites :: "'w lldb \<Rightarrow> 'w \<Rightarrow> (int, string) odict \<Rightarrow> (addr, int) odict \<Rightarrow> (addr, int) odict res" where
  "osa_sites L w [] sites = Inr sites"
| "osa_sites L w ((i, name) # hooks) sites = (if \<not> osa_name name then osa_sites L w hooks sites
     else (let lost = Inl (RuntimeError ''required OSA execution hook is missing or disabled'') in
       case find_bp L w i of None \<Rightarrow> lost
       | Some b \<Rightarrow> if \<not> bp_enabled b then lost
           else osa_sites L w hooks (fold (\<lambda>l. od_set (loc_addr l) i)
             (filter (\<lambda>l. loc_enabled l \<and> loc_resolved l) (bp_locs b)) sites)))"

definition osa_reason :: "stop_reason \<Rightarrow> bool" where
  "osa_reason r = (r \<in> {SrNone, SrInvalid, SrBreakpoint, SrPlanComplete})"

definition osa_waits :: "process \<Rightarrow> osa_key list \<Rightarrow> (addr, int) odict \<Rightarrow> thread \<Rightarrow> bool" where
  "osa_waits p allowed sites t = (osa_reason (th_reason t) \<and>
     (case th_pc t of None \<Rightarrow> False | Some a \<Rightarrow> map_of sites a \<noteq> None) \<and> osa_thread_key p t \<notin> set allowed)"

definition osa_find_hit :: "'w lldb \<Rightarrow> 'w payload_env \<Rightarrow> (('w, 'z) osa_dbg_scheme, int option) py" where
  "osa_find_hit L V =
     bindP (getP (\<lambda>s. (os_hooks s, obs_process L (world s)))) (\<lambda>(hooks, proc). case proc of None \<Rightarrow> retP None
     | Some p \<Rightarrow> if hooks = [] \<or> \<not> pr_stopped p then retP None
       else seqP (modP (\<lambda>s. s\<lparr>os_allowed := filter (\<lambda>(pid, stop, _). pid = pr_pid p \<and> stop = pr_stop p) (os_allowed s)\<rparr>))
         (bindP (getP (\<lambda>s. (world s, os_allowed s))) (\<lambda>(w, allowed).
          bindP (liftP (osa_sites L w hooks [])) (\<lambda>sites.
          case find (osa_waits p allowed sites) (pr_threads p) of None \<Rightarrow> retP None
          | Some t \<Rightarrow> seqP (onW (se_select V (th_id t))) (retP (map_of sites (fr_pc (top_frame t))))))))"

section \<open>Capturing its arguments\<close>

definition osa_reg :: "frame \<Rightarrow> string \<Rightarrow> int res" where
  "osa_reg f r = (case fr_reg f r of Some v \<Rightarrow> Inr v
     | None \<Rightarrow> Inl (RuntimeError (''cannot read OSA argument register '' @ r)))"

definition osa_regP :: "frame \<Rightarrow> string \<Rightarrow> ('s, int) py" where
  "osa_regP f r = liftP (osa_reg f r)"

text \<open>\<open>_validate_pending\<close>: the thread is where it was when its arguments were captured.\<close>

definition osa_validate_pending :: "'w lldb \<Rightarrow> 'w payload_env \<Rightarrow> (('w, 'z) osa_dbg_scheme, osa_pending \<times> thread) py" where
  "osa_validate_pending L V =
     bindP (getP (\<lambda>s. (os_pending s, obs_process L (world s)))) (\<lambda>(pending, proc).
     case pending of None \<Rightarrow> raiseP (RuntimeError ''no pending OSA execution decision'')
     | Some q \<Rightarrow> (let changed = raiseP (RuntimeError ''OSA execution context changed; restart or inspect the target'') in
        case proc of None \<Rightarrow> changed
        | Some p \<Rightarrow> (case find (\<lambda>t. th_id t = fst (snd (snd (op_key q)))) (pr_threads p) of None \<Rightarrow> changed
           | Some t \<Rightarrow> if osa_thread_key p t \<noteq> op_key q then changed
               else seqP (onW (se_select V (th_id t))) (retP (q, t)))))"

definition osa_metadata :: "frame \<Rightarrow> string \<times> string \<times> string \<times> string \<Rightarrow> (string, string) odict res" where
  "osa_metadata f = (\<lambda>(argument, flags, output, kind).
     bindR (osa_reg f ''x0'') (\<lambda>component.
     bindR (osa_reg f ''x1'') (\<lambda>x1.
     bindR (osa_reg f ''x2'') (\<lambda>context_id.
     bindR (osa_reg f flags) (\<lambda>mode.
     bindR (osa_reg f output) (\<lambda>result.
       Inr [(''component'', py_hex component), (argument, py_hex x1), (''context_id'', py_hex (context_id AND 0xffffffff)),
         (''mode_flags'', py_hex (mode AND 0xffffffff)), (''result_pointer'', py_hex result), (''result_kind'', kind)]))))))"

definition osa_description :: "osa_view \<Rightarrow> string" where
  "osa_description v = ov_note v @ (if ov_text v = [] then [] else [newline, newline] @ ov_text v) @
     (if ov_truncated v then newline # ''[Preview truncated; Dump saves the full captured content.]'' else [])"

definition osa_capture_new ::
    "'w lldb \<Rightarrow> osa_env \<Rightarrow> string \<Rightarrow> string \<times> string \<times> string \<times> string \<Rightarrow> process \<Rightarrow> thread \<Rightarrow>
     (('w, 'z) osa_dbg_scheme, osa_capture) py" where
  "osa_capture_new L K name call p t = (let f = top_frame t; (argument, flags, output, kind) = call in
     bindP (liftP (osa_metadata f call)) (\<lambda>info.
     bindP (for_execution L name f) (\<lambda>payload.
     bindP (getP sp_problem) (\<lambda>problem.
     let content = (case payload of Some y \<Rightarrow> oe_readable K y
           | None \<Rightarrow> \<lparr>oc_text = [], oc_kind = ''unavailable'', oc_note = ''Payload unavailable: '' @ problem @ ''.''\<rparr>);
         view = content_preview content;
         cap = \<lparr>oa_sym = name, oa_cmd = osa_description view, oa_view = view, oa_metadata = info,
           oa_captured = map_option (payload_summary (oe_sha K)) payload,
           oa_bytes = map_option (\<lambda>y. int (length (pl_data y))) payload\<rparr> in
     bindP (osa_regP f output) (\<lambda>result.
     seqP (modP (\<lambda>s. s\<lparr>os_pending := Some \<lparr>op_key = osa_thread_key p t, op_capture = cap, op_content = content,
         op_output = result, op_kind = kind, op_payload = payload,
         op_error = (if payload = None then Some problem else None), op_dump = []\<rparr>\<rparr>))
     (retP cap))))))"

definition osa_capture :: "'w lldb \<Rightarrow> 'w payload_env \<Rightarrow> osa_env \<Rightarrow> int \<Rightarrow> (('w, 'z) osa_dbg_scheme, osa_capture) py" where
  "osa_capture L V K i =
     bindP (getP (\<lambda>s. (map_of (os_hooks s) i, os_pending s, obs_process L (world s)))) (\<lambda>(name, pending, proc).
     case name of None \<Rightarrow> raiseP (KeyError (py_str i))
     | Some n \<Rightarrow> (case pending of Some q \<Rightarrow> bindP (osa_validate_pending L V) (\<lambda>_. retP (op_capture q))
        | None \<Rightarrow> (case (proc, map_of OSA_CALLS n) of
            (Some p, Some call) \<Rightarrow> (case selected_thread p of
               None \<Rightarrow> raiseP (RuntimeError ''cannot read OSA argument register x0'')
             | Some t \<Rightarrow> osa_capture_new L K n call p t)
          | (None, _) \<Rightarrow> raiseP (PyError ''AttributeError'' '''')
          | (_, None) \<Rightarrow> raiseP (KeyError n))))"

definition osa_prompt_details ::
    "'w lldb \<Rightarrow> 'w payload_env \<Rightarrow> (('w, 'z) osa_dbg_scheme, osa_view \<times> (string, string) odict \<times> (string, string) odict) py" where
  "osa_prompt_details L V = bindP (osa_validate_pending L V) (\<lambda>(q, _).
     retP (oa_view (op_capture q), oa_metadata (op_capture q), op_dump q))"

definition osa_payload_for_dump :: "'w lldb \<Rightarrow> 'w payload_env \<Rightarrow> (('w, 'z) osa_dbg_scheme, payload) py" where
  "osa_payload_for_dump L V = bindP (osa_validate_pending L V) (\<lambda>(q, _). case op_payload q of
     Some y \<Rightarrow> retP y
   | None \<Rightarrow> raiseP (RuntimeError (''No captured script payload: '' @ (case op_error q of None \<Rightarrow> ''None'' | Some m \<Rightarrow> m) @
       ''. Only observed script inputs can be dumped; no metadata file was written.'')))"

section \<open>Deciding\<close>

definition osa_fail :: "string \<Rightarrow> bool \<Rightarrow> (('w, 'z) osa_dbg_scheme, 'a) py" where
  "osa_fail what rolled = (let m = what @ (if rolled then [] else ''; rollback failed'') in
     seqP (modP (\<lambda>s. s\<lparr>os_error := Some m\<rparr>)) (raiseP (RuntimeError m)))"

text \<open>The empty result: a zero id, or a descriptor of type \<open>null\<close> without data.\<close>

definition osa_empty :: "string \<Rightarrow> bytes" where
  "osa_empty kind = (if kind = ''id'' then replicate 4 (val_byte 0) else int_le 4 0x6e756c6c @ replicate 8 (val_byte 0))"

definition osa_write_result :: "'w lldb \<Rightarrow> osa_pending \<Rightarrow> (('w, 'z) osa_dbg_scheme, bytes) py" where
  "osa_write_result L q = (let data = osa_empty (op_kind q); output = op_output q in
     bindP (getP (\<lambda>s. if output = 0 then [] else read_memory L (world s) output (length data))) (\<lambda>previous.
     seqP (checkP (length previous = length data) (RuntimeError ''cannot preserve OSA output; execution remains stopped''))
     (bindP (write_untracked L output data) (\<lambda>(ok, error).
      if ok then retP previous
      else bindP (write_untracked L output previous) (\<lambda>(restored, _).
        osa_fail (''cannot write OSA empty result: '' @ error) restored)))))"

definition osa_value :: "string \<Rightarrow> int" where
  "osa_value decision = (if decision = ''fake'' then 0 else 2 ^ 64 - 128)"

definition live_regP :: "'w lldb \<Rightarrow> int \<Rightarrow> string \<Rightarrow> (('w, 'z) osa_dbg_scheme, int) py" where
  "live_regP L tid r = bindP (getP (\<lambda>s. thread_reg L tid r (world s))) (\<lambda>v. case v of Some x \<Rightarrow> retP x
     | None \<Rightarrow> raiseP (RuntimeError (''cannot read OSA argument register '' @ r)))"

text \<open>The four conditions of the return, each tried only when the ones before it held.\<close>

definition osa_return :: "'w lldb \<Rightarrow> int \<Rightarrow> int \<Rightarrow> addr \<Rightarrow> (('w, 'z) osa_dbg_scheme, bool) py" where
  "osa_return L tid value caller =
     bindP (onW (do_set_reg L tid ''x0'' (py_hex value))) (\<lambda>err. if err \<noteq> None then retP False
     else bindP (live_regP L tid ''x0'') (\<lambda>now. if now \<noteq> value then retP False
     else bindP (onW (do_set_pc L tid caller)) (\<lambda>moved. if \<not> moved then retP False
     else getP (\<lambda>s. thread_pc L tid (world s) = Some caller))))"

definition osa_undo :: "'w lldb \<Rightarrow> int \<Rightarrow> int \<Rightarrow> addr \<Rightarrow> (addr \<times> bytes) option \<Rightarrow> (('w, 'z) osa_dbg_scheme, bool) py" where
  "osa_undo L tid result pc previous =
     bindP (onW (do_set_reg L tid ''x0'' (py_hex result))) (\<lambda>err.
     bindP (onW (do_set_pc L tid pc)) (\<lambda>moved.
     case previous of None \<Rightarrow> retP (moved \<and> err = None)
     | Some (output, data) \<Rightarrow> bindP (write_untracked L output data) (\<lambda>(ok, _). retP (ok \<and> moved \<and> err = None))))"

text \<open>What remains of a refusal once the arguments of the call are known.\<close>

definition osa_refuse :: "'w lldb \<Rightarrow> string \<Rightarrow> osa_pending \<Rightarrow> int \<Rightarrow> int \<Rightarrow> addr \<Rightarrow> addr \<Rightarrow> (('w, 'z) osa_dbg_scheme, unit) py" where
  "osa_refuse L decision q tid result pc caller =
     bindP (if decision = ''fake'' then bindP (osa_write_result L q) (\<lambda>old. retP (Some (op_output q, old))) else retP None) (\<lambda>previous.
        bindP (osa_return L tid (osa_value decision) caller) (\<lambda>returned.
        if \<not> returned
        then bindP (osa_undo L tid result pc previous) (osa_fail ''cannot return from OSA execution gate'')
        else modP (\<lambda>s. s\<lparr>os_pending := None\<rparr>)))"

definition osa_resolve :: "'w lldb \<Rightarrow> 'w payload_env \<Rightarrow> string \<Rightarrow> (('w, 'z) osa_dbg_scheme, unit) py" where
  "osa_resolve L V decision = bindP (osa_validate_pending L V) (\<lambda>(q, t).
     let f = top_frame t; tid = th_id t; pc = fr_pc f in
     if decision = ''allow'' then modP (\<lambda>s. s\<lparr>os_allowed := List.insert (op_key q) (os_allowed s), os_pending := None\<rparr>)
     else bindP (osa_regP f ''x0'') (\<lambda>result.
       bindP (osa_regP f ''lr'') (\<lambda>caller.
       bindP (getP (\<lambda>s. length (read_memory L (world s) caller 4))) (\<lambda>there.
       seqP (checkP (caller \<noteq> 0 \<and> caller mod 4 = 0 \<and> there = 4) (RuntimeError ''cannot validate OSA return address''))
       (osa_refuse L decision q tid result pc caller)))))"

definition osa_require_ready :: "'w lldb \<Rightarrow> 'w payload_env \<Rightarrow> (('w, 'z) osa_dbg_scheme, unit) py" where
  "osa_require_ready L V = bindP (getP (\<lambda>s. (os_error s, os_pending s))) (\<lambda>(error, pending).
     let waiting = RuntimeError ''OSA execution requires an exec sandbox decision before resuming'' in
     seqP (case error of None \<Rightarrow> retP () | Some m \<Rightarrow> checkP (m = []) (RuntimeError m))
     (seqP (checkP (pending = None) waiting)
     (bindP (osa_find_hit L V) (\<lambda>hit. checkP (hit = None) waiting))))"


section \<open>A decision is carried out or undone\<close>

text \<open>
  What LLDB promises of the two registers: writing one leaves the other, memory and the selection
  of threads alone, a write reported as done is done, and a readable register stays readable.
\<close>

definition same_core :: "'w lldb \<Rightarrow> ('w \<Rightarrow> addr \<Rightarrow> char) \<Rightarrow> int \<Rightarrow> 'w \<Rightarrow> 'w \<Rightarrow> bool" where
  "same_core L mem tid w w' = (mem w' = mem w \<and> thread_reg L tid ''x0'' w' = thread_reg L tid ''x0'' w \<and>
     thread_pc L tid w' = thread_pc L tid w)"

definition osa_law :: "'w lldb \<Rightarrow> 'w payload_env \<Rightarrow> ('w \<Rightarrow> addr \<Rightarrow> char) \<Rightarrow> bool" where
  "osa_law L V mem = (mem_law L mem \<and>
     (\<forall>i w tid. same_core L mem tid w (snd (se_select V i w))) \<and>
     (\<forall>tid v w. let w' = snd (do_set_reg L tid ''x0'' v w) in
        mem w' = mem w \<and> thread_pc L tid w' = thread_pc L tid w \<and>
        (thread_reg L tid ''x0'' w \<noteq> None \<longrightarrow> thread_reg L tid ''x0'' w' \<noteq> None)) \<and>
     (\<forall>tid n w. 0 \<le> n \<longrightarrow> fst (do_set_reg L tid ''x0'' (py_hex n) w) = None \<longrightarrow>
        thread_reg L tid ''x0'' (snd (do_set_reg L tid ''x0'' (py_hex n) w)) = Some n) \<and>
     (\<forall>tid a w. let w' = snd (do_set_pc L tid a w) in
        mem w' = mem w \<and> thread_reg L tid ''x0'' w' = thread_reg L tid ''x0'' w \<and>
        (fst (do_set_pc L tid a w) \<longrightarrow> thread_pc L tid w' = Some a)))"

lemma osa_lawD:
  assumes "osa_law L V mem"
  shows "mem_law L mem" "same_core L mem tid w (snd (se_select V i w))"
    "mem (snd (do_set_reg L tid ''x0'' v w)) = mem w"
    "thread_pc L tid (snd (do_set_reg L tid ''x0'' v w)) = thread_pc L tid w"
    "thread_reg L tid ''x0'' w \<noteq> None \<Longrightarrow> thread_reg L tid ''x0'' (snd (do_set_reg L tid ''x0'' v w)) \<noteq> None"
    "0 \<le> n \<Longrightarrow> fst (do_set_reg L tid ''x0'' (py_hex n) w) = None \<Longrightarrow>
       thread_reg L tid ''x0'' (snd (do_set_reg L tid ''x0'' (py_hex n) w)) = Some n"
    "mem (snd (do_set_pc L tid a w)) = mem w"
    "thread_reg L tid ''x0'' (snd (do_set_pc L tid a w)) = thread_reg L tid ''x0'' w"
    "fst (do_set_pc L tid a w) \<Longrightarrow> thread_pc L tid (snd (do_set_pc L tid a w)) = Some a"
  using assms unfolding osa_law_def Let_def by blast+

lemma same_core_refl [simp]: "same_core L mem tid w w" by (simp add: same_core_def)

lemma same_core_trans: "same_core L mem tid u v \<Longrightarrow> same_core L mem tid v w \<Longrightarrow> same_core L mem tid u w"
  by (simp add: same_core_def)

lemma same_process: "obs_process L w' = obs_process L w \<Longrightarrow> thread_reg L tid r w' = thread_reg L tid r w \<and> thread_pc L tid w' = thread_pc L tid w"
  by (simp add: thread_reg_def thread_pc_def thread_of_def)

definition mem_put :: "('w \<Rightarrow> addr \<Rightarrow> char) \<Rightarrow> addr \<Rightarrow> bytes \<Rightarrow> 'w \<Rightarrow> 'w \<Rightarrow> bool" where
  "mem_put mem a d w w' = ((\<forall>x. \<not> (a \<le> x \<and> x < a + int (length d)) \<longrightarrow> mem w' x = mem w x) \<and>
     (\<forall>i < length d. mem w' (a + int i) = d ! i))"

text \<open>Putting back what was read restores memory.\<close>

lemma put_back:
  assumes "mem_law L mem" "read_memory L w a (length d) = d"
    and "\<forall>x. \<not> (a \<le> x \<and> x < a + int (length d)) \<longrightarrow> mem v x = mem w x" "mem_put mem a d v v'"
  shows "mem v' = mem w"
proof
  fix x
  show "mem v' x = mem w x"
  proof (cases "a \<le> x \<and> x < a + int (length d)")
    case True
    then have i: "nat (x - a) < length d" "a + int (nat (x - a)) = x" by auto
    then have "mem v' x = d ! nat (x - a)" using assms(4) unfolding mem_put_def by metis
    also have "\<dots> = mem w x" using read_memory_full[OF assms(1,2) refl i(1)] i(2) by simp
    finally show ?thesis .
  next
    case False
    then show ?thesis using assms(3,4) by (simp add: mem_put_def)
  qed
qed

text \<open>The outcome of a step that may fail: on failure everything is as it was, or the message says so.\<close>

definition osa_undone :: "'w lldb \<Rightarrow> ('w \<Rightarrow> addr \<Rightarrow> char) \<Rightarrow> int \<Rightarrow> ('w, 'z) osa_dbg_scheme \<Rightarrow> exn \<Rightarrow> ('w, 'z) osa_dbg_scheme \<Rightarrow> bool" where
  "osa_undone L mem tid s e t = (os_pending t = os_pending s \<and> os_allowed t = os_allowed s \<and>
     (\<exists>m. e = RuntimeError m \<and> (ends_with m ''; rollback failed'' \<or> same_core L mem tid (world s) (world t))))"

lemma wp_osa_fail:
  assumes "os_pending u = os_pending s" "os_allowed u = os_allowed s" "rolled \<Longrightarrow> same_core L mem tid (world s) (world u)"
  shows "wpP (osa_fail what rolled) Q (osa_undone L mem tid s) u"
proof -
  have "ends_with (what @ ''; rollback failed'') ''; rollback failed''" by (simp add: ends_with_def starts_with_def)
  then show ?thesis using assms
    by (cases rolled) (simp_all add: osa_fail_def wp Let_def osa_undone_def del: append.simps append_Cons)
qed

lemma wp_osa_undo:
  assumes law: "osa_law L V mem" and result: "thread_reg L tid ''x0'' w = Some result" "0 \<le> result"
    and pc: "thread_pc L tid w = Some pc"
    and now: "case previous of None \<Rightarrow> mem (world u) = mem w
       | Some (a, d) \<Rightarrow> read_memory L w a (length d) = d \<and> (\<forall>x. \<not> (a \<le> x \<and> x < a + int (length d)) \<longrightarrow> mem (world u) x = mem w x)"
  shows "wpP (osa_undo L tid result pc previous)
     (\<lambda>ok t. (\<exists>v. t = u\<lparr>world := v\<rparr>) \<and> (ok \<longrightarrow> same_core L mem tid w (world t))) E u"
proof -
  let ?r = "do_set_reg L tid ''x0'' (py_hex result) (world u)"
  let ?p = "do_set_pc L tid pc (snd ?r)"
  have m: "mem (snd ?p) = mem (world u)" using osa_lawD(3,7)[OF law] by simp
  have regs: "thread_reg L tid ''x0'' (snd ?p) = Some result \<and> thread_pc L tid (snd ?p) = Some pc" if "fst ?r = None" "fst ?p"
    using that osa_lawD(6)[OF law result(2)] osa_lawD(8,9)[OF law] by metis
  show ?thesis
  proof (cases previous)
    case None
    then show ?thesis using now m regs result(1) pc by (auto simp: osa_undo_def wp same_core_def)
  next
    case (Some ad)
    obtain a d where ad: "ad = (a, d)" by force
    have "wpP (write_untracked L a d) (\<lambda>x t. (\<exists>v. t = u\<lparr>world := v\<rparr>) \<and>
        (fst x \<and> fst ?p \<and> fst ?r = None \<longrightarrow> same_core L mem tid w (world t))) E (u\<lparr>world := snd ?p\<rparr>)"
    proof (rule wpP_weaken[OF wp_write_untracked[OF osa_lawD(1)[OF law]]], goal_cases)
      case (1 x t)
      then obtain v where v: "t = u\<lparr>world := v\<rparr>" "obs_process L v = obs_process L (snd ?p)"
        "\<forall>x. \<not> (a \<le> x \<and> x < a + int (length d)) \<longrightarrow> mem v x = mem (world u) x"
        "fst x \<longrightarrow> (\<forall>i < length d. mem v (a + int i) = d ! i)"
        using m by auto
      have "same_core L mem tid w v" if "fst x" "fst ?p" "fst ?r = None"
      proof -
        have "mem v = mem w"
          by (rule put_back[OF osa_lawD(1)[OF law], of w a d "world u"]) (use now Some ad v that in \<open>auto simp: mem_put_def\<close>)
        then show ?thesis using same_process[OF v(2)] regs that result(1) pc by (simp add: same_core_def)
      qed
      then show ?case using v(1) by auto
    qed auto
    from wpP_weaken[OF this] show ?thesis by (simp add: osa_undo_def wp Some ad split_beta)
  qed
qed

lemma wp_osa_return:
  assumes law: "osa_law L V mem" and x0: "thread_reg L tid ''x0'' (world u) \<noteq> None" and pc: "thread_pc L tid (world u) = Some pc"
  shows "wpP (osa_return L tid value caller)
     (\<lambda>ok t. (\<exists>v. t = u\<lparr>world := v\<rparr>) \<and> mem (world t) = mem (world u) \<and>
        (ok \<longrightarrow> thread_reg L tid ''x0'' (world t) = Some value \<and> thread_pc L tid (world t) = Some caller)) (\<lambda>_ _. False) u"
proof -
  obtain y where "thread_reg L tid ''x0'' (snd (do_set_reg L tid ''x0'' (py_hex value) (world u))) = Some y"
    using osa_lawD(5)[OF law x0] by blast
  then show ?thesis using osa_lawD(3,7,8)[OF law]
    by (auto simp: osa_return_def live_regP_def wp)
qed

lemma wp_osa_write_result:
  assumes law: "osa_law L V mem" and cap: "os_pending s = os_pending u" "os_allowed s = os_allowed u" "same_core L mem tid (world s) (world u)"
  shows "wpP (osa_write_result L q)
     (\<lambda>old t. (\<exists>v. t = u\<lparr>world := v\<rparr>) \<and> length old = length (osa_empty (op_kind q)) \<and>
        read_memory L (world u) (op_output q) (length old) = old \<and> obs_process L (world t) = obs_process L (world u) \<and>
        mem_put mem (op_output q) (osa_empty (op_kind q)) (world u) (world t))
     (osa_undone L mem tid s) u"
proof -
  define data where "data = osa_empty (op_kind q)"
  define a where "a = op_output q"
  define old where "old = (if a = 0 then [] else read_memory L (world u) a (length data))"
  have l: "0 < length data" by (simp add: data_def osa_empty_def)
  have ml: "mem_law L mem" by (rule osa_lawD(1)[OF law])
  have revert: "wpP (write_untracked L a old) (\<lambda>x. wpP (osa_fail m (fst x)) Q (osa_undone L mem tid s)) E t"
    if prev: "length old = length data" "read_memory L (world u) a (length old) = old"
    and there: "t = u\<lparr>world := w\<rparr>" "obs_process L w = obs_process L (world u)"
      "\<forall>x. \<not> (a \<le> x \<and> x < a + int (length data)) \<longrightarrow> mem w x = mem (world u) x" for m t w Q E
  proof (rule wpP_weaken[OF wp_write_untracked[OF ml]], goal_cases)
    case (1 x t')
    then obtain v where v: "t' = u\<lparr>world := v\<rparr>" "obs_process L v = obs_process L (world u)"
      "\<forall>x. \<not> (a \<le> x \<and> x < a + int (length old)) \<longrightarrow> mem v x = mem w x" "fst x \<longrightarrow> (\<forall>i < length old. mem v (a + int i) = old ! i)"
      using there by auto
    have "same_core L mem tid (world s) v" if "fst x"
    proof -
      have "mem v = mem (world u)" by (rule put_back[OF ml prev(2), of w]) (use there prev v that in \<open>auto simp: mem_put_def\<close>)
      then show ?thesis using cap(3) same_process[OF v(2)] by (simp add: same_core_def)
    qed
    then show ?case by (intro wp_osa_fail) (use cap v(1) in auto)
  qed simp
  show ?thesis
  proof (cases "length old = length data")
    case False
    then show ?thesis using cap unfolding osa_write_result_def Let_def wp data_def[symmetric] a_def[symmetric] old_def[symmetric]
      by (simp add: osa_undone_def)
  next
    case True
    then have rd: "read_memory L (world u) a (length old) = old" using l by (auto simp: old_def split: if_splits)
    have "wpP (bindP (write_untracked L a data) (\<lambda>(ok, error). if ok then retP old
        else bindP (write_untracked L a old) (\<lambda>(restored, _). osa_fail (''cannot write OSA empty result: '' @ error) restored)))
      (\<lambda>old t. (\<exists>v. t = u\<lparr>world := v\<rparr>) \<and> length old = length data \<and> read_memory L (world u) a (length old) = old \<and>
        obs_process L (world t) = obs_process L (world u) \<and> mem_put mem a data (world u) (world t))
      (osa_undone L mem tid s) u"
      unfolding wpP_bind
    proof (rule wpP_weaken[OF wp_write_untracked[OF ml]], goal_cases)
      case (1 x t)
      then obtain w where w: "t = u\<lparr>world := w\<rparr>" "obs_process L w = obs_process L (world u)"
        "\<forall>x. \<not> (a \<le> x \<and> x < a + int (length data)) \<longrightarrow> mem w x = mem (world u) x"
        "fst x \<longrightarrow> (\<forall>i < length data. mem w (a + int i) = data ! i)" by auto
      show ?case
      proof (cases "fst x")
        case True
        then show ?thesis using w rd \<open>length old = length data\<close> by (auto simp: split_beta wp mem_put_def)
      next
        case False
        then show ?thesis
          using revert[OF True rd w(1-3)] by (simp add: split_beta wp del: append_Cons append.simps)
      qed
    qed simp
    then show ?thesis unfolding osa_write_result_def Let_def data_def[symmetric] a_def[symmetric]
      by (simp only: wpP_bind(1)[of "getP _"] wpP_bind(2)[of "checkP _ _"] wpP_simps old_def[symmetric] True if_True simp_thms)
  qed
qed

lemma wp_osa_refuse:
  fixes s u :: "('w, 'z) osa_dbg_scheme" and q :: osa_pending
  assumes law: "osa_law L V mem" and result: "thread_reg L tid ''x0'' (world u) = Some result" "0 \<le> result"
    and pc: "thread_pc L tid (world u) = Some pc"
    and cap: "os_pending s = os_pending u" "os_allowed s = os_allowed u" "same_core L mem tid (world s) (world u)"
  shows "wpP (osa_refuse L decision q tid result pc caller)
     (\<lambda>_ t. os_pending t = None \<and> thread_reg L tid ''x0'' (world t) = Some (osa_value decision) \<and> thread_pc L tid (world t) = Some caller \<and>
        (if decision = ''fake'' then mem_put mem (op_output q) (osa_empty (op_kind q)) (world u) (world t) else mem (world t) = mem (world u)))
     (osa_undone L mem tid s) u"
proof -
  define G where "G = (\<lambda>(t :: ('w, 'z) osa_dbg_scheme). if decision = ''fake'' then mem_put mem (op_output q) (osa_empty (op_kind q)) (world u) (world t) else mem (world t) = mem (world u))"
  define prev where "prev = (\<lambda>previous (v :: ('w, 'z) osa_dbg_scheme). case previous of None \<Rightarrow> mem (world v) = mem (world u)
       | Some (a, d) \<Rightarrow> read_memory L (world u) a (length d) = d \<and> (\<forall>x. \<not> (a \<le> x \<and> x < a + int (length d)) \<longrightarrow> mem (world v) x = mem (world u) x))"
  define K where "K = (\<lambda>previous. bindP (osa_return L tid (osa_value decision) caller) (\<lambda>returned.
        if \<not> returned
        then bindP (osa_undo L tid result pc previous) (osa_fail ''cannot return from OSA execution gate'')
        else modP (\<lambda>s :: ('w, 'z) osa_dbg_scheme. s\<lparr>os_pending := None\<rparr>)))"
  define P where "P = (\<lambda>(_ :: unit) (t :: ('w, 'z) osa_dbg_scheme). os_pending t = None \<and> thread_reg L tid ''x0'' (world t) = Some (osa_value decision) \<and>
     thread_pc L tid (world t) = Some caller \<and> G t)"
  have rest: "wpP (K previous) P (osa_undone L mem tid s) v"
    if v: "\<exists>w. v = u\<lparr>world := w\<rparr>" "prev previous v" "G v"
      "thread_reg L tid ''x0'' (world v) = Some result" "thread_pc L tid (world v) = Some pc" for previous v
  proof -
    have r: "wpP (osa_return L tid (osa_value decision) caller)
     (\<lambda>ok t. (\<exists>w. t = v\<lparr>world := w\<rparr>) \<and> mem (world t) = mem (world v) \<and>
        (ok \<longrightarrow> thread_reg L tid ''x0'' (world t) = Some (osa_value decision) \<and> thread_pc L tid (world t) = Some caller)) (\<lambda>_ _. False) v"
      by (rule wp_osa_return[OF law]) (use v in auto)
    show ?thesis unfolding K_def wpP_bind
    proof (rule wpP_weaken[OF r], goal_cases)
      case (1 ok t)
      show ?case
      proof (cases ok)
        case True
        then show ?thesis using 1 v(3) by (auto simp: wp P_def G_def mem_put_def)
      next
        case False
        have "wpP (osa_undo L tid result pc previous)
          (\<lambda>ok t'. (\<exists>v. t' = t\<lparr>world := v\<rparr>) \<and> (ok \<longrightarrow> same_core L mem tid (world u) (world t'))) (osa_undone L mem tid s) t"
          by (rule wp_osa_undo[OF law result pc]) (use v(2) 1 in \<open>auto simp: prev_def split: option.splits\<close>)
        then have "wpP (osa_undo L tid result pc previous) (\<lambda>ok. wpP (osa_fail ''cannot return from OSA execution gate'' ok) Q
            (osa_undone L mem tid s)) (osa_undone L mem tid s) t" for Q
          by (rule wpP_weaken) (use v(1) 1 cap in \<open>auto intro!: wp_osa_fail intro: same_core_trans\<close>)
        then show ?thesis using False by (simp add: wp)
      qed
    qed simp
  qed
  have shape: "osa_refuse L decision q tid result pc caller =
      bindP (if decision = ''fake'' then bindP (osa_write_result L q) (\<lambda>old. retP (Some (op_output q, old))) else retP None) K"
    by (simp add: osa_refuse_def K_def)
  have goal: "wpP (osa_refuse L decision q tid result pc caller) P (osa_undone L mem tid s) u"
  proof (cases "decision = ''fake''")
    case True
    have "wpP (osa_write_result L q) (\<lambda>old. wpP (K (Some (op_output q, old))) P (osa_undone L mem tid s)) (osa_undone L mem tid s) u"
    proof (rule wpP_weaken[OF wp_osa_write_result[OF law cap]], goal_cases)
      case (1 old t)
      have same: "obs_process L (world t) = obs_process L (world u)" using 1 by blast
      show ?case
      proof (rule rest)
        show "\<exists>w. t = u\<lparr>world := w\<rparr>" using 1 by blast
        have l: "length old = length (osa_empty (op_kind q))" "read_memory L (world u) (op_output q) (length old) = old"
          "mem_put mem (op_output q) (osa_empty (op_kind q)) (world u) (world t)" using 1 by blast+
        show "prev (Some (op_output q, old)) t" using l(1,3) unfolding prev_def option.case prod.case mem_put_def l(2) by simp
        show "G t" using l(3) True by (simp add: G_def)
        show "thread_reg L tid ''x0'' (world t) = Some result" "thread_pc L tid (world t) = Some pc"
          using same_process[OF same, of tid "''x0''"] result(1) pc by simp_all
      qed
    qed
    then show ?thesis unfolding shape if_P[OF True] wpP_bind(1) wpP_simps(1) .
  next
    case False
    have "wpP (K None) P (osa_undone L mem tid s) u"
      by (rule rest) (use False result(1) pc in \<open>auto simp: prev_def G_def intro: exI[of _ "world u"]\<close>)
    then show ?thesis unfolding shape if_not_P[OF False] wpP_bind(1) wpP_simps(1) .
  qed
  then show ?thesis unfolding P_def G_def .
qed

text \<open>
  C32. A decision on a stopped script call is carried out or undone. Afterwards either no decision is
  pending, and a refused call stands at its caller with its result in \<open>x0\<close> (a faked one with the
  empty result in memory, and nothing else changed there); or the decision is still pending, and
  memory, \<open>x0\<close> and the program counter are what they were unless the error says the rollback failed.
\<close>

theorem osa_resolve_atomic:
  fixes s :: "('w, 'z) osa_dbg_scheme"
  assumes law: "osa_law L V mem" and q: "os_pending s = Some q" and tid: "tid = fst (snd (snd (op_key q)))"
    and x0: "case thread_reg L tid ''x0'' (world s) of None \<Rightarrow> True | Some v \<Rightarrow> 0 \<le> v"
  shows "case osa_resolve L V decision s of
      (Inr _, t) \<Rightarrow> os_pending t = None \<and>
        (if decision = ''allow'' then op_key q \<in> set (os_allowed t) \<and> same_core L mem tid (world s) (world t)
         else thread_reg L tid ''x0'' (world t) = Some (osa_value decision) \<and>
           thread_pc L tid (world t) = thread_reg L tid ''lr'' (world s) \<and>
           (if decision = ''fake'' then mem_put mem (op_output q) (osa_empty (op_kind q)) (world s) (world t)
            else mem (world t) = mem (world s)))
    | (Inl e, t) \<Rightarrow> osa_undone L mem tid s e t"
proof -
  define Q where "Q = (\<lambda>(_ :: unit) (t :: ('w, 'z) osa_dbg_scheme). os_pending t = None \<and>
        (if decision = ''allow'' then op_key q \<in> set (os_allowed t) \<and> same_core L mem tid (world s) (world t)
         else thread_reg L tid ''x0'' (world t) = Some (osa_value decision) \<and>
           thread_pc L tid (world t) = thread_reg L tid ''lr'' (world s) \<and>
           (if decision = ''fake'' then mem_put mem (op_output q) (osa_empty (op_kind q)) (world s) (world t)
            else mem (world t) = mem (world s))))"
  have refused: "osa_undone L mem tid s (RuntimeError m) s" for m by (simp add: osa_undone_def)
  have "wpP (osa_resolve L V decision) Q (osa_undone L mem tid s) s"
  proof (cases "\<exists>p t. obs_process L (world s) = Some p \<and> find (\<lambda>t. th_id t = tid) (pr_threads p) = Some t \<and> osa_thread_key p t = op_key q")
    case False
    then show ?thesis using q refused
      by (auto simp: osa_resolve_def osa_validate_pending_def wp Let_def tid split: option.splits)
  next
    case True
    then obtain p t where p: "obs_process L (world s) = Some p" "find (\<lambda>t. th_id t = tid) (pr_threads p) = Some t"
      "osa_thread_key p t = op_key q" by blast
    define u where "u = s\<lparr>world := snd (se_select V (th_id t) (world s))\<rparr>"
    have id: "th_id t = tid" using p(2) by (auto simp: find_Some_iff)
    have u: "same_core L mem tid (world s) (world u)" "os_pending u = os_pending s" "os_allowed u = os_allowed s"
      using osa_lawD(2)[OF law] by (simp_all add: u_def)
    have fail: "osa_undone L mem tid s (RuntimeError m) u" for m using u by (simp add: osa_undone_def)
    have step: "wpP (osa_resolve L V decision) Q (osa_undone L mem tid s) s =
      (if decision = ''allow'' then Q () (u\<lparr>os_allowed := List.insert (op_key q) (os_allowed u), os_pending := None\<rparr>)
       else case (osa_reg (top_frame t) ''x0'', osa_reg (top_frame t) ''lr'') of
         (Inl e, _) \<Rightarrow> osa_undone L mem tid s e u | (_, Inl e) \<Rightarrow> osa_undone L mem tid s e u
       | (Inr result, Inr caller) \<Rightarrow>
           if caller \<noteq> 0 \<and> caller mod 4 = 0 \<and> length (read_memory L (world u) caller 4) = 4
           then wpP (osa_refuse L decision q tid result (fr_pc (top_frame t)) caller) Q (osa_undone L mem tid s) u
           else osa_undone L mem tid s (RuntimeError ''cannot validate OSA return address'') u)"
      using q p id by (simp add: osa_resolve_def osa_validate_pending_def osa_regP_def wp Let_def tid u_def split: sum.splits)
    have regs: "thread_reg L tid r (world s) = fr_reg (top_frame t) r" for r
      using p(1,2) by (simp add: thread_reg_def thread_of_def top_frame_def fr_reg_def split: option.splits)
    have pc: "thread_pc L tid (world s) = Some (fr_pc (top_frame t))" if "fr_reg (top_frame t) r \<noteq> None" for r
      using p(1,2) that by (auto simp: thread_pc_def thread_of_def top_frame_def th_pc_def fr_reg_def split: option.splits)
    show ?thesis
    proof (cases "decision = ''allow''")
      case True
      then show ?thesis unfolding step using u by (auto simp: Q_def)
    next
      case False
      have "wpP (osa_refuse L decision q tid result (fr_pc (top_frame t)) caller) Q (osa_undone L mem tid s) u"
        if r: "osa_reg (top_frame t) ''x0'' = Inr result" "osa_reg (top_frame t) ''lr'' = Inr caller" for result caller
      proof (rule wpP_weaken[OF wp_osa_refuse[OF law _ _ _ u(2)[symmetric] u(3)[symmetric] u(1)]])
        have v: "fr_reg (top_frame t) ''x0'' = Some result" "fr_reg (top_frame t) ''lr'' = Some caller"
          using r by (auto simp: osa_reg_def split: option.splits)
        show "thread_reg L tid ''x0'' (world u) = Some result" "0 \<le> result" "thread_pc L tid (world u) = Some (fr_pc (top_frame t))"
          using v x0 u(1) pc regs by (auto simp: same_core_def)
        show "Q x t'" if "os_pending t' = None \<and> thread_reg L tid ''x0'' (world t') = Some (osa_value decision) \<and>
          thread_pc L tid (world t') = Some caller \<and>
          (if decision = ''fake'' then mem_put mem (op_output q) (osa_empty (op_kind q)) (world u) (world t') else mem (world t') = mem (world u))" for x t'
          using that False u(1) v regs by (auto simp: Q_def same_core_def mem_put_def)
      qed
      then show ?thesis unfolding step using False fail by (auto simp: osa_reg_def split: option.splits)
    qed
  qed
  then show ?thesis by (simp add: wpP_def Q_def split: prod.splits sum.splits)
qed


section \<open>A debugger with registers\<close>

definition on_thread :: "int \<Rightarrow> (frame \<Rightarrow> frame) \<Rightarrow> process \<Rightarrow> process" where
  "on_thread tid f p = p\<lparr>pr_threads := map (\<lambda>t. if th_id t = tid
     then t\<lparr>th_frames := (case th_frames t of [] \<Rightarrow> [] | fr # fs \<Rightarrow> f fr # fs)\<rparr> else t) (pr_threads p)\<rparr>"

definition framed :: "int \<Rightarrow> demo_world \<Rightarrow> bool" where
  "framed tid w = (thread_pc demo_lldb tid w \<noteq> None)"

definition on_frame :: "int \<Rightarrow> (frame \<Rightarrow> frame) \<Rightarrow> demo_world \<Rightarrow> demo_world" where
  "on_frame tid f w = w\<lparr>dw_process := map_option (on_thread tid f) (dw_process w)\<rparr>"

definition demo_regs :: "demo_world lldb" where
  "demo_regs = demo_lldb\<lparr>
     do_set_pc := (\<lambda>tid a w. (framed tid w, on_frame tid (\<lambda>f. f\<lparr>fr_pc := a\<rparr>) w)),
     do_set_reg := (\<lambda>tid r v w. case py_int 16 v of None \<Rightarrow> (Some ''invalid value'', w)
       | Some n \<Rightarrow> (if framed tid w then None else Some ''no frame'', on_frame tid (\<lambda>f. f\<lparr>fr_regs := od_set r n (fr_regs f)\<rparr>) w))\<rparr>"

definition demo_select :: "demo_world payload_env" where
  "demo_select = \<lparr>se_hardware = (\<lambda>w a. False), se_software = (\<lambda>a w. (None, w)), se_select = (\<lambda>i w. ((), w))\<rparr>"

lemma demo_regs_obs: "obs_process demo_regs = dw_process" "obs_read demo_regs = obs_read demo_lldb"
  "do_write demo_regs = do_write demo_lldb"
  by (simp_all add: demo_regs_def demo_lldb_def)

lemma on_frame_simps [simp]: "demo_mem_at (on_frame tid f w) = demo_mem_at w" "dw_mem (on_frame tid f w) = dw_mem w"
  by (simp_all add: on_frame_def demo_mem_at_def fun_eq_iff)

lemma on_frame_thread: "thread_of demo_regs tid (on_frame tid f w) =
    map_option (\<lambda>t. t\<lparr>th_frames := (case th_frames t of [] \<Rightarrow> [] | fr # fs \<Rightarrow> f fr # fs)\<rparr>) (thread_of demo_regs tid w)"
proof -
  have "find (\<lambda>t. th_id t = tid) (map (\<lambda>t. if th_id t = tid then t\<lparr>th_frames := g t\<rparr> else t) ts) =
      map_option (\<lambda>t. t\<lparr>th_frames := g t\<rparr>) (find (\<lambda>t. th_id t = tid) ts)" for ts :: "thread list" and g
    by (induction ts) auto
  then show ?thesis by (simp add: thread_of_def demo_regs_obs on_frame_def on_thread_def split: option.splits)
qed

lemma on_frame_obs:
  "thread_reg demo_regs tid r (on_frame tid f w) = (case thread_of demo_regs tid w of None \<Rightarrow> None
     | Some t \<Rightarrow> (case th_frame t of None \<Rightarrow> None | Some g \<Rightarrow> fr_reg (f g) r))"
  "thread_pc demo_regs tid (on_frame tid f w) = (case thread_of demo_regs tid w of None \<Rightarrow> None
     | Some t \<Rightarrow> (case th_frame t of None \<Rightarrow> None | Some g \<Rightarrow> Some (fr_pc (f g))))"
  by (auto simp: thread_reg_def thread_pc_def on_frame_thread th_frame_def th_pc_def split: option.splits list.splits)

lemma framed_iff: "framed tid w = (case thread_of demo_regs tid w of None \<Rightarrow> False | Some t \<Rightarrow> th_frame t \<noteq> None)"
  by (auto simp: framed_def thread_pc_def thread_of_def demo_regs_obs th_pc_def demo_lldb_def split: option.splits)

lemma on_frame_other:
  "thread_pc demo_regs tid (on_frame tid (\<lambda>f. f\<lparr>fr_regs := g f\<rparr>) w) = thread_pc demo_regs tid w"
  "thread_reg demo_regs tid r (on_frame tid (\<lambda>f. f\<lparr>fr_pc := a\<rparr>) w) = thread_reg demo_regs tid r w"
  "framed tid w \<Longrightarrow> thread_pc demo_regs tid (on_frame tid (\<lambda>f. f\<lparr>fr_pc := a\<rparr>) w) = Some a"
  unfolding on_frame_obs framed_iff by (auto simp: thread_pc_def thread_reg_def th_pc_def fr_reg_def split: option.splits)

lemma demo_osa_law: "osa_law demo_regs demo_select demo_mem_at"
proof -
  have m: "mem_law demo_regs demo_mem_at"
    using demo_mem_law unfolding mem_law_def demo_regs_obs by (simp add: demo_lldb_def)
  have r: "fst (do_set_reg demo_regs tid r v w) = (case py_int 16 v of None \<Rightarrow> Some ''invalid value''
      | Some n \<Rightarrow> if framed tid w then None else Some ''no frame'')"
    "snd (do_set_reg demo_regs tid r v w) = (case py_int 16 v of None \<Rightarrow> w
      | Some n \<Rightarrow> on_frame tid (\<lambda>f. f\<lparr>fr_regs := od_set r n (fr_regs f)\<rparr>) w)" for tid r v w
    by (simp_all add: demo_regs_def split: option.splits)
  have p: "do_set_pc demo_regs tid a w = (framed tid w, on_frame tid (\<lambda>f. f\<lparr>fr_pc := a\<rparr>) w)" for tid a w
    by (simp add: demo_regs_def)
  show ?thesis unfolding osa_law_def Let_def
  proof (intro conjI allI impI m, goal_cases)
    case (4 tid v w)
    then obtain t g where "thread_of demo_regs tid w = Some t" "th_frame t = Some g" "fr_reg g ''x0'' \<noteq> None"
      by (auto simp: thread_reg_def split: option.splits)
    with 4 show ?case by (auto simp: r on_frame_obs fr_reg_def od_get_set split: option.splits)
  next
    case (5 tid n w)
    then show ?case by (auto simp: r py_int_py_hex on_frame_obs framed_iff fr_reg_def od_get_set split: option.splits if_splits)
  qed (auto simp: demo_select_def r p on_frame_other split: option.splits)
qed

definition demo_osa :: "demo_world osa_dbg" where
  "demo_osa = payload_dbg.extend (sp_new (demo_dbg (demo_world\<lparr>
       dw_mem := map (\<lambda>a. (a, val_byte 0)) [0x2000, 0x2001, 0x2002, 0x2003],
       dw_process := Some \<lparr>pr_pid = 1, pr_uid = 1, pr_stop = 1, pr_stopped = True, pr_threads =
         [\<lparr>th_id = 7, th_reason = SrBreakpoint, th_data = [1, 1], th_description = [],
           th_frames = [\<lparr>fr_pc = 0x1000, fr_regs = [(''x0'', 5), (''lr'', 0x2000)]\<rparr>]\<rparr>], pr_selected = 7\<rparr>\<rparr>)))
     (osa_dbg.fields [(1, ''OSAExecute'')]
       (Some \<lparr>op_key = (1, 1, 7, 0x1000),
          op_capture = \<lparr>oa_sym = ''OSAExecute'', oa_cmd = [], oa_view = content_preview \<lparr>oc_text = [], oc_kind = [], oc_note = []\<rparr>,
            oa_metadata = [], oa_captured = None, oa_bytes = None\<rparr>,
          op_content = \<lparr>oc_text = [], oc_kind = [], oc_note = []\<rparr>, op_output = 0x3000, op_kind = ''id'', op_payload = None,
          op_error = None, op_dump = []\<rparr>) [] None)"

lemmas demo_osa_defs = demo_osa_def payload_dbg.defs osa_dbg.defs sp_new_def dbg.defs demo_dbg_def demo_world_def

lemma demo_osa_state: "\<exists>q. os_pending demo_osa = Some q \<and> op_key q = (1, 1, 7, 0x1000)"
  by (simp add: demo_osa_defs)

lemma demo_blocked: "fst (osa_resolve demo_regs demo_select ''block'' demo_osa) = Inr ()"
proof -
  obtain q where q: "os_pending demo_osa = Some q" "op_key q = (1, 1, 7, 0x1000)" using demo_osa_state by blast
  define t where "t = \<lparr>th_id = 7, th_reason = SrBreakpoint, th_data = [1, 1], th_description = [],
           th_frames = [\<lparr>fr_pc = 0x1000, fr_regs = [(''x0'', 5), (''lr'', 0x2000)]\<rparr>]\<rparr>"
  define p where "p = \<lparr>pr_pid = 1, pr_uid = 1, pr_stop = 1, pr_stopped = True, pr_threads = [t], pr_selected = 7\<rparr>"
  have proc: "obs_process demo_regs (world demo_osa) = Some p" "find (\<lambda>t. th_id t = 7) (pr_threads p) = Some t"
    by (simp_all add: p_def t_def demo_regs_obs demo_osa_defs)
  have key: "osa_thread_key p t = (1, 1, 7, 0x1000)" by (simp add: p_def t_def osa_thread_key_def top_frame_def th_frame_def)
  have sel: "onW (se_select demo_select i) demo_osa = (Inr (), demo_osa)" for i
    by (simp add: onW_def demo_select_def run)
  have regs: "osa_regP (top_frame t) ''x0'' = retP 5" "osa_regP (top_frame t) ''lr'' = retP 0x2000" "th_id t = 7" "fr_pc (top_frame t) = 0x1000"
    by (simp_all add: osa_regP_def osa_reg_def t_def top_frame_def th_frame_def fr_reg_def liftP_def retP_def)
  have code: "length (read_memory demo_regs (world demo_osa) 0x2000 4) = 4"
    by (simp add: read_memory_def proc(1) read_halving.simps demo_regs_obs demo_lldb_def demo_osa_defs upt_rec numeral_eq_Suc)
  have th: "thread_of demo_regs 7 (world demo_osa) = Some t" by (simp add: thread_of_def proc)
  have fr: "framed 7 (world demo_osa)" "framed 7 (on_frame 7 f (world demo_osa))" for f
    by (simp_all add: framed_iff th on_frame_thread t_def th_frame_def)
  have set: "onW (do_set_reg demo_regs 7 ''x0'' (py_hex v)) demo_osa =
      (Inr None, demo_osa\<lparr>world := on_frame 7 (\<lambda>f. f\<lparr>fr_regs := od_set ''x0'' v (fr_regs f)\<rparr>) (world demo_osa)\<rparr>)" for v
    by (simp add: onW_def demo_regs_def run py_int_py_hex fr)
  have go: "onW (do_set_pc demo_regs 7 a) (demo_osa\<lparr>world := on_frame 7 f (world demo_osa)\<rparr>) =
      (Inr True, demo_osa\<lparr>world := on_frame 7 (\<lambda>f. f\<lparr>fr_pc := a\<rparr>) (on_frame 7 f (world demo_osa))\<rparr>)" for a f
    by (simp add: onW_def demo_regs_def run fr)
  have x0: "thread_reg demo_regs 7 ''x0'' (on_frame 7 (\<lambda>f. f\<lparr>fr_regs := od_set ''x0'' v (fr_regs f)\<rparr>) (world demo_osa)) = Some v" for v
    by (simp add: on_frame_obs th t_def th_frame_def fr_reg_def od_set_def)
  have pc: "thread_pc demo_regs 7 (on_frame 7 (\<lambda>f. f\<lparr>fr_pc := a\<rparr>) (on_frame 7 f (world demo_osa))) = Some a" for a f
    by (simp add: on_frame_obs on_frame_thread th t_def th_frame_def)
  show ?thesis
    by (simp add: osa_resolve_def osa_validate_pending_def run q proc key sel regs code Let_def)
      (simp add: osa_refuse_def osa_return_def live_regP_def run set go x0 pc)
qed

lemma osa_resolve_atomic_witness:
  "osa_law demo_regs demo_select demo_mem_at \<and> os_pending demo_osa \<noteq> None \<and>
   os_pending (snd (osa_resolve demo_regs demo_select ''block'' demo_osa)) = None \<and>
   thread_reg demo_regs 7 ''x0'' (world (snd (osa_resolve demo_regs demo_select ''block'' demo_osa))) = Some (2 ^ 64 - 128)"
proof -
  obtain q where q: "os_pending demo_osa = Some q" "op_key q = (1, 1, 7, 0x1000)" using demo_osa_state by blast
  obtain t where t: "osa_resolve demo_regs demo_select ''block'' demo_osa = (Inr (), t)"
    using demo_blocked by (cases "osa_resolve demo_regs demo_select ''block'' demo_osa") auto
  have "thread_reg demo_regs 7 ''x0'' (world demo_osa) = Some 5"
    by (simp add: thread_reg_def thread_of_def demo_regs_obs demo_osa_defs th_frame_def fr_reg_def)
  then show ?thesis
    using osa_resolve_atomic[OF demo_osa_law q(1), of 7 "''block''"] q t demo_osa_law by (simp add: osa_value_def)
qed

end
