(* ===== verification/ExecGate.thy ===== *)
theory ExecGate
  imports ScriptExec Markers
begin

text \<open>
  The execution sandbox of \<open>macdbg/core/debugger.py\<close>: breakpoints on the calls that start programs
  or scripts, the capture of their full arguments, the files a payload is saved in, and the
  decision. A script call is decided by \<open>ScriptExec\<close>. Creating a breakpoint by name and reading a
  C string or a pointer are LLDB's, given by \<open>exec_env\<close>; resuming the target and writing the files
  of a dump are arguments.
\<close>

record 'w exec_dbg = "'w osa_dbg" +
  eg_interactive :: bool
  eg_authorized :: bool

record 'w exec_env =
  ee_by_name :: "string \<Rightarrow> 'w \<Rightarrow> int option \<times> 'w"
  ee_cstring :: "'w \<Rightarrow> addr \<Rightarrow> nat \<Rightarrow> string option"
  ee_pointer :: "'w \<Rightarrow> addr \<Rightarrow> addr option"

section \<open>Switching\<close>

definition EXEC_SYMBOLS :: "string list" where
  "EXEC_SYMBOLS = [''system'', ''popen'', ''execve'', ''execvp'', ''posix_spawn'', ''posix_spawnp''] @ map fst OSA_CALLS"

definition disable_exec_sandbox :: "'w lldb \<Rightarrow> (('w, 'z) exec_dbg_scheme, bool \<times> string) py" where
  "disable_exec_sandbox L = bindP (getP (\<lambda>s. (obs_target L (world s), map fst (os_hooks s)))) (\<lambda>(target, ids).
     if \<not> target \<or> ids = [] then retP (True, ''already disabled'')
     else seqP (forP (\<lambda>i. seqP (delete_breakpoint L i) (retP ())) ids)
       (seqP (modP (\<lambda>s. s\<lparr>os_hooks := []\<rparr>))
       (seqP (osa_reset L False) (retP (True, ''exec sandbox disabled'')))))"

text \<open>One symbol: the new hook, or why the gate cannot be armed.\<close>

definition arm_exec ::
    "'w lldb \<Rightarrow> 'w exec_env \<Rightarrow> string \<Rightarrow> (('w, 'z) exec_dbg_scheme, string + int option) py" where
  "arm_exec L E name =
     (if osa_name name then
        bindP (getP (\<lambda>s. bp_ids L (world s))) (\<lambda>before.
        bindP (onW (do_command L (''breakpoint set --name '' @ name @ '' --shlib OpenScripting --skip-prologue false''))) (\<lambda>(succeeded, error).
        bindP (getP (\<lambda>s. filter (\<lambda>i. i \<notin> set before) (bp_ids L (world s)))) (\<lambda>created.
        if \<not> succeeded \<or> length created \<noteq> 1
        then seqP (forP (\<lambda>i. seqP (onW (do_bp_delete L i)) (retP ())) created)
          (retP (Inl (''could not arm OSA execution gate: '' @ (if error = [] then name else error))))
        else retP (Inr (Some (hd created))))))
      else bindP (onW (ee_by_name E name)) (\<lambda>b. retP (Inr b)))"

fun arm_execs :: "'w lldb \<Rightarrow> 'w exec_env \<Rightarrow> string list \<Rightarrow> (('w, 'z) exec_dbg_scheme, string option) py" where
  "arm_execs L E [] = retP None"
| "arm_execs L E (name # names) = bindP (arm_exec L E name) (\<lambda>r. case r of
     Inl m \<Rightarrow> seqP (disable_exec_sandbox L) (retP (Some m))
   | Inr b \<Rightarrow> seqP (case b of None \<Rightarrow> retP () | Some i \<Rightarrow> modP (\<lambda>s. s\<lparr>os_hooks := od_set i name (os_hooks s)\<rparr>))
       (arm_execs L E names))"

definition enable_exec_sandbox :: "'w lldb \<Rightarrow> 'w exec_env \<Rightarrow> (('w, 'z) exec_dbg_scheme, bool \<times> string) py" where
  "enable_exec_sandbox L E = bindP (getP (\<lambda>s. (obs_target L (world s), os_hooks s))) (\<lambda>(target, hooks).
     if \<not> target then retP (False, ''no target'')
     else if hooks \<noteq> [] then retP (True, ''already enabled'')
     else bindP (arm_execs L E EXEC_SYMBOLS) (\<lambda>failed. case failed of Some m \<Rightarrow> retP (False, m)
       | None \<Rightarrow> catchP (seqP (sp_enable L) (bindP (getP os_hooks) (\<lambda>hooks.
             retP (True, ''exec sandbox armed ('' @ py_str (int (length hooks)) @ '' symbol(s))''))))
           (\<lambda>e. case e of RuntimeError m \<Rightarrow> seqP (disable_exec_sandbox L) (retP (False, m)) | _ \<Rightarrow> raiseP e)))"

section \<open>Capturing the arguments\<close>

definition read_full_cstr :: "'w lldb \<Rightarrow> 'w exec_env \<Rightarrow> 'w \<Rightarrow> addr \<Rightarrow> string" where
  "read_full_cstr L E w a = (if a = 0 \<or> obs_process L w = None then []
     else case ee_cstring E w a (2 ^ 20) of None \<Rightarrow> [] | Some t \<Rightarrow> t)"

fun argv_from :: "'w lldb \<Rightarrow> 'w exec_env \<Rightarrow> 'w \<Rightarrow> addr \<Rightarrow> nat \<Rightarrow> string list" where
  "argv_from L E w a 0 = []"
| "argv_from L E w a (Suc n) = (case ee_pointer E w a of None \<Rightarrow> []
     | Some slot \<Rightarrow> if slot = 0 then [] else read_full_cstr L E w slot # argv_from L E w (a + 8) n)"

definition MAX_ARGS :: nat where "MAX_ARGS = 8192"

definition read_argv :: "'w lldb \<Rightarrow> 'w exec_env \<Rightarrow> 'w \<Rightarrow> addr \<Rightarrow> string list" where
  "read_argv L E w a = (if a = 0 \<or> obs_process L w = None then [] else argv_from L E w a MAX_ARGS)"

text \<open>A script call, or symbol, path, command line and arguments of another.\<close>

datatype exec_capture = OsaCall osa_capture
  | Call (ec_sym: string) (ec_path: "string option") (ec_cmd: "string option") (ec_argv: "string list option")

definition capture_call :: "'w lldb \<Rightarrow> 'w exec_env \<Rightarrow> 'w \<Rightarrow> frame \<Rightarrow> string \<Rightarrow> exec_capture" where
  "capture_call L E w f name = (let text = (\<lambda>r. read_full_cstr L E w (reg_unsigned f r)); argv = (\<lambda>r. read_argv L E w (reg_unsigned f r)) in
     if name = ''system'' \<or> name = ''popen'' then Call name None (Some (text ''x0'')) None
     else if name = ''execve'' \<or> name = ''execvp'' then Call name (Some (text ''x0'')) None (Some (argv ''x1''))
     else if starts_with name ''posix_spawn'' then Call name (Some (text ''x1'')) None (Some (argv ''x4''))
     else Call name (Some (text ''x0'')) None None)"

definition capture_exec ::
    "'w lldb \<Rightarrow> 'w payload_env \<Rightarrow> osa_env \<Rightarrow> 'w exec_env \<Rightarrow> int \<Rightarrow> (('w, 'z) exec_dbg_scheme, exec_capture option) py" where
  "capture_exec L V K E i = bindP (getP (\<lambda>s. (world s, map_of (os_hooks s) i))) (\<lambda>(w, name).
     case (name, obs_process L w) of (Some n, Some p) \<Rightarrow>
       if osa_name n then bindP (osa_capture L V K i) (\<lambda>c. retP (Some (OsaCall c)))
       else (case selected_thread p of None \<Rightarrow> retP None
         | Some t \<Rightarrow> retP (Some (capture_call L E w (top_frame t) n)))
     | _ \<Rightarrow> retP None)"

fun exec_sym :: "exec_capture \<Rightarrow> string" where
  "exec_sym (OsaCall c) = oa_sym c"
| "exec_sym (Call sym' _ _ _) = sym'"

definition or_unreadable :: "string \<Rightarrow> string" where
  "or_unreadable t = (if t = [] then ''<unreadable>'' else t)"

fun exec_preview :: "exec_capture \<Rightarrow> string" where
  "exec_preview (OsaCall c) = or_unreadable (oa_cmd c)"
| "exec_preview (Call _ path cmd argv) = (case cmd of Some c \<Rightarrow> or_unreadable c
     | None \<Rightarrow> (let args = (case argv of None \<Rightarrow> [] | Some xs \<Rightarrow> xs);
           rest = (if args \<noteq> [] \<and> Some (hd args) = path then tl args else args) in
         join '' '' (or_unreadable (case path of None \<Rightarrow> [] | Some p \<Rightarrow> p) # (if rest = [] then [] else [join '' '' rest]))))"

fun exec_payload_len :: "exec_capture \<Rightarrow> int" where
  "exec_payload_len (OsaCall c) = (case oa_bytes c of None \<Rightarrow> 0 | Some n \<Rightarrow> n)"
| "exec_payload_len (Call _ path cmd argv) = (case cmd of Some c \<Rightarrow> int (length c)
     | None \<Rightarrow> int (case path of None \<Rightarrow> 0 | Some p \<Rightarrow> length p) +
         sum_list (map (int \<circ> length) (case argv of None \<Rightarrow> [] | Some xs \<Rightarrow> xs)))"

definition peek_exec_hit ::
    "'w lldb \<Rightarrow> 'w payload_env \<Rightarrow> osa_env \<Rightarrow> 'w exec_env \<Rightarrow> int \<Rightarrow> (('w, 'z) exec_dbg_scheme, (string \<times> string) option) py" where
  "peek_exec_hit L V K E i = bindP (capture_exec L V K E i) (\<lambda>c. retP (map_option (\<lambda>c. (exec_sym c, exec_preview c)) c))"

section \<open>Saving a payload\<close>

definition exec_body :: "string \<Rightarrow> string option \<Rightarrow> string option \<Rightarrow> string list option \<Rightarrow> string" where
  "exec_body sym' path cmd argv = join [newline]
     ([''symbol: '' @ sym'] @
      (case path of None \<Rightarrow> [] | Some p \<Rightarrow> [''path: '' @ p]) @
      (case cmd of None \<Rightarrow> [] | Some c \<Rightarrow> [''command:'', c]) @
      (case argv of None \<Rightarrow> [] | Some xs \<Rightarrow> (''argv ('' @ py_str (int (length xs)) @ '' entries):'') #
         map (\<lambda>(k, a). ''  ['' @ py_str (int k) @ ''] '' @ a) (zip [0..<length xs] xs))) @ [newline]"

definition dump_name :: "string \<Rightarrow> int \<Rightarrow> string \<Rightarrow> nat \<Rightarrow> string" where
  "dump_name stamp pid sym' n = stamp @ ''-pid'' @ py_str pid @ ''-'' @ sym' @
     (if n = 0 then [] else ''-'' @ py_str (int n)) @ ''.txt''"

text \<open>The first free name, among so many.\<close>

fun free_name :: "(string \<Rightarrow> bool) \<Rightarrow> (nat \<Rightarrow> string) \<Rightarrow> nat \<Rightarrow> nat \<Rightarrow> string option" where
  "free_name taken name n 0 = None"
| "free_name taken name n (Suc fuel) = (if taken (name n) then free_name taken name (Suc n) fuel else Some (name n))"

definition dump_exec_payload ::
    "'w lldb \<Rightarrow> 'w payload_env \<Rightarrow> osa_env \<Rightarrow> 'w exec_env \<Rightarrow> (exec_capture \<Rightarrow> (('w, 'z) exec_dbg_scheme, string \<times> int) py) \<Rightarrow> int \<Rightarrow>
     (('w, 'z) exec_dbg_scheme, (string \<times> int) option) py" where
  "dump_exec_payload L V K E save i = bindP (capture_exec L V K E i) (\<lambda>c. case c of None \<Rightarrow> retP None
     | Some c \<Rightarrow> bindP (save c) (\<lambda>r. retP (Some r)))"

definition LARGE_PAYLOAD :: int where "LARGE_PAYLOAD = 200"

definition autodump_large_exec ::
    "'w lldb \<Rightarrow> 'w payload_env \<Rightarrow> osa_env \<Rightarrow> 'w exec_env \<Rightarrow> (exec_capture \<Rightarrow> (('w, 'z) exec_dbg_scheme, string \<times> int) py) \<Rightarrow> int \<Rightarrow>
     (('w, 'z) exec_dbg_scheme, (string \<times> int) option) py" where
  "autodump_large_exec L V K E save i = bindP (capture_exec L V K E i) (\<lambda>c. case c of None \<Rightarrow> retP None
     | Some c \<Rightarrow> if exec_payload_len c \<le> LARGE_PAYLOAD then retP None else dump_exec_payload L V K E save i)"

section \<open>Deciding\<close>

definition exec_success_value :: "string \<Rightarrow> int" where "exec_success_value name = 0"

definition resolve_exec_now ::
    "'w lldb \<Rightarrow> 'w payload_env \<Rightarrow> (('w, 'z) exec_dbg_scheme, unit) py \<Rightarrow> string \<Rightarrow> string \<Rightarrow> (('w, 'z) exec_dbg_scheme, bool) py" where
  "resolve_exec_now L V cont decision name =
     bindP (getP (\<lambda>s. case obs_process L (world s) of None \<Rightarrow> False | Some p \<Rightarrow> pr_stopped p)) (\<lambda>stopped.
     seqP (checkP stopped (RuntimeError ''exec decision requires a stopped process''))
     (if osa_name name then
        seqP (osa_resolve L V decision) (bindP (osa_find_hit L V) (\<lambda>hit.
        if hit \<noteq> None then retP False else seqP cont (retP True)))
      else
        bindP (if decision = ''block'' then onW (do_command L ''thread return -1'')
          else if decision = ''fake'' then onW (do_command L (''thread return '' @ py_str (exec_success_value name)))
          else retP (True, [])) (\<lambda>(succeeded, error).
        seqP (checkP succeeded (RuntimeError (''could not resolve exec call: '' @ (if error = [] then ''return failed'' else error))))
        (seqP cont (retP True)))))"

definition resolve_exec ::
    "'w lldb \<Rightarrow> 'w payload_env \<Rightarrow> (('w, 'z) exec_dbg_scheme, unit) py \<Rightarrow> string \<Rightarrow> string \<Rightarrow> (('w, 'z) exec_dbg_scheme, bool) py" where
  "resolve_exec L V cont decision name =
     seqP (checkP (decision \<in> {''block'', ''fake'', ''allow''}) (ValueError ''invalid exec decision''))
     (duringP (\<lambda>b s. s\<lparr>eg_authorized := b\<rparr>) (resolve_exec_now L V cont decision name))"

definition handle_exec_hit ::
    "'w lldb \<Rightarrow> 'w payload_env \<Rightarrow> osa_env \<Rightarrow> 'w exec_env \<Rightarrow> (exec_capture \<Rightarrow> (('w, 'z) exec_dbg_scheme, string \<times> int) py) \<Rightarrow>
     (('w, 'z) exec_dbg_scheme, unit) py \<Rightarrow> int \<Rightarrow> (('w, 'z) exec_dbg_scheme, string option) py" where
  "handle_exec_hit L V K E save cont i = bindP (capture_exec L V K E i) (\<lambda>c. bindP (getP eg_interactive) (\<lambda>interactive.
     case c of None \<Rightarrow> retP None
     | Some c \<Rightarrow> if interactive then retP None
       else (let name = exec_sym c in bindP (autodump_large_exec L V K E save i) (\<lambda>dumped.
         seqP (resolve_exec L V cont ''block'' name)
         (retP (Some (''blocked '' @ name @ ''('' @ [CHR 0x22] @ take 120 (exec_preview c) @ [CHR 0x22] @ '') '' @ [other_char] @ '' returned '' @
            py_str (if osa_name name then - 128 else - 1) @
            (case dumped of None \<Rightarrow> [] | Some (path, n) \<Rightarrow>
               '' '' @ [other_char] @ '' full payload ('' @ py_str n @ '' B) '' @ [other_char] @ '' '' @ path))))))))"

section \<open>A refused call does not run\<close>

text \<open>
  The target is resumed only after the return of a refused call succeeded; otherwise the error is
  raised and the target stays where it is. In both cases the permission to resume is withdrawn.
\<close>

lemma exec_refused_before_resume:
  assumes "\<not> osa_name name" "decision \<in> {''block'', ''fake''}"
    and "obs_process L (world s) = Some p" "pr_stopped p"
    and "do_command L (''thread return '' @ (if decision = ''block'' then ''-1'' else ''0'')) (world s) = ((succeeded, error), w)"
  shows "resolve_exec L V cont decision name s =
    (if succeeded then (case cont (s\<lparr>eg_authorized := True, world := w\<rparr>) of
        (Inl e, t) \<Rightarrow> (Inl e, t\<lparr>eg_authorized := False\<rparr>) | (Inr _, t) \<Rightarrow> (Inr True, t\<lparr>eg_authorized := False\<rparr>))
     else (Inl (RuntimeError (''could not resolve exec call: '' @ (if error = [] then ''return failed'' else error))),
       s\<lparr>eg_authorized := False, world := w\<rparr>))"
proof -
  have d: "decision = ''block'' \<or> decision = ''fake''" using assms(2) by simp
  have zero: "py_str 0 = ''0''" by (simp add: py_str_def nat_dec.simps hex_digit_def)
  show ?thesis using d assms(1,3-5)
    by (elim disjE) (auto simp: resolve_exec_def resolve_exec_now_def duringP_def finallyP_def cleanupP_def run onW_def
      exec_success_value_def zero split: prod.splits sum.splits)
qed

text \<open>A name that is not taken is found after at most one more attempt than there are files.\<close>

lemma free_name_found:
  "finite F \<Longrightarrow> inj name \<Longrightarrow> \<exists>p. free_name (\<lambda>x. x \<in> F) name n (Suc (card F)) = Some p \<and> p \<notin> F"
proof (induction "card F" arbitrary: F n)
  case 0
  then show ?case by simp
next
  case (Suc k)
  show ?case
  proof (cases "name n \<in> F")
    case False
    then show ?thesis by simp
  next
    case True
    let ?G = "F - {name n}"
    have c: "card ?G = k" using Suc True by simp
    have same: "free_name (\<lambda>x. x \<in> F) name m fuel = free_name (\<lambda>x. x \<in> ?G) name m fuel" if "n < m" for m fuel
      using that
    proof (induction fuel arbitrary: m)
      case (Suc fuel)
      then show ?case using \<open>inj name\<close> by (auto simp: inj_def)
    qed simp
    obtain p where "free_name (\<lambda>x. x \<in> ?G) name (Suc n) (Suc (card ?G)) = Some p" "p \<notin> ?G"
      using Suc(1)[of ?G "Suc n"] c Suc(3,4) by auto
    moreover from this have "p \<noteq> name n"
    proof -
      have "\<exists>m. n < m \<and> q = name m" if "free_name g name j fuel = Some q" "n < j" for g j fuel q
        using that by (induction g name j fuel rule: free_name.induct) (auto split: if_splits)
      then show ?thesis using calculation(1) \<open>inj name\<close> by (metis injD less_irrefl lessI)
    qed
    ultimately show ?thesis using True same[of "Suc n" "Suc (card ?G)"] c Suc(2)
      by (intro exI[of _ p]) (simp del: free_name.simps(2) add: free_name.simps(2)[of _ _ n])
  qed
qed

end
