(* ===== verification/Stepping.thy ===== *)
theory Stepping
  imports Sandbox Timing Pauses
begin

text \<open>
  Running and stepping in \<open>macdbg/core/debugger.py\<close>: the one boundary every resume crosses, and a
  user step, which is a state machine driven by the stops that follow it. The components that look
  at every stop (the script gate, the clocks, the timing rules, the recorder) are given by
  \<open>step_parts\<close>; LLDB's thread plans and what it says of frames are given by \<open>step_env\<close>.
\<close>

record 'w step_dbg = "'w sandbox_dbg" +
  su_plan_depth :: "int option"
  su_scrubs :: "(int \<times> string \<times> addr \<times> addr) list"
  su_policy :: "string option"
  su_messages :: "string list"
  su_handled :: "(int \<times> int \<times> addr) option"
  su_clock :: bool
  su_pauses :: pauses
  su_hw :: bool

text \<open>
  In the order of the record: whether the first frame of a thread is inlined; the mnemonic of an
  instruction; the policy on hardware breakpoints; the program counter of the selected frame;
  continuing (an error's text), one instruction, out of a frame, into or over a source line; a
  one-shot breakpoint; the host's clock.
\<close>

record 'w step_env =
  sv_inlined :: "'w \<Rightarrow> int \<Rightarrow> bool"
  sv_mnemonic :: "'w \<Rightarrow> addr \<Rightarrow> string option"
  sv_policy :: "'w \<Rightarrow> string"
  sv_pc :: "'w \<Rightarrow> addr option"
  sv_continue :: "'w \<Rightarrow> string option \<times> 'w"
  sv_instruction :: "int \<Rightarrow> 'w \<Rightarrow> unit \<times> 'w"
  sv_out :: "int \<Rightarrow> 'w \<Rightarrow> unit \<times> 'w"
  sv_source :: "bool \<Rightarrow> int \<Rightarrow> 'w \<Rightarrow> unit \<times> 'w"
  sv_oneshot :: "int \<Rightarrow> 'w \<Rightarrow> unit \<times> 'w"
  sv_now :: "'w \<Rightarrow> int"

text \<open>
  Errors of the self-trap forwarder and of the entry plan; arming the entry plan when it is due; the
  script gate's look at a stop and its readiness; the clocks' observation of a stop, readiness and
  look at it; the timing rules' look, with their messages, and whether they are on; the recorder's
  gap and capture; the hardware breakpoints of the tracer.
\<close>

record 's step_parts =
  tp_trap :: "'s \<Rightarrow> string option"
  tp_plan :: "'s \<Rightarrow> string option"
  tp_entry :: "('s, unit) py"
  tp_payloads :: "('s, unit) py"
  tp_scripts :: "('s, unit) py"
  tp_clock_observe :: "('s, unit) py"
  tp_clock_ready :: "('s, unit) py"
  tp_clock_stop :: "('s, unit) py"
  tp_timing :: "('s, string list) py"
  tp_timed :: "'s \<Rightarrow> bool"
  tp_gap :: "string \<Rightarrow> ('s, unit) py"
  tp_capture :: "string \<Rightarrow> ('s, unit) py"
  tp_extra :: "'s \<Rightarrow> int set"

section \<open>Resuming\<close>

definition no_error :: "string option \<Rightarrow> ('s, unit) py" where
  "no_error e = (case e of None \<Rightarrow> retP () | Some m \<Rightarrow> checkP (m = []) (RuntimeError m))"

text \<open>An action answers the text of an error it reports, and may raise.\<close>

definition run_execution ::
    "'w step_env \<Rightarrow> ('w, 'z) step_dbg_scheme step_parts \<Rightarrow> (('w, 'z) step_dbg_scheme, string option) py \<Rightarrow>
     (('w, 'z) step_dbg_scheme, string option) py" where
  "run_execution V T action =
     seqP require_decision_resolved
     (bindP (getP (\<lambda>s. (tp_trap T s, tp_plan T s))) (\<lambda>(trap, plan).
     seqP (no_error trap) (seqP (no_error plan) (seqP (tp_entry T) (seqP (tp_payloads T) (seqP (tp_scripts T)
     (bindP (getP su_clock) (\<lambda>on. if \<not> on then action
      else seqP (tp_clock_observe T) (seqP (tp_clock_ready T)
        (bindP (getP (\<lambda>s. pause_resume (sv_now V (world s)) (su_pauses s))) (\<lambda>(token, running).
         seqP (modP (\<lambda>s. s\<lparr>su_pauses := running\<rparr>))
         (let rollback = modP (\<lambda>s. s\<lparr>su_pauses := pause_rollback token (su_pauses s)\<rparr>) in
          bindP (cleanupP action rollback) (\<lambda>r. seqP (whenP (r \<noteq> None) rollback) (retP r))))))))))))))"

definition ran :: "('s, 'a) py \<Rightarrow> ('s, string option) py" where
  "ran m = bindP m (\<lambda>_. retP None)"

definition cont ::
    "'w lldb \<Rightarrow> 'w cloak_env \<Rightarrow> 'w step_env \<Rightarrow> ('w, 'z) step_dbg_scheme step_parts \<Rightarrow> (('w, 'z) step_dbg_scheme, unit) py" where
  "cont L C V T =
     bindP (getP (\<lambda>s. obs_process L (world s) \<noteq> None)) (\<lambda>on. whenP on
     (seqP (tp_gap T ''Continue: instructions between stops are not recorded'')
     (seqP (tp_clock_stop T)
     (bindP (tp_timing T) (\<lambda>messages.
      seqP (modP (\<lambda>s. s\<lparr>su_messages := su_messages s @ messages\<rparr>))
     (bindP (validate_resume L C) (\<lambda>(ok, error).
      seqP (checkP ok (RuntimeError error))
     (bindP (getP (tp_extra T)) (\<lambda>extra. bindP (validate_integrity L C extra) (\<lambda>(ok, error).
      seqP (checkP ok (RuntimeError error))
     (seqP (modP (remember_continue_positions L))
     (bindP (run_execution V T (onW (sv_continue V))) (\<lambda>failed.
      case failed of None \<Rightarrow> retP () | Some m \<Rightarrow> raiseP (RuntimeError (''resume failed: '' @ m)))))))))))))))"

definition the_thread :: "'w lldb \<Rightarrow> 'w \<Rightarrow> thread option" where
  "the_thread L w = (case obs_process L w of None \<Rightarrow> None | Some p \<Rightarrow> selected_thread p)"

definition depth_of :: "'w lldb \<Rightarrow> int \<Rightarrow> 'w \<Rightarrow> int" where
  "depth_of L tid w = (case thread_of L tid w of None \<Rightarrow> 0 | Some t \<Rightarrow> int (length (th_frames t)))"

definition frame_of :: "'w lldb \<Rightarrow> int \<Rightarrow> 'w \<Rightarrow> frame option" where
  "frame_of L tid w = (case thread_of L tid w of None \<Rightarrow> None | Some t \<Rightarrow> th_frame t)"

definition pc_of :: "'w lldb \<Rightarrow> int \<Rightarrow> 'w \<Rightarrow> addr" where
  "pc_of L tid w = (case thread_pc L tid w of None \<Rightarrow> 2 ^ 64 - 1 | Some a \<Rightarrow> a)"

definition run_to_address ::
    "'w lldb \<Rightarrow> 'w defense_env \<Rightarrow> 'w cloak_env \<Rightarrow> 'w step_env \<Rightarrow> ('w, 'z) step_dbg_scheme step_parts \<Rightarrow> addr \<Rightarrow>
     (('w, 'z) step_dbg_scheme, bool \<times> string) py" where
  "run_to_address L D C V T a =
     bindP (getP (\<lambda>s. (obs_target L (world s), obs_process L (world s), sv_pc V (world s), su_hw s \<or> cloak_enabled s)))
       (\<lambda>(target, proc, cur, hw).
     case proc of None \<Rightarrow> retP (False, ''no process'')
     | Some p \<Rightarrow> if \<not> target then retP (False, ''no process'')
       else if \<not> pr_stopped p then retP (False, ''process is running'')
       else if cur = Some a then retP (False, ''already at '' @ py_hex a)
       else bindP (if hw then bindP (create_hardware_at L a) (\<lambda>b. retP (bp_id b)) else onW (de_at D a)) (\<lambda>i.
         bindP (getP (\<lambda>s. find_bp L (world s) i)) (\<lambda>b.
         let runnable = (case b of None \<Rightarrow> False | Some b \<Rightarrow> (case bp_locs b of [] \<Rightarrow> False | l # _ \<Rightarrow> loc_resolved l)) in
         if \<not> runnable
         then seqP (whenP (b \<noteq> None) (seqP (delete_breakpoint L i) (retP ()))) (retP (False, ''no runnable code at '' @ py_hex a))
         else seqP (onW (sv_oneshot V i))
           (bindP (getP (\<lambda>s. the_thread L (world s))) (\<lambda>t.
           seqP (case t of None \<Rightarrow> retP () | Some t \<Rightarrow> onW (do_bp_thread L i (th_id t)))
           (seqP (cleanupP (cont L C V T) (seqP (delete_breakpoint L i) (retP ())))
           (retP (True, ''running to '' @ py_hex a))))))))"

section \<open>Ending a step\<close>

definition stopped :: "'w lldb \<Rightarrow> 'w \<Rightarrow> bool" where
  "stopped L w = (case obs_process L w of None \<Rightarrow> False | Some p \<Rightarrow> pr_stopped p)"

definition POLICY :: string where "POLICY = ''settings set target.require-hardware-breakpoint ''"

definition cancel_user_step :: "'w lldb \<Rightarrow> 'w defense_env \<Rightarrow> (('w, 'z) step_dbg_scheme, unit) py" where
  "cancel_user_step L D =
     seqP (modP (\<lambda>s. s\<lparr>step_active := False, step_target_depth := None, su_scrubs := [], step_plan_active := False, su_plan_depth := None\<rparr>))
     (bindP (getP (\<lambda>s. (su_policy s, stopped L (world s)))) (\<lambda>(policy, still).
     case policy of None \<Rightarrow> retP ()
     | Some previous \<Rightarrow>
        seqP (whenP still (seqP (onW (de_command D ''thread plan discard 1'')) (retP ())))
        (seqP (onW (de_command D (POLICY @ previous))) (modP (\<lambda>s. s\<lparr>su_policy := None\<rparr>)))))"

definition require_step_slot :: "'w lldb \<Rightarrow> (('w, 'z) step_dbg_scheme, unit) py" where
  "require_step_slot L = bindP (getP (\<lambda>s. if cloak_enabled s then validate_hardware_capacity L 1 (world s) else Inr ())) liftP"

definition check_step_out_frame :: "'w step_env \<Rightarrow> int \<Rightarrow> (('w, 'z) step_dbg_scheme, unit) py" where
  "check_step_out_frame V tid = bindP (getP (\<lambda>s. cloak_enabled s \<and> sv_inlined V (world s) tid)) (\<lambda>clash.
     checkP (\<not> clash) (RuntimeError ''inline step-out cannot bound private hardware breakpoints; use instruction stepping''))"

section \<open>Defenses inside a step\<close>

definition resolve_pending_step_scrubs :: "'w lldb \<Rightarrow> 'w defense_env \<Rightarrow> int \<Rightarrow> (('w, 'z) step_dbg_scheme, unit) py" where
  "resolve_pending_step_scrubs L D tid =
     bindP (getP (\<lambda>s. (su_scrubs s, depth_of L tid (world s)))) (\<lambda>(pending, cur).
     if pending = [] then retP ()
     else seqP (forP (\<lambda>(depth, kind, buf, oldlenp). seqP (scrub_flag L D kind buf oldlenp) (retP ()))
         (filter (\<lambda>(depth, _). cur < depth) pending))
       (modP (\<lambda>s. s\<lparr>su_scrubs := filter (\<lambda>(depth, _). \<not> cur < depth) pending\<rparr>)))"

definition queue_step_scrub ::
    "'w lldb \<Rightarrow> 'w defense_env \<Rightarrow> int \<Rightarrow> frame \<Rightarrow> string \<Rightarrow> int \<Rightarrow> int \<Rightarrow> int \<Rightarrow> int \<Rightarrow> addr \<Rightarrow> int \<Rightarrow> (('w, 'z) step_dbg_scheme, unit) py" where
  "queue_step_scrub L D tid f kind mib namelen oldp oldlenp buf ops =
     bindP (getP (\<lambda>s. (if kind = ''sysctl'' then mib \<noteq> 0 \<and> oldp \<noteq> 0 \<and> 3 \<le> namelen \<and> process_query L (world s) mib
         else buf \<noteq> 0 \<and> ops = 0, cloak_enabled s, thread_of L tid (world s)))) (\<lambda>(ours, on, t).
     if \<not> ours then retP ()
     else if on then (case t of None \<Rightarrow> retP () | Some t \<Rightarrow> arm_return_scrub L D t f kind buf oldlenp)
     else modP (\<lambda>s. s\<lparr>su_scrubs := su_scrubs s @ [(depth_of L tid (world s), kind, buf, oldlenp)]\<rparr>))"

definition arm_step_scrub :: "'w lldb \<Rightarrow> 'w defense_env \<Rightarrow> int \<Rightarrow> frame \<Rightarrow> string \<Rightarrow> (('w, 'z) step_dbg_scheme, unit) py" where
  "arm_step_scrub L D tid f kind =
     (if kind = ''sysctl''
      then queue_step_scrub L D tid f kind (reg_unsigned f ''x0'') (reg_unsigned f ''x1'') (reg_unsigned f ''x2'')
        (reg_unsigned f ''x3'') (reg_unsigned f ''x2'') 0
      else queue_step_scrub L D tid f kind 1 1 (reg_unsigned f ''x2'') 0 (reg_unsigned f ''x2'') (reg_unsigned f ''x1''))"

definition arm_step_scrub_syscall :: "'w lldb \<Rightarrow> 'w defense_env \<Rightarrow> int \<Rightarrow> frame \<Rightarrow> string \<Rightarrow> (('w, 'z) step_dbg_scheme, unit) py" where
  "arm_step_scrub_syscall L D tid f kind =
     bindP (getP (\<lambda>s. syscall_args L (world s) f)) (\<lambda>args.
     if kind = ''sysctl''
     then queue_step_scrub L D tid f kind (args 4 ! 0) (args 4 ! 1) (args 4 ! 2) (args 4 ! 3) (args 4 ! 2) 0
     else queue_step_scrub L D tid f kind 1 1 (args 3 ! 2) 0 (args 3 ! 2) (args 3 ! 1))"

definition returns :: "'w defense_env \<Rightarrow> string \<Rightarrow> (('w, 'z) step_dbg_scheme, unit) py" where
  "returns D v = seqP (onW (de_command D (''thread return '' @ v))) (retP ())"

definition say :: "string \<Rightarrow> (('w, 'z) step_dbg_scheme, unit) py" where
  "say m = modP (\<lambda>s. s\<lparr>su_messages := su_messages s @ [m]\<rparr>)"

text \<open>The chain of \<open>_defense_step_action\<close>, in its order; no hook has number 0.\<close>

definition defense_step_action :: "'w lldb \<Rightarrow> 'w defense_env \<Rightarrow> int \<Rightarrow> int \<Rightarrow> (('w, 'z) step_dbg_scheme, unit) py" where
  "defense_step_action L D i tid =
     bindP (getP (\<lambda>s. (s, obs_process L (world s), frame_of L tid (world s)))) (\<lambda>(s, proc, here).
     case (proc, here) of (Some p, Some f) \<Rightarrow>
       (if i = df_ptrace s then whenP (reg_unsigned f ''x0'' = 31) (returns D ''0'')
        else if i = df_mach s then
          seqP (whenP (reg_unsigned f ''x3'' \<noteq> 0) (seqP (onW (de_write D (reg_unsigned f ''x3'') (replicate 4 (val_byte 0)))) (retP ())))
            (returns D ''0'')
        else if i \<in> set (sx_setsid s) \<and> sx_fork_mode s = ''identity''
        then returns D (py_str (if pr_pid p = 0 then 1 else pr_pid p))
        else if i \<in> set (sx_direct s) then
          whenP (reg_unsigned f ''x16'' = 26 \<and> reg_unsigned f ''x0'' = 31)
            (seqP (onW (de_command D ''register write x0 0''))
            (seqP (onW (de_command D (''register write pc '' @ py_hex (fr_pc f + 4)))) (retP ())))
        else if i \<in> set (df_syscalls s) then
          (let num = reg_unsigned f ''x0'' in
           if num = 26 \<and> df_ptrace s \<noteq> 0 \<and> syscall_args L (world s) f 1 ! 0 = 31 then returns D ''0''
           else if num = 202 \<and> (df_ptraced s \<or> df_parent s) then arm_step_scrub_syscall L D tid f ''sysctl''
           else if num = 169 \<and> df_csops s \<noteq> 0 then arm_step_scrub_syscall L D tid f ''csops''
           else retP ())
        else if i = df_sysctl s then arm_step_scrub L D tid f ''sysctl''
        else if i = df_csops s then arm_step_scrub L D tid f ''csops''
        else (case (map_of (df_returns s) i, thread_of L tid (world s)) of
            (Some hook, Some t) \<Rightarrow> bindP (consume_scrub_return L D i t hook) (\<lambda>m. case m of None \<Rightarrow> retP ()
               | Some x \<Rightarrow> whenP (x \<noteq> []) (say (''[anti-debug] '' @ x)))
          | _ \<Rightarrow> retP ()))
     | _ \<Rightarrow> retP ())"

section \<open>The cloak inside a step\<close>

definition legacy_ids :: "('w, 'z) step_dbg_scheme \<Rightarrow> int set" where
  "legacy_ids s = ({df_ptrace s, df_mach s, df_sysctl s, df_csops s} - {0}) \<union> set (df_syscalls s) \<union> set (sx_setsid s) \<union>
     set (sx_direct s) \<union> set (map fst (df_returns s))"

definition step_candidates :: "('w, 'z) step_dbg_scheme \<Rightarrow> int set" where
  "step_candidates s = set (map fst (ck_entry s)) \<union> set (map fst (ck_returns s)) \<union> legacy_ids s"

text \<open>An enabled hook of this or of every thread with an enabled location here.\<close>

definition hook_here :: "'w lldb \<Rightarrow> 'w \<Rightarrow> int \<Rightarrow> addr \<Rightarrow> int \<Rightarrow> bool" where
  "hook_here L w tid pc i = (case find_bp L w i of None \<Rightarrow> False
     | Some b \<Rightarrow> bp_enabled b \<and> flt_thread (bp_filters b) \<in> {0, tid} \<and>
         list_ex (\<lambda>l. loc_enabled l \<and> loc_addr l = pc) (bp_locs b))"

definition cloak_step_hit ::
    "'w lldb \<Rightarrow> 'w defense_env \<Rightarrow> 'w cloak_env \<Rightarrow> int \<Rightarrow> addr \<Rightarrow> int set \<Rightarrow> int \<Rightarrow> bool \<Rightarrow> (('w, 'z) step_dbg_scheme, bool \<times> bool) py" where
  "cloak_step_hit L D C tid pc legacy i handled =
     bindP (getP (\<lambda>s. (i \<in> set (df_syscalls s), depth_of L tid (world s)))) (\<lambda>(syscall, before).
     if syscall \<and> handled then retP (handled, True)
     else bindP (handle_hit L D C (retP ()) False i) (\<lambda>message.
       seqP (whenP (message = None \<and> i \<in> legacy) (defense_step_action L D i tid))
       (bindP (getP (\<lambda>s. depth_of L tid (world s))) (\<lambda>now.
       seqP (whenP (now < before) (modP (\<lambda>s. s\<lparr>step_plan_active := False\<rparr>)))
       (seqP (case message of None \<Rightarrow> retP () | Some m \<Rightarrow> whenP (m \<noteq> []) (say (''[anti-analysis] '' @ m)))
       (bindP (validate_resume L C) (\<lambda>(ok, error).
        if \<not> ok then seqP (cancel_user_step L D) (raiseP (RuntimeError error))
        else getP (\<lambda>s. (handled \<or> message = None \<and> i \<in> legacy \<and> syscall, pc_of L tid (world s) = pc)))))))))"

primrec cloak_step_hits ::
    "'w lldb \<Rightarrow> 'w defense_env \<Rightarrow> 'w cloak_env \<Rightarrow> int \<Rightarrow> addr \<Rightarrow> int set \<Rightarrow> int list \<Rightarrow> bool \<Rightarrow> (('w, 'z) step_dbg_scheme, unit) py" where
  "cloak_step_hits L D C tid pc legacy [] handled = retP ()"
| "cloak_step_hits L D C tid pc legacy (i # ids) handled =
     bindP (cloak_step_hit L D C tid pc legacy i handled) (\<lambda>(seen, stays).
     if stays then cloak_step_hits L D C tid pc legacy ids seen else retP ())"

definition stop_place :: "'w lldb \<Rightarrow> int \<Rightarrow> 'w \<Rightarrow> (int \<times> int \<times> addr) option" where
  "stop_place L tid w = map_option (\<lambda>p. (pr_stop p, tid, pc_of L tid w)) (obs_process L w)"

definition process_cloak_step_stop ::
    "'w lldb \<Rightarrow> 'w defense_env \<Rightarrow> 'w cloak_env \<Rightarrow> ('w, 'z) step_dbg_scheme step_parts \<Rightarrow> int \<Rightarrow> (('w, 'z) step_dbg_scheme, unit) py" where
  "process_cloak_step_stop L D C T tid =
     seqP (tp_payloads T) (seqP (tp_clock_stop T) (bindP (tp_timing T) (\<lambda>messages.
     seqP (modP (\<lambda>s. s\<lparr>su_messages := su_messages s @ messages\<rparr>))
     (bindP (getP (\<lambda>s. s)) (\<lambda>s. if \<not> cloak_enabled s then retP ()
      else let pc = pc_of L tid (world s);
             reported = (case thread_of L tid (world s) of None \<Rightarrow> [] | Some t \<Rightarrow> thread_ids t);
             hits = {i \<in> step_candidates s. i \<in> set reported \<or> hook_here L (world s) tid pc i} in
        if su_handled s \<noteq> None \<and> su_handled s = stop_place L tid (world s) then retP ()
        else seqP (cloak_step_hits L D C tid pc (legacy_ids s) (sorted_list_of_set hits) False)
          (modP (\<lambda>s. s\<lparr>su_handled := stop_place L tid (world s)\<rparr>)))))))"

section \<open>Steps\<close>

definition step_out_plan ::
    "'w lldb \<Rightarrow> 'w step_env \<Rightarrow> ('w, 'z) step_dbg_scheme step_parts \<Rightarrow> int \<Rightarrow> (('w, 'z) step_dbg_scheme, unit) py" where
  "step_out_plan L V T tid =
     seqP (modP (\<lambda>s. s\<lparr>su_plan_depth := Some (depth_of L tid (world s) - 1), step_plan_active := True\<rparr>))
     (seqP (run_execution V T (ran (onW (sv_out V tid)))) (retP ()))"

definition hardware_step_out ::
    "'w lldb \<Rightarrow> 'w defense_env \<Rightarrow> 'w cloak_env \<Rightarrow> 'w step_env \<Rightarrow> ('w, 'z) step_dbg_scheme step_parts \<Rightarrow> int \<Rightarrow>
     (('w, 'z) step_dbg_scheme, unit) py" where
  "hardware_step_out L D C V T tid =
     bindP (getP cloak_enabled) (\<lambda>on. if \<not> on then seqP (run_execution V T (ran (onW (sv_out V tid)))) (retP ())
     else seqP (check_step_out_frame V tid) (seqP (require_step_slot L)
       (bindP (getP (\<lambda>s. (step_plan_active s, su_policy s, sv_policy V (world s)))) (\<lambda>(plan, kept, previous).
        if plan then cont L C V T
        else if kept \<noteq> None then step_out_plan L V T tid
        else seqP (checkP (previous = ''true'' \<or> previous = ''false'') (RuntimeError ''could not read LLDB hardware-step policy; resume refused''))
          (bindP (onW (de_command D (POLICY @ ''true''))) (\<lambda>(ok, out, err).
           seqP (checkP ok (RuntimeError (''could not require hardware stepping: '' @ err)))
           (seqP (modP (\<lambda>s. s\<lparr>su_policy := Some previous\<rparr>))
           (cleanupP (step_out_plan L V T tid) (cancel_user_step L D)))))))))"

definition CALL_MNEMONICS :: "string list" where
  "CALL_MNEMONICS = [''bl'', ''blr'', ''blraa'', ''blrab'', ''blraaz'', ''blrabz'']"

definition is_call_at :: "'w lldb \<Rightarrow> 'w step_env \<Rightarrow> 'w \<Rightarrow> addr \<Rightarrow> bool" where
  "is_call_at L V w pc = (obs_target L w \<and> (case sv_mnemonic V w pc of None \<Rightarrow> False | Some m \<Rightarrow> py_lower m \<in> set CALL_MNEMONICS))"

definition step_begins :: "int option \<Rightarrow> ('w, 'z) step_dbg_scheme \<Rightarrow> ('w, 'z) step_dbg_scheme" where
  "step_begins target s = s\<lparr>step_active := True, step_target_depth := target, su_scrubs := []\<rparr>"

definition single_step ::
    "'w step_env \<Rightarrow> ('w, 'z) step_dbg_scheme step_parts \<Rightarrow> string \<Rightarrow> int \<Rightarrow> (('w, 'z) step_dbg_scheme, unit) py" where
  "single_step V T action tid = seqP (tp_capture T action) (seqP (run_execution V T (ran (onW (sv_instruction V tid)))) (retP ()))"

definition step_in ::
    "'w lldb \<Rightarrow> 'w defense_env \<Rightarrow> 'w cloak_env \<Rightarrow> 'w step_env \<Rightarrow> ('w, 'z) step_dbg_scheme step_parts \<Rightarrow> (('w, 'z) step_dbg_scheme, unit) py" where
  "step_in L D C V T = bindP (getP (\<lambda>s. the_thread L (world s))) (\<lambda>t. case t of None \<Rightarrow> retP ()
     | Some t \<Rightarrow> seqP (process_cloak_step_stop L D C T (th_id t))
         (seqP (modP (step_begins None)) (single_step V T ''step_in'' (th_id t))))"

definition step_out ::
    "'w lldb \<Rightarrow> 'w defense_env \<Rightarrow> 'w cloak_env \<Rightarrow> 'w step_env \<Rightarrow> ('w, 'z) step_dbg_scheme step_parts \<Rightarrow> (('w, 'z) step_dbg_scheme, unit) py" where
  "step_out L D C V T = bindP (getP (\<lambda>s. the_thread L (world s))) (\<lambda>t. case t of None \<Rightarrow> retP ()
     | Some t \<Rightarrow> seqP (tp_gap T ''Step out: callee instructions are not recorded'')
         (seqP (check_step_out_frame V (th_id t))
         (seqP (process_cloak_step_stop L D C T (th_id t))
         (seqP (require_step_slot L)
         (seqP (modP (\<lambda>s. step_begins (Some (depth_of L (th_id t) (world s) - 1)) s))
         (hardware_step_out L D C V T (th_id t)))))))"

definition step_over ::
    "'w lldb \<Rightarrow> 'w defense_env \<Rightarrow> 'w cloak_env \<Rightarrow> 'w step_env \<Rightarrow> ('w, 'z) step_dbg_scheme step_parts \<Rightarrow> (('w, 'z) step_dbg_scheme, unit) py" where
  "step_over L D C V T = bindP (getP (\<lambda>s. (the_thread L (world s), obs_target L (world s)))) (\<lambda>(t, target).
     case t of None \<Rightarrow> retP ()
     | Some t \<Rightarrow> if \<not> target \<or> th_frame t = None then retP ()
       else (let tid = th_id t in
         seqP (process_cloak_step_stop L D C T tid)
         (bindP (getP (\<lambda>s. (frame_of L tid (world s), world s))) (\<lambda>(f, w). case f of None \<Rightarrow> retP ()
          | Some f \<Rightarrow> (let call = is_call_at L V w (fr_pc f) in
              seqP (if call then require_step_slot L else retP ())
              (seqP (modP (\<lambda>s. step_begins (if call then Some (depth_of L tid (world s)) else None) s))
              (single_step V T ''step_over'' tid)))))))"

definition source_step ::
    "'w lldb \<Rightarrow> 'w step_env \<Rightarrow> ('w, 'z) step_dbg_scheme step_parts \<Rightarrow> bool \<Rightarrow> (('w, 'z) step_dbg_scheme, unit) py" where
  "source_step L V T over =
     bindP (getP (\<lambda>s. (su_clock s, tp_timed T s, cloak_enabled s, the_thread L (world s)))) (\<lambda>(clock, timed, on, t).
     seqP (checkP (\<not> clock) (RuntimeError ''automatic clocks require instruction stepping''))
     (seqP (checkP (\<not> timed) (RuntimeError ''timing rules require instruction stepping''))
     (seqP (checkP (\<not> on) (RuntimeError ''source-level stepping cannot guarantee text integrity; use instruction stepping''))
     (case t of None \<Rightarrow> retP ()
      | Some t \<Rightarrow> seqP (run_execution V T (ran (onW (sv_source V over (th_id t))))) (retP ())))))"

section \<open>A stop during a step\<close>

text \<open>The identifiers of LLDB's private plans are negative, seen as unsigned values.\<close>

definition step_hits :: "thread \<Rightarrow> int list" where
  "step_hits t = filter (\<lambda>i. i < 2 ^ 63) (remdups (thread_ids t))"

text \<open>Inside the callee: a breakpoint of the user ends the step, a defense is applied in place.\<close>

definition step_breakpoints ::
    "'w lldb \<Rightarrow> 'w defense_env \<Rightarrow> int set \<Rightarrow> int \<Rightarrow> int list \<Rightarrow> (('w, 'z) step_dbg_scheme, bool) py" where
  "step_breakpoints L D auto tid hit =
     (if hit = [] then retP False
      else if \<not> set hit \<subseteq> auto then seqP (cancel_user_step L D) (retP True)
      else bindP (getP (\<lambda>s. (cloak_enabled s, depth_of L tid (world s)))) (\<lambda>(on, before).
        if on then retP False
        else seqP (forP (\<lambda>i. defense_step_action L D i tid) hit)
          (seqP (modP (\<lambda>s. if depth_of L tid (world s) < before then s\<lparr>step_plan_active := False\<rparr> else s)) (retP False))))"

text \<open>What a stop does before it is judged: the cloak's rewrites, a plan that has landed, due scrubs.\<close>

definition step_settle ::
    "'w lldb \<Rightarrow> 'w defense_env \<Rightarrow> 'w cloak_env \<Rightarrow> ('w, 'z) step_dbg_scheme step_parts \<Rightarrow> int \<Rightarrow> (('w, 'z) step_dbg_scheme, unit) py" where
  "step_settle L D C T tid =
     seqP (process_cloak_step_stop L D C T tid)
     (seqP (modP (\<lambda>s. case su_plan_depth s of None \<Rightarrow> s
         | Some n \<Rightarrow> if depth_of L tid (world s) \<le> n then s\<lparr>step_plan_active := False\<rparr> else s))
     (resolve_pending_step_scrubs L D tid))"

definition finish_step :: "'w lldb \<Rightarrow> 'w defense_env \<Rightarrow> (('w, 'z) step_dbg_scheme, string) py" where
  "finish_step L D = seqP (cancel_user_step L D) (retP ''done'')"

definition step_progress ::
    "'w lldb \<Rightarrow> 'w defense_env \<Rightarrow> 'w cloak_env \<Rightarrow> 'w step_env \<Rightarrow> ('w, 'z) step_dbg_scheme step_parts \<Rightarrow> int set \<Rightarrow> int \<Rightarrow> int list \<Rightarrow>
     (('w, 'z) step_dbg_scheme, string) py" where
  "step_progress L D C V T auto tid hit =
     bindP (getP step_target_depth) (\<lambda>target. case target of None \<Rightarrow> finish_step L D
      | Some n \<Rightarrow> bindP (step_breakpoints L D auto tid hit) (\<lambda>ended.
          if ended then retP ''done''
          else bindP (getP (\<lambda>s. depth_of L tid (world s))) (\<lambda>depth.
            if depth \<le> n then finish_step L D
            else seqP (hardware_step_out L D C V T tid) (retP ''more''))))"

definition advance_user_step ::
    "'w lldb \<Rightarrow> 'w defense_env \<Rightarrow> 'w cloak_env \<Rightarrow> 'w step_env \<Rightarrow> ('w, 'z) step_dbg_scheme step_parts \<Rightarrow> int set \<Rightarrow>
     (('w, 'z) step_dbg_scheme, string) py" where
  "advance_user_step L D C V T auto =
     bindP (getP (\<lambda>s. (step_active s, the_thread L (world s)))) (\<lambda>(active, t).
     if \<not> active then retP ''inactive''
     else case t of None \<Rightarrow> finish_step L D
     | Some t \<Rightarrow> if th_frame t = None then finish_step L D
       else seqP (step_settle L D C T (th_id t)) (step_progress L D C V T auto (th_id t) (step_hits t)))"


section \<open>What the components leave alone\<close>

text \<open>The state of a step, apart from what it still has to scrub.\<close>

definition step_core :: "('w, 'z) step_dbg_scheme \<Rightarrow> bool \<times> bool \<times> int option \<times> int option \<times> string option" where
  "step_core s = (step_active s, step_plan_active s, step_target_depth s, su_plan_depth s, su_policy s)"

definition step_inert :: "(('w, 'z) step_dbg_scheme \<Rightarrow> bool) \<Rightarrow> bool" where
  "step_inert I = (\<forall>s t. step_core s = step_core t \<longrightarrow> I s \<longrightarrow> I t)"

named_theorems inert \<open>operations that leave the state of a step alone\<close>

lemma step_inertD: "step_inert I \<Longrightarrow> I s \<Longrightarrow> step_core s = step_core t \<Longrightarrow> I t"
  unfolding step_inert_def by blast

lemma inert_frame [inert]: "step_inert I \<Longrightarrow> dbg_frame I"
  unfolding dbg_frame_def by (auto elim!: step_inertD simp: step_core_def)

lemma inert_mod: "step_inert I \<Longrightarrow> (\<And>s. step_core (f s) = step_core s) \<Longrightarrow> keepsP I (modP f)"
  by (rule keepsP_mod) (metis step_inertD)

lemma inert_runtime [inert]: "keepsP I m \<Longrightarrow> (\<And>t. keepsP I (h t)) \<Longrightarrow> keepsP I (on_runtime_error m h)"
  unfolding on_runtime_error_def by (intro keeps) (auto intro: keeps split: exn.splits)

lemma inert_critical [inert]: "step_inert I \<Longrightarrow> keepsP I (critical m)" "step_inert I \<Longrightarrow> keepsP I (crit m)"
  unfolding critical_def crit_def by (intro keeps inert_mod; simp add: step_core_def)+

lemma inert_remember [inert]: "step_inert I \<Longrightarrow> keepsP I (modP (remember_hardware_return L i))"
  by (rule keepsP_remember[OF inert_frame])

lemma inert_command [inert]: "step_inert I \<Longrightarrow> keepsP I (handle_command D c)"
  unfolding handle_command_def by (intro keeps inert)

lemma inert_eval [inert]: "step_inert I \<Longrightarrow> keepsP I (eval_pointer D e)" "step_inert I \<Longrightarrow> keepsP I (eval_integer D e)"
  unfolding eval_pointer_def eval_integer_def by (intro keeps inert; assumption)+

lemma inert_registers [inert]: "step_inert I \<Longrightarrow> keepsP I (set_reg L tid r v)" "step_inert I \<Longrightarrow> keepsP I (write_exact L D a d)"
  "step_inert I \<Longrightarrow> keepsP I (raw_write D a d)" "step_inert I \<Longrightarrow> keepsP I (sysctl_fail name what rolled)"
  unfolding set_reg_def write_exact_def raw_write_def sysctl_fail_def by (intro keeps inert; assumption)+

lemma inert_undo [inert]: "step_inert I \<Longrightarrow> keepsP I (sysctl_undo L D b d p e)"
  unfolding sysctl_undo_def by (intro keeps inert; assumption)

lemma inert_delete [inert]: "step_inert I \<Longrightarrow> keepsP I (ck_delete L C ids)"
  unfolding ck_delete_def ck_delete_one_def by (intro keeps inert inert_mod; simp add: step_core_def)

lemma inert_returns [inert]: "step_inert I \<Longrightarrow> keepsP I (parent_return L D tid b c r)"
  "step_inert I \<Longrightarrow> keepsP I (sysctl_probe L D name p d)" "step_inert I \<Longrightarrow> keepsP I (sysctl_write L D tid name b p d rec r)"
  "step_inert I \<Longrightarrow> keepsP I (recover_check L C tid name b p c d r)" "step_inert I \<Longrightarrow> keepsP I (cached_cstring D)"
  unfolding parent_return_def sysctl_probe_def sysctl_write_def recover_check_def cached_cstring_def Let_def
  by (intro keeps inert inert_mod; simp add: step_core_def)+

lemma inert_hook_return [inert]: "step_inert I \<Longrightarrow> keepsP I (sysctl_return L D C tid kind name b p c r)"
  "step_inert I \<Longrightarrow> keepsP I (image_return L D C tid r)"
  unfolding sysctl_return_def image_return_def Let_def by (intro keeps inert; assumption)+

lemma inert_handle_return [inert]: "step_inert I \<Longrightarrow> keepsP I (handle_return L D C (retP ()) False i t h)"
  unfolding handle_return_def hook_return_def resume_unless_failed_def
  by (intro keeps inert; (assumption | cases h; simp add: keeps inert))

lemma inert_arm [inert]: "step_inert I \<Longrightarrow> keepsP I (arm_return L tid a h strict failure)"
  unfolding arm_return_def by (intro keeps inert inert_mod; simp add: step_core_def)

lemma inert_finish [inert]: "step_inert I \<Longrightarrow> keepsP I (finish_entry (retP ()) False x)"
  unfolding finish_entry_def resume_unless_failed_def by (intro keeps inert)

lemma inert_cfstring [inert]: "step_inert I \<Longrightarrow> keepsP I (cfstring_text D C p)" "step_inert I \<Longrightarrow> keepsP I (cached_cfstring D key v)"
  unfolding cfstring_text_def cached_cfstring_def make_cfstring_def by (intro keeps inert inert_mod; simp add: step_core_def)+

lemma inert_iokit [inert]: "step_inert I \<Longrightarrow> keepsP I (iokit_answer L D (retP ()) False key v)"
  unfolding iokit_answer_def by (intro keeps inert)

lemma inert_entries [inert]: "step_inert I \<Longrightarrow> keepsP I (handle_entry L D C (retP ()) False t f kind)"
  unfolding handle_entry_def iokit_entry_def image_entry_def parent_entry_def sysctl_entry_def Let_def
  by (intro keeps inert)

lemma inert_hit [inert]: "step_inert I \<Longrightarrow> keepsP I (handle_hit L D C (retP ()) False i)"
  unfolding handle_hit_def by (intro keeps inert)

lemma inert_validate [inert]: "step_inert I \<Longrightarrow> keepsP I (validate_resume L C)" "step_inert I \<Longrightarrow> keepsP I (validate_integrity L C extra)"
  unfolding validate_resume_def validate_required_hooks_def validate_integrity_def refused_def
  by (intro keeps inert inert_mod; (simp add: step_core_def)?; auto intro!: keeps inert inert_mod simp: step_core_def split: exn.splits text_section.splits)+

lemma inert_scrub [inert]: "step_inert I \<Longrightarrow> keepsP I (scrub_flag L D kind b p)"
  unfolding scrub_flag_def scrub_traced_def scrub_debugger_name_def clear_flag_def by (intro keeps inert)

lemma inert_arm_scrub [inert]: "step_inert I \<Longrightarrow> keepsP I (arm_return_scrub L D t f kind b p)"
  unfolding arm_return_scrub_def Let_def by (intro keeps inert inert_mod; simp add: step_core_def)

lemma inert_consume [inert]: "step_inert I \<Longrightarrow> keepsP I (consume_scrub_return L D i t h)"
  unfolding consume_scrub_return_def by (intro keeps inert inert_mod; simp add: step_core_def)

lemma inert_step_scrubs [inert]: "step_inert I \<Longrightarrow> keepsP I (arm_step_scrub L D tid f kind)"
  "step_inert I \<Longrightarrow> keepsP I (arm_step_scrub_syscall L D tid f kind)" "step_inert I \<Longrightarrow> keepsP I (resolve_pending_step_scrubs L D tid)"
  unfolding arm_step_scrub_def arm_step_scrub_syscall_def queue_step_scrub_def resolve_pending_step_scrubs_def
  by (intro keeps inert inert_mod; simp add: step_core_def)+

lemma inert_action [inert]: "step_inert I \<Longrightarrow> keepsP I (defense_step_action L D i tid)"
  unfolding defense_step_action_def returns_def say_def Let_def
  by (intro keeps inert inert_mod; simp add: step_core_def)


text \<open>The components that look at stops do not touch the step.\<close>

definition parts_inert :: "('w, 'z) step_dbg_scheme step_parts \<Rightarrow> bool" where
  "parts_inert T = (\<forall>I. step_inert I \<longrightarrow> keepsP I (tp_entry T) \<and> keepsP I (tp_payloads T) \<and> keepsP I (tp_scripts T) \<and>
     keepsP I (tp_clock_observe T) \<and> keepsP I (tp_clock_ready T) \<and> keepsP I (tp_clock_stop T) \<and> keepsP I (tp_timing T) \<and>
     (\<forall>m. keepsP I (tp_gap T m) \<and> keepsP I (tp_capture T m)))"

lemma inert_parts [inert]:
  assumes "parts_inert T" "step_inert I"
  shows "keepsP I (tp_entry T)" "keepsP I (tp_payloads T)" "keepsP I (tp_scripts T)" "keepsP I (tp_clock_observe T)"
    "keepsP I (tp_clock_ready T)" "keepsP I (tp_clock_stop T)" "keepsP I (tp_timing T)" "keepsP I (tp_gap T m)" "keepsP I (tp_capture T m)"
  using assms unfolding parts_inert_def by blast+

lemma inert_run [inert]:
  assumes "parts_inert T" "step_inert I" "keepsP I action"
  shows "keepsP I (run_execution V T action)"
  unfolding run_execution_def require_decision_resolved_def no_error_def Let_def
  by (intro keeps inert inert_mod assms; simp add: step_core_def)

lemma inert_cont [inert]: "parts_inert T \<Longrightarrow> step_inert I \<Longrightarrow> keepsP I (cont L C V T)"
proof -
  assume a: "parts_inert T" "step_inert I"
  have "step_core (remember_continue_positions L s) = step_core s" for s
    by (simp add: remember_continue_positions_def step_core_def Let_def split: option.splits)
  then show ?thesis unfolding cont_def by (intro keeps inert inert_mod a; simp add: step_core_def)
qed

section \<open>How a step ends\<close>

definition policy_known :: "('w, 'z) step_dbg_scheme \<Rightarrow> bool" where
  "policy_known s = (su_policy s \<in> {None, Some ''true'', Some ''false''})"

text \<open>Setting the policy succeeds and is what LLDB then answers.\<close>

definition policy_law :: "'w defense_env \<Rightarrow> 'w step_env \<Rightarrow> bool" where
  "policy_law D V = (\<forall>p \<in> {''true'', ''false''}. \<forall>w. fst (fst (de_command D (POLICY @ p) w)) \<and>
     sv_policy V (snd (de_command D (POLICY @ p) w)) = p)"

definition step_ended :: "'w step_env \<Rightarrow> ('w, 'z) step_dbg_scheme \<Rightarrow> ('w, 'z) step_dbg_scheme \<Rightarrow> bool" where
  "step_ended V s t = (\<not> step_active t \<and> step_target_depth t = None \<and> su_scrubs t = [] \<and> \<not> step_plan_active t \<and>
     su_plan_depth t = None \<and> su_policy t = None \<and> (\<forall>p. su_policy s = Some p \<longrightarrow> sv_policy V (world t) = p))"

definition step_kept :: "('w, 'z) step_dbg_scheme \<Rightarrow> ('w, 'z) step_dbg_scheme \<Rightarrow> bool" where
  "step_kept s t = (step_active t = step_active s \<and> step_target_depth t = step_target_depth s \<and> su_policy t = su_policy s)"

lemma step_kept_refl [simp]: "step_kept s s" by (simp add: step_kept_def)

lemma step_kept_inert: "step_inert (step_kept s)"
  by (auto simp: step_inert_def step_kept_def step_core_def)

lemma ended_kept: "step_kept s u \<Longrightarrow> step_ended V u t \<Longrightarrow> step_ended V s t"
  by (simp add: step_kept_def step_ended_def)

lemma wp_cancel:
  assumes "policy_law D V" "policy_known s"
  shows "wpP (cancel_user_step L D) (\<lambda>_ t. step_ended V s t) E s"
proof -
  have p: "sv_policy V (snd (de_command D (POLICY @ p) w)) = p" if "su_policy s = Some p" for p w
    using assms that unfolding policy_law_def policy_known_def by auto
  then show ?thesis by (auto simp: cancel_user_step_def wp step_ended_def split: option.splits)
qed

text \<open>An invariant kept by normal ends; an exception may leave another.\<close>

definition leavesP :: "('s \<Rightarrow> bool) \<Rightarrow> ('s \<Rightarrow> bool) \<Rightarrow> ('s, 'a) py \<Rightarrow> bool" where
  "leavesP I J m = (\<forall>s. I s \<longrightarrow> wpP m (\<lambda>_. I) (\<lambda>_. J) s)"

named_theorems leaves \<open>rules for an invariant and what exceptions leave\<close>

lemma leavesP_keeps: "keepsP I m \<Longrightarrow> (\<And>t. I t \<Longrightarrow> J t) \<Longrightarrow> leavesP I J m"
  unfolding leavesP_def by (auto intro: wpP_weaken[OF keepsP_use])

lemma leavesP_bind [leaves]: "leavesP I J m \<Longrightarrow> (\<And>x. leavesP I J (f x)) \<Longrightarrow> leavesP I J (bindP m f)"
  unfolding leavesP_def wp by (blast intro: wpP_weaken)

lemma leavesP_seq [leaves]: "leavesP I J m \<Longrightarrow> leavesP I J n \<Longrightarrow> leavesP I J (seqP m n)"
  unfolding seqP_def by (rule leavesP_bind)

lemma leavesP_if [leaves]: "leavesP I J m \<Longrightarrow> leavesP I J n \<Longrightarrow> leavesP I J (if b then m else n)"
  by simp

lemma leavesP_option [leaves]:
  "leavesP I J m \<Longrightarrow> (\<And>x. leavesP I J (f x)) \<Longrightarrow> leavesP I J (case r of None \<Rightarrow> m | Some x \<Rightarrow> f x)"
  by (cases r) simp_all

lemma leavesP_pair [leaves]: "(\<And>a b. leavesP I J (f a b)) \<Longrightarrow> leavesP I J (case x of (a, b) \<Rightarrow> f a b)"
  by (cases x) simp

lemma leavesP_D: "leavesP I J m \<Longrightarrow> I s \<Longrightarrow> wpP m (\<lambda>_. I) (\<lambda>_. J) s"
  unfolding leavesP_def by blast

definition kept_or_ended :: "'w step_env \<Rightarrow> ('w, 'z) step_dbg_scheme \<Rightarrow> ('w, 'z) step_dbg_scheme \<Rightarrow> bool" where
  "kept_or_ended V s t = (step_kept s t \<or> step_ended V s t)"

lemma leaves_inert: "(\<And>I. step_inert I \<Longrightarrow> keepsP I m) \<Longrightarrow> leavesP (step_kept s) (kept_or_ended V s) m"
  by (rule leavesP_keeps) (simp_all add: step_kept_inert kept_or_ended_def)

lemma leaves_plan: "leavesP (step_kept s) (kept_or_ended V s) (modP (\<lambda>s. if b s then s\<lparr>step_plan_active := False\<rparr> else s))"
  by (rule leavesP_keeps) (auto intro!: keepsP_mod simp: step_kept_def kept_or_ended_def)

lemma leaves_cancel:
  assumes "policy_law D V" "policy_known s"
  shows "leavesP (step_kept s) (kept_or_ended V s) (seqP (cancel_user_step L D) (raiseP e))"
  unfolding leavesP_def wp
proof (intro allI impI)
  fix u assume u: "step_kept s u"
  then have k: "policy_known u" using assms(2) by (simp add: policy_known_def step_kept_def)
  show "wpP (cancel_user_step L D) (\<lambda>_. kept_or_ended V s) (\<lambda>_. kept_or_ended V s) u"
    by (rule wpP_weaken[OF wp_cancel[OF assms(1) k]]) (auto dest: ended_kept[OF u] simp: kept_or_ended_def)
qed

lemma leaves_stop:
  assumes T: "parts_inert T" and laws: "policy_law D V" "policy_known s"
  shows "leavesP (step_kept s) (kept_or_ended V s) (process_cloak_step_stop L D C T tid)"
proof -
  have plan: "leavesP (step_kept s) (kept_or_ended V s) (whenP b (modP (\<lambda>s. s\<lparr>step_plan_active := False\<rparr>)))" for b
    by (rule leavesP_keeps) (auto intro!: keeps keepsP_mod simp: step_kept_def kept_or_ended_def)
  have hit: "leavesP (step_kept s) (kept_or_ended V s) (cloak_step_hit L D C tid pc legacy i handled)" for pc legacy i handled
    unfolding cloak_step_hit_def say_def
    by (intro leaves plan leaves_cancel[OF laws] leaves_inert) (intro keeps inert inert_mod; simp add: step_core_def)+
  have hits: "leavesP (step_kept s) (kept_or_ended V s) (cloak_step_hits L D C tid pc legacy ids handled)" for pc legacy ids handled
  proof (induction ids arbitrary: handled)
    case Nil
    show ?case by (simp, rule leaves_inert, rule keeps)
  next
    case (Cons i ids)
    show ?case by (simp, intro leaves hit Cons.IH, rule leaves_inert, rule keeps)
  qed
  show ?thesis
    unfolding process_cloak_step_stop_def Let_def
    by (intro leaves hits leaves_inert) (intro keeps inert inert_mod T; simp add: step_core_def)+
qed

lemma wp_hardware_step_out:
  assumes T: "parts_inert T" and laws: "policy_law D V" and k: "policy_known s"
  shows "wpP (hardware_step_out L D C V T tid)
     (\<lambda>_ t. step_active t = step_active s \<and> step_target_depth t = step_target_depth s \<and> policy_known t \<and> (su_policy s \<noteq> None \<longrightarrow> su_policy t = su_policy s))
     (\<lambda>_ t. step_ended V s t \<or> step_active t = step_active s \<and> step_target_depth t = step_target_depth s \<and> policy_known t) s"
proof -
  have run: "keepsP I (seqP (run_execution V T (ran (onW f))) (retP ()))" if "step_inert I" for I and f :: "'a \<Rightarrow> unit \<times> 'a"
    unfolding ran_def using that by (intro keeps inert T)
  have plan: "keepsP (step_kept u) (step_out_plan L V T tid)" for u
    unfolding step_out_plan_def by (intro keepsP_seq[OF keepsP_mod] run step_kept_inert) (simp add: step_kept_def)
  have kept: "wpP m (\<lambda>_ t. step_active t = step_active s \<and> step_target_depth t = step_target_depth s \<and> policy_known t \<and> (su_policy s \<noteq> None \<longrightarrow> su_policy t = su_policy s))
     (\<lambda>_ t. step_ended V s t \<or> step_active t = step_active s \<and> step_target_depth t = step_target_depth s \<and> policy_known t) s"
    if "keepsP (step_kept s) m" for m :: "(('a, 'b) step_dbg_scheme, unit) py"
    using k by (intro wpP_weaken[OF keepsP_use[OF that]]) (auto simp: step_kept_def policy_known_def)
  have fresh: "wpP (cleanupP (step_out_plan L V T tid) (cancel_user_step L D))
      (\<lambda>_ t. step_active t = step_active s \<and> step_target_depth t = step_target_depth s \<and> policy_known t)
      (\<lambda>_ t. step_ended V s t) u"
    if u: "step_active u = step_active s" "step_target_depth u = step_target_depth s" "policy_known u" "su_policy s = None" for u
    unfolding wp
  proof (rule wpP_weaken[OF keepsP_use[OF plan step_kept_refl]], goal_cases)
    case (1 x t)
    then show ?case using u by (simp add: step_kept_def policy_known_def)
  next
    case (2 e t)
    then have "policy_known t" using u by (simp add: step_kept_def policy_known_def)
    then show ?case by (rule wpP_weaken[OF wp_cancel[OF laws]]) (use u in \<open>auto simp: step_ended_def\<close>)
  qed
  define Q where "Q = (\<lambda>(_ :: unit) (t :: ('a, 'b) step_dbg_scheme). step_active t = step_active s \<and> step_target_depth t = step_target_depth s \<and>
     policy_known t \<and> (su_policy s \<noteq> None \<longrightarrow> su_policy t = su_policy s))"
  define E where "E = (\<lambda>(_ :: exn) (t :: ('a, 'b) step_dbg_scheme). step_ended V s t \<or> step_active t = step_active s \<and>
     step_target_depth t = step_target_depth s \<and> policy_known t)"
  have here: "E e s" for e using k by (simp add: E_def)
  have new: "wpP (bindP (onW (de_command D (POLICY @ ''true''))) (\<lambda>(ok, out, err).
           seqP (checkP ok (RuntimeError (''could not require hardware stepping: '' @ err)))
           (seqP (modP (\<lambda>s. s\<lparr>su_policy := Some previous\<rparr>))
           (cleanupP (step_out_plan L V T tid) (cancel_user_step L D))))) Q E s"
    if "previous = ''true'' \<or> previous = ''false''" "su_policy s = None" for previous
  proof -
    have ok: "fst (fst (de_command D (POLICY @ ''true'') (world s)))" using laws by (simp add: policy_law_def)
    have "wpP (cleanupP (step_out_plan L V T tid) (cancel_user_step L D)) Q E
        (s\<lparr>world := snd (de_command D (POLICY @ ''true'') (world s)), su_policy := Some previous\<rparr>)"
      by (rule wpP_weaken[OF fresh]) (use that in \<open>auto simp: policy_known_def Q_def E_def\<close>)
    then show ?thesis using ok by (simp add: wpP_bind(1,2) wpP_simps wpP_onW split_beta)
  qed
  have "wpP (hardware_step_out L D C V T tid) Q E s"
  proof (cases "cloak_enabled s")
    case False
    then show ?thesis using kept[OF run[OF step_kept_inert], folded Q_def E_def]
      by (simp add: hardware_step_out_def wpP_bind(1)[of "getP _"] wpP_simps(3))
  next
    case True
    then show ?thesis
      using kept[OF inert_cont[OF T step_kept_inert], folded Q_def E_def] kept[OF plan, folded Q_def E_def] here new
      by (auto simp: hardware_step_out_def check_step_out_frame_def require_step_slot_def wpP_bind(1)[of "getP _"] wpP_bind(2) wpP_bind(1) wpP_simps
        split: sum.splits)
  qed
  then show ?thesis unfolding Q_def E_def .
qed

lemma wp_step_breakpoints:
  assumes laws: "policy_law D V" "policy_known s" and u: "step_kept s u"
  shows "wpP (step_breakpoints L D auto tid hit) (\<lambda>ended t. if ended then step_ended V s t else step_kept s t \<and> set hit \<subseteq> auto)
     (\<lambda>_. kept_or_ended V s) u"
proof -
  have k: "policy_known u" using laws(2) u by (simp add: policy_known_def step_kept_def)
  have acts: "leavesP (step_kept s) (kept_or_ended V s) (seqP (forP (\<lambda>i. defense_step_action L D i tid) hit)
          (seqP (modP (\<lambda>s. if depth_of L tid (world s) < before then s\<lparr>step_plan_active := False\<rparr> else s)) (retP False)))" for before
    by (intro leaves leaves_plan leaves_inert) (intro keeps inert; assumption)+
  show ?thesis
  proof (cases "hit \<noteq> [] \<and> \<not> set hit \<subseteq> auto")
    case True
    then show ?thesis
      by (simp add: step_breakpoints_def wp) (rule wpP_weaken[OF wp_cancel[OF laws(1) k]], auto dest: ended_kept[OF u])
  next
    case False
    have fin: "wpP (seqP (forP (\<lambda>i. defense_step_action L D i tid) hit)
          (seqP (modP (\<lambda>s. if depth_of L tid (world s) < before then s\<lparr>step_plan_active := False\<rparr> else s)) (retP False)))
        (\<lambda>r t. \<not> r \<and> step_kept s t) (\<lambda>_. kept_or_ended V s) u" for before
    proof -
      have "wpP (seqP (forP (\<lambda>i. defense_step_action L D i tid) hit)
          (seqP (modP (\<lambda>s. if depth_of L tid (world s) < before then s\<lparr>step_plan_active := False\<rparr> else s)) (retP False)))
        (\<lambda>r t. \<not> r) (\<lambda>_ _. True) u"
        by (simp add: wp) (rule wpP_I; simp)
      from wpP_conj[OF this leavesP_D[OF acts u]] show ?thesis by (auto elim: wpP_weaken)
    qed
    show ?thesis using False u
      by (cases "hit = []") (auto simp: step_breakpoints_def wpP_bind(1)[of "getP _"] wpP_simps intro!: wpP_weaken[OF fin])
  qed
qed

lemma leaves_settle:
  assumes T: "parts_inert T" and law: "policy_law D V" "policy_known s"
  shows "leavesP (step_kept s) (kept_or_ended V s) (step_settle L D C T tid)"
proof -
  have plan: "leavesP (step_kept s) (kept_or_ended V s) (modP (\<lambda>s. case su_plan_depth s of None \<Rightarrow> s
           | Some n \<Rightarrow> if depth_of L tid (world s) \<le> n then s\<lparr>step_plan_active := False\<rparr> else s))"
    by (rule leavesP_keeps) (auto intro!: keepsP_mod simp: step_kept_def kept_or_ended_def split: option.splits)
  show ?thesis unfolding step_settle_def
    by (intro leaves leaves_stop[OF T law] plan leaves_inert) (rule inert)
qed

definition step_outcome :: "'w lldb \<Rightarrow> 'w step_env \<Rightarrow> int set \<Rightarrow> int list \<Rightarrow> ('w, 'z) step_dbg_scheme \<Rightarrow> string \<Rightarrow> ('w, 'z) step_dbg_scheme \<Rightarrow> bool" where
  "step_outcome L V auto hit s r t =
     (r = ''done'' \<and> step_ended V s t \<or>
      r = ''more'' \<and> step_active t \<and> step_target_depth t = step_target_depth s \<and> step_target_depth s \<noteq> None \<and> policy_known t \<and> set hit \<subseteq> auto)"

definition step_failed :: "'w step_env \<Rightarrow> ('w, 'z) step_dbg_scheme \<Rightarrow> ('w, 'z) step_dbg_scheme \<Rightarrow> bool" where
  "step_failed V s t = (step_ended V s t \<or> step_active t \<and> step_target_depth t = step_target_depth s \<and> policy_known t)"

lemma wp_finish_step:
  assumes "policy_law D V" "policy_known s" "step_kept s u"
  shows "wpP (finish_step L D) (step_outcome L V auto hit s) E u"
proof -
  have "policy_known u" using assms(2,3) by (simp add: policy_known_def step_kept_def)
  then show ?thesis unfolding finish_step_def wp
    by (intro wpP_weaken[OF wp_cancel[OF assms(1)]]) (auto simp: step_outcome_def dest: ended_kept[OF assms(3)])
qed

lemma wp_step_progress:
  assumes T: "parts_inert T" and law: "policy_law D V" and k: "policy_known s" and u: "step_kept s u" "step_active s"
  shows "wpP (step_progress L D C V T auto tid hit) (step_outcome L V auto hit s) (\<lambda>_. step_failed V s) u"
proof (cases "step_target_depth u")
  case None
  then show ?thesis using wp_finish_step[OF law k u(1)] by (simp add: step_progress_def wpP_bind(1)[of "getP _"] wpP_simps)
next
  case (Some n)
  have known: "policy_known v" if "step_kept s v" for v using k that by (simp add: policy_known_def step_kept_def)
  have target: "step_target_depth s = Some n" using u(1) Some by (simp add: step_kept_def)
  have out: "wpP (seqP (hardware_step_out L D C V T tid) (retP ''more'')) (step_outcome L V auto hit s) (\<lambda>_. step_failed V s) v"
    if v: "step_kept s v" "set hit \<subseteq> auto" for v
    unfolding wp
    by (rule wpP_weaken[OF wp_hardware_step_out[OF T law known[OF v(1)]]])
      (use v u(2) target ended_kept[OF v(1)] in \<open>auto simp: step_outcome_def step_failed_def step_kept_def\<close>)
  have "wpP (step_breakpoints L D auto tid hit) (\<lambda>ended. wpP (if ended then retP ''done''
          else bindP (getP (\<lambda>s. depth_of L tid (world s))) (\<lambda>depth.
            if depth \<le> n then finish_step L D
            else seqP (hardware_step_out L D C V T tid) (retP ''more''))) (step_outcome L V auto hit s) (\<lambda>_. step_failed V s))
      (\<lambda>_. step_failed V s) u"
  proof (rule wpP_weaken[OF wp_step_breakpoints[OF law k u(1)]], goal_cases)
    case (1 ended v)
    then show ?case using out[of v] wp_finish_step[OF law k, of v]
      by (cases ended) (simp_all add: wpP_bind(1)[of "getP _"] wpP_simps step_outcome_def)
  next
    case (2 e v)
    then show ?case using known[of v] u(2) by (auto simp: kept_or_ended_def step_failed_def step_kept_def)
  qed
  then show ?thesis using Some by (simp add: step_progress_def wpP_bind(1) wpP_simps)
qed

text \<open>
  C33. A stop during a step has one of three outcomes. Without a step in flight nothing happens. A step
  that is done leaves no trace: no target depth, no deferred scrub, no plan, and LLDB's policy on
  hardware breakpoints is what it was when the step took it over. A step goes on only towards the
  same frame, and never past a breakpoint of the user. If an error ends the stop, the step is
  finished in the same way or still in flight, with the policy remembered.
\<close>

theorem step_stop_outcome:
  fixes s :: "('w, 'z) step_dbg_scheme"
  assumes T: "parts_inert T" and law: "policy_law D V" and k: "policy_known s"
  shows "case advance_user_step L D C V T auto s of
      (Inr r, t) \<Rightarrow> if step_active s then step_outcome L V auto (case the_thread L (world s) of None \<Rightarrow> [] | Some t0 \<Rightarrow> step_hits t0) s r t
        else r = ''inactive'' \<and> t = s
    | (Inl e, t) \<Rightarrow> step_active s \<and> step_failed V s t"
proof -
  define hit where "hit = (case the_thread L (world s) of None \<Rightarrow> [] | Some t0 \<Rightarrow> step_hits t0)"
  have "wpP (advance_user_step L D C V T auto) (\<lambda>r t. if step_active s then step_outcome L V auto hit s r t else r = ''inactive'' \<and> t = s)
     (\<lambda>_ t. step_active s \<and> step_failed V s t) s"
  proof (cases "step_active s \<and> (\<exists>t. the_thread L (world s) = Some t \<and> th_frame t \<noteq> None)")
    case False
    then show ?thesis using wp_finish_step[OF law k step_kept_refl]
      by (auto simp: advance_user_step_def wpP_bind(1)[of "getP _"] wpP_simps split: option.splits)
  next
    case True
    then obtain t where t: "the_thread L (world s) = Some t" "th_frame t \<noteq> None" and active: "step_active s" by blast
    have fails: "step_failed V s v" if "kept_or_ended V s v" for v
      using that k active by (auto simp: step_failed_def kept_or_ended_def step_kept_def policy_known_def)
    have "wpP (seqP (step_settle L D C T (th_id t)) (step_progress L D C V T auto (th_id t) (step_hits t)))
        (step_outcome L V auto hit s) (\<lambda>_. step_failed V s) s"
      unfolding wpP_bind
      by (rule wpP_weaken[OF leavesP_D[OF leaves_settle[OF T law k] step_kept_refl]])
        (use wp_step_progress[OF T law k _ active] t(1) fails in \<open>simp_all add: hit_def\<close>)
    then show ?thesis using t active by (auto simp: advance_user_step_def wpP_bind(1)[of "getP _"] wpP_simps)
  qed
  then show ?thesis unfolding wpP_def hit_def by (auto split: sum.splits prod.splits)
qed

section \<open>A step over a call, and one instruction\<close>

definition demo_parts :: "demo_world step_dbg step_parts" where
  "demo_parts = \<lparr>tp_trap = (\<lambda>s. None), tp_plan = (\<lambda>s. None), tp_entry = retP (), tp_payloads = retP (), tp_scripts = retP (),
     tp_clock_observe = retP (), tp_clock_ready = retP (), tp_clock_stop = retP (), tp_timing = retP [], tp_timed = (\<lambda>s. False),
     tp_gap = (\<lambda>m. retP ()), tp_capture = (\<lambda>m. retP ()), tp_extra = (\<lambda>s. {})\<rparr>"

text \<open>The last policy that was set, in a log of commands.\<close>

definition demo_policy :: "demo_world \<Rightarrow> string" where
  "demo_policy w = (case rev (filter (\<lambda>c. starts_with c POLICY) (dw_log w)) of [] \<Rightarrow> ''false'' | c # _ \<Rightarrow> drop (length POLICY) c)"

definition logged :: "string \<Rightarrow> demo_world \<Rightarrow> demo_world" where
  "logged c w = w\<lparr>dw_log := dw_log w @ [c]\<rparr>"

definition demo_plans :: "demo_world step_env" where
  "demo_plans = \<lparr>sv_inlined = (\<lambda>w t. False), sv_mnemonic = (\<lambda>w a. Some ''bl''), sv_policy = demo_policy, sv_pc = (\<lambda>w. None),
     sv_continue = (\<lambda>w. (None, logged ''continue'' w)), sv_instruction = (\<lambda>t w. ((), logged ''step'' w)),
     sv_out = (\<lambda>t w. ((), logged ''out'' w)), sv_source = (\<lambda>b t w. ((), w)), sv_oneshot = (\<lambda>i w. ((), w)), sv_now = (\<lambda>w. 0)\<rparr>"

definition demo_commands :: "demo_world defense_env" where
  "demo_commands = \<lparr>de_by_name = (\<lambda>n m w. (None, w)), de_at = (\<lambda>a w. (0, w)), de_write = (\<lambda>a d w. ((True, int (length d)), w)),
     de_command = (\<lambda>c w. ((True, [], []), logged c w))\<rparr>"

definition demo_stepping :: "demo_world step_dbg" where
  "demo_stepping = sandbox_dbg.extend (demo_forking\<lparr>step_active := True, step_target_depth := Some 5\<rparr>)
     \<lparr>su_plan_depth = None, su_scrubs = [], su_policy = Some ''true'', su_messages = [], su_handled = None, su_clock = False,
      su_pauses = pause_reset, su_hw = False\<rparr>"

lemma demo_policy_law: "policy_law demo_commands demo_plans"
proof -
  have "starts_with (POLICY @ p) POLICY" for p by (simp add: starts_with_def)
  then show ?thesis by (simp add: policy_law_def demo_commands_def demo_plans_def demo_policy_def logged_def)
qed

lemma demo_parts_inert: "parts_inert demo_parts"
  by (simp add: parts_inert_def demo_parts_def keeps)

lemma demo_step_done: "fst (advance_user_step demo_lldb demo_commands demo_cloak_env demo_plans demo_parts {1} demo_stepping) = Inr ''done''"
  by code_simp

lemma step_stop_outcome_witness:
  "step_active demo_stepping \<and> policy_known demo_stepping \<and>
   (case advance_user_step demo_lldb demo_commands demo_cloak_env demo_plans demo_parts {1} demo_stepping of (r, t) \<Rightarrow>
      r = Inr ''done'' \<and> \<not> step_active t \<and> demo_policy (world t) = ''true'')"
proof -
  have k: "policy_known demo_stepping" "step_active demo_stepping" "su_policy demo_stepping = Some ''true''"
    by (simp_all add: policy_known_def demo_stepping_def sandbox_dbg.defs)
  obtain r t where r: "advance_user_step demo_lldb demo_commands demo_cloak_env demo_plans demo_parts {1} demo_stepping = (r, t)" by force
  then have d: "r = Inr ''done''" using demo_step_done by simp
  show ?thesis
    using step_stop_outcome[OF demo_parts_inert demo_policy_law k(1), where L = demo_lldb and C = demo_cloak_env and auto = "{1}"] r d k
    by (simp add: step_outcome_def step_ended_def demo_plans_def)
qed

end
