(* ===== verification/NetworkCapture.thy ===== *)
theory NetworkCapture
  imports HttpCapture Lldb Markers JsonRead Regex
begin

text \<open>
  \<open>macdbg/core/network_capture.py\<close>: what is sent, seen at the entry of the calls that send it:
  socket calls, TLS libraries before encryption, and Foundation requests read through getters.
  The buffers of one connection are fed to its stream of \<open>HttpCapture\<close>. What the stopped target
  answers (registers, memory, expressions) is given by \<open>net_env\<close>; a read may be short. Header
  dictionaries are printed by the target as UTF-8. The content type only steers interpretations
  that are left out there.
\<close>

section \<open>The calls\<close>

definition TLS_WRITES :: "string list" where
  "TLS_WRITES = [''SSL_write'', ''SSL_write_ex'', ''SSLWrite'', ''BoringSSL_SSL_write'',
    ''mbedtls_ssl_write'', ''wolfSSL_write'', ''gnutls_record_send'', ''tls_write'',
    ''crypto/tls.(*Conn).Write'']"

definition TLS_CLOSES :: "(string, string list) odict" where
  "TLS_CLOSES = [(''SSL_free'', [''SSL_write'', ''SSL_write_ex'']), (''SSLDisposeContext'', [''SSLWrite'']),
    (''BoringSSL_SSL_free'', [''BoringSSL_SSL_write'']), (''mbedtls_ssl_free'', [''mbedtls_ssl_write'']),
    (''wolfSSL_free'', [''wolfSSL_write'']), (''gnutls_deinit'', [''gnutls_record_send'']),
    (''tls_free'', [''tls_write'']), (''EVP_AEAD_CTX_cleanup'', [''EVP_AEAD_CTX_seal''])]"

text \<open>
  \<open>RUSTLS_WRITE_PATTERN\<close>: \<open>rustls.*conn.*Writer.*::write(_vectored)?(::h[0-9a-f]+)?$\<close>, searched;
  a \<open>$\<close> matches before a last line break too. The result is the first group.
\<close>

definition rRustlsWrite :: rx where
  "rRustlsWrite = (let any = Star (Cls (\<lambda>c. byte_val c \<noteq> 10)) in
     Seqs [Str ''rustls'', any, Str ''conn'', any, Str ''Writer'', any, Str ''::write'',
       Opt (Grp 1 (Str ''_vectored'')), Opt (Grp 2 (Seq (Str ''::h'') (Plus (one_of ''0123456789abcdef''))))])"

fun search_end :: "rx \<Rightarrow> string \<Rightarrow> groups option" where
  "search_end r [] = (case rx_run r [] [] of [] \<Rightarrow> None | (_, g) # _ \<Rightarrow> Some g)"
| "search_end r (c # s) = (case filter (\<lambda>(t, g). t = [] \<or> t = [val_byte 10]) (rx_run r (c # s) []) of
     (_, g) # _ \<Rightarrow> Some g
   | [] \<Rightarrow> search_end r s)"

definition rustls_write :: "string \<Rightarrow> string option option" where
  "rustls_write function = map_option (grp 1) (search_end rRustlsWrite function)"

text \<open>\<open>name.lstrip("_").split("$", 1)[0]\<close>\<close>

definition api_name :: "string \<Rightarrow> string" where
  "api_name name = fst (cut_at ''$'' (lstrip_by (\<lambda>c. c = CHR ''_'') name))"

section \<open>What the target answers\<close>

record net_env =
  ne_uid :: int
  ne_pid :: int
  ne_tid :: int
  ne_frame :: frame
  ne_caller :: "string option"
  ne_eval :: "string \<Rightarrow> int option"
  ne_memory :: "addr \<Rightarrow> nat \<Rightarrow> bytes"

definition net_reg :: "net_env \<Rightarrow> string \<Rightarrow> int" where
  "net_reg V r = reg_unsigned (ne_frame V) r"

definition net_read :: "net_env \<Rightarrow> addr \<Rightarrow> int \<Rightarrow> nat \<Rightarrow> bytes" where
  "net_read V a n cap = (if a = 0 \<or> n \<le> 0 then [] else ne_memory V a (min (nat n) cap))"

definition net_integer :: "net_env \<Rightarrow> string \<Rightarrow> int res" where
  "net_integer V e = (case ne_eval V e of None \<Rightarrow> Inl (ValueError ''request getter unavailable'') | Some v \<Rightarrow> Inr v)"

definition getter :: "int \<Rightarrow> string \<Rightarrow> string" where
  "getter obj message = ''(unsigned long)[(id)'' @ py_str obj @ '' '' @ message @ '']''"

text \<open>\<open>data.decode("utf-8")\<close>: \<open>UnicodeDecodeError\<close> is a \<open>ValueError\<close>.\<close>

definition utf8_text :: "bytes \<Rightarrow> string res" where
  "utf8_text data = (if None \<in> set (utf8 data) then Inl (ValueError ''invalid utf-8'')
     else Inr (shown (map the (utf8 data))))"

definition net_string :: "net_env \<Rightarrow> string \<Rightarrow> string option res" where
  "net_string V expression = bindR (net_integer V (''(unsigned long)(id)('' @ expression @ '')'')) (\<lambda>obj.
     if obj = 0 then Inr None
     else bindR (net_integer V (getter obj ''lengthOfBytesUsingEncoding:4'')) (\<lambda>size.
       bindR (net_integer V (getter obj ''UTF8String'')) (\<lambda>ptr.
       let data = net_read V ptr size HEADER_LIMIT in
       if int (length data) \<noteq> size then Inl (ValueError ''request string exceeds limit or is unreadable'')
       else bindR (utf8_text data) (\<lambda>t. Inr (Some t)))))"

definition short_status :: "bytes \<Rightarrow> int \<Rightarrow> body_status option" where
  "short_status data len = (if int (length data) < min len (int CAPTURE_LIMIT) then Some Unreadable else None)"

definition net_data :: "net_env \<Rightarrow> int \<Rightarrow> body_rec res" where
  "net_data V obj =
     (if obj = 0 then Inr (record_bytes [] (Some 0) None)
      else bindR (net_integer V (getter obj ''length'')) (\<lambda>len.
        bindR (if len \<noteq> 0 then net_integer V (getter obj ''bytes'') else Inr 0) (\<lambda>ptr.
        let data = net_read V ptr len CAPTURE_LIMIT in
        Inr (record_bytes data (Some len) (short_status data len)))))"

section \<open>Foundation requests\<close>

record app_request =
  ar_stage :: string
  ar_object :: string
  ar_task :: "string option"
  ar_method :: string
  ar_url :: string
  ar_headers :: "(string \<times> json) list"
  ar_warnings :: "string list"
  ar_body :: body_rec
  ar_source :: "string option"
  ar_complete :: bool

definition unavailable_body :: body_rec where
  "unavailable_body = record_bytes [] None (Some Unavailable)"

text \<open>A text of the request and the warning that it is missing.\<close>

definition text_or_warning :: "string \<Rightarrow> string option res \<Rightarrow> string \<times> string list" where
  "text_or_warning key r = (case r of Inl e \<Rightarrow> ([], [key @ '' unavailable''])
     | Inr None \<Rightarrow> ([], []) | Inr (Some t) \<Rightarrow> (t, []))"

definition header_fields :: "net_env \<Rightarrow> int \<Rightarrow> (string \<times> json) list res" where
  "header_fields V obj = bindR (net_integer V (getter obj ''allHTTPHeaderFields'')) (\<lambda>headers.
     if headers = 0 then Inr []
     else bindR (net_integer V (''(unsigned long)[(id)objc_getClass('' @ [DQ] @ ''NSJSONSerialization'' @ [DQ] @
            '') dataWithJSONObject:(id)'' @ py_str headers @ '' options:0 error:0]'')) (\<lambda>encoded.
       if encoded = 0 then Inl (ValueError ''headers unavailable'')
       else bindR (net_integer V (getter encoded ''length'')) (\<lambda>len.
         if len > int HEADER_LIMIT then Inl (ValueError ''headers exceed 64 KiB capture limit'')
         else bindR (net_integer V (getter encoded ''bytes'')) (\<lambda>ptr.
           bindR (utf8_text (net_read V ptr len HEADER_LIMIT)) (\<lambda>t.
           bindR (loads t) (\<lambda>values. case values of
               JObj kvs \<Rightarrow> Inr kvs
             | _ \<Rightarrow> Inl (PyError ''AttributeError'' ''items'')))))))"

definition header_named :: "string \<Rightarrow> (string \<times> json) list \<Rightarrow> json" where
  "header_named name hs = (case find (\<lambda>(k, v). py_lower k = name) hs of Some (k, v) \<Rightarrow> v | None \<Rightarrow> JStr [])"

text \<open>\<open>content_encoding.lower().strip() != "identity"\<close>, where the header value may be any JSON.\<close>

definition encoded_body :: "json \<Rightarrow> bool res" where
  "encoded_body v = (if \<not> truthy v then Inr False
     else case v of JStr s \<Rightarrow> Inr (py_strip (py_lower s) \<noteq> ''identity'')
       | _ \<Rightarrow> Inl (PyError ''AttributeError'' ''lower''))"

text \<open>The body, where it came from, and what to warn about.\<close>

definition request_body :: "net_env \<Rightarrow> string \<Rightarrow> int \<Rightarrow> bool \<Rightarrow> (body_rec \<times> string \<times> string list) res" where
  "request_body V name obj resume =
     (if py_find ''fromData:'' name \<noteq> None then
        bindR (net_data V (net_reg V ''x3'')) (\<lambda>b. Inr (b, ''upload data argument'', []))
      else if py_find ''fromFile:'' name \<noteq> None then
        Inr (unavailable_body, ''upload file'', [''file upload body is not read at this hook''])
      else if py_find ''uploadTaskWithStreamedRequest:'' name \<noteq> None then
        Inr (unavailable_body, ''upload stream'', [''request body stream is not consumed''])
      else bindR (net_integer V (getter obj ''HTTPBody'')) (\<lambda>data.
        bindR (if data \<noteq> 0 then Inr 0 else net_integer V (getter obj ''HTTPBodyStream'')) (\<lambda>stream.
        bindR (if data \<noteq> 0 then net_data V data
               else Inr (if stream \<noteq> 0 \<or> resume then unavailable_body else record_bytes [] (Some 0) None)) (\<lambda>b.
        Inr (b, if data \<noteq> 0 then ''HTTPBody'' else if stream \<noteq> 0 then ''HTTPBodyStream'' else ''none'',
          if stream \<noteq> 0 then [''request body stream is not consumed'']
          else if resume \<and> data = 0 then [''task request has no retained body; see creation/write captures'']
          else [])))))"

definition is_resume :: "string \<Rightarrow> bool" where
  "is_resume name = ends_with name '' resume]''"

definition foundation_request :: "net_env \<Rightarrow> string \<Rightarrow> app_request option res" where
  "foundation_request V name = (let resume = is_resume name in
     bindR (if resume then net_integer V (getter (net_reg V ''x0'') ''currentRequest'')
            else Inr (net_reg V ''x2'')) (\<lambda>obj.
     if obj = 0 then Inr None
     else let (method', w1) = text_or_warning ''method'' (net_string V (''(id)[(id)'' @ py_str obj @ '' HTTPMethod]''));
            (url, w2) = text_or_warning ''url'' (net_string V (''(id)[(id)[(id)'' @ py_str obj @ '' URL] absoluteString]''));
            got = header_fields V obj;
            hs = (case got of Inl e \<Rightarrow> [] | Inr kvs \<Rightarrow> kvs);
            w3 = (case got of Inl e \<Rightarrow> [''request headers unavailable or exceed 64 KiB''] | Inr kvs \<Rightarrow> []) in
       bindR (encoded_body (header_named ''content-encoding'' hs)) (\<lambda>encoded.
       let w4 = (if encoded then [''Content-Encoding body retained without decompression''] else []);
           (body, source, w5) = (case request_body V name obj resume of
               Inl e \<Rightarrow> (unavailable_body, None, [''request body getter unavailable''])
             | Inr (b, src, w) \<Rightarrow> (b, Some src, w)) in
       Inr (Some \<lparr>ar_stage = if resume then ''resume'' else ''creation'', ar_object = py_hex obj,
         ar_task = if resume then Some (py_hex (net_reg V ''x0'')) else None,
         ar_method = method', ar_url = url, ar_headers = hs,
         ar_warnings = w1 @ w2 @ w3 @ w4 @ w5 @ [''application request headers; transport may add or change headers''],
         ar_body = body, ar_source = source,
         ar_complete = ((case got of Inl e \<Rightarrow> False | Inr kvs \<Rightarrow> True) \<and> method' \<noteq> [] \<and> url \<noteq> [] \<and>
           bo_status body = Complete)\<rparr>))))"

section \<open>The capture\<close>

type_synonym send_entry = "string \<times> int \<times> int \<times> int \<times> int"

record net_capture =
  nc_http :: "string capture"
  nc_sockets :: "string list"
  nc_sends :: "(int, send_entry) odict"
  nc_process :: "int option"

datatype captured = Wire "string request" | App app_request

record observed =
  nd_source :: "string option"
  nd_stream :: "string option"
  nd_direction :: "string option"
  nd_payload :: "body_rec option"
  nd_requests :: "captured list"
  nd_skipped :: bool

definition nothing_seen :: observed where
  "nothing_seen = \<lparr>nd_source = None, nd_stream = None, nd_direction = None, nd_payload = None,
     nd_requests = [], nd_skipped = False\<rparr>"

definition new_net :: net_capture where
  "new_net = \<lparr>nc_http = new_capture 64, nc_sockets = [], nc_sends = [], nc_process = None\<rparr>"

definition net_reset :: "net_capture \<Rightarrow> net_capture" where
  "net_reset c = c\<lparr>nc_http := cp_reset (nc_http c), nc_sockets := [], nc_sends := [], nc_process := None\<rparr>"

definition for_process :: "int \<Rightarrow> net_capture \<Rightarrow> net_capture" where
  "for_process uid c = (if nc_process c = Some uid then c else (net_reset c)\<lparr>nc_process := Some uid\<rparr>)"

definition fd_key :: "net_env \<Rightarrow> string" where
  "fd_key V = ''pid:'' @ py_str (ne_pid V) @ '':fd:'' @ py_str (net_reg V ''x0'')"

definition object_key :: "net_env \<Rightarrow> string \<Rightarrow> int \<Rightarrow> string" where
  "object_key V kind object = ''pid:'' @ py_str (ne_pid V) @ '':'' @ kind @ '':'' @ py_hex object"

text \<open>A new connection on a descriptor forgets what an older one left, and the oldest sockets go.\<close>

definition new_socket :: "string \<Rightarrow> net_capture \<Rightarrow> net_capture" where
  "new_socket d c = (let socks = filter (\<lambda>x. x \<noteq> d) (nc_sockets c) @ [d]; kept = evict (\<lambda>xs. 256 < length xs) socks in
     c\<lparr>nc_http := fold cp_discard (take (length socks - length kept) socks) (cp_discard d (nc_http c)), nc_sockets := kept\<rparr>)"

definition net_flush :: "string \<Rightarrow> net_capture \<Rightarrow> captured list \<times> net_capture" where
  "net_flush key c = (case cp_flush (Some key) (nc_http c) of (rs, h) \<Rightarrow> (map Wire rs, c\<lparr>nc_http := h\<rparr>))"

definition net_feed :: "string \<Rightarrow> bytes \<Rightarrow> int \<Rightarrow> net_capture \<Rightarrow> captured list \<times> net_capture" where
  "net_feed key data len c = (case feed key data (Some len) (nc_http c) of (rs, h) \<Rightarrow>
     (map (\<lambda>r. Wire (r\<lparr>rq_warnings := rq_warnings r @
        [''assembled API-entry buffers; failed, partial or retried writes are not reconciled'']\<rparr>)) rs, c\<lparr>nc_http := h\<rparr>))"

text \<open>\<open>_iov\<close>: the pieces up to the limit, as long as they are whole, and the length of all.\<close>

definition iov_pairs :: "bytes \<Rightarrow> (int \<times> int) list" where
  "iov_pairs d = map (\<lambda>i. (le_int (slice (16 * i) (16 * i + 8) d), le_int (slice (16 * i + 8) (16 * i + 16) d)))
     [0..<length d div 16]"

fun gather :: "net_env \<Rightarrow> (int \<times> int) list \<Rightarrow> bytes \<Rightarrow> bool \<Rightarrow> int \<Rightarrow> bytes \<times> int" where
  "gather V [] data gap whole = (data, whole)"
| "gather V ((ptr, len) # ps) data gap whole =
     (if \<not> gap \<and> length data < CAPTURE_LIMIT then
        (let room = CAPTURE_LIMIT - length data; piece = net_read V ptr len room in
         gather V ps (data @ piece) (int (length piece) < min len (int room)) (whole + len))
      else gather V ps data gap (whole + len))"

definition net_iov :: "net_env \<Rightarrow> addr \<Rightarrow> int \<Rightarrow> (bytes \<times> int) res" where
  "net_iov V address count =
     (if count > 1024 then Inl (ValueError ''iovec count exceeds capture limit'')
      else let ds = net_read V address (count * 16) CAPTURE_LIMIT in
        if int (length ds) \<noteq> count * 16 then Inl (ValueError ''iovec descriptors unavailable'')
        else Inr (gather V (iov_pairs ds) [] False 0))"

text \<open>The address, the bytes and the length of what a call writes.\<close>

definition net_buffer :: "net_env \<Rightarrow> string \<Rightarrow> string option option \<Rightarrow> (addr \<times> bytes \<times> int) res" where
  "net_buffer V f rw =
     (if f \<in> {''sendmsg'', ''writev''} \<or> (\<exists>g. rw = Some (Some g)) then
        bindR (if f = ''sendmsg'' then
            (let h = net_read V (net_reg V ''x1'') 28 CAPTURE_LIMIT in
             if length h \<noteq> 28 then Inl (ValueError ''sendmsg header unavailable'')
             else Inr (le_int (slice 16 24 h), le_int (slice 24 28 h)))
          else Inr (net_reg V ''x1'', net_reg V ''x2'')) (\<lambda>(address, count).
        bindR (net_iov V address count) (\<lambda>(data, len). Inr (address, data, len)))
      else let aead = (f = ''EVP_AEAD_CTX_seal'');
          address = net_reg V (if aead then ''x6'' else ''x1''); n = net_reg V (if aead then ''x7'' else ''x2'');
          narrow = f \<in> {''SSL_write'', ''wolfSSL_write'', ''BoringSSL_SSL_write''};
          len = (if narrow then n mod 2 ^ 32 else n) in
        if narrow \<and> len \<ge> 2 ^ 31 then Inl (ValueError ''negative TLS write length'')
        else Inr (address, net_read V address len CAPTURE_LIMIT, len))"

text \<open>
  The stream a write belongs to. A rustls \<open>Writer\<close> is a temporary: its sink names the connection.
\<close>

definition stream_key :: "net_env \<Rightarrow> string \<Rightarrow> string option option \<Rightarrow> bool \<Rightarrow> string res" where
  "stream_key V f rw object =
     (if rw \<noteq> None then
        (let sink = net_read V (net_reg V ''x0'') 8 CAPTURE_LIMIT in
         if length sink \<noteq> 8 \<or> le_int sink = 0 then Inl (ValueError ''rustls Writer sink unavailable'')
         else Inr (object_key V ''rustls.Writer'' (le_int sink)))
      else Inr (if object then object_key V f (net_reg V ''x0'') else fd_key V))"

text \<open>
  A write inside another: its caller is one, or it is the \<open>sendto\<close> that the \<open>send\<close> just seen on
  this thread ends in, with the same buffer, stack and return address. That marker serves once.
\<close>

definition SOCKET_WRITES :: "string set" where
  "SOCKET_WRITES = {''send'', ''sendto'', ''sendmsg'', ''write'', ''writev''}"

definition called_by_write :: "net_env \<Rightarrow> bool" where
  "called_by_write V = (case ne_caller V of None \<Rightarrow> False | Some name \<Rightarrow> api_name name \<in> SOCKET_WRITES)"

definition send_of :: "net_env \<Rightarrow> addr \<Rightarrow> int \<Rightarrow> send_entry" where
  "send_of V address len = (fd_key V, address, len, net_reg V ''sp'', net_reg V ''lr'')"

definition nested_write :: "net_env \<Rightarrow> string \<Rightarrow> addr \<Rightarrow> int \<Rightarrow> (net_capture, bool) py" where
  "nested_write V f address len = (let inner = called_by_write V; entry = send_of V address len in
     if f \<in> {''send'', ''sendto''} then
       bindP (getP (\<lambda>c. map_of (nc_sends c) (ne_tid V))) (\<lambda>previous.
       seqP (modP (\<lambda>c. c\<lparr>nc_sends := od_pop (ne_tid V) (nc_sends c)\<rparr>))
       (if f = ''send'' then
          seqP (modP (\<lambda>c. c\<lparr>nc_sends := evict (\<lambda>d. 64 < length d) (od_set (ne_tid V) entry (nc_sends c))\<rparr>)) (retP inner)
        else retP (inner \<or> (net_reg V ''sp'' \<noteq> 0 \<and> net_reg V ''lr'' \<noteq> 0 \<and> previous = Some entry))))
     else retP inner)"

definition observe_write :: "net_env \<Rightarrow> string \<Rightarrow> (net_capture, observed) py" where
  "observe_write V name = (let f = api_name name; rw = rustls_write f;
       tls = (f \<in> set TLS_WRITES \<or> rw \<noteq> None); aead = (f = ''EVP_AEAD_CTX_seal'');
       send = (f \<in> {''send'', ''sendto'', ''sendmsg''}) in
     bindP (getP (\<lambda>c. f \<in> {''write'', ''writev''} \<and> fd_key V \<in> set (nc_sockets c))) (\<lambda>plain_write.
     if \<not> (tls \<or> aead \<or> send \<or> plain_write) then retP nothing_seen
     else bindP (liftP (net_buffer V f rw)) (\<lambda>(address, data, len).
       bindP (liftP (stream_key V f rw (tls \<or> aead))) (\<lambda>key.
       bindP (if send \<or> plain_write then nested_write V f address len else retP False) (\<lambda>nested.
       bindP (if nested then retP [] else actP (net_feed key data len)) (\<lambda>requests.
       retP \<lparr>nd_source = Some name, nd_stream = Some key, nd_direction = Some ''outbound'',
         nd_payload = Some (record_bytes data (Some len) (short_status data len)),
         nd_requests = requests, nd_skipped = nested\<rparr>))))))"

definition is_app_call :: "string \<Rightarrow> bool" where
  "is_app_call name = (py_find ''TaskWith'' name \<noteq> None \<or> is_resume name)"

definition observe :: "net_env \<Rightarrow> string \<Rightarrow> (net_capture, observed) py" where
  "observe V name = (let f = api_name name; d = fd_key V in
     seqP (modP (for_process (ne_uid V)))
     (seqP (whenP (f \<in> {''connect'', ''connectx''}) (modP (new_socket d)))
     (if f = ''close'' \<or> (f = ''shutdown'' \<and> net_reg V ''x1'' \<in> {1, 2}) then
        bindP (actP (net_flush d)) (\<lambda>rs.
        seqP (modP (\<lambda>c. c\<lparr>nc_sockets := filter (\<lambda>x. x \<noteq> d) (nc_sockets c)\<rparr>))
        (retP (nothing_seen\<lparr>nd_requests := rs\<rparr>)))
      else case map_of TLS_CLOSES f of
        Some writers \<Rightarrow> bindP (mapP (\<lambda>w. actP (net_flush (object_key V w (net_reg V ''x0'')))) writers) (\<lambda>rs.
          retP (nothing_seen\<lparr>nd_requests := concat rs\<rparr>))
      | None \<Rightarrow> bindP (getP (\<lambda>c. d \<in> set (nc_sockets c))) (\<lambda>known.
          if f \<in> {''read'', ''recv'', ''recvfrom''} \<and> known then
            retP (nothing_seen\<lparr>nd_stream := Some d, nd_direction := Some ''inbound''\<rparr>)
          else if is_app_call name then
            bindP (liftP (foundation_request V name)) (\<lambda>r. retP (case r of None \<Rightarrow> nothing_seen
              | Some q \<Rightarrow> nothing_seen\<lparr>nd_source := Some name, nd_requests := [App q]\<rparr>))
          else observe_write V name))))"

section \<open>What is kept stays bounded and belongs to one process\<close>

definition net_bounded :: "net_capture \<Rightarrow> bool" where
  "net_bounded c = (capture_ok (nc_http c) \<and> distinct (nc_sockets c) \<and> length (nc_sockets c) \<le> 256 \<and>
     length (nc_sends c) \<le> 64)"

definition net_keys :: "net_capture \<Rightarrow> string set" where
  "net_keys c = fst ` set (cp_streams (nc_http c)) \<union> set (nc_sockets c)"

definition pid_prefix :: "int \<Rightarrow> string" where
  "pid_prefix pid = ''pid:'' @ py_str pid @ '':''"

definition net_ok :: "int \<Rightarrow> int \<Rightarrow> net_capture \<Rightarrow> bool" where
  "net_ok uid pid c = (net_bounded c \<and> nc_process c = Some uid \<and> (\<forall>k \<in> net_keys c. starts_with k (pid_prefix pid)))"

lemma feed_keys:
  assumes "capture_ok c"
  shows "fst ` set (cp_streams (snd (feed key data tot c))) \<subseteq> insert key (fst ` set (cp_streams c))"
proof -
  have one: "fst ` set (cp_streams (snd (feed_stream key data tot c s))) \<subseteq> insert key (fst ` set (cp_streams c))" for s
  proof -
    obtain rs d where d: "evict_streams (cp_max c) (od_pop key (cp_streams c) @ [(key, s)]) = (rs, d)" by fastforce
    have "set d \<subseteq> set (od_pop key (cp_streams c) @ [(key, s)])"
      by (rule set_mono_suffix[OF evict_streams_suffix[of "cp_max c" "od_pop key (cp_streams c) @ [(key, s)]", unfolded d snd_conv]])
    then have sub: "fst ` set d \<subseteq> insert key (fst ` set (cp_streams c))" by (auto simp: od_pop_def)
    obtain rs2 so where "feed_pieces (pieces 16384 data) s = (rs2, so)" by fastforce
    with d sub show ?thesis
      by (auto simp: feed_stream_def Let_def cp_discard_def dict_simps split: option.splits dest!: od_set_members)
  qed
  show ?thesis using one by (auto simp: feed_def split: option.splits)
qed

lemma discard_all_ok:
  "capture_ok h \<Longrightarrow> capture_ok (fold cp_discard ks h) \<and>
     fst ` set (cp_streams (fold cp_discard ks h)) \<subseteq> fst ` set (cp_streams h)"
proof (induction ks arbitrary: h)
  case (Cons k ks)
  have "fst ` set (cp_streams (cp_discard k h)) \<subseteq> fst ` set (cp_streams h)" by (auto simp: cp_discard_def od_pop_def)
  with Cons.IH[OF capture_ok_pop[OF Cons.prems, of k]] show ?case
    unfolding fold_Cons comp_apply by (meson subset_trans)
qed simp

interpretation kept_sockets: bounded_history "\<lambda>xs :: string list. 256 < length xs"
  by unfold_locales simp

interpretation kept_sends: bounded_history "\<lambda>d :: (int, send_entry) odict. 64 < length d"
  by unfold_locales simp

lemma key_prefix [simp]:
  "starts_with (fd_key V) (pid_prefix (ne_pid V))" "starts_with (object_key V kind p) (pid_prefix (ne_pid V))"
  by (simp_all add: starts_with_def fd_key_def object_key_def pid_prefix_def)

lemma net_ok_process:
  assumes "net_bounded c" "\<And>u. nc_process c = Some u \<Longrightarrow> net_ok u (pids u) c"
  shows "net_ok uid (pids uid) (for_process uid c)"
  using assms by (auto simp: for_process_def net_ok_def net_bounded_def net_reset_def net_keys_def cp_reset_def capture_ok_def od_ok_def)

lemma net_ok_socket: "net_ok uid (ne_pid V) c \<Longrightarrow> net_ok uid (ne_pid V) (new_socket (fd_key V) c)"
proof -
  assume c: "net_ok uid (ne_pid V) c"
  define d where "d = fd_key V"
  define socks where "socks = filter (\<lambda>x. x \<noteq> d) (nc_sockets c) @ [d]"
  define kept where "kept = evict (\<lambda>xs. 256 < length xs) socks"
  define h where "h = fold cp_discard (take (length socks - length kept) socks) (cp_discard d (nc_http c))"
  have eq: "new_socket (fd_key V) c = c\<lparr>nc_http := h, nc_sockets := kept\<rparr>"
    by (simp add: new_socket_def Let_def h_def kept_def socks_def d_def)
  have sfx: "suffix kept socks" unfolding kept_def by (rule kept_sockets.keeps_newest)
  have "distinct socks" using c by (simp add: net_ok_def net_bounded_def socks_def)
  then have "distinct kept" using sfx by (auto simp: suffix_def)
  moreover have "length kept \<le> 256" using kept_sockets.within[of socks] by (simp add: kept_def)
  moreover have "set kept \<subseteq> insert d (set (nc_sockets c))"
    using set_mono_suffix[OF sfx] by (auto simp: socks_def)
  moreover have h: "capture_ok (cp_discard d (nc_http c))"
    "fst ` set (cp_streams (cp_discard d (nc_http c))) \<subseteq> fst ` set (cp_streams (nc_http c))"
    using c by (simp_all add: net_ok_def net_bounded_def capture_ok_pop) (auto simp: cp_discard_def dict_simps)
  have "capture_ok h" "fst ` set (cp_streams h) \<subseteq> fst ` set (cp_streams (nc_http c))"
    using discard_all_ok[OF h(1), of "take (length socks - length kept) socks", folded h_def] h(2) by (simp, meson subset_trans)
  moreover have "starts_with d (pid_prefix (ne_pid V))" by (simp add: d_def)
  ultimately show ?thesis using c unfolding eq net_ok_def net_bounded_def net_keys_def by (auto dest!: subsetD)
qed

lemma keepsP_net_flush [keeps]: "keepsP (net_ok uid pid) (actP (net_flush key))"
proof (rule keepsP_act)
  fix c assume "net_ok uid pid c"
  then show "net_ok uid pid (snd (net_flush key c))"
    by (simp add: net_flush_def cp_flush_def net_ok_def net_bounded_def capture_ok_pop net_keys_def)
      (auto simp: cp_discard_def dict_simps)
qed

lemma keepsP_net_feed [keeps]:
  "starts_with key (pid_prefix pid) \<Longrightarrow> keepsP (net_ok uid pid) (actP (net_feed key data len))"
proof (rule keepsP_act)
  fix c assume k: "starts_with key (pid_prefix pid)" and c: "net_ok uid pid c"
  obtain rs h where h: "feed key data (Some len) (nc_http c) = (rs, h)" by fastforce
  have ok: "capture_ok (nc_http c)" using c by (simp add: net_ok_def net_bounded_def)
  have "capture_ok h" "fst ` set (cp_streams h) \<subseteq> insert key (fst ` set (cp_streams (nc_http c)))"
    using feed_ok[OF ok, of key data "Some len"] feed_keys[OF ok, of key data "Some len"] h by simp_all
  with c k h show "net_ok uid pid (snd (net_feed key data len c))"
    by (auto simp: net_feed_def net_ok_def net_bounded_def net_keys_def)
qed

lemma keepsP_nested [keeps]: "keepsP (net_ok uid pid) (nested_write V f address len)"
proof -
  have pop: "keepsP (net_ok uid pid) (modP (\<lambda>c. c\<lparr>nc_sends := od_pop t (nc_sends c)\<rparr>))" for t
    by (rule keepsP_mod) (auto simp: net_ok_def net_bounded_def net_keys_def od_pop_def intro: le_trans[OF length_filter_le])
  have put: "keepsP (net_ok uid pid) (modP (\<lambda>c. c\<lparr>nc_sends := evict (\<lambda>d. 64 < length d) (d c)\<rparr>))" for d
    by (rule keepsP_mod) (use kept_sends.within in \<open>auto simp: net_ok_def net_bounded_def net_keys_def not_less\<close>)
  show ?thesis unfolding nested_write_def Let_def by (intro keeps pop put)
qed

lemma keepsP_stream_key:
  assumes "\<And>key. starts_with key (pid_prefix (ne_pid V)) \<Longrightarrow> keepsP I (g key)"
  shows "keepsP I (bindP (liftP (stream_key V f rw object)) g)"
  using assms by (intro keepsP_bind_yields[where P = "\<lambda>key. starts_with key (pid_prefix (ne_pid V))"] yields)
    (auto simp: stream_key_def Let_def split: if_splits)

lemma keepsP_observe_write [keeps]: "keepsP (net_ok uid (ne_pid V)) (observe_write V name)"
  unfolding observe_write_def Let_def
  by (intro keepsP_stream_key keeps)

text \<open>
  A session of the capture: observations at the stops of processes, whose identifiers determine their
  process numbers, flushes when tracing ends and resets.
\<close>

inductive net_session :: "(int \<Rightarrow> int) \<Rightarrow> net_capture \<Rightarrow> bool" for pids where
  start: "net_session pids new_net"
| observe: "net_session pids c \<Longrightarrow> ne_pid V = pids (ne_uid V) \<Longrightarrow> net_session pids (snd (observe V name c))"
| flush: "net_session pids c \<Longrightarrow> net_session pids (c\<lparr>nc_http := snd (cp_flush None (nc_http c))\<rparr>)"
| reset: "net_session pids c \<Longrightarrow> net_session pids (net_reset c)"

lemma observe_ok:
  assumes "net_bounded c" "\<And>u. nc_process c = Some u \<Longrightarrow> net_ok u (pids u) c" "ne_pid V = pids (ne_uid V)"
  shows "net_ok (ne_uid V) (pids (ne_uid V)) (snd (observe V name c))"
proof -
  let ?I = "net_ok (ne_uid V) (ne_pid V)"
  have sock: "keepsP ?I (modP (new_socket (fd_key V)))" by (rule keepsP_mod) (rule net_ok_socket)
  have drop: "keepsP ?I (modP (\<lambda>c. c\<lparr>nc_sockets := filter (\<lambda>x. x \<noteq> d) (nc_sockets c)\<rparr>))" for d
    by (rule keepsP_mod) (auto simp: net_ok_def net_bounded_def net_keys_def intro: le_trans[OF length_filter_le])
  have opt: "keepsP ?I (case r of Some x \<Rightarrow> m x | None \<Rightarrow> k)" if "\<And>x. keepsP ?I (m x)" "keepsP ?I k" for r and m :: "string list \<Rightarrow> _" and k
    using that by (cases r) auto
  have "wpP (observe V name) (\<lambda>_. ?I) (\<lambda>_. ?I) c"
    unfolding observe_def Let_def wpP_bind(2)[of "modP _"] wpP_simps
    by (rule keepsP_use, (intro keeps opt sock drop)[1]) (use net_ok_process[OF assms(1,2)] assms(3) in simp)
  then show ?thesis using assms(3) by (auto simp: wpP_def split: sum.splits prod.splits)
qed

lemma net_session_ok: "net_session pids c \<Longrightarrow> net_bounded c \<and> (\<forall>u. nc_process c = Some u \<longrightarrow> net_ok u (pids u) c)
    \<and> (nc_process c = None \<longrightarrow> net_keys c = {})"
proof (induction rule: net_session.induct)
  case (observe c V name)
  from observe_ok[of c pids V name] observe show ?case by (simp add: net_ok_def)
next
  case (flush c)
  have "cp_streams (snd (cp_flush None h)) = []" "capture_ok h \<Longrightarrow> capture_ok (snd (cp_flush None h))" for h :: "string capture"
    by (simp_all add: cp_flush_def capture_ok_def od_ok_def)
  with flush show ?case by (auto simp: net_ok_def net_bounded_def net_keys_def)
qed (simp_all add: new_net_def net_reset_def net_bounded_def net_keys_def capture_ok_def new_capture_def cp_reset_def
    od_ok_def MAX_STREAMS_def)

definition demo_net :: "string \<Rightarrow> net_env" where
  "demo_net buffer = \<lparr>ne_uid = 1, ne_pid = 77, ne_tid = 9,
     ne_frame = \<lparr>fr_pc = 0x1000, fr_regs = [(''x0'', 5), (''x1'', 0x4000), (''x2'', int (length buffer)), (''sp'', 0x8000), (''lr'', 0x1004)]\<rparr>,
     ne_caller = None, ne_eval = (\<lambda>_. None), ne_memory = (\<lambda>a n. take n buffer)\<rparr>"



section \<open>A buffer is assembled once\<close>

lemma no_rustls [simp]: "rustls_write ''send'' = None" "rustls_write ''sendto'' = None"
  by code_simp+

lemma not_tls [simp]: "''send'' \<notin> set TLS_WRITES" "''sendto'' \<notin> set TLS_WRITES"
    "map_of TLS_CLOSES ''send'' = None" "map_of TLS_CLOSES ''sendto'' = None"
  by (simp_all add: TLS_WRITES_def TLS_CLOSES_def)

text \<open>At the entry of \<open>send\<close> and \<open>sendto\<close>, what is observed is decided by the marker of the thread.\<close>

lemma observe_send:
  assumes "f \<in> {''send'', ''sendto''}" "api_name name = f" "\<not> is_app_call name"
  shows "observe V name c = observe_write V name (for_process (ne_uid V) c)"
proof -
  have "map_of TLS_CLOSES f = None" "f \<notin> {''connect'', ''connectx''}" "f \<notin> {''read'', ''recv'', ''recvfrom''}"
    "f \<noteq> ''close''" "f \<noteq> ''shutdown''" using assms(1) by auto
  with assms(2,3) show ?thesis by (simp add: observe_def Let_def run)
qed

lemma observe_write_send:
  assumes "f \<in> {''send'', ''sendto''}" "api_name name = f"
  shows "observe_write V name c = (let len = net_reg V ''x2''; data = net_read V (net_reg V ''x1'') len CAPTURE_LIMIT in
    bindP (nested_write V f (net_reg V ''x1'') len) (\<lambda>nested.
    bindP (if nested then retP [] else actP (net_feed (fd_key V) data len)) (\<lambda>requests.
    retP \<lparr>nd_source = Some name, nd_stream = Some (fd_key V), nd_direction = Some ''outbound'',
      nd_payload = Some (record_bytes data (Some len) (short_status data len)), nd_requests = requests, nd_skipped = nested\<rparr>)) c)"
proof -
  have f: "rustls_write f = None" "f \<notin> set TLS_WRITES" "f \<in> {''send'', ''sendto'', ''sendmsg''}"
    "f \<notin> {''write'', ''writev''}" "f \<noteq> ''EVP_AEAD_CTX_seal''" "f \<notin> {''sendmsg'', ''writev''}"
    "f \<notin> {''SSL_write'', ''wolfSSL_write'', ''BoringSSL_SSL_write''}" using assms(1) by auto
  have buf: "net_buffer V f None = Inr (net_reg V ''x1'', net_read V (net_reg V ''x1'') (net_reg V ''x2'') CAPTURE_LIMIT, net_reg V ''x2'')"
    unfolding net_buffer_def Let_def using f by simp
  have key: "stream_key V f None False = Inr (fd_key V)" by (simp add: stream_key_def)
  show ?thesis unfolding observe_write_def Let_def assms(2) f(1)
    using f buf key by (simp add: run)
qed

lemma nested_write_send:
  "nested_write V ''send'' a len c = (Inr (called_by_write V),
     c\<lparr>nc_sends := evict (\<lambda>d. 64 < length d) (od_set (ne_tid V) (send_of V a len) (od_pop (ne_tid V) (nc_sends c)))\<rparr>)"
  by (simp add: nested_write_def Let_def run)

lemma nested_write_sendto:
  "nested_write V ''sendto'' a len c = (Inr (called_by_write V \<or> (net_reg V ''sp'' \<noteq> 0 \<and> net_reg V ''lr'' \<noteq> 0 \<and>
       map_of (nc_sends c) (ne_tid V) = Some (send_of V a len))),
     c\<lparr>nc_sends := od_pop (ne_tid V) (nc_sends c)\<rparr>)"
  by (simp add: nested_write_def Let_def run)

text \<open>The newest marker survives the eviction.\<close>

lemma marker_kept: "map_of (evict (\<lambda>d. 64 < length d) (od_set t e (od_pop t d))) (t :: int) = Some (e :: send_entry)"
proof -
  let ?d = "od_pop t d @ [(t, e)]"
  have new: "od_set t e (od_pop t d) = ?d" by (simp add: dict_simps)
  have "suffix (evict (\<lambda>d. 64 < length d) ?d) ?d" by (rule kept_sends.keeps_newest)
  moreover have "evict (\<lambda>d. 64 < length d) (xs @ [x]) \<noteq> []" for xs and x :: "int \<times> send_entry"
    by (induction xs) auto
  then obtain ys x where kept: "evict (\<lambda>d. 64 < length d) ?d = ys @ [x]"
    by (cases "evict (\<lambda>d. 64 < length d) ?d" rule: rev_cases) auto
  ultimately obtain zs where "?d = zs @ ys @ [x]" by (auto simp: suffix_def)
  then have "x = (t, e)" "od_pop t d = zs @ ys" by simp_all
  moreover from this have "t \<notin> fst ` set ys" using od_keys_pop[of t d] by (simp only: set_append image_Un) blast
  ultimately have "map_of (evict (\<lambda>d. 64 < length d) ?d) t = Some e"
    unfolding kept by (simp add: map_add_def map_of_eq_None_iff[THEN iffD2])
  then show ?thesis using new by simp
qed

text \<open>
  C35. A buffer is assembled once. When the \<open>sendto\<close> a \<open>send\<close> of this thread ends in is observed with the same
  descriptor, buffer, stack and return address, its bytes are recorded but not fed to the stream a
  second time; the marker serves once, so a further \<open>sendto\<close> with the same registers is fed.
\<close>
theorem send_assembled_once:
  assumes "api_name n1 = ''send''" "\<not> is_app_call n1" "api_name n2 = ''sendto''" "\<not> is_app_call n2"
    and same: "ne_uid V2 = ne_uid V1" "ne_pid V2 = ne_pid V1" "ne_tid V2 = ne_tid V1" "ne_frame V2 = ne_frame V1"
    and site: "net_reg V1 ''sp'' \<noteq> 0" "net_reg V1 ''lr'' \<noteq> 0"
    and runs: "observe V1 n1 c = (Inr o1, c1)" "observe V2 n2 c1 = (Inr o2, c2)" "observe V2 n2 c2 = (Inr o3, c3)"
  shows "nd_skipped o2 \<and> nd_requests o2 = [] \<and> nc_http c2 = nc_http c1 \<and> nd_payload o2 \<noteq> None \<and>
    nd_skipped o3 = called_by_write V2 \<and>
    (\<not> called_by_write V2 \<longrightarrow> nc_http c3 = snd (feed (fd_key V2)
       (net_read V2 (net_reg V2 ''x1'') (net_reg V2 ''x2'') CAPTURE_LIMIT) (Some (net_reg V2 ''x2'')) (nc_http c2)))"
proof -
  have r: "net_reg V2 = net_reg V1" "fd_key V2 = fd_key V1" "send_of V2 = send_of V1"
    using same by (simp_all add: net_reg_def fd_key_def send_of_def fun_eq_iff)
  have e1: "map_of (nc_sends c1) (ne_tid V1) = Some (send_of V1 (net_reg V1 ''x1'') (net_reg V1 ''x2''))"
      "nc_process c1 = Some (ne_uid V1)"
    using runs(1) observe_send[of "''send''" n1 V1 c] assms(1,2)
    by (auto simp: observe_write_send[of "''send''"] Let_def run nested_write_send marker_kept net_feed_def for_process_def
        split: if_splits prod.splits)
  have o2: "nd_skipped o2 \<and> nd_requests o2 = [] \<and> nd_payload o2 \<noteq> None \<and>
      c2 = c1\<lparr>nc_sends := od_pop (ne_tid V1) (nc_sends c1)\<rparr>"
    using runs(2) observe_send[of "''sendto''" n2 V2 c1] assms(3,4) e1 site
    by (auto simp: observe_write_send[of "''sendto''"] Let_def run nested_write_sendto for_process_def same r)
  then have c2: "map_of (nc_sends c2) (ne_tid V1) = None" "nc_process c2 = Some (ne_uid V1)" "nc_http c2 = nc_http c1"
    using e1 by (simp_all add: dict_simps)
  have "nd_skipped o3 = called_by_write V2 \<and> (\<not> called_by_write V2 \<longrightarrow> nc_http c3 = snd (feed (fd_key V2)
       (net_read V2 (net_reg V2 ''x1'') (net_reg V2 ''x2'') CAPTURE_LIMIT) (Some (net_reg V2 ''x2'')) (nc_http c2)))"
    using runs(3) observe_send[of "''sendto''" n2 V2 c2] assms(3,4) c2
    by (auto simp: observe_write_send[of "''sendto''"] Let_def run nested_write_sendto for_process_def same r net_feed_def
        split: if_splits prod.splits)
  with o2 c2 show ?thesis by blast
qed

lemma send_assembled_once_witness:
  "nd_skipped (case fst (observe (demo_net ''GET / HT'') ''__sendto'' (snd (observe (demo_net ''GET / HT'') ''send'' new_net)))
     of Inr d \<Rightarrow> d)"
proof -
  let ?V = "demo_net ''GET / HT''"
  have n: "api_name ''send'' = ''send''" "\<not> is_app_call ''send''" "api_name ''__sendto'' = ''sendto''" "\<not> is_app_call ''__sendto''"
    by code_simp+
  have total: "\<exists>d c'. observe ?V nm c = (Inr d, c')" if "nm \<in> {''send'', ''__sendto''}" for nm c
    using that n observe_send[of "api_name nm" nm ?V c]
    by (auto simp: observe_write_send Let_def run nested_write_send nested_write_sendto)
  obtain o1 c1 where 1: "observe ?V ''send'' new_net = (Inr o1, c1)" using total[of "''send''" new_net] by auto
  obtain o2 c2 where 2: "observe ?V ''__sendto'' c1 = (Inr o2, c2)" using total[of "''__sendto''" c1] by auto
  obtain o3 c3 where 3: "observe ?V ''__sendto'' c2 = (Inr o3, c3)" using total[of "''__sendto''" c2] by auto
  have "net_reg ?V ''sp'' \<noteq> 0" "net_reg ?V ''lr'' \<noteq> 0" by (simp_all add: demo_net_def net_reg_def reg_unsigned_def fr_reg_def)
  from send_assembled_once[OF n refl refl refl refl this 1 2 3] show ?thesis using 1 2 by simp
qed

end
