(* ===== verification/ApiFormat.thy ===== *)
theory ApiFormat
  imports NetworkCapture
begin

text \<open>
  The first half of \<open>macdbg/core/tracer.py\<close>: the traced calls and the line shown for each. What a
  stopped target answers is given by \<open>trace_env\<close>: a read that fails gives None, a C string is
  text of the model. The ellipsis is outside Latin-1 and is shown as \<open>other_char\<close>.
\<close>

datatype category = FILE | NET | PROC

record trace_env =
  tv_net :: net_env
  tv_name :: "string option"
  tv_read :: "addr \<Rightarrow> nat \<Rightarrow> bytes option"
  tv_cstring :: "addr \<Rightarrow> nat \<Rightarrow> string option"
  tv_frames :: "(addr \<times> string option) option list"

definition FD_CALLS :: "string list" where
  "FD_CALLS = [''read'', ''write'', ''pread'', ''pwrite'', ''close'', ''send'', ''recv'', ''sendto'', ''recvfrom'',
    ''sendmsg'', ''writev'']"

definition dots :: string where "dots = [other_char]"

definition reg :: "trace_env \<Rightarrow> string \<Rightarrow> int" where
  "reg V r = net_reg (tv_net V) r"

definition dec :: "trace_env \<Rightarrow> string \<Rightarrow> string" where "dec V r = py_str (reg V r)"
definition hexed :: "trace_env \<Rightarrow> string \<Rightarrow> string" where "hexed V r = py_hex (reg V r)"

text \<open>\<open>{:#o}\<close>\<close>

fun nat_oct :: "nat \<Rightarrow> string" where
  "nat_oct n = (if n < 8 then [hex_digit n] else nat_oct (n div 8) @ [hex_digit (n mod 8)])"

definition octal :: "trace_env \<Rightarrow> string \<Rightarrow> string" where
  "octal V r = ''0o'' @ nat_oct (nat (reg V r))"

section \<open>What is read\<close>

definition CSTR_CAP :: nat where "CSTR_CAP = 4096"

definition utf8_length :: "string \<Rightarrow> nat" where
  "utf8_length s = sum_list (map (\<lambda>c. if byte_val c < 128 then 1 else 2) s)"

definition read_cstr :: "trace_env \<Rightarrow> addr \<Rightarrow> string" where
  "read_cstr V a = (if a = 0 then ''NULL'' else case tv_cstring V a CSTR_CAP of
       None \<Rightarrow> ''<unreadable>''
     | Some s \<Rightarrow> if s \<noteq> [] \<and> utf8_length s \<ge> CSTR_CAP - 1 then s @ dots @ '' [capture limit]'' else s)"

definition read_mem :: "trace_env \<Rightarrow> addr \<Rightarrow> int \<Rightarrow> nat \<Rightarrow> bytes" where
  "read_mem V a n cap = (if a = 0 \<or> n \<le> 0 then []
     else case tv_read V a (min (nat n) cap) of None \<Rightarrow> [] | Some data \<Rightarrow> data)"

definition read_bytes :: "trace_env \<Rightarrow> addr \<Rightarrow> int \<Rightarrow> bytes" where
  "read_bytes V a n = read_mem V a n 128"

definition printable :: "char \<Rightarrow> bool" where
  "printable c = (32 \<le> byte_val c \<and> byte_val c < 127)"

definition quoted :: "string \<Rightarrow> string" where "quoted s = [DQ] @ s @ [DQ]"

text \<open>\<open>_fmt_bytes\<close>: text when more than four fifths of the bytes are printable.\<close>

definition shown_byte :: "char \<Rightarrow> string" where
  "shown_byte c = (if byte_val c = 10 then [BS, CHR ''n''] else if byte_val c = 13 then [BS, CHR ''r'']
     else if byte_val c < 128 then [c] else [other_char])"

definition fmt_bytes :: "bytes \<Rightarrow> string" where
  "fmt_bytes b = (if b = [] then quoted []
     else let n = length (filter (\<lambda>c. printable c \<or> byte_val c \<in> {9, 10, 13}) b) in
       if 5 * n > 4 * length b then
         quoted (take 60 (concat (map shown_byte b)) @ (if length b > 60 then dots else []))
       else ''<'' @ py_str (int (length b)) @ ''B: '' @ py_bytes_hex (take 24 b) @ (if length b > 24 then dots else []) @ ''>'')"

definition fmt_text :: "bytes \<Rightarrow> string" where
  "fmt_text b = (if b = [] then quoted []
     else quoted (take 256 (map (\<lambda>c. if printable c then c else CHR ''.'') b) @ (if length b > 256 then dots else [])))"

text \<open>\<open>_fmt_sockaddr\<close>\<close>

definition port_of :: "bytes \<Rightarrow> int" where "port_of data = be_int (slice 2 4 data)"

definition fmt_address :: "addr \<Rightarrow> bytes \<Rightarrow> string" where
  "fmt_address a data =
     (if length data < 8 then py_hex a
      else let family = byte_val (data ! 1) in
        if family = 2 then
          join ''.'' (map (\<lambda>b. py_str (byte_val b)) (slice 4 8 data)) @ '':'' @ py_str (port_of data)
        else if family = 30 \<and> length data \<ge> 28 then
          ''['' @ join '':'' (map (\<lambda>i. nat_hex (nat (be_int (slice (8 + i) (10 + i) data)))) [0, 2, 4, 6, 8, 10, 12, 14])
            @ '']:'' @ py_str (port_of data)
        else ''family='' @ py_str family @ '' '' @ py_hex a)"

definition fmt_sockaddr :: "trace_env \<Rightarrow> addr \<Rightarrow> string" where
  "fmt_sockaddr V a = (if a = 0 then ''NULL'' else fmt_address a (read_bytes V a 28))"

text \<open>\<open>frame.GetFunctionName() or d\<close>\<close>

definition name_or :: "trace_env \<Rightarrow> string \<Rightarrow> string" where
  "name_or V d = (case tv_name V of None \<Rightarrow> d | Some n \<Rightarrow> if n = [] then d else n)"

section \<open>Files\<close>

definition cstr_arg :: "trace_env \<Rightarrow> string \<Rightarrow> string" where
  "cstr_arg V r = quoted (read_cstr V (reg V r))"

definition buffer_arg :: "trace_env \<Rightarrow> string" where
  "buffer_arg V = fmt_bytes (read_bytes V (reg V ''x1'') (reg V ''x2''))"

definition f_open :: "trace_env \<Rightarrow> string" where
  "f_open V = ''open('' @ cstr_arg V ''x0'' @ '', '' @ hexed V ''x1'' @ '')''"

definition f_openat :: "trace_env \<Rightarrow> string" where
  "f_openat V = ''openat('' @ dec V ''x0'' @ '', '' @ cstr_arg V ''x1'' @ '', '' @ hexed V ''x2'' @ '')''"

definition f_close :: "trace_env \<Rightarrow> string" where
  "f_close V = ''close('' @ dec V ''x0'' @ '')''"

definition f_read :: "trace_env \<Rightarrow> string" where
  "f_read V = ''read(fd='' @ dec V ''x0'' @ '', buf='' @ hexed V ''x1'' @ '', n='' @ dec V ''x2'' @ '')''"

definition f_write :: "trace_env \<Rightarrow> string" where
  "f_write V = ''write('' @ dec V ''x0'' @ '', '' @ buffer_arg V @ '', n='' @ dec V ''x2'' @ '')''"

definition f_fopen :: "trace_env \<Rightarrow> string" where
  "f_fopen V = ''fopen('' @ cstr_arg V ''x0'' @ '', '' @ cstr_arg V ''x1'' @ '')''"

definition f_stat :: "trace_env \<Rightarrow> string" where
  "f_stat V = ''stat('' @ cstr_arg V ''x0'' @ '')''"

definition f_fstat :: "trace_env \<Rightarrow> string" where
  "f_fstat V = ''fstat(fd='' @ dec V ''x0'' @ '', buf='' @ hexed V ''x1'' @ '')''"

definition f_access :: "trace_env \<Rightarrow> string" where
  "f_access V = ''access('' @ cstr_arg V ''x0'' @ '', mode='' @ hexed V ''x1'' @ '')''"

definition f_unlink :: "trace_env \<Rightarrow> string" where
  "f_unlink V = ''unlink('' @ cstr_arg V ''x0'' @ '')''"

definition f_rename :: "trace_env \<Rightarrow> string" where
  "f_rename V = ''rename('' @ cstr_arg V ''x0'' @ '', '' @ cstr_arg V ''x1'' @ '')''"

definition f_chmod :: "trace_env \<Rightarrow> string" where
  "f_chmod V = ''chmod('' @ cstr_arg V ''x0'' @ '', '' @ octal V ''x1'' @ '')''"

definition f_mkdir :: "trace_env \<Rightarrow> string" where
  "f_mkdir V = ''mkdir('' @ cstr_arg V ''x0'' @ '', '' @ octal V ''x1'' @ '')''"

definition f_pread :: "trace_env \<Rightarrow> string" where
  "f_pread V = ''pread(fd='' @ dec V ''x0'' @ '', buf='' @ hexed V ''x1'' @ '', n='' @ dec V ''x2'' @ '', off='' @ dec V ''x3'' @ '')''"

definition f_pwrite :: "trace_env \<Rightarrow> string" where
  "f_pwrite V = ''pwrite('' @ dec V ''x0'' @ '', '' @ buffer_arg V @ '', n='' @ dec V ''x2'' @ '', off='' @ dec V ''x3'' @ '')''"

definition f_dup :: "trace_env \<Rightarrow> string" where
  "f_dup V = ''dup(fd='' @ dec V ''x0'' @ '')''"

definition f_dup2 :: "trace_env \<Rightarrow> string" where
  "f_dup2 V = ''dup2(from='' @ dec V ''x0'' @ '', to='' @ dec V ''x1'' @ '')''"

definition f_mmap :: "trace_env \<Rightarrow> string" where
  "f_mmap V = ''mmap(addr='' @ hexed V ''x0'' @ '', len='' @ dec V ''x1'' @ '', prot='' @ hexed V ''x2'' @
     '', flags='' @ hexed V ''x3'' @ '', fd='' @ dec V ''x4'' @ '')''"

definition f_fread :: "trace_env \<Rightarrow> string" where
  "f_fread V = ''fread(buf='' @ hexed V ''x0'' @ '', size='' @ dec V ''x1'' @ '', n='' @ dec V ''x2'' @ '', fp='' @ hexed V ''x3'' @ '')''"

definition f_fwrite :: "trace_env \<Rightarrow> string" where
  "f_fwrite V = (let size = reg V ''x1''; n = reg V ''x2'';
       whole = (if size \<noteq> 0 \<and> n \<noteq> 0 \<and> size * n < 4096 then size * n else 0) in
     ''fwrite('' @ (if whole \<noteq> 0 then fmt_bytes (read_bytes V (reg V ''x0'') whole) else hexed V ''x0'') @
     '', size='' @ py_str size @ '', n='' @ py_str n @ '', fp='' @ hexed V ''x3'' @ '')'')"

definition f_fclose :: "trace_env \<Rightarrow> string" where
  "f_fclose V = ''fclose(fp='' @ hexed V ''x0'' @ '')''"

section \<open>Processes\<close>

definition f_popen :: "trace_env \<Rightarrow> string" where
  "f_popen V = ''popen('' @ cstr_arg V ''x0'' @ '', '' @ cstr_arg V ''x1'' @ '')''"

definition f_pclose :: "trace_env \<Rightarrow> string" where
  "f_pclose V = ''pclose(fp='' @ hexed V ''x0'' @ '')''"

definition f_system :: "trace_env \<Rightarrow> string" where
  "f_system V = ''system('' @ cstr_arg V ''x0'' @ '')''"

definition f_execve :: "trace_env \<Rightarrow> string" where
  "f_execve V = ''execve('' @ cstr_arg V ''x0'' @ '', '' @ dots @ '')''"

definition f_posix_spawn :: "trace_env \<Rightarrow> string" where
  "f_posix_spawn V = ''posix_spawn('' @ cstr_arg V ''x1'' @ '', '' @ dots @ '')''"

definition f_fork :: "trace_env \<Rightarrow> string" where "f_fork V = ''fork()''"

definition f_kill :: "trace_env \<Rightarrow> string" where
  "f_kill V = ''kill(pid='' @ dec V ''x0'' @ '', sig='' @ dec V ''x1'' @ '')''"

definition f_dlopen :: "trace_env \<Rightarrow> string" where
  "f_dlopen V = ''dlopen('' @ cstr_arg V ''x0'' @ '', flags='' @ hexed V ''x1'' @ '')''"

definition f_dlsym :: "trace_env \<Rightarrow> string" where
  "f_dlsym V = ''dlsym(handle='' @ hexed V ''x0'' @ '', '' @ cstr_arg V ''x1'' @ '')''"

section \<open>Network\<close>

definition f_socket :: "trace_env \<Rightarrow> string" where
  "f_socket V = ''socket(domain='' @ dec V ''x0'' @ '', type='' @ dec V ''x1'' @ '', proto='' @ dec V ''x2'' @ '')''"

definition f_connect :: "trace_env \<Rightarrow> string" where
  "f_connect V = ''connect('' @ dec V ''x0'' @ '', '' @ fmt_sockaddr V (reg V ''x1'') @ '')''"

definition f_bind :: "trace_env \<Rightarrow> string" where
  "f_bind V = ''bind('' @ dec V ''x0'' @ '', '' @ fmt_sockaddr V (reg V ''x1'') @ '')''"

definition f_send :: "trace_env \<Rightarrow> string" where
  "f_send V = ''send('' @ dec V ''x0'' @ '', '' @ buffer_arg V @ '', n='' @ dec V ''x2'' @ '')''"

definition f_recv :: "trace_env \<Rightarrow> string" where
  "f_recv V = ''recv(fd='' @ dec V ''x0'' @ '', buf='' @ hexed V ''x1'' @ '', n='' @ dec V ''x2'' @ '')''"

definition f_tls_read :: "trace_env \<Rightarrow> string" where
  "f_tls_read V = name_or V ''TLS read'' @
     ''(context='' @ hexed V ''x0'' @ '', buf='' @ hexed V ''x1'' @ '', capacity='' @ dec V ''x2'' @ '')''"

definition f_sendto :: "trace_env \<Rightarrow> string" where
  "f_sendto V = ''sendto('' @ dec V ''x0'' @ '', '' @ buffer_arg V @ '', n='' @ dec V ''x2'' @ '', to='' @
     fmt_sockaddr V (reg V ''x4'') @ '')''"

definition f_getaddrinfo :: "trace_env \<Rightarrow> string" where
  "f_getaddrinfo V = ''getaddrinfo('' @ cstr_arg V ''x0'' @ '', '' @ cstr_arg V ''x1'' @ '')''"

definition f_gethostbyname :: "trace_env \<Rightarrow> string" where
  "f_gethostbyname V = ''gethostbyname('' @ cstr_arg V ''x0'' @ '')''"

definition f_accept :: "trace_env \<Rightarrow> string" where
  "f_accept V = ''accept(fd='' @ dec V ''x0'' @ '')''"

definition f_listen :: "trace_env \<Rightarrow> string" where
  "f_listen V = ''listen(fd='' @ dec V ''x0'' @ '', backlog='' @ dec V ''x1'' @ '')''"

definition f_shutdown :: "trace_env \<Rightarrow> string" where
  "f_shutdown V = ''shutdown(fd='' @ dec V ''x0'' @ '', how='' @ dec V ''x1'' @ '')''"

definition f_setsockopt :: "trace_env \<Rightarrow> string" where
  "f_setsockopt V = ''setsockopt(fd='' @ dec V ''x0'' @ '', level='' @ dec V ''x1'' @ '', name='' @ dec V ''x2'' @ '')''"

definition f_recvfrom :: "trace_env \<Rightarrow> string" where
  "f_recvfrom V = ''recvfrom(fd='' @ dec V ''x0'' @ '', buf='' @ hexed V ''x1'' @ '', n='' @ dec V ''x2'' @ '')''"

definition f_connectx :: "trace_env \<Rightarrow> string" where
  "f_connectx V = (let eps = reg V ''x1''; raw = read_bytes V (eps + 24) 8;
       dst = (if eps \<noteq> 0 \<and> length raw = 8 then fmt_sockaddr V (le_int raw) else ''?'') in
     ''connectx('' @ dec V ''x0'' @ '', '' @ dst @ '')'')"

definition f_recvmsg :: "trace_env \<Rightarrow> string" where
  "f_recvmsg V = ''recvmsg(fd='' @ dec V ''x0'' @ '', msg='' @ hexed V ''x1'' @ '')''"

definition f_sendmsg :: "trace_env \<Rightarrow> string" where
  "f_sendmsg V = ''sendmsg(fd='' @ dec V ''x0'' @ '', msg='' @ hexed V ''x1'' @ '')''"

definition f_writev :: "trace_env \<Rightarrow> string" where
  "f_writev V = ''writev(fd='' @ dec V ''x0'' @ '', iov='' @ hexed V ''x1'' @ '', count='' @ dec V ''x2'' @ '')''"

text \<open>\<open>str.isdigit\<close> accepts the superscripts of Latin-1 too.\<close>

definition looks_like_port :: "string \<Rightarrow> bool" where
  "looks_like_port s = (s \<noteq> [] \<and> length s \<le> 5 \<and> list_all (\<lambda>c. is_digit c \<or> byte_val c \<in> {178, 179, 185}) s)"

definition f_nw_endpoint_create_host :: "trace_env \<Rightarrow> string" where
  "f_nw_endpoint_create_host V = (let port = read_cstr V (reg V ''x1'') in
     ''nw_endpoint_create_host('' @ cstr_arg V ''x0'' @ (if looks_like_port port then '', '' @ quoted port else []) @ '')'')"

definition f_nw_connection_start :: "trace_env \<Rightarrow> string" where "f_nw_connection_start V = ''nw_connection_start()''"
definition f_nw_connection_send :: "trace_env \<Rightarrow> string" where "f_nw_connection_send V = ''nw_connection_send()''"
definition f_nw_connection_receive :: "trace_env \<Rightarrow> string" where "f_nw_connection_receive V = ''nw_connection_receive()''"

definition f_task_resume :: "trace_env \<Rightarrow> string" where
  "f_task_resume V = name_or V ''NSURLSession request''"

definition f_cfurl_bytes :: "trace_env \<Rightarrow> string" where
  "f_cfurl_bytes V = (let ptr = reg V ''x1''; n = reg V ''x2''; plain = ''CFURLCreateWithBytes()'' in
     if ptr = 0 \<or> n \<le> 0 \<or> n > 8192 then plain
     else case tv_read V ptr (nat (min n 512)) of
         Some data \<Rightarrow> if data = [] then plain else ''URL '' @ quoted (take 200 (shown (decode_replace data)))
       | None \<Rightarrow> plain)"

definition plaintext :: "trace_env \<Rightarrow> string \<Rightarrow> string \<Rightarrow> string" where
  "plaintext V pointer len = dec V len @ '' B) '' @ fmt_text (read_mem V (reg V pointer) (reg V len) 1024)"

definition bare_name :: "trace_env \<Rightarrow> string \<Rightarrow> string" where
  "bare_name V d = lstrip_by (\<lambda>c. c = CHR ''_'') (name_or V d)"

definition f_tls_write :: "trace_env \<Rightarrow> string" where
  "f_tls_write V = bare_name V ''SSL_write'' @ ''('' @ plaintext V ''x1'' ''x2''"

definition f_tls_close :: "trace_env \<Rightarrow> string" where
  "f_tls_close V = (case tv_name V of None \<Rightarrow> ''None'' | Some n \<Rightarrow> n) @ ''('' @ hexed V ''x0'' @ '')''"

definition f_aead_seal :: "trace_env \<Rightarrow> string" where
  "f_aead_seal V = bare_name V ''EVP_AEAD_CTX_seal'' @ ''('' @ plaintext V ''x6'' ''x7''"

definition f_rustls_write :: "trace_env \<Rightarrow> string" where
  "f_rustls_write V =
     (if py_find ''::write_vectored'' (name_or V []) \<noteq> None
      then ''rustls Writer::write_vectored(iov='' @ hexed V ''x1'' @ '', count='' @ dec V ''x2'' @ '')''
      else ''rustls Writer::write('' @ plaintext V ''x1'' ''x2'')"

section \<open>The table\<close>

type_synonym signature = "string \<times> category \<times> (trace_env \<Rightarrow> string)"

definition sigs :: "category \<Rightarrow> (trace_env \<Rightarrow> string) \<Rightarrow> string list \<Rightarrow> signature list" where
  "sigs c f names = map (\<lambda>n. (n, c, f)) names"

definition SIGS :: "signature list" where
  "SIGS = concat [
     sigs NET f_tls_read [''SSL_read'', ''SSL_read_ex'', ''SSLRead''],
     sigs NET f_tls_close (map fst TLS_CLOSES),
     sigs FILE f_open [''open'', ''open$NOCANCEL''], sigs FILE f_openat [''openat''],
     sigs FILE f_close [''close'', ''close$NOCANCEL''], sigs FILE f_read [''read'', ''read$NOCANCEL''],
     sigs FILE f_write [''write'', ''write$NOCANCEL''], sigs FILE f_writev [''writev'', ''writev$NOCANCEL''],
     sigs FILE f_pread [''pread''], sigs FILE f_pwrite [''pwrite''], sigs FILE f_fopen [''fopen''],
     sigs FILE f_fread [''fread''], sigs FILE f_fwrite [''fwrite''], sigs FILE f_fclose [''fclose''],
     sigs FILE f_stat [''stat'', ''stat$INODE64'', ''lstat'', ''lstat$INODE64''],
     sigs FILE f_fstat [''fstat'', ''fstat$INODE64''], sigs FILE f_access [''access''],
     sigs FILE f_unlink [''unlink''], sigs FILE f_rename [''rename''], sigs FILE f_chmod [''chmod''],
     sigs FILE f_mkdir [''mkdir''], sigs FILE f_unlink [''rmdir''], sigs FILE f_dup [''dup''],
     sigs FILE f_dup2 [''dup2''], sigs FILE f_mmap [''mmap''],
     sigs PROC f_popen [''popen''], sigs PROC f_pclose [''pclose''], sigs PROC f_system [''system''],
     sigs PROC f_execve [''execve'', ''execvp''], sigs PROC f_posix_spawn [''posix_spawn'', ''posix_spawnp''],
     sigs PROC f_fork [''fork'', ''vfork''], sigs PROC f_kill [''kill''], sigs PROC f_dlopen [''dlopen''],
     sigs PROC f_dlsym [''dlsym''],
     sigs NET f_socket [''socket''], sigs NET f_connect [''connect'', ''connect$NOCANCEL''], sigs NET f_bind [''bind''],
     sigs NET f_listen [''listen''], sigs NET f_accept [''accept'', ''accept$NOCANCEL''],
     sigs NET f_send [''send'', ''send$NOCANCEL''], sigs NET f_recv [''recv'', ''recv$NOCANCEL''],
     sigs NET f_sendto [''sendto'', ''sendto$NOCANCEL''], sigs NET f_recvfrom [''recvfrom'', ''recvfrom$NOCANCEL''],
     sigs NET f_connectx [''connectx''], sigs NET f_recvmsg [''recvmsg'', ''recvmsg$NOCANCEL''],
     sigs NET f_sendmsg [''sendmsg'', ''sendmsg$NOCANCEL''],
     sigs NET f_nw_endpoint_create_host [''nw_endpoint_create_host''],
     sigs NET f_nw_connection_start [''nw_connection_start''], sigs NET f_nw_connection_send [''nw_connection_send''],
     sigs NET f_nw_connection_receive [''nw_connection_receive''], sigs NET f_cfurl_bytes [''CFURLCreateWithBytes''],
     sigs NET f_tls_write TLS_WRITES, sigs NET f_aead_seal [''EVP_AEAD_CTX_seal''],
     sigs NET f_shutdown [''shutdown''], sigs NET f_setsockopt [''setsockopt''],
     sigs NET f_getaddrinfo [''getaddrinfo''], sigs NET f_gethostbyname [''gethostbyname'', ''gethostbyname2'']]"

definition FOUNDATION_PATTERN :: string where
  "FOUNDATION_PATTERN = [CHR ''-'', BS] @ ''[.* (dataTaskWithRequest:|dataTaskWithRequest:completionHandler:|'' @
     ''uploadTaskWithRequest:fromData:|uploadTaskWithRequest:fromData:completionHandler:|'' @
     ''uploadTaskWithRequest:fromFile:|uploadTaskWithRequest:fromFile:completionHandler:|'' @
     ''uploadTaskWithStreamedRequest:)'' @ [BS, CHR '']'']"

definition RESUME_PATTERN :: string where
  "RESUME_PATTERN = [CHR ''-'', BS] @ ''[(NSURLSessionTask|__NSCF[^ ]*Task) resume'' @ [BS, CHR '']'']"

definition RUSTLS_WRITE_PATTERN :: string where
  "RUSTLS_WRITE_PATTERN = ''rustls.*conn.*Writer.*::write(_vectored)?(::h[0-9a-f]+)?$''"

definition REGEX_SIGS :: "signature list" where
  "REGEX_SIGS = [(RUSTLS_WRITE_PATTERN, NET, f_rustls_write), (FOUNDATION_PATTERN, NET, f_task_resume),
     (RESUME_PATTERN, NET, f_task_resume)]"

definition api_names :: "string list" where "api_names = map fst SIGS"

end
