(* ===== verification/Tracer.thy ===== *)
theory Tracer
  imports ApiFormat ReturnHooks Timing
begin

text \<open>
  \<open>Tracer\<close> of \<open>macdbg/core/tracer.py\<close>: breakpoints at the traced calls, the hit made of a stop at one,
  the return it waits for, and what is captured at the return. What the stop shows is given by
  \<open>trace_env\<close>; reading errno is an argument. The tracer always has its debugger.
\<close>

section \<open>State\<close>

record return_seen =
  rt_invocation :: int
  rt_value :: int
  rt_register :: string
  rt_errno :: "int option option"
  rt_payload :: "body_rec option"

record trace_details =
  td_phase :: string
  td_pid :: "int option"
  td_tid :: int
  td_symbol :: string
  td_registers :: "string list"
  td_caller :: "(string \<times> string) option"
  td_link :: "string option"
  td_seen :: observed
  td_error :: "string option"
  td_entry_call :: "string option"
  td_invocation :: "int option"
  td_return_status :: "string option"
  td_return_error :: "string option"
  td_returned :: "return_seen option"

record trace_hit =
  hit_category :: category
  hit_call :: string
  hit_details :: trace_details

record trace_entry =
  ta_name :: string
  ta_args :: "int list"
  ta_category :: category
  ta_details :: trace_details

record 'w tracer_dbg = "('w, trace_entry) hooks_dbg" +
  tr_ids :: "int list"
  tr_hardware_ids :: "int set"
  tr_names :: "(int, string) odict"
  tr_regex :: "(int, signature) odict"
  tr_enabled :: bool
  tr_exec :: string
  tr_depth :: int
  tr_hardware :: bool
  tr_skip_fd :: int
  tr_network :: net_capture
  tr_hooks :: "string list option"
  tr_capture_returns :: bool
  tr_returns :: bool

definition PRESETS :: "(string, string list) odict" where
  "PRESETS = [(''file'', [''open'', ''read'', ''write'']), (''network'', [''connect'', ''send'', ''recv'']),
     (''tls'', [''SSL_read'', ''SSL_write'']), (''process'', [''system'', ''execve'', ''posix_spawn''])]"

definition RETURN_APIS :: "string list" where
  "RETURN_APIS = [''open'', ''openat'', ''close'', ''read'', ''pread'', ''write'', ''pwrite'', ''connect'', ''send'', ''recv'',
     ''sendto'', ''recvfrom'', ''socket'', ''SSL_read'', ''SSL_read_ex'', ''SSLRead'', ''SSL_write'', ''SSL_write_ex'']"

section \<open>Configuration\<close>

definition unknown_hook :: exn where "unknown_hook = ValueError ''select one or more known API names''"

fun known_hook :: "json \<Rightarrow> string res" where
  "known_hook (JStr h) = (if h \<in> set api_names then Inr h else Inl unknown_hook)"
| "known_hook (JList xs) = Inl (type_error ''unhashable type: list'')"
| "known_hook (JObj d) = Inl (type_error ''unhashable type: dict'')"
| "known_hook _ = Inl unknown_hook"

text \<open>\<open>list(dict.fromkeys(hooks))\<close> keeps the first of equal names.\<close>

fun known_hooks :: "json \<Rightarrow> string list option res" where
  "known_hooks JNull = Inr None"
| "known_hooks (JList xs) = (if xs = [] then Inl unknown_hook
     else bindR (mapR known_hook xs) (\<lambda>hs. Inr (Some (rev (remdups (rev hs))))))"
| "known_hooks _ = Inl unknown_hook"

definition tr_configure :: "json \<Rightarrow> string option \<Rightarrow> bool \<Rightarrow> bool \<Rightarrow> (('w, 'z) tracer_dbg_scheme, unit) py" where
  "tr_configure hooks preset hardware returns =
     bindP (getP tr_enabled) (\<lambda>on.
     seqP (checkP (\<not> on) (ValueError ''disable tracing before changing capture settings''))
     (seqP (checkP (case preset of None \<Rightarrow> True | Some p \<Rightarrow> p \<in> fst ` set PRESETS \<or> p = ''all'') (ValueError ''unknown trace preset''))
     (bindP (liftP (known_hooks (case preset of None \<Rightarrow> hooks
         | Some p \<Rightarrow> (case map_of PRESETS p of None \<Rightarrow> JNull | Some names \<Rightarrow> JList (map JStr names))))) (\<lambda>names.
      modP (\<lambda>s. s\<lparr>tr_hooks := names, tr_hardware := hardware, tr_capture_returns := returns\<rparr>)))))"

section \<open>Arming\<close>

definition tr_disable :: "'w lldb \<Rightarrow> (('w, 'z) tracer_dbg_scheme, unit) py" where
  "tr_disable L =
     bindP (getP tr_returns) (\<lambda>returns.
     seqP (whenP returns (rh_clear L))
     (seqP (modP (\<lambda>s. s\<lparr>tr_network := net_reset (tr_network s), tr_hardware_ids := {}\<rparr>))
     (bindP (getP (\<lambda>s. (obs_target L (world s), tr_ids s))) (\<lambda>(target, ids).
      seqP (whenP target (forP (\<lambda>i. seqP (onW (do_bp_delete L i)) (retP ())) ids))
      (modP (\<lambda>s. s\<lparr>tr_ids := [], tr_names := [], tr_regex := [], tr_enabled := False\<rparr>))))))"

text \<open>\<open>shlex.quote\<close>\<close>

definition shell_safe :: "char \<Rightarrow> bool" where
  "shell_safe c = (byte_val c < 128 \<and> (is_word c \<or> c \<in> set ''@%+=:,./-''))"

definition shell_quote :: "string \<Rightarrow> string" where
  "shell_quote s = (let q = val_byte 39 in if s = [] then [q, q] else if list_all shell_safe s then s
     else q # concat (map (\<lambda>c. if c = q then [q, DQ, q, DQ, q] else [c]) s) @ [q])"

definition arm_trace :: "'w lldb \<Rightarrow> string \<Rightarrow> bool \<Rightarrow> (('w, 'z) tracer_dbg_scheme, breakpoint) py" where
  "arm_trace L name regex =
     (let selector = (if regex then ''-r '' else ''-F '') @ shell_quote name in
     bindP (getP tr_hardware) (\<lambda>hardware.
     if \<not> hardware then
       bindP (getP (\<lambda>s. bp_ids L (world s))) (\<lambda>before.
       bindP (onW (do_command L (''breakpoint set --skip-prologue false '' @ selector))) (\<lambda>(succeeded, err).
       bindP (getP (\<lambda>s. filter (\<lambda>b. bp_id b \<notin> set before) (obs_breakpoints L (world s)))) (\<lambda>created.
       if \<not> succeeded \<or> length created \<noteq> 1 then
         seqP (forP (\<lambda>b. seqP (onW (do_bp_delete L (bp_id b))) (retP ())) created)
         (seqP (tr_disable L) (raiseP (RuntimeError (''cannot arm network trace hook '' @ name))))
       else retP (hd created))))
     else
       bindP (catchP (create_hardware_breakpoint L (selector @ '' --skip-prologue false'') False 2)
           (\<lambda>e. case e of RuntimeError m \<Rightarrow> seqP (tr_disable L) (raiseP e) | _ \<Rightarrow> raiseP e)) (\<lambda>b.
       seqP (modP (\<lambda>s. s\<lparr>tr_hardware_ids := insert (bp_id b) (tr_hardware_ids s)\<rparr>))
       (retP b))))"

text \<open>One hook, with the count of those that have a place already.\<close>

definition add_hook :: "'w lldb \<Rightarrow> string \<times> signature option \<Rightarrow> nat \<Rightarrow> (('w, 'z) tracer_dbg_scheme, nat) py" where
  "add_hook L hook resolved = (case hook of (name, pattern) \<Rightarrow>
     bindP (arm_trace L name (pattern \<noteq> None)) (\<lambda>b.
     seqP (modP (\<lambda>s. s\<lparr>tr_ids := tr_ids s @ [bp_id b], tr_names := od_set (bp_id b) name (tr_names s)\<rparr>))
     (seqP (case pattern of None \<Rightarrow> retP () | Some sg \<Rightarrow> modP (\<lambda>s. s\<lparr>tr_regex := od_set (bp_id b) sg (tr_regex s)\<rparr>))
     (retP (if bp_locs b \<noteq> [] then Suc resolved else resolved)))))"

definition hooks_wanted :: "string list option \<Rightarrow> (string \<times> signature option) list" where
  "hooks_wanted hooks = (case hooks of Some names \<Rightarrow> map (\<lambda>n. (n, None)) names
     | None \<Rightarrow> map (\<lambda>n. (n, None)) api_names @ map (\<lambda>sg. (fst sg, Some sg)) REGEX_SIGS)"

definition tr_enable :: "'w lldb \<Rightarrow> string \<Rightarrow> (('w, 'z) tracer_dbg_scheme, nat \<times> nat) py" where
  "tr_enable L exec =
     bindP (getP (\<lambda>s. tr_enabled s \<or> \<not> obs_target L (world s))) (\<lambda>no.
     if no then retP (0, 0)
     else seqP (modP (\<lambda>s. s\<lparr>tr_exec := exec\<rparr>))
       (seqP (modP (\<lambda>s. if tr_hardware s \<and> tr_hooks s = None then s\<lparr>tr_hooks := map_of PRESETS ''file''\<rparr> else s))
       (seqP (modP (\<lambda>s. if tr_returns s then s
          else s\<lparr>tr_returns := True, rh_limit := 128, rh_pending := [], rh_sequence := 0, rh_retired := {}\<rparr>))
       (bindP (getP (\<lambda>s. hooks_wanted (tr_hooks s))) (\<lambda>hooks.
        bindP (foldP (add_hook L) hooks 0) (\<lambda>resolved.
        seqP (modP (\<lambda>s. s\<lparr>tr_enabled := True\<rparr>))
        (bindP (getP (\<lambda>s. length (tr_ids s))) (\<lambda>n. retP (n, resolved)))))))))"

definition is_trace_bp :: "('w, 'z) tracer_dbg_scheme \<Rightarrow> int \<Rightarrow> bool" where
  "is_trace_bp s i = (i \<in> fst ` set (tr_names s) \<or> (tr_returns s \<and> i \<in> rh_ids s))"

definition tr_hidden_ids :: "('w, 'z) tracer_dbg_scheme \<Rightarrow> int set" where
  "tr_hidden_ids s = fst ` set (tr_names s) \<union> (if tr_returns s then rh_ids s \<union> rh_retired s else {})"

definition tr_hardware_bp_ids :: "('w, 'z) tracer_dbg_scheme \<Rightarrow> int set" where
  "tr_hardware_bp_ids s = tr_hardware_ids s \<union> (if tr_returns s then rh_ids s else {})"

section \<open>Entries\<close>

definition on_network :: "(net_capture, 'a) py \<Rightarrow> (('w, 'z) tracer_dbg_scheme, 'a) py" where
  "on_network m = (\<lambda>s. case m (tr_network s) of (r, n) \<Rightarrow> (r, s\<lparr>tr_network := n\<rparr>))"

definition arg_names :: "string list" where
  "arg_names = [''x0'', ''x1'', ''x2'', ''x3'', ''x4'', ''x5'', ''x6'', ''x7'']"

definition entry_details :: "trace_env \<Rightarrow> observed \<Rightarrow> string option \<Rightarrow> trace_details" where
  "entry_details V seen err = (let caller = (case tv_frames V of Some (pc, m) # _ \<Rightarrow>
         Some (py_hex pc, case m of None \<Rightarrow> [] | Some name \<Rightarrow> name) | _ \<Rightarrow> None) in
     \<lparr>td_phase = ''entry'', td_pid = Some (ne_pid (tv_net V)), td_tid = ne_tid (tv_net V), td_symbol = name_or V [],
      td_registers = map (hexed V) arg_names, td_caller = caller,
      td_link = (if caller = None then Some (hexed V ''lr'') else None),
      td_seen = seen, td_error = err, td_entry_call = None, td_invocation = None, td_return_status = None,
      td_return_error = None, td_returned = None\<rparr>)"

text \<open>\<open>_caller_is_noise\<close>: none of the nearest callers lies in the executable, and all are known.\<close>

fun all_elsewhere :: "string \<Rightarrow> (addr \<times> string option) option list \<Rightarrow> bool" where
  "all_elsewhere exec [] = True"
| "all_elsewhere exec (f # fs) = (case f of None \<Rightarrow> False
     | Some (pc, m) \<Rightarrow> (case m of None \<Rightarrow> False | Some name \<Rightarrow> if name = exec then False else all_elsewhere exec fs))"

definition caller_is_noise :: "string \<Rightarrow> int \<Rightarrow> trace_env \<Rightarrow> bool" where
  "caller_is_noise exec depth V = (if exec = [] \<or> depth \<le> 0 then False
     else let callers = take (nat depth) (tv_frames V) in callers \<noteq> [] \<and> all_elsewhere exec callers)"

fun status_text :: "body_status \<Rightarrow> string" where
  "status_text Complete = ''complete''"
| "status_text Incomplete = ''incomplete''"
| "status_text Truncated = ''truncated''"
| "status_text Malformed = ''malformed''"
| "status_text Unreadable = ''unreadable''"
| "status_text Unavailable = ''unavailable''"

fun captured_line :: "captured \<Rightarrow> string \<times> string \<times> body_rec option" where
  "captured_line (Wire r) = (rq_method r, rq_url r, rq_body r)"
| "captured_line (App q) = (ar_method q, ar_url q, Some (ar_body q))"

definition request_call :: "string \<Rightarrow> captured \<Rightarrow> string res" where
  "request_call name r = (case captured_line r of (method', url, body) \<Rightarrow> (case body of
       None \<Rightarrow> Inl (KeyError ''body'')
     | Some b \<Rightarrow> Inr (method' @ '' '' @ take 200 url @ '' ['' @ name @ ''; body '' @ py_str (bo_captured b) @ '' B, '' @
         status_text (bo_status b) @ '']'')))"

text \<open>What a return repeats of its entry: not the captured payload and requests.\<close>

definition without_capture :: "trace_details \<Rightarrow> trace_details" where
  "without_capture d = d\<lparr>td_seen := (td_seen d)\<lparr>nd_source := None, nd_payload := None, nd_requests := [], nd_skipped := False\<rparr>\<rparr>"

definition await_return ::
    "'w lldb \<Rightarrow> trace_env \<Rightarrow> thread \<Rightarrow> string \<Rightarrow> trace_hit \<Rightarrow> (('w, 'z) tracer_dbg_scheme, trace_hit) py" where
  "await_return L V t api hit = (let d = hit_details hit in
     catchP
       (bindP (getP tr_returns) (\<lambda>returns.
        if \<not> returns then raiseP (PyError ''AttributeError'' ''arm'')
        else bindP (rh_arm L t (ne_frame (tv_net V)) \<lparr>ta_name = api, ta_args = map (reg V) arg_names,
              ta_category = hit_category hit,
              ta_details = (without_capture d)\<lparr>td_entry_call := Some (hit_call hit)\<rparr>\<rparr>) (\<lambda>n.
          retP (hit\<lparr>hit_details := d\<lparr>td_invocation := Some n, td_return_status := Some ''pending''\<rparr>\<rparr>))))
       (\<lambda>e. case e of RuntimeError m \<Rightarrow>
            retP (hit\<lparr>hit_details := d\<lparr>td_return_status := Some ''unavailable'', td_return_error := Some m\<rparr>\<rparr>)
          | _ \<Rightarrow> raiseP e))"

definition format_hit ::
    "'w lldb \<Rightarrow> trace_env \<Rightarrow> thread \<Rightarrow> bool \<Rightarrow> category \<Rightarrow> (trace_env \<Rightarrow> string) \<Rightarrow>
     (('w, 'z) tracer_dbg_scheme, trace_hit option) py" where
  "format_hit L V t user_only category formatter = (let name = name_or V [] in
     bindP (catchP (bindP (on_network (observe (tv_net V) name)) (\<lambda>seen. retP (seen, None)))
         (\<lambda>e. retP (nothing_seen\<lparr>nd_source := Some name\<rparr>, Some (exn_text e)))) (\<lambda>(seen, err).
     let cat = (if nd_payload seen \<noteq> None \<or> nd_requests seen \<noteq> [] \<or> nd_stream seen \<noteq> None then NET else category) in
     bindP (getP (\<lambda>s. user_only \<and> cat \<noteq> NET \<and> caller_is_noise (tr_exec s) (tr_depth s) V)) (\<lambda>noise.
     if noise then retP None
     else bindP (liftP (if nd_requests seen \<noteq> [] then request_call name (last (nd_requests seen)) else Inr (formatter V))) (\<lambda>call.
       let hit = \<lparr>hit_category = cat, hit_call = call, hit_details = entry_details V seen err\<rparr>; api = api_name name in
       bindP (getP (\<lambda>s. tr_capture_returns s \<and> api \<in> set RETURN_APIS)) (\<lambda>returns.
       bindP (if returns then await_return L V t api hit else retP hit) (\<lambda>h. retP (Some h)))))))"

definition own_descriptor :: "('w, 'z) tracer_dbg_scheme \<Rightarrow> trace_env \<Rightarrow> bool" where
  "own_descriptor s V = (tr_skip_fd s \<ge> 0 \<and> api_name (name_or V []) \<in> set FD_CALLS \<and> reg V ''x0'' = tr_skip_fd s)"

definition hit_from ::
    "'w lldb \<Rightarrow> trace_env option \<Rightarrow> thread \<Rightarrow> bool \<Rightarrow> int option \<Rightarrow> (('w, 'z) tracer_dbg_scheme, trace_hit option) py" where
  "hit_from L frame t user_only bp = (case frame of None \<Rightarrow> retP None | Some V \<Rightarrow>
     bindP (getP (\<lambda>s. own_descriptor s V)) (\<lambda>own.
     if own then retP None
     else bindP (getP (\<lambda>s. case bp of None \<Rightarrow> None | Some i \<Rightarrow> map_of (tr_regex s) i)) (\<lambda>pattern. case pattern of
         Some (p, cat, f) \<Rightarrow> format_hit L V t user_only cat f
       | None \<Rightarrow> let name = name_or V [] in
          (case map_of SIGS name of Some (cat, f) \<Rightarrow> format_hit L V t user_only cat f
           | None \<Rightarrow> (case map_of SIGS (lstrip_by (\<lambda>c. c = CHR ''_'') name) of
               Some (cat, f) \<Rightarrow> format_hit L V t user_only cat f
             | None \<Rightarrow> retP None)))))"

section \<open>Returns\<close>

definition WIDE_RETURNS :: "string set" where
  "WIDE_RETURNS = {''read'', ''pread'', ''write'', ''pwrite'', ''recv'', ''send'', ''recvfrom'', ''sendto''}"

definition READ_APIS :: "string set" where
  "READ_APIS = {''read'', ''pread'', ''recv'', ''recvfrom'', ''SSL_read'', ''SSL_read_ex'', ''SSLRead''}"

definition return_width :: "string \<Rightarrow> nat" where
  "return_width name = (if name \<in> WIDE_RETURNS then 64 else 32)"

definition return_value :: "string \<Rightarrow> int \<Rightarrow> int" where
  "return_value name raw = (let w = return_width name; v = raw AND (2 ^ w - 1) in
     if v AND 2 ^ (w - 1) \<noteq> 0 then v - 2 ^ w else v)"

text \<open>How many bytes the call delivered: \<open>SSL_read_ex\<close> and \<open>SSLRead\<close> write it through their last argument.\<close>

definition returned_size :: "'w lldb \<Rightarrow> 'w \<Rightarrow> trace_entry \<Rightarrow> int \<Rightarrow> int" where
  "returned_size L w e v = (if ta_name e \<in> {''SSL_read_ex'', ''SSLRead''} then
       (let data = (if v = (if ta_name e = ''SSL_read_ex'' then 1 else 0) then read_memory L w (ta_args e ! 3) 8 else []) in
        if length data = 8 then le_int data else 0)
     else max 0 v)"

definition returned_payload :: "'w lldb \<Rightarrow> 'w \<Rightarrow> trace_entry \<Rightarrow> int \<Rightarrow> body_rec option" where
  "returned_payload L w e count = (if ta_name e \<in> READ_APIS \<and> count \<noteq> 0 then
       (let len = min (min count (ta_args e ! 2)) (int CAPTURE_LIMIT); data = read_memory L w (ta_args e ! 1) (nat len) in
        Some (record_bytes data (Some count) (if int (length data) < len then Some Unreadable else None)))
     else None)"

definition return_hit :: "'w lldb \<Rightarrow> ('w \<Rightarrow> int option) \<Rightarrow> frame \<Rightarrow> 'w \<Rightarrow> trace_entry ret_hook \<Rightarrow> trace_hit" where
  "return_hit L errno f w h = (let e = rh_payload h; raw = reg_unsigned f ''x0''; v = return_value (ta_name e) raw;
       payload = returned_payload L w e (returned_size L w e v); d = ta_details e in
     \<lparr>hit_category = ta_category e, hit_call = ta_name e @ '' '' @ [other_char] @ '' '' @ py_str v,
      hit_details = d\<lparr>td_phase := ''return'', td_invocation := Some (rh_invocation h),
        td_seen := (td_seen d)\<lparr>nd_payload := payload,
          nd_source := (if payload \<noteq> None then Some (ta_name e @ '' return'') else nd_source (td_seen d))\<rparr>,
        td_returned := Some \<lparr>rt_invocation = rh_invocation h, rt_value = v, rt_register = py_hex raw,
          rt_errno = (if v = -1 \<and> \<not> starts_with (ta_name e) ''SSL'' then Some (errno w) else None),
          rt_payload = payload\<rparr>\<rparr>\<rparr>)"

definition return_hits ::
    "'w lldb \<Rightarrow> ('w \<Rightarrow> int option) \<Rightarrow> thread \<Rightarrow> frame \<Rightarrow> (('w, 'z) tracer_dbg_scheme, trace_hit list) py" where
  "return_hits L errno t f =
     bindP (getP tr_returns) (\<lambda>returns.
     if \<not> returns then retP []
     else bindP (rh_consume L t f) (\<lambda>hooks. getP (\<lambda>s. map (return_hit L errno f (world s)) hooks)))"

text \<open>\<open>flush_network\<close>: the requests cut off when the capture ends.\<close>

definition flush_network :: "int option \<Rightarrow> (('w, 'z) tracer_dbg_scheme, (int option \<times> captured list) list) py" where
  "flush_network pid = bindP (on_network (actP (\<lambda>c. case cp_flush None (nc_http c) of (rs, h) \<Rightarrow> (map Wire rs, c\<lparr>nc_http := h\<rparr>)))) (\<lambda>rs.
     retP (if rs = [] then [] else [(pid, rs)]))"

section \<open>What a return shows is what the call delivered\<close>

lemma signed_bits:
  assumes "0 < w"
  shows "(let v = raw AND (2 ^ w - 1) in if v AND 2 ^ (w - 1) \<noteq> 0 then v - 2 ^ w else v) = signed_take_bit (w - 1) (raw :: int)"
proof -
  obtain n where w: "w = Suc n" using assms by (cases w) auto
  have m: "raw AND (2 ^ w - 1) = take_bit w raw" by (simp add: take_bit_eq_mask mask_eq_exp_minus_1)
  have b: "take_bit w raw AND 2 ^ n \<noteq> 0 \<longleftrightarrow> bit raw n" by (simp add: and_exp_eq_0_iff_not_bit bit_take_bit_iff w)
  show ?thesis unfolding Let_def m using b
    by (simp add: w signed_take_bit_eq_take_bit_minus)
qed

lemma return_value_signed:
  "return_value name raw = (if name \<in> WIDE_RETURNS then sint (word_of_int raw :: 64 word) else sint (word_of_int raw :: 32 word))"
  using signed_bits[of 64 raw] signed_bits[of 32 raw]
  by (simp add: return_value_def return_width_def sint_sbintrunc')

lemma returned_payload_real:
  assumes "mem_law L mem" "returned_payload L w e count = Some b" and pos: "0 \<le> count"
  shows "int (length (bo_data b)) \<le> max 0 (ta_args e ! 2) \<and> length (bo_data b) \<le> CAPTURE_LIMIT \<and>
    (bo_status b = Complete \<longrightarrow> int (length (bo_data b)) = count \<and>
      (\<forall>i < length (bo_data b). bo_data b ! i = mem w (ta_args e ! 1 + int i)))"
proof -
  define len where "len = min (min count (ta_args e ! 2)) (int CAPTURE_LIMIT)"
  define data where "data = read_memory L w (ta_args e ! 1) (nat len)"
  have b: "b = record_bytes data (Some count) (if int (length data) < len then Some Unreadable else None)"
    using assms(2) by (auto simp: returned_payload_def Let_def len_def data_def split: if_splits)
  have short: "length data \<le> nat len" unfolding data_def by (rule read_memory_length[OF mem_read_law[OF assms(1)]])
  then have "length data \<le> CAPTURE_LIMIT" "int (length data) \<le> max 0 (ta_args e ! 2)" by (auto simp: len_def)
  moreover from this have d: "bo_data b = data" by (simp add: b record_bytes_def Let_def)
  moreover have "int (length data) = count \<and> length data = nat len" if "bo_status b = Complete"
  proof -
    have "take CAPTURE_LIMIT data = data" using calculation(1) by simp
    then have "count \<le> int (length data)"
      using that unfolding b record_bytes_def Let_def by (auto simp: max_def split: if_splits)
    moreover have "len \<le> count" by (simp add: len_def)
    ultimately show ?thesis using short pos by linarith
  qed
  moreover have "data ! i = mem w (ta_args e ! 1 + int i)" if "length data = nat len" "i < length data" for i
    using read_memory_full[OF assms(1), of w "ta_args e ! 1" "nat len" data i] that by (simp add: data_def)
  ultimately show ?thesis by auto
qed

lemma rh_consume_outstanding:
  assumes "rh_consume L t f s = (Inr hooks, u)"
  shows "set hooks \<subseteq> set (outstanding s)"
proof -
  have "hooks = [] \<or> hooks = map snd (rev (filter (\<lambda>(i, h). rh_match t f h) (rh_pending s)))"
    using assms by (simp add: rh_consume_def run split: if_splits sum.splits prod.splits)
  then show ?thesis unfolding outstanding_def by fastforce
qed


definition demo_entry :: trace_entry where
  "demo_entry = \<lparr>ta_name = ''read'', ta_args = [5, 0x4000, 2, 0, 0, 0, 0, 0], ta_category = FILE,
     ta_details = entry_details \<lparr>tv_net = demo_net [], tv_name = Some ''read'', tv_read = (\<lambda>_ _. None),
       tv_cstring = (\<lambda>_ _. None), tv_frames = []\<rparr> nothing_seen None\<rparr>"

definition demo_tracer :: "demo_world tracer_dbg" where
  "demo_tracer = hooks_dbg.extend (dbg.extend ((demo_dbg (demo_world\<lparr>dw_bps := [demo_bp 1 0x1000],
       dw_mem := [(0x4000, CHR ''o''), (0x4001, CHR ''k'')]\<rparr>))\<lparr>hardware_ids := {1}\<rparr>)
     (hooks_dbg.fields 128 [(1, \<lparr>rh_tid = 1, rh_sp = 0x8000, rh_address = 0x1000, rh_payload = demo_entry,
        rh_invocation = 1\<rparr>)] 1 {}))
     (tracer_dbg.fields [] {} [] [] True ''victim'' 5 False (-1) new_net None True True)"


section \<open>Arming is all or nothing\<close>

text \<open>What a disabled tracer has, and a tracer that is being armed on breakpoints \<open>bs\<close>.\<close>

definition tr_idle :: "('w, 'z) tracer_dbg_scheme \<Rightarrow> bool" where
  "tr_idle s = (tr_ids s = [] \<and> tr_names s = [] \<and> tr_regex s = [] \<and> \<not> tr_enabled s \<and> tr_hardware_ids s = {} \<and> rh_pending s = [])"

definition tr_armed :: "'w lldb \<Rightarrow> breakpoint list \<Rightarrow> string list \<Rightarrow> ('w, 'z) tracer_dbg_scheme \<Rightarrow> bool" where
  "tr_armed L bs names s = (\<exists>new. obs_breakpoints L (world s) = bs @ new \<and> map bp_id new = tr_ids s \<and>
     distinct (tr_ids s) \<and> bp_id ` set bs \<inter> set (tr_ids s) = {} \<and> map fst (tr_names s) = tr_ids s \<and>
     map snd (tr_names s) = names \<and> tr_hardware_ids s \<subseteq> set (tr_ids s) \<and> rh_pending s = [] \<and> tr_returns s)"

lemma wp_delete_trace:
  assumes "bp_delete_law L"
  shows "wpP (forP (\<lambda>i. seqP (onW (do_bp_delete L i)) (retP ())) ids)
    (\<lambda>_ t. \<exists>w. t = s\<lparr>world := w\<rparr> \<and> obs_breakpoints L w = filter (\<lambda>b. bp_id b \<notin> set ids) (obs_breakpoints L (world s)))
    (\<lambda>_ _. False) s"
proof (induction ids arbitrary: s)
  case Nil
  show ?case by (auto simp: wp intro: exI[of _ "world s"])
next
  case (Cons i ids)
  show ?case unfolding forP.simps wp
    by (rule wpP_weaken[OF Cons]) (auto simp: bp_delete_lawD[OF assms] intro: filter_cong)
qed

lemma wp_tr_disable:
  assumes del: "bp_delete_law L" and target: "\<And>w. obs_target L w" and s: "tr_armed L bs names s"
  shows "wpP (tr_disable L) (\<lambda>_ t. tr_idle t \<and> obs_breakpoints L (world t) = bs) (\<lambda>_ _. False) s"
proof -
  obtain new where new: "obs_breakpoints L (world s) = bs @ new" "map bp_id new = tr_ids s"
      "bp_id ` set bs \<inter> set (tr_ids s) = {}" and p: "rh_pending s = []"
    using s by (auto simp: tr_armed_def)
  have ids: "set (tr_ids s) = bp_id ` set new" using new(2) by (metis set_map)
  have "filter (\<lambda>b. bp_id b \<notin> set (tr_ids s)) bs = bs" by (rule filter_True) (use new(3) in auto)
  moreover have "filter (\<lambda>b. bp_id b \<notin> set (tr_ids s)) new = []" by (simp add: filter_empty_conv ids)
  ultimately have gone: "filter (\<lambda>b. bp_id b \<notin> set (tr_ids s)) bs = bs" "filter (\<lambda>b. bp_id b \<notin> set (tr_ids s)) new = []" .
  show ?thesis unfolding tr_disable_def rh_clear_def
    apply (simp add: wp p target)
    apply (intro conjI impI)
     apply (rule wpP_weaken[OF wp_delete_trace[OF del]])
      apply (auto simp: tr_idle_def new(1) gone p)[2]
    apply (rule wpP_weaken[OF wp_delete_trace[OF del]])
     apply (auto simp: tr_idle_def new(1) gone p)
    done
qed

text \<open>Arming one hook appends its breakpoint, or leaves the tracer idle and the breakpoints as they were.\<close>

lemma tr_armed_add:
  assumes "tr_armed L bs names s" "obs_breakpoints L w = obs_breakpoints L (world s) @ [b]" "bp_id b \<notin> set (bp_ids L (world s))"
    "h \<subseteq> insert (bp_id b) (tr_hardware_ids s)"
  shows "tr_armed L bs (names @ [name]) (s\<lparr>world := w, tr_hardware_ids := h, tr_ids := tr_ids s @ [bp_id b],
     tr_names := od_set (bp_id b) name (tr_names s)\<rparr>)"
proof -
  obtain new where new: "obs_breakpoints L (world s) = bs @ new" "map bp_id new = tr_ids s"
    using assms(1) by (auto simp: tr_armed_def)
  have "bp_id b \<notin> bp_id ` set bs" "bp_id b \<notin> set (tr_ids s)"
    using assms(3) new(2)[symmetric] by (auto simp: bp_ids_def new(1))
  moreover from this have "map_of (tr_names s) (bp_id b) = None"
    using assms(1) by (simp add: tr_armed_def map_of_eq_None_iff) (metis image_set)
  ultimately show ?thesis using assms(1,2,4) new
    by (auto simp: tr_armed_def dict_simps intro!: exI[of _ "new @ [b]"])
qed

lemma tr_armed_world:
  "tr_armed L bs names s \<Longrightarrow> obs_breakpoints L w = obs_breakpoints L (world s) \<Longrightarrow> tr_armed L bs names (s\<lparr>world := w\<rparr>)"
  by (simp add: tr_armed_def)

text \<open>The software branch of \<open>arm_trace\<close>, for any command.\<close>

lemma wp_arm_software:
  assumes laws: "bp_delete_law L" "bp_command_law L" and target: "\<And>w. obs_target L w" and s: "tr_armed L bs names s"
    and Q: "\<And>b w h. obs_breakpoints L w = obs_breakpoints L (world s) @ [b] \<Longrightarrow> bp_id b \<notin> set (bp_ids L (world s)) \<Longrightarrow>
      h \<subseteq> insert (bp_id b) (tr_hardware_ids s) \<Longrightarrow> Q b (s\<lparr>world := w, tr_hardware_ids := h\<rparr>)"
    and E: "\<And>m t. tr_idle t \<Longrightarrow> obs_breakpoints L (world t) = bs \<Longrightarrow> E (RuntimeError m) t"
  shows "wpP (bindP (getP (\<lambda>s. bp_ids L (world s))) (\<lambda>before.
       bindP (onW (do_command L c)) (\<lambda>(succeeded, err).
       bindP (getP (\<lambda>s. filter (\<lambda>b. bp_id b \<notin> set before) (obs_breakpoints L (world s)))) (\<lambda>created.
       if \<not> succeeded \<or> length created \<noteq> 1 then
         seqP (forP (\<lambda>b. seqP (onW (do_bp_delete L (bp_id b))) (retP ())) created)
         (seqP (tr_disable L) (raiseP (RuntimeError text)))
       else retP (hd created))))) Q E s"
proof -
  obtain ok err w where w: "do_command L c (world s) = ((ok, err), w)" by (metis surj_pair)
  obtain new where new: "obs_breakpoints L w = obs_breakpoints L (world s) @ new"
    "\<forall>b \<in> set new. bp_id b \<notin> set (bp_ids L (world s))"
    using bp_command_lawD[OF laws(2), of c "world s"] w by auto
  have created: "filter (\<lambda>b. bp_id b \<notin> set (bp_ids L (world s))) (obs_breakpoints L w) = new"
    using new by (auto simp: bp_ids_def filter_empty_conv filter_id_conv)
  have undo: "wpP (forP (\<lambda>b. seqP (onW (do_bp_delete L (bp_id b))) (retP ())) new)
      (\<lambda>_. wpP (tr_disable L) (\<lambda>_. E (RuntimeError m)) E) E (s\<lparr>world := w\<rparr>)" for m
  proof -
    have map: "forP (\<lambda>b. seqP (onW (do_bp_delete L (bp_id b))) (retP ())) xs =
        forP (\<lambda>i. seqP (onW (do_bp_delete L i)) (retP ())) (map bp_id xs)" for xs :: "breakpoint list"
      by (induction xs) simp_all
    have "filter (\<lambda>b. bp_id b \<notin> set (map bp_id new)) (obs_breakpoints L (world s)) = obs_breakpoints L (world s)"
      by (rule filter_True) (use new(2) in \<open>auto simp: bp_ids_def, metis image_eqI\<close>)
    moreover have "filter (\<lambda>b. bp_id b \<notin> set (map bp_id new)) new = []" by (auto simp: filter_empty_conv)
    ultimately have old: "filter (\<lambda>b. bp_id b \<notin> set (map bp_id new)) (obs_breakpoints L w) = obs_breakpoints L (world s)"
      by (simp add: new(1))
    show ?thesis unfolding map
    proof (rule wpP_weaken[OF wp_delete_trace[OF laws(1)]])
      fix x t assume "\<exists>v. t = s\<lparr>world := w, world := v\<rparr> \<and>
        obs_breakpoints L v = filter (\<lambda>b. bp_id b \<notin> set (map bp_id new)) (obs_breakpoints L (world (s\<lparr>world := w\<rparr>)))"
      then obtain v where t: "t = s\<lparr>world := v\<rparr>" "obs_breakpoints L v = obs_breakpoints L (world s)" using old by auto
      show "wpP (tr_disable L) (\<lambda>_. E (RuntimeError m)) E t" unfolding t(1)
        by (rule wpP_weaken[OF wp_tr_disable[OF laws(1) target tr_armed_world[OF s t(2)]]]) (simp_all add: E)
    qed simp
  qed
  have "wpP (if \<not> ok \<or> length new \<noteq> 1 then
         seqP (forP (\<lambda>b. seqP (onW (do_bp_delete L (bp_id b))) (retP ())) new)
         (seqP (tr_disable L) (raiseP (RuntimeError text))) else retP (hd new)) Q E (s\<lparr>world := w\<rparr>)"
  proof (cases "ok \<and> length new = 1")
    case True
    then obtain b where b: "new = [b]" by (auto simp: length_Suc_conv)
    have "Q b (s\<lparr>world := w\<rparr>)" using Q[of w b "tr_hardware_ids s"] new b by auto
    then show ?thesis using True b by (simp add: wp)
  next
    case False
    then have no: "(\<not> ok \<or> length new \<noteq> 1) = True" by simp
    show ?thesis unfolding no if_True wpP_bind(2) wpP_simps(2) by (rule undo)
  qed
  then show ?thesis by (simp add: wpP_bind(1) wpP_simps wpP_onW w created split: if_splits) auto
qed

lemma wp_arm_trace:
  assumes laws: "bp_delete_law L" "bp_command_law L" and target: "\<And>w. obs_target L w" and s: "tr_armed L bs names s"
    and Q: "\<And>b w h. obs_breakpoints L w = obs_breakpoints L (world s) @ [b] \<Longrightarrow> bp_id b \<notin> set (bp_ids L (world s)) \<Longrightarrow>
      h \<subseteq> insert (bp_id b) (tr_hardware_ids s) \<Longrightarrow> Q b (s\<lparr>world := w, tr_hardware_ids := h\<rparr>)"
    and E: "\<And>m t. tr_idle t \<Longrightarrow> obs_breakpoints L (world t) = bs \<Longrightarrow> E (RuntimeError m) t"
  shows "wpP (arm_trace L name regex) Q E s"
proof (cases "tr_hardware s")
  case True
  have undo: "wpP (tr_disable L) (\<lambda>_. E (RuntimeError m)) E (s\<lparr>world := w\<rparr>)"
    if "obs_breakpoints L w = obs_breakpoints L (world s)" for m w
    by (rule wpP_weaken[OF wp_tr_disable[OF laws(1) target tr_armed_world[OF s that]]]) (simp_all add: E)
  have "wpP (create_hardware_breakpoint L sel False 2)
      (\<lambda>b. wpP (seqP (modP (\<lambda>s. s\<lparr>tr_hardware_ids := insert (bp_id b) (tr_hardware_ids s)\<rparr>)) (retP b)) Q E)
      (\<lambda>e. wpP (case e of RuntimeError m \<Rightarrow> seqP (tr_disable L) (raiseP e) | _ \<Rightarrow> raiseP e)
        (\<lambda>b. wpP (seqP (modP (\<lambda>s. s\<lparr>tr_hardware_ids := insert (bp_id b) (tr_hardware_ids s)\<rparr>)) (retP b)) Q E) E) s" for sel
  proof (rule wp_create_hardware[OF laws])
    fix b w assume "allocated L 2 (world s) b w"
    then show "wpP (seqP (modP (\<lambda>s. s\<lparr>tr_hardware_ids := insert (bp_id b) (tr_hardware_ids s)\<rparr>)) (retP b)) Q E (s\<lparr>world := w\<rparr>)"
      using Q[of w b "insert (bp_id b) (tr_hardware_ids s)"] by (simp add: wp allocated_def)
  qed (simp add: wp undo)
  then show ?thesis unfolding arm_trace_def Let_def wpP_bind(1)[of "getP tr_hardware"] wpP_simps
    using True by (simp only: not_True_eq_False if_False wpP_bind(1,3))
next
  case False
  then show ?thesis unfolding arm_trace_def Let_def wpP_bind(1)[of "getP tr_hardware"] wpP_simps
    by (simp only: not_False_eq_True if_True) (rule wp_arm_software[where Q = Q and E = E, OF laws target s]; (rule Q | rule E); assumption)
qed

lemma wp_add_hook:
  assumes laws: "bp_delete_law L" "bp_command_law L" and target: "\<And>w. obs_target L w" and s: "tr_armed L bs names s"
  shows "wpP (add_hook L hook n) (\<lambda>_. tr_armed L bs (names @ [fst hook])) (\<lambda>_ t. tr_idle t \<and> obs_breakpoints L (world t) = bs) s"
proof -
  obtain name pattern where h: "hook = (name, pattern)" by fastforce
  show ?thesis unfolding add_hook_def h prod.case wpP_bind(1)[of "arm_trace _ _ _"]
  proof (rule wp_arm_trace[OF laws target s])
    fix b w hw
    assume "obs_breakpoints L w = obs_breakpoints L (world s) @ [b]" "bp_id b \<notin> set (bp_ids L (world s))"
      "hw \<subseteq> insert (bp_id b) (tr_hardware_ids s)"
    from tr_armed_add[OF s this, of name]
    have "tr_armed L bs (names @ [name]) (s\<lparr>world := w, tr_hardware_ids := hw, tr_ids := tr_ids s @ [bp_id b],
        tr_names := od_set (bp_id b) name (tr_names s), tr_regex := r\<rparr>)"
      "tr_armed L bs (names @ [name]) (s\<lparr>world := w, tr_hardware_ids := hw, tr_ids := tr_ids s @ [bp_id b],
        tr_names := od_set (bp_id b) name (tr_names s)\<rparr>)" for r
      by (simp_all add: tr_armed_def)
    then show "wpP (seqP (modP (\<lambda>s. s\<lparr>tr_ids := tr_ids s @ [bp_id b], tr_names := od_set (bp_id b) name (tr_names s)\<rparr>))
        (seqP (case pattern of None \<Rightarrow> retP () | Some sg \<Rightarrow> modP (\<lambda>s. s\<lparr>tr_regex := od_set (bp_id b) sg (tr_regex s)\<rparr>))
          (retP (if bp_locs b \<noteq> [] then Suc n else n))))
      (\<lambda>_. tr_armed L bs (names @ [fst (name, pattern)])) (\<lambda>_ t. tr_idle t \<and> obs_breakpoints L (world t) = bs)
      (s\<lparr>world := w, tr_hardware_ids := hw\<rparr>)"
      by (cases pattern) (simp_all add: wp)
  qed simp
qed

lemma wp_add_hooks:
  fixes s :: "('w, 'z) tracer_dbg_scheme"
  assumes laws: "bp_delete_law L" "bp_command_law L" and target: "\<And>w. obs_target L w"
  shows "tr_armed L bs names s \<Longrightarrow> wpP (foldP (add_hook L) hooks n) (\<lambda>_. tr_armed L bs (names @ map fst hooks))
    (\<lambda>_ t. tr_idle t \<and> obs_breakpoints L (world t) = bs) s"
proof (induction hooks arbitrary: names s n)
  case (Cons hook hooks)
  have "wpP (add_hook L hook n) (\<lambda>m t. wpP (foldP (add_hook L) hooks m) (\<lambda>_. tr_armed L bs (names @ map fst (hook # hooks)))
      (\<lambda>_ t. tr_idle t \<and> obs_breakpoints L (world t) = bs) t) (\<lambda>_ t. tr_idle t \<and> obs_breakpoints L (world t) = bs) s"
  proof (rule wpP_weaken[OF wp_add_hook[OF laws target Cons.prems]])
    fix m and t :: "('w, 'z) tracer_dbg_scheme" assume t: "tr_armed L bs (names @ [fst hook]) t"
    show "wpP (foldP (add_hook L) hooks m) (\<lambda>_. tr_armed L bs (names @ map fst (hook # hooks)))
        (\<lambda>_ t. tr_idle t \<and> obs_breakpoints L (world t) = bs) t"
      using Cons.IH[OF t] by simp
  qed
  then show ?case by (simp add: wp)
qed (simp add: wp)

text \<open>
  C37. Arming the tracer is all or nothing. From an idle tracer it either raises with every breakpoint of the
  target as it was and the tracer idle, or it is enabled with exactly one new breakpoint for each wanted
  call, in their order; disabling it then gives the breakpoints back as they were.
\<close>
theorem tracer_enable_atomic:
  fixes s :: "('w, 'z) tracer_dbg_scheme"
  assumes laws: "bp_delete_law L" "bp_command_law L" and target: "\<And>w. obs_target L w"
    and "tr_idle s" "tr_enable L exec s = (r, u)"
  shows "case r of
      Inl e \<Rightarrow> tr_idle u \<and> obs_breakpoints L (world u) = obs_breakpoints L (world s)
    | Inr (n, resolved) \<Rightarrow> tr_enabled u \<and> n = length (tr_ids u) \<and>
        map snd (tr_names u) = map fst (hooks_wanted (if tr_hardware s \<and> tr_hooks s = None then map_of PRESETS ''file'' else tr_hooks s)) \<and>
        map fst (tr_names u) = tr_ids u \<and>
        bp_ids L (world u) = bp_ids L (world s) @ tr_ids u \<and>
        (\<exists>v. tr_disable L u = (Inr (), v) \<and> tr_idle v \<and> obs_breakpoints L (world v) = obs_breakpoints L (world s))"
proof -
  define wanted where "wanted = hooks_wanted (if tr_hardware s \<and> tr_hooks s = None then map_of PRESETS ''file'' else tr_hooks s)"
  define s1 where "s1 = (let s0 = s\<lparr>tr_exec := exec\<rparr>;
      s1 = (if tr_hardware s0 \<and> tr_hooks s0 = None then s0\<lparr>tr_hooks := map_of PRESETS ''file''\<rparr> else s0) in
    if tr_returns s1 then s1 else s1\<lparr>tr_returns := True, rh_limit := 128, rh_pending := [], rh_sequence := 0, rh_retired := {}\<rparr>)"
  let ?bs = "obs_breakpoints L (world s)"
  have s1: "tr_armed L ?bs [] s1" using assms(4) by (auto simp: s1_def Let_def tr_armed_def tr_idle_def)
  have w1: "hooks_wanted (tr_hooks s1) = wanted" by (simp add: s1_def Let_def wanted_def)
  have eq: "tr_enable L exec s = bindP (foldP (add_hook L) wanted 0) (\<lambda>resolved.
      seqP (modP (\<lambda>s. s\<lparr>tr_enabled := True\<rparr>)) (bindP (getP (\<lambda>s. length (tr_ids s))) (\<lambda>n. retP (n, resolved)))) s1"
    using assms(4) w1[symmetric] by (simp add: tr_enable_def Effects.run target tr_idle_def s1_def Let_def)
  have "wpP (bindP (foldP (add_hook L) wanted 0) (\<lambda>resolved.
      seqP (modP (\<lambda>s. s\<lparr>tr_enabled := True\<rparr>)) (bindP (getP (\<lambda>s. length (tr_ids s))) (\<lambda>n. retP (n, resolved)))))
    (\<lambda>(n, _) t. tr_enabled t \<and> n = length (tr_ids t) \<and> tr_armed L ?bs (map fst wanted) t)
    (\<lambda>_ t. tr_idle t \<and> obs_breakpoints L (world t) = ?bs) s1"
    unfolding wp by (rule wpP_weaken[OF wp_add_hooks[OF laws target s1, of wanted 0]]) (simp_all add: tr_armed_def)
  then have done1: "case r of Inl e \<Rightarrow> tr_idle u \<and> obs_breakpoints L (world u) = ?bs
    | Inr (n, _) \<Rightarrow> tr_enabled u \<and> n = length (tr_ids u) \<and> tr_armed L ?bs (map fst wanted) u"
    using assms(5) unfolding wpP_def eq[symmetric] by (auto split: sum.splits)
  moreover have "\<exists>v. tr_disable L u = (Inr (), v) \<and> tr_idle v \<and> obs_breakpoints L (world v) = ?bs"
    if "tr_armed L ?bs (map fst wanted) u"
    using wp_tr_disable[OF laws(1) target that]
    by (cases "tr_disable L u"; cases "fst (tr_disable L u)") (auto simp: wpP_def)
  ultimately show ?thesis unfolding wanted_def[symmetric]
    by (auto simp: tr_armed_def bp_ids_def split: sum.splits)
qed

lemma tracer_enable_atomic_witness:
  "case tr_enable demo_lldb ''victim'' (demo_tracer\<lparr>tr_enabled := False, rh_pending := []\<rparr>) of
     (Inl e, u) \<Rightarrow> dw_bps (world u) = [demo_bp 1 0x1000] | (Inr n, u) \<Rightarrow> tr_enabled u"
proof -
  let ?s = "demo_tracer\<lparr>tr_enabled := False, rh_pending := []\<rparr>"
  have idle: "tr_idle ?s" by (simp add: tr_idle_def demo_tracer_def tracer_dbg.defs hooks_dbg.defs dbg.defs)
  have t: "\<And>w. obs_target demo_lldb w" by (simp add: demo_lldb_def)
  have bps: "obs_breakpoints demo_lldb = dw_bps" "dw_bps (world ?s) = [demo_bp 1 0x1000]"
    by (simp_all add: demo_lldb_def demo_tracer_def tracer_dbg.defs hooks_dbg.defs dbg.defs demo_dbg_def)
  obtain r u where ru: "tr_enable demo_lldb ''victim'' ?s = (r, u)" by fastforce
  show ?thesis unfolding ru using tracer_enable_atomic[OF demo_laws(1,2) t idle ru] bps by (auto split: sum.splits)
qed

end
