(* ===== verification/SessionTools.thy ===== *)
theory SessionTools
  imports Lldb JsonRead
begin

text \<open>
  \<open>macdbg/core/session_tools.py\<close>: the policy of LLDB for Unix signals, changed together or not at
  all, and the processes descended from the target. The signals of LLDB are calls on the world,
  given by \<open>signal_env\<close>; the output of \<open>ps\<close> is an argument.
\<close>

section \<open>Signal policies\<close>

datatype policy = ShouldStop | ShouldSuppress | ShouldNotify

record 'w signal_env =
  sg_valid :: "'w \<Rightarrow> bool"
  sg_number :: "'w \<Rightarrow> string \<Rightarrow> int"
  sg_name :: "'w \<Rightarrow> int \<Rightarrow> string option"
  sg_all :: "'w \<Rightarrow> int list"
  sg_get :: "'w \<Rightarrow> policy \<Rightarrow> int \<Rightarrow> bool"
  do_sg :: "policy \<Rightarrow> int \<Rightarrow> bool \<Rightarrow> 'w \<Rightarrow> bool \<times> 'w"

definition RESERVED :: "int set" where "RESERVED = {9, 17, 19}"

definition named :: "'w signal_env \<Rightarrow> 'w \<Rightarrow> int \<Rightarrow> bool" where
  "named G w n = (case sg_name G w n of None \<Rightarrow> False | Some t \<Rightarrow> t \<noteq> [])"

definition signal_number :: "'w signal_env \<Rightarrow> 'w \<Rightarrow> json \<Rightarrow> int res" where
  "signal_number G w v = (case v of
       JStr t \<Rightarrow> if starts_with t ''SIG'' then Inr (sg_number G w t) else json_int v
     | _ \<Rightarrow> json_int v)"

definition is_flag :: "json \<Rightarrow> bool" where
  "is_flag v = (case v of JNull \<Rightarrow> True | JBool b \<Rightarrow> True | _ \<Rightarrow> False)"

text \<open>The changes asked for, in the order they are made; an absent choice changes nothing.\<close>

definition wanted_policy :: "json \<Rightarrow> json \<Rightarrow> json \<Rightarrow> (policy \<times> bool option) list" where
  "wanted_policy stop deliver notify =
     [(ShouldStop, if stop = JNull then None else Some (truthy stop)),
      (ShouldSuppress, if deliver = JNull then None else Some (\<not> truthy deliver)),
      (ShouldNotify, if notify = JNull then None else Some (truthy notify))]"

definition set_policy :: "'w signal_env \<Rightarrow> int \<Rightarrow> policy \<times> bool option \<Rightarrow> (('w, 'z) dbg_scheme, unit) py" where
  "set_policy G n change = (case change of (p, v) \<Rightarrow> (case v of None \<Rightarrow> retP ()
     | Some b \<Rightarrow> bindP (onW (do_sg G p n b)) (\<lambda>ok.
         bindP (getP (\<lambda>s. sg_get G (world s) p n)) (\<lambda>now.
         checkP (ok \<and> now = b) (RuntimeError ''LLDB refused the signal policy'')))))"

definition restore_policy :: "'w signal_env \<Rightarrow> int \<Rightarrow> policy \<times> bool \<Rightarrow> (('w, 'z) dbg_scheme, unit) py" where
  "restore_policy G n old = (case old of (p, b) \<Rightarrow> seqP (onW (do_sg G p n b)) (retP ()))"

definition flag_text :: "bool \<Rightarrow> string" where "flag_text b = (if b then ''True'' else ''False'')"

definition change_policy :: "'w lldb \<Rightarrow> 'w signal_env \<Rightarrow> json \<Rightarrow> json \<Rightarrow> json \<Rightarrow> json \<Rightarrow> (('w, 'z) dbg_scheme, unit) py" where
  "change_policy L G signal stop deliver notify =
     bindP (getP (\<lambda>s. signal_number G (world s) signal)) (\<lambda>number. bindP (liftP number) (\<lambda>n.
     bindP (getP (\<lambda>s. named G (world s) n)) (\<lambda>known.
     seqP (checkP (n \<notin> RESERVED \<and> known) (ValueError ''This signal is unavailable or reserved for process control''))
     (seqP (checkP (is_flag stop \<and> is_flag deliver \<and> is_flag notify) (ValueError ''Signal policies must be booleans''))
     (bindP (getP (\<lambda>s. map (\<lambda>p. (p, sg_get G (world s) p n)) [ShouldStop, ShouldSuppress, ShouldNotify])) (\<lambda>before.
      seqP (cleanupP (forP (set_policy G n) (wanted_policy stop deliver notify)) (forP (restore_policy G n) before))
      (bindP (getP (\<lambda>s. (sg_name G (world s) n, sg_get G (world s)))) (\<lambda>(name, get).
       record_event L ''POLICY'' ''Native signal policy changed''
         [(''signal'', case name of None \<Rightarrow> ''None'' | Some t \<Rightarrow> t), (''stop'', flag_text (get ShouldStop n)),
          (''deliver'', flag_text (\<not> get ShouldSuppress n)), (''notify'', flag_text (get ShouldNotify n))]))))))))"

record signal_row =
  sr_number :: int
  sr_name :: "string option"
  sr_stop :: bool
  sr_deliver :: bool
  sr_notify :: bool
  sr_editable :: bool

definition signal_row_of :: "'w signal_env \<Rightarrow> 'w \<Rightarrow> int \<Rightarrow> signal_row" where
  "signal_row_of G w n = \<lparr>sr_number = n, sr_name = sg_name G w n, sr_stop = sg_get G w ShouldStop n,
     sr_deliver = (\<not> sg_get G w ShouldSuppress n), sr_notify = sg_get G w ShouldNotify n, sr_editable = (n \<notin> RESERVED)\<rparr>"

definition stopped_process :: "'w lldb \<Rightarrow> 'w \<Rightarrow> bool" where
  "stopped_process L w = (case obs_process L w of None \<Rightarrow> False | Some p \<Rightarrow> pr_stopped p)"

definition signal_policy ::
    "'w lldb \<Rightarrow> 'w signal_env \<Rightarrow> json \<Rightarrow> json \<Rightarrow> json \<Rightarrow> json \<Rightarrow> (('w, 'z) dbg_scheme, signal_row list) py" where
  "signal_policy L G signal stop deliver notify =
     bindP (getP (\<lambda>s. stopped_process L (world s))) (\<lambda>stopped.
     seqP (checkP stopped (ValueError ''Pause the target before editing signal policies''))
     (bindP (getP (\<lambda>s. sg_valid G (world s))) (\<lambda>valid.
      seqP (checkP valid (RuntimeError ''Signal policies are unavailable for this process''))
      (seqP (whenP (signal \<noteq> JNull) (change_policy L G signal stop deliver notify))
      (getP (\<lambda>s. map (signal_row_of G (world s)) (sg_all G (world s))))))))"

section \<open>Related processes\<close>

record proc_row =
  pw_pid :: int
  pw_parent :: int
  pw_state :: string
  pw_path :: string

text \<open>\<open>line.split(None, n)\<close> of a stripped line.\<close>

primrec split_space :: "nat \<Rightarrow> string \<Rightarrow> string list" where
  "split_space 0 s = (let t = lstrip_by is_space s in if t = [] then [] else [t])"
| "split_space (Suc n) s = (let t = lstrip_by is_space s in if t = [] then []
     else takeWhile (\<lambda>c. \<not> is_space c) t # split_space n (dropWhile (\<lambda>c. \<not> is_space c) t))"

definition decimal_int :: "string \<Rightarrow> int res" where
  "decimal_int t = (case py_int 10 t of Some v \<Rightarrow> Inr v | None \<Rightarrow> Inl (ValueError ''invalid literal for int()''))"

definition proc_line :: "string \<Rightarrow> proc_row list res" where
  "proc_line line = (case split_space 3 (py_strip line) of
       [a, b, c, d] \<Rightarrow> bindR (decimal_int a) (\<lambda>pid. bindR (decimal_int b) (\<lambda>parent.
         Inr [\<lparr>pw_pid = pid, pw_parent = parent, pw_state = c, pw_path = d\<rparr>]))
     | _ \<Rightarrow> Inr [])"

definition proc_rows :: "string \<Rightarrow> proc_row list res" where
  "proc_rows output = bindR (mapR proc_line (py_splitlines output)) (\<lambda>rs. Inr (concat rs))"

definition children :: "proc_row list \<Rightarrow> int set \<Rightarrow> int set" where
  "children rows S = pw_pid ` {r \<in> set rows. pw_parent r \<in> S}"

text \<open>\<open>for _ in range(64)\<close>, ending when nothing is new.\<close>

primrec select_rounds :: "nat \<Rightarrow> proc_row list \<Rightarrow> int set \<Rightarrow> int set" where
  "select_rounds 0 rows S = S"
| "select_rounds (Suc n) rows S = (let more' = children rows S in
     if more' \<subseteq> S then S else select_rounds n rows (S \<union> more'))"

definition related_processes :: "int option \<Rightarrow> int \<Rightarrow> string \<Rightarrow> (proc_row list \<times> int) res" where
  "related_processes target status output = (let root = (case target of None \<Rightarrow> 0 | Some pid \<Rightarrow> pid) in
     if status \<noteq> 0 then Inl (RuntimeError ''Cannot read process relationships'')
     else bindR (proc_rows output) (\<lambda>rows.
       Inr (filter (\<lambda>r. pw_pid r \<in> select_rounds 64 rows {root}) rows, root)))"

section \<open>A policy changes as a whole\<close>

text \<open>
  LLDB accepts or refuses a signal for a policy whatever the value; a refused change leaves the policies
  as they are, an accepted one sets the one asked for and no other.
\<close>

definition sg_law :: "'w signal_env \<Rightarrow> (policy \<Rightarrow> int \<Rightarrow> bool) \<Rightarrow> bool" where
  "sg_law G accepts = (\<forall>p n b w. fst (do_sg G p n b w) = accepts p n \<and>
     (\<forall>q m. sg_get G (snd (do_sg G p n b w)) q m = (if accepts p n \<and> q = p \<and> m = n then b else sg_get G w q m)))"

lemma sg_lawD:
  "sg_law G accepts \<Longrightarrow> fst (do_sg G p n b w) = accepts p n"
  "sg_law G accepts \<Longrightarrow> sg_get G (snd (do_sg G p n b w)) q m = (if accepts p n \<and> q = p \<and> m = n then b else sg_get G w q m)"
  by (simp_all add: sg_law_def)

text \<open>Whatever was tried for signal \<open>n\<close>, putting the old values back restores every policy.\<close>

lemma restore_all:
  assumes law: "sg_law G accepts"
    and tried: "\<And>q m. m \<noteq> n \<or> \<not> accepts q m \<Longrightarrow> sg_get G (world t) q m = old q m"
  shows "wpP (forP (restore_policy G n) (map (\<lambda>p. (p, old p n)) [ShouldStop, ShouldSuppress, ShouldNotify]))
    (\<lambda>_ u. (\<forall>q m. sg_get G (world u) q m = old q m) \<and> events u = events t) (\<lambda>_ _. False) t"
  apply (simp add: restore_policy_def wp sg_lawD(2)[OF law])
  subgoal
    apply (intro allI)
    subgoal for q m by (cases q; cases "m = n") (auto simp: tried)
    done
  done

lemma wp_set_policy:
  assumes "sg_law G accepts"
  shows "wpP (set_policy G n (p, None)) Q E s = Q () s"
    "accepts p n \<Longrightarrow> wpP (set_policy G n (p, Some b)) Q E s = Q () (s\<lparr>world := snd (do_sg G p n b (world s))\<rparr>)"
    "\<not> accepts p n \<Longrightarrow> wpP (set_policy G n (p, Some b)) Q E s =
       E (RuntimeError ''LLDB refused the signal policy'') (s\<lparr>world := snd (do_sg G p n b (world s))\<rparr>)"
  using assms by (simp_all add: set_policy_def wp sg_lawD)

definition after_changes :: "'w signal_env \<Rightarrow> 'w \<Rightarrow> int \<Rightarrow> (policy \<times> bool option) list \<Rightarrow> policy \<Rightarrow> int \<Rightarrow> bool" where
  "after_changes G w n changes q m = (case map_of changes q of Some (Some b) \<Rightarrow> if m = n then b else sg_get G w q m
     | _ \<Rightarrow> sg_get G w q m)"

lemma change_all:
  assumes law: "sg_law G accepts"
  shows "distinct (map fst changes) \<Longrightarrow> wpP (forP (set_policy G n) changes)
    (\<lambda>_ t. (\<forall>q m. sg_get G (world t) q m = after_changes G (world s) n changes q m) \<and> events t = events s)
    (\<lambda>_ t. (\<forall>q m. m \<noteq> n \<or> \<not> accepts q m \<longrightarrow> sg_get G (world t) q m = sg_get G (world s) q m) \<and> events t = events s) s"
proof (induction changes arbitrary: s)
  case Nil
  show ?case by (simp add: wp after_changes_def)
next
  case (Cons c cs)
  obtain p v where c: "c = (p, v)" by fastforce
  have p: "map_of cs p = None" using Cons.prems c by (simp add: map_of_eq_None_iff)
  show ?case
  proof (cases v)
    case None
    have "after_changes G (world s) n (c # cs) = after_changes G (world s) n cs"
      using p by (auto simp: after_changes_def c None fun_eq_iff)
    then show ?thesis using Cons.IH[of s] Cons.prems unfolding forP.simps wpP_bind(2) c None wp_set_policy(1)[OF law] by simp
  next
    case (Some b)
    show ?thesis
    proof (cases "accepts p n")
      case True
      define w where "w = snd (do_sg G p n b (world s))"
      have w: "sg_get G w q m = (if q = p \<and> m = n then b else sg_get G (world s) q m)" for q m
        unfolding w_def sg_lawD(2)[OF law] using True by simp
      have step: "after_changes G w n cs q m = after_changes G (world s) n (c # cs) q m" for q m
        using p by (auto simp: after_changes_def c Some w split: option.splits)
      have "wpP (forP (set_policy G n) cs)
        (\<lambda>_ t. (\<forall>q m. sg_get G (world t) q m = after_changes G (world s) n (c # cs) q m) \<and> events t = events s)
        (\<lambda>_ t. (\<forall>q m. m \<noteq> n \<or> \<not> accepts q m \<longrightarrow> sg_get G (world t) q m = sg_get G (world s) q m) \<and> events t = events s) (s\<lparr>world := w\<rparr>)"
        by (rule wpP_weaken[OF Cons.IH]) (use Cons.prems w True in \<open>auto simp: step[symmetric]\<close>)
      then show ?thesis unfolding forP.simps wpP_bind(2) c Some wp_set_policy(2)[OF law True] w_def by simp
    next
      case False
      then show ?thesis unfolding forP.simps wpP_bind(2) c Some wp_set_policy(3)[OF law False]
        by (simp add: sg_lawD(2)[OF law])
    qed
  qed
qed

text \<open>
  C39. A signal policy changes as a whole. If the command raises, the policies of every signal and the
  event history are as before; if it returns, the signal has exactly the policies asked for, all
  other signals and choices are untouched, and the reserved signals are never the ones changed.
\<close>
theorem signal_policy_atomic:
  assumes "sg_law G accepts" "signal_policy L G signal stop deliver notify s = (r, u)"
  shows "case r of
      Inl e \<Rightarrow> (\<forall>p m. sg_get G (world u) p m = sg_get G (world s) p m) \<and> events u = events s
    | Inr rows \<Rightarrow> if signal = JNull then u = s else
        (\<exists>n. signal_number G (world s) signal = Inr n \<and> n \<notin> {9, 17, 19} \<and>
          (\<forall>p m. sg_get G (world u) p m = (case map_of (wanted_policy stop deliver notify) p of
               Some (Some b) \<Rightarrow> if m = n then b else sg_get G (world s) p m | _ \<Rightarrow> sg_get G (world s) p m)))"
proof -
  let ?Q = "\<lambda>n t. \<forall>p m. sg_get G (world t) p m = after_changes G (world s) n (wanted_policy stop deliver notify) p m"
  let ?E = "\<lambda>(_ :: exn) t. (\<forall>p m. sg_get G (world t) p m = sg_get G (world s) p m) \<and> events t = events s"
  have change: "wpP (cleanupP (forP (set_policy G n) (wanted_policy stop deliver notify))
      (forP (restore_policy G n) (map (\<lambda>p. (p, sg_get G (world s) p n)) [ShouldStop, ShouldSuppress, ShouldNotify])))
      (\<lambda>_. ?Q n) ?E s" for n
    unfolding wpP_bind(4)
  proof (rule wpP_weaken[OF change_all[OF assms(1)]])
    fix e t
    assume t: "(\<forall>q m. m \<noteq> n \<or> \<not> accepts q m \<longrightarrow> sg_get G (world t) q m = sg_get G (world s) q m) \<and> events t = events s"
    show "wpP (forP (restore_policy G n) (map (\<lambda>p. (p, sg_get G (world s) p n)) [ShouldStop, ShouldSuppress, ShouldNotify]))
        (\<lambda>_. ?E e) ?E t"
      by (rule wpP_weaken[OF restore_all[OF assms(1), where old = "sg_get G (world s)"]]) (use t in auto)
  qed (auto simp: wanted_policy_def)
  have recorded: "wpP (bindP (getP (\<lambda>s. (sg_name G (world s) n, sg_get G (world s)))) (\<lambda>(name, get).
       record_event L c d (f name get))) (\<lambda>_. ?Q n) ?E t" if "?Q n t" for n t c d f
    using that by (simp add: wp)
  have "wpP (change_policy L G signal stop deliver notify)
      (\<lambda>_ t. \<exists>n. signal_number G (world s) signal = Inr n \<and> n \<notin> RESERVED \<and> ?Q n t) ?E s"
  proof (cases "signal_number G (world s) signal")
    case (Inr n)
    have "wpP (change_policy L G signal stop deliver notify) (\<lambda>_ t. n \<notin> RESERVED \<and> ?Q n t) ?E s"
    proof (cases "(n \<notin> RESERVED \<and> named G (world s) n) \<and> is_flag stop \<and> is_flag deliver \<and> is_flag notify")
      case True
      have "wpP (seqP (cleanupP (forP (set_policy G n) (wanted_policy stop deliver notify))
          (forP (restore_policy G n) (map (\<lambda>p. (p, sg_get G (world s) p n)) [ShouldStop, ShouldSuppress, ShouldNotify])))
        (bindP (getP (\<lambda>s. (sg_name G (world s) n, sg_get G (world s)))) (\<lambda>(name, get).
          record_event L c d (f name get)))) (\<lambda>_. ?Q n) ?E s" for c d f
        unfolding wpP_bind(2) by (rule wpP_weaken[OF change]) (rule recorded, simp_all)
      then show ?thesis using True Inr
        unfolding change_policy_def wpP_bind(1) wpP_bind(2)[of "checkP _ _"] wpP_simps
        by (simp only: sum.case if_True simp_thms)
    next
      case False
      then show ?thesis using Inr by (auto simp: change_policy_def wp)
    qed
    then show ?thesis by (rule wpP_weaken) (use Inr in auto)
  qed (simp add: change_policy_def wp)
  then have "wpP (signal_policy L G signal stop deliver notify)
      (\<lambda>_ t. if signal = JNull then t = s else (\<exists>n. signal_number G (world s) signal = Inr n \<and> n \<notin> RESERVED \<and> ?Q n t)) ?E s"
    by (simp add: signal_policy_def wp)
  with assms(2) show ?thesis unfolding wpP_def RESERVED_def after_changes_def by (cases r) simp_all
qed

fun policy_index :: "policy \<Rightarrow> int" where
  "policy_index ShouldStop = 0" | "policy_index ShouldSuppress = 1" | "policy_index ShouldNotify = 2"

definition demo_signals :: "demo_world signal_env" where
  "demo_signals = \<lparr>sg_valid = (\<lambda>_. True), sg_number = (\<lambda>_ _. 2), sg_name = (\<lambda>_ n. if n = 2 then Some ''SIGINT'' else None),
     sg_all = (\<lambda>_. [2]), sg_get = (\<lambda>w p n. map_of (dw_mem w) (3 * n + policy_index p) = Some CHR ''1''),
     do_sg = (\<lambda>p n b w. (True, w\<lparr>dw_mem := (3 * n + policy_index p, if b then CHR ''1'' else CHR ''0'') # dw_mem w\<rparr>))\<rparr>"

lemma demo_sg_law: "sg_law demo_signals (\<lambda>_ _. True)"
proof -
  have "3 * m + policy_index q = 3 * n + policy_index p \<longleftrightarrow> q = p \<and> m = n" for p q and m n :: int
    by (cases p; cases q; simp; presburger)
  then show ?thesis by (simp add: sg_law_def demo_signals_def)
qed

lemma signal_policy_atomic_witness:
  "\<not> sg_get demo_signals (world (snd (signal_policy demo_lldb demo_signals (JStr ''SIGINT'') (JBool False) JNull JNull
     (demo_dbg (demo_world\<lparr>dw_process := Some \<lparr>pr_pid = 7, pr_uid = 1, pr_stop = 1, pr_stopped = True, pr_threads = [],
        pr_selected = 0\<rparr>, dw_mem := [(6, CHR ''1'')]\<rparr>))))) ShouldStop 2"
proof -
  let ?s = "demo_dbg (demo_world\<lparr>dw_process := Some \<lparr>pr_pid = 7, pr_uid = 1, pr_stop = 1, pr_stopped = True, pr_threads = [],
        pr_selected = 0\<rparr>, dw_mem := [(6, CHR ''1'')]\<rparr>)"
  obtain r u where ru: "signal_policy demo_lldb demo_signals (JStr ''SIGINT'') (JBool False) JNull JNull ?s = (r, u)" by fastforce
  have "\<exists>rows. r = Inr rows"
    using ru by (auto simp: signal_policy_def change_policy_def set_policy_def wanted_policy_def signal_number_def named_def
        stopped_process_def is_flag_def RESERVED_def demo_signals_def demo_lldb_def demo_dbg_def starts_with_def run cleanupP_def onW_def
        record_event_def split: prod.splits)
  then obtain rows where r: "r = Inr rows" ..
  have "signal_number demo_signals (world ?s) (JStr ''SIGINT'') = Inr 2"
    by (simp add: signal_number_def starts_with_def demo_signals_def)
  then show ?thesis using signal_policy_atomic[OF demo_sg_law ru] unfolding r ru by (auto simp: wanted_policy_def)
qed

section \<open>The processes shown are the descendants\<close>

definition parent_links :: "proc_row list \<Rightarrow> (int \<times> int) set" where
  "parent_links rows = {(pw_parent r, pw_pid r) | r. r \<in> set rows}"

lemma children_links: "children rows S = parent_links rows `` S"
  by (auto simp: children_def parent_links_def)

lemma relpow_Suc_Image: "(R ^^ Suc k) `` S = (R ^^ k) `` (R `` S)"
  by (simp only: relpow.simps(2) relpow_commute[symmetric] relcomp_Image)

lemma select_rounds_links: "select_rounds n rows S = (\<Union>k\<in>{..n}. (parent_links rows ^^ k) `` S)"
proof (induction n arbitrary: S)
  case (Suc n)
  let ?R = "parent_links rows"
  have split: "(\<Union>k\<in>{..Suc n}. (?R ^^ k) `` S) = S \<union> (\<Union>k\<in>{..n}. (?R ^^ k) `` (?R `` S))"
    unfolding atMost_Suc_eq_insert_0 by (simp add: relpow_Suc_Image del: relpow.simps(2))
  have mono: "(\<Union>k\<in>{..n}. (?R ^^ k) `` (S \<union> ?R `` S)) = S \<union> (\<Union>k\<in>{..n}. (?R ^^ k) `` (?R `` S))"
  proof -
    have "(?R ^^ k) `` S \<subseteq> S \<union> (\<Union>k\<in>{..n}. (?R ^^ k) `` (?R `` S))" if "k \<le> n" for k
    proof (cases k)
      case (Suc j)
      then have "(?R ^^ k) `` S = (?R ^^ j) `` (?R `` S)" by (simp only: relpow_Suc_Image)
      moreover have "j \<in> {..n}" using that Suc by simp
      ultimately show ?thesis by blast
    qed simp
    moreover have "S \<subseteq> (\<Union>k\<in>{..n}. (?R ^^ k) `` S)" by (rule subsetI, rule UN_I[of 0]) auto
    ultimately have "(\<Union>k\<in>{..n}. (?R ^^ k) `` S) \<union> (\<Union>k\<in>{..n}. (?R ^^ k) `` (?R `` S)) = S \<union> (\<Union>k\<in>{..n}. (?R ^^ k) `` (?R `` S))"
      by (meson UN_least Un_least Un_upper2 atMost_iff subset_antisym subset_trans sup.mono sup_ge1 sup_ge2)
    then show ?thesis by (simp only: Image_Un UN_Un_distrib)
  qed
  show ?case
  proof (cases "?R `` S \<subseteq> S")
    case True
    have "(?R ^^ k) `` S \<subseteq> S" for k
    proof (induction k)
      case (Suc k)
      then show ?case using True by (auto simp: relcomp_Image)
    qed simp
    moreover have "S \<subseteq> (\<Union>k\<in>{..Suc n}. (?R ^^ k) `` S)" by (rule subsetI, rule UN_I[of 0]) auto
    ultimately have "(\<Union>k\<in>{..Suc n}. (?R ^^ k) `` S) = S" by blast
    then show ?thesis using True by (simp add: children_links Let_def)
  next
    case False
    then show ?thesis using Suc.IH[of "S \<union> ?R `` S"] mono split by (simp add: children_links Let_def)
  qed
qed simp

text \<open>
  C40. The processes shown as related are those within 64 parent links of the target; when \<open>ps\<close> lists at
  most 64 processes, they are exactly the target and its descendants.
\<close>
theorem related_are_descendants:
  assumes "related_processes target status output = Inr (shown_rows, root)"
  shows "\<exists>rows. proc_rows output = Inr rows \<and>
    shown_rows = filter (\<lambda>r. \<exists>k \<le> 64. (root, pw_pid r) \<in> parent_links rows ^^ k) rows \<and>
    (length rows \<le> 64 \<longrightarrow> shown_rows = filter (\<lambda>r. (root, pw_pid r) \<in> (parent_links rows)\<^sup>*) rows)"
proof -
  obtain rows where rows: "proc_rows output = Inr rows"
    and out: "shown_rows = filter (\<lambda>r. pw_pid r \<in> select_rounds 64 rows {root}) rows"
    using assms by (auto simp: related_processes_def Let_def res_simps split: if_splits)
  have sel: "p \<in> select_rounds 64 rows {root} \<longleftrightarrow> (\<exists>k \<le> 64. (root, p) \<in> parent_links rows ^^ k)" for p
    by (auto simp: select_rounds_links)
  have "(\<exists>k \<le> 64. (root, p) \<in> parent_links rows ^^ k) \<longleftrightarrow> (root, p) \<in> (parent_links rows)\<^sup>*" if "length rows \<le> 64" for p
  proof -
    have eq: "parent_links rows = (\<lambda>r. (pw_parent r, pw_pid r)) ` set rows" by (auto simp: parent_links_def)
    have "card (parent_links rows) \<le> length rows"
      unfolding eq by (rule le_trans[OF card_image_le card_length]) simp
    moreover have "finite (parent_links rows)" by (simp add: eq)
    ultimately show ?thesis using rtrancl_finite_eq_relpow[of "parent_links rows"] that
      by (auto simp: rtrancl_is_UN_relpow dest: order_trans)
  qed
  with rows out show ?thesis by (simp add: sel)
qed

lemma related_are_descendants_witness:
  "\<exists>rows shown_rows. related_processes (Some 7) 0 (''7 1 S /bin/a'' @ [val_byte 10] @ ''8 7 S /bin/b c'') = Inr (shown_rows, 7) \<and>
     proc_rows (''7 1 S /bin/a'' @ [val_byte 10] @ ''8 7 S /bin/b c'') = Inr rows \<and>
     map pw_pid (filter (\<lambda>r. \<exists>k \<le> 64. (7, pw_pid r) \<in> parent_links rows ^^ k) rows) = map pw_pid shown_rows"
proof -
  let ?o = "''7 1 S /bin/a'' @ [val_byte 10] @ ''8 7 S /bin/b c''"
  have "\<exists>shown_rows. related_processes (Some 7) 0 ?o = Inr (shown_rows, 7)" by (rule exI, code_simp)
  then obtain shown_rows where r: "related_processes (Some 7) 0 ?o = Inr (shown_rows, 7)" ..
  from related_are_descendants[OF r] r show ?thesis by blast
qed

end
