(* ===== verification/SyscallMonitor.thy ===== *)
theory SyscallMonitor
  imports Sandbox MemoryAnalysis
begin

text \<open>
  \<open>macdbg/core/syscall_monitor.py\<close>: at every stop, executable memory that changed is scanned again for
  inline system calls. The monitor owns the breakpoints its scans create, among those of the
  direct-syscall defense. The memory map and the digest are given by \<open>monitor_env\<close>; switching the
  memory monitor is an argument.
\<close>

record monitor_row =
  mr_address :: addr
  mr_bytes :: int
  mr_omitted :: int
  mr_error :: "string option"
  mr_new :: "int option"

record 'w monitor_dbg = "'w sandbox_dbg" +
  mo_enabled :: bool
  mo_previous :: "(addr, bytes \<times> int) odict"
  mo_owned :: "int list"
  mo_locations :: "(int, addr) odict"
  mo_rows :: "monitor_row list"
  mo_owns_memory :: bool
  mo_requested :: bool

record 'w monitor_env =
  me_regions :: "'w \<Rightarrow> region list"
  me_digest :: "bytes \<Rightarrow> bytes"

section \<open>One region\<close>

text \<open>The local variables of a scan: the budget left, the rows, whether one failed, the scanned ranges.\<close>

record scan_state =
  sc_left :: int
  sc_rows :: "monitor_row list"
  sc_failed :: bool
  sc_ranges :: "(addr \<times> addr) list"

definition drop_sites :: "'w lldb \<Rightarrow> int list \<Rightarrow> (('w, 'z) monitor_dbg_scheme, unit) py" where
  "drop_sites L stale = seqP (delete_each L stale)
     (modP (\<lambda>s. s\<lparr>mo_owned := filter (\<lambda>i. i \<notin> set stale) (mo_owned s),
        mo_locations := filter (\<lambda>(i, a). i \<notin> set stale) (mo_locations s),
        sx_direct := filter (\<lambda>i. i \<notin> set stale) (sx_direct s)\<rparr>))"

definition location_of :: "('w, 'z) monitor_dbg_scheme \<Rightarrow> int \<Rightarrow> addr" where
  "location_of s i = (case map_of (mo_locations s) i of None \<Rightarrow> -1 | Some a \<Rightarrow> a)"

definition scan_changed ::
    "'w lldb \<Rightarrow> 'w sandbox_env \<Rightarrow> addr \<Rightarrow> int \<Rightarrow> bytes \<Rightarrow> monitor_row \<Rightarrow> (('w, 'z) monitor_dbg_scheme, monitor_row \<times> bool) py" where
  "scan_changed L S base len digest row =
     bindP (getP (\<lambda>s. filter (\<lambda>i. base \<le> location_of s i \<and> location_of s i < base + len) (mo_owned s))) (\<lambda>stale.
     seqP (drop_sites L stale)
     (bindP (getP sx_direct) (\<lambda>before.
      catchP
        (bindP (scan_live_syscalls L S base len) (\<lambda>n.
         seqP (modP (\<lambda>s. let created = filter (\<lambda>i. i \<notin> set before) (sx_direct s) in
            s\<lparr>mo_owned := mo_owned s @ created,
              mo_locations := fold (\<lambda>i. od_set i (first_address L (world s) i)) created (mo_locations s),
              mo_previous := od_set base (digest, len) (mo_previous s)\<rparr>))
         (retP (row\<lparr>mr_new := Some n\<rparr>, False))))
        (\<lambda>e. case e of RuntimeError m \<Rightarrow> retP (row\<lparr>mr_error := Some m\<rparr>, True)
           | ValueError m \<Rightarrow> retP (row\<lparr>mr_error := Some m\<rparr>, True)
           | _ \<Rightarrow> raiseP e))))"

definition scan_region ::
    "'w lldb \<Rightarrow> 'w sandbox_env \<Rightarrow> 'w monitor_env \<Rightarrow> region \<Rightarrow> scan_state \<Rightarrow> (('w, 'z) monitor_dbg_scheme, scan_state) py" where
  "scan_region L S V r c =
     (if rg_prot r AND 4 = 0 \<or> system_region r then retP c
      else let base = rg_base r; room = min (rg_size r) (min (256 * 1024) (sc_left c)); len = room - room mod 4 in
        if room \<le> 0 then retP (c\<lparr>sc_rows := sc_rows c @ [\<lparr>mr_address = base, mr_bytes = 0, mr_omitted = rg_size r,
          mr_error = Some ''8 MiB scan budget exhausted'', mr_new = None\<rparr>]\<rparr>)
        else let d = c\<lparr>sc_left := sc_left c - len, sc_ranges := sc_ranges c @ [(base, base + len)]\<rparr> in
          bindP (getP (\<lambda>s. (read_memory L (world s) base (nat len), map_of (mo_previous s) base))) (\<lambda>(data, old).
          let row = \<lparr>mr_address = base, mr_bytes = int (length data), mr_omitted = rg_size r - len, mr_error = None, mr_new = None\<rparr> in
          if int (length data) \<noteq> len then
            retP (d\<lparr>sc_rows := sc_rows d @ [row\<lparr>mr_error := Some ''Partial executable read''\<rparr>], sc_failed := True\<rparr>)
          else if old = Some (me_digest V data, len) then retP (d\<lparr>sc_rows := sc_rows d @ [row]\<rparr>)
          else bindP (scan_changed L S base len (me_digest V data) row) (\<lambda>(row', failed).
            retP (d\<lparr>sc_rows := sc_rows d @ [row'], sc_failed := sc_failed d \<or> failed\<rparr>))))"

section \<open>A scan and the switch\<close>

definition BUDGET :: int where "BUDGET = 8 * 1024 * 1024"

definition monitor_observe ::
    "'w lldb \<Rightarrow> 'w sandbox_env \<Rightarrow> 'w monitor_env \<Rightarrow> (('w, 'z) monitor_dbg_scheme, bool) py" where
  "monitor_observe L S V =
     bindP (getP (\<lambda>s. (mo_enabled s, me_regions V (world s)))) (\<lambda>(on, regions).
     if \<not> on then retP False
     else bindP (foldP (scan_region L S V) regions \<lparr>sc_left = BUDGET, sc_rows = [], sc_failed = False, sc_ranges = []\<rparr>) (\<lambda>c.
       seqP (modP (\<lambda>s. s\<lparr>mo_previous := filter (\<lambda>(a, x). a \<in> fst ` set (sc_ranges c)) (mo_previous s)\<rparr>))
       (bindP (getP (\<lambda>s. filter (\<lambda>i. \<not> list_ex (\<lambda>(a, b). a \<le> location_of s i \<and> location_of s i < b) (sc_ranges c)) (mo_owned s))) (\<lambda>stale.
        seqP (drop_sites L stale)
        (seqP (modP (\<lambda>s. s\<lparr>mo_rows := sc_rows c\<rparr>)) (retP (sc_failed c)))))))"

text \<open>The memory monitor: whether it is on, and switching it.\<close>

record 's memory_switch =
  ms_on :: "'s \<Rightarrow> bool"
  ms_enable :: "('s, unit) py"
  ms_disable :: "('s, unit) py"

definition monitor_configure ::
    "'w lldb \<Rightarrow> 'w sandbox_env \<Rightarrow> 'w monitor_env \<Rightarrow> ('w, 'z) monitor_dbg_scheme memory_switch \<Rightarrow> bool \<Rightarrow>
     (('w, 'z) monitor_dbg_scheme, unit) py" where
  "monitor_configure L S V M enabled =
     (if enabled then
        bindP (getP mo_enabled) (\<lambda>on.
        whenP (\<not> on)
          (seqP (modP (\<lambda>s. s\<lparr>mo_requested := sx_requested s, mo_owns_memory := \<not> ms_on M s\<rparr>))
          (seqP (ms_enable M)
          (seqP (modP (\<lambda>s. s\<lparr>mo_enabled := True\<rparr>))
          (seqP (monitor_observe L S V) (retP ()))))))
      else
        bindP (getP mo_owned) (\<lambda>owned.
        seqP (delete_each L owned)
        (seqP (modP (\<lambda>s. s\<lparr>sx_direct := filter (\<lambda>i. i \<notin> set owned) (sx_direct s)\<rparr>))
        (seqP (modP (\<lambda>s. if mo_enabled s \<and> sx_direct s = [] then s\<lparr>sx_requested := mo_requested s\<rparr> else s))
        (seqP (modP (\<lambda>s. s\<lparr>mo_owned := [], mo_locations := [], mo_previous := [], mo_rows := [], mo_enabled := False\<rparr>))
        (bindP (getP mo_owns_memory) (\<lambda>owns.
         seqP (whenP owns (ms_disable M))
         (modP (\<lambda>s. s\<lparr>mo_owns_memory := False\<rparr>)))))))))"
section \<open>What belongs to the monitor\<close>

lemma wp_delete_ids:
  fixes s :: "('w, 'z) dbg_scheme"
  assumes law: "bp_delete_law L"
  shows "wpP (delete_each L ids) (\<lambda>_ t. \<exists>w h. t = s\<lparr>world := w, hardware_ids := h\<rparr> \<and>
    bp_ids L w = filter (\<lambda>i. i \<notin> set ids) (bp_ids L (world s))) (\<lambda>_ _. False) s"
proof (induction ids arbitrary: s)
  case Nil
  show ?case unfolding delete_each_Nil wp by (rule exI[of _ "world s"], rule exI[of _ "hardware_ids s"]) simp
next
  case (Cons i ids)
  define w where "w = snd (do_bp_delete L i (world s))"
  have w: "bp_ids L w = filter (\<lambda>j. j \<noteq> i) (bp_ids L (world s))"
    unfolding w_def bp_ids_def using bp_delete_lawD[OF law] by (simp add: filter_map comp_def)
  have "wpP (delete_each L ids) (\<lambda>_ t. \<exists>w h. t = s\<lparr>world := w, hardware_ids := h\<rparr> \<and>
      bp_ids L w = filter (\<lambda>j. j \<notin> set (i # ids)) (bp_ids L (world s))) (\<lambda>_ _. False) (s\<lparr>world := w, hardware_ids := h\<rparr>)" for h
    by (rule wpP_weaken[OF Cons.IH]) (auto simp: w conj_commute)
  from this[of "hardware_ids s - {i}"] this[of "hardware_ids s"]
  show ?case unfolding delete_each_Cons wp by (simp add: split_beta Let_def w_def[symmetric])
qed

text \<open>The sites armed so far are new breakpoints.\<close>

definition armed_new :: "'w lldb \<Rightarrow> ('w, 'z) sandbox_dbg_scheme \<Rightarrow> int list \<Rightarrow> ('w, 'z) sandbox_dbg_scheme \<Rightarrow> bool" where
  "armed_new L s ids t = (\<exists>w h. t = s\<lparr>world := w, hardware_ids := h\<rparr> \<and> bp_ids L w = bp_ids L (world s) @ ids \<and>
     distinct ids \<and> set ids \<inter> set (bp_ids L (world s)) = {})"

lemma wp_arm_sites:
  fixes s :: "('w, 'z) sandbox_dbg_scheme"
  assumes laws: "bp_delete_law L" "bp_command_law L"
  shows "wpP (arm_sites L sites []) (\<lambda>(ids, e). armed_new L s ids) (\<lambda>_ _. False) s"
  unfolding arm_sites_def
proof (rule wpP_fold)
  show "(case ([], None) of (ids, e) \<Rightarrow> armed_new L s ids) s"
    unfolding armed_new_def prod.case by (rule exI[of _ "world s"], rule exI[of _ "hardware_ids s"], simp)
next
  fix a and c :: "int list \<times> exn option" and t
  assume c: "(case c of (ids, e) \<Rightarrow> armed_new L s ids) t"
  obtain ids e where ce: "c = (ids, e)" by fastforce
  from c obtain w h where t: "t = s\<lparr>world := w, hardware_ids := h\<rparr>" "bp_ids L w = bp_ids L (world s) @ ids"
    "distinct ids" "set ids \<inter> set (bp_ids L (world s)) = {}" by (auto simp: ce armed_new_def)
  have "wpP (create_hardware_at L a) (\<lambda>b. armed_new L s (ids @ [bp_id b])) (\<lambda>e. armed_new L s ids) t"
  proof (rule wp_create_at[OF laws])
    fix b w' assume "bp_id b \<notin> set (bp_ids L (world t))" "bp_ids L w' = bp_ids L (world t) @ [bp_id b]"
    then show "armed_new L s (ids @ [bp_id b]) (t\<lparr>world := w', hardware_ids := insert (bp_id b) (hardware_ids t)\<rparr>)"
      using t by (auto simp: armed_new_def)
  next
    fix w' assume "bp_ids L w' = bp_ids L (world t)"
    then show "armed_new L s ids (t\<lparr>world := w'\<rparr>)"
      unfolding armed_new_def by (intro exI[of _ w'] exI[of _ h]) (use t in simp)
  qed
  then show "wpP (case c of (ids, e) \<Rightarrow> case e of Some x \<Rightarrow> retP (ids, e)
     | None \<Rightarrow> catchP (bindP (create_hardware_at L a) (\<lambda>b. retP (ids @ [bp_id b], None))) (\<lambda>x. retP (ids, Some x)))
     (\<lambda>(ids, e). armed_new L s ids) (\<lambda>_ _. False) t"
    using c by (cases e) (simp_all add: ce wp)
qed

text \<open>What a scan leaves: new breakpoints, recorded among those of the defense, and nothing if it raises.\<close>

definition scan_left :: "'w lldb \<Rightarrow> ('w, 'z) monitor_dbg_scheme \<Rightarrow> int list \<Rightarrow> ('w, 'z) monitor_dbg_scheme \<Rightarrow> bool" where
  "scan_left L s ids t = (bp_ids L (world t) = bp_ids L (world s) @ ids \<and> distinct ids \<and>
     set ids \<inter> set (bp_ids L (world s)) = {} \<and> sx_direct t = sx_direct s @ ids \<and> mo_owned t = mo_owned s \<and>
     mo_enabled t = mo_enabled s \<and> mo_rows t = mo_rows s)"

lemma wp_scan_live:
  fixes s :: "('w, 'z) monitor_dbg_scheme"
  assumes laws: "bp_delete_law L" "bp_command_law L"
  shows "wpP (scan_live_syscalls L S a n) (\<lambda>_ t. \<exists>ids. scan_left L s ids t) (\<lambda>_. scan_left L s []) s"
proof -
  have undo: "wpP (delete_each L ids) (\<lambda>_. scan_left L s []) (\<lambda>_. scan_left L s []) t" if t: "armed_new L s ids t" for ids t
  proof (rule wpP_weaken[OF wp_delete_ids[OF laws(1)]])
    fix u assume "\<exists>w h. u = t\<lparr>world := w, hardware_ids := h\<rparr> \<and> bp_ids L w = filter (\<lambda>i. i \<notin> set ids) (bp_ids L (world t))"
    then obtain w h where u: "u = t\<lparr>world := w, hardware_ids := h\<rparr>" "bp_ids L w = filter (\<lambda>i. i \<notin> set ids) (bp_ids L (world t))" by blast
    from t obtain v k where t': "t = s\<lparr>world := v, hardware_ids := k\<rparr>" "bp_ids L v = bp_ids L (world s) @ ids"
      "set ids \<inter> set (bp_ids L (world s)) = {}" by (auto simp: armed_new_def)
    have "filter (\<lambda>i. i \<notin> set ids) (bp_ids L (world s)) = bp_ids L (world s)" using t'(3) by (auto intro: filter_True)
    then show "scan_left L s [] u" using u t' by (simp add: scan_left_def)
  qed simp
  have same: "scan_left L s [] s" by (simp add: scan_left_def)
  have armed: "wpP (arm_sites L sites []) (\<lambda>x. wpP (case x of (ids, e) \<Rightarrow> case e of Some x \<Rightarrow> seqP (delete_each L ids) (raiseP x)
     | None \<Rightarrow> seqP (modP (\<lambda>s. s\<lparr>sx_direct := sx_direct s @ ids, sx_requested := True\<rparr>))
        (seqP (record_event L c m (d ids)) (retP (int (length ids))))) (\<lambda>_ t. \<exists>ids. scan_left L s ids t) (\<lambda>_. scan_left L s []))
     (\<lambda>_. scan_left L s []) s" for sites c m d
  proof (rule wpP_weaken[OF wp_arm_sites[OF laws]])
    fix x :: "int list \<times> exn option" and t :: "('w, 'z) monitor_dbg_scheme" assume x: "(case x of (ids, e) \<Rightarrow> armed_new L s ids) t"
    obtain ids e where xe: "x = (ids, e)" by fastforce
    with x have t: "armed_new L s ids t" by simp
    show "wpP (case x of (ids, e) \<Rightarrow> case e of Some x \<Rightarrow> seqP (delete_each L ids) (raiseP x)
     | None \<Rightarrow> seqP (modP (\<lambda>s. s\<lparr>sx_direct := sx_direct s @ ids, sx_requested := True\<rparr>))
        (seqP (record_event L c m (d ids)) (retP (int (length ids))))) (\<lambda>_ t. \<exists>ids. scan_left L s ids t) (\<lambda>_. scan_left L s []) t"
    proof (cases e)
      case None
      then show ?thesis using t by (auto simp: xe wp armed_new_def scan_left_def)
    next
      case (Some y)
      then show ?thesis using undo[OF t] by (simp add: xe wp)
    qed
  qed simp
  show ?thesis unfolding scan_live_syscalls_def wpP_bind wpP_simps
    apply (simp only: if_distribR prod.case wpP_bind wpP_simps split: if_split)
    apply (intro conjI impI armed same)
    done
qed

text \<open>
  Apart from the hooks \<open>H\<close> of the memory monitor, the breakpoints are those from before, \<open>B\<close>, and the
  monitor's own; the sites of the defense are those from before, \<open>X\<close>, and the monitor's own. It owns
  none while it is off, and a scan reads at most its budget.
\<close>

definition mon_inv :: "'w lldb \<Rightarrow> int set \<Rightarrow> int set \<Rightarrow> int list \<Rightarrow> ('w, 'z) monitor_dbg_scheme \<Rightarrow> bool" where
  "mon_inv L H B X s = (set (bp_ids L (world s)) - (H \<union> set (mo_owned s)) = B \<and>
     set (sx_direct s) \<subseteq> set (bp_ids L (world s)) \<and> set (mo_owned s) \<subseteq> set (sx_direct s) \<and>
     filter (\<lambda>i. i \<notin> set (mo_owned s)) (sx_direct s) = X \<and>
     (mo_enabled s \<or> mo_owned s = []) \<and> sum_list (map mr_bytes (mo_rows s)) \<le> BUDGET)"

lemma mon_invI:
  assumes "mon_inv L H B X s" "bp_ids L (world t) = bp_ids L (world s)" "sx_direct t = sx_direct s" "mo_owned t = mo_owned s"
    "mo_enabled t = mo_enabled s" "mo_rows t = mo_rows s"
  shows "mon_inv L H B X t"
  using assms by (simp add: mon_inv_def)

lemma wp_drop_sites:
  assumes law: "bp_delete_law L" and inv: "mon_inv L H B X s" and stale: "set stale \<subseteq> set (mo_owned s)"
  shows "wpP (drop_sites L stale) (\<lambda>_ t. mon_inv L H B X t \<and> mo_enabled t = mo_enabled s) (\<lambda>_ _. False) s"
  unfolding drop_sites_def wp
proof (rule wpP_weaken[OF wp_delete_ids[OF law]])
  fix t :: "('a, 'b) monitor_dbg_scheme"
  assume "\<exists>w h. t = s\<lparr>world := w, hardware_ids := h\<rparr> \<and> bp_ids L w = filter (\<lambda>i. i \<notin> set stale) (bp_ids L (world s))"
  then obtain w h where t: "t = s\<lparr>world := w, hardware_ids := h\<rparr>" "bp_ids L w = filter (\<lambda>i. i \<notin> set stale) (bp_ids L (world s))" by blast
  let ?o = "filter (\<lambda>i. i \<notin> set stale) (mo_owned s)" and ?d = "filter (\<lambda>i. i \<notin> set stale) (sx_direct s)"
  let ?u = "t\<lparr>mo_owned := filter (\<lambda>i. i \<notin> set stale) (mo_owned t),
      mo_locations := filter (\<lambda>(i, a). i \<notin> set stale) (mo_locations t), sx_direct := filter (\<lambda>i. i \<notin> set stale) (sx_direct t)\<rparr>"
  have "filter (\<lambda>i. i \<notin> set ?o) ?d = filter (\<lambda>i. i \<notin> set (mo_owned s)) (sx_direct s)"
    using stale unfolding filter_filter by (intro filter_cong) auto
  then show "mon_inv L H B X ?u \<and> mo_enabled ?u = mo_enabled s"
    using inv stale by (auto simp: mon_inv_def t)
qed simp

text \<open>A scan of a region makes what it created its own.\<close>

lemma wp_scan_changed:
  fixes s :: "('w, 'z) monitor_dbg_scheme"
  assumes laws: "bp_delete_law L" "bp_command_law L" and inv: "mon_inv L H B X s" and on: "mo_enabled s"
  shows "wpP (scan_changed L S a n d row) (\<lambda>x t. mon_inv L H B X t \<and> mo_enabled t \<and> mr_bytes (fst x) = mr_bytes row)
    (\<lambda>_. mon_inv L H B X) s"
proof -
  let ?Q = "\<lambda>(x :: monitor_row \<times> bool) t. mon_inv L H B X t \<and> mo_enabled t \<and> mr_bytes (fst x) = mr_bytes row"
  have scan: "wpP (catchP
        (bindP (scan_live_syscalls L S a n) (\<lambda>k.
         seqP (modP (\<lambda>s. let created = filter (\<lambda>i. i \<notin> set (sx_direct t)) (sx_direct s) in
            s\<lparr>mo_owned := mo_owned s @ created,
              mo_locations := fold (\<lambda>i. od_set i (first_address L (world s) i)) created (mo_locations s),
              mo_previous := od_set a (d, n) (mo_previous s)\<rparr>))
         (retP (row\<lparr>mr_new := Some k\<rparr>, False))))
        (\<lambda>e. case e of RuntimeError m \<Rightarrow> retP (row\<lparr>mr_error := Some m\<rparr>, True)
           | ValueError m \<Rightarrow> retP (row\<lparr>mr_error := Some m\<rparr>, True)
           | _ \<Rightarrow> raiseP e)) ?Q (\<lambda>_. mon_inv L H B X) t" if t: "mon_inv L H B X t" "mo_enabled t" for t :: "('w, 'z) monitor_dbg_scheme"
    unfolding wpP_bind(1,3)
  proof (rule wpP_weaken[OF wp_scan_live[OF laws]])
    fix k u assume "\<exists>ids. scan_left L t ids u"
    then obtain ids where u: "scan_left L t ids u" by blast
    then have created: "filter (\<lambda>i. i \<notin> set (sx_direct t)) (sx_direct u) = ids"
      using t(1) by (auto simp: scan_left_def mon_inv_def filter_empty_conv intro!: filter_True)
    have mine: "filter (\<lambda>i. i \<notin> set (mo_owned t @ ids)) (sx_direct t @ ids) = filter (\<lambda>i. i \<notin> set (mo_owned t)) (sx_direct t)"
      using u t(1) by (auto simp: scan_left_def mon_inv_def filter_empty_conv intro!: filter_cong)
    show "wpP (seqP (modP (\<lambda>s. let created = filter (\<lambda>i. i \<notin> set (sx_direct t)) (sx_direct s) in
            s\<lparr>mo_owned := mo_owned s @ created,
              mo_locations := fold (\<lambda>i. od_set i (first_address L (world s) i)) created (mo_locations s),
              mo_previous := od_set a (d, n) (mo_previous s)\<rparr>))
         (retP (row\<lparr>mr_new := Some k\<rparr>, False))) ?Q (\<lambda>e. wpP (case e of
             RuntimeError m \<Rightarrow> retP (row\<lparr>mr_error := Some m\<rparr>, True)
           | ValueError m \<Rightarrow> retP (row\<lparr>mr_error := Some m\<rparr>, True)
           | _ \<Rightarrow> raiseP e) ?Q (\<lambda>_. mon_inv L H B X)) u"
      unfolding wp Let_def created using u t mine by (auto simp: scan_left_def mon_inv_def simp del: filter_append)
  next
    fix e u assume u: "scan_left L t [] u"
    have "mon_inv L H B X u" "mo_enabled u" using u t by (auto simp: scan_left_def intro: mon_invI)
    then show "wpP (case e of RuntimeError m \<Rightarrow> retP (row\<lparr>mr_error := Some m\<rparr>, True)
           | ValueError m \<Rightarrow> retP (row\<lparr>mr_error := Some m\<rparr>, True)
           | _ \<Rightarrow> raiseP e) ?Q (\<lambda>_. mon_inv L H B X) u" by (auto simp: wp split: exn.split)
  qed
  show ?thesis
    unfolding scan_changed_def wpP_bind(1,2) wpP_simps(3)
  proof (rule wpP_weaken[OF wp_drop_sites[OF laws(1) inv]])
    fix x and t :: "('w, 'z) monitor_dbg_scheme" assume "mon_inv L H B X t \<and> mo_enabled t = mo_enabled s"
    then have t: "mon_inv L H B X t" "mo_enabled t" using on by simp_all
    show "wpP (catchP
        (bindP (scan_live_syscalls L S a n) (\<lambda>k.
         seqP (modP (\<lambda>s. let created = filter (\<lambda>i. i \<notin> set (sx_direct t)) (sx_direct s) in
            s\<lparr>mo_owned := mo_owned s @ created,
              mo_locations := fold (\<lambda>i. od_set i (first_address L (world s) i)) created (mo_locations s),
              mo_previous := od_set a (d, n) (mo_previous s)\<rparr>))
         (retP (row\<lparr>mr_new := Some k\<rparr>, False))))
        (\<lambda>e. case e of RuntimeError m \<Rightarrow> retP (row\<lparr>mr_error := Some m\<rparr>, True)
           | ValueError m \<Rightarrow> retP (row\<lparr>mr_error := Some m\<rparr>, True)
           | _ \<Rightarrow> raiseP e)) ?Q (\<lambda>_. mon_inv L H B X) t" by (rule scan[OF t])
  qed auto
qed

text \<open>A scan of the whole memory map within the budget.\<close>

definition scanning :: "'w lldb \<Rightarrow> int set \<Rightarrow> int set \<Rightarrow> int list \<Rightarrow> scan_state \<Rightarrow> ('w, 'z) monitor_dbg_scheme \<Rightarrow> bool" where
  "scanning L H B X c s = (mon_inv L H B X s \<and> mo_enabled s \<and> 0 \<le> sc_left c \<and>
     sum_list (map mr_bytes (sc_rows c)) + sc_left c \<le> BUDGET)"

lemma if_cases: "(b \<Longrightarrow> P) \<Longrightarrow> (\<not> b \<Longrightarrow> Q) \<Longrightarrow> (if b then P else Q)"
  by simp

lemma wp_scan_region:
  fixes s :: "('w, 'z) monitor_dbg_scheme"
  assumes laws: "bp_delete_law L" "bp_command_law L" "read_law L" and c: "scanning L H B X c s"
  shows "wpP (scan_region L S V r c) (scanning L H B X) (\<lambda>_. mon_inv L H B X) s"
proof -
  define room where "room = min (rg_size r) (min (256 * 1024) (sc_left c))"
  let ?len = "room - room mod 4" and ?data = "read_memory L (world s) (rg_base r) (nat (room - room mod 4))"
  let ?row = "\<lparr>mr_address = rg_base r, mr_bytes = int (length ?data), mr_omitted = rg_size r - ?len, mr_error = None, mr_new = None\<rparr>"
  consider (skipped) "rg_prot r AND 4 = 0 \<or> system_region r" | (spent) "\<not> (rg_prot r AND 4 = 0 \<or> system_region r)" "room \<le> 0"
    | (read) "\<not> (rg_prot r AND 4 = 0 \<or> system_region r)" "\<not> room \<le> 0" by blast
  then show ?thesis
  proof cases
    case skipped
    show ?thesis unfolding scan_region_def if_P[OF skipped] wpP_simps(1) by (rule c)
  next
    case spent
    show ?thesis unfolding scan_region_def Let_def room_def[symmetric] if_not_P[OF spent(1)] if_P[OF spent(2)] wpP_simps(1)
      using c by (simp add: scanning_def)
  next
    case read
    then have len: "0 \<le> ?len" "?len \<le> sc_left c" using zmod_le_nonneg_dividend[of room 4] unfolding room_def by linarith+
    have data: "int (length ?data) \<le> ?len" using read_memory_length[OF laws(3), of "world s" "rg_base r" "nat ?len"] len(1) by linarith
    have inv: "mon_inv L H B X s" "mo_enabled s" using c by (simp_all add: scanning_def)
    let ?d = "c\<lparr>sc_left := sc_left c - ?len, sc_ranges := sc_ranges c @ [(rg_base r, rg_base r + ?len)]\<rparr>"
    have row: "scanning L H B X (?d\<lparr>sc_rows := sc_rows ?d @ [row], sc_failed := f\<rparr>) t"
        "scanning L H B X (?d\<lparr>sc_rows := sc_rows ?d @ [row]\<rparr>) t"
      if "mon_inv L H B X t" "mo_enabled t" "mr_bytes row = mr_bytes ?row" for row f and t :: "('w, 'z) monitor_dbg_scheme"
      using that len data c by (simp_all add: scanning_def)
    have changed: "wpP (scan_changed L S (rg_base r) ?len dig ?row) (\<lambda>x. wpP (case x of (row', failed) \<Rightarrow>
        retP (?d\<lparr>sc_rows := sc_rows ?d @ [row'], sc_failed := sc_failed ?d \<or> failed\<rparr>)) (scanning L H B X) (\<lambda>_. mon_inv L H B X))
        (\<lambda>_. mon_inv L H B X) s" for dig
      by (rule wpP_weaken[OF wp_scan_changed[OF laws(1,2) inv]])
        (simp only: split_beta wpP_simps(1), rule row(1), simp_all only: simp_thms)
    show ?thesis
      unfolding scan_region_def Let_def room_def[symmetric] if_not_P[OF read(1)] if_not_P[OF read(2)] wpP_bind(1) wpP_simps(3) prod.case wpP_if if_distribR
        wpP_simps(1)
      by (intro if_cases changed row inv) simp_all
  qed
qed

lemma wp_monitor_observe:
  fixes s :: "('w, 'z) monitor_dbg_scheme"
  assumes laws: "bp_delete_law L" "bp_command_law L" "read_law L" and inv: "mon_inv L H B X s"
  shows "wpP (monitor_observe L S V) (\<lambda>_. mon_inv L H B X) (\<lambda>_. mon_inv L H B X) s"
proof (cases "mo_enabled s")
  case True
  have fin: "wpP (drop_sites L stale) (\<lambda>_ u. mon_inv L H B X (u\<lparr>mo_rows := sc_rows c\<rparr>)) (\<lambda>_. mon_inv L H B X) t"
    if "mon_inv L H B X t" "set stale \<subseteq> set (mo_owned t)" "sum_list (map mr_bytes (sc_rows c)) \<le> BUDGET"
    for stale c and t :: "('w, 'z) monitor_dbg_scheme"
    by (rule wpP_weaken[OF wp_drop_sites[OF laws(1) that(1,2)]]) (use that(3) in \<open>auto simp: mon_inv_def\<close>)
  have start: "scanning L H B X \<lparr>sc_left = BUDGET, sc_rows = [], sc_failed = False, sc_ranges = []\<rparr> s"
    using inv True by (simp add: scanning_def BUDGET_def)
  have on: "(\<not> mo_enabled s) = False" using True by simp
  show ?thesis
    unfolding monitor_observe_def wpP_bind wpP_simps prod.case on if_False
  proof (rule wpP_weaken[OF wpP_fold[where I = "scanning L H B X" and E = "\<lambda>_. mon_inv L H B X"]])
    fix c and t :: "('w, 'z) monitor_dbg_scheme" assume c: "scanning L H B X c t"
    let ?t = "t\<lparr>mo_previous := filter (\<lambda>(a, x). a \<in> fst ` set (sc_ranges c)) (mo_previous t)\<rparr>"
    have "mon_inv L H B X ?t" "sum_list (map mr_bytes (sc_rows c)) \<le> BUDGET"
      using c by (auto simp: scanning_def intro: mon_invI)
    then show "wpP (drop_sites L (filter (\<lambda>i. \<not> list_ex (\<lambda>(a, b). a \<le> location_of ?t i \<and> location_of ?t i < b) (sc_ranges c)) (mo_owned ?t)))
        (\<lambda>_ u. mon_inv L H B X (u\<lparr>mo_rows := sc_rows c\<rparr>)) (\<lambda>_. mon_inv L H B X) ?t"
      by (intro fin) auto
  qed (use start wp_scan_region[OF laws] in auto)
qed (use inv in \<open>simp add: monitor_observe_def wp\<close>)

text \<open>
  What the memory monitor does when it is switched: it changes no record of this component and, among
  the breakpoints, only its own hooks; a breakpoint of the defense is never one of these.
\<close>

definition switch_law :: "'w lldb \<Rightarrow> int set \<Rightarrow> ('w, 'z) monitor_dbg_scheme memory_switch \<Rightarrow> bool" where
  "switch_law L H M = (\<forall>m \<in> {ms_enable M, ms_disable M}. \<forall>s. let t = snd (m s) in
     mo_owned t = mo_owned s \<and> sx_direct t = sx_direct s \<and> mo_enabled t = mo_enabled s \<and> mo_rows t = mo_rows s \<and>
     set (bp_ids L (world t)) - H = set (bp_ids L (world s)) - H \<and>
     set (sx_direct s) \<inter> set (bp_ids L (world s)) \<subseteq> set (bp_ids L (world t)))"

lemma switch_keeps:
  fixes M :: "('a, 'b) monitor_dbg_scheme memory_switch"
  assumes "switch_law L H M"
  shows "keepsP (mon_inv L H B X) (ms_enable M)" "keepsP (mon_inv L H B X) (ms_disable M)"
proof -
  have "keepsP (mon_inv L H B X) m" if m: "m \<in> {ms_enable M, ms_disable M}" for m
    unfolding keepsP_def
  proof (intro allI impI)
    fix s :: "('a, 'b) monitor_dbg_scheme" assume s: "mon_inv L H B X s"
    define t where "t = snd (m s)"
    have t: "mo_owned t = mo_owned s" "sx_direct t = sx_direct s" "mo_enabled t = mo_enabled s" "mo_rows t = mo_rows s"
      "set (bp_ids L (world t)) - H = set (bp_ids L (world s)) - H"
      "set (sx_direct s) \<inter> set (bp_ids L (world s)) \<subseteq> set (bp_ids L (world t))"
      using assms m unfolding switch_law_def Let_def t_def by blast+
    have "set (bp_ids L (world t)) - (H \<union> set (mo_owned t)) = set (bp_ids L (world s)) - (H \<union> set (mo_owned s))"
      using t(5) unfolding t(1) by blast
    then show "mon_inv L H B X (snd (m s))" unfolding t_def[symmetric] using s t by (auto simp: mon_inv_def)
  qed
  then show "keepsP (mon_inv L H B X) (ms_enable M)" "keepsP (mon_inv L H B X) (ms_disable M)" by simp_all
qed

lemma monitor_on_keeps:
  assumes laws: "bp_delete_law L" "bp_command_law L" "read_law L" and M: "switch_law L H M"
  shows "keepsP (mon_inv L H B X) (monitor_configure L S V M True)"
proof -
  have observe: "keepsP (mon_inv L H B X) (monitor_observe L S V)"
    using wp_monitor_observe[OF laws] unfolding keepsP_wp by blast
  show ?thesis unfolding monitor_configure_def if_True
    by (intro keeps observe switch_keeps[OF M] keepsP_mod) (auto simp: mon_inv_def)
qed

lemma wp_monitor_off:
  fixes s :: "('w, 'z) monitor_dbg_scheme"
  assumes laws: "bp_delete_law L" and M: "switch_law L H M" and inv: "mon_inv L H B X s"
  shows "wpP (monitor_configure L S V M False) (\<lambda>_ t. mon_inv L H B X t) (\<lambda>_. mon_inv L H B X) s"
proof -
  let ?off = "\<lambda>t :: ('w, 'z) monitor_dbg_scheme. t\<lparr>sx_direct := filter (\<lambda>i. i \<notin> set (mo_owned s)) (sx_direct t)\<rparr>"
  have rest: "wpP (bindP (getP mo_owns_memory) (\<lambda>owns. seqP (whenP owns (ms_disable M)) (modP (\<lambda>s. s\<lparr>mo_owns_memory := False\<rparr>))))
      (\<lambda>_ t. mon_inv L H B X t) (\<lambda>_. mon_inv L H B X) t" if "mon_inv L H B X t" for t
    using that by (intro keepsP_use[where I = "mon_inv L H B X"]) (intro keeps switch_keeps[OF M] keepsP_mod, auto simp: mon_inv_def)
  show ?thesis
    unfolding monitor_configure_def if_False wpP_bind(1)[of "getP mo_owned"] wpP_simps(3) wpP_bind(2) wpP_simps(4)
  proof (rule wpP_weaken[OF wp_delete_ids[OF laws]])
    fix t :: "('w, 'z) monitor_dbg_scheme"
    assume "\<exists>w h. t = s\<lparr>world := w, hardware_ids := h\<rparr> \<and> bp_ids L w = filter (\<lambda>i. i \<notin> set (mo_owned s)) (bp_ids L (world s))"
    then obtain w h where t: "t = s\<lparr>world := w, hardware_ids := h\<rparr>" "bp_ids L w = filter (\<lambda>i. i \<notin> set (mo_owned s)) (bp_ids L (world s))" by blast
    show "wpP (bindP (getP mo_owns_memory) (\<lambda>owns. seqP (whenP owns (ms_disable M)) (modP (\<lambda>s. s\<lparr>mo_owns_memory := False\<rparr>))))
      (\<lambda>_ t. mon_inv L H B X t) (\<lambda>_. mon_inv L H B X)
      ((if mo_enabled (?off t) \<and> sx_direct (?off t) = [] then (?off t)\<lparr>sx_requested := mo_requested (?off t)\<rparr> else ?off t)
        \<lparr>mo_owned := [], mo_locations := [], mo_previous := [], mo_rows := [], mo_enabled := False\<rparr>)"
      by (rule rest) (use inv in \<open>auto simp: mon_inv_def t BUDGET_def\<close>)
  qed simp
qed

section \<open>A session of the monitor\<close>

text \<open>The target runs between stops; what it does leaves the breakpoints as they are.\<close>

datatype 'w monitor_op = MonSwitch bool | MonStop | MonRuns 'w

fun monitor_step :: "'w lldb \<Rightarrow> 'w sandbox_env \<Rightarrow> 'w monitor_env \<Rightarrow> ('w, 'z) monitor_dbg_scheme memory_switch \<Rightarrow>
    'w monitor_op \<Rightarrow> ('w, 'z) monitor_dbg_scheme \<Rightarrow> ('w, 'z) monitor_dbg_scheme" where
  "monitor_step L S V M (MonSwitch b) s = snd (monitor_configure L S V M b s)"
| "monitor_step L S V M MonStop s = snd (monitor_observe L S V s)"
| "monitor_step L S V M (MonRuns w) s = (if bp_ids L w = bp_ids L (world s) then s\<lparr>world := w\<rparr> else s)"

lemma monitor_step_keeps:
  assumes laws: "bp_delete_law L" "bp_command_law L" "read_law L" and M: "switch_law L H M" and inv: "mon_inv L H B X s"
  shows "mon_inv L H B X (monitor_step L S V M op s)"
proof (cases op)
  case (MonSwitch b)
  have "keepsP (mon_inv L H B X) (monitor_configure L S V M b)"
    using monitor_on_keeps[OF laws M] wp_monitor_off[OF laws(1) M] by (cases b) (simp_all add: keepsP_wp)
  from keepsP_D[OF this inv] show ?thesis by (simp add: MonSwitch)
next
  case MonStop
  have "keepsP (mon_inv L H B X) (monitor_observe L S V)" using wp_monitor_observe[OF laws] unfolding keepsP_wp by blast
  from keepsP_D[OF this inv] show ?thesis by (simp add: MonStop)
next
  case (MonRuns w)
  then show ?thesis using inv by (auto intro: mon_invI)
qed

lemma monitor_session_keeps:
  assumes laws: "bp_delete_law L" "bp_command_law L" "read_law L" and M: "switch_law L H M"
  shows "mon_inv L H B X s \<Longrightarrow> mon_inv L H B X (fold (monitor_step L S V M) ops s)"
  by (induction ops arbitrary: s) (simp_all add: monitor_step_keeps[OF assms])


definition demo_monitor :: "demo_world monitor_dbg" where
  "demo_monitor = sandbox_dbg.extend (demo_forking\<lparr>sx_direct := [1]\<rparr>)
     \<lparr>mo_enabled = False, mo_previous = [], mo_owned = [], mo_locations = [], mo_rows = [], mo_owns_memory = False, mo_requested = False\<rparr>"

definition demo_monitor_env :: "demo_world monitor_env" where
  "demo_monitor_env = \<lparr>me_regions = (\<lambda>_. [\<lparr>rg_base = 0x1000, rg_end = 0x1008, rg_prot = 5, rg_name = ''demo''\<rparr>]), me_digest = take 32\<rparr>"

definition demo_switch :: "demo_world monitor_dbg memory_switch" where
  "demo_switch = \<lparr>ms_on = (\<lambda>_. False), ms_enable = retP (), ms_disable = retP ()\<rparr>"


section \<open>Sites switched off behind the monitor\<close>

text \<open>
  Switching the scan of the defense off deletes the sites of the monitor too but not its records, and a
  region whose bytes are those of the last scan is not armed again: the monitor stays on, shows its
  sites, and none of them has a breakpoint.
\<close>

lemma disabled_scan_keeps_records:
  fixes s :: "('w, 'z) monitor_dbg_scheme"
  shows "keepsP (\<lambda>t :: ('w, 'z) monitor_dbg_scheme. mo_previous t = p \<and> mo_owned t = own \<and> mo_enabled t) (disable_direct_syscall_scan L)"
  unfolding disable_direct_syscall_scan_def delete_each_def
  by (intro keeps keepsP_mod) (auto simp: dbg_frame_def intro!: keeps keepsP_mod split: prod.splits)

lemma unchanged_region_not_armed:
  fixes s :: "('w, 'z) monitor_dbg_scheme"
  assumes room: "room = min (rg_size r) (min (256 * 1024) (sc_left c))"
    and old: "map_of (mo_previous s) (rg_base r) =
    Some (me_digest V (read_memory L (world s) (rg_base r) (nat (room - room mod 4))), room - room mod 4)"
  shows "snd (scan_region L S V r c s) = s"
  unfolding scan_region_def Let_def room[symmetric]
  by (simp only: if_distribR run_bind(1) run_simps sum.case prod.case old split: if_split) simp

end
