(* ===== verification/Spec2Isabelle.thy ===== *)
theory Spec2Isabelle
  imports CodeFlow Assembler TraceLog HttpCapture EntryPlan MemoryAnalysis Timing PatchExport ScriptPayload SavedState
    InstructionTrace Defenses CloakSwitch ClockBindings CodeGraph Inspect SelfTrap AutoClock Sandbox
    ExecGate Stepping Tracer SessionTools SyscallMonitor
begin

text \<open>
  \<^bold>\<open>What this is.\<close> macdbg is a debugger for hostile macOS binaries: a Python core drives LLDB, a
  headless agent and a GUI drive the core. This development models the core under
  \<open>src/macdbg/core/\<close> as HOL functions and proves what the analyst relies on: what is shown
  is what is there, bounded stores stay bounded, a change of the target is carried out completely
  or undone, and no defense leaves anything behind.

  \<^bold>\<open>How the program works.\<close> \<open>Debugger\<close> (\<open>debugger.py\<close>) owns the LLDB target, the lists of hook
  breakpoints and the components, one object each. The target runs until it stops; every stop is
  offered to the components in a fixed order (clocks, hardware recovery, memory guard, entry plan,
  script gate, timing rules, defenses, tracer), and each may consume it and resume. Commands of the
  user reach the same objects between stops. So the state of a component changes by its commands
  and by stops, and everything it does to the target goes through LLDB: breakpoints, memory,
  registers, commands, and resuming.

  \<^bold>\<open>How it is modelled.\<close> Code without state is a function on HOL data. Code with state is a
  computation of \<open>Effects\<close>: from a state to a value or a Python exception, with the state left in
  either case; \<open>try\<close>, \<open>finally\<close> and \<open>for\<close> have their combinators, and \<open>wpP\<close> (rules in
  the collection \<open>wp\<close>) reasons about them. The state of a component is a record whose fields are
  the attributes of its Python object; components that share the debugger extend one record of
  \<open>Debugger\<close>'s attributes, so that what one leaves alone is visible in the types. LLDB is not part of
  the repository: its state is an opaque world, and the record \<open>lldb\<close> of \<open>Lldb\<close>, with the
  \<open>..._env\<close> records of the components, hold the calls the code makes. Theorems name the
  documented behaviour they rely on (\<open>bp_delete_law\<close>, \<open>bp_command_law\<close>, \<open>mem_law\<close> and the laws
  beside each \<open>env\<close>), and their witnesses satisfy these by a small concrete target,
  \<open>demo_lldb\<close> on \<open>demo_world\<close>. Other outside code (the assembler toolchain, digests, host clocks, the
  file system's refusals, random epochs) is an argument in the same way. Python integers are \<open>int\<close>
  or \<open>nat\<close>, values of registers and instructions are words of their width, bytes are
  \<open>8 word list\<close>, text is a list of characters up to code point 255, dictionaries keep
  their insertion order, a set the code iterates is a list in the order of iteration. Floats are
  kept as their text.

  \<^bold>\<open>The library.\<close>
  \<^item> \<open>Prelude\<close>, \<open>PyText\<close>, \<open>Regex\<close>, \<open>Json\<close>, \<open>JsonRead\<close>: Python values and exceptions, bounded histories,
    \<open>str\<close> and \<open>bytes\<close>, the regular expressions of the sources, \<open>json.dumps\<close> and \<open>json.loads\<close>
    (reading back what was written is proved there, with the length of the text as fuel).
  \<^item> \<open>Effects\<close>: computations, their weakest preconditions, and \<open>keepsP\<close> and \<open>yieldsP\<close>, which say what a
    computation never changes and what it always gives, in the collections \<open>keeps\<close> and \<open>yields\<close>.
  \<^item> \<open>Lldb\<close>: the interface to LLDB, the shared attributes of \<open>Debugger\<close>, and the small concrete target.

  \<^bold>\<open>Reading code.\<close>
  \<^item> \<open>Arm64Operands\<close> (\<open>arm64_operands.py\<close>), \<open>Disasm\<close> (\<open>disasm.py\<close>), \<open>CodeFlow\<close> (\<open>code_flow.py\<close>),
    \<open>CodeGraph\<close> (\<open>code_navigation.py\<close>): operands, branch prediction, the gutter, constant propagation,
    basic blocks and edges. The address of an access is the one of the architecture; no constant
    crosses a block boundary; blocks partition a listing and edges lead from its blocks.
  \<^item> \<open>Assembly\<close>, \<open>Assembler\<close> (\<open>assembly.py\<close>): what is encoded decodes, by an independent decoder, to the
    requested instruction, and the layout of the assembled code has every line at its place.
  \<^item> \<open>MachO\<close> (\<open>macho.py\<close>): no file makes the reader raise anything but \<open>ValueError\<close>, and its maps
    between addresses and file offsets are inverse to each other.
  \<^item> \<open>Inspect\<close> (\<open>registers.py\<close>, \<open>memory.py\<close>, \<open>address.py\<close>) and \<open>Markers\<close> (text tests of
    \<open>anti_analysis.py\<close>): the panes, typed addresses, marker strings.

  \<^bold>\<open>Bounded records.\<close>
  \<^item> \<open>TraceLog\<close> (\<open>trace_log.py\<close>), \<open>HttpCapture\<close> (\<open>http_capture.py\<close>), \<open>ScriptPayload\<close>
    (\<open>script_payload.py\<close>), \<open>MemoryAnalysis\<close> (\<open>analysis_memory.py\<close>), \<open>InstructionTrace\<close>
    (\<open>instruction_trace.py\<close> and the loop \<open>cmd_trace_run\<close> of \<open>agent/session.py\<close>): invariants over every
    sequence of operations from the initial state bound what is kept; a recorded row is read back.
    The loop of an automatic run ends: its number of steps and the waits up to its deadline (302: a wait lasts a
    second, a run 300 at most) bound it, and that bound is the fuel of its model.
  \<^item> \<open>SavedState\<close> (\<open>state.py\<close>), \<open>PatchExport\<close> (\<open>patch_export.py\<close> and the memory writes of
    \<open>debugger.py\<close>): what is saved is loaded, a failed save or import leaves everything as it was.

  \<^bold>\<open>Breakpoints and time.\<close>
  \<^item> \<open>Breakpoints\<close> (\<open>breakpoints.py\<close>), \<open>ReturnHooks\<close> (\<open>return_hooks.py\<close>), \<open>EntryPlan\<close>
    (\<open>entry_plan.py\<close>), \<open>Timing\<close> (\<open>timing.py\<close>): allocation of debug registers is atomic, a lost
    hardware stop is recovered once and at its own site, hooks are consumed once.
  \<^item> \<open>Pauses\<close>, \<open>AutoClock\<close> (\<open>auto_clock.py\<close>), \<open>ClockBindings\<close> (\<open>clock_bindings.py\<close>): the clock the target
    sees is its own running time; installing the hooks is all or nothing.
  \<^item> \<open>Stepping\<close> (\<open>debugger.py\<close>): every resume is checked first, and each stop of a user step is ignored,
    ends the step with LLDB's policy restored, or goes on to the same depth.

  \<^bold>\<open>Defenses.\<close>
  \<^item> \<open>Defenses\<close>, \<open>Sandbox\<close>, \<open>ExecGate\<close> (\<open>debugger.py\<close>): the hooks, which several defenses share, with the
    rule that no session of switching leaks or loses a breakpoint; forks, inline system calls and
    the gate before programs start.
  \<^item> \<open>Cloak\<close>, \<open>CloakHits\<close>, \<open>CloakSwitch\<close> (\<open>anti_analysis.py\<close>): the identity profile, the replaced results
    and their rollback, and the proof that switching the cloak on is all or nothing.
  \<^item> \<open>ScriptExec\<close> (\<open>script_exec.py\<close>), \<open>SelfTrap\<close> (\<open>self_trap.py\<close>): a refused script call and a forwarded
    trap never cost the target its context.

  \<^bold>\<open>Tracing.\<close>
  \<^item> \<open>NetworkCapture\<close> (\<open>network_capture.py\<close>), \<open>ApiFormat\<close> and \<open>Tracer\<close> (\<open>tracer.py\<close>): breakpoints at the
    entries of system and library calls, the line and the captured bytes of each call, and the
    return it waits for (through \<open>ReturnHooks\<close>). Streams belong to the process seen last, a buffer is
    assembled once, a return shows what the call delivered, and arming is all or nothing.
  \<^item> \<open>SyscallMonitor\<close> (\<open>syscall_monitor.py\<close>) scans changed executable memory at every stop and
    creates and deletes only breakpoints of its own;
    \<open>SessionTools\<close> (\<open>session_tools.py\<close>) changes signal policies as a whole and lists descendants.

  \<^bold>\<open>Bounds and fuel.\<close> Recursion is structural or has a proved measure wherever the code's loop ends. Fuel
  appears where the loop depends on the outside: the waits of an automatic run (above), the search
  for a free file name (the number of existing files plus one: among that many candidates one is
  free), the reader of JSON (the length of the text: every nested value and every
  element consumes a character). Each is shown or argued enough where it is introduced.

  \<^bold>\<open>What the proofs found.\<close> The findings of the manifest name the lemma that shows each: among them, that
  following the parent of a fork with the cloak on leaves the target stopped with all breakpoints
  disabled (\<open>parent_fork_refused\<close> in \<open>Sandbox\<close>), and that switching off the scan for inline system calls
  leaves the syscall monitor without breakpoints until its memory changes (\<open>unchanged_region_not_armed\<close> in \<open>SyscallMonitor\<close>).

  \<^bold>\<open>Not modelled.\<close>
  \<^item> The sessions and servers around the core: the command tables, prompts, sockets and launching of
    \<open>agent/\<close> (except the automatic run), and \<open>GUI/\<close>, which display what the core computes. Threads are
    not modelled: an operation under a lock is one step. \<open>session_controller.py\<close> and \<open>events.py\<close> pass the
    stops to the components, and \<open>offline_network.py\<close> is sockets and TLS servers.
  \<^item> \<open>_vendor/osa\<close>: a third-party AppleScript decompiler, run in another process by
    \<open>script_preview_worker.py\<close>; \<open>native/\<close>: C code.
  \<^item> Of \<open>debugger.py\<close>, launching, attaching and disposing of a target, which are sequences of LLDB calls,
    and the listings of modules, threads and stacks.
  \<^item> Of partly modelled files: the LLDB walk behind a disassembly listing, the readable
    interpretations of HTTP bodies (they rest on the \<open>email\<close> package), \<open>restore_breakpoint\<close> (LLDB's own
    files), the descriptors and signing of a patched copy, the lock of the recorder, and writing
    the files of a dump.
\<close>

end
